(* ===== verification/Control_Prelude.thy ===== *)
theory Control_Prelude
  imports Main "HOL-Library.AList" "HOL-Library.Char_ord" "HOL-Library.List_Lexorder"
begin

text \<open>
  Shared vocabulary of the development: the exceptions of the modelled Python code as a
  datatype, results as sums, the Python list and dictionary idioms the control plane uses
  (\<open>dict\<close> with insertion order, \<open>max(..., key=...)\<close>, \<open>sorted(..., key=...)\<close>,
  \<open>str.strip\<close>), and the lemmas on them that the component theories share.
\<close>

section \<open>Lemma collections\<close>

named_theorems result_simps \<open>computation rules of results\<close>
named_theorems fold_simps \<open>computation and lookup rules of snapshot folds\<close>
named_theorems frame_simps \<open>fields an operation leaves alone\<close>

section \<open>Exceptions and results\<close>

text \<open>
  One constructor per exception class the modelled code raises. The argument names the
  refused operand or the rule that refused it; message wording is not modelled.
\<close>

datatype py_error =
    KeyError string
  | ValueError string
  | TypeError string
  | OverflowError string
  | ValidationError string
  | LifecycleError string
  | GuardedStartError string
  | SaveGateRequired string
  | DurableStoreError string
  | CompactionOwnerError string
  | UnsafeLockFilesystemError string
  | CheckoutCoordinationError string
  | SeatOccupancyError string
  | StructuralRoutingError string
  | CloseoutQueueStoreError string
  | CloseoutQueueError string
  | OSError string
  | AttributeError string
  | RuntimeError string
  | TaskDocumentRefError string
  | TaskDocError string
  | TaskDocSourceReadError string
  | TaskIntentError string
  | TaskDocumentFieldEffectTaxonomyError string
  | TaskDocumentMutationClassificationError string
  | TaskDocScopeError string
  | MasterSyncError string
  | ReviewHistoryError string
  | CanonicalLeafBindingError string
  | TerminalLeafResolutionError string

type_synonym 'a result = "py_error + 'a"

definition rbind :: "'e + 'a \<Rightarrow> ('a \<Rightarrow> 'e + 'b) \<Rightarrow> 'e + 'b" where
  "rbind m f = (case m of Inl e \<Rightarrow> Inl e | Inr x \<Rightarrow> f x)"

lemma rbind_Inl [simp, result_simps]: "rbind (Inl e) f = Inl e"
  by (simp add: rbind_def)

lemma rbind_Inr [simp, result_simps]: "rbind (Inr x) f = f x"
  by (simp add: rbind_def)

lemma rbind_eq_Inr_iff: "rbind m f = Inr y \<longleftrightarrow> (\<exists>x. m = Inr x \<and> f x = Inr y)"
  by (cases m) auto

lemma rbind_InrE: "rbind m f = Inr y \<Longrightarrow> (\<And>x. m = Inr x \<Longrightarrow> f x = Inr y \<Longrightarrow> P) \<Longrightarrow> P"
  by (cases m) auto

lemma rbind_eq_Inl_iff:
  "rbind m f = Inl e \<longleftrightarrow> m = Inl e \<or> (\<exists>x. m = Inr x \<and> f x = Inl e)"
  by (cases m) auto

lemma rbind_split:
  "P (rbind m f) \<longleftrightarrow> (\<forall>e. m = Inl e \<longrightarrow> P (Inl e)) \<and> (\<forall>x. m = Inr x \<longrightarrow> P (f x))"
  by (cases m) auto

lemma rbind_cong [fundef_cong]:
  "m = m' \<Longrightarrow> (\<And>x. m' = Inr x \<Longrightarrow> f x = f' x) \<Longrightarrow> rbind m f = rbind m' f'"
  by (cases m') auto

text \<open>A list comprehension whose body may raise: the first failure is the failure of the whole.\<close>

primrec traverse :: "('a \<Rightarrow> 'e + 'b) \<Rightarrow> 'a list \<Rightarrow> 'e + 'b list" where
  "traverse f [] = Inr []"
| "traverse f (x # xs) = rbind (f x) (\<lambda>y. rbind (traverse f xs) (\<lambda>ys. Inr (y # ys)))"

lemma traverse_append [simp]:
  "traverse f (xs @ ys) =
     rbind (traverse f xs) (\<lambda>us. rbind (traverse f ys) (\<lambda>vs. Inr (us @ vs)))"
  by (induction xs) (auto simp: rbind_def split: sum.splits)

lemma traverse_Inr_iff: "traverse f xs = Inr ys \<longleftrightarrow> list_all2 (\<lambda>x y. f x = Inr y) xs ys"
proof (induction xs arbitrary: ys)
  case Nil
  then show ?case by auto
next
  case (Cons x xs)
  show ?case by (cases ys) (auto simp: rbind_eq_Inr_iff Cons.IH)
qed

lemma traverse_map_Inr [simp]: "(\<And>x. x \<in> set xs \<Longrightarrow> f x = Inr (g x)) \<Longrightarrow> traverse f xs = Inr (map g xs)"
  by (induction xs) auto

lemma traverse_set: "traverse f xs = Inr ys \<Longrightarrow> y \<in> set ys \<longleftrightarrow> (\<exists>x\<in>set xs. f x = Inr y)"
proof (induction xs arbitrary: ys)
  case (Cons x xs)
  then obtain z zs where "f x = Inr z" "traverse f xs = Inr zs" "ys = z # zs" by (auto elim!: rbind_InrE)
  then show ?case using Cons.IH [of zs] by auto
qed simp

lemma traverse_defined: "traverse f xs = Inr ys \<Longrightarrow> x \<in> set xs \<Longrightarrow> \<exists>y\<in>set ys. f x = Inr y"
  by (induction xs arbitrary: ys) (auto elim!: rbind_InrE)

text \<open>A filter whose condition may raise.\<close>

primrec filter_result :: "('a \<Rightarrow> 'e + bool) \<Rightarrow> 'a list \<Rightarrow> 'e + 'a list" where
  "filter_result f [] = Inr []"
| "filter_result f (x # xs) =
     rbind (f x) (\<lambda>b. rbind (filter_result f xs) (\<lambda>ys. Inr (if b then x # ys else ys)))"

lemma filter_result_Inr: "filter_result f xs = Inr ys \<Longrightarrow> ys = filter (\<lambda>x. f x = Inr True) xs"
  by (induction xs arbitrary: ys) (auto simp: rbind_eq_Inr_iff split: if_splits)

lemma filter_result_total:
  "(\<And>x. x \<in> set xs \<Longrightarrow> f x = Inr (P x)) \<Longrightarrow> filter_result f xs = Inr (filter P xs)"
  by (induction xs) auto

definition option_or :: "'a option \<Rightarrow> 'a option \<Rightarrow> 'a option" where
  "option_or a b = (case a of None \<Rightarrow> b | Some x \<Rightarrow> Some x)"

lemma option_or_simps [simp]:
  "option_or None b = b" "option_or (Some x) b = Some x" "option_or a None = a"
  by (auto simp: option_or_def split: option.splits)

text \<open>\<open>a or b\<close> on optional strings: Python's \<open>or\<close> also skips the empty string.\<close>

definition truthy_str :: "string option \<Rightarrow> bool" where
  "truthy_str s = (case s of None \<Rightarrow> False | Some t \<Rightarrow> t \<noteq> [])"

definition str_or :: "string option \<Rightarrow> string option \<Rightarrow> string option" where
  "str_or a b = (if truthy_str a then a else b)"

lemma truthy_str_simps [simp]: "\<not> truthy_str None" "truthy_str (Some s) \<longleftrightarrow> s \<noteq> []"
  by (simp_all add: truthy_str_def)

section \<open>Handlers\<close>

text \<open>A handler that raises half way keeps what it already wrote: it is a function on the state that
  returns a result and the state it leaves. An operation that writes last is lifted by \<open>awrite\<close>:
  when it raises, it has written nothing.\<close>

type_synonym ('s, 'a) act = "'s \<Rightarrow> 'a result \<times> 's"

definition abind :: "('s, 'a) act \<Rightarrow> ('a \<Rightarrow> ('s, 'b) act) \<Rightarrow> ('s, 'b) act" where
  "abind m f w = (case m w of (Inl e, w') \<Rightarrow> (Inl e, w') | (Inr x, w') \<Rightarrow> f x w')"

definition aread :: "('s \<Rightarrow> 'a result) \<Rightarrow> ('s, 'a) act" where
  "aread f w = (f w, w)"

definition awrite :: "('s \<Rightarrow> ('a \<times> 's) result) \<Rightarrow> ('s, 'a) act" where
  "awrite f w = (case f w of Inl e \<Rightarrow> (Inl e, w) | Inr (x, w') \<Rightarrow> (Inr x, w'))"

lemma abind_Inr [simp]: "m w = (Inr x, w') \<Longrightarrow> abind m f w = f x w'"
  by (simp add: abind_def)

lemma abind_Inl [simp]: "m w = (Inl e, w') \<Longrightarrow> abind m f w = (Inl e, w')"
  by (simp add: abind_def)

lemma abind_eq_Inr:
  "abind m f w = (Inr y, w2) \<longleftrightarrow> (\<exists>x w1. m w = (Inr x, w1) \<and> f x w1 = (Inr y, w2))"
  by (auto simp: abind_def split: sum.splits prod.splits)

lemma aread_eq [simp]: "aread f w = (r, w') \<longleftrightarrow> f w = r \<and> w' = w"
  by (auto simp: aread_def)

lemma awrite_Inr [simp]: "awrite f w = (Inr x, w') \<longleftrightarrow> f w = Inr (x, w')"
  by (auto simp: awrite_def split: sum.splits prod.splits)

lemma awrite_Inl: "awrite f w = (Inl e, w') \<longleftrightarrow> f w = Inl e \<and> w' = w"
  by (auto simp: awrite_def split: sum.splits prod.splits)

section \<open>Strings\<close>

text \<open>\<open>str.isspace\<close> on the characters below 256, and \<open>str.strip()\<close>.\<close>

definition is_space :: "char \<Rightarrow> bool" where
  "is_space c = (let n = of_char c :: nat in
     (9 \<le> n \<and> n \<le> 13) \<or> (28 \<le> n \<and> n \<le> 32) \<or> n = 133 \<or> n = 160)"

definition str_strip :: "string \<Rightarrow> string" where
  "str_strip s = rev (dropWhile is_space (rev (dropWhile is_space s)))"

definition blank :: "string \<Rightarrow> bool" where
  "blank s = list_all is_space s"

lemma str_strip_Nil_iff: "str_strip s = [] \<longleftrightarrow> blank s"
proof -
  have "dropWhile is_space (rev (dropWhile is_space s)) = []
        \<longleftrightarrow> (\<forall>c \<in> set (dropWhile is_space s). is_space c)"
    by (simp add: dropWhile_eq_Nil_conv)
  also have "\<dots> \<longleftrightarrow> (\<forall>c \<in> set s. is_space c)"
    by (induction s) auto
  finally show ?thesis
    by (simp add: str_strip_def blank_def list_all_iff)
qed

section \<open>Python dictionaries\<close>

text \<open>
  A \<open>dict\<close> keeps one value per key in insertion order: \<open>d[k] = v\<close> overwrites in place
  or appends, which is \<^const>\<open>AList.update\<close>. \<open>d.get(k)\<close> is \<^const>\<open>map_of\<close>.
\<close>

type_synonym ('k, 'v) dict = "('k \<times> 'v) list"

abbreviation dict_values :: "('k, 'v) dict \<Rightarrow> 'v list" where
  "dict_values d \<equiv> map snd d"

abbreviation dict_wf :: "('k, 'v) dict \<Rightarrow> bool" where
  "dict_wf d \<equiv> distinct (map fst d)"

text \<open>Folding an append-only log of snapshots by their key, last snapshot winning.\<close>

definition fold_latest :: "('r \<Rightarrow> 'k) \<Rightarrow> 'r list \<Rightarrow> ('k, 'r) dict" where
  "fold_latest key rs = fold (\<lambda>r d. AList.update (key r) r d) rs []"

lemma fold_latest_Nil [simp, fold_simps]: "fold_latest key [] = []"
  by (simp add: fold_latest_def)

lemma fold_latest_snoc [simp, fold_simps]:
  "fold_latest key (rs @ [r]) = AList.update (key r) r (fold_latest key rs)"
  by (simp add: fold_latest_def)

lemma dict_wf_fold_latest [simp]: "dict_wf (fold_latest key rs)"
  by (induction rs rule: rev_induct) (auto simp: distinct_update)

lemma keys_fold_latest: "fst ` set (fold_latest key rs) = key ` set rs"
  by (induction rs rule: rev_induct) (auto simp: dom_update)

lemma lookup_fold_latest_snoc [fold_simps]:
  "map_of (fold_latest key (rs @ [r])) = (map_of (fold_latest key rs))(key r \<mapsto> r)"
  by (simp add: update_conv')

text \<open>The lookup of a fold is the last snapshot with that key.\<close>

lemma lookup_fold_latest:
  "map_of (fold_latest key rs) k =
     (case filter (\<lambda>r. key r = k) rs of [] \<Rightarrow> None | xs \<Rightarrow> Some (last xs))"
proof (induction rs rule: rev_induct)
  case Nil
  then show ?case by simp
next
  case (snoc r rs)
  then show ?case
    by (auto simp: lookup_fold_latest_snoc simp del: fold_latest_snoc split: list.splits)
qed

lemma lookup_fold_latest_key: "map_of (fold_latest key rs) k = Some r \<Longrightarrow> key r = k \<and> r \<in> set rs"
proof -
  assume "map_of (fold_latest key rs) k = Some r"
  then have "filter (\<lambda>r. key r = k) rs \<noteq> []" and "r = last (filter (\<lambda>r. key r = k) rs)"
    by (auto simp: lookup_fold_latest split: list.splits)
  then have "r \<in> set (filter (\<lambda>r. key r = k) rs)"
    using last_in_set by blast
  then show ?thesis by auto
qed

lemma lookup_fold_latest_None: "map_of (fold_latest key rs) k = None \<longleftrightarrow> k \<notin> key ` set rs"
  using keys_fold_latest [of key rs] by (auto simp: map_of_eq_None_iff)

lemma fold_latest_mem: "(k, r) \<in> set (fold_latest key rs) \<Longrightarrow> key r = k \<and> r \<in> set rs"
  using lookup_fold_latest_key [of key rs k r] by simp

text \<open>
  Dropping every snapshot of the keys outside a set of keys keeps the fold of the others:
  the shape of every compaction in the control plane.
\<close>

lemma lookup_fold_latest_filter:
  "map_of (fold_latest key (filter (\<lambda>r. P (key r)) rs)) k =
     (if P k then map_of (fold_latest key rs) k else None)"
proof (cases "P k")
  case True
  then have "filter (\<lambda>r. key r = k) (filter (\<lambda>r. P (key r)) rs) = filter (\<lambda>r. key r = k) rs"
    by (induction rs) auto
  then show ?thesis using True by (simp add: lookup_fold_latest)
next
  case False
  then have "filter (\<lambda>r. key r = k) (filter (\<lambda>r. P (key r)) rs) = []"
    by (induction rs) auto
  then show ?thesis using False by (simp add: lookup_fold_latest)
qed

lemma filter_update_alist:
  "filter (\<lambda>p. P (fst p)) (AList.update k v d) =
     (if P k then AList.update k v (filter (\<lambda>p. P (fst p)) d) else filter (\<lambda>p. P (fst p)) d)"
  by (induction d) auto

lemma fold_latest_filter:
  "fold_latest key (filter (\<lambda>r. P (key r)) rs) = filter (\<lambda>p. P (fst p)) (fold_latest key rs)"
  by (induction rs rule: rev_induct) (auto simp: filter_update_alist)

lemma update_new: "k \<notin> fst ` set d \<Longrightarrow> AList.update k v d = d @ [(k, v)]"
  by (induction d) auto

lemma length_update_le: "length (AList.update k v d) \<le> Suc (length d)"
  by (induction d) auto

lemma length_fold_latest: "length (fold_latest key rs) \<le> length rs"
proof (induction rs rule: rev_induct)
  case (snoc r rs)
  then show ?case using length_update_le [of "key r" r "fold_latest key rs"] by simp
qed simp

text \<open>Folding the values of a folded dictionary gives it back.\<close>

lemma fold_latest_values:
  assumes "dict_wf d" "\<And>p. p \<in> set d \<Longrightarrow> key (snd p) = fst p"
  shows "fold_latest key (dict_values d) = d"
  using assms
proof (induction d rule: rev_induct)
  case (snoc p d)
  have "fst p \<notin> fst ` set d" "key (snd p) = fst p" using snoc.prems by auto
  then show ?case using snoc by (simp add: update_new)
qed simp

text \<open>\<open>d.update(e)\<close>: the items of \<open>e\<close> are assigned in order.\<close>

definition dict_update :: "('k, 'v) dict \<Rightarrow> ('k, 'v) dict \<Rightarrow> ('k, 'v) dict" where
  "dict_update d e = fold (\<lambda>(k, v) acc. AList.update k v acc) e d"

lemma lookup_dict_update: "dict_wf e \<Longrightarrow> map_of (dict_update d e) = map_of d ++ map_of e"
proof (induction e arbitrary: d)
  case (Cons p e)
  obtain k v where p: "p = (k, v)" by (cases p)
  have "map_of e k = None" using Cons.prems p by (simp add: map_of_eq_None_iff)
  then have "(map_of d)(k \<mapsto> v) ++ map_of e = map_of d ++ map_of (p # e)"
    by (auto simp: map_add_def fun_eq_iff p split: option.splits)
  moreover have "dict_update d (p # e) = dict_update (AList.update k v d) e"
    by (simp add: dict_update_def p)
  ultimately show ?case using Cons by (simp add: update_conv' del: map_of.simps)
qed (simp add: dict_update_def)

section \<open>\<open>max\<close> and \<open>sorted\<close> with a key\<close>

text \<open>\<open>max(xs, key=f, default=None)\<close> returns the first of the greatest elements.\<close>

definition py_max_by :: "('a \<Rightarrow> 'k::linorder) \<Rightarrow> 'a list \<Rightarrow> 'a option" where
  "py_max_by f xs = (case xs of [] \<Rightarrow> None
     | y # ys \<Rightarrow> Some (fold (\<lambda>z m. if f m < f z then z else m) ys y))"

lemma py_max_by_Nil [simp]: "py_max_by f [] = None"
  by (simp add: py_max_by_def)

lemma py_max_by_single [simp]: "py_max_by f [x] = Some x"
  by (simp add: py_max_by_def)

lemma py_max_by_None_iff [simp]: "py_max_by f xs = None \<longleftrightarrow> xs = []"
  by (cases xs) (auto simp: py_max_by_def)

lemma fold_max_props:
  "fold (\<lambda>z m. if f m < f z then z else m) ys y \<in> insert y (set ys)
   \<and> (\<forall>z \<in> insert y (set ys). (f z :: 'k::linorder) \<le> f (fold (\<lambda>z m. if f m < f z then z else m) ys y))"
proof (induction ys arbitrary: y)
  case Nil
  then show ?case by simp
next
  case (Cons u ys)
  let ?m = "if f y < f u then u else y"
  have "fold (\<lambda>z m. if f m < f z then z else m) ys ?m \<in> insert ?m (set ys)"
    and "\<forall>z \<in> insert ?m (set ys). f z \<le> f (fold (\<lambda>z m. if f m < f z then z else m) ys ?m)"
    using Cons.IH [of ?m] by blast+
  then show ?case
    by (auto split: if_splits intro: order_trans)
qed

lemma py_max_by_Some:
  assumes "py_max_by f xs = Some m"
  shows "m \<in> set xs" and "\<And>x. x \<in> set xs \<Longrightarrow> f x \<le> f m"
  using assms fold_max_props [of f "tl xs" "hd xs"]
  by (auto simp: py_max_by_def split: list.splits)

text \<open>
  \<open>sorted\<close> is stable, and stays stable under \<open>reverse=True\<close>: equal keys keep their
  order of appearance.
\<close>

definition py_sorted :: "('a \<Rightarrow> 'k::linorder) \<Rightarrow> 'a list \<Rightarrow> 'a list" where
  "py_sorted f xs = sort_key f xs"

definition py_sorted_desc :: "('a \<Rightarrow> 'k::linorder) \<Rightarrow> 'a list \<Rightarrow> 'a list" where
  "py_sorted_desc f xs = rev (sort_key f (rev xs))"

lemma set_py_sorted [simp]: "set (py_sorted f xs) = set xs"
  by (simp add: py_sorted_def)

lemma set_py_sorted_desc [simp]: "set (py_sorted_desc f xs) = set xs"
  by (simp add: py_sorted_desc_def)

lemma length_py_sorted_desc [simp]: "length (py_sorted_desc f xs) = length xs"
  by (simp add: py_sorted_desc_def)

lemma distinct_py_sorted_desc [simp]: "distinct (py_sorted_desc f xs) = distinct xs"
  by (simp add: py_sorted_desc_def)

lemma sorted_py_sorted [simp]: "sorted (map f (py_sorted f xs))"
  by (simp add: py_sorted_def)

lemma take_py_sorted_desc_greatest:
  assumes "x \<in> set (take n (py_sorted_desc f xs))" and "y \<in> set (drop n (py_sorted_desc f xs))"
  shows "f y \<le> f x"
proof -
  let ?s = "sort_key f (rev xs)"
  have "sorted (map f ?s)" by simp
  moreover have "?s = rev (drop n (py_sorted_desc f xs)) @ rev (take n (py_sorted_desc f xs))"
    by (simp add: py_sorted_desc_def flip: rev_append)
  ultimately show ?thesis
    using assms by (auto simp: sorted_append)
qed

text \<open>Dropping elements other than the greatest one does not change which one it is.\<close>

lemma py_max_by_Cons:
  "py_max_by f (x # xs) = (case py_max_by f xs of None \<Rightarrow> Some x
     | Some m \<Rightarrow> Some (if (f x :: 'k::linorder) < f m then m else x))"
proof -
  have "fold (\<lambda>z m. if f m < f z then z else m) ys (if f x < f y then y else x) =
      (let m = fold (\<lambda>z m. if f m < f z then z else m) ys y in if f x < f m then m else x)" for ys y
  proof (induction ys rule: rev_induct)
    case (snoc z ys)
    then show ?case by (auto simp: Let_def)
  qed simp
  then show ?thesis by (auto simp: py_max_by_def Let_def split: list.splits)
qed

lemma py_max_by_filter:
  "py_max_by f xs = Some m \<Longrightarrow> P m \<Longrightarrow> py_max_by f (filter P xs) = Some m"
proof (induction xs)
  case (Cons x xs)
  show ?case
  proof (cases "py_max_by f xs")
    case None
    then show ?thesis using Cons.prems by (simp add: py_max_by_Cons)
  next
    case (Some m')
    show ?thesis
    proof (cases "f x < f m'")
      case True
      then have "m' = m" using Cons.prems Some by (simp add: py_max_by_Cons)
      then show ?thesis using Cons Some True by (simp add: py_max_by_Cons)
    next
      case False
      then have "x = m" using Cons.prems Some by (simp add: py_max_by_Cons)
      moreover have "\<not> f x < f w" if "py_max_by f (filter P xs) = Some w" for w
        using py_max_by_Some(1) [OF that] py_max_by_Some(2) [OF Some] False by fastforce
      ultimately show ?thesis using Cons.prems by (auto simp: py_max_by_Cons split: option.splits)
    qed
  qed
qed simp

section \<open>Runs of a component\<close>

text \<open>
  A component's history is a sequence of completed operations, each an event. The locale
  states what a preserved property is, once, for every store of the control plane: a step whose
  event is admitted keeps the property, hence so does every run of admitted events.
\<close>

inductive run :: "('s \<Rightarrow> 'e \<Rightarrow> 's \<Rightarrow> bool) \<Rightarrow> 's \<Rightarrow> 'e list \<Rightarrow> 's \<Rightarrow> bool" for step where
  run_nil: "run step s [] s"
| run_cons: "step s e s' \<Longrightarrow> run step s' es s'' \<Longrightarrow> run step s (e # es) s''"

inductive_simps run_Nil_iff [simp]: "run step s [] s'"
inductive_simps run_Cons_iff [simp]: "run step s (e # es) s'"

locale preserved =
  fixes step :: "'s \<Rightarrow> 'e \<Rightarrow> 's \<Rightarrow> bool" and admitted :: "'e \<Rightarrow> bool" and inv :: "'s \<Rightarrow> bool"
  assumes step_inv: "step s e s' \<Longrightarrow> admitted e \<Longrightarrow> inv s \<Longrightarrow> inv s'"
begin

lemma run_inv:
  assumes "run step s es s'" "\<And>e. e \<in> set es \<Longrightarrow> admitted e" "inv s"
  shows "inv s'"
  using assms by (induction rule: run.induct) (auto intro: step_inv)

end

end
