(* ===== verification/Timestamps.thy ===== *)
theory Timestamps
  imports Control_Prelude
begin

text \<open>
  The part of Python's \<open>datetime\<close> the control plane relies on: proleptic Gregorian ordinals,
  \<open>datetime.isoformat\<close>, \<open>datetime.fromisoformat\<close> (calendar, week and compact forms, with
  the fraction and offset suffixes), subtraction and comparison with their refusal to mix naive
  and aware values, and \<open>controlplane/stamps.py\<close> on top of them. The main result is the
  round trip \<open>fromisoformat (isoformat t) = t\<close>. Durations are integers of microseconds,
  the resolution of \<open>timedelta\<close>.
\<close>

section \<open>Calendar arithmetic\<close>

definition is_leap :: "int \<Rightarrow> bool" where
  "is_leap y \<longleftrightarrow> y mod 4 = 0 \<and> (y mod 100 \<noteq> 0 \<or> y mod 400 = 0)"

definition days_before_year :: "int \<Rightarrow> int" where
  "days_before_year year = (let y = year - 1 in y * 365 + y div 4 - y div 100 + y div 400)"

definition month_days :: "int list" where
  "month_days = [0, 31, 28, 31, 30, 31, 30, 31, 31, 30, 31, 30, 31]"

definition month_starts :: "int list" where
  "month_starts = [0, 0, 31, 59, 90, 120, 151, 181, 212, 243, 273, 304, 334]"

definition days_in_month :: "int \<Rightarrow> int \<Rightarrow> int" where
  "days_in_month year month = (if month = 2 \<and> is_leap year then 29 else month_days ! nat month)"

definition days_before_month :: "int \<Rightarrow> int \<Rightarrow> int" where
  "days_before_month year month =
     month_starts ! nat month + (if 2 < month \<and> is_leap year then 1 else 0)"

definition ymd2ord :: "int \<Rightarrow> int \<Rightarrow> int \<Rightarrow> int" where
  "ymd2ord year month day = days_before_year year + days_before_month year month + day"

text \<open>The month of a zero-based day of the year, by the library's estimate and correction.\<close>

definition month_of_day :: "bool \<Rightarrow> int \<Rightarrow> int \<times> int" where
  "month_of_day leap n =
     (let month = (n + 50) div 32;
          preceding = month_starts ! nat month + (if 2 < month \<and> leap then 1 else 0)
      in if n < preceding
         then (let month' = month - 1;
                   preceding' = preceding - (month_days ! nat month' + (if month' = 2 \<and> leap then 1 else 0))
               in (month', n - preceding' + 1))
         else (month, n - preceding + 1))"

definition ord2ymd :: "int \<Rightarrow> int \<times> int \<times> int" where
  "ord2ymd ord =
     (let n = ord - 1;
          n400 = n div 146097; n = n mod 146097;
          n100 = n div 36524; n = n mod 36524;
          n4 = n div 1461; n = n mod 1461;
          n1 = n div 365; n = n mod 365;
          year = n400 * 400 + 1 + n100 * 100 + n4 * 4 + n1
      in if n1 = 4 \<or> n100 = 4 then (year - 1, 12, 31)
         else (let leap = (n1 = 3 \<and> (n4 \<noteq> 24 \<or> n100 = 3))
               in (year, month_of_day leap n)))"

definition valid_date :: "int \<Rightarrow> int \<Rightarrow> int \<Rightarrow> bool" where
  "valid_date year month day \<longleftrightarrow>
     1 \<le> year \<and> year \<le> 9999 \<and> 1 \<le> month \<and> month \<le> 12 \<and> 1 \<le> day \<and> day \<le> days_in_month year month"

section \<open>Datetime values\<close>

text \<open>
  A datetime is its local microsecond count from 0001-01-01T00:00 and its UTC offset;
  \<^const>\<open>None\<close> is a naive value. \<open>utc\<close> is the type of the clock readings
  \<open>datetime.now(UTC)\<close> the callers pass as \<open>now\<close>.
\<close>

record datetime =
  dt_us :: int
  dt_off :: "int option"

type_synonym micros = int
type_synonym utc = int

abbreviation second :: micros where "second \<equiv> 1000000"
abbreviation day_us :: micros where "day_us \<equiv> 86400000000"
abbreviation max_us :: int where "max_us \<equiv> 3652059 * 86400000000"

definition utc_dt :: "utc \<Rightarrow> datetime" where
  "utc_dt t = \<lparr>dt_us = t, dt_off = Some 0\<rparr>"

definition valid_utc :: "utc \<Rightarrow> bool" where
  "valid_utc t \<longleftrightarrow> 0 \<le> t \<and> t < max_us"

definition valid_offset :: "int option \<Rightarrow> bool" where
  "valid_offset off = (case off of None \<Rightarrow> True
     | Some d \<Rightarrow> - day_us < d \<and> d < day_us \<and> d mod (60 * second) = 0)"

definition valid_datetime :: "datetime \<Rightarrow> bool" where
  "valid_datetime t \<longleftrightarrow> 0 \<le> dt_us t \<and> dt_us t < max_us \<and> valid_offset (dt_off t)"

lemma valid_utc_dt [simp]: "valid_datetime (utc_dt t) \<longleftrightarrow> valid_utc t"
  by (simp add: valid_datetime_def utc_dt_def valid_offset_def valid_utc_def)

text \<open>Mixing naive and aware values in a comparison or subtraction raises \<open>TypeError\<close>.\<close>

definition dt_diff :: "datetime \<Rightarrow> datetime \<Rightarrow> micros result" where
  "dt_diff a b = (case (dt_off a, dt_off b) of
       (None, None) \<Rightarrow> Inr (dt_us a - dt_us b)
     | (Some oa, Some ob) \<Rightarrow> Inr ((dt_us a - oa) - (dt_us b - ob))
     | _ \<Rightarrow> Inl (TypeError ''offset-naive and offset-aware datetimes''))"

definition dt_less :: "datetime \<Rightarrow> datetime \<Rightarrow> bool result" where
  "dt_less a b = rbind (dt_diff a b) (\<lambda>d. Inr (d < 0))"

definition dt_add :: "datetime \<Rightarrow> micros \<Rightarrow> datetime result" where
  "dt_add t d = (if 0 \<le> dt_us t + d \<and> dt_us t + d < max_us
                 then Inr (t\<lparr>dt_us := dt_us t + d\<rparr>)
                 else Inl (OverflowError ''date value out of range''))"

lemma dt_diff_utc [simp]: "dt_diff (utc_dt a) (utc_dt b) = Inr (a - b)"
  by (simp add: dt_diff_def utc_dt_def)

section \<open>\<open>isoformat\<close>\<close>

definition digit_char :: "int \<Rightarrow> char" where
  "digit_char n = char_of (nat (48 + n))"

definition fmt2 :: "int \<Rightarrow> string" where
  "fmt2 n = [digit_char (n div 10), digit_char (n mod 10)]"

definition fmt4 :: "int \<Rightarrow> string" where
  "fmt4 n = fmt2 (n div 100) @ fmt2 (n mod 100)"

definition fmt6 :: "int \<Rightarrow> string" where
  "fmt6 n = fmt2 (n div 10000) @ fmt2 (n div 100 mod 100) @ fmt2 (n mod 100)"

definition format_offset :: "int option \<Rightarrow> string" where
  "format_offset off = (case off of None \<Rightarrow> []
     | Some d \<Rightarrow>
        (let a = \<bar>d\<bar>; ss = a div second mod 60; us = a mod second
         in (if d < 0 then CHR ''-'' else CHR ''+'')
            # fmt2 (a div (3600 * second)) @ CHR '':'' # fmt2 (a div (60 * second) mod 60)
            @ (if ss = 0 \<and> us = 0 then []
               else CHR '':'' # fmt2 ss @ (if us = 0 then [] else CHR ''.'' # fmt6 us))))"

definition isoformat :: "datetime \<Rightarrow> string" where
  "isoformat t =
     (case ord2ymd (dt_us t div day_us + 1) of (y, m, d) \<Rightarrow>
       (let r = dt_us t mod day_us; us = r mod second
        in fmt4 y @ CHR ''-'' # fmt2 m @ CHR ''-'' # fmt2 d @ CHR ''T''
           # fmt2 (r div (3600 * second)) @ CHR '':'' # fmt2 (r div (60 * second) mod 60)
           @ CHR '':'' # fmt2 (r div second mod 60)
           @ (if us = 0 then [] else CHR ''.'' # fmt6 us) @ format_offset (dt_off t)))"

section \<open>\<open>fromisoformat\<close>\<close>

definition digit_of :: "char \<Rightarrow> int option" where
  "digit_of c = (let n = of_char c :: nat in if 48 \<le> n \<and> n \<le> 57 then Some (int n - 48) else None)"

primrec digits_acc :: "int \<Rightarrow> string \<Rightarrow> int option" where
  "digits_acc a [] = Some a"
| "digits_acc a (c # cs) = (case digit_of c of None \<Rightarrow> None | Some d \<Rightarrow> digits_acc (10 * a + d) cs)"

definition parse_digits :: "string \<Rightarrow> int option" where
  "parse_digits s = (if s = [] then None else digits_acc 0 s)"

definition all_digits :: "string \<Rightarrow> bool" where
  "all_digits s = list_all (\<lambda>c. digit_of c \<noteq> None) s"

text \<open>Where the date part ends, as \<open>_find_isoformat_datetime_separator\<close> decides it.\<close>

definition find_separator :: "string \<Rightarrow> nat option" where
  "find_separator s =
     (let n = length s in
      if n = 7 then Some 7
      else if s ! 4 = CHR ''-'' then
        (if s ! 5 = CHR ''W'' then
           (if 8 < n \<and> s ! 8 = CHR ''-'' then
              (if n = 9 then None
               else if 10 < n \<and> digit_of (s ! 10) \<noteq> None then Some 8 else Some 10)
            else Some 8)
         else Some 10)
      else if s ! 4 = CHR ''W'' then
        (let i = 7 + length (takeWhile (\<lambda>c. digit_of c \<noteq> None) (drop 7 s)) in
         if i < 9 then Some i else if i mod 2 = 0 then Some 7 else Some 8)
      else Some 8)"

definition isoweek1monday :: "int \<Rightarrow> int" where
  "isoweek1monday year =
     (let firstday = ymd2ord year 1 1; firstweekday = (firstday + 6) mod 7;
          monday = firstday - firstweekday
      in if 3 < firstweekday then monday + 7 else monday)"

definition isoweek_to_gregorian :: "int \<Rightarrow> int \<Rightarrow> int \<Rightarrow> (int \<times> int \<times> int) option" where
  "isoweek_to_gregorian year week day =
     (if \<not> (1 \<le> year \<and> year \<le> 9999) then None
      else if \<not> (0 < week \<and> week < 53)
              \<and> \<not> (week = 53 \<and> (ymd2ord year 1 1 mod 7 = 4 \<or> (ymd2ord year 1 1 mod 7 = 3 \<and> is_leap year)))
      then None
      else if \<not> (0 < day \<and> day < 8) then None
      else Some (ord2ymd (isoweek1monday year + (week - 1) * 7 + (day - 1))))"

definition slice :: "nat \<Rightarrow> nat \<Rightarrow> string \<Rightarrow> string" where
  "slice i n s = take n (drop i s)"

definition parse_date :: "string \<Rightarrow> (int \<times> int \<times> int) option" where
  "parse_date s =
     (case parse_digits (slice 0 4 s) of None \<Rightarrow> None
      | Some year \<Rightarrow>
        (let has_sep = (slice 4 1 s = ''-''); pos = (if has_sep then 5 else 4) in
         if slice pos 1 s = ''W'' then
           (case parse_digits (slice (pos + 1) 2 s) of None \<Rightarrow> None
            | Some weekno \<Rightarrow>
              (if pos + 3 < length s then
                 (if (slice (pos + 3) 1 s = ''-'') \<noteq> has_sep then None
                  else (case parse_digits (slice (pos + 3 + (if has_sep then 1 else 0)) 1 s) of
                          None \<Rightarrow> None
                        | Some dayno \<Rightarrow> isoweek_to_gregorian year weekno dayno))
               else isoweek_to_gregorian year weekno 1))
         else
           (case parse_digits (slice pos 2 s) of None \<Rightarrow> None
            | Some month \<Rightarrow>
              (if (slice (pos + 2) 1 s = ''-'') \<noteq> has_sep then None
               else (case parse_digits (slice (pos + 2 + (if has_sep then 1 else 0)) 2 s) of
                       None \<Rightarrow> None
                     | Some day \<Rightarrow> Some (year, month, day))))))"

text \<open>The \<open>HH[:MM[:SS]]\<close> loop: the components read and the text left over.\<close>

fun parse_comps :: "nat \<Rightarrow> bool \<Rightarrow> string \<Rightarrow> (int list \<times> string) option" where
  "parse_comps idx has_sep (a # b # rest) =
     (case parse_digits [a, b] of None \<Rightarrow> None
      | Some v \<Rightarrow>
        (let sep = (if idx = 0 then take 1 rest = '':'' else has_sep) in
         if rest = [] \<or> 2 \<le> idx then Some ([v], rest)
         else if sep \<and> take 1 rest \<noteq> '':'' then None
         else (case parse_comps (Suc idx) sep (if sep then tl rest else rest) of
                 None \<Rightarrow> None
               | Some (vs, left) \<Rightarrow> Some (v # vs, left))))"
| "parse_comps idx has_sep _ = None"

definition comp_at :: "int list \<Rightarrow> nat \<Rightarrow> int" where
  "comp_at vs i = (if i < length vs then vs ! i else 0)"

definition parse_fraction :: "string \<Rightarrow> int option" where
  "parse_fraction s = (case s of [] \<Rightarrow> Some 0
     | c # cs \<Rightarrow>
        (if c \<noteq> CHR ''.'' \<and> c \<noteq> CHR '','' then None
         else (case parse_digits (take 6 cs) of None \<Rightarrow> None
               | Some v \<Rightarrow> if all_digits (drop 6 cs) then Some (v * 10 ^ (6 - length (take 6 cs))) else None)))"

definition parse_hh_mm_ss_ff :: "string \<Rightarrow> (int \<times> int \<times> int \<times> int) option" where
  "parse_hh_mm_ss_ff s =
     (case parse_comps 0 False s of None \<Rightarrow> None
      | Some (vs, left) \<Rightarrow>
        (case parse_fraction left of None \<Rightarrow> None
         | Some us \<Rightarrow> Some (comp_at vs 0, comp_at vs 1, comp_at vs 2, us)))"

text \<open>
  The offset marker: the first \<open>-\<close> if there is one, else the first \<open>+\<close>, else the
  first \<open>Z\<close>.
\<close>

definition tz_mark :: "string \<Rightarrow> char option" where
  "tz_mark s = (if CHR ''-'' \<in> set s then Some (CHR ''-'')
                else if CHR ''+'' \<in> set s then Some (CHR ''+'')
                else if CHR ''Z'' \<in> set s then Some (CHR ''Z'') else None)"

definition parse_offset :: "char \<Rightarrow> string \<Rightarrow> int option" where
  "parse_offset mark tz =
     (if mark = CHR ''Z'' \<and> tz = [] then Some 0
      else if length tz \<in> {0, 1, 3} then None
      else (case parse_hh_mm_ss_ff tz of None \<Rightarrow> None
            | Some (h, m, s, us) \<Rightarrow>
              (let d = ((h * 3600 + m * 60 + s) * second + us);
                   off = (if mark = CHR ''-'' then - d else d)
               in if - day_us < off \<and> off < day_us then Some off else None)))"

definition parse_time :: "string \<Rightarrow> ((int \<times> int \<times> int \<times> int) \<times> int option) option" where
  "parse_time s =
     (if length s < 2 then None
      else (case tz_mark s of
          None \<Rightarrow> map_option (\<lambda>comps. (comps, None)) (parse_hh_mm_ss_ff s)
        | Some mark \<Rightarrow>
          (case parse_hh_mm_ss_ff (takeWhile (\<lambda>c. c \<noteq> mark) s) of None \<Rightarrow> None
           | Some comps \<Rightarrow>
             (case parse_offset mark (tl (dropWhile (\<lambda>c. c \<noteq> mark) s)) of None \<Rightarrow> None
              | Some off \<Rightarrow> Some (comps, Some off)))))"

definition make_datetime ::
  "int \<times> int \<times> int \<Rightarrow> int \<times> int \<times> int \<times> int \<Rightarrow> int option \<Rightarrow> datetime option" where
  "make_datetime date time off =
     (case date of (y, m, d) \<Rightarrow> case time of (hh, mm, ss, us) \<Rightarrow>
       if valid_date y m d \<and> 0 \<le> hh \<and> hh < 24 \<and> 0 \<le> mm \<and> mm < 60 \<and> 0 \<le> ss \<and> ss < 60
          \<and> 0 \<le> us \<and> us < second
       then Some \<lparr>dt_us = (ymd2ord y m d - 1) * day_us + ((hh * 60 + mm) * 60 + ss) * second + us,
                  dt_off = off\<rparr>
       else None)"

definition fromisoformat :: "string \<Rightarrow> datetime option" where
  "fromisoformat s =
     (if length s < 7 then None
      else (case find_separator s of None \<Rightarrow> None
        | Some loc \<Rightarrow>
          (case parse_date (take loc s) of None \<Rightarrow> None
           | Some date \<Rightarrow>
             (let tstr = drop (loc + 1) s in
              if tstr = [] then make_datetime date (0, 0, 0, 0) None
              else (case parse_time tstr of None \<Rightarrow> None
                    | Some (time, off) \<Rightarrow> make_datetime date time off)))))"

section \<open>\<open>controlplane/stamps.py\<close>\<close>

text \<open>\<open>age_seconds\<close>: a naive stamp is read as UTC, an unparseable one has no age.\<close>

definition age_seconds :: "string \<Rightarrow> utc \<Rightarrow> micros option" where
  "age_seconds stamp now = (case fromisoformat stamp of None \<Rightarrow> None
     | Some then_dt \<Rightarrow>
        (case dt_off then_dt of None \<Rightarrow> Some (now - dt_us then_dt)
         | Some off \<Rightarrow> Some (now - (dt_us then_dt - off))))"

text \<open>The time part of a formatted stamp, used to state the round trip.\<close>

definition time_text :: "int \<Rightarrow> int \<Rightarrow> int \<Rightarrow> int \<Rightarrow> string" where
  "time_text h m s us = fmt2 h @ CHR '':'' # fmt2 m @ CHR '':'' # fmt2 s
     @ (if us = 0 then [] else CHR ''.'' # fmt6 us)"

section \<open>Ordinals round-trip\<close>

lemma month_of_day_table:
  "\<forall>leap \<in> {True, False}. \<forall>n \<in> set [0..(if leap then 365 else 364)].
     (case month_of_day leap n of (m, d) \<Rightarrow>
        1 \<le> m \<and> m \<le> 12 \<and> 1 \<le> d
        \<and> d \<le> (if m = 2 \<and> leap then 29 else month_days ! nat m)
        \<and> month_starts ! nat m + (if 2 < m \<and> leap then 1 else 0) + d = n + 1)"
  by code_simp

lemma month_of_day_spec:
  assumes "0 \<le> n" and "n \<le> (if leap then 365 else 364)" and "month_of_day leap n = (m, d)"
  shows "1 \<le> m" "m \<le> 12" "1 \<le> d" "d \<le> (if m = 2 \<and> leap then 29 else month_days ! nat m)"
    "month_starts ! nat m + (if 2 < m \<and> leap then 1 else 0) + d = n + 1"
proof -
  have "leap \<in> {True, False}" and "n \<in> set [0..(if leap then 365 else 364)]"
    using assms(1,2) by auto
  from month_of_day_table [THEN bspec, OF this(1), THEN bspec, OF this(2)]
  show "1 \<le> m" "m \<le> 12" "1 \<le> d" "d \<le> (if m = 2 \<and> leap then 29 else month_days ! nat m)"
    "month_starts ! nat m + (if 2 < m \<and> leap then 1 else 0) + d = n + 1"
    unfolding assms(3) by simp_all
qed

text \<open>A year written by its position in the 400-, 100- and 4-year cycles.\<close>

lemma days_before_cycle_year:
  assumes "0 \<le> b" "b \<le> 3" "0 \<le> c" "c \<le> 24" "0 \<le> d" "d \<le> (3::int)"
  shows "days_before_year (a * 400 + 1 + b * 100 + c * 4 + d)
           = a * 146097 + b * 36524 + c * 1461 + d * 365"
proof -
  let ?y = "a * 400 + b * 100 + c * 4 + d"
  have "?y div 4 = a * 100 + b * 25 + c"
    using assms by (intro int_div_pos_eq [where r = d]) auto
  moreover have "?y div 100 = a * 4 + b"
    using assms by (intro int_div_pos_eq [where r = "c * 4 + d"]) auto
  moreover have "?y div 400 = a"
    using assms by (intro int_div_pos_eq [where r = "b * 100 + c * 4 + d"]) auto
  ultimately show ?thesis
    by (simp add: days_before_year_def Let_def add.assoc)
qed

lemma is_leap_cycle_year:
  assumes "0 \<le> b" "b \<le> 3" "0 \<le> c" "c \<le> 24" "0 \<le> d" "d \<le> (3::int)"
  shows "is_leap (a * 400 + 1 + b * 100 + c * 4 + d) \<longleftrightarrow> d = 3 \<and> (c \<noteq> 24 \<or> b = 3)"
proof -
  let ?y = "a * 400 + 1 + b * 100 + c * 4 + d"
  have m4: "?y mod 4 = (if d = 3 then 0 else d + 1)"
    using assms by (intro int_mod_pos_eq [where q = "a * 100 + b * 25 + c + (if d = 3 then 1 else 0)"]) auto
  have m100: "?y mod 100 = (if d = 3 \<and> c = 24 then 0 else c * 4 + d + 1)"
    using assms by (intro int_mod_pos_eq [where q = "a * 4 + b + (if d = 3 \<and> c = 24 then 1 else 0)"]) auto
  have m400: "?y mod 400 = (if d = 3 \<and> c = 24 \<and> b = 3 then 0 else b * 100 + c * 4 + d + 1)"
    using assms by (intro int_mod_pos_eq [where q = "a + (if d = 3 \<and> c = 24 \<and> b = 3 then 1 else 0)"]) auto
  show ?thesis
    unfolding is_leap_def m4 m100 m400 using assms by auto
qed

text \<open>The cycle digits of a day number, and the carries that make the last one 4.\<close>

lemma cycle_digits:
  fixes n :: int
  assumes "0 \<le> n" "n < 3652059"
    and "a = n div 146097" "b = n mod 146097 div 36524" "c = n mod 146097 mod 36524 div 1461"
      "e = n mod 146097 mod 36524 mod 1461 div 365" "r = n mod 146097 mod 36524 mod 1461 mod 365"
  shows "n = a * 146097 + b * 36524 + c * 1461 + e * 365 + r"
    and "0 \<le> a" "a \<le> 24" "0 \<le> b" "b \<le> 4" "0 \<le> c" "c \<le> 24" "0 \<le> e" "e \<le> 4" "0 \<le> r" "r < 365"
    and "b = 4 \<Longrightarrow> c = 0 \<and> e = 0 \<and> r = 0"
    and "e = 4 \<Longrightarrow> r = 0"
    and "b < 4 \<Longrightarrow> c = 24 \<Longrightarrow> e \<noteq> 4"
    and "a = 24 \<Longrightarrow> b \<le> 3"
proof -
  define r1 r2 r3 where "r1 = n mod 146097" and "r2 = r1 mod 36524" and "r3 = r2 mod 1461"
  have n: "n = a * 146097 + r1" and r1: "0 \<le> r1" "r1 < 146097"
    by (simp_all add: r1_def assms)
  have r1': "r1 = b * 36524 + r2" and r2: "0 \<le> r2" "r2 < 36524"
    by (simp_all add: r2_def r1_def assms)
  have r2': "r2 = c * 1461 + r3" and r3: "0 \<le> r3" "r3 < 1461"
    by (simp_all add: r3_def r2_def r1_def assms)
  have r3': "r3 = e * 365 + r" and r: "0 \<le> r" "r < 365"
    by (simp_all add: r3_def r2_def r1_def assms)
  note eqs = n r1' r2' r3'
  show "n = a * 146097 + b * 36524 + c * 1461 + e * 365 + r" using eqs by simp
  show "0 \<le> r" "r < 365" by (fact r)+
  show "0 \<le> e" "e \<le> 4" "e = 4 \<Longrightarrow> r = 0" using r3' r3 r by linarith+
  show "0 \<le> c" "c \<le> 24" using r2' r2 r3 by linarith+
  show "0 \<le> b" "b \<le> 4" using r1' r1 r2 by linarith+
  show "0 \<le> a" "a \<le> 24" using n r1 assms(1,2) by linarith+
  show "a = 24 \<Longrightarrow> b \<le> 3" using n r1' r2 assms(2) by linarith
  show "b < 4 \<Longrightarrow> c = 24 \<Longrightarrow> e \<noteq> 4" using r2' r2 r3' r by linarith
  show "b = 4 \<Longrightarrow> c = 0 \<and> e = 0 \<and> r = 0"
    using r1' r1 r2' r3' r2 r3 r \<open>0 \<le> c\<close> \<open>0 \<le> e\<close> by linarith
qed

lemma ord2ymd_correct:
  assumes "ord2ymd n = (y, m, d)" and "1 \<le> n" and "n \<le> 3652059"
  shows "valid_date y m d \<and> ymd2ord y m d = n"
proof -
  define a b c e r where "a = (n - 1) div 146097" and "b = (n - 1) mod 146097 div 36524"
    and "c = (n - 1) mod 146097 mod 36524 div 1461"
    and "e = (n - 1) mod 146097 mod 36524 mod 1461 div 365"
    and "r = (n - 1) mod 146097 mod 36524 mod 1461 mod 365"
  note defs = a_def b_def c_def e_def r_def
  have "0 \<le> n - 1" "n - 1 < 3652059" using assms(2,3) by simp_all
  note cd = cycle_digits [OF this defs]
  have n: "n = a * 146097 + b * 36524 + c * 1461 + e * 365 + r + 1" using cd(1) by linarith
  have res: "(y, m, d) =
      (if e = 4 \<or> b = 4 then (a * 400 + 1 + b * 100 + c * 4 + e - 1, 12, 31)
       else (a * 400 + 1 + b * 100 + c * 4 + e, month_of_day (e = 3 \<and> (c \<noteq> 24 \<or> b = 3)) r))"
    using assms(1) unfolding ord2ymd_def Let_def defs by simp
  consider (reg) "e < 4" "b < 4" | (e4) "e = 4" "b < 4" | (b4) "b = 4"
    using cd(5,9) by linarith
  then show ?thesis
  proof cases
    case reg
    let ?leap = "e = 3 \<and> (c \<noteq> 24 \<or> b = 3)"
    have y: "y = a * 400 + 1 + b * 100 + c * 4 + e" and md: "month_of_day ?leap r = (m, d)"
      using res reg by auto
    have lp: "is_leap y \<longleftrightarrow> ?leap" and dby: "days_before_year y = n - 1 - r"
      unfolding y using reg cd n by (auto simp: is_leap_cycle_year days_before_cycle_year)
    have "r \<le> (if ?leap then 365 else 364)" using cd(11) by simp
    note ms = month_of_day_spec [OF cd(10) this md]
    have "1 \<le> y" "y \<le> 9999" using y cd reg n assms(3) by linarith+
    then show ?thesis
      using ms lp dby
      by (auto simp: valid_date_def days_in_month_def ymd2ord_def days_before_month_def split: if_splits)
  next
    case e4
    then have "c \<noteq> 24" using cd(14) by blast
    have y: "y = a * 400 + 1 + b * 100 + c * 4 + 3" and md: "m = 12" "d = 31" and "r = 0"
      using res e4 cd(13) by auto
    have lp: "is_leap y" and dby: "days_before_year y = n - 366"
      unfolding y using n e4 cd(4,6,7) \<open>c \<noteq> 24\<close> \<open>r = 0\<close>
        is_leap_cycle_year [of b c 3 a] days_before_cycle_year [of b c 3 a] by auto
    have "1 \<le> y" "y \<le> 9999" using y cd e4 by linarith+
    then show ?thesis
      using lp dby md
      by (simp add: valid_date_def days_in_month_def ymd2ord_def days_before_month_def
          month_days_def month_starts_def)
  next
    case b4
    then have z: "c = 0" "e = 0" "r = 0" using cd(12) by auto
    have a: "a \<le> 23" using cd(3,15) b4 by (cases "a = 24") auto
    have y: "y = a * 400 + 1 + 3 * 100 + 24 * 4 + 3" and md: "m = 12" "d = 31"
      using res b4 z by auto
    have lp: "is_leap y" and dby: "days_before_year y = n - 366"
      unfolding y using n b4 z
        is_leap_cycle_year [of 3 24 3 a] days_before_cycle_year [of 3 24 3 a] by auto
    have "1 \<le> y" "y \<le> 9999" using y cd a by linarith+
    then show ?thesis
      using lp dby md
      by (simp add: valid_date_def days_in_month_def ymd2ord_def days_before_month_def
          month_days_def month_starts_def)
  qed
qed

section \<open>Text round-trip\<close>

lemma digit_of_digit_char:
  assumes "0 \<le> n" "n \<le> 9"
  shows "digit_of (digit_char n) = Some n"
proof -
  have "nat (48 + n) mod 256 = nat (48 + n)" using assms by simp
  then show ?thesis
    using assms by (simp add: digit_of_def digit_char_def Let_def nat_le_iff le_nat_iff)
qed

lemma digit_char_distinct:
  assumes "digit_of c = None" "0 \<le> n" "n \<le> 9"
  shows "digit_char n \<noteq> c"
  using assms digit_of_digit_char [of n] by auto

lemma digit_of_marks [simp]:
  "digit_of (CHR ''-'') = None" "digit_of (CHR '':'') = None" "digit_of (CHR ''+'') = None"
  "digit_of (CHR ''Z'') = None" "digit_of (CHR ''W'') = None" "digit_of (CHR ''T'') = None"
  "digit_of (CHR ''.'') = None" "digit_of (CHR '','') = None"
  by (simp_all add: digit_of_def)

lemma fmt2_elems:
  assumes "0 \<le> n" "n \<le> 99"
  shows "0 \<le> n div 10" "n div 10 \<le> 9" "0 \<le> n mod 10" "n mod 10 \<le> (9::int)"
  using assms by auto

lemma parse_fmt2: "0 \<le> n \<Longrightarrow> n \<le> 99 \<Longrightarrow> parse_digits (fmt2 n) = Some n"
  by (simp add: parse_digits_def fmt2_def digit_of_digit_char fmt2_elems)

lemma digits_acc_append:
  "digits_acc a (xs @ ys) = (case digits_acc a xs of None \<Rightarrow> None | Some b \<Rightarrow> digits_acc b ys)"
  by (induction xs arbitrary: a) (auto split: option.splits)

lemma digits_acc_fmt2: "0 \<le> n \<Longrightarrow> n \<le> 99 \<Longrightarrow> digits_acc a (fmt2 n) = Some (100 * a + n)"
  by (simp add: fmt2_def digit_of_digit_char fmt2_elems)

lemma parse_fmt4: "0 \<le> n \<Longrightarrow> n \<le> 9999 \<Longrightarrow> parse_digits (fmt4 n) = Some n"
  by (simp add: parse_digits_def fmt4_def digits_acc_append digits_acc_fmt2) (simp add: fmt2_def)

lemma parse_fmt6:
  assumes "0 \<le> n" "n \<le> 999999"
  shows "parse_digits (fmt6 n) = Some n"
proof -
  have "n div 10000 = n div 100 div 100"
    using zdiv_zmult2_eq [of 100 n 100] by simp
  moreover have "0 \<le> n div 100 div 100" "n div 100 div 100 \<le> 99" using assms by auto
  ultimately show ?thesis
    by (simp add: parse_digits_def fmt6_def digits_acc_append digits_acc_fmt2) (simp add: fmt2_def)
qed

lemma fmt_lengths [simp]: "length (fmt2 n) = 2" "length (fmt4 n) = 4" "length (fmt6 n) = 6"
  by (simp_all add: fmt2_def fmt4_def fmt6_def)

text \<open>No formatted number contains a marker character.\<close>

lemma fmt2_mark:
  assumes "digit_of c = None" "0 \<le> n" "n \<le> 99"
  shows "c \<notin> set (fmt2 n)"
  using digit_char_distinct [OF assms(1) fmt2_elems(1,2) [OF assms(2,3)]]
    digit_char_distinct [OF assms(1) fmt2_elems(3,4) [OF assms(2,3)]]
  by (simp add: fmt2_def)

lemma fmt6_mark:
  assumes "digit_of c = None" "0 \<le> n" "n \<le> 999999"
  shows "c \<notin> set (fmt6 n)"
proof -
  have "0 \<le> n div 10000" "n div 10000 \<le> 99" using assms(2,3) by auto
  then show ?thesis
    using fmt2_mark [OF assms(1)] by (simp add: fmt6_def)
qed


text \<open>The pieces of a formatted stamp, read back one by one.\<close>

lemma days_in_month_le: "1 \<le> m \<Longrightarrow> m \<le> 12 \<Longrightarrow> days_in_month y m \<le> 31"
proof -
  assume "1 \<le> m" "m \<le> 12"
  then have "nat m < length month_days" by (simp add: month_days_def)
  then have "month_days ! nat m \<in> set month_days" by (rule nth_mem)
  then show ?thesis by (auto simp: days_in_month_def month_days_def)
qed

lemma parse_date_fmt:
  assumes "valid_date y m d"
  shows "parse_date (fmt4 y @ CHR ''-'' # fmt2 m @ CHR ''-'' # fmt2 d) = Some (y, m, d)"
proof -
  have b: "0 \<le> y" "y \<le> 9999" "0 \<le> m" "m \<le> 99" "0 \<le> d" "d \<le> 99"
    using assms days_in_month_le [of m y] by (auto simp: valid_date_def)
  have "CHR ''W'' \<notin> set (fmt2 m)" using b by (simp add: fmt2_mark)
  then have "take 1 (fmt2 m) \<noteq> ''W''" by (auto simp: fmt2_def)
  then show ?thesis
    using b parse_fmt4 [of y] parse_fmt2 [of m] parse_fmt2 [of d]
    by (simp add: parse_date_def slice_def)
qed

lemma parse_comps_step:
  assumes "0 \<le> v" "v \<le> 99"
  shows "parse_comps i sep (fmt2 v @ CHR '':'' # rest) =
      (if 2 \<le> i then Some ([v], CHR '':'' # rest)
       else case parse_comps (Suc i) (i = 0 \<or> sep) (if i = 0 \<or> sep then rest else CHR '':'' # rest) of
              None \<Rightarrow> None | Some (vs, left) \<Rightarrow> Some (v # vs, left))"
    and "parse_comps i sep (fmt2 v) = Some ([v], [])"
    and "2 \<le> i \<Longrightarrow> parse_comps i sep (fmt2 v @ rest) = Some ([v], rest)"
  using parse_fmt2 [OF assms] by (auto simp: fmt2_def)

lemma parse_hms_fmt:
  assumes "0 \<le> h" "h \<le> 99" "0 \<le> m" "m \<le> 99"
  shows "parse_hh_mm_ss_ff (fmt2 h @ CHR '':'' # fmt2 m) = Some (h, m, 0, 0)"
    and "0 \<le> s \<Longrightarrow> s \<le> 99 \<Longrightarrow> 0 \<le> us \<Longrightarrow> us \<le> 999999 \<Longrightarrow>
         parse_hh_mm_ss_ff (fmt2 h @ CHR '':'' # fmt2 m @ CHR '':'' # fmt2 s
           @ (if us = 0 then [] else CHR ''.'' # fmt6 us)) = Some (h, m, s, us)"
  using assms parse_fmt6 [of us]
  by (auto simp: parse_hh_mm_ss_ff_def parse_comps_step comp_at_def parse_fraction_def
      all_digits_def numeral_2_eq_2)


lemma format_offset_minutes:
  assumes "valid_offset (Some d)"
  defines "h \<equiv> \<bar>d\<bar> div (3600 * second)" and "m \<equiv> \<bar>d\<bar> div (60 * second) mod 60"
  shows "format_offset (Some d) =
      (if d < 0 then CHR ''-'' else CHR ''+'') # fmt2 h @ CHR '':'' # fmt2 m"
    and "0 \<le> h" "h \<le> 23" "0 \<le> m" "m \<le> 59" "\<bar>d\<bar> = (h * 3600 + m * 60) * second"
proof -
  have d: "\<bar>d\<bar> < day_us" and dvd: "60 * second dvd \<bar>d\<bar>"
    using assms(1) by (auto simp: valid_offset_def)
  then obtain k where k: "\<bar>d\<bar> = 60 * second * k" by (elim dvdE)
  have k0: "0 \<le> k" "k < 1440" using d k by linarith+
  have "60 * second * k div (60 * second * 60) = k div 60" by (rule div_mult_mult1) simp
  then have hk: "h = k div 60" unfolding h_def k by simp
  have mk: "m = k mod 60" unfolding m_def k by simp
  have "\<bar>d\<bar> div second mod 60 = 0" "\<bar>d\<bar> mod second = 0" unfolding k by simp_all
  then show "format_offset (Some d) =
      (if d < 0 then CHR ''-'' else CHR ''+'') # fmt2 h @ CHR '':'' # fmt2 m"
    by (simp add: format_offset_def Let_def h_def m_def)
  show "0 \<le> h" "h \<le> 23" "0 \<le> m" "m \<le> 59" unfolding hk mk using k0 by auto
  have "k = h * 60 + m" unfolding hk mk by simp
  then show "\<bar>d\<bar> = (h * 3600 + m * 60) * second" unfolding k by simp
qed

lemma parse_offset_fmt:
  assumes "valid_offset (Some d)"
  shows "parse_offset (if d < 0 then CHR ''-'' else CHR ''+'') (tl (format_offset (Some d))) = Some d"
proof -
  note fo = format_offset_minutes [OF assms]
  obtain h m where hm: "h = \<bar>d\<bar> div (3600 * second)" "m = \<bar>d\<bar> div (60 * second) mod 60" by blast
  note fo = fo [folded hm]
  have "h \<le> 99" "m \<le> 99" using fo(3,5) by simp_all
  then have hms: "parse_hh_mm_ss_ff (fmt2 h @ CHR '':'' # fmt2 m) = Some (h, m, 0, 0)"
    using fo(2,4) by (intro parse_hms_fmt(1))
  have abs: "(h * 3600 + m * 60 + 0) * second + 0 = \<bar>d\<bar>"
    unfolding fo(6) by simp
  have tz: "tl (format_offset (Some d)) = fmt2 h @ CHR '':'' # fmt2 m"
    unfolding fo(1) by simp
  have range: "- day_us < d" "d < day_us" using assms by (auto simp: valid_offset_def)
  show ?thesis
    unfolding parse_offset_def tz hms option.case prod.case abs Let_def
    using range by simp
qed

lemma time_text_mark:
  assumes "0 \<le> h" "h \<le> 99" "0 \<le> m" "m \<le> 99" "0 \<le> s" "s \<le> 99" "0 \<le> us" "us \<le> 999999"
    and "c = CHR ''-'' \<or> c = CHR ''+'' \<or> c = CHR ''Z''"
  shows "c \<notin> set (time_text h m s us)"
  using assms by (auto simp: time_text_def fmt2_mark fmt6_mark)

lemma parse_time_fmt:
  assumes "0 \<le> h" "h \<le> 99" "0 \<le> m" "m \<le> 99" "0 \<le> s" "s \<le> 99" "0 \<le> us" "us \<le> 999999"
    and off: "valid_offset off"
  shows "parse_time (time_text h m s us @ format_offset off) = Some ((h, m, s, us), off)"
proof -
  let ?t = "time_text h m s us"
  have hms: "parse_hh_mm_ss_ff ?t = Some (h, m, s, us)"
    unfolding time_text_def using assms(1-8) by (rule parse_hms_fmt(2))
  have len: "2 \<le> length ?t" by (simp add: time_text_def)
  note nomark = time_text_mark [OF assms(1-8)]
  show ?thesis
  proof (cases off)
    case None
    then show ?thesis
      using hms len nomark by (simp add: parse_time_def tz_mark_def format_offset_def)
  next
    case (Some d)
    let ?mark = "if d < 0 then CHR ''-'' else CHR ''+''"
    have vo: "valid_offset (Some d)" using off Some by simp
    note fo = format_offset_minutes [OF vo]
    let ?rest = "tl (format_offset (Some d))"
    have fmt: "format_offset (Some d) = ?mark # ?rest" unfolding fo(1) by simp
    have "CHR ''-'' \<notin> set ?rest"
      unfolding fo(1) using fo(2-5) by (simp add: fmt2_mark)
    then have "tz_mark (?t @ format_offset (Some d)) = Some ?mark"
      using nomark by (subst fmt) (auto simp: tz_mark_def)
    moreover have "takeWhile (\<lambda>c. c \<noteq> ?mark) (?t @ ?mark # ?rest) = ?t"
      using nomark [of ?mark] by (subst takeWhile_append2) auto
    moreover have "dropWhile (\<lambda>c. c \<noteq> ?mark) (?t @ ?mark # ?rest) = ?mark # ?rest"
      using nomark [of ?mark] by (subst dropWhile_append2) auto
    moreover have "?t @ format_offset (Some d) = ?t @ ?mark # ?rest" by (subst fmt) simp
    moreover note parse_offset_fmt [OF vo] hms len
    ultimately show ?thesis
      unfolding Some parse_time_def by simp
  qed
qed

lemma clock_digits:
  assumes "0 < (u::int)"
  shows "((r div (3600 * u) * 60 + r div (60 * u) mod 60) * 60 + r div u mod 60) * u + r mod u = r"
proof -
  define q where "q = r div u"
  have "r div (3600 * u) = q div 60 div 60"
    using assms zdiv_zmult2_eq [of 3600 r u] zdiv_zmult2_eq [of 60 q 60]
    by (simp add: q_def mult.commute)
  moreover have "r div (60 * u) = q div 60"
    using assms zdiv_zmult2_eq [of 60 r u] by (simp add: q_def mult.commute)
  moreover have "(q div 60 div 60 * 60 + q div 60 mod 60) * 60 + q mod 60 = q"
    by (simp only: div_mult_mod_eq)
  ultimately show ?thesis
    by (simp add: q_def)
qed

lemma fromisoformat_isoformat:
  assumes "valid_datetime t"
  shows "fromisoformat (isoformat t) = Some t"
proof -
  obtain y m d where ymd: "ord2ymd (dt_us t div day_us + 1) = (y, m, d)"
    by (cases "ord2ymd (dt_us t div day_us + 1)") auto
  define r where "r = dt_us t mod day_us"
  define hh mm ss us where "hh = r div (3600 * second)" and "mm = r div (60 * second) mod 60"
    and "ss = r div second mod 60" and "us = r mod second"
  have r: "0 \<le> r" "r < day_us" by (simp_all add: r_def)
  have bounds: "0 \<le> hh" "hh < 24" "0 \<le> mm" "mm < 60" "0 \<le> ss" "ss < 60" "0 \<le> us" "us < second"
    using r by (auto simp: hh_def mm_def ss_def us_def)
  have clock: "r = ((hh * 60 + mm) * 60 + ss) * second + us"
    unfolding hh_def mm_def ss_def us_def by (rule clock_digits [symmetric]) simp
  have n: "1 \<le> dt_us t div day_us + 1" "dt_us t div day_us + 1 \<le> 3652059"
    using assms by (auto simp: valid_datetime_def)
  note date = ord2ymd_correct [OF ymd n]
  let ?d = "fmt4 y @ CHR ''-'' # fmt2 m @ CHR ''-'' # fmt2 d"
  let ?t = "time_text hh mm ss us @ format_offset (dt_off t)"
  have iso: "isoformat t = ?d @ CHR ''T'' # ?t"
    by (simp add: isoformat_def ymd Let_def time_text_def hh_def mm_def ss_def us_def r_def)
  have "CHR ''W'' \<notin> set (fmt2 m)"
    using date by (simp add: fmt2_mark valid_date_def)
  then have sep: "find_separator (isoformat t) = Some 10"
    unfolding iso by (auto simp: find_separator_def Let_def nth_append fmt2_def)
  have time: "parse_time ?t = Some ((hh, mm, ss, us), dt_off t)"
    using bounds assms by (intro parse_time_fmt) (auto simp: valid_datetime_def)
  have us: "(ymd2ord y m d - 1) * day_us + ((hh * 60 + mm) * 60 + ss) * second + us = dt_us t"
    unfolding add.assoc clock [symmetric, unfolded add.assoc] using date by (simp add: r_def)
  have "make_datetime (y, m, d) (hh, mm, ss, us) (dt_off t) = Some t"
    unfolding make_datetime_def prod.case us using date bounds by simp
  moreover have "time_text hh mm ss us \<noteq> []" by (simp add: time_text_def)
  ultimately show ?thesis
    using sep time parse_date_fmt date
    by (simp add: fromisoformat_def iso)
qed

section \<open>Stamps as an interface\<close>

text \<open>
  What the stores rely on from the timestamp library: a value written by the encoder is read
  back unchanged, so distinct values have distinct texts.
\<close>

locale stamp_codec =
  fixes enc :: "'t \<Rightarrow> string" and dec :: "string \<Rightarrow> 't option" and ok :: "'t \<Rightarrow> bool"
  assumes dec_enc: "ok t \<Longrightarrow> dec (enc t) = Some t"
begin

lemma enc_inject: "ok s \<Longrightarrow> ok t \<Longrightarrow> enc s = enc t \<longleftrightarrow> s = t"
  by (metis dec_enc option.inject)

lemma enc_readable: "ok t \<Longrightarrow> dec (enc t) \<noteq> None"
  by (simp add: dec_enc)

end

interpretation iso: stamp_codec isoformat fromisoformat valid_datetime
  by unfold_locales (rule fromisoformat_isoformat)

text \<open>The stamp a UTC clock reading is written as.\<close>

definition utc_stamp :: "utc \<Rightarrow> string" where
  "utc_stamp t = isoformat (utc_dt t)"

lemma fromisoformat_utc_stamp [simp]:
  "valid_utc t \<Longrightarrow> fromisoformat (utc_stamp t) = Some (utc_dt t)"
  by (simp add: utc_stamp_def iso.dec_enc)

lemma age_seconds_utc_stamp [simp]: "valid_utc t \<Longrightarrow> age_seconds (utc_stamp t) now = Some (now - t)"
  by (simp add: age_seconds_def) (simp add: utc_dt_def)

text \<open>A stamp the program writes has the right age: for every datetime that Python can
  represent, naive or with any UTC offset, the age read back from its ISO text is the clock reading
  minus the instant it denotes, to the microsecond, where a naive datetime counts as UTC.\<close>

lemma age_of_written_stamp:
  assumes "valid_datetime d"
  shows "age_seconds (isoformat d) now
    = Some (now - (dt_us d - (case dt_off d of None \<Rightarrow> 0 | Some off \<Rightarrow> off)))"
  by (simp add: age_seconds_def iso.dec_enc [OF assms] split: option.split)

lemma age_of_written_stamp_witness:
  "age_seconds (isoformat \<lparr>dt_us = 1000, dt_off = Some 60000000\<rparr>) 5000 = Some 60004000"
  using age_of_written_stamp [of "\<lparr>dt_us = 1000, dt_off = Some 60000000\<rparr>" 5000]
  by (simp add: valid_datetime_def valid_offset_def)

end
