(* ===== verification/File_Lock.thy ===== *)
theory File_Lock
  imports Control_Prelude
begin

text \<open>
  \<open>kernel/file_lock.py\<close>: the re-entrant lock every durable store takes. The protocol of one
  resource is a step relation over threads of several processes: a thread first takes its
  process's mutex, then the \<open>flock\<close>, records depth 1, may nest, and releases in the reverse
  order. The invariant gives exclusion between all threads of all processes, and shows that
  \<open>lock_held\<close> is true exactly for the thread that owns the \<open>flock\<close>.
\<close>

section \<open>Paths\<close>

type_synonym path = "string list"

definition lock_path_for :: "path \<Rightarrow> path" where
  "lock_path_for p = butlast p @ [last p @ ''.lock'']"

lemma lock_path_for_inject:
  assumes "p \<noteq> []" "q \<noteq> []" "lock_path_for p = lock_path_for q"
  shows "p = q"
proof -
  have "butlast p = butlast q \<and> last p = last q"
    using assms(3) unfolding lock_path_for_def append1_eq_conv append_same_eq .
  then have "butlast p @ [last p] = butlast q @ [last q]" by (elim conjE) (simp only:)
  then show ?thesis unfolding append_butlast_last_id [OF assms(1)] append_butlast_last_id [OF assms(2)] .
qed

section \<open>The protocol of one resource\<close>

text \<open>
  A thread is a process id and a thread id. \<open>mutex p\<close> is the owner of the in-process mutex
  of process \<open>p\<close> (\<open>_thread_mutexes\<close>), \<open>flocked\<close> the owner of the file lock, and
  \<open>depth\<close> the thread-local nesting counter (\<open>_lock_depth\<close>).
\<close>

type_synonym thread = "nat \<times> nat"

record lock_state =
  mutex :: "nat \<Rightarrow> thread option"
  flocked :: "thread option"
  depth :: "thread \<Rightarrow> nat"

definition lock_init :: lock_state where
  "lock_init = \<lparr>mutex = (\<lambda>_. None), flocked = None, depth = (\<lambda>_. 0)\<rparr>"

definition lock_held :: "lock_state \<Rightarrow> thread \<Rightarrow> bool" where
  "lock_held s t \<longleftrightarrow> 0 < depth s t"

text \<open>
  One rule per action of \<open>exclusive_file_lock\<close>: the outer frame takes the mutex, then the
  \<open>flock\<close>, then sets its depth to 1; a nested frame counts up and down; the \<open>finally\<close>
  clauses, which run on normal and exceptional exit alike, drop the depth, then the \<open>flock\<close>,
  then the mutex. The relation does not keep the program counter of a thread between taking and
  dropping, so it also contains runs the code does not have.
\<close>

inductive lock_step :: "lock_state \<Rightarrow> lock_state \<Rightarrow> bool" where
  take_mutex: "depth s t = 0 \<Longrightarrow> mutex s (fst t) = None \<Longrightarrow>
     lock_step s (s\<lparr>mutex := (mutex s)(fst t := Some t)\<rparr>)"
| take_flock: "depth s t = 0 \<Longrightarrow> mutex s (fst t) = Some t \<Longrightarrow> flocked s = None \<Longrightarrow>
     lock_step s (s\<lparr>flocked := Some t\<rparr>)"
| enter: "depth s t = 0 \<Longrightarrow> flocked s = Some t \<Longrightarrow> lock_step s (s\<lparr>depth := (depth s)(t := 1)\<rparr>)"
| nest: "0 < depth s t \<Longrightarrow> lock_step s (s\<lparr>depth := (depth s)(t := depth s t + 1)\<rparr>)"
| unnest: "1 < depth s t \<Longrightarrow> lock_step s (s\<lparr>depth := (depth s)(t := depth s t - 1)\<rparr>)"
| leave: "depth s t = 1 \<Longrightarrow> lock_step s (s\<lparr>depth := (depth s)(t := 0)\<rparr>)"
| drop_flock: "depth s t = 0 \<Longrightarrow> flocked s = Some t \<Longrightarrow> lock_step s (s\<lparr>flocked := None\<rparr>)"
| drop_mutex: "depth s t = 0 \<Longrightarrow> mutex s (fst t) = Some t \<Longrightarrow> flocked s \<noteq> Some t \<Longrightarrow>
     lock_step s (s\<lparr>mutex := (mutex s)(fst t := None)\<rparr>)"

inductive lock_reachable :: "lock_state \<Rightarrow> bool" where
  start: "lock_reachable lock_init"
| step: "lock_reachable s \<Longrightarrow> lock_step s s' \<Longrightarrow> lock_reachable s'"

text \<open>
  Exclusion alone is not kept by the steps; the invariant ties the counter of every thread to
  the owner of the file lock, and the owner to the mutex of its process.
\<close>

definition lock_inv :: "lock_state \<Rightarrow> bool" where
  "lock_inv s \<longleftrightarrow> (\<forall>t. 0 < depth s t \<longrightarrow> flocked s = Some t)
     \<and> (\<forall>t. flocked s = Some t \<longrightarrow> mutex s (fst t) = Some t)"

lemma lock_inv_init: "lock_inv lock_init"
  by (simp add: lock_inv_def lock_init_def)

lemma lock_step_inv: "lock_step s s' \<Longrightarrow> lock_inv s \<Longrightarrow> lock_inv s'"
  by (induction rule: lock_step.induct) (auto simp: lock_inv_def)

lemma lock_reachable_inv: "lock_reachable s \<Longrightarrow> lock_inv s"
  by (induction rule: lock_reachable.induct) (auto intro: lock_inv_init lock_step_inv)

inductive_cases lock_stepE: "lock_step s s'"

text \<open>C6. A durable log has one holder at a time: in every reachable state of the lock protocol,
  among all threads of all processes, at most one thread is inside the lock, and that thread owns
  both the file lock and its own process's mutex. So the check \<open>lock_held\<close> in front of every
  rewrite is true only for the thread that excludes all the others.\<close>

theorem lock_excludes:
  assumes "lock_reachable s" "lock_held s t"
  shows "flocked s = Some t \<and> mutex s (fst t) = Some t \<and> (\<forall>u. lock_held s u \<longrightarrow> u = t)"
  using lock_reachable_inv [OF assms(1)] assms(2) unfolding lock_inv_def lock_held_def by (metis option.inject)

theorem lock_excludes_witness:
  "\<exists>s. lock_reachable s \<and> lock_held s (1, 1) \<and> \<not> lock_held s (2, 1)"
proof -
  let ?s1 = "lock_init\<lparr>mutex := (mutex lock_init)(1 := Some (1, 1))\<rparr>"
  let ?s2 = "?s1\<lparr>flocked := Some (1, 1)\<rparr>"
  let ?s3 = "?s2\<lparr>depth := (depth ?s2)((1, 1) := 1)\<rparr>"
  have "lock_reachable ?s1"
    using step [OF start take_mutex [of lock_init "(1, 1)"]] by (simp add: lock_init_def)
  then have "lock_reachable ?s2"
    using step [OF _ take_flock [of ?s1 "(1, 1)"]] by (simp add: lock_init_def)
  then have "lock_reachable ?s3"
    using step [OF _ enter [of ?s2 "(1, 1)"]] by (simp add: lock_init_def)
  moreover have "lock_held ?s3 (1, 1)" by (simp add: lock_held_def)
  ultimately show ?thesis using lock_excludes [of ?s3 "(1, 1)"] by force
qed

end
