(* ===== verification/Durable_Store.thy ===== *)
theory Durable_Store
  imports Timestamps File_Lock
begin

text \<open>
  \<open>controlplane/durable_store.py\<close> and what it rests on in
  \<open>kernel/primitives/checkout_coordination.py\<close> and \<open>kernel/file_lock.py\<close>: process roles,
  the write boundary of an unpublished checkout, store ownership, schema versions, the locked
  append and rewrite of a JSONL log, and the two read policies. A log is its list of lines; a
  line is modelled by what the record validator makes of it, since the JSON codec itself is a
  library. Reading strictly fails on a line that does not validate, reading tolerantly skips it.
  The locale \<open>durable_log\<close> is the contract the stores use.
\<close>

section \<open>Process roles and the checkout boundary\<close>

datatype execution_mode = Mode_mcp | Mode_dashboard | Mode_lifecycle_operation | Mode_test

datatype checkout_kind = Linked | Primary

record checkout_location =
  checkout_root :: path
  checkout_kind :: checkout_kind

definition worktree_group :: "checkout_location \<Rightarrow> path" where
  "worktree_group loc = butlast (checkout_root loc)"

definition coordination_root :: "checkout_location \<Rightarrow> path" where
  "coordination_root loc = worktree_group loc @ [''provider-runtime'', ''dev-ar-coordination'']"

definition synthetic_config_path :: "checkout_location \<Rightarrow> path" where
  "synthetic_config_path loc = worktree_group loc @ [''provider-runtime'', ''dev-mcp-settings.json'']"

definition reports_root :: "checkout_location \<Rightarrow> path" where
  "reports_root loc = worktree_group loc @ [''reports'']"

text \<open>The proper ancestors of a path, nearest first (\<open>Path.parents\<close>).\<close>

fun parents_up :: "nat \<Rightarrow> path \<Rightarrow> path list" where
  "parents_up 0 p = []"
| "parents_up (Suc n) p = take n p # parents_up n p"

definition path_parents :: "path \<Rightarrow> path list" where
  "path_parents p = parents_up (length p) p"

text \<open>
  \<open>resolve_checkout_location\<close>: the nearest ancestor with the repository shape and a
  \<open>.git\<close> marker. The file system is given by what is a file and what is a directory.
\<close>

fun first_checkout :: "(path \<Rightarrow> bool) \<Rightarrow> (path \<Rightarrow> bool) \<Rightarrow> path list \<Rightarrow> checkout_location option" where
  "first_checkout is_file is_dir [] = None"
| "first_checkout is_file is_dir (c # cs) =
     (if \<not> is_file (c @ [''mcp'', ''pyproject.toml'']) then first_checkout is_file is_dir cs
      else if \<not> is_dir (c @ [''mcp'', ''src'', ''agents_remember'']) then first_checkout is_file is_dir cs
      else if is_file (c @ [''.git'']) then Some \<lparr>checkout_root = c, checkout_kind = Linked\<rparr>
      else if is_dir (c @ [''.git'']) then Some \<lparr>checkout_root = c, checkout_kind = Primary\<rparr>
      else first_checkout is_file is_dir cs)"

definition resolve_checkout_location ::
  "(path \<Rightarrow> bool) \<Rightarrow> (path \<Rightarrow> bool) \<Rightarrow> path \<Rightarrow> checkout_location option" where
  "resolve_checkout_location is_file is_dir source = first_checkout is_file is_dir (path_parents source)"

text \<open>
  The host of an operation: the declared execution mode, the checkout the package was loaded
  from (\<open>resolve_checkout_location\<close> of the package source), which lock files really exclude,
  and the nesting depth of each lock on the running thread.
\<close>

record host =
  exec_mode :: "execution_mode option"
  package_checkout :: "checkout_location option"
  flock_excludes :: "path \<Rightarrow> bool"
  lock_depth :: "path \<Rightarrow> nat"

definition declare_execution_mode :: "execution_mode \<Rightarrow> host \<Rightarrow> host" where
  "declare_execution_mode mode h = h\<lparr>exec_mode := Some mode\<rparr>"

definition declared_process_role :: "host \<Rightarrow> execution_mode option" where
  "declared_process_role h = (case exec_mode h of
       Some Mode_test \<Rightarrow> None | m \<Rightarrow> m)"

definition declared_daemon_role :: "host \<Rightarrow> execution_mode option" where
  "declared_daemon_role h =
     (if exec_mode h \<in> {Some Mode_mcp, Some Mode_dashboard} then exec_mode h else None)"

definition checkout_cli_location :: "host \<Rightarrow> checkout_location option result" where
  "checkout_cli_location h =
     (if exec_mode h \<noteq> None then Inr None
      else (case package_checkout h of None \<Rightarrow> Inr None
        | Some loc \<Rightarrow>
           if checkout_kind loc = Primary
           then Inl (CheckoutCoordinationError ''primary checkout'')
           else Inr (Some loc)))"

definition is_relative_to :: "path \<Rightarrow> path \<Rightarrow> bool" where
  "is_relative_to p root \<longleftrightarrow> take (length root) p = root"

definition require_durable_write_target :: "host \<Rightarrow> path \<Rightarrow> unit result" where
  "require_durable_write_target h target =
     rbind (checkout_cli_location h) (\<lambda>location. case location of None \<Rightarrow> Inr ()
       | Some loc \<Rightarrow>
          if is_relative_to target (coordination_root loc) \<or> is_relative_to target (reports_root loc)
          then Inr ()
          else Inl (CheckoutCoordinationError ''refused target''))"

section \<open>Ownership\<close>

text \<open>\<open>StoreOwnership\<close> without its prose rationale.\<close>

record store_ownership =
  store_name :: string
  writers :: "execution_mode list"
  compaction_owner :: "execution_mode option"

definition check_declared_writer :: "host \<Rightarrow> store_ownership \<Rightarrow> unit result" where
  "check_declared_writer h own = (case declared_process_role h of
       None \<Rightarrow> Inr ()
     | Some role \<Rightarrow> if role \<in> set (writers own) then Inr ()
                    else Inl (CompactionOwnerError (store_name own)))"

definition is_compaction_owner :: "host \<Rightarrow> store_ownership \<Rightarrow> bool" where
  "is_compaction_owner h own =
     (let role = declared_process_role h
      in role = None \<or> compaction_owner own = None \<or> role = compaction_owner own)"

definition GATE_OWNERSHIP :: store_ownership where
  "GATE_OWNERSHIP = \<lparr>store_name = ''gate'',
     writers = [Mode_mcp, Mode_dashboard, Mode_lifecycle_operation], compaction_owner = Some Mode_mcp\<rparr>"

definition EXPECTATION_ROW_OWNERSHIP :: store_ownership where
  "EXPECTATION_ROW_OWNERSHIP = \<lparr>store_name = ''expectation-rows'',
     writers = [Mode_mcp, Mode_dashboard], compaction_owner = Some Mode_dashboard\<rparr>"

definition ATTENTION_DISMISSAL_OWNERSHIP :: store_ownership where
  "ATTENTION_DISMISSAL_OWNERSHIP = \<lparr>store_name = ''attention-dismissals'',
     writers = [Mode_dashboard], compaction_owner = Some Mode_dashboard\<rparr>"

definition OPERATOR_INBOX_OWNERSHIP :: store_ownership where
  "OPERATOR_INBOX_OWNERSHIP = \<lparr>store_name = ''operator-inbox'',
     writers = [Mode_mcp, Mode_dashboard], compaction_owner = None\<rparr>"

definition ORCHESTRATION_NUDGE_OWNERSHIP :: store_ownership where
  "ORCHESTRATION_NUDGE_OWNERSHIP = \<lparr>store_name = ''orchestration-nudges'',
     writers = [Mode_mcp, Mode_dashboard], compaction_owner = Some Mode_dashboard\<rparr>"

definition AGENT_NOTIFIER_SIGNAL_OWNERSHIP :: store_ownership where
  "AGENT_NOTIFIER_SIGNAL_OWNERSHIP = \<lparr>store_name = ''supervisor-signals'',
     writers = [Mode_dashboard], compaction_owner = Some Mode_dashboard\<rparr>"

section \<open>Records and schema versions\<close>

definition SCHEMA_VERSION :: string where
  "SCHEMA_VERSION = ''1.0''"

definition SUPPORTED_SCHEMA_MAJOR :: int where
  "SUPPORTED_SCHEMA_MAJOR = 1"

text \<open>
  \<open>schema_version_supported\<close>: \<open>MAJOR.MINOR\<close> with both parts numeric and the major equal to
  the supported one. Digits are the ASCII digits; the superscripts \<open>str.isdigit\<close> also admits
  make \<open>int\<close> raise inside the validator and are refused as well.
\<close>

definition schema_version_supported :: "string \<Rightarrow> bool" where
  "schema_version_supported v =
     (let major = takeWhile (\<lambda>c. c \<noteq> CHR ''.'') v; minor = tl (dropWhile (\<lambda>c. c \<noteq> CHR ''.'') v)
      in case (parse_digits major, parse_digits minor) of
           (Some n, Some _) \<Rightarrow> n = SUPPORTED_SCHEMA_MAJOR
         | _ \<Rightarrow> False)"

record durable_record =
  schemaVersion :: string

definition version_ok :: "'a durable_record_scheme \<Rightarrow> bool" where
  "version_ok r = schema_version_supported (schemaVersion r)"

section \<open>Logs\<close>

text \<open>
  A line of a JSONL log: blank, a record whose fields validate, or text the validator refuses.
  A log that does not exist is \<^const>\<open>None\<close>.
\<close>

datatype 'r log_line = Blank | Row 'r | Torn string

type_synonym 'r log = "'r log_line list option"

definition read_log_text :: "'r log \<Rightarrow> 'r log_line list" where
  "read_log_text log = (case log of None \<Rightarrow> [] | Some ls \<Rightarrow> ls)"

definition nonblank :: "'r log_line \<Rightarrow> bool" where
  "nonblank l \<longleftrightarrow> l \<noteq> Blank"

definition validate_line :: "'a durable_record_scheme log_line \<Rightarrow> 'a durable_record_scheme result" where
  "validate_line l = (case l of
       Row r \<Rightarrow> if version_ok r then Inr r else Inl (ValidationError (schemaVersion r))
     | Torn s \<Rightarrow> Inl (ValidationError s)
     | Blank \<Rightarrow> Inl (ValidationError []))"

definition read_strict :: "'a durable_record_scheme log \<Rightarrow> 'a durable_record_scheme list result" where
  "read_strict log = traverse validate_line (filter nonblank (read_log_text log))"

definition read_tolerant :: "'a durable_record_scheme log \<Rightarrow> 'a durable_record_scheme list" where
  "read_tolerant log =
     List.map_filter (\<lambda>l. case validate_line l of Inl _ \<Rightarrow> None | Inr r \<Rightarrow> Some r)
       (filter nonblank (read_log_text log))"

section \<open>Locked writes\<close>

definition exclusive_file_lock :: "host \<Rightarrow> string \<Rightarrow> path \<Rightarrow> (host \<Rightarrow> 'a result) \<Rightarrow> 'a result" where
  "exclusive_file_lock h resource p body =
     (let lp = lock_path_for p; d = lock_depth h lp in
      if 0 < d then body (h\<lparr>lock_depth := (lock_depth h)(lp := d + 1)\<rparr>)
      else if flock_excludes h lp then body (h\<lparr>lock_depth := (lock_depth h)(lp := 1)\<rparr>)
      else Inl (UnsafeLockFilesystemError resource))"

definition exclusive_access :: "host \<Rightarrow> store_ownership \<Rightarrow> path \<Rightarrow> (host \<Rightarrow> 'a result) \<Rightarrow> 'a result" where
  "exclusive_access h own p body =
     rbind (require_durable_write_target h p) (\<lambda>_. exclusive_file_lock h (store_name own) p body)"

definition require_lock_held :: "host \<Rightarrow> path \<Rightarrow> string \<Rightarrow> unit result" where
  "require_lock_held h p store =
     (if 0 < lock_depth h (lock_path_for p) then Inr () else Inl (DurableStoreError store))"

definition append_line :: "host \<Rightarrow> path \<Rightarrow> 'r \<Rightarrow> 'r log \<Rightarrow> 'r log result" where
  "append_line h p r log =
     rbind (require_durable_write_target h p) (\<lambda>_. Inr (Some (read_log_text log @ [Row r])))"

definition append_lines :: "host \<Rightarrow> path \<Rightarrow> 'r list \<Rightarrow> 'r log \<Rightarrow> 'r log result" where
  "append_lines h p rs log =
     (if rs = [] then Inr log
      else rbind (require_durable_write_target h p) (\<lambda>_. Inr (Some (read_log_text log @ map Row rs))))"

definition rewrite_lines :: "host \<Rightarrow> path \<Rightarrow> 'r list \<Rightarrow> store_ownership \<Rightarrow> 'r log result" where
  "rewrite_lines h p rs own =
     rbind (require_durable_write_target h p) (\<lambda>_.
     rbind (require_lock_held h p (store_name own)) (\<lambda>_. Inr (Some (map Row rs))))"

text \<open>
  \<open>migrate_jsonl_records\<close>: the JSON decoding of a line, the transform and the record
  validation are parameters. The result is the number of changed rows and the log.
\<close>

definition migrate_rows ::
  "('l \<Rightarrow> 'o result) \<Rightarrow> ('o \<Rightarrow> 'o) \<Rightarrow> ('o \<Rightarrow> 'r result) \<Rightarrow> 'l list \<Rightarrow> (bool \<times> 'r) list result" where
  "migrate_rows decode transform validate source =
     traverse (\<lambda>l. rbind (decode l) (\<lambda>raw.
        let migrated = transform raw in
        rbind (validate migrated) (\<lambda>r. Inr (migrated \<noteq> raw, r)))) source"

definition migrate_jsonl_records ::
  "host \<Rightarrow> path \<Rightarrow> store_ownership \<Rightarrow> ('l \<Rightarrow> 'o result) \<Rightarrow> ('o \<Rightarrow> 'o) \<Rightarrow> ('o \<Rightarrow> 'r result) \<Rightarrow> ('r \<Rightarrow> 'l)
     \<Rightarrow> 'l list \<Rightarrow> (nat \<times> 'l list) result" where
  "migrate_jsonl_records h p own decode transform validate dump source =
     rbind (check_declared_writer h own) (\<lambda>_.
     exclusive_access h own p (\<lambda>h'.
       if source = [] then Inr (0, source)
       else rbind (migrate_rows decode transform validate source) (\<lambda>rows.
         (let changed = length (filter fst rows) in
          if changed = 0 then Inr (0, source)
          else rbind (require_durable_write_target h' p) (\<lambda>_.
               rbind (require_lock_held h' p (store_name own)) (\<lambda>_.
                 Inr (changed, map (dump \<circ> snd) rows)))))))"


section \<open>When a write goes through\<close>

text \<open>The lock of a log can be taken: the target may be written and its lock file excludes.\<close>

definition lockable :: "host \<Rightarrow> path \<Rightarrow> bool" where
  "lockable h p \<longleftrightarrow> require_durable_write_target h p = Inr ()
     \<and> (0 < lock_depth h (lock_path_for p) \<or> flock_excludes h (lock_path_for p))"

text \<open>The host as the body of \<open>exclusive_access\<close> sees it.\<close>

definition locked :: "host \<Rightarrow> path \<Rightarrow> host" where
  "locked h p = h\<lparr>lock_depth := (lock_depth h)(lock_path_for p := lock_depth h (lock_path_for p) + 1)\<rparr>"

lemma write_target_locked [simp]:
  "require_durable_write_target (locked h p) q = require_durable_write_target h q"
  by (simp add: require_durable_write_target_def checkout_cli_location_def locked_def)

lemma check_declared_writer_locked [simp]:
  "check_declared_writer (locked h p) own = check_declared_writer h own"
  by (simp add: check_declared_writer_def declared_process_role_def locked_def)

lemma lock_held_locked [simp]: "0 < lock_depth (locked h p) (lock_path_for p)"
  by (simp add: locked_def)

lemma lockable_locked [simp]: "lockable h p \<Longrightarrow> lockable (locked h p) p"
  by (simp add: lockable_def)

lemma exclusive_access_lockable:
  assumes "lockable h p"
  shows "exclusive_access h own p body = body (locked h p)"
proof -
  have "require_durable_write_target h p = Inr ()"
    and "0 < lock_depth h (lock_path_for p) \<or> flock_excludes h (lock_path_for p)"
    using assms by (simp_all add: lockable_def)
  then show ?thesis
    by (auto simp: exclusive_access_def exclusive_file_lock_def locked_def Let_def)
qed

lemma exclusive_access_refused:
  assumes "\<not> lockable h p"
  shows "\<exists>e. exclusive_access h own p body = Inl e"
  using assms
  by (cases "require_durable_write_target h p")
    (auto simp: exclusive_access_def exclusive_file_lock_def lockable_def Let_def)

lemma exclusive_access_Inr:
  "exclusive_access h own p body = Inr x \<longleftrightarrow> lockable h p \<and> body (locked h p) = Inr x"
  using exclusive_access_lockable exclusive_access_refused by (metis Inl_Inr_False)

lemma append_line_locked [simp]:
  "lockable h p \<Longrightarrow> append_line (locked h p) p r log = Inr (Some (read_log_text log @ [Row r]))"
  by (simp add: append_line_def lockable_def)

lemma append_lines_locked [simp]:
  "lockable h p \<Longrightarrow> append_lines (locked h p) p rs log =
     Inr (if rs = [] then log else Some (read_log_text log @ map Row rs))"
  by (simp add: append_lines_def lockable_def)

lemma rewrite_lines_locked [simp]:
  "lockable h p \<Longrightarrow> rewrite_lines (locked h p) p rs own = Inr (Some (map Row rs))"
  by (simp add: rewrite_lines_def lockable_def require_lock_held_def)

text \<open>A rewrite outside the lock is refused, whatever the rows.\<close>

lemma rewrite_lines_unlocked:
  "lock_depth h (lock_path_for p) = 0 \<Longrightarrow> \<exists>e. rewrite_lines h p rs own = Inl e"
  by (cases "require_durable_write_target h p") (auto simp: rewrite_lines_def require_lock_held_def)

section \<open>Read policies\<close>

lemma nonblank_simps [simp]: "nonblank (Row r)" "nonblank (Torn s)" "\<not> nonblank Blank"
  by (simp_all add: nonblank_def)

lemma validate_line_simps [simp]:
  "validate_line (Row r) = (if version_ok r then Inr r else Inl (ValidationError (schemaVersion r)))"
  "validate_line (Torn s) = Inl (ValidationError s)"
  by (simp_all add: validate_line_def)

lemma read_log_text_simps [simp]: "read_log_text None = []" "read_log_text (Some ls) = ls"
  by (simp_all add: read_log_text_def)

lemma read_strict_Inr_iff:
  "read_strict log = Inr rs \<longleftrightarrow>
     filter nonblank (read_log_text log) = map Row rs \<and> (\<forall>r \<in> set rs. version_ok r)"
proof -
  have "list_all2 (\<lambda>l r. validate_line l = Inr r) ls rs \<longleftrightarrow> ls = map Row rs \<and> (\<forall>r \<in> set rs. version_ok r)"
    for ls :: "'a durable_record_scheme log_line list"
  proof (induction ls arbitrary: rs)
    case Nil
    then show ?case by auto
  next
    case (Cons l ls)
    have hd: "validate_line l = Inr r \<longleftrightarrow> l = Row r \<and> version_ok r" for r
      by (cases l) (auto simp: validate_line_def)
    show ?case by (cases rs) (auto simp: Cons.IH hd)
  qed
  then show ?thesis
    by (simp add: read_strict_def traverse_Inr_iff)
qed

lemma map_filter_Rows:
  "(\<forall>r \<in> set rs. version_ok r) \<Longrightarrow>
   List.map_filter (\<lambda>l. case validate_line l of Inl _ \<Rightarrow> None | Inr r \<Rightarrow> Some r) (map Row rs) = rs"
  by (induction rs) (auto simp: map_filter_simps)

text \<open>Where the strict read succeeds the two policies agree.\<close>

lemma read_tolerant_strict: "read_strict log = Inr rs \<Longrightarrow> read_tolerant log = rs"
  by (simp add: read_strict_Inr_iff read_tolerant_def map_filter_Rows)

lemma read_tolerant_versions: "r \<in> set (read_tolerant log) \<Longrightarrow> version_ok r"
  by (auto simp: read_tolerant_def List.map_filter_def validate_line_def split: sum.splits log_line.splits if_splits)

lemma read_tolerant_append:
  "read_tolerant (Some (read_log_text log @ [Row r])) = read_tolerant log @ (if version_ok r then [r] else [])"
  by (simp add: read_tolerant_def List.map_filter_def)

text \<open>A line that does not validate stops the strict read and is invisible to the tolerant one.\<close>

lemma read_strict_torn: "Torn s \<in> set (read_log_text log) \<Longrightarrow> \<exists>e. read_strict log = Inl e"
proof (cases "read_strict log")
  case (Inr rs)
  assume "Torn s \<in> set (read_log_text log)"
  then have "Torn s \<in> set (filter nonblank (read_log_text log))" by simp
  then have "Torn s \<in> set (map Row rs)" using Inr unfolding read_strict_Inr_iff by metis
  then show ?thesis by auto
qed simp

section \<open>The contract of a log\<close>

text \<open>
  What a store relies on: an append of a supported record is read back at the end, a rewrite
  is read back as written, and everything read is supported. The client lemmas are the facts
  every fold-and-compact store uses.
\<close>

locale durable_log =
  fixes read :: "'f \<Rightarrow> 'r list result" and append :: "'f \<Rightarrow> 'r \<Rightarrow> 'f" and rewrite :: "'f \<Rightarrow> 'r list \<Rightarrow> 'f"
    and supported :: "'r \<Rightarrow> bool"
  assumes read_append: "read f = Inr rs \<Longrightarrow> supported r \<Longrightarrow> read (append f r) = Inr (rs @ [r])"
    and read_rewrite: "(\<And>r. r \<in> set rs \<Longrightarrow> supported r) \<Longrightarrow> read (rewrite f rs) = Inr rs"
    and read_supported: "read f = Inr rs \<Longrightarrow> r \<in> set rs \<Longrightarrow> supported r"
begin

lemma read_compact: "read f = Inr rs \<Longrightarrow> read (rewrite f (filter keep rs)) = Inr (filter keep rs)"
  by (rule read_rewrite) (auto dest: read_supported)

lemma fold_append:
  "read f = Inr rs \<Longrightarrow> supported r \<Longrightarrow>
   \<exists>rs'. read (append f r) = Inr rs' \<and> map_of (fold_latest key rs') = (map_of (fold_latest key rs))(key r \<mapsto> r)"
  by (rule exI [of _ "rs @ [r]"]) (simp add: read_append update_conv')

text \<open>
  Compaction by a predicate on keys: the surviving keys keep their current snapshot, the
  others are gone.
\<close>

lemma fold_compact:
  assumes "read f = Inr rs"
  shows "\<exists>rs'. read (rewrite f (filter (\<lambda>r. P (key r)) rs)) = Inr rs' \<and>
     map_of (fold_latest key rs') k = (if P k then map_of (fold_latest key rs) k else None)"
  using read_compact [OF assms] by (simp add: lookup_fold_latest_filter)

end

definition log_append :: "'r log \<Rightarrow> 'r \<Rightarrow> 'r log" where
  "log_append log r = Some (read_log_text log @ [Row r])"

definition log_rewrite :: "'r log \<Rightarrow> 'r list \<Rightarrow> 'r log" where
  "log_rewrite log rs = Some (map Row rs)"

lemma read_log_text_log_append [simp]: "read_log_text (log_append log r) = read_log_text log @ [Row r]"
  by (simp add: log_append_def)

interpretation strict: durable_log read_strict log_append log_rewrite version_ok
proof
  show "read_strict (log_append f r) = Inr (rs @ [r])"
    if "read_strict f = Inr rs" "version_ok r" for f rs and r :: "'a durable_record_scheme"
    using that by (auto simp: read_strict_Inr_iff)
  show "read_strict (log_rewrite f rs) = Inr rs"
    if "\<And>r. r \<in> set rs \<Longrightarrow> version_ok r" for f and rs :: "'a durable_record_scheme list"
    using that by (auto simp: read_strict_Inr_iff log_rewrite_def filter_id_conv)
qed (simp add: read_strict_Inr_iff)

interpretation tolerant: durable_log "\<lambda>log. Inr (read_tolerant log)" log_append log_rewrite version_ok
proof
  show "Inr (read_tolerant (log_rewrite f rs)) = Inr rs"
    if "\<And>r. r \<in> set rs \<Longrightarrow> version_ok r" for f and rs :: "'a durable_record_scheme list"
    using that read_tolerant_strict [OF strict.read_rewrite] by auto
qed (auto simp: log_append_def read_tolerant_append dest: read_tolerant_versions)

section \<open>Migration\<close>

text \<open>
  A migrated log is stable: when the validated record dumps back to the object it was validated
  from and the transform fixes its own results, a second run changes nothing.
\<close>

lemma migrate_rows_again:
  assumes rows: "migrate_rows decode transform validate source = Inr rows"
    and codec: "\<And>obj r. validate obj = Inr r \<Longrightarrow> decode (dump r) = Inr obj"
    and idem: "\<And>obj. transform (transform obj) = transform obj"
  shows "migrate_rows decode transform validate (map (dump \<circ> snd) rows)
           = Inr (map (\<lambda>row. (False, snd row)) rows)"
proof -
  have "\<exists>obj. validate (transform obj) = Inr (snd row)" if "row \<in> set rows" for row
    using rows that
    by (auto simp: migrate_rows_def traverse_Inr_iff list_all2_conv_all_nth in_set_conv_nth Let_def
        rbind_eq_Inr_iff) (metis snd_conv)
  then have "rbind (decode (dump (snd row))) (\<lambda>raw. rbind (validate (transform raw))
      (\<lambda>r. Inr (transform raw \<noteq> raw, r))) = Inr (False, snd row)" if "row \<in> set rows" for row
    using that codec idem by fastforce
  then show ?thesis
    by (simp add: migrate_rows_def Let_def traverse_Inr_iff list_all2_map1 list_all2_map2 list_all2_same)
qed

section \<open>A host for witnesses\<close>

text \<open>The MCP server on a file system whose locks exclude, holding no lock.\<close>

definition sample_host :: host where
  "sample_host = \<lparr>exec_mode = Some Mode_mcp, package_checkout = None, flock_excludes = (\<lambda>_. True),
     lock_depth = (\<lambda>_. 0)\<rparr>"

lemma sample_host_lockable [simp]: "lockable sample_host p"
  by (simp add: lockable_def sample_host_def require_durable_write_target_def checkout_cli_location_def)

section \<open>The write boundary\<close>

lemma parents_up_prefix: "n \<le> length p \<Longrightarrow> c \<in> set (parents_up n p) \<Longrightarrow> is_relative_to p c \<and> length c < length p"
  by (induction n) (auto simp: is_relative_to_def)

lemma first_checkout_Some:
  "first_checkout is_file is_dir cs = Some loc \<Longrightarrow> checkout_root loc \<in> set cs
     \<and> (checkout_kind loc = Linked \<longleftrightarrow> is_file (checkout_root loc @ [''.git'']))"
  by (induction cs) (auto split: if_splits)

lemma resolved_checkout:
  assumes "resolve_checkout_location is_file is_dir source = Some loc"
  shows "is_relative_to source (checkout_root loc) \<and> (checkout_kind loc = Linked \<longleftrightarrow> is_file (checkout_root loc @ [''.git'']))"
  using first_checkout_Some [OF assms [unfolded resolve_checkout_location_def]] parents_up_prefix [of "length source" source]
  by (auto simp: path_parents_def)

text \<open>A bare command of an unpublished checkout writes only into its own worktree group: when
  no execution mode is declared and the package was loaded from a checkout, no log is locked,
  appended to or rewritten unless the checkout is a linked worktree (its \<open>.git\<close> is a file) that
  contains the package, and the log lies under the development coordination root or the reports
  of that checkout's group.\<close>

lemma checkout_writes_confined:
  assumes "exec_mode h = None" "resolve_checkout_location is_file is_dir source = Some loc"
    and "package_checkout h = Some loc"
    and "(\<exists>x. exclusive_access h own p body = Inr x) \<or> (\<exists>log'. append_line h p r log = Inr log')
       \<or> (\<exists>log'. rewrite_lines h p rs own = Inr log')"
  shows "is_file (checkout_root loc @ [''.git'']) \<and> is_relative_to source (checkout_root loc)
    \<and> (is_relative_to p (coordination_root loc) \<or> is_relative_to p (reports_root loc))"
proof -
  have "require_durable_write_target h p = Inr ()"
    using assms(4) by (auto simp: exclusive_access_Inr lockable_def append_line_def rewrite_lines_def rbind_eq_Inr_iff)
  then have "checkout_kind loc \<noteq> Primary"
    and "is_relative_to p (coordination_root loc) \<or> is_relative_to p (reports_root loc)"
    using assms(1,3) by (auto simp: require_durable_write_target_def checkout_cli_location_def split: if_splits)
  moreover have "checkout_kind loc = Primary \<or> checkout_kind loc = Linked" by (cases "checkout_kind loc") simp_all
  ultimately show ?thesis using resolved_checkout [OF assms(2)] by blast
qed

definition sample_checkout :: checkout_location where
  "sample_checkout = \<lparr>checkout_root = [''w'', ''repo''], checkout_kind = Linked\<rparr>"

lemma checkout_writes_confined_witness:
  "is_relative_to ([''w'', ''reports'', ''gate.jsonl'']) (reports_root sample_checkout)
   \<and> append_line (sample_host\<lparr>exec_mode := None, package_checkout := Some sample_checkout\<rparr>)
       [''w'', ''reports'', ''gate.jsonl''] ''row'' None = Inr (Some [Row ''row''])"
proof -
  let ?file = "\<lambda>p. p \<in> {[''w'', ''repo'', ''mcp'', ''pyproject.toml''], [''w'', ''repo'', ''.git'']}"
  let ?h = "sample_host\<lparr>exec_mode := None, package_checkout := Some sample_checkout\<rparr>"
  have r: "resolve_checkout_location ?file (\<lambda>_. True) [''w'', ''repo'', ''mcp'', ''src'', ''agents_remember''] = Some sample_checkout"
    by code_simp
  have a: "append_line ?h [''w'', ''reports'', ''gate.jsonl''] ''row'' None = Inr (Some [Row ''row''])"
    by code_simp
  have "\<not> is_relative_to [''w'', ''reports'', ''gate.jsonl''] (coordination_root sample_checkout)" by code_simp
  then show ?thesis
    using checkout_writes_confined [OF _ r, of ?h _ "[''w'', ''reports'', ''gate.jsonl'']" _ "''row''" None] a by simp
qed

end
