(* ===== verification/Task_Document_Ref.thy ===== *)
theory Task_Document_Ref
  imports Control_Prelude
begin

text \<open>
  \<open>models/task_document_ref.py\<close>: the canonical identity of a task document, a repository segment
  and a confined relative JSON path, with the two field validators. Paths are read the way
  \<open>PurePosixPath\<close> reads them: split at slashes, empty and single-dot segments dropped.
\<close>

section \<open>Path text\<close>

text \<open>\<open>text.split(sep)\<close>.\<close>

fun split_on :: "char \<Rightarrow> string \<Rightarrow> string list" where
  "split_on sep [] = [[]]"
| "split_on sep (c # cs) =
     (if c = sep then [] # split_on sep cs
      else (case split_on sep cs of [] \<Rightarrow> [[c]] | w # ws \<Rightarrow> (c # w) # ws))"

fun join_with :: "char \<Rightarrow> string list \<Rightarrow> string" where
  "join_with sep [] = []"
| "join_with sep [w] = w"
| "join_with sep (w # ws) = w @ sep # join_with sep ws"

definition posix_parts :: "string \<Rightarrow> string list" where
  "posix_parts s = filter (\<lambda>p. p \<noteq> [] \<and> p \<noteq> ''.'') (split_on (CHR ''/'') s)"

definition posix_text :: "string list \<Rightarrow> string" where
  "posix_text parts = (if parts = [] then ''.'' else join_with (CHR ''/'') parts)"

text \<open>\<open>PurePath.suffix\<close>: the last dotted ending of the final part, unless the dot is its first
  or last character.\<close>

definition path_suffix :: "string list \<Rightarrow> string" where
  "path_suffix parts = (case parts of [] \<Rightarrow> []
     | _ \<Rightarrow> (let name = last parts; tail = takeWhile (\<lambda>c. c \<noteq> CHR ''.'') (rev name);
                 stem = drop (length tail + 1) (rev name)
             in if length tail = length name \<or> tail = [] \<or> stem = [] then [] else CHR ''.'' # rev tail))"

text \<open>\<open>str.lower\<close> on the ASCII letters, all that the comparison with \<open>.json\<close> can see.\<close>

definition ascii_lower :: "string \<Rightarrow> string" where
  "ascii_lower s = map (\<lambda>c. let n = of_char c :: nat in if 65 \<le> n \<and> n \<le> 90 then char_of (n + 32) else c) s"

section \<open>The reference and its validators\<close>

record task_document_ref =
  repository :: string
  ref_path :: string

definition MAX_TASK_REPOSITORY_LENGTH :: nat where
  "MAX_TASK_REPOSITORY_LENGTH = 128"

definition MAX_TASK_DOCUMENT_PATH_LENGTH :: nat where
  "MAX_TASK_DOCUMENT_PATH_LENGTH = 4096"

definition repository_is_one_segment :: "string \<Rightarrow> string result" where
  "repository_is_one_segment value =
     (let cleaned = str_strip value in
      if length cleaned > MAX_TASK_REPOSITORY_LENGTH then Inl (ValueError ''repository length'')
      else if cleaned = [] \<or> cleaned = ''.'' \<or> cleaned = ''..'' \<or> CHR ''/'' \<in> set cleaned
              \<or> CHR 0x5C \<in> set cleaned
      then Inl (ValueError ''repository segment'')
      else Inr cleaned)"

definition path_is_confined_json :: "string \<Rightarrow> string result" where
  "path_is_confined_json value =
     (let cleaned = map (\<lambda>c. if c = CHR 0x5C then CHR ''/'' else c) (str_strip value);
          parts = posix_parts cleaned in
      if length cleaned > MAX_TASK_DOCUMENT_PATH_LENGTH then Inl (ValueError ''path length'')
      else if cleaned = [] \<or> hd cleaned = CHR ''/'' \<or> ''..'' \<in> set parts
      then Inl (ValueError ''path not confined'')
      else if ascii_lower (path_suffix parts) \<noteq> ''.json'' then Inl (ValueError ''not a JSON document'')
      else Inr (posix_text parts))"

definition make_task_document_ref :: "string \<Rightarrow> string \<Rightarrow> task_document_ref result" where
  "make_task_document_ref repo p =
     rbind (repository_is_one_segment repo) (\<lambda>r.
     rbind (path_is_confined_json p) (\<lambda>q. Inr \<lparr>repository = r, ref_path = q\<rparr>))"

definition ref_key :: "task_document_ref \<Rightarrow> string" where
  "ref_key ref = repository ref @ CHR ''/'' # ref_path ref"

section \<open>Splitting and joining\<close>

lemma split_on_nonempty [simp]: "split_on sep s \<noteq> []"
  by (cases s) (auto split: list.splits)

lemma split_on_elems: "w \<in> set (split_on sep s) \<Longrightarrow> sep \<notin> set w \<and> set w \<subseteq> set s"
  by (induction s arbitrary: w) (fastforce split: if_splits list.splits)+

lemma split_on_word: "sep \<notin> set w \<Longrightarrow> split_on sep w = [w]"
  by (induction w) auto

lemma split_on_append: "sep \<notin> set w \<Longrightarrow> split_on sep (w @ sep # s) = w # split_on sep s"
  by (induction w) auto

lemma set_join: "set (join_with sep ws) \<subseteq> insert sep (\<Union> (set ` set ws))"
  by (induction sep ws rule: join_with.induct) auto

lemma join_ends:
  "ws \<noteq> [] \<Longrightarrow> (\<And>w. w \<in> set ws \<Longrightarrow> w \<noteq> []) \<Longrightarrow>
   join_with sep ws \<noteq> [] \<and> last (join_with sep ws) = last (last ws) \<and> hd (join_with sep ws) = hd (hd ws)"
  by (induction sep ws rule: join_with.induct) auto

lemma split_join:
  "ws \<noteq> [] \<Longrightarrow> (\<And>w. w \<in> set ws \<Longrightarrow> sep \<notin> set w) \<Longrightarrow> split_on sep (join_with sep ws) = ws"
  by (induction sep ws rule: join_with.induct) (auto simp: split_on_word split_on_append)

lemma length_join_filter: "length (join_with sep (filter P ws)) \<le> length (join_with sep ws)"
proof (induction ws)
  case (Cons w ws)
  have j: "join_with sep (v # vs) = (if vs = [] then v else v @ sep # join_with sep vs)" for v vs
    by (cases vs) auto
  have "length (join_with sep (filter P ws)) \<le> length (join_with sep ws)" by (rule Cons.IH)
  moreover have "filter P ws \<noteq> [] \<Longrightarrow> ws \<noteq> []" by auto
  ultimately show ?case by (auto simp: j)
qed simp

lemma join_split: "join_with sep (split_on sep s) = s"
proof (induction s)
  case (Cons c cs)
  have j: "join_with sep (v # vs) = (if vs = [] then v else v @ sep # join_with sep vs)" for v vs
    by (cases vs) auto
  show ?case using Cons split_on_nonempty [of sep cs] by (cases "split_on sep cs") (auto simp: j split: if_splits)
qed simp

lemma posix_parts_elems:
  "p \<in> set (posix_parts s) \<Longrightarrow> p \<noteq> [] \<and> p \<noteq> ''.'' \<and> CHR ''/'' \<notin> set p \<and> set p \<subseteq> set s"
  using split_on_elems by (fastforce simp: posix_parts_def)

lemma posix_parts_text:
  assumes "parts \<noteq> []" "\<And>p. p \<in> set parts \<Longrightarrow> p \<noteq> [] \<and> p \<noteq> ''.'' \<and> CHR ''/'' \<notin> set p"
  shows "posix_parts (posix_text parts) = parts"
  using assms split_join [of parts "CHR ''/''"] by (auto simp: posix_parts_def posix_text_def filter_id_conv)

lemma dropWhile_hd: "s \<noteq> [] \<Longrightarrow> \<not> P (hd s) \<Longrightarrow> dropWhile P s = s"
  by (cases s) auto

lemma str_strip_id:
  assumes "s \<noteq> []" "\<not> is_space (hd s)" "\<not> is_space (last s)"
  shows "str_strip s = s"
  using assms by (simp add: str_strip_def dropWhile_hd hd_rev)

lemma str_strip_ends:
  assumes "str_strip s \<noteq> []"
  shows "\<not> is_space (hd (str_strip s))" and "\<not> is_space (last (str_strip s))"
proof -
  let ?d = "dropWhile is_space s"
  let ?e = "dropWhile is_space (rev ?d)"
  have e: "?e \<noteq> []" using assms by (simp add: str_strip_def)
  then have d: "?d \<noteq> []" by (metis dropWhile.simps(1) rev.simps(1))
  show "\<not> is_space (last (str_strip s))"
    using hd_dropWhile [OF e] by (simp add: str_strip_def last_rev)
  have "last ?e = hd ?d" using d e last_rev [of ?d] by (metis dropWhile_eq_drop last_drop drop_eq_Nil not_le_imp_less)
  then show "\<not> is_space (hd (str_strip s))"
    using hd_dropWhile [OF d] by (simp add: str_strip_def hd_rev)
qed

lemma str_strip_Nil [simp]: "str_strip [] = []"
  by (simp add: str_strip_def)

lemma str_strip_idem: "str_strip (str_strip s) = str_strip s"
proof (cases "str_strip s = []")
  case True
  then show ?thesis by simp
next
  case False
  then show ?thesis by (intro str_strip_id str_strip_ends)
qed

section \<open>Properties\<close>

lemma repository_canonical:
  "repository_is_one_segment v = Inr r \<Longrightarrow> repository_is_one_segment r = Inr r"
  by (auto simp: repository_is_one_segment_def Let_def str_strip_idem split: if_splits)

lemma ascii_lower_Nil [simp]: "ascii_lower [] = []"
  by (simp add: ascii_lower_def)

text \<open>A name with the suffix of a JSON document does not end in white space.\<close>

lemma suffix_last:
  assumes "ascii_lower (path_suffix parts) = ''.json''"
  shows "parts \<noteq> []" and "\<not> is_space (last (last parts))"
proof -
  show ne: "parts \<noteq> []" using assms by (auto simp: path_suffix_def)
  define name where "name = last parts"
  define tail where "tail = takeWhile (\<lambda>c. c \<noteq> CHR ''.'') (rev name)"
  have suf: "path_suffix parts = CHR ''.'' # rev tail" and "tail \<noteq> []"
    using assms ne unfolding path_suffix_def by (auto simp: Let_def name_def tail_def split: list.splits if_splits)
  then obtain c cs where tail: "tail = c # cs" by (cases tail) auto
  then have "last name = c"
    unfolding tail_def by (cases "rev name") (auto simp: hd_rev [symmetric] split: if_splits)
  moreover have low: "ascii_lower [c] = ''n''"
    using assms suf tail by (auto simp: ascii_lower_def append_eq_Cons_conv)
  have "\<not> is_space c"
  proof
    assume "is_space c"
    then have "ascii_lower [c] = [c]" by (auto simp: is_space_def ascii_lower_def Let_def)
    then have "c = CHR ''n''" using low by simp
    then show False using \<open>is_space c\<close> by (simp add: is_space_def)
  qed
  ultimately show "\<not> is_space (last (last parts))" by (simp add: name_def)
qed

text \<open>The validators change nothing about a canonical reference.\<close>

lemma make_ref_stable:
  assumes "make_task_document_ref repo p = Inr ref" "\<not> is_space (hd (ref_path ref))"
  shows "make_task_document_ref (repository ref) (ref_path ref) = Inr ref"
proof -
  define cleaned where "cleaned = map (\<lambda>c. if c = CHR 0x5C then CHR ''/'' else c) (str_strip p)"
  define parts where "parts = posix_parts cleaned"
  obtain r q where r: "repository_is_one_segment repo = Inr r" and q: "path_is_confined_json p = Inr q"
    and ref: "ref = \<lparr>repository = r, ref_path = q\<rparr>"
    using assms(1) by (auto simp: make_task_document_ref_def rbind_eq_Inr_iff)
  have len: "length cleaned \<le> MAX_TASK_DOCUMENT_PATH_LENGTH" and up: "''..'' \<notin> set parts"
    and suf: "ascii_lower (path_suffix parts) = ''.json''" and qt: "q = posix_text parts"
    using q by (auto simp: path_is_confined_json_def Let_def cleaned_def parts_def split: if_splits)
  note ne = suffix_last(1) [OF suf]
  have el: "w \<noteq> [] \<and> w \<noteq> ''.'' \<and> CHR ''/'' \<notin> set w \<and> CHR 0x5C \<notin> set w" if "w \<in> set parts" for w
    using posix_parts_elems [OF that [unfolded parts_def]] by (auto simp: cleaned_def)
  have qj: "q = join_with (CHR ''/'') parts" using ne qt by (simp add: posix_text_def)
  have qne: "q \<noteq> []" "last q = last (last parts)" "hd q = hd (hd parts)"
    using join_ends [OF ne] el qj by auto
  have strip: "str_strip q = q"
    using assms(2) ref qne suffix_last(2) [OF suf] by (intro str_strip_id) auto
  have clean: "map (\<lambda>c. if c = CHR 0x5C then CHR ''/'' else c) q = q"
    using set_join [of "CHR ''/''" parts] el qj by (intro map_idI) auto
  have "length q \<le> length cleaned"
    using length_join_filter [of "CHR ''/''" _ "split_on (CHR ''/'') cleaned"]
    by (simp add: qj parts_def posix_parts_def join_split)
  moreover have "hd q \<noteq> CHR ''/''"
    using qne(3) el [of "hd parts"] ne by (metis hd_in_set)
  moreover have "posix_parts q = parts" using posix_parts_text [OF ne] el qt by blast
  ultimately have "path_is_confined_json q = Inr q"
    using strip clean len up suf qne(1) qt by (simp add: path_is_confined_json_def Let_def)
  then show ?thesis using ref repository_canonical [OF r] by (simp add: make_task_document_ref_def)
qed

text \<open>C25. A canonical reference is stable: validating again the repository and the path that the
  validators produced gives the same reference, provided the canonical path does not start with
  white space.\<close>

theorem task_document_ref_stable:
  assumes "make_task_document_ref repo p = Inr ref" "\<not> is_space (hd (ref_path ref))"
  shows "make_task_document_ref (repository ref) (ref_path ref) = Inr ref"
  by (rule make_ref_stable [OF assms])

theorem task_document_ref_stable_witness:
  "make_task_document_ref ''repo'' ''a/b.json'' = Inr \<lparr>repository = ''repo'', ref_path = ''a/b.json''\<rparr>"
proof -
  have "make_task_document_ref '' repo '' ''./a//b.json'' = Inr \<lparr>repository = ''repo'', ref_path = ''a/b.json''\<rparr>"
    by code_simp
  then show ?thesis using task_document_ref_stable by (fastforce simp: is_space_def)
qed

text \<open>Without that proviso a reference is not stable: a path whose first real segment starts
  with a blank behind a single-dot segment is accepted with the blank, and loses it when the
  stored reference is validated again.\<close>

lemma task_document_ref_unstable:
  "make_task_document_ref ''repo'' ''./ a.json'' = Inr \<lparr>repository = ''repo'', ref_path = '' a.json''\<rparr>
   \<and> make_task_document_ref ''repo'' '' a.json'' = Inr \<lparr>repository = ''repo'', ref_path = ''a.json''\<rparr>"
  by code_simp

end
