(* ===== verification/Inbox_Records.thy ===== *)
theory Inbox_Records
  imports Durable_Store Task_Document_Ref
begin

text \<open>
  Operator inbox rows: the vocabulary of \<open>models/operator_inbox.py\<close>, the row and the pure
  operations of \<open>controlplane/operator_inbox_records.py\<close>, the redelivery schedule of
  \<open>kernel/primitives/inbox_backoff.py\<close>, and the inbox half of
  \<open>controlplane/interaction_retention.py\<close>.
\<close>

section \<open>Vocabulary\<close>

datatype inbox_state = Pending | Landed | Superseded | Unresolved | Expired | Consumed | LadderResolved

datatype inbox_via = In_chat | In_dashboard | In_cli

datatype agent_role =
    Developer | Operator | Designer | Strategist | Orchestrator_role | Manager_role | Worker | Reviewer
  | System_specialist | Architect | Curator | Agent | System

datatype message_kind =
    Message | Gate_response | Turn_report | Master_handover | Nudge | Escalation | Degradation_alert
  | Decision_item | Decision_ruling | Dispatch_brief | State_signal

datatype delivery_state = Queued | NoHostedSession | Delivered | Unconfirmed

datatype adapter_state = AdAccepted | AdQueued | AdRejected | AdUnknown | AdCompleted | AdUnsupported

section \<open>Arguments and rows\<close>

record inbox_address =
  ia_task_document_ref :: "task_document_ref option"
  ia_lifecycle_id :: "string option"
  ia_agent_id :: "string option"
  ia_recipient_role :: "agent_role option"

record inbox_owner =
  io_role :: "agent_role option"
  io_task_document_ref :: "task_document_ref option"
  io_agent_id :: "string option"
  io_lifecycle_id :: "string option"

record inbox_routing =
  ir_address :: inbox_address
  ir_owner :: inbox_owner

record inbox_subject =
  is_task_document_ref :: "task_document_ref option"
  is_seat_role :: "string option"
  is_agent_id :: "string option"

record inbox_message =
  im_ask :: string
  im_response :: string
  im_message_kind :: message_kind
  im_gate_id :: "string option"
  im_artifact_path :: "string option"
  im_subject :: inbox_subject

record inbox_poster =
  ip_created_by :: string
  ip_created_via :: inbox_via
  ip_sender_agent_id :: "string option"
  ip_sender_role :: "agent_role option"

text \<open>\<open>OperatorInboxEntry\<close>, every field; the two named forward-compatible extras are fields already.\<close>

record inbox_entry = durable_record +
  e_schema :: string
  e_id :: string
  e_ts :: string
  e_state :: inbox_state
  e_lifecycleId :: "string option"
  e_agentId :: "string option"
  e_taskDocumentRef :: "task_document_ref option"
  e_senderAgentId :: "string option"
  e_senderRole :: "agent_role option"
  e_recipientRole :: "agent_role option"
  e_gateId :: "string option"
  e_messageKind :: message_kind
  e_artifactPath :: "string option"
  e_subjectTaskDocumentRef :: "task_document_ref option"
  e_seatRole :: "string option"
  e_subjectAgentId :: "string option"
  e_ask :: string
  e_response :: string
  e_createdAt :: string
  e_createdBy :: string
  e_createdVia :: inbox_via
  e_deliveryState :: delivery_state
  e_deliveredAt :: "string option"
  e_deliveredToSession :: "string option"
  e_deliveryDetail :: "string option"
  e_adapterDeliveryState :: "adapter_state option"
  e_adapterRequestId :: "string option"
  e_adapterVendorCorrelationId :: "string option"
  e_adapterAcceptedAt :: "string option"
  e_adapterCompletedAt :: "string option"
  e_adapterDeliveryDetail :: "string option"
  e_consumedAt :: "string option"
  e_consumedBy :: "string option"
  e_consumedVia :: "inbox_via option"
  e_ladderResolvedAt :: "string option"
  e_ladderResolvedReason :: "string option"
  e_attemptCount :: int
  e_lastAttemptAt :: "string option"
  e_nextAttemptAt :: "string option"
  e_terminalAt :: "string option"
  e_terminalReason :: "string option"
  e_supersededBy :: "string option"
  e_escalatedAt :: "string option"
  e_rungTransitionAt :: "string option"
  e_rung :: int
  e_ownerRole :: "agent_role option"
  e_ownerTaskDocumentRef :: "task_document_ref option"
  e_ownerAgentId :: "string option"
  e_ownerLifecycleId :: "string option"

definition OPERATOR_INBOX_RECORD_SCHEMA :: string where
  "OPERATOR_INBOX_RECORD_SCHEMA = ''ar-operator-inbox-entry/v2''"

definition state_signal_landed :: "inbox_entry \<Rightarrow> bool" where
  "state_signal_landed e \<longleftrightarrow> e_state e = Landed"

definition require_inbox_address ::
  "task_document_ref option \<Rightarrow> string option \<Rightarrow> string option \<Rightarrow> agent_role option \<Rightarrow> unit result" where
  "require_inbox_address ref lifecycle_id agent_id role =
     (if ref = None \<and> lifecycle_id = None \<and> agent_id = None \<and> role = None
      then Inl (ValueError ''operator inbox address'') else Inr ())"

text \<open>The fold of the inbox log: last snapshot wins, except that a pending snapshot never
  replaces a terminal one.\<close>

definition inbox_fold_step ::
  "inbox_entry \<Rightarrow> (string, inbox_entry) dict \<Rightarrow> (string, inbox_entry) dict" where
  "inbox_fold_step e current = (case map_of current (e_id e) of
       Some previous \<Rightarrow> if e_state previous \<noteq> Pending \<and> e_state e = Pending then current
                        else AList.update (e_id e) e current
     | None \<Rightarrow> AList.update (e_id e) e current)"

definition fold_operator_inbox_entries :: "inbox_entry list \<Rightarrow> (string, inbox_entry) dict" where
  "fold_operator_inbox_entries es = fold inbox_fold_step es []"

definition create_operator_inbox_entry ::
  "inbox_message \<Rightarrow> string \<Rightarrow> string \<Rightarrow> inbox_routing \<Rightarrow> inbox_poster \<Rightarrow> inbox_entry result" where
  "create_operator_inbox_entry m entry_id now routing poster =
     (let a = ir_address routing; owner = ir_owner routing; subject = im_subject m in
      rbind (require_inbox_address (ia_task_document_ref a) (ia_lifecycle_id a) (ia_agent_id a)
               (ia_recipient_role a)) (\<lambda>_.
        Inr \<lparr>schemaVersion = SCHEMA_VERSION, e_schema = OPERATOR_INBOX_RECORD_SCHEMA,
             e_id = entry_id, e_ts = now, e_state = Pending,
             e_lifecycleId = ia_lifecycle_id a, e_agentId = ia_agent_id a,
             e_taskDocumentRef = ia_task_document_ref a,
             e_senderAgentId = ip_sender_agent_id poster, e_senderRole = ip_sender_role poster,
             e_recipientRole = ia_recipient_role a, e_gateId = im_gate_id m,
             e_messageKind = im_message_kind m, e_artifactPath = im_artifact_path m,
             e_subjectTaskDocumentRef = is_task_document_ref subject,
             e_seatRole = is_seat_role subject, e_subjectAgentId = is_agent_id subject,
             e_ask = im_ask m, e_response = im_response m, e_createdAt = now,
             e_createdBy = ip_created_by poster, e_createdVia = ip_created_via poster,
             e_deliveryState = Queued, e_deliveredAt = None, e_deliveredToSession = None,
             e_deliveryDetail = None, e_adapterDeliveryState = None, e_adapterRequestId = None,
             e_adapterVendorCorrelationId = None, e_adapterAcceptedAt = None,
             e_adapterCompletedAt = None, e_adapterDeliveryDetail = None, e_consumedAt = None,
             e_consumedBy = None, e_consumedVia = None, e_ladderResolvedAt = None,
             e_ladderResolvedReason = None, e_attemptCount = 0, e_lastAttemptAt = None,
             e_nextAttemptAt = None, e_terminalAt = None, e_terminalReason = None,
             e_supersededBy = None, e_escalatedAt = None, e_rungTransitionAt = None, e_rung = 0,
             e_ownerRole = io_role owner, e_ownerTaskDocumentRef = io_task_document_ref owner,
             e_ownerAgentId = io_agent_id owner, e_ownerLifecycleId = io_lifecycle_id owner\<rparr>))"

text \<open>\<open>consume_operator_inbox_entry\<close>: \<^const>\<open>None\<close> when the row is returned unchanged.\<close>

definition consume_operator_inbox_entry ::
  "inbox_entry \<Rightarrow> string \<Rightarrow> string \<Rightarrow> inbox_via \<Rightarrow> inbox_entry option" where
  "consume_operator_inbox_entry e now consumed_by consumed_via =
     (if e_consumedAt e \<noteq> None then None
      else Some (e\<lparr>e_ts := now, e_consumedAt := Some now, e_consumedBy := Some consumed_by,
                   e_consumedVia := Some consumed_via\<rparr>))"

section \<open>Redelivery schedule\<close>

definition BACKOFF_SCHEDULE :: "micros list" where
  "BACKOFF_SCHEDULE = [30 * second, 60 * second, 300 * second, 900 * second, 3600 * second, 21600 * second]"

definition MIN_REDELIVERY_INTERVAL :: micros where
  "MIN_REDELIVERY_INTERVAL = 900 * second"

definition backoff_for_attempt :: "int \<Rightarrow> micros" where
  "backoff_for_attempt attempt_count =
     BACKOFF_SCHEDULE ! nat (max 0 (min attempt_count (int (length BACKOFF_SCHEDULE) - 1)))"

definition require_redelivery_floor :: "micros option \<Rightarrow> micros result" where
  "require_redelivery_floor rate_limit = (case rate_limit of
       None \<Rightarrow> Inr MIN_REDELIVERY_INTERVAL
     | Some r \<Rightarrow> if r < MIN_REDELIVERY_INTERVAL then Inl (ValueError ''redelivery floor'') else Inr r)"

definition next_attempt_at :: "datetime \<Rightarrow> int \<Rightarrow> micros option \<Rightarrow> string result" where
  "next_attempt_at now attempt_count floor_us =
     rbind (require_redelivery_floor floor_us) (\<lambda>fl.
     rbind (dt_add now (max (backoff_for_attempt attempt_count) fl)) (\<lambda>t. Inr (isoformat t)))"

definition is_ladder_resolved :: "inbox_entry \<Rightarrow> bool" where
  "is_ladder_resolved e \<longleftrightarrow> e_state e = LadderResolved"

text \<open>Every \<^typ>\<open>delivery_state\<close> is redeliverable, as the code's constant lists them all. A stamp
  that does not parse makes the row due; a naive stamp makes the comparison raise.\<close>

definition is_due :: "inbox_entry \<Rightarrow> utc \<Rightarrow> bool result" where
  "is_due e now =
     (if is_ladder_resolved e \<or> e_state e \<noteq> Pending then Inr False
      else if e_deliveryState e \<notin> {Queued, NoHostedSession, Delivered, Unconfirmed} then Inr False
      else (case e_nextAttemptAt e of None \<Rightarrow> Inr True
        | Some stamp \<Rightarrow> (case fromisoformat stamp of None \<Rightarrow> Inr True
            | Some due_at \<Rightarrow> rbind (dt_diff (utc_dt now) due_at) (\<lambda>d. Inr (0 \<le> d)))))"

definition is_rate_limited :: "inbox_entry \<Rightarrow> utc \<Rightarrow> micros \<Rightarrow> bool result" where
  "is_rate_limited e now rate_limit =
     rbind (require_redelivery_floor (Some rate_limit)) (\<lambda>fl.
       case e_lastAttemptAt e of None \<Rightarrow> Inr False
         | Some stamp \<Rightarrow> (case fromisoformat stamp of None \<Rightarrow> Inr False
             | Some last_attempt \<Rightarrow> rbind (dt_diff (utc_dt now) last_attempt) (\<lambda>d. Inr (d < fl))))"

definition may_redeliver :: "utc \<Rightarrow> micros \<Rightarrow> inbox_entry \<Rightarrow> bool result" where
  "may_redeliver now rate_limit e =
     (if is_ladder_resolved e then Inr False
      else rbind (is_due e now) (\<lambda>due.
        if \<not> due then Inr False
        else rbind (is_rate_limited e now rate_limit) (\<lambda>limited. Inr (\<not> limited))))"

definition redeliverable :: "inbox_entry list \<Rightarrow> utc \<Rightarrow> micros \<Rightarrow> inbox_entry list result" where
  "redeliverable es now rate_limit = filter_result (may_redeliver now rate_limit) es"

section \<open>Retention\<close>

definition AGENT_PICKUP_TTL :: micros where
  "AGENT_PICKUP_TTL = 300 * second"

definition INBOX_TERMINAL_MARKER_RETENTION :: micros where
  "INBOX_TERMINAL_MARKER_RETENTION = 48 * 60 * 60 * second"

definition INBOX_MAX_CURRENT_ROWS :: nat where
  "INBOX_MAX_CURRENT_ROWS = 500"

text \<open>\<open>stamp or createdAt\<close>, then its age against the marker window.\<close>

definition marker_kept :: "string option \<Rightarrow> string \<Rightarrow> utc \<Rightarrow> bool" where
  "marker_kept stamp created_at now =
     (case age_seconds (if truthy_str stamp then the stamp else created_at) now of
        None \<Rightarrow> True | Some age \<Rightarrow> age \<le> INBOX_TERMINAL_MARKER_RETENTION)"

definition keep_inbox_entry :: "utc \<Rightarrow> inbox_entry \<Rightarrow> bool" where
  "keep_inbox_entry now e =
     (if e_state e = LadderResolved then False
      else if e_state e = Pending then True
      else if e_state e = Consumed then marker_kept (e_consumedAt e) (e_createdAt e) now
      else marker_kept (e_terminalAt e) (e_createdAt e) now)"

definition inbox_cap :: "inbox_entry list \<Rightarrow> nat \<Rightarrow> string set \<Rightarrow> inbox_entry list" where
  "inbox_cap kept max_rows protected_ids =
     (if length kept > max_rows
      then (let protected = filter (\<lambda>e. e_id e \<in> protected_ids) kept;
                available = max_rows - length protected;
                pending = py_sorted_desc e_createdAt
                  (filter (\<lambda>e. e_id e \<notin> protected_ids \<and> e_state e = Pending) kept);
                terminal = py_sorted_desc e_createdAt
                  (filter (\<lambda>e. e_id e \<notin> protected_ids \<and> e_state e \<noteq> Pending) kept);
                selected = take available pending;
                selected = (if length selected < available
                            then selected @ take (available - length selected) terminal else selected)
            in protected @ selected)
      else kept)"

definition inbox_keep_ids ::
  "utc \<Rightarrow> nat \<Rightarrow> (string, inbox_entry) dict \<Rightarrow> string set \<Rightarrow> string set" where
  "inbox_keep_ids now max_rows latest protected_ids =
     (let kept = filter (\<lambda>e. e_id e \<in> protected_ids \<or> keep_inbox_entry now e) (dict_values latest)
      in set (map e_id (inbox_cap kept max_rows protected_ids)))"

definition pickup_state :: "inbox_entry \<Rightarrow> utc \<Rightarrow> string" where
  "pickup_state e now = (case age_seconds (e_createdAt e) now of
       None \<Rightarrow> ''waiting-for-agent''
     | Some age \<Rightarrow> if age > AGENT_PICKUP_TTL then ''check-chat'' else ''waiting-for-agent'')"

definition pickup_age_seconds :: "inbox_entry \<Rightarrow> utc \<Rightarrow> micros option" where
  "pickup_age_seconds e now = age_seconds (e_createdAt e) now"

section \<open>The fold\<close>

lemma inbox_fold_Nil [simp, fold_simps]: "fold_operator_inbox_entries [] = []"
  by (simp add: fold_operator_inbox_entries_def)

lemma inbox_fold_snoc [fold_simps]:
  "fold_operator_inbox_entries (es @ [e]) = inbox_fold_step e (fold_operator_inbox_entries es)"
  by (simp add: fold_operator_inbox_entries_def)

lemma lookup_inbox_fold_step:
  "map_of (inbox_fold_step e d) k =
     (if k = e_id e \<and> \<not> (\<exists>p. map_of d k = Some p \<and> e_state p \<noteq> Pending \<and> e_state e = Pending)
      then Some e else map_of d k)"
  by (auto simp: inbox_fold_step_def update_conv' split: option.splits)

text \<open>The folded row is the last terminal snapshot if there is one, the last snapshot otherwise.\<close>

definition inbox_view :: "inbox_entry list \<Rightarrow> string \<Rightarrow> inbox_entry option" where
  "inbox_view es k =
     (case filter (\<lambda>e. e_id e = k \<and> e_state e \<noteq> Pending) es of
        [] \<Rightarrow> (case filter (\<lambda>e. e_id e = k) es of [] \<Rightarrow> None | xs \<Rightarrow> Some (last xs))
      | ts \<Rightarrow> Some (last ts))"

lemma inbox_view_snoc:
  "inbox_view (es @ [e]) k =
     (if k = e_id e \<and> \<not> (\<exists>p. inbox_view es k = Some p \<and> e_state p \<noteq> Pending \<and> e_state e = Pending)
      then Some e else inbox_view es k)"
proof (cases "filter (\<lambda>e. e_id e = k \<and> e_state e \<noteq> Pending) es = []")
  case True
  have "e_state (last (filter (\<lambda>e. e_id e = k) es)) = Pending" if "filter (\<lambda>e. e_id e = k) es \<noteq> []"
  proof -
    have "last (filter (\<lambda>e. e_id e = k) es) \<in> set (filter (\<lambda>e. e_id e = k) es)"
      using that by (rule last_in_set)
    then show ?thesis using True by (auto simp: filter_empty_conv)
  qed
  then show ?thesis using True by (auto simp: inbox_view_def split: list.splits)
next
  case False
  then have "last (filter (\<lambda>e. e_id e = k \<and> e_state e \<noteq> Pending) es)
      \<in> set (filter (\<lambda>e. e_id e = k \<and> e_state e \<noteq> Pending) es)" by (rule last_in_set)
  then show ?thesis using False by (auto simp: inbox_view_def split: list.splits)
qed

lemma lookup_inbox_fold: "map_of (fold_operator_inbox_entries es) k = inbox_view es k"
proof (induction es arbitrary: k rule: rev_induct)
  case Nil
  then show ?case by (simp add: inbox_view_def)
next
  case (snoc e es)
  show ?case unfolding inbox_fold_snoc lookup_inbox_fold_step inbox_view_snoc snoc.IH by (rule refl)
qed

lemma dict_wf_inbox_fold [simp]: "dict_wf (fold_operator_inbox_entries es)"
  by (induction es rule: rev_induct) (auto simp: inbox_fold_snoc inbox_fold_step_def distinct_update split: option.splits)

lemma inbox_view_Nil [simp]: "inbox_view [] k = None"
  by (simp add: inbox_view_def)

lemma inbox_view_mem: "inbox_view es k = Some e \<Longrightarrow> e_id e = k \<and> e \<in> set es"
  by (induction es rule: rev_induct) (auto simp: inbox_view_snoc split: if_splits)

lemma inbox_view_None: "inbox_view es k = None \<longleftrightarrow> k \<notin> e_id ` set es"
  by (induction es rule: rev_induct) (auto simp: inbox_view_snoc)

text \<open>Later pending snapshots do not undo a terminal one.\<close>

lemma inbox_view_terminal:
  assumes "inbox_view es k = Some t" "e_state t \<noteq> Pending"
  shows "\<exists>t'. inbox_view (es @ later) k = Some t' \<and> e_state t' \<noteq> Pending
     \<and> (t' = t \<or> t' \<in> set later)"
proof (induction later rule: rev_induct)
  case Nil
  then show ?case using assms by simp
next
  case (snoc e later)
  then show ?case by (auto simp: inbox_view_snoc simp flip: append_assoc)
qed

lemma inbox_view_filter:
  "inbox_view (filter (\<lambda>e. P (e_id e)) es) k = (if P k then inbox_view es k else None)"
  by (induction es rule: rev_induct) (auto simp: inbox_view_snoc)

lemma inbox_fold_filter:
  "fold_operator_inbox_entries (filter (\<lambda>e. P (e_id e)) es) =
     filter (\<lambda>p. P (fst p)) (fold_operator_inbox_entries es)"
proof (induction es rule: rev_induct)
  case (snoc e es)
  have look: "map_of (filter (\<lambda>p. P (fst p)) d) (e_id e) = (if P (e_id e) then map_of d (e_id e) else None)"
    for d :: "(string, inbox_entry) dict"
    by (induction d) auto
  show ?case
    using snoc by (auto simp: inbox_fold_snoc inbox_fold_step_def look filter_update_alist split: option.splits)
qed simp

section \<open>The redelivery floor\<close>

lemma backoff_schedule_sorted: "i \<le> j \<Longrightarrow> j < 6 \<Longrightarrow> BACKOFF_SCHEDULE ! i \<le> BACKOFF_SCHEDULE ! j"
  by (rule sorted_nth_mono) (simp_all add: BACKOFF_SCHEDULE_def)

lemma backoff_index: "length BACKOFF_SCHEDULE = 6" "nat (max 0 (min n 5)) < 6"
  by (auto simp: BACKOFF_SCHEDULE_def)

lemma backoff_bounds: "30 * second \<le> backoff_for_attempt n" "backoff_for_attempt n \<le> 21600 * second"
proof -
  have "BACKOFF_SCHEDULE ! 0 = 30 * second" "BACKOFF_SCHEDULE ! 5 = 21600 * second"
    by (simp_all add: BACKOFF_SCHEDULE_def)
  then show "30 * second \<le> backoff_for_attempt n" "backoff_for_attempt n \<le> 21600 * second"
    using backoff_schedule_sorted [of 0 "nat (max 0 (min n 5))"] backoff_schedule_sorted [of "nat (max 0 (min n 5))" 5]
      backoff_index(2) [of n] by (auto simp: backoff_for_attempt_def backoff_index(1))
qed

lemma backoff_mono: "m \<le> n \<Longrightarrow> backoff_for_attempt m \<le> backoff_for_attempt n"
  unfolding backoff_for_attempt_def backoff_index(1)
  by (rule backoff_schedule_sorted) auto

lemma require_redelivery_floor_Inr:
  "require_redelivery_floor f = Inr x \<Longrightarrow> MIN_REDELIVERY_INTERVAL \<le> x"
  by (auto simp: require_redelivery_floor_def split: option.splits if_splits)

lemma is_due_stamp:
  assumes "e_nextAttemptAt e = Some (utc_stamp t)" "valid_utc t" "is_due e now = Inr True"
  shows "t \<le> now"
  using assms by (auto simp: is_due_def split: if_splits)

lemma is_due_pending: "is_due e now = Inr True \<Longrightarrow> e_state e = Pending"
  by (auto simp: is_due_def split: if_splits)

lemma not_rate_limited_stamp:
  assumes "e_lastAttemptAt e = Some (utc_stamp t)" "valid_utc t" "is_rate_limited e now r = Inr False"
  shows "MIN_REDELIVERY_INTERVAL \<le> now - t"
proof -
  obtain fl where "require_redelivery_floor (Some r) = Inr fl" "\<not> now - t < fl"
    using assms by (auto simp: is_rate_limited_def rbind_eq_Inr_iff)
  then show ?thesis using require_redelivery_floor_Inr by fastforce
qed

lemma may_redeliver_True:
  "may_redeliver now r e = Inr True \<longleftrightarrow> is_due e now = Inr True \<and> is_rate_limited e now r = Inr False"
  by (auto simp: may_redeliver_def is_due_def is_ladder_resolved_def rbind_eq_Inr_iff split: if_splits)

section \<open>The cap\<close>

lemma inbox_cap_subset: "set (inbox_cap kept m prot) \<subseteq> set kept"
  by (auto simp: inbox_cap_def Let_def dest: in_set_takeD)

lemma inbox_cap_protected: "e \<in> set kept \<Longrightarrow> e_id e \<in> prot \<Longrightarrow> e \<in> set (inbox_cap kept m prot)"
  by (simp add: inbox_cap_def Let_def)

lemma inbox_cap_length:
  "length (inbox_cap kept m prot) \<le> max m (length (filter (\<lambda>e. e_id e \<in> prot) kept))"
  by (auto simp: inbox_cap_def Let_def)

text \<open>
  What the cap evicts: a terminal row only when the rows kept in its place are pending or newer,
  a pending row only when no unprotected terminal row is kept and every unprotected row kept is
  at least as new.
\<close>

lemma inbox_cap_evicts:
  assumes "e \<in> set kept" "e \<notin> set (inbox_cap kept m prot)"
    and "k \<in> set (inbox_cap kept m prot)" "e_id k \<notin> prot"
  shows "e_state k = Pending \<and> e_state e \<noteq> Pending
     \<or> (e_state k = Pending \<longleftrightarrow> e_state e = Pending) \<and> e_createdAt e \<le> e_createdAt k"
proof -
  define avail where "avail = m - length (filter (\<lambda>e. e_id e \<in> prot) kept)"
  define pend where "pend = py_sorted_desc e_createdAt (filter (\<lambda>e. e_id e \<notin> prot \<and> e_state e = Pending) kept)"
  define trm where "trm = py_sorted_desc e_createdAt (filter (\<lambda>e. e_id e \<notin> prot \<and> e_state e \<noteq> Pending) kept)"
  have over: "length kept > m" using assms(1,2) by (auto simp: inbox_cap_def split: if_splits)
  have cap: "set (inbox_cap kept m prot) = set (filter (\<lambda>e. e_id e \<in> prot) kept) \<union> set (take avail pend)
      \<union> set (take (avail - length pend) trm)"
    using over by (auto simp: inbox_cap_def Let_def avail_def pend_def trm_def min_def split: if_splits)
  have e: "e_id e \<notin> prot" "e \<notin> set (take avail pend)" "e \<notin> set (take (avail - length pend) trm)"
    using assms(1,2) cap by auto
  have mem: "x \<in> set kept \<Longrightarrow> e_id x \<notin> prot \<Longrightarrow> x \<in> set (if e_state x = Pending then pend else trm)" for x
    by (simp add: pend_def trm_def)
  have sub: "x \<in> set pend \<Longrightarrow> e_state x = Pending" "x \<in> set trm \<Longrightarrow> e_state x \<noteq> Pending" for x
    by (simp_all add: pend_def trm_def)
  have split: "x \<in> set xs \<Longrightarrow> x \<notin> set (take n xs) \<Longrightarrow> x \<in> set (drop n xs)" for x :: inbox_entry and n xs
    by (metis Un_iff append_take_drop_id set_append)
  have greatest: "x \<in> set (take n (py_sorted_desc e_createdAt xs)) \<Longrightarrow>
      y \<in> set (drop n (py_sorted_desc e_createdAt xs)) \<Longrightarrow> e_createdAt y \<le> e_createdAt x" for x y n xs
    by (rule take_py_sorted_desc_greatest)
  from assms(3,4) cap consider (p) "k \<in> set (take avail pend)" | (t) "k \<in> set (take (avail - length pend) trm)"
    by auto
  then show ?thesis
  proof cases
    case p
    then have kp: "e_state k = Pending" using sub(1) in_set_takeD by metis
    show ?thesis
    proof (cases "e_state e = Pending")
      case True
      then have "e \<in> set (drop avail pend)" using mem [OF assms(1) e(1)] split e(2) by auto
      then show ?thesis using p kp True greatest unfolding pend_def by auto
    qed (use kp in simp)
  next
    case t
    then have kt: "e_state k \<noteq> Pending" using sub(2) in_set_takeD by metis
    have "avail > length pend" using t by (cases "avail - length pend") auto
    then have "e_state e \<noteq> Pending" using mem [OF assms(1) e(1)] e(2) by (auto split: if_splits)
    then have "e \<in> set (drop (avail - length pend) trm)" using mem [OF assms(1) e(1)] split e(3) by auto
    then show ?thesis
      using t kt \<open>e_state e \<noteq> Pending\<close> greatest unfolding trm_def by auto
  qed
qed

end
