(* ===== verification/Inbox_Store.thy ===== *)
theory Inbox_Store
  imports Inbox_Records
begin

text \<open>
  \<open>controlplane/operator_inbox_store.py\<close> and \<open>controlplane/operator_inbox_transitions.py\<close>: the
  shared inbox log and every operation on it. The store operations hold the log's lock across
  their read and their write. The transitions that do not go through \<open>transition\<close> read first
  and append later, from a fold their caller may have taken long before: the fold resolves that
  race, which is what the properties at the end are about.
\<close>

section \<open>State\<close>

record inbox_store =
  ib_root :: path
  ib_log :: "inbox_entry log"

definition inbox_log_path :: "inbox_store \<Rightarrow> path" where
  "inbox_log_path s = ib_root s @ [''workspace'', ''operator-inbox.jsonl'']"

text \<open>\<open>_validated\<close>: the final revalidation of a row. With typed fields it is the schema version
  and the canonical form of the three document references that can still be refused or change.\<close>

definition validated_ref :: "task_document_ref option \<Rightarrow> task_document_ref option result" where
  "validated_ref ref = (case ref of None \<Rightarrow> Inr None
     | Some r \<Rightarrow> (case make_task_document_ref (repository r) (ref_path r) of
           Inl _ \<Rightarrow> Inl (ValidationError ''task document reference'') | Inr r' \<Rightarrow> Inr (Some r')))"

definition validated :: "inbox_entry \<Rightarrow> inbox_entry result" where
  "validated e =
     (if \<not> version_ok e then Inl (ValidationError (schemaVersion e))
      else rbind (validated_ref (e_taskDocumentRef e)) (\<lambda>a.
           rbind (validated_ref (e_subjectTaskDocumentRef e)) (\<lambda>b.
           rbind (validated_ref (e_ownerTaskDocumentRef e)) (\<lambda>c.
             Inr (e\<lparr>e_taskDocumentRef := a, e_subjectTaskDocumentRef := b, e_ownerTaskDocumentRef := c\<rparr>)))))"

section \<open>Store operations\<close>

definition inbox_read_unlocked :: "inbox_store \<Rightarrow> inbox_entry list result" where
  "inbox_read_unlocked s = read_strict (ib_log s)"

definition inbox_append_unlocked :: "host \<Rightarrow> inbox_store \<Rightarrow> inbox_entry \<Rightarrow> inbox_store result" where
  "inbox_append_unlocked h s e =
     rbind (validated e) (\<lambda>v.
     rbind (append_line h (inbox_log_path s) v (ib_log s)) (\<lambda>log. Inr (s\<lparr>ib_log := log\<rparr>)))"

definition inbox_replace_unlocked :: "host \<Rightarrow> inbox_store \<Rightarrow> inbox_entry list \<Rightarrow> inbox_store result" where
  "inbox_replace_unlocked h s es =
     rbind (traverse validated es) (\<lambda>vs.
     rbind (rewrite_lines h (inbox_log_path s) vs OPERATOR_INBOX_OWNERSHIP) (\<lambda>log. Inr (s\<lparr>ib_log := log\<rparr>)))"

definition inbox_exclusive :: "host \<Rightarrow> inbox_store \<Rightarrow> (host \<Rightarrow> 'a result) \<Rightarrow> 'a result" where
  "inbox_exclusive h s body = exclusive_access h OPERATOR_INBOX_OWNERSHIP (inbox_log_path s) body"

definition inbox_append :: "host \<Rightarrow> inbox_store \<Rightarrow> inbox_entry \<Rightarrow> inbox_store result" where
  "inbox_append h s e =
     rbind (check_declared_writer h OPERATOR_INBOX_OWNERSHIP) (\<lambda>_.
       inbox_exclusive h s (\<lambda>h'. inbox_append_unlocked h' s e))"

definition inbox_read :: "host \<Rightarrow> inbox_store \<Rightarrow> inbox_entry list result" where
  "inbox_read h s = inbox_exclusive h s (\<lambda>_. inbox_read_unlocked s)"

definition inbox_current :: "host \<Rightarrow> inbox_store \<Rightarrow> (string, inbox_entry) dict result" where
  "inbox_current h s = rbind (inbox_read h s) (\<lambda>es. Inr (fold_operator_inbox_entries es))"

text \<open>A transition maps the latest row to its next snapshot, or to \<^const>\<open>None\<close> when it declines
  (returning nothing, or the very row it was given).\<close>

type_synonym row_transition = "inbox_entry \<Rightarrow> inbox_entry option"

definition inbox_transition ::
  "host \<Rightarrow> inbox_store \<Rightarrow> string \<Rightarrow> row_transition \<Rightarrow> ((inbox_entry \<times> bool) \<times> inbox_store) result" where
  "inbox_transition h s entry_id tr =
     inbox_exclusive h s (\<lambda>h'.
       rbind (inbox_read_unlocked s) (\<lambda>es.
         case map_of (fold_operator_inbox_entries es) entry_id of
           None \<Rightarrow> Inl (KeyError entry_id)
         | Some entry \<Rightarrow> (case tr entry of
               None \<Rightarrow> Inr ((entry, False), s)
             | Some updated \<Rightarrow>
                 rbind (inbox_append_unlocked h' s updated) (\<lambda>s'. Inr ((updated, True), s')))))"

text \<open>The loop of \<open>transition_many\<close> over the working fold: its results and the rows to append.\<close>

fun transition_loop ::
  "(string \<times> row_transition) list \<Rightarrow> (string, inbox_entry) dict
     \<Rightarrow> ((inbox_entry \<times> bool) list \<times> inbox_entry list) result" where
  "transition_loop [] current = Inr ([], [])"
| "transition_loop ((entry_id, tr) # rest) current =
     (case map_of current entry_id of
        None \<Rightarrow> Inl (KeyError entry_id)
      | Some entry \<Rightarrow> (case tr entry of
            None \<Rightarrow> rbind (transition_loop rest current) (\<lambda>(res, app). Inr ((entry, False) # res, app))
          | Some updated \<Rightarrow>
              rbind (validated updated) (\<lambda>v.
              rbind (transition_loop rest (AList.update entry_id v current)) (\<lambda>(res, app).
                Inr ((v, True) # res, v # app)))))"

definition transition_many ::
  "host \<Rightarrow> inbox_store \<Rightarrow> (string \<times> row_transition) list
     \<Rightarrow> ((inbox_entry \<times> bool) list \<times> inbox_store) result" where
  "transition_many h s transitions =
     rbind (check_declared_writer h OPERATOR_INBOX_OWNERSHIP) (\<lambda>_.
     inbox_exclusive h s (\<lambda>h'.
       rbind (inbox_read_unlocked s) (\<lambda>es.
       rbind (transition_loop transitions (fold_operator_inbox_entries es)) (\<lambda>(res, app).
       rbind (append_lines h' (inbox_log_path s) app (ib_log s)) (\<lambda>log.
         Inr (res, s\<lparr>ib_log := log\<rparr>))))))"

definition in_mailbox ::
  "string option \<Rightarrow> string option \<Rightarrow> agent_role option \<Rightarrow> bool \<Rightarrow> inbox_entry \<Rightarrow> bool" where
  "in_mailbox lifecycle_id agent_id role include_terminal e \<longleftrightarrow>
     (e_state e = Pending \<or> include_terminal)
     \<and> (lifecycle_id = None \<or> e_lifecycleId e = lifecycle_id)
     \<and> (agent_id = None \<or> e_agentId e = agent_id)
     \<and> (role = None \<or> e_recipientRole e = role)"

definition list_for_mailbox ::
  "host \<Rightarrow> inbox_store \<Rightarrow> string option \<Rightarrow> string option \<Rightarrow> agent_role option \<Rightarrow> bool \<Rightarrow> inbox_entry list result" where
  "list_for_mailbox h s lifecycle_id agent_id role include_terminal =
     rbind (require_inbox_address None lifecycle_id agent_id role) (\<lambda>_.
     rbind (inbox_current h s) (\<lambda>current.
       Inr (py_sorted e_createdAt
              (filter (in_mailbox lifecycle_id agent_id role include_terminal) (dict_values current)))))"

definition list_pending ::
  "host \<Rightarrow> inbox_store \<Rightarrow> string option \<Rightarrow> string option \<Rightarrow> agent_role option \<Rightarrow> inbox_entry list result" where
  "list_pending h s lifecycle_id agent_id role = list_for_mailbox h s lifecycle_id agent_id role False"

definition list_redeliverable ::
  "host \<Rightarrow> inbox_store \<Rightarrow> utc \<Rightarrow> micros option \<Rightarrow> (string, inbox_entry) dict option \<Rightarrow> inbox_entry list result" where
  "list_redeliverable h s now rate_limit current =
     rbind (case current of None \<Rightarrow> inbox_current h s | Some d \<Rightarrow> Inr d) (\<lambda>entries.
       redeliverable (filter (\<lambda>e. e_state e = Pending) (dict_values entries)) now
         (case rate_limit of None \<Rightarrow> MIN_REDELIVERY_INTERVAL | Some r \<Rightarrow> r))"

definition inbox_consume ::
  "host \<Rightarrow> inbox_store \<Rightarrow> string \<Rightarrow> string \<Rightarrow> string \<Rightarrow> inbox_via \<Rightarrow> ((inbox_entry \<times> bool) \<times> inbox_store) result" where
  "inbox_consume h s entry_id now consumed_by consumed_via =
     inbox_exclusive h s (\<lambda>h'.
       rbind (inbox_read_unlocked s) (\<lambda>es.
         case map_of (fold_operator_inbox_entries es) entry_id of
           None \<Rightarrow> Inl (KeyError entry_id)
         | Some current \<Rightarrow>
             if e_state current \<noteq> Pending then Inr ((current, False), s)
             else (case consume_operator_inbox_entry current now consumed_by consumed_via of
                 None \<Rightarrow> Inr ((current, False), s)
               | Some consumed \<Rightarrow>
                   rbind (inbox_append_unlocked h' s consumed) (\<lambda>s'. Inr ((consumed, True), s')))))"

definition inbox_delete :: "host \<Rightarrow> inbox_store \<Rightarrow> string \<Rightarrow> (bool \<times> inbox_store) result" where
  "inbox_delete h s entry_id =
     inbox_exclusive h s (\<lambda>h'.
       rbind (inbox_read_unlocked s) (\<lambda>es.
         (let kept = filter (\<lambda>e. e_id e \<noteq> entry_id) es in
          if length kept = length es then Inr (False, s)
          else rbind (inbox_replace_unlocked h' s kept) (\<lambda>s'. Inr (True, s')))))"

definition delete_by_gate :: "host \<Rightarrow> inbox_store \<Rightarrow> string \<Rightarrow> (nat \<times> inbox_store) result" where
  "delete_by_gate h s gate_id =
     inbox_exclusive h s (\<lambda>h'.
       rbind (inbox_read_unlocked s) (\<lambda>es.
         (let kept = filter (\<lambda>e. e_gateId e \<noteq> Some gate_id) es in
          if length kept = length es then Inr (0, s)
          else rbind (inbox_replace_unlocked h' s kept) (\<lambda>s'. Inr (length es - length kept, s')))))"

definition unregistered_execution_report :: "string set \<Rightarrow> inbox_entry \<Rightarrow> bool" where
  "unregistered_execution_report registered e \<longleftrightarrow>
     e_id e \<notin> registered \<and> e_messageKind e = Turn_report
     \<and> e_senderRole e \<in> {Some Worker, Some Reviewer, Some Curator}
     \<and> (e_subjectTaskDocumentRef e \<noteq> None \<or> e_taskDocumentRef e \<noteq> None)"

definition unregistered_execution_report_ids :: "(string, inbox_entry) dict \<Rightarrow> string set \<Rightarrow> string set" where
  "unregistered_execution_report_ids current registered =
     set (map e_id (filter (unregistered_execution_report registered) (dict_values current)))"

definition inbox_compact :: "host \<Rightarrow> inbox_store \<Rightarrow> utc \<Rightarrow> string set \<Rightarrow> (nat \<times> inbox_store) result" where
  "inbox_compact h s now registered =
     inbox_exclusive h s (\<lambda>h'.
       rbind (inbox_read_unlocked s) (\<lambda>es.
         if es = [] then Inr (0, s)
         else (let current = fold_operator_inbox_entries es;
                   keep_ids = inbox_keep_ids now INBOX_MAX_CURRENT_ROWS current
                                (unregistered_execution_report_ids current registered);
                   kept = filter (\<lambda>e. e_id e \<in> keep_ids) es in
               if length kept = length es then Inr (0, s)
               else rbind (inbox_replace_unlocked h' s kept) (\<lambda>s'. Inr (length es - length kept, s')))))"

text \<open>The resolving loop of \<open>reconcile_and_compact\<close>: log records, fold and resolved rows so far.\<close>

definition ladder_resolve :: "string \<Rightarrow> string \<Rightarrow> inbox_entry \<Rightarrow> inbox_entry" where
  "ladder_resolve stamp reason e =
     e\<lparr>e_ts := stamp, e_state := LadderResolved, e_ladderResolvedAt := Some stamp,
       e_ladderResolvedReason := Some reason, e_nextAttemptAt := None\<rparr>"

fun reconcile_loop ::
  "string \<Rightarrow> (string \<times> string) list \<Rightarrow> inbox_entry list \<times> (string, inbox_entry) dict \<times> inbox_entry list
     \<Rightarrow> inbox_entry list \<times> (string, inbox_entry) dict \<times> inbox_entry list" where
  "reconcile_loop stamp [] acc = acc"
| "reconcile_loop stamp ((entry_id, reason) # rest) (records, current, resolved) =
     (case map_of current entry_id of
        None \<Rightarrow> reconcile_loop stamp rest (records, current, resolved)
      | Some entry \<Rightarrow>
          if e_state entry \<noteq> Pending then reconcile_loop stamp rest (records, current, resolved)
          else (let terminal = ladder_resolve stamp reason entry
                in reconcile_loop stamp rest
                     (records @ [terminal], AList.update entry_id terminal current, resolved @ [terminal])))"

definition reconcile_and_compact ::
  "host \<Rightarrow> inbox_store \<Rightarrow> utc \<Rightarrow> ((string, inbox_entry) dict \<Rightarrow> (string \<times> string) list) \<Rightarrow> string set
     \<Rightarrow> ((nat \<times> (string, inbox_entry) dict \<times> inbox_entry list) \<times> inbox_store) result" where
  "reconcile_and_compact h s now reconcile registered =
     inbox_exclusive h s (\<lambda>h'.
       rbind (inbox_read_unlocked s) (\<lambda>es.
         (let before = fold_operator_inbox_entries es;
              (records, current, resolved) = reconcile_loop (utc_stamp now) (reconcile before) (es, before, []);
              keep_ids = inbox_keep_ids now INBOX_MAX_CURRENT_ROWS current
                           (unregistered_execution_report_ids current registered);
              kept_records = filter (\<lambda>e. e_id e \<in> keep_ids) records;
              kept_current = filter (\<lambda>p. fst p \<in> keep_ids) current;
              removed = length (filter (\<lambda>k. k \<notin> fst ` set kept_current) (map fst before)) in
          if 0 < removed
          then rbind (inbox_replace_unlocked h' s kept_records) (\<lambda>s'. Inr ((removed, kept_current, resolved), s'))
          else Inr ((removed, kept_current, resolved), s))))"

section \<open>Transitions\<close>

record adapter_receipt =
  ar_delivery_state :: "adapter_state option"
  ar_request_id :: "string option"
  ar_vendor_correlation_id :: "string option"
  ar_accepted_at :: "string option"
  ar_detail :: "string option"

record delivery_attempt =
  da_delivery_state :: delivery_state
  da_delivered_to_session :: "string option"
  da_detail :: "string option"
  da_adapter :: adapter_receipt
  da_landed :: bool

record inbox_renewal =
  rn_response :: "string option"
  rn_subject :: inbox_subject
  rn_readdress_to :: "inbox_owner option"

record redelivery_floor =
  rf_current :: "(string, inbox_entry) dict option"
  rf_floor :: "micros option"

record adapter_completion =
  ac_vendor_correlation_id :: "string option"
  ac_detail :: "string option"

record expiry_options =
  xo_reason :: string
  xo_readdress_to :: "inbox_owner option"

definition readdress :: "inbox_owner \<Rightarrow> inbox_entry \<Rightarrow> inbox_entry" where
  "readdress owner e =
     e\<lparr>e_recipientRole := io_role owner, e_agentId := io_agent_id owner, e_lifecycleId := io_lifecycle_id owner,
       e_taskDocumentRef := io_task_document_ref owner, e_ownerRole := io_role owner,
       e_ownerTaskDocumentRef := io_task_document_ref owner, e_ownerAgentId := io_agent_id owner,
       e_ownerLifecycleId := io_lifecycle_id owner\<rparr>"

definition require_entry ::
  "host \<Rightarrow> inbox_store \<Rightarrow> string \<Rightarrow> (string, inbox_entry) dict option \<Rightarrow> inbox_entry result" where
  "require_entry h s entry_id current =
     rbind (case current of None \<Rightarrow> inbox_current h s | Some d \<Rightarrow> Inr d) (\<lambda>entries.
       case map_of entries entry_id of None \<Rightarrow> Inl (KeyError entry_id) | Some e \<Rightarrow> Inr e)"

definition delivery_evidence :: "delivery_attempt \<Rightarrow> string \<Rightarrow> inbox_entry \<Rightarrow> inbox_entry" where
  "delivery_evidence attempt now e =
     (let ad = da_adapter attempt in
      e\<lparr>e_ts := now,
        e_deliveryState := da_delivery_state attempt,
        e_deliveredAt := (if da_delivery_state attempt = Delivered then Some now else e_deliveredAt e),
        e_deliveredToSession := da_delivered_to_session attempt,
        e_deliveryDetail := da_detail attempt,
        e_adapterDeliveryState := option_or (ar_delivery_state ad) (e_adapterDeliveryState e),
        e_adapterRequestId := str_or (ar_request_id ad) (e_adapterRequestId e),
        e_adapterVendorCorrelationId :=
          str_or (ar_vendor_correlation_id ad) (e_adapterVendorCorrelationId e),
        e_adapterAcceptedAt := str_or (ar_accepted_at ad) (e_adapterAcceptedAt e),
        e_adapterDeliveryDetail := option_or (ar_detail ad) (e_adapterDeliveryDetail e),
        e_attemptCount := e_attemptCount e + 1,
        e_lastAttemptAt := Some now\<rparr>)"

definition terminal_mark :: "inbox_state \<Rightarrow> string \<Rightarrow> string \<Rightarrow> inbox_entry \<Rightarrow> inbox_entry" where
  "terminal_mark st now reason e =
     e\<lparr>e_ts := now, e_state := st, e_terminalAt := Some now, e_terminalReason := Some reason,
       e_nextAttemptAt := None\<rparr>"

definition land_latest :: "delivery_attempt \<Rightarrow> string \<Rightarrow> row_transition" where
  "land_latest attempt now latest =
     (if e_state latest \<noteq> Pending then None
      else Some ((delivery_evidence attempt now latest)\<lparr>e_state := Landed, e_terminalAt := Some now,
                   e_terminalReason := Some ''adapter-accepted-at-turn-boundary'', e_nextAttemptAt := None\<rparr>))"

definition record_delivery ::
  "host \<Rightarrow> inbox_store \<Rightarrow> string \<Rightarrow> delivery_attempt \<Rightarrow> string \<Rightarrow> redelivery_floor
     \<Rightarrow> (inbox_entry \<times> inbox_store) result" where
  "record_delivery h s entry_id attempt now fl =
     rbind (require_entry h s entry_id (rf_current fl)) (\<lambda>entry.
       if da_landed attempt \<and> ar_delivery_state (da_adapter attempt) = Some AdAccepted \<and> e_state entry = Pending
       then rbind (inbox_transition h s entry_id (land_latest attempt now)) (\<lambda>((e, _), s'). Inr (e, s'))
       else rbind (if e_state entry = Pending
                   then (case fromisoformat now of None \<Rightarrow> Inl (ValueError now)
                         | Some t \<Rightarrow> rbind (next_attempt_at t (e_attemptCount entry + 1) (rf_floor fl))
                                      (\<lambda>st. Inr (Some st)))
                   else Inr (e_nextAttemptAt entry)) (\<lambda>next.
            (let delivered = (delivery_evidence attempt now entry)\<lparr>e_nextAttemptAt := next\<rparr> in
             rbind (inbox_append h s delivered) (\<lambda>s'. Inr (delivered, s')))))"

definition pending_only :: "(inbox_entry \<Rightarrow> inbox_entry) \<Rightarrow> row_transition" where
  "pending_only f latest = (if e_state latest \<noteq> Pending then None else Some (f latest))"

definition mark_landed ::
  "host \<Rightarrow> inbox_store \<Rightarrow> string \<Rightarrow> string \<Rightarrow> string \<Rightarrow> ((inbox_entry \<times> bool) \<times> inbox_store) result" where
  "mark_landed h s entry_id now reason =
     inbox_transition h s entry_id (pending_only (terminal_mark Landed now reason))"

definition mark_superseded ::
  "host \<Rightarrow> inbox_store \<Rightarrow> string \<Rightarrow> string \<Rightarrow> string \<Rightarrow> string option \<Rightarrow> ((inbox_entry \<times> bool) \<times> inbox_store) result" where
  "mark_superseded h s entry_id now reason superseded_by =
     inbox_transition h s entry_id
       (pending_only (\<lambda>e. (terminal_mark Superseded now reason e)\<lparr>e_supersededBy := superseded_by\<rparr>))"

definition mark_unresolved ::
  "host \<Rightarrow> inbox_store \<Rightarrow> string \<Rightarrow> string \<Rightarrow> string \<Rightarrow> ((inbox_entry \<times> bool) \<times> inbox_store) result" where
  "mark_unresolved h s entry_id now reason =
     inbox_transition h s entry_id (pending_only (terminal_mark Unresolved now reason))"

definition expiry_transition :: "string \<Rightarrow> expiry_options \<Rightarrow> row_transition" where
  "expiry_transition now opts =
     pending_only (\<lambda>e. (case xo_readdress_to opts of
         None \<Rightarrow> terminal_mark Expired now (xo_reason opts) e
       | Some owner \<Rightarrow> readdress owner (terminal_mark Expired now (xo_reason opts) e)))"

definition mark_expired ::
  "host \<Rightarrow> inbox_store \<Rightarrow> string \<Rightarrow> string \<Rightarrow> expiry_options \<Rightarrow> ((inbox_entry \<times> bool) \<times> inbox_store) result" where
  "mark_expired h s entry_id now opts = inbox_transition h s entry_id (expiry_transition now opts)"

definition rebound :: "inbox_owner \<Rightarrow> string \<Rightarrow> inbox_entry \<Rightarrow> inbox_entry" where
  "rebound owner now e =
     (readdress owner (e\<lparr>e_ts := now\<rparr>))\<lparr>e_deliveryState := Queued, e_deliveredAt := None,
        e_deliveredToSession := None, e_deliveryDetail := None, e_adapterDeliveryState := None,
        e_adapterRequestId := None, e_adapterVendorCorrelationId := None, e_adapterAcceptedAt := None,
        e_adapterCompletedAt := None, e_adapterDeliveryDetail := None, e_attemptCount := 0,
        e_lastAttemptAt := None, e_nextAttemptAt := None\<rparr>"

definition rebind_entry ::
  "host \<Rightarrow> inbox_store \<Rightarrow> string \<Rightarrow> inbox_owner \<Rightarrow> string \<Rightarrow> (string, inbox_entry) dict option
     \<Rightarrow> ((inbox_entry \<times> bool) \<times> inbox_store) result" where
  "rebind_entry h s entry_id owner now current =
     rbind (require_entry h s entry_id current) (\<lambda>entry.
       if e_state entry \<noteq> Pending then Inr ((entry, False), s)
       else (let moved = rebound owner now entry in
             rbind (inbox_append h s moved) (\<lambda>s'. Inr ((moved, True), s'))))"

definition completed :: "adapter_completion \<Rightarrow> string \<Rightarrow> inbox_entry \<Rightarrow> inbox_entry" where
  "completed c now e =
     e\<lparr>e_ts := now, e_adapterDeliveryState := Some AdCompleted,
       e_adapterVendorCorrelationId := str_or (ac_vendor_correlation_id c) (e_adapterVendorCorrelationId e),
       e_adapterCompletedAt := Some now, e_adapterDeliveryDetail := ac_detail c\<rparr>"

definition record_adapter_completion ::
  "host \<Rightarrow> inbox_store \<Rightarrow> string \<Rightarrow> adapter_completion \<Rightarrow> string \<Rightarrow> (string, inbox_entry) dict option
     \<Rightarrow> (inbox_entry \<times> inbox_store) result" where
  "record_adapter_completion h s entry_id c now current =
     rbind (require_entry h s entry_id current) (\<lambda>entry.
       (let done_entry = completed c now entry in
        rbind (inbox_append h s done_entry) (\<lambda>s'. Inr (done_entry, s'))))"

definition renewed :: "inbox_renewal \<Rightarrow> string \<Rightarrow> inbox_entry \<Rightarrow> inbox_entry" where
  "renewed rn now e =
     (let sub = rn_subject rn;
          e1 = e\<lparr>e_ts := now,
                 e_response := (case rn_response rn of None \<Rightarrow> e_response e | Some r \<Rightarrow> r),
                 e_subjectTaskDocumentRef := option_or (is_task_document_ref sub) (e_subjectTaskDocumentRef e),
                 e_seatRole := option_or (is_seat_role sub) (e_seatRole e),
                 e_subjectAgentId := option_or (is_agent_id sub) (e_subjectAgentId e)\<rparr>
      in case rn_readdress_to rn of None \<Rightarrow> e1 | Some owner \<Rightarrow> readdress owner e1)"

definition renew ::
  "host \<Rightarrow> inbox_store \<Rightarrow> string \<Rightarrow> inbox_renewal \<Rightarrow> string \<Rightarrow> (string, inbox_entry) dict option
     \<Rightarrow> (inbox_entry \<times> inbox_store) result" where
  "renew h s entry_id rn now current =
     rbind (require_entry h s entry_id current) (\<lambda>entry.
       if e_state entry \<noteq> Pending then Inr (entry, s)
       else (let fresh = renewed rn now entry in
             rbind (inbox_append h s fresh) (\<lambda>s'. Inr (fresh, s'))))"

section \<open>What each operation does to the log\<close>

lemma validated_fields:
  assumes "validated e = Inr v"
  shows "version_ok v" "e_id v = e_id e" "e_state v = e_state e" "e_gateId v = e_gateId e"
    "e_nextAttemptAt v = e_nextAttemptAt e" "e_lastAttemptAt v = e_lastAttemptAt e"
    "e_consumedAt v = e_consumedAt e" "e_deliveryState v = e_deliveryState e"
    "e_attemptCount v = e_attemptCount e"
  using assms by (auto simp: validated_def rbind_eq_Inr_iff version_ok_def split: if_splits)

lemma list_all2_mem: "list_all2 P xs ys \<Longrightarrow> y \<in> set ys \<Longrightarrow> \<exists>x \<in> set xs. P x y"
  by (auto simp: list_all2_conv_all_nth in_set_conv_nth) (metis nth_mem)

lemma inbox_append_unlocked_Inr:
  "inbox_append_unlocked h s e = Inr s' \<Longrightarrow>
     \<exists>v. validated e = Inr v \<and> s' = s\<lparr>ib_log := log_append (ib_log s) v\<rparr>"
  by (auto simp: inbox_append_unlocked_def append_line_def rbind_eq_Inr_iff log_append_def)

lemma inbox_append_Inr:
  "inbox_append h s e = Inr s' \<Longrightarrow> \<exists>v. validated e = Inr v \<and> s' = s\<lparr>ib_log := log_append (ib_log s) v\<rparr>"
  by (auto simp: inbox_append_def inbox_exclusive_def rbind_eq_Inr_iff exclusive_access_Inr
      dest: inbox_append_unlocked_Inr)

lemma inbox_replace_unlocked_Inr:
  "inbox_replace_unlocked h s es = Inr s' \<Longrightarrow>
     \<exists>vs. list_all2 (\<lambda>e v. validated e = Inr v) es vs \<and> s' = s\<lparr>ib_log := log_rewrite (ib_log s) vs\<rparr>"
  by (auto simp: inbox_replace_unlocked_def rewrite_lines_def rbind_eq_Inr_iff traverse_Inr_iff log_rewrite_def)

lemma inbox_read_append:
  "inbox_read_unlocked s = Inr es \<Longrightarrow> validated e = Inr v \<Longrightarrow>
   inbox_read_unlocked (s\<lparr>ib_log := log_append (ib_log s) v\<rparr>) = Inr (es @ [v])"
  using strict.read_append [of "ib_log s" es v] validated_fields(1) by (simp add: inbox_read_unlocked_def)

lemma inbox_read_replace:
  assumes "list_all2 (\<lambda>e v. validated e = Inr v) es vs"
  shows "inbox_read_unlocked (s\<lparr>ib_log := log_rewrite (ib_log s) vs\<rparr>) = Inr vs"
proof -
  have "version_ok v" if "v \<in> set vs" for v
    using assms that validated_fields(1) by (auto simp: list_all2_conv_all_nth in_set_conv_nth)
  then show ?thesis using strict.read_rewrite [of vs "ib_log s"] by (simp add: inbox_read_unlocked_def)
qed

section \<open>The state of a row\<close>

text \<open>The state the fold gives a row, in a log that reads.\<close>

definition row_state :: "inbox_store \<Rightarrow> string \<Rightarrow> inbox_state option" where
  "row_state s k = (case inbox_read_unlocked s of Inl _ \<Rightarrow> None | Inr es \<Rightarrow> map_option e_state (inbox_view es k))"

definition inbox_readable :: "inbox_store \<Rightarrow> bool" where
  "inbox_readable s \<longleftrightarrow> (\<exists>es. inbox_read_unlocked s = Inr es)"

lemma row_state_Inr: "inbox_read_unlocked s = Inr es \<Longrightarrow> row_state s k = map_option e_state (inbox_view es k)"
  by (simp add: row_state_def)

text \<open>A snapshot written over a row: a pending one does not count over a terminal one.\<close>

definition overwrite :: "inbox_state option \<Rightarrow> inbox_state \<Rightarrow> inbox_state option" where
  "overwrite old new = (if old \<noteq> None \<and> old \<noteq> Some Pending \<and> new = Pending then old else Some new)"

lemma row_state_append:
  assumes "inbox_readable s" "validated e = Inr v" "s' = s\<lparr>ib_log := log_append (ib_log s) v\<rparr>"
  shows "inbox_readable s'"
    and "row_state s' k = (if k = e_id e then overwrite (row_state s k) (e_state e) else row_state s k)"
proof -
  obtain es where es: "inbox_read_unlocked s = Inr es" using assms(1) by (auto simp: inbox_readable_def)
  have es': "inbox_read_unlocked s' = Inr (es @ [v])" using inbox_read_append [OF es assms(2)] assms(3) by simp
  then show "inbox_readable s'" by (simp add: inbox_readable_def)
  show "row_state s' k = (if k = e_id e then overwrite (row_state s k) (e_state e) else row_state s k)"
    using validated_fields(2,3) [OF assms(2)]
    by (cases "inbox_view es k") (auto simp: row_state_Inr [OF es] row_state_Inr [OF es'] inbox_view_snoc overwrite_def)
qed

text \<open>Rewriting with revalidated rows does not change the states the fold gives.\<close>

lemma inbox_view_states:
  assumes "list_all2 (\<lambda>e v. e_id e = e_id v \<and> e_state e = e_state v) es vs"
  shows "map_option e_state (inbox_view es k) = map_option e_state (inbox_view vs k)"
  using assms
proof (induction es arbitrary: vs rule: rev_induct)
  case (snoc e es)
  then obtain ws v where vs: "vs = ws @ [v]" "list_all2 (\<lambda>e v. e_id e = e_id v \<and> e_state e = e_state v) es ws"
    "e_id e = e_id v" "e_state e = e_state v"
    by (auto simp: list_all2_append1 list_all2_Cons1)
  note IH = snoc.IH [OF vs(2)]
  show ?case
    using IH vs(3,4) by (cases "inbox_view es k"; cases "inbox_view ws k") (auto simp: vs(1) inbox_view_snoc)
qed simp

lemma row_state_replace:
  assumes "list_all2 (\<lambda>e v. validated e = Inr v) es vs" "s' = s\<lparr>ib_log := log_rewrite (ib_log s) vs\<rparr>"
  shows "inbox_readable s'" and "row_state s' k = map_option e_state (inbox_view es k)"
proof -
  have read: "inbox_read_unlocked s' = Inr vs" using inbox_read_replace [OF assms(1)] assms(2) by simp
  then show "inbox_readable s'" by (simp add: inbox_readable_def)
  have "list_all2 (\<lambda>e v. e_id e = e_id v \<and> e_state e = e_state v) es vs"
    using assms(1) by (rule list_all2_mono) (auto dest: validated_fields(2,3))
  then show "row_state s' k = map_option e_state (inbox_view es k)"
    using inbox_view_states by (simp add: row_state_Inr [OF read])
qed

section \<open>Operations under the lock\<close>

lemma inbox_exclusive_Inr:
  "inbox_exclusive h s body = Inr x \<longleftrightarrow> lockable h (inbox_log_path s) \<and> body (locked h (inbox_log_path s)) = Inr x"
  by (simp add: inbox_exclusive_def exclusive_access_Inr)

lemma inbox_transition_Inr:
  assumes "inbox_transition h s i tr = Inr ((e, b), s')"
  shows "\<exists>es entry. inbox_read_unlocked s = Inr es \<and> inbox_view es i = Some entry \<and>
    (case tr entry of None \<Rightarrow> e = entry \<and> \<not> b \<and> s' = s
     | Some u \<Rightarrow> e = u \<and> b \<and> (\<exists>v. validated u = Inr v \<and> s' = s\<lparr>ib_log := log_append (ib_log s) v\<rparr>))"
proof -
  obtain es where es: "inbox_read_unlocked s = Inr es"
    using assms by (auto simp: inbox_transition_def inbox_exclusive_Inr rbind_eq_Inr_iff)
  obtain entry where entry: "inbox_view es i = Some entry"
    using assms es
    by (cases "inbox_view es i") (auto simp: inbox_transition_def inbox_exclusive_Inr lookup_inbox_fold)
  show ?thesis
    using assms es entry
    by (cases "tr entry") (auto simp: inbox_transition_def inbox_exclusive_Inr lookup_inbox_fold rbind_eq_Inr_iff
        dest: inbox_append_unlocked_Inr)
qed

text \<open>A transition that declines every terminal row and keeps the row's id.\<close>

definition proper :: "row_transition \<Rightarrow> bool" where
  "proper tr \<longleftrightarrow> (\<forall>e u. tr e = Some u \<longrightarrow>
     e_state e = Pending \<and> e_id u = e_id e \<and> e_gateId u = e_gateId e)"

lemma proper_transitions:
  "proper (land_latest attempt now)"
  "proper (pending_only (terminal_mark st now reason))"
  "proper (pending_only (\<lambda>e. (terminal_mark st now reason e)\<lparr>e_supersededBy := sb\<rparr>))"
  "proper (expiry_transition now opts)"
  by (auto simp: proper_def land_latest_def pending_only_def terminal_mark_def expiry_transition_def
      delivery_evidence_def readdress_def Let_def split: if_splits option.splits)

section \<open>The inbox as a system of processes\<close>

text \<open>
  A world is the store together with the folds processes have taken of it and may still act on.
  Every operation runs on the store as it is; the read-then-append transitions take their row
  from the store or from any fold taken before (\<open>known\<close>). The resolver of
  \<open>reconcile_and_compact\<close> never names a task-bound turn report: the only caller
  (\<open>serving/inbox_reclamation.py\<close>) resolves nudges and escalations.
\<close>

record inbox_world =
  iw_store :: inbox_store
  iw_folds :: "(string, inbox_entry) dict list"

datatype inbox_event = Observe | Post string | Touch string | Remove "string set"

definition row_ids :: "inbox_store \<Rightarrow> string set" where
  "row_ids s = {k. row_state s k \<noteq> None}"

definition known :: "inbox_world \<Rightarrow> (string, inbox_entry) dict option \<Rightarrow> bool" where
  "known w current \<longleftrightarrow> (case current of None \<Rightarrow> True | Some d \<Rightarrow> d \<in> set (iw_folds w))"

inductive inbox_step :: "inbox_world \<Rightarrow> inbox_event \<Rightarrow> inbox_world \<Rightarrow> bool" where
  i_observe: "inbox_current h (iw_store w) = Inr d \<Longrightarrow> inbox_step w Observe (w\<lparr>iw_folds := d # iw_folds w\<rparr>)"
| i_post: "create_operator_inbox_entry m i now routing poster = Inr e \<Longrightarrow> inbox_append h (iw_store w) e = Inr s' \<Longrightarrow>
    inbox_step w (Post i) (w\<lparr>iw_store := s'\<rparr>)"
| i_deliver: "known w (rf_current fl) \<Longrightarrow> record_delivery h (iw_store w) i attempt now fl = Inr (e, s') \<Longrightarrow>
    inbox_step w (Touch i) (w\<lparr>iw_store := s'\<rparr>)"
| i_landed: "mark_landed h (iw_store w) i now reason = Inr (r, s') \<Longrightarrow> inbox_step w (Touch i) (w\<lparr>iw_store := s'\<rparr>)"
| i_superseded: "mark_superseded h (iw_store w) i now reason sb = Inr (r, s') \<Longrightarrow>
    inbox_step w (Touch i) (w\<lparr>iw_store := s'\<rparr>)"
| i_unresolved: "mark_unresolved h (iw_store w) i now reason = Inr (r, s') \<Longrightarrow>
    inbox_step w (Touch i) (w\<lparr>iw_store := s'\<rparr>)"
| i_expired: "mark_expired h (iw_store w) i now opts = Inr (r, s') \<Longrightarrow> inbox_step w (Touch i) (w\<lparr>iw_store := s'\<rparr>)"
| i_rebind: "known w current \<Longrightarrow> rebind_entry h (iw_store w) i owner now current = Inr (r, s') \<Longrightarrow>
    inbox_step w (Touch i) (w\<lparr>iw_store := s'\<rparr>)"
| i_complete: "known w current \<Longrightarrow> record_adapter_completion h (iw_store w) i c now current = Inr (e, s') \<Longrightarrow>
    inbox_step w (Touch i) (w\<lparr>iw_store := s'\<rparr>)"
| i_renew: "known w current \<Longrightarrow> renew h (iw_store w) i rn now current = Inr (e, s') \<Longrightarrow>
    inbox_step w (Touch i) (w\<lparr>iw_store := s'\<rparr>)"
| i_consume: "inbox_consume h (iw_store w) i now by via = Inr (r, s') \<Longrightarrow> inbox_step w (Touch i) (w\<lparr>iw_store := s'\<rparr>)"
| i_delete: "inbox_delete h (iw_store w) i = Inr (b, s') \<Longrightarrow>
    inbox_step w (Remove (row_ids (iw_store w) - row_ids s')) (w\<lparr>iw_store := s'\<rparr>)"
| i_delete_gate: "delete_by_gate h (iw_store w) gid = Inr (n, s') \<Longrightarrow>
    inbox_step w (Remove (row_ids (iw_store w) - row_ids s')) (w\<lparr>iw_store := s'\<rparr>)"
| i_compact: "inbox_compact h (iw_store w) now' reg = Inr (n, s') \<Longrightarrow>
    inbox_step w (Remove (row_ids (iw_store w) - row_ids s')) (w\<lparr>iw_store := s'\<rparr>)"
| i_reconcile: "reconcile_and_compact h (iw_store w) now' reconcile reg = Inr ((n, d, res), s') \<Longrightarrow>
    (\<And>es i reason e. inbox_read_unlocked (iw_store w) = Inr es \<Longrightarrow>
       (i, reason) \<in> set (reconcile (fold_operator_inbox_entries es)) \<Longrightarrow>
       inbox_view es i = Some e \<Longrightarrow> e_messageKind e \<noteq> Turn_report) \<Longrightarrow>
    inbox_step w (Remove (row_ids (iw_store w) - row_ids s')) (w\<lparr>iw_store := s', iw_folds := d # iw_folds w\<rparr>)"

text \<open>
  Row \<open>k\<close>, posted with gate \<open>g\<close>: every snapshot of it carries that gate, and whenever a fold
  somebody holds says the row is terminal, the log says the same terminal state.
\<close>

definition coherent :: "string \<Rightarrow> string option \<Rightarrow> inbox_world \<Rightarrow> bool" where
  "coherent k g w \<longleftrightarrow> row_state (iw_store w) k \<noteq> None
     \<and> (\<exists>es. inbox_read_unlocked (iw_store w) = Inr es \<and> (\<forall>e \<in> set es. e_id e = k \<longrightarrow> e_gateId e = g))
     \<and> (\<forall>d \<in> set (iw_folds w). \<forall>j t. map_of d j = Some t \<longrightarrow>
          e_id t = j \<and> (j = k \<longrightarrow> e_gateId t = g
            \<and> (e_state t = Pending \<or> row_state (iw_store w) k = Some (e_state t))))"

fun spares :: "string \<Rightarrow> inbox_event \<Rightarrow> bool" where
  "spares k Observe \<longleftrightarrow> True"
| "spares k (Post i) \<longleftrightarrow> i \<noteq> k"
| "spares k (Touch i) \<longleftrightarrow> True"
| "spares k (Remove R) \<longleftrightarrow> k \<notin> R"

text \<open>What a step that spares the row does: it stays coherent and only a pending row changes state.\<close>

definition keeps :: "string \<Rightarrow> string option \<Rightarrow> inbox_world \<Rightarrow> inbox_world \<Rightarrow> bool" where
  "keeps k g w w' \<longleftrightarrow> coherent k g w' \<and>
     (row_state (iw_store w') k = row_state (iw_store w) k \<or> row_state (iw_store w) k = Some Pending)"

lemma keeps_refl: "coherent k g w \<Longrightarrow> keeps k g w w"
  by (simp add: keeps_def)

lemma coherent_readable: "coherent k g w \<Longrightarrow> inbox_readable (iw_store w)"
  by (auto simp: coherent_def inbox_readable_def)

lemma coherent_gate:
  "coherent k g w \<Longrightarrow> inbox_read_unlocked (iw_store w) = Inr es \<Longrightarrow> e \<in> set es \<Longrightarrow> e_id e = k \<Longrightarrow> e_gateId e = g"
  by (auto simp: coherent_def)

text \<open>A new store whose rows for \<open>k\<close> carry the gate, and where a terminal row did not change.\<close>

lemma keepsI:
  assumes "coherent k g w" "inbox_read_unlocked s' = Inr es" "\<And>e. e \<in> set es \<Longrightarrow> e_id e = k \<Longrightarrow> e_gateId e = g"
    and "row_state s' k \<noteq> None"
    and "row_state s' k = row_state (iw_store w) k \<or> row_state (iw_store w) k = Some Pending"
  shows "keeps k g w (w\<lparr>iw_store := s'\<rparr>)"
proof -
  have "e_state t = Pending \<or> row_state s' k = Some (e_state t)"
    if "d \<in> set (iw_folds w)" "map_of d k = Some t" for d t
    using assms(1,5) that unfolding coherent_def by (metis option.inject)
  then show ?thesis using assms unfolding keeps_def coherent_def by (auto simp del: map_of_eq_Some_iff)
qed

lemma keeps_append:
  assumes "coherent k g w" "validated e = Inr v"
    and "e_id e = k \<Longrightarrow> e_gateId e = g \<and> (e_state e = Pending \<or> row_state (iw_store w) k = Some (e_state e)
           \<or> row_state (iw_store w) k = Some Pending)"
  shows "keeps k g w (w\<lparr>iw_store := (iw_store w)\<lparr>ib_log := log_append (ib_log (iw_store w)) v\<rparr>\<rparr>)"
proof -
  let ?s = "(iw_store w)\<lparr>ib_log := log_append (ib_log (iw_store w)) v\<rparr>"
  obtain es where es: "inbox_read_unlocked (iw_store w) = Inr es"
    using assms(1) by (auto simp: coherent_def)
  have read: "inbox_read_unlocked ?s = Inr (es @ [v])" by (rule inbox_read_append [OF es assms(2)])
  have st: "row_state ?s k = (if k = e_id e then overwrite (row_state (iw_store w) k) (e_state e) else row_state (iw_store w) k)"
    by (rule row_state_append(2) [OF coherent_readable [OF assms(1)] assms(2) refl])
  have some: "row_state (iw_store w) k \<noteq> None" using assms(1) by (simp add: coherent_def)
  show ?thesis
  proof (rule keepsI [OF assms(1) read])
    show "e_gateId x = g" if "x \<in> set (es @ [v])" "e_id x = k" for x
      using that coherent_gate [OF assms(1) es] assms(3) validated_fields(2,4) [OF assms(2)] by auto
    show "row_state ?s k \<noteq> None" using st some by (auto simp: overwrite_def)
    show "row_state ?s k = row_state (iw_store w) k \<or> row_state (iw_store w) k = Some Pending"
      using st assms(3) some by (auto simp: overwrite_def split: if_splits)
  qed
qed

text \<open>Any row a process may act on, fresh or stale, agrees with the log or is pending.\<close>

lemma coherent_known:
  assumes "coherent k g w" "known w current" "require_entry h (iw_store w) i current = Inr e"
  shows "e_id e = i"
    and "i = k \<Longrightarrow> e_gateId e = g \<and> (e_state e = Pending \<or> row_state (iw_store w) k = Some (e_state e))"
proof -
  have "e_id e = i \<and>
    (i = k \<longrightarrow> e_gateId e = g \<and> (e_state e = Pending \<or> row_state (iw_store w) k = Some (e_state e)))"
  proof (cases current)
    case None
    then obtain es where es: "inbox_read_unlocked (iw_store w) = Inr es" and e: "inbox_view es i = Some e"
      using assms(3)
      by (auto simp: require_entry_def inbox_current_def inbox_read_def inbox_exclusive_Inr rbind_eq_Inr_iff
          lookup_inbox_fold split: option.splits)
    then show ?thesis
      using inbox_view_mem [OF e] coherent_gate [OF assms(1) es] row_state_Inr [OF es] by auto
  next
    case (Some d)
    then have "map_of d i = Some e" "d \<in> set (iw_folds w)"
      using assms(2,3) by (auto simp: require_entry_def known_def split: option.splits)
    then show ?thesis using assms(1) unfolding coherent_def by blast
  qed
  then show "e_id e = i"
    "i = k \<Longrightarrow> e_gateId e = g \<and> (e_state e = Pending \<or> row_state (iw_store w) k = Some (e_state e))" by auto
qed

lemma keeps_transition:
  assumes "inbox_transition h (iw_store w) i tr = Inr (r, s')" "proper tr" "coherent k g w"
  shows "keeps k g w (w\<lparr>iw_store := s'\<rparr>)"
proof -
  obtain e b where r: "r = (e, b)" by (cases r)
  obtain es entry where es: "inbox_read_unlocked (iw_store w) = Inr es" "inbox_view es i = Some entry"
    and eff: "case tr entry of None \<Rightarrow> e = entry \<and> \<not> b \<and> s' = iw_store w
      | Some u \<Rightarrow> e = u \<and> b \<and>
          (\<exists>v. validated u = Inr v \<and> s' = (iw_store w)\<lparr>ib_log := log_append (ib_log (iw_store w)) v\<rparr>)"
    using inbox_transition_Inr [OF assms(1) [unfolded r]] by blast
  show ?thesis
  proof (cases "tr entry")
    case None
    then show ?thesis using eff assms(3) by (simp add: keeps_refl)
  next
    case (Some u)
    then obtain v where v: "validated u = Inr v"
      "s' = (iw_store w)\<lparr>ib_log := log_append (ib_log (iw_store w)) v\<rparr>" using eff by auto
    have u: "e_state entry = Pending" "e_id u = i" "e_gateId u = e_gateId entry" "e_id entry = i" "entry \<in> set es"
      using assms(2) Some inbox_view_mem [OF es(2)] by (auto simp: proper_def)
    have "row_state (iw_store w) i = Some Pending" using es u(1) by (simp add: row_state_Inr)
    then show ?thesis
      using keeps_append [OF assms(3) v(1)] v(2) u coherent_gate [OF assms(3) es(1) u(5)] by auto
  qed
qed

lemma keeps_stale:
  assumes "coherent k g w" "known w current" "require_entry h (iw_store w) i current = Inr e"
    and "inbox_append h' (iw_store w) u = Inr s'" "e_id u = e_id e" "e_state u = e_state e" "e_gateId u = e_gateId e"
  shows "keeps k g w (w\<lparr>iw_store := s'\<rparr>)"
proof -
  obtain v where v: "validated u = Inr v" "s' = (iw_store w)\<lparr>ib_log := log_append (ib_log (iw_store w)) v\<rparr>"
    using inbox_append_Inr [OF assms(4)] by blast
  then show ?thesis
    using keeps_append [OF assms(1) v(1)] coherent_known [OF assms(1-3)] assms(5-7) by auto
qed

lemma keeps_replace:
  assumes "coherent k g w" "list_all2 (\<lambda>e v. validated e = Inr v) recs vs"
    and "s' = (iw_store w)\<lparr>ib_log := log_rewrite (ib_log (iw_store w)) vs\<rparr>"
    and "\<And>e. e \<in> set recs \<Longrightarrow> e_id e = k \<Longrightarrow> e_gateId e = g"
    and "row_state s' k \<noteq> None"
    and "map_option e_state (inbox_view recs k) = row_state (iw_store w) k \<or> row_state (iw_store w) k = Some Pending"
  shows "keeps k g w (w\<lparr>iw_store := s'\<rparr>)"
proof (rule keepsI [OF assms(1)])
  show "inbox_read_unlocked s' = Inr vs" using inbox_read_replace [OF assms(2)] assms(3) by simp
  show "e_gateId v = g" if v: "v \<in> set vs" "e_id v = k" for v
  proof -
    obtain e where "e \<in> set recs" "validated e = Inr v"
      using list_all2_mem [OF assms(2) v(1)] by blast
    then show ?thesis using validated_fields(2,4) assms(4) v(2) by metis
  qed
  show "row_state s' k \<noteq> None" by (rule assms(5))
  show "row_state s' k = row_state (iw_store w) k \<or> row_state (iw_store w) k = Some Pending"
    using row_state_replace(2) [OF assms(2,3)] assms(6) by simp
qed

text \<open>Removals: what is left is a filtered log, by id or by gate.\<close>

lemma removed_view:
  assumes "coherent k g w" "inbox_read_unlocked (iw_store w) = Inr es"
    and "list_all2 (\<lambda>e v. validated e = Inr v) (filter (\<lambda>e. P (e_id e) (e_gateId e)) es) vs"
    and "s' = (iw_store w)\<lparr>ib_log := log_rewrite (ib_log (iw_store w)) vs\<rparr>"
    and "k \<notin> row_ids (iw_store w) - row_ids s'"
  shows "inbox_view (filter (\<lambda>e. P (e_id e) (e_gateId e)) es) k = inbox_view es k"
proof -
  have some: "row_state s' k \<noteq> None" using assms(1,5) by (auto simp: coherent_def row_ids_def)
  have only: "inbox_view xs k = inbox_view (filter (\<lambda>e. e_id e = k) xs) k" for xs
    using inbox_view_filter [of "\<lambda>i. i = k" xs k] by simp
  have rows: "filter (\<lambda>e. e_id e = k) (filter (\<lambda>e. P (e_id e) (e_gateId e)) es) =
      (if P k g then filter (\<lambda>e. e_id e = k) es else [])"
    using coherent_gate [OF assms(1,2)] by (auto intro: filter_cong simp: filter_empty_conv)
  have "P k g"
  proof (rule ccontr)
    assume "\<not> P k g"
    then have "inbox_view (filter (\<lambda>e. P (e_id e) (e_gateId e)) es) k = None"
      using rows by (subst only) (simp del: filter_filter)
    then show False using row_state_replace(2) [OF assms(3,4)] some by simp
  qed
  then show ?thesis using only rows by metis
qed

lemma keeps_removed:
  assumes "coherent k g w" "inbox_read_unlocked (iw_store w) = Inr es"
    and "s' = iw_store w \<or> (\<exists>vs. list_all2 (\<lambda>e v. validated e = Inr v) (filter (\<lambda>e. P (e_id e) (e_gateId e)) es) vs
           \<and> s' = (iw_store w)\<lparr>ib_log := log_rewrite (ib_log (iw_store w)) vs\<rparr>)"
    and "k \<notin> row_ids (iw_store w) - row_ids s'"
  shows "keeps k g w (w\<lparr>iw_store := s'\<rparr>)"
proof (cases "s' = iw_store w")
  case True
  then show ?thesis using assms(1) by (simp add: keeps_refl)
next
  case False
  then obtain vs where vs: "list_all2 (\<lambda>e v. validated e = Inr v) (filter (\<lambda>e. P (e_id e) (e_gateId e)) es) vs"
    "s' = (iw_store w)\<lparr>ib_log := log_rewrite (ib_log (iw_store w)) vs\<rparr>" using assms(3) by blast
  have "row_state s' k \<noteq> None" using assms(1,4) by (auto simp: coherent_def row_ids_def)
  then show ?thesis
    using keeps_replace [OF assms(1) vs] removed_view [OF assms(1,2) vs assms(4)] coherent_gate [OF assms(1,2)]
    by (auto simp: row_state_Inr [OF assms(2)])
qed

lemma inbox_delete_Inr:
  assumes "inbox_delete h s i = Inr (b, s')"
  shows "\<exists>es. inbox_read_unlocked s = Inr es \<and> (s' = s \<or> (\<exists>vs. list_all2 (\<lambda>e v. validated e = Inr v)
     (filter (\<lambda>e. e_id e \<noteq> i) es) vs \<and> s' = s\<lparr>ib_log := log_rewrite (ib_log s) vs\<rparr>))"
  using assms by (auto simp: inbox_delete_def inbox_exclusive_Inr rbind_eq_Inr_iff Let_def
      dest!: inbox_replace_unlocked_Inr split: if_splits)

lemma delete_by_gate_Inr:
  assumes "delete_by_gate h s gid = Inr (n, s')"
  shows "\<exists>es. inbox_read_unlocked s = Inr es \<and> (s' = s \<or> (\<exists>vs. list_all2 (\<lambda>e v. validated e = Inr v)
     (filter (\<lambda>e. e_gateId e \<noteq> Some gid) es) vs \<and> s' = s\<lparr>ib_log := log_rewrite (ib_log s) vs\<rparr>))"
  using assms by (auto simp: delete_by_gate_def inbox_exclusive_Inr rbind_eq_Inr_iff Let_def
      dest!: inbox_replace_unlocked_Inr split: if_splits)

definition compaction_keep :: "utc \<Rightarrow> string set \<Rightarrow> (string, inbox_entry) dict \<Rightarrow> string set" where
  "compaction_keep now registered current =
     inbox_keep_ids now INBOX_MAX_CURRENT_ROWS current (unregistered_execution_report_ids current registered)"

lemma inbox_compact_Inr:
  assumes "inbox_compact h s now reg = Inr (n, s')"
  shows "\<exists>es. inbox_read_unlocked s = Inr es \<and>
     (s' = s \<and> filter (\<lambda>e. e_id e \<in> compaction_keep now reg (fold_operator_inbox_entries es)) es = es
      \<or> (\<exists>vs. list_all2 (\<lambda>e v. validated e = Inr v)
           (filter (\<lambda>e. e_id e \<in> compaction_keep now reg (fold_operator_inbox_entries es)) es) vs
           \<and> s' = s\<lparr>ib_log := log_rewrite (ib_log s) vs\<rparr>))"
proof -
  have same: "length (filter P xs) = length xs \<longleftrightarrow> filter P xs = xs" for P :: "inbox_entry \<Rightarrow> bool" and xs
    by (metis filter_id_conv length_filter_less less_irrefl)
  show ?thesis
    using assms by (auto simp: inbox_compact_def inbox_exclusive_Inr rbind_eq_Inr_iff Let_def same
        compaction_keep_def dest!: inbox_replace_unlocked_Inr split: if_splits)
qed

lemma reconcile_loop_spec:
  assumes "reconcile_loop stamp pairs (records, fold_operator_inbox_entries records, resolved) = (records', current, resolved')"
  shows "\<exists>app. records' = records @ app \<and> resolved' = resolved @ app
     \<and> current = fold_operator_inbox_entries records'
     \<and> (\<forall>e \<in> set app. e_state e = LadderResolved \<and> e_id e \<in> fst ` set pairs
          \<and> (\<exists>p. inbox_view records (e_id e) = Some p \<and> e_state p = Pending \<and> e_gateId e = e_gateId p
                 \<and> e_messageKind e = e_messageKind p))"
  using assms
proof (induction pairs arbitrary: records resolved)
  case (Cons pair pairs)
  obtain i reason where pair: "pair = (i, reason)" by (cases pair)
  show ?case
  proof (cases "\<exists>p. inbox_view records i = Some p \<and> e_state p = Pending")
    case False
    then have "reconcile_loop stamp pairs (records, fold_operator_inbox_entries records, resolved)
        = (records', current, resolved')"
      using Cons.prems by (auto simp: pair lookup_inbox_fold split: option.splits if_splits)
    from Cons.IH [OF this] show ?thesis by (auto simp: pair)
  next
    case True
    then obtain p where p: "inbox_view records i = Some p" "e_state p = Pending" by blast
    let ?t = "ladder_resolve stamp reason p"
    have t: "e_id ?t = i" "e_state ?t = LadderResolved" "e_gateId ?t = e_gateId p" "e_messageKind ?t = e_messageKind p"
      using inbox_view_mem [OF p(1)] by (simp_all add: ladder_resolve_def)
    have "AList.update i ?t (fold_operator_inbox_entries records) = fold_operator_inbox_entries (records @ [?t])"
      using t(1,2) by (auto simp: inbox_fold_snoc inbox_fold_step_def split: option.splits)
    then have "reconcile_loop stamp pairs (records @ [?t], fold_operator_inbox_entries (records @ [?t]), resolved @ [?t])
        = (records', current, resolved')"
      using Cons.prems p by (simp add: pair lookup_inbox_fold Let_def)
    from Cons.IH [OF this] obtain app where app: "records' = (records @ [?t]) @ app" "resolved' = (resolved @ [?t]) @ app"
      "current = fold_operator_inbox_entries records'"
      and el: "\<forall>e \<in> set app. e_state e = LadderResolved \<and> e_id e \<in> fst ` set pairs
          \<and> (\<exists>q. inbox_view (records @ [?t]) (e_id e) = Some q \<and> e_state q = Pending \<and> e_gateId e = e_gateId q
                 \<and> e_messageKind e = e_messageKind q)"
      by blast
    have "inbox_view (records @ [?t]) (e_id e) = inbox_view records (e_id e)" if "e \<in> set app" for e
      using el that t(1,2) by (fastforce simp: inbox_view_snoc split: if_splits)
    then have "\<forall>e \<in> set (?t # app). e_state e = LadderResolved \<and> e_id e \<in> fst ` set (pair # pairs)
          \<and> (\<exists>q. inbox_view records (e_id e) = Some q \<and> e_state q = Pending \<and> e_gateId e = e_gateId q
                 \<and> e_messageKind e = e_messageKind q)"
      using el t p by (auto simp: pair)
    then show ?thesis using app by (intro exI [of _ "?t # app"]) simp
  qed
qed auto

lemma inbox_keep_ids_mem:
  "i \<in> inbox_keep_ids now m latest prot \<Longrightarrow>
   \<exists>e \<in> set (dict_values latest). e_id e = i \<and> (i \<in> prot \<or> keep_inbox_entry now e)"
  using inbox_cap_subset by (fastforce simp: inbox_keep_ids_def Let_def)

lemma inbox_fold_values: "e \<in> set (dict_values (fold_operator_inbox_entries es)) \<longleftrightarrow> inbox_view es (e_id e) = Some e"
proof
  assume "e \<in> set (dict_values (fold_operator_inbox_entries es))"
  then obtain k where "map_of (fold_operator_inbox_entries es) k = Some e" by auto
  then show "inbox_view es (e_id e) = Some e"
    unfolding lookup_inbox_fold using inbox_view_mem by metis
next
  assume "inbox_view es (e_id e) = Some e"
  then have "map_of (fold_operator_inbox_entries es) (e_id e) = Some e" by (simp only: lookup_inbox_fold)
  then show "e \<in> set (dict_values (fold_operator_inbox_entries es))" by force
qed

text \<open>A row that is not a turn report is not protected, so a ladder-resolved one is dropped.\<close>

lemma compaction_drops_resolved:
  assumes "inbox_view es k = Some t" "e_state t = LadderResolved" "e_messageKind t \<noteq> Turn_report"
  shows "k \<notin> compaction_keep now reg (fold_operator_inbox_entries es)"
proof
  assume "k \<in> compaction_keep now reg (fold_operator_inbox_entries es)"
  then obtain e where "e \<in> set (dict_values (fold_operator_inbox_entries es))" "e_id e = k"
    and keep: "k \<in> unregistered_execution_report_ids (fold_operator_inbox_entries es) reg \<or> keep_inbox_entry now e"
    using inbox_keep_ids_mem unfolding compaction_keep_def by blast
  then have "e = t" using assms(1) inbox_fold_values by auto
  moreover have "x = t" if "x \<in> set (dict_values (fold_operator_inbox_entries es))" "e_id x = k" for x
    using that assms(1) inbox_fold_values by auto
  ultimately show False
    using keep assms(2,3)
    by (auto simp: unregistered_execution_report_ids_def unregistered_execution_report_def keep_inbox_entry_def)
qed

lemma reconcile_Inr:
  assumes "reconcile_and_compact h s now reconcile reg = Inr ((n, d, res), s')"
  shows "\<exists>es app. inbox_read_unlocked s = Inr es
    \<and> (\<forall>e \<in> set app. e_state e = LadderResolved \<and> e_id e \<in> fst ` set (reconcile (fold_operator_inbox_entries es))
        \<and> (\<exists>p. inbox_view es (e_id e) = Some p \<and> e_state p = Pending \<and> e_gateId e = e_gateId p
             \<and> e_messageKind e = e_messageKind p))
    \<and> res = app
    \<and> d = filter (\<lambda>p. fst p \<in> compaction_keep now reg (fold_operator_inbox_entries (es @ app)))
           (fold_operator_inbox_entries (es @ app))
    \<and> n = length (filter (\<lambda>k. k \<notin> fst ` set d) (map fst (fold_operator_inbox_entries es)))
    \<and> (if 0 < n then (\<exists>vs. list_all2 (\<lambda>e v. validated e = Inr v)
           (filter (\<lambda>e. e_id e \<in> compaction_keep now reg (fold_operator_inbox_entries (es @ app))) (es @ app)) vs
           \<and> s' = s\<lparr>ib_log := log_rewrite (ib_log s) vs\<rparr>)
       else s' = s)"
proof -
  obtain es where es: "inbox_read_unlocked s = Inr es"
    using assms by (auto simp: reconcile_and_compact_def inbox_exclusive_Inr rbind_eq_Inr_iff)
  obtain records current resolved where loop: "reconcile_loop (utc_stamp now)
      (reconcile (fold_operator_inbox_entries es)) (es, fold_operator_inbox_entries es, []) = (records, current, resolved)"
    by (metis prod_cases3)
  obtain app where app: "records = es @ app" "resolved = app" "current = fold_operator_inbox_entries records"
    and el: "\<forall>e \<in> set app. e_state e = LadderResolved \<and> e_id e \<in> fst ` set (reconcile (fold_operator_inbox_entries es))
        \<and> (\<exists>p. inbox_view es (e_id e) = Some p \<and> e_state p = Pending \<and> e_gateId e = e_gateId p
             \<and> e_messageKind e = e_messageKind p)"
    using reconcile_loop_spec [OF loop] by auto
  show ?thesis
    using assms es loop app el
    by (auto simp: reconcile_and_compact_def inbox_exclusive_Inr Let_def compaction_keep_def rbind_eq_Inr_iff
        dest!: inbox_replace_unlocked_Inr split: if_splits)
qed

text \<open>Holding one more fold: a fold of the log as it is, or of what is left of it.\<close>

lemma keeps_fold:
  assumes "keeps k g w w'" "\<And>j t. map_of d j = Some t \<Longrightarrow> e_id t = j"
    and "\<And>t. map_of d k = Some t \<Longrightarrow> e_gateId t = g \<and> row_state (iw_store w') k = Some (e_state t)"
  shows "keeps k g w (w'\<lparr>iw_folds := d # iw_folds w'\<rparr>)"
  using assms unfolding keeps_def coherent_def by (auto simp del: map_of_eq_Some_iff)

lemma inbox_view_app:
  "(\<And>e. e \<in> set app \<Longrightarrow> e_id e \<noteq> k) \<Longrightarrow> inbox_view (es @ app) k = inbox_view es k"
  by (induction app rule: rev_induct) (auto simp: inbox_view_snoc simp flip: append_assoc)

lemma inbox_view_resolved:
  assumes "inbox_view es k = Some p" "\<And>x. x \<in> set app \<Longrightarrow> e_id x = k \<Longrightarrow> e_state x \<noteq> Pending"
    and "e \<in> set app" "e_id e = k"
  shows "\<exists>t \<in> set app. e_id t = k \<and> inbox_view (es @ app) k = Some t"
  using assms
proof (induction app rule: rev_induct)
  case (snoc x app)
  then show ?case by (cases "e_id x = k") (auto simp: inbox_view_snoc simp flip: append_assoc)
qed simp

text \<open>A reconciliation that spares the row resolves other rows only, and keeps the row's id.\<close>

lemma reconcile_apart:
  assumes "coherent k g w" "reconcile_and_compact h (iw_store w) now reconcile reg = Inr ((n, d, res), s')"
    and kinds: "\<And>es i reason e. inbox_read_unlocked (iw_store w) = Inr es \<Longrightarrow>
       (i, reason) \<in> set (reconcile (fold_operator_inbox_entries es)) \<Longrightarrow>
       inbox_view es i = Some e \<Longrightarrow> e_messageKind e \<noteq> Turn_report"
    and spared: "k \<notin> row_ids (iw_store w) - row_ids s'"
  shows "\<exists>es app. inbox_read_unlocked (iw_store w) = Inr es \<and> (\<forall>e \<in> set app. e_id e \<noteq> k)
    \<and> d = filter (\<lambda>p. fst p \<in> compaction_keep now reg (fold_operator_inbox_entries (es @ app)))
           (fold_operator_inbox_entries (es @ app))
    \<and> (s' = iw_store w \<or> k \<in> compaction_keep now reg (fold_operator_inbox_entries (es @ app))
         \<and> (\<exists>vs. list_all2 (\<lambda>e v. validated e = Inr v)
           (filter (\<lambda>e. e_id e \<in> compaction_keep now reg (fold_operator_inbox_entries (es @ app))) (es @ app)) vs
           \<and> s' = (iw_store w)\<lparr>ib_log := log_rewrite (ib_log (iw_store w)) vs\<rparr>))"
proof -
  obtain es app where es: "inbox_read_unlocked (iw_store w) = Inr es"
    and app: "\<And>e. e \<in> set app \<Longrightarrow> e_state e = LadderResolved
        \<and> e_id e \<in> fst ` set (reconcile (fold_operator_inbox_entries es))
        \<and> (\<exists>p. inbox_view es (e_id e) = Some p \<and> e_state p = Pending \<and> e_gateId e = e_gateId p
             \<and> e_messageKind e = e_messageKind p)"
    and d: "d = filter (\<lambda>p. fst p \<in> compaction_keep now reg (fold_operator_inbox_entries (es @ app)))
           (fold_operator_inbox_entries (es @ app))"
    and n: "n = length (filter (\<lambda>k. k \<notin> fst ` set d) (map fst (fold_operator_inbox_entries es)))"
    and s': "if 0 < n then (\<exists>vs. list_all2 (\<lambda>e v. validated e = Inr v)
           (filter (\<lambda>e. e_id e \<in> compaction_keep now reg (fold_operator_inbox_entries (es @ app))) (es @ app)) vs
           \<and> s' = (iw_store w)\<lparr>ib_log := log_rewrite (ib_log (iw_store w)) vs\<rparr>)
       else s' = iw_store w"
    using reconcile_Inr [OF assms(2)] by blast
  let ?keep = "compaction_keep now reg (fold_operator_inbox_entries (es @ app))"
  let ?recs = "filter (\<lambda>e. e_id e \<in> ?keep) (es @ app)"
  have some: "row_state s' k \<noteq> None" using assms(1) spared by (auto simp: coherent_def row_ids_def)
  have kept: "k \<in> ?keep" if "0 < n"
    using s' that row_state_replace(2) some inbox_view_filter [of "\<lambda>j. j \<in> ?keep" "es @ app" k] by (auto split: if_splits)
  have before: "k \<in> fst ` set (fold_operator_inbox_entries es)"
  proof -
    have "inbox_view es k \<noteq> None" using assms(1) row_state_Inr [OF es, of k] by (simp add: coherent_def)
    then show ?thesis using lookup_inbox_fold [of es k] by (metis map_of_eq_None_iff)
  qed
  have "e_id e \<noteq> k" if mem: "e \<in> set app" for e
  proof
    assume k: "e_id e = k"
    obtain p where p: "inbox_view es k = Some p" "e_state p = Pending" "e_messageKind e = e_messageKind p"
      using app [OF mem] k by auto
    obtain t where t: "inbox_view (es @ app) k = Some t" "t \<in> set app" "e_id t = k"
      using inbox_view_resolved [OF p(1) _ mem k] app by auto
    have "e_state t = LadderResolved \<and> e_messageKind t = e_messageKind p"
      using app [OF t(2)] t(3) p(1) by auto
    moreover have "e_messageKind p \<noteq> Turn_report"
      using kinds [OF es _ p(1)] app [OF mem] k by auto
    ultimately have "k \<notin> ?keep" using compaction_drops_resolved [OF t(1)] by auto
    then have "k \<notin> fst ` set d" by (auto simp: d)
    then have "0 < n" using before n by (auto simp: filter_empty_conv)
    then show False using kept \<open>k \<notin> ?keep\<close> by simp
  qed
  then show ?thesis using es d s' kept by (cases "0 < n") auto
qed

lemma keeps_reconcile:
  assumes "coherent k g w" "reconcile_and_compact h (iw_store w) now reconcile reg = Inr ((n, d, res), s')"
    and kinds: "\<And>es i reason e. inbox_read_unlocked (iw_store w) = Inr es \<Longrightarrow>
       (i, reason) \<in> set (reconcile (fold_operator_inbox_entries es)) \<Longrightarrow>
       inbox_view es i = Some e \<Longrightarrow> e_messageKind e \<noteq> Turn_report"
    and spared: "k \<notin> row_ids (iw_store w) - row_ids s'"
  shows "keeps k g w (w\<lparr>iw_store := s', iw_folds := d # iw_folds w\<rparr>)"
proof -
  obtain es app where es: "inbox_read_unlocked (iw_store w) = Inr es" and apart: "\<forall>e \<in> set app. e_id e \<noteq> k"
    and d: "d = filter (\<lambda>p. fst p \<in> compaction_keep now reg (fold_operator_inbox_entries (es @ app)))
           (fold_operator_inbox_entries (es @ app))"
    and s': "s' = iw_store w \<or> k \<in> compaction_keep now reg (fold_operator_inbox_entries (es @ app))
         \<and> (\<exists>vs. list_all2 (\<lambda>e v. validated e = Inr v)
           (filter (\<lambda>e. e_id e \<in> compaction_keep now reg (fold_operator_inbox_entries (es @ app))) (es @ app)) vs
           \<and> s' = (iw_store w)\<lparr>ib_log := log_rewrite (ib_log (iw_store w)) vs\<rparr>)"
    using reconcile_apart [OF assms(1,2) _ spared] kinds by blast
  let ?keep = "compaction_keep now reg (fold_operator_inbox_entries (es @ app))"
  let ?recs = "filter (\<lambda>e. e_id e \<in> ?keep) (es @ app)"
  have some: "row_state s' k \<noteq> None" using assms(1) spared by (auto simp: coherent_def row_ids_def)
  have dk: "map_of d j = (if j \<in> ?keep then inbox_view (es @ app) j else None)" for j
    using inbox_view_filter [of "\<lambda>j. j \<in> ?keep" "es @ app" j] lookup_inbox_fold [of ?recs j]
      inbox_fold_filter [of "\<lambda>j. j \<in> ?keep" "es @ app"] d by metis
  have view: "inbox_view (es @ app) k = inbox_view es k" using apart by (blast intro: inbox_view_app)
  have gates: "e_gateId e = g" if "e \<in> set (es @ app)" "e_id e = k" for e
    using that apart coherent_gate [OF assms(1) es] by auto
  have recs: "inbox_view ?recs k = inbox_view es k" if "k \<in> ?keep"
    using that view inbox_view_filter [of "\<lambda>j. j \<in> ?keep" "es @ app" k] by simp
  have same: "row_state s' k = row_state (iw_store w) k"
    using s' recs row_state_replace(2) [of ?recs] row_state_Inr [OF es, of k] by fastforce
  have "keeps k g w (w\<lparr>iw_store := s'\<rparr>)"
  proof (cases "s' = iw_store w")
    case False
    then obtain vs where vs: "list_all2 (\<lambda>e v. validated e = Inr v) ?recs vs" "k \<in> ?keep"
      "s' = (iw_store w)\<lparr>ib_log := log_rewrite (ib_log (iw_store w)) vs\<rparr>" using s' by auto
    show ?thesis
      using keeps_replace [OF assms(1) vs(1,3) _ some] gates recs [OF vs(2)] row_state_Inr [OF es, of k]
      by (metis filter_is_subset subsetD)
  qed (use assms(1) in \<open>simp add: keeps_refl\<close>)
  moreover have "e_id t = j" if "map_of d j = Some t" for j t
    using that inbox_view_mem unfolding dk by (metis option.distinct(1))
  moreover have "e_gateId t = g \<and> row_state s' k = Some (e_state t)" if "map_of d k = Some t" for t
  proof -
    have "inbox_view es k = Some t" using that view unfolding dk by (metis option.distinct(1))
    then show ?thesis
      using inbox_view_mem coherent_gate [OF assms(1) es] same row_state_Inr [OF es, of k] by fastforce
  qed
  ultimately show ?thesis using keeps_fold [of k g w "w\<lparr>iw_store := s'\<rparr>" d] by (simp del: map_of_eq_Some_iff)
qed

section \<open>Every step\<close>

lemma keeps_deliver:
  assumes "coherent k g w" "known w (rf_current fl)" "record_delivery h (iw_store w) i attempt now fl = Inr (e, s')"
  shows "keeps k g w (w\<lparr>iw_store := s'\<rparr>)"
proof -
  obtain entry where entry: "require_entry h (iw_store w) i (rf_current fl) = Inr entry"
    using assms(3) by (auto simp: record_delivery_def rbind_eq_Inr_iff)
  show ?thesis
  proof (cases "da_landed attempt \<and> ar_delivery_state (da_adapter attempt) = Some AdAccepted \<and> e_state entry = Pending")
    case True
    then obtain r where "inbox_transition h (iw_store w) i (land_latest attempt now) = Inr (r, s')"
      using assms(3) entry by (auto simp: record_delivery_def rbind_eq_Inr_iff)
    then show ?thesis using keeps_transition proper_transitions(1) assms(1) by blast
  next
    case False
    then obtain next' where "inbox_append h (iw_store w) ((delivery_evidence attempt now entry)\<lparr>e_nextAttemptAt := next'\<rparr>) = Inr s'"
      using assms(3) entry by (auto simp: record_delivery_def rbind_eq_Inr_iff Let_def)
    then show ?thesis
      using keeps_stale [OF assms(1,2) entry] by (auto simp: delivery_evidence_def Let_def)
  qed
qed

lemma keeps_rebind:
  assumes "coherent k g w" "known w current" "rebind_entry h (iw_store w) i owner now current = Inr (r, s')"
  shows "keeps k g w (w\<lparr>iw_store := s'\<rparr>)"
  using assms keeps_stale [OF assms(1,2), of h i _ h]
  by (auto simp: rebind_entry_def rbind_eq_Inr_iff Let_def rebound_def readdress_def keeps_refl split: if_splits)

lemma keeps_complete:
  assumes "coherent k g w" "known w current" "record_adapter_completion h (iw_store w) i c now current = Inr (e, s')"
  shows "keeps k g w (w\<lparr>iw_store := s'\<rparr>)"
  using assms keeps_stale [OF assms(1,2), of h i _ h]
  by (auto simp: record_adapter_completion_def rbind_eq_Inr_iff Let_def completed_def)

lemma renewed_fields [simp]: "e_id (renewed rn now e) = e_id e" "e_state (renewed rn now e) = e_state e"
  "e_gateId (renewed rn now e) = e_gateId e"
  by (simp_all add: renewed_def Let_def readdress_def split: option.splits)

lemma keeps_renew:
  assumes "coherent k g w" "known w current" "renew h (iw_store w) i rn now current = Inr (e, s')"
  shows "keeps k g w (w\<lparr>iw_store := s'\<rparr>)"
  using assms keeps_stale [OF assms(1,2), of h i _ h]
  by (auto simp: renew_def rbind_eq_Inr_iff Let_def keeps_refl split: if_splits)

lemma inbox_consume_transition:
  "inbox_consume h s i now by' via =
     inbox_transition h s i (\<lambda>e. if e_state e \<noteq> Pending then None else consume_operator_inbox_entry e now by' via)"
  by (auto simp: inbox_consume_def inbox_transition_def split: option.splits intro!: arg_cong [of _ _ "inbox_exclusive h s"]
      ext arg_cong [of _ _ "rbind _"])

lemma keeps_consume:
  assumes "coherent k g w" "inbox_consume h (iw_store w) i now by' via = Inr (r, s')"
  shows "keeps k g w (w\<lparr>iw_store := s'\<rparr>)"
  using keeps_transition [OF assms(2) [unfolded inbox_consume_transition] _ assms(1)]
  by (auto simp: proper_def consume_operator_inbox_entry_def split: if_splits)

lemma keeps_post:
  assumes "coherent k g w" "create_operator_inbox_entry m i now routing poster = Inr e"
    and "inbox_append h (iw_store w) e = Inr s'" "i \<noteq> k"
  shows "keeps k g w (w\<lparr>iw_store := s'\<rparr>)"
proof -
  have "e_id e = i" using assms(2) by (auto simp: create_operator_inbox_entry_def Let_def rbind_eq_Inr_iff)
  moreover obtain v where "validated e = Inr v" "s' = (iw_store w)\<lparr>ib_log := log_append (ib_log (iw_store w)) v\<rparr>"
    using inbox_append_Inr [OF assms(3)] by blast
  ultimately show ?thesis using keeps_append [OF assms(1)] assms(4) by auto
qed

lemma keeps_observe:
  assumes "coherent k g w" "inbox_current h (iw_store w) = Inr d"
  shows "keeps k g w (w\<lparr>iw_folds := d # iw_folds w\<rparr>)"
proof -
  obtain es where es: "inbox_read_unlocked (iw_store w) = Inr es" "d = fold_operator_inbox_entries es"
    using assms(2) by (auto simp: inbox_current_def inbox_read_def inbox_exclusive_Inr rbind_eq_Inr_iff)
  have d: "map_of d j = inbox_view es j" for j by (simp only: es(2) lookup_inbox_fold)
  show ?thesis
  proof (rule keeps_fold [OF keeps_refl [OF assms(1)]])
    show "e_id t = j" if "map_of d j = Some t" for j t using that inbox_view_mem d by metis
    show "e_gateId t = g \<and> row_state (iw_store w) k = Some (e_state t)" if "map_of d k = Some t" for t
      using that inbox_view_mem [of es k t] coherent_gate [OF assms(1) es(1)] row_state_Inr [OF es(1), of k]
      by (simp add: d)
  qed
qed

lemma keeps_step:
  assumes "inbox_step w ev w'" "spares k ev" "coherent k g w"
  shows "keeps k g w w'"
  using assms(1)
proof cases
  case (i_delete h i b s')
  then show ?thesis
    using inbox_delete_Inr [OF i_delete(3)] keeps_removed [OF assms(3), of _ s' "\<lambda>j _. j \<noteq> i"] assms(2) by auto
next
  case (i_delete_gate h gid n s')
  then show ?thesis
    using delete_by_gate_Inr [OF i_delete_gate(3)] keeps_removed [OF assms(3), of _ s' "\<lambda>_ g. g \<noteq> Some gid"] assms(2)
    by auto
next
  case (i_compact h now' reg n s')
  then obtain es where "inbox_read_unlocked (iw_store w) = Inr es" and
    "s' = iw_store w \<or> (\<exists>vs. list_all2 (\<lambda>e v. validated e = Inr v)
           (filter (\<lambda>e. e_id e \<in> compaction_keep now' reg (fold_operator_inbox_entries es)) es) vs
           \<and> s' = (iw_store w)\<lparr>ib_log := log_rewrite (ib_log (iw_store w)) vs\<rparr>)"
    using inbox_compact_Inr [OF i_compact(3)] by blast
  then show ?thesis
    using keeps_removed [OF assms(3), of es s' "\<lambda>j _. j \<in> compaction_keep now' reg (fold_operator_inbox_entries es)"]
      assms(2) i_compact by auto
next
  case (i_reconcile h now' reconcile reg n d res s')
  then show ?thesis using keeps_reconcile [OF assms(3) i_reconcile(3,4)] assms(2) by simp
next
  case (i_post m i now routing poster e h s')
  then show ?thesis using keeps_post [OF assms(3)] assms(2) by simp
qed (use assms(3) in \<open>auto simp: mark_landed_def mark_superseded_def mark_unresolved_def mark_expired_def
      intro: keeps_observe keeps_deliver keeps_rebind keeps_complete keeps_renew keeps_consume
      dest: keeps_transition [OF _ proper_transitions(2)] keeps_transition [OF _ proper_transitions(3)]
        keeps_transition [OF _ proper_transitions(4)]\<close>)

interpretation inbox: preserved inbox_step "spares k" "coherent k g" for k g
  by unfold_locales (blast dest: keeps_step [unfolded keeps_def])

interpretation inbox_terminal: preserved inbox_step "spares k"
    "\<lambda>w. coherent k g w \<and> st \<noteq> Pending \<and> row_state (iw_store w) k = Some st" for k g st
  by unfold_locales (auto dest: keeps_step [unfolded keeps_def])

end
