(* ===== verification/Inbox_Properties.thy ===== *)
theory Inbox_Properties
  imports Inbox_Store
begin

text \<open>
  What the operator inbox guarantees: terminal verdicts, landing, the redelivery floor, batches,
  compaction, and three places where the log loses or reports what it should not.
\<close>

section \<open>Properties\<close>

text \<open>A row, a store and a world for the witnesses.\<close>

definition sample_entry :: inbox_entry where
  "sample_entry = (case create_operator_inbox_entry
      \<lparr>im_ask = ''ask'', im_response = ''resp'', im_message_kind = Message, im_gate_id = None,
       im_artifact_path = None,
       im_subject = \<lparr>is_task_document_ref = None, is_seat_role = None, is_agent_id = None\<rparr>\<rparr>
      ''E1'' ''t0''
      \<lparr>ir_address = \<lparr>ia_task_document_ref = None, ia_lifecycle_id = Some ''L1'', ia_agent_id = None,
          ia_recipient_role = Some Manager_role\<rparr>,
       ir_owner = \<lparr>io_role = None, io_task_document_ref = None, io_agent_id = None, io_lifecycle_id = None\<rparr>\<rparr>
      \<lparr>ip_created_by = ''developer'', ip_created_via = In_dashboard, ip_sender_agent_id = None,
       ip_sender_role = None\<rparr> of Inr e \<Rightarrow> e)"

definition sample_inbox :: "inbox_entry list \<Rightarrow> inbox_store" where
  "sample_inbox es = \<lparr>ib_root = [''observer''], ib_log = Some (map Row es)\<rparr>"

definition sample_world :: inbox_world where
  "sample_world = \<lparr>iw_store = sample_inbox [sample_entry], iw_folds = [[(''E1'', sample_entry)]]\<rparr>"

definition sample_attempt :: "bool \<Rightarrow> delivery_attempt" where
  "sample_attempt landed = \<lparr>da_delivery_state = Delivered, da_delivered_to_session = Some ''s1'', da_detail = None,
     da_adapter = \<lparr>ar_delivery_state = Some AdAccepted, ar_request_id = Some ''r1'',
        ar_vendor_correlation_id = None, ar_accepted_at = None, ar_detail = None\<rparr>,
     da_landed = landed\<rparr>"

definition stale_floor :: redelivery_floor where
  "stale_floor = \<lparr>rf_current = Some [(''E1'', sample_entry)], rf_floor = None\<rparr>"

lemma sample_coherent: "coherent ''E1'' None sample_world"
proof -
  have "inbox_read_unlocked (iw_store sample_world) = Inr [sample_entry]"
    "row_state (iw_store sample_world) ''E1'' = Some Pending" "e_gateId sample_entry = None"
    "e_id sample_entry = ''E1''" "e_state sample_entry = Pending"
    by code_simp+
  then show ?thesis by (auto simp: coherent_def sample_world_def split: if_splits)
qed

text \<open>C3. The first terminal verdict on an inbox row is final. Let any processes run any inbox
  operations, delivery, rebind, renewal and completion from arbitrarily stale folds included, as
  long as nobody posts a second row under the same id or physically removes this one: once the
  fold says a row is landed, superseded, unresolved, expired or otherwise terminal, it says exactly
  that after every further operation.\<close>

theorem first_terminal_verdict_is_final:
  assumes "coherent k g w0"
    and "run inbox_step w0 es w1" "\<And>e. e \<in> set es \<Longrightarrow> spares k e"
    and "row_state (iw_store w1) k = Some st" "st \<noteq> Pending"
    and "run inbox_step w1 es' w2" "\<And>e. e \<in> set es' \<Longrightarrow> spares k e"
  shows "row_state (iw_store w2) k = Some st"
proof -
  have "coherent k g w1" by (rule inbox.run_inv [OF assms(2,3,1)])
  then show ?thesis using inbox_terminal.run_inv [OF assms(6,7), of g st] assms(4,5) by blast
qed

definition superseded_store :: inbox_store where
  "superseded_store = snd (case mark_superseded sample_host (sample_inbox [sample_entry]) ''E1'' ''t1''
     ''overtaken'' None of Inr r \<Rightarrow> r)"

definition late_delivery_store :: inbox_store where
  "late_delivery_store = snd (case record_delivery sample_host superseded_store ''E1'' (sample_attempt True)
     ''t2'' stale_floor of Inr r \<Rightarrow> r)"

theorem first_terminal_verdict_is_final_witness:
  "row_state late_delivery_store ''E1'' = Some Superseded"
proof -
  let ?w1 = "sample_world\<lparr>iw_store := superseded_store\<rparr>"
  let ?w2 = "?w1\<lparr>iw_store := late_delivery_store\<rparr>"
  have "mark_superseded sample_host (iw_store sample_world) ''E1'' ''t1'' ''overtaken'' None =
      Inr ((the (inbox_view (case inbox_read_unlocked superseded_store of Inr es \<Rightarrow> es) ''E1''), True), superseded_store)"
    by code_simp
  then have r1: "run inbox_step sample_world [Touch ''E1''] ?w1" by (simp add: i_superseded)
  have d: "record_delivery sample_host (iw_store ?w1) ''E1'' (sample_attempt True) ''t2'' stale_floor =
      Inr (fst (case record_delivery sample_host superseded_store ''E1'' (sample_attempt True)
     ''t2'' stale_floor of Inr r \<Rightarrow> r), late_delivery_store)"
    by code_simp
  have kn: "known ?w1 (rf_current stale_floor)" by code_simp
  have r2: "run inbox_step ?w1 [Touch ''E1''] ?w2"
    using i_deliver [OF kn d] by (metis run_cons run_nil)
  have "row_state (iw_store ?w1) ''E1'' = Some Superseded" by code_simp
  then have "row_state (iw_store ?w2) ''E1'' = Some Superseded"
    using first_terminal_verdict_is_final [OF sample_coherent r1 _ _ _ r2] by simp
  then show ?thesis by simp
qed

lemma next_attempt_at_utc:
  assumes "next_attempt_at (utc_dt t) n fl = Inr stamp"
  shows "\<exists>t'. valid_utc t' \<and> stamp = utc_stamp t' \<and> t + MIN_REDELIVERY_INTERVAL \<le> t' \<and> t + backoff_for_attempt n \<le> t'"
proof -
  obtain f t' where f: "require_redelivery_floor fl = Inr f"
    and t': "dt_add (utc_dt t) (max (backoff_for_attempt n) f) = Inr t'" "stamp = isoformat t'"
    using assms by (auto simp: next_attempt_at_def rbind_eq_Inr_iff)
  have "t' = utc_dt (t + max (backoff_for_attempt n) f)" "valid_utc (t + max (backoff_for_attempt n) f)"
    using t'(1) by (auto simp: dt_add_def utc_dt_def valid_utc_def split: if_splits)
  then show ?thesis
    using t'(2) require_redelivery_floor_Inr [OF f] by (intro exI [of _ "t + max (backoff_for_attempt n) f"])
      (auto simp: utc_stamp_def)
qed

text \<open>What a delivery that did not land leaves on a pending row.\<close>

lemma record_delivery_pending:
  assumes "record_delivery h s i attempt (utc_stamp t) fl = Inr (e, s')" "e_state e = Pending" "valid_utc t"
  shows "e_lastAttemptAt e = Some (utc_stamp t)"
    and "\<exists>t'. e_nextAttemptAt e = Some (utc_stamp t') \<and> valid_utc t' \<and> t + MIN_REDELIVERY_INTERVAL \<le> t'
           \<and> t + backoff_for_attempt (e_attemptCount e) \<le> t'"
    and "\<exists>entry. require_entry h s i (rf_current fl) = Inr entry \<and> e_state entry = Pending
           \<and> e_id e = e_id entry \<and> e_attemptCount e = e_attemptCount entry + 1 \<and> inbox_append h s e = Inr s'"
proof -
  obtain entry where entry: "require_entry h s i (rf_current fl) = Inr entry"
    using assms(1) by (auto simp: record_delivery_def rbind_eq_Inr_iff)
  let ?land = "da_landed attempt \<and> ar_delivery_state (da_adapter attempt) = Some AdAccepted \<and> e_state entry = Pending"
  have land: "\<not> ?land"
  proof
    assume ?land
    then obtain b where "inbox_transition h s i (land_latest attempt (utc_stamp t)) = Inr ((e, b), s')"
      using assms(1) entry by (auto simp: record_delivery_def rbind_eq_Inr_iff)
    then show False
      using inbox_transition_Inr assms(2)
      by (fastforce simp: land_latest_def delivery_evidence_def Let_def split: option.splits if_splits)
  qed
  then obtain st where e: "e = (delivery_evidence attempt (utc_stamp t) entry)\<lparr>e_nextAttemptAt := st\<rparr>"
    and st: "(if e_state entry = Pending
          then rbind (next_attempt_at (utc_dt t) (e_attemptCount entry + 1) (rf_floor fl)) (\<lambda>st. Inr (Some st))
          else Inr (e_nextAttemptAt entry)) = Inr st"
    and app: "inbox_append h s e = Inr s'"
    using assms(1,3) entry by (auto simp: record_delivery_def rbind_eq_Inr_iff Let_def cong: if_cong)
  have pend: "e_state entry = Pending" using assms(2) e by (simp add: delivery_evidence_def Let_def)
  have fields: "e_lastAttemptAt e = Some (utc_stamp t)" "e_nextAttemptAt e = st" "e_attemptCount e = e_attemptCount entry + 1"
    by (simp_all add: e delivery_evidence_def Let_def)
  show "e_lastAttemptAt e = Some (utc_stamp t)" by (rule fields(1))
  obtain stamp where "next_attempt_at (utc_dt t) (e_attemptCount entry + 1) (rf_floor fl) = Inr stamp" "st = Some stamp"
    using st pend by (auto simp: rbind_eq_Inr_iff)
  then show "\<exists>t'. e_nextAttemptAt e = Some (utc_stamp t') \<and> valid_utc t' \<and> t + MIN_REDELIVERY_INTERVAL \<le> t'
           \<and> t + backoff_for_attempt (e_attemptCount e) \<le> t'"
    using next_attempt_at_utc fields by fastforce
  have "e_id e = e_id entry" by (simp add: e delivery_evidence_def Let_def)
  then show "\<exists>entry. require_entry h s i (rf_current fl) = Inr entry \<and> e_state entry = Pending
           \<and> e_id e = e_id entry \<and> e_attemptCount e = e_attemptCount entry + 1 \<and> inbox_append h s e = Inr s'"
    using entry pend fields(3) app by blast
qed

text \<open>
  The schedule of a row along a run. The snapshot the log gives a row, and what of it the
  selection for redelivery reads.
\<close>

definition row_of :: "inbox_store \<Rightarrow> string \<Rightarrow> inbox_entry option" where
  "row_of s k = (case inbox_read_unlocked s of Inl _ \<Rightarrow> None | Inr es \<Rightarrow> inbox_view es k)"

definition pacing :: "inbox_entry \<Rightarrow> inbox_state \<times> int \<times> string option \<times> string option" where
  "pacing e = (e_state e, e_attemptCount e, e_lastAttemptAt e, e_nextAttemptAt e)"

text \<open>A row whose schedule is no earlier than that of an attempt \<open>n\<close> recorded at \<open>t\<close>.\<close>

definition paced :: "utc \<Rightarrow> int \<Rightarrow> inbox_entry \<Rightarrow> bool" where
  "paced t n e \<longleftrightarrow> n \<le> e_attemptCount e
     \<and> (\<exists>t1. e_lastAttemptAt e = Some (utc_stamp t1) \<and> valid_utc t1 \<and> t \<le> t1)
     \<and> (\<exists>t2. e_nextAttemptAt e = Some (utc_stamp t2) \<and> valid_utc t2 \<and> t + backoff_for_attempt n \<le> t2)"

lemma paced_pacing: "pacing e = pacing e' \<Longrightarrow> paced t n e = paced t n e'"
  by (simp add: pacing_def paced_def)

lemma row_of_Inr: "inbox_read_unlocked s = Inr es \<Longrightarrow> row_of s k = inbox_view es k"
  by (simp add: row_of_def)

lemma row_state_row_of: "row_state s k = map_option e_state (row_of s k)"
  by (simp add: row_state_def row_of_def split: sum.splits)

lemma row_of_id: "row_of s k = Some e \<Longrightarrow> e_id e = k"
  by (auto simp: row_of_def inbox_view_mem split: sum.splits)

lemma validated_pacing: "validated e = Inr v \<Longrightarrow> e_id v = e_id e \<and> pacing v = pacing e"
  by (simp add: pacing_def validated_fields)

lemma row_of_append:
  assumes "inbox_readable s" "validated u = Inr v"
  shows "row_of (s\<lparr>ib_log := log_append (ib_log s) v\<rparr>) k =
    (if e_id u \<noteq> k then row_of s k
     else (case row_of s k of None \<Rightarrow> Some v
       | Some p \<Rightarrow> Some (if e_state p \<noteq> Pending \<and> e_state u = Pending then p else v)))"
proof -
  obtain es where es: "inbox_read_unlocked s = Inr es" using assms(1) by (auto simp: inbox_readable_def)
  have old: "row_of s k = inbox_view es k" by (rule row_of_Inr [OF es])
  have new: "row_of (s\<lparr>ib_log := log_append (ib_log s) v\<rparr>) k = inbox_view (es @ [v]) k"
    by (rule row_of_Inr [OF inbox_read_append [OF es assms(2)]])
  show ?thesis
    unfolding old new using validated_fields(2,3) [OF assms(2)]
    by (cases "inbox_view es k") (simp_all add: inbox_view_snoc)
qed

lemma pacing_view:
  assumes "list_all2 (\<lambda>e v. validated e = Inr v) es vs"
  shows "map_option pacing (inbox_view vs k) = map_option pacing (inbox_view es k)"
  using assms
proof (induction es arbitrary: vs rule: rev_induct)
  case (snoc e es)
  then obtain ws v where vs: "vs = ws @ [v]" "list_all2 (\<lambda>e v. validated e = Inr v) es ws" "validated e = Inr v"
    by (auto simp: list_all2_append1 list_all2_Cons1)
  have v: "e_id v = e_id e" "pacing v = pacing e" "e_state v = e_state e"
    using validated_pacing [OF vs(3)] by (simp_all add: pacing_def)
  note IH = snoc.IH [OF vs(2)]
  show ?case
  proof (cases "inbox_view es k")
    case None
    then have "inbox_view ws k = None" using IH by simp
    then show ?thesis using None v by (simp add: vs(1) inbox_view_snoc)
  next
    case (Some a)
    then obtain b where b: "inbox_view ws k = Some b" "pacing b = pacing a" using IH by auto
    then have "e_state b = e_state a" by (simp add: pacing_def)
    then show ?thesis using Some b v by (auto simp: vs(1) inbox_view_snoc)
  qed
qed simp

text \<open>A rewrite of the log that keeps the row keeps its schedule.\<close>

lemma rewrite_pacing:
  assumes "inbox_read_unlocked s = Inr es" "list_all2 (\<lambda>e v. validated e = Inr v) recs vs"
    and "inbox_view recs k = inbox_view es k"
  shows "map_option pacing (row_of (s\<lparr>ib_log := log_rewrite (ib_log s) vs\<rparr>) k) = map_option pacing (row_of s k)"
  using pacing_view [OF assms(2), of k] assms(3)
  by (simp add: row_of_Inr [OF assms(1)] row_of_Inr [OF inbox_read_replace [OF assms(2)]])

text \<open>What a touch of row \<open>i\<close> may do to the log: nothing, or append a snapshot of that row.\<close>

definition touches :: "inbox_store \<Rightarrow> string \<Rightarrow> inbox_store \<Rightarrow> bool" where
  "touches s i s' \<longleftrightarrow> s' = s
     \<or> (\<exists>u v. validated u = Inr v \<and> e_id u = i \<and> s' = s\<lparr>ib_log := log_append (ib_log s) v\<rparr>)"

lemma touches_other: "inbox_readable s \<Longrightarrow> touches s i s' \<Longrightarrow> i \<noteq> k \<Longrightarrow> row_of s' k = row_of s k"
  by (auto simp: touches_def row_of_append)

lemma touches_transition:
  assumes "inbox_transition h s i tr = Inr (r, s')" "proper tr"
  shows "touches s i s'"
proof -
  obtain e b where r: "r = (e, b)" by (cases r)
  show ?thesis
    using inbox_transition_Inr [OF assms(1) [unfolded r]] assms(2) inbox_view_mem
    unfolding touches_def proper_def by (fastforce split: option.splits)
qed

lemma touches_append: "inbox_append h s u = Inr s' \<Longrightarrow> e_id u = i \<Longrightarrow> touches s i s'"
  using inbox_append_Inr [of h s u s'] unfolding touches_def by blast

lemma proper_consume: "proper (\<lambda>e. if e_state e \<noteq> Pending then None else consume_operator_inbox_entry e now by' via)"
  by (auto simp: proper_def consume_operator_inbox_entry_def split: if_splits)

lemma reconcile_pacing:
  assumes "coherent k g w" "reconcile_and_compact h (iw_store w) now reconcile reg = Inr ((n, d, res), s')"
    and kinds: "\<And>es i reason e. inbox_read_unlocked (iw_store w) = Inr es \<Longrightarrow>
       (i, reason) \<in> set (reconcile (fold_operator_inbox_entries es)) \<Longrightarrow>
       inbox_view es i = Some e \<Longrightarrow> e_messageKind e \<noteq> Turn_report"
    and spared: "k \<notin> row_ids (iw_store w) - row_ids s'"
  shows "map_option pacing (row_of s' k) = map_option pacing (row_of (iw_store w) k)"
proof -
  obtain es app where es: "inbox_read_unlocked (iw_store w) = Inr es" and apart: "\<forall>e \<in> set app. e_id e \<noteq> k"
    and s': "s' = iw_store w \<or> k \<in> compaction_keep now reg (fold_operator_inbox_entries (es @ app))
         \<and> (\<exists>vs. list_all2 (\<lambda>e v. validated e = Inr v)
           (filter (\<lambda>e. e_id e \<in> compaction_keep now reg (fold_operator_inbox_entries (es @ app))) (es @ app)) vs
           \<and> s' = (iw_store w)\<lparr>ib_log := log_rewrite (ib_log (iw_store w)) vs\<rparr>)"
    using reconcile_apart [OF assms(1,2) _ spared] kinds by blast
  let ?keep = "compaction_keep now reg (fold_operator_inbox_entries (es @ app))"
  have "inbox_view (es @ app) k = inbox_view es k" using apart by (blast intro: inbox_view_app)
  then have "inbox_view (filter (\<lambda>e. e_id e \<in> ?keep) (es @ app)) k = inbox_view es k" if "k \<in> ?keep"
    using that inbox_view_filter [of "\<lambda>j. j \<in> ?keep" "es @ app" k] by simp
  then show ?thesis using s' rewrite_pacing [OF es] by blast
qed

lemma touches_deliver:
  assumes "coherent k g w" "known w (rf_current fl)" "record_delivery h (iw_store w) i attempt now fl = Inr (e, s')"
  shows "touches (iw_store w) i s'"
proof -
  obtain entry where entry: "require_entry h (iw_store w) i (rf_current fl) = Inr entry"
    using assms(3) by (auto simp: record_delivery_def rbind_eq_Inr_iff)
  show ?thesis
  proof (cases "da_landed attempt \<and> ar_delivery_state (da_adapter attempt) = Some AdAccepted \<and> e_state entry = Pending")
    case True
    then obtain r where "inbox_transition h (iw_store w) i (land_latest attempt now) = Inr (r, s')"
      using assms(3) entry by (auto simp: record_delivery_def rbind_eq_Inr_iff)
    then show ?thesis using touches_transition proper_transitions(1) by blast
  next
    case False
    then obtain next' where "inbox_append h (iw_store w) ((delivery_evidence attempt now entry)\<lparr>e_nextAttemptAt := next'\<rparr>) = Inr s'"
      using assms(3) entry by (auto simp: record_delivery_def rbind_eq_Inr_iff Let_def)
    then show ?thesis
      using coherent_known(1) [OF assms(1,2) entry] by (auto simp: delivery_evidence_def Let_def intro: touches_append)
  qed
qed

lemma touches_stale:
  assumes "coherent k g w" "known w current"
  shows "rebind_entry h (iw_store w) i owner now current = Inr (r, s') \<Longrightarrow> touches (iw_store w) i s'"
    and "record_adapter_completion h (iw_store w) i c now current = Inr (e, s') \<Longrightarrow> touches (iw_store w) i s'"
    and "renew h (iw_store w) i rn now current = Inr (e, s') \<Longrightarrow> touches (iw_store w) i s'"
proof -
  show "touches (iw_store w) i s'" if "rebind_entry h (iw_store w) i owner now current = Inr (r, s')"
    using that coherent_known(1) [OF assms]
    by (auto simp: rebind_entry_def rbind_eq_Inr_iff Let_def rebound_def readdress_def split: if_splits
        intro: touches_append) (simp add: touches_def)
  show "touches (iw_store w) i s'" if "record_adapter_completion h (iw_store w) i c now current = Inr (e, s')"
    using that coherent_known(1) [OF assms]
    by (auto simp: record_adapter_completion_def rbind_eq_Inr_iff Let_def completed_def intro: touches_append)
  show "touches (iw_store w) i s'" if "renew h (iw_store w) i rn now current = Inr (e, s')"
    using that coherent_known(1) [OF assms]
    by (auto simp: renew_def rbind_eq_Inr_iff Let_def split: if_splits intro: touches_append) (simp add: touches_def)
qed

text \<open>A step that spares the row and does not write it keeps its schedule.\<close>

lemma other_step_pacing:
  assumes "inbox_step w ev w'" "spares k ev" "ev \<noteq> Touch k" "coherent k g w"
  shows "map_option pacing (row_of (iw_store w') k) = map_option pacing (row_of (iw_store w) k)"
proof -
  note rd = coherent_readable [OF assms(4)]
  note other = arg_cong [where f = "map_option pacing", OF touches_other [OF rd]]
  have removed: "map_option pacing (row_of s' k) = map_option pacing (row_of (iw_store w) k)"
    if "inbox_read_unlocked (iw_store w) = Inr es"
      and "s' = iw_store w \<or> (\<exists>vs. list_all2 (\<lambda>e v. validated e = Inr v) (filter (\<lambda>e. P (e_id e) (e_gateId e)) es) vs
           \<and> s' = (iw_store w)\<lparr>ib_log := log_rewrite (ib_log (iw_store w)) vs\<rparr>)"
      and "k \<notin> row_ids (iw_store w) - row_ids s'" for es s' P
    using that removed_view [OF assms(4) that(1) _ _ that(3)] rewrite_pacing [OF that(1)] by blast
  show ?thesis
    using assms(1)
  proof cases
    case (i_post m i now routing poster e h s')
    then have "e_id e = i" by (auto simp: create_operator_inbox_entry_def Let_def rbind_eq_Inr_iff)
    then show ?thesis using i_post other [OF touches_append] assms(2) by auto
  next
    case (i_deliver fl h i attempt now e s')
    then show ?thesis using other [OF touches_deliver [OF assms(4)]] assms(3) by auto
  next
    case (i_rebind current h i owner now r s')
    then show ?thesis using other [OF touches_stale(1) [OF assms(4)]] assms(3) by auto
  next
    case (i_complete current h i c now e s')
    then show ?thesis using other [OF touches_stale(2) [OF assms(4)]] assms(3) by auto
  next
    case (i_renew current h i rn now e s')
    then show ?thesis using other [OF touches_stale(3) [OF assms(4)]] assms(3) by auto
  next
    case (i_delete h i b s')
    then show ?thesis using inbox_delete_Inr [OF i_delete(3)] removed [of _ s' "\<lambda>j _. j \<noteq> i"] assms(2) by auto
  next
    case (i_delete_gate h gid n s')
    then show ?thesis
      using delete_by_gate_Inr [OF i_delete_gate(3)] removed [of _ s' "\<lambda>_ g. g \<noteq> Some gid"] assms(2) by auto
  next
    case (i_compact h now' reg n s')
    then obtain es where "inbox_read_unlocked (iw_store w) = Inr es" and
      "s' = iw_store w \<or> (\<exists>vs. list_all2 (\<lambda>e v. validated e = Inr v)
           (filter (\<lambda>e. e_id e \<in> compaction_keep now' reg (fold_operator_inbox_entries es)) es) vs
           \<and> s' = (iw_store w)\<lparr>ib_log := log_rewrite (ib_log (iw_store w)) vs\<rparr>)"
      using inbox_compact_Inr [OF i_compact(3)] by blast
    then show ?thesis
      using removed [of es s' "\<lambda>j _. j \<in> compaction_keep now' reg (fold_operator_inbox_entries es)"] assms(2) i_compact
      by auto
  next
    case (i_reconcile h now' reconcile reg n d res s')
    then have spared: "k \<notin> row_ids (iw_store w) - row_ids s'" using assms(2) by simp
    show ?thesis
      using reconcile_pacing [OF assms(4) i_reconcile(3) _ spared] i_reconcile(1,2,4) by simp
  qed (use assms(3) in \<open>auto simp: mark_landed_def mark_superseded_def mark_unresolved_def mark_expired_def
      inbox_consume_transition intro!: other
      dest: touches_transition [OF _ proper_transitions(2)] touches_transition [OF _ proper_transitions(3)]
        touches_transition [OF _ proper_transitions(4)] touches_transition [OF _ proper_consume]\<close>)
qed

text \<open>
  A write of row \<open>k\<close> by somebody who read it at its last change: any operation on the row but a
  rebind, with no reading of its own or with one that still agrees with the log, and a delivery
  attempt no earlier than \<open>t\<close>.
\<close>

definition up_to_date :: "inbox_world \<Rightarrow> string \<Rightarrow> (string, inbox_entry) dict option \<Rightarrow> bool" where
  "up_to_date w k current \<longleftrightarrow> (case current of None \<Rightarrow> True | Some d \<Rightarrow> map_of d k = row_of (iw_store w) k)"

inductive current_touch :: "string \<Rightarrow> utc \<Rightarrow> inbox_world \<Rightarrow> inbox_world \<Rightarrow> bool" for k t where
  ct_deliver: "up_to_date w k (rf_current fl) \<Longrightarrow> t \<le> t' \<Longrightarrow> valid_utc t' \<Longrightarrow>
    record_delivery h (iw_store w) k attempt (utc_stamp t') fl = Inr (e, s') \<Longrightarrow> current_touch k t w (w\<lparr>iw_store := s'\<rparr>)"
| ct_landed: "mark_landed h (iw_store w) k now reason = Inr (r, s') \<Longrightarrow> current_touch k t w (w\<lparr>iw_store := s'\<rparr>)"
| ct_superseded: "mark_superseded h (iw_store w) k now reason sb = Inr (r, s') \<Longrightarrow>
    current_touch k t w (w\<lparr>iw_store := s'\<rparr>)"
| ct_unresolved: "mark_unresolved h (iw_store w) k now reason = Inr (r, s') \<Longrightarrow>
    current_touch k t w (w\<lparr>iw_store := s'\<rparr>)"
| ct_expired: "mark_expired h (iw_store w) k now opts = Inr (r, s') \<Longrightarrow> current_touch k t w (w\<lparr>iw_store := s'\<rparr>)"
| ct_complete: "up_to_date w k current \<Longrightarrow> record_adapter_completion h (iw_store w) k c now current = Inr (e, s') \<Longrightarrow>
    current_touch k t w (w\<lparr>iw_store := s'\<rparr>)"
| ct_renew: "up_to_date w k current \<Longrightarrow> renew h (iw_store w) k rn now current = Inr (e, s') \<Longrightarrow>
    current_touch k t w (w\<lparr>iw_store := s'\<rparr>)"
| ct_consume: "inbox_consume h (iw_store w) k now by via = Inr (r, s') \<Longrightarrow> current_touch k t w (w\<lparr>iw_store := s'\<rparr>)"

definition paced_step :: "string \<Rightarrow> utc \<Rightarrow> inbox_world \<Rightarrow> inbox_event \<Rightarrow> inbox_world \<Rightarrow> bool" where
  "paced_step k t w ev w' \<longleftrightarrow> inbox_step w ev w' \<and> (ev = Touch k \<longrightarrow> current_touch k t w w')"

definition on_schedule :: "utc \<Rightarrow> int \<Rightarrow> inbox_entry option \<Rightarrow> bool" where
  "on_schedule t n row \<longleftrightarrow> (case row of None \<Rightarrow> False | Some e \<Rightarrow> e_state e = Pending \<longrightarrow> paced t n e)"

lemma on_schedule_simps [simp]:
  "\<not> on_schedule t n None" "on_schedule t n (Some e) \<longleftrightarrow> (e_state e = Pending \<longrightarrow> paced t n e)"
  by (simp_all add: on_schedule_def)

lemma on_schedule_pacing:
  assumes "map_option pacing row' = map_option pacing row" "on_schedule t n row"
  shows "on_schedule t n row'"
proof -
  obtain e where e: "row = Some e" "e_state e = Pending \<longrightarrow> paced t n e" using assms(2) by (cases row) auto
  then obtain e' where e': "row' = Some e'" "pacing e' = pacing e" using assms(1) by auto
  then have "e_state e' = e_state e" by (simp add: pacing_def)
  then show ?thesis using e e'(1) paced_pacing [OF e'(2), of t n] by simp
qed

lemma on_schedule_written:
  assumes "inbox_readable s" "validated u = Inr v" "e_id u = k"
    and "on_schedule t n (row_of s k)" "e_state u = Pending \<Longrightarrow> paced t n u"
  shows "on_schedule t n (row_of (s\<lparr>ib_log := log_append (ib_log s) v\<rparr>) k)"
proof -
  obtain p where p: "row_of s k = Some p" using assms(4) by (cases "row_of s k") auto
  note v = validated_pacing [OF assms(2)]
  have "e_state v = e_state u" using v by (simp add: pacing_def)
  moreover have "paced t n v = paced t n u" using paced_pacing v by blast
  ultimately show ?thesis
    using assms(3-5) p row_of_append [OF assms(1,2), of k] by (cases "e_state p = Pending") simp_all
qed

lemma on_schedule_append:
  assumes "inbox_readable s" "inbox_append h s u = Inr s'" "e_id u = k"
    and "on_schedule t n (row_of s k)" "e_state u = Pending \<Longrightarrow> paced t n u"
  shows "on_schedule t n (row_of s' k)"
  using inbox_append_Inr [OF assms(2)] on_schedule_written [OF assms(1) _ assms(3-5)] by blast

lemma on_schedule_transition:
  assumes "inbox_readable s" "inbox_transition h s k tr = Inr (r, s')" "on_schedule t n (row_of s k)"
    and "\<And>e u. tr e = Some u \<Longrightarrow> e_id u = e_id e \<and> (e_state u = Pending \<longrightarrow> pacing u = pacing e)"
  shows "on_schedule t n (row_of s' k)"
proof -
  obtain e b where r: "r = (e, b)" by (cases r)
  obtain es entry where es: "inbox_read_unlocked s = Inr es" "inbox_view es k = Some entry"
    and eff: "case tr entry of None \<Rightarrow> e = entry \<and> \<not> b \<and> s' = s
     | Some u \<Rightarrow> e = u \<and> b \<and> (\<exists>v. validated u = Inr v \<and> s' = s\<lparr>ib_log := log_append (ib_log s) v\<rparr>)"
    using inbox_transition_Inr [OF assms(2) [unfolded r]] by blast
  have row: "row_of s k = Some entry" "e_id entry = k"
    using row_of_Inr [OF es(1)] es(2) inbox_view_mem [OF es(2)] by auto
  show ?thesis
  proof (cases "tr entry")
    case (Some u)
    then obtain v where v: "validated u = Inr v" "s' = s\<lparr>ib_log := log_append (ib_log s) v\<rparr>" using eff by auto
    have "paced t n u" if "e_state u = Pending"
    proof -
      have same: "pacing u = pacing entry" using assms(4) [OF Some] that by blast
      then have "e_state entry = Pending" using that by (simp add: pacing_def)
      then have "paced t n entry" using assms(3) row(1) by simp
      then show ?thesis using paced_pacing [OF same] by blast
    qed
    then show ?thesis
      using on_schedule_written [OF assms(1) v(1) _ assms(3)] assms(4) [OF Some] row(2) v(2) by auto
  qed (use eff assms(3) in auto)
qed

lemma up_to_date_row:
  assumes "up_to_date w k current" "require_entry h (iw_store w) k current = Inr e"
  shows "row_of (iw_store w) k = Some e"
proof (cases current)
  case None
  then show ?thesis
    using assms(2) by (auto simp: require_entry_def inbox_current_def inbox_read_def inbox_exclusive_Inr
        rbind_eq_Inr_iff lookup_inbox_fold row_of_Inr split: option.splits)
next
  case (Some d)
  then show ?thesis using assms by (auto simp: up_to_date_def require_entry_def split: option.splits)
qed

lemma current_deliver_schedule:
  assumes "inbox_readable (iw_store w)" "up_to_date w k (rf_current fl)" "t \<le> t'" "valid_utc t'"
    and "record_delivery h (iw_store w) k attempt (utc_stamp t') fl = Inr (e, s')"
    and "on_schedule t n (row_of (iw_store w) k)"
  shows "on_schedule t n (row_of s' k)"
proof -
  obtain entry where entry: "require_entry h (iw_store w) k (rf_current fl) = Inr entry"
    using assms(5) by (auto simp: record_delivery_def rbind_eq_Inr_iff)
  have row: "row_of (iw_store w) k = Some entry" by (rule up_to_date_row [OF assms(2) entry])
  note id = row_of_id [OF row]
  show ?thesis
  proof (cases "da_landed attempt \<and> ar_delivery_state (da_adapter attempt) = Some AdAccepted \<and> e_state entry = Pending")
    case True
    then obtain r where "inbox_transition h (iw_store w) k (land_latest attempt (utc_stamp t')) = Inr (r, s')"
      using assms(5) entry by (auto simp: record_delivery_def rbind_eq_Inr_iff)
    then show ?thesis
      by (rule on_schedule_transition [OF assms(1) _ assms(6)])
        (auto simp: land_latest_def delivery_evidence_def Let_def split: if_splits)
  next
    case False
    then obtain st where app: "inbox_append h (iw_store w) e = Inr s'"
      and e: "e = (delivery_evidence attempt (utc_stamp t') entry)\<lparr>e_nextAttemptAt := st\<rparr>"
      using assms(5) entry by (auto simp: record_delivery_def rbind_eq_Inr_iff Let_def)
    have fields: "e_id e = k" "e_state e = e_state entry" by (simp_all add: e delivery_evidence_def Let_def id)
    have "paced t n e" if pend: "e_state e = Pending"
    proof -
      note rec = record_delivery_pending [OF assms(5) pend assms(4)]
      have count: "n \<le> e_attemptCount e" using rec(3) entry assms(6) row pend fields by (auto simp: paced_def)
      then show ?thesis
        using rec(1,2) assms(3,4) backoff_mono [OF count] unfolding paced_def by fastforce
    qed
    then show ?thesis using on_schedule_append [OF assms(1) app fields(1) assms(6)] by blast
  qed
qed

lemma current_touch_schedule:
  assumes "current_touch k t w w'" "inbox_readable (iw_store w)" "on_schedule t n (row_of (iw_store w) k)"
  shows "on_schedule t n (row_of (iw_store w') k)"
proof -
  note transition = on_schedule_transition [OF assms(2) _ assms(3)]
  have mark: "on_schedule t n (row_of s' k)"
    if "inbox_transition h (iw_store w) k (pending_only f) = Inr (r, s')"
      "\<And>e. e_id (f e) = e_id e \<and> e_state (f e) \<noteq> Pending" for h f r s'
    using that(2) by (intro transition [OF that(1)]) (auto simp: pending_only_def split: if_splits)
  show ?thesis
    using assms(1)
  proof cases
    case (ct_deliver fl t' h attempt e s')
    then show ?thesis using current_deliver_schedule [OF assms(2) ct_deliver(2-5) assms(3)] by simp
  next
    case (ct_landed h now reason r s')
    then show ?thesis
      using mark [of h "terminal_mark Landed now reason" r s'] by (simp add: mark_landed_def terminal_mark_def)
  next
    case (ct_superseded h now reason sb r s')
    then show ?thesis
      using mark [of h "\<lambda>e. (terminal_mark Superseded now reason e)\<lparr>e_supersededBy := sb\<rparr>" r s']
      by (simp add: mark_superseded_def terminal_mark_def)
  next
    case (ct_unresolved h now reason r s')
    then show ?thesis
      using mark [of h "terminal_mark Unresolved now reason" r s'] by (simp add: mark_unresolved_def terminal_mark_def)
  next
    case (ct_expired h now opts r s')
    then show ?thesis
      using mark [of h _ r s', OF ct_expired(2) [unfolded mark_expired_def expiry_transition_def]]
      by (simp add: terminal_mark_def readdress_def split: option.splits)
  next
    case (ct_consume h now by' via r s')
    have "on_schedule t n (row_of s' k)"
      by (rule transition [OF ct_consume(2) [unfolded inbox_consume_transition]])
        (auto simp: consume_operator_inbox_entry_def pacing_def split: if_splits)
    then show ?thesis using ct_consume(1) by simp
  next
    case (ct_complete current h c now e s')
    then obtain entry where entry: "require_entry h (iw_store w) k current = Inr entry"
      and app: "inbox_append h (iw_store w) (completed c now entry) = Inr s'"
      by (auto simp: record_adapter_completion_def rbind_eq_Inr_iff Let_def)
    note row = up_to_date_row [OF ct_complete(2) entry]
    have same: "pacing (completed c now entry) = pacing entry" by (simp add: completed_def pacing_def)
    have "e_id (completed c now entry) = k" "e_state (completed c now entry) = e_state entry"
      using row_of_id [OF row] by (simp_all add: completed_def)
    then show ?thesis
      using on_schedule_append [OF assms(2) app _ assms(3)] assms(3) row paced_pacing [OF same] ct_complete(1) by simp
  next
    case (ct_renew current h rn now e s')
    then obtain entry where entry: "require_entry h (iw_store w) k current = Inr entry"
      and eff: "s' = iw_store w \<or> inbox_append h (iw_store w) (renewed rn now entry) = Inr s'"
      by (auto simp: renew_def rbind_eq_Inr_iff Let_def split: if_splits)
    note row = up_to_date_row [OF ct_renew(2) entry]
    have same: "pacing (renewed rn now entry) = pacing entry"
      by (simp add: renewed_def readdress_def pacing_def Let_def split: option.splits)
    show ?thesis
      using eff on_schedule_append [OF assms(2) _ _ assms(3), of h "renewed rn now entry" s'] assms(3) row
        row_of_id [OF row] paced_pacing [OF same] ct_renew(1) by auto
  qed
qed

lemma paced_step_schedule:
  assumes "paced_step k t w ev w'" "spares k ev" "coherent k g w \<and> on_schedule t n (row_of (iw_store w) k)"
  shows "coherent k g w' \<and> on_schedule t n (row_of (iw_store w') k)"
proof
  have step: "inbox_step w ev w'" and touch: "ev = Touch k \<Longrightarrow> current_touch k t w w'"
    using assms(1) by (auto simp: paced_step_def)
  show "coherent k g w'" using keeps_step [OF step assms(2)] assms(3) by (simp add: keeps_def)
  show "on_schedule t n (row_of (iw_store w') k)"
  proof (cases "ev = Touch k")
    case True
    then show ?thesis using current_touch_schedule [OF touch] coherent_readable assms(3) by blast
  next
    case False
    then show ?thesis using on_schedule_pacing [OF other_step_pacing [OF step assms(2)]] assms(3) by blast
  qed
qed

interpretation inbox_paced: preserved "paced_step k t" "spares k"
    "\<lambda>w. coherent k g w \<and> on_schedule t n (row_of (iw_store w) k)" for k t g n
  by unfold_locales (rule paced_step_schedule)

text \<open>A delivery attempt that leaves its row pending puts it on the schedule.\<close>

lemma record_delivery_schedule:
  assumes "coherent k g w" "known w (rf_current fl)"
    and "record_delivery h (iw_store w) k attempt (utc_stamp t) fl = Inr (e, s')" "e_state e = Pending" "valid_utc t"
  shows "on_schedule t (e_attemptCount e) (row_of s' k)"
proof -
  note rec = record_delivery_pending [OF assms(3-5)]
  obtain entry where entry: "require_entry h (iw_store w) k (rf_current fl) = Inr entry"
    and app: "inbox_append h (iw_store w) e = Inr s'" "e_id e = e_id entry"
    using rec(3) by blast
  have id: "e_id e = k" using coherent_known(1) [OF assms(1,2) entry] app(2) by simp
  have paced: "paced t (e_attemptCount e) e" using rec(1,2) assms(5) by (auto simp: paced_def)
  obtain v where v: "validated e = Inr v" "s' = (iw_store w)\<lparr>ib_log := log_append (ib_log (iw_store w)) v\<rparr>"
    using inbox_append_Inr [OF app(1)] by blast
  have "paced t (e_attemptCount e) v" using paced paced_pacing validated_pacing [OF v(1)] by blast
  moreover have "row_state (iw_store w) k \<noteq> None" using assms(1) by (simp add: coherent_def)
  ultimately show ?thesis
    using row_of_append [OF coherent_readable [OF assms(1)] v(1), of k] id
    by (auto simp: v(2) row_state_row_of)
qed

lemma list_redeliverable_due:
  assumes "list_redeliverable h s now rate None = Inr es" "x \<in> set es"
  shows "row_of s (e_id x) = Some x" and "is_due x now = Inr True" and "\<exists>r. is_rate_limited x now r = Inr False"
proof -
  obtain rs r where rs: "inbox_read_unlocked s = Inr rs"
    and es: "es = filter (\<lambda>x. may_redeliver now r x = Inr True)
       (filter (\<lambda>e. e_state e = Pending) (dict_values (fold_operator_inbox_entries rs)))"
    using assms(1)
    by (auto simp: list_redeliverable_def redeliverable_def inbox_current_def inbox_read_def inbox_exclusive_Inr
        rbind_eq_Inr_iff simp del: filter_filter dest!: filter_result_Inr)
  then have "x \<in> set (dict_values (fold_operator_inbox_entries rs))" "may_redeliver now r x = Inr True"
    using assms(2) by auto
  then show "row_of s (e_id x) = Some x" "is_due x now = Inr True" "\<exists>r. is_rate_limited x now r = Inr False"
    using inbox_fold_values [of x rs] row_of_Inr [OF rs] may_redeliver_True [of now r x] by auto
qed

text \<open>C4. No redelivery is faster than the floor. Once an attempt was recorded at \<open>t\<close> and left its
  row pending, no sweep that reads the log selects the row before fifteen minutes and the backoff
  of its attempt count have passed since \<open>t\<close>, whatever rate limit the sweep asks for. This holds
  along any run of the processes, as long as nobody rebinds the row (which restarts its schedule
  by design), writes it from a reading older than its last change, posts its id again or removes
  it: other rows may be written from any stale reading, and this one consumed, renewed, completed,
  attempted again or brought to an end.\<close>

theorem redelivery_respects_floor:
  assumes "coherent k g w0" "known w0 (rf_current fl)"
    and "record_delivery h (iw_store w0) k attempt (utc_stamp t) fl = Inr (e, s1)" "e_state e = Pending" "valid_utc t"
    and "run (paced_step k t) (w0\<lparr>iw_store := s1\<rparr>) evs w2" "\<forall>ev \<in> set evs. spares k ev"
    and "list_redeliverable h' (iw_store w2) now rate None = Inr es" "x \<in> set es" "e_id x = k"
  shows "MIN_REDELIVERY_INTERVAL \<le> now - t \<and> backoff_for_attempt (e_attemptCount e) \<le> now - t"
proof -
  note due = list_redeliverable_due [OF assms(8,9)]
  have "coherent k g (w0\<lparr>iw_store := s1\<rparr>)" using keeps_deliver [OF assms(1-3)] by (simp add: keeps_def)
  then have "on_schedule t (e_attemptCount e) (row_of (iw_store w2) k)"
    using inbox_paced.run_inv [OF assms(6)] assms(7) record_delivery_schedule [OF assms(1-5)] by simp
  then have "paced t (e_attemptCount e) x" using due(1) is_due_pending [OF due(2)] assms(10) by simp
  then show ?thesis
    using is_due_stamp [OF _ _ due(2)] not_rate_limited_stamp [of x _ now] due(3) unfolding paced_def by fastforce
qed

definition delivered_once :: inbox_entry where
  "delivered_once = (delivery_evidence (sample_attempt False) (utc_stamp 0) sample_entry)
     \<lparr>e_nextAttemptAt := Some (utc_stamp (900 * second))\<rparr>"

lemma sample_entry_fields [simp]:
  "e_attemptCount sample_entry = 0" "e_state sample_entry = Pending" "e_id sample_entry = ''E1''"
  by code_simp+

lemma sample_next_attempt: "next_attempt_at (utc_dt 0) 1 None = Inr (utc_stamp (900 * second))"
  by (simp add: next_attempt_at_def require_redelivery_floor_def MIN_REDELIVERY_INTERVAL_def
      backoff_for_attempt_def BACKOFF_SCHEDULE_def dt_add_def utc_dt_def utc_stamp_def)

lemma delivered_once_fields [simp]:
  "e_id delivered_once = ''E1''" "e_consumedAt delivered_once = None" "e_state delivered_once = Pending" "e_lastAttemptAt delivered_once = Some (utc_stamp 0)"
  "e_nextAttemptAt delivered_once = Some (utc_stamp (900 * second))"
  by (simp_all add: delivered_once_def delivery_evidence_def Let_def) code_simp

lemma sample_inbox_writer [simp]: "check_declared_writer sample_host OPERATOR_INBOX_OWNERSHIP = Inr ()"
  by code_simp

lemma delivered_once_validated [simp]: "validated delivered_once = Inr delivered_once"
  by (simp add: validated_def validated_ref_def version_ok_def delivered_once_def delivery_evidence_def Let_def)
    (code_simp)

definition delivered_store :: inbox_store where
  "delivered_store = sample_inbox [sample_entry, delivered_once]"

definition consumed_once :: inbox_entry where
  "consumed_once = delivered_once\<lparr>e_ts := ''t1'', e_consumedAt := Some ''t1'', e_consumedBy := Some ''model'',
     e_consumedVia := Some In_cli\<rparr>"

definition consumed_after_delivery :: inbox_store where
  "consumed_after_delivery = sample_inbox [sample_entry, delivered_once, consumed_once]"

lemma sample_inbox_lockable [simp]: "lockable sample_host (inbox_log_path (sample_inbox es))"
  by (simp add: inbox_log_path_def sample_inbox_def)

lemma sample_inbox_append:
  "validated e = Inr e \<Longrightarrow>
   inbox_append_unlocked (locked sample_host (inbox_log_path (sample_inbox es))) (sample_inbox es) e
     = Inr (sample_inbox (es @ [e]))"
  by (simp add: inbox_append_unlocked_def) (simp add: sample_inbox_def)

lemma delivered_once_recorded:
  "record_delivery sample_host (sample_inbox [sample_entry]) ''E1'' (sample_attempt False) (utc_stamp 0) stale_floor
     = Inr (delivered_once, delivered_store)"
proof -
  have "inbox_append sample_host (sample_inbox [sample_entry]) delivered_once = Inr delivered_store"
    using sample_inbox_writer
    by (simp add: inbox_append_def inbox_exclusive_def exclusive_access_lockable sample_inbox_append delivered_store_def)
  moreover have "\<not> da_landed (sample_attempt False)" by (simp add: sample_attempt_def)
  ultimately show ?thesis
    by (simp add: record_delivery_def require_entry_def stale_floor_def valid_utc_def Let_def
        sample_next_attempt delivered_once_def)
qed

lemma sample_inbox_read:
  assumes "\<And>e. e \<in> set es \<Longrightarrow> version_ok e"
  shows "inbox_read_unlocked (sample_inbox es) = Inr es"
  using strict.read_rewrite [of es None] assms by (simp add: inbox_read_unlocked_def sample_inbox_def log_rewrite_def)

lemma sample_versions [simp]: "version_ok sample_entry" "version_ok delivered_once" "version_ok consumed_once"
  using validated_fields(1) [OF delivered_once_validated] by (code_simp, simp_all add: consumed_once_def version_ok_def)

lemma delivered_once_consumed:
  "inbox_consume sample_host delivered_store ''E1'' ''t1'' ''model'' In_cli
     = Inr ((consumed_once, True), consumed_after_delivery)"
proof -
  have "inbox_read_unlocked delivered_store = Inr [sample_entry, delivered_once]"
    unfolding delivered_store_def by (rule sample_inbox_read) auto
  moreover have "map_of (fold_operator_inbox_entries [sample_entry, delivered_once]) ''E1'' = Some delivered_once"
    by (simp add: lookup_inbox_fold inbox_view_def)
  moreover have "validated consumed_once = Inr consumed_once"
    by (simp add: validated_def validated_ref_def version_ok_def consumed_once_def delivered_once_def
        delivery_evidence_def Let_def) (code_simp)
  ultimately show ?thesis
    by (simp add: inbox_consume_def inbox_exclusive_def exclusive_access_lockable consume_operator_inbox_entry_def
        sample_inbox_append delivered_store_def consumed_after_delivery_def flip: consumed_once_def)
qed

lemma consumed_once_fields [simp]:
  "e_id consumed_once = ''E1''" "e_state consumed_once = Pending" "e_lastAttemptAt consumed_once = Some (utc_stamp 0)"
  "e_nextAttemptAt consumed_once = Some (utc_stamp (900 * second))" "e_deliveryState consumed_once = Delivered"
  using delivered_once_fields
  by (simp_all add: consumed_once_def delivered_once_def delivery_evidence_def sample_attempt_def Let_def)

lemma consumed_once_redeliverable:
  "list_redeliverable sample_host consumed_after_delivery (1000 * second) None None = Inr [consumed_once]"
proof -
  have "inbox_read_unlocked consumed_after_delivery = Inr [sample_entry, delivered_once, consumed_once]"
    unfolding consumed_after_delivery_def by (rule sample_inbox_read) auto
  moreover have "dict_values (fold_operator_inbox_entries [sample_entry, delivered_once, consumed_once]) = [consumed_once]"
    by (simp add: fold_operator_inbox_entries_def inbox_fold_step_def)
  ultimately show ?thesis
    by (simp add: list_redeliverable_def inbox_current_def inbox_read_def inbox_exclusive_def exclusive_access_lockable
      consumed_after_delivery_def
      redeliverable_def may_redeliver_def is_ladder_resolved_def is_due_def
      is_rate_limited_def require_redelivery_floor_def MIN_REDELIVERY_INTERVAL_def valid_utc_def)
qed

theorem redelivery_respects_floor_witness:
  "MIN_REDELIVERY_INTERVAL \<le> 1000 * second - 0 \<and> backoff_for_attempt (e_attemptCount delivered_once) \<le> 1000 * second - 0"
proof (rule redelivery_respects_floor [OF sample_coherent])
  show "known sample_world (rf_current stale_floor)" by code_simp
  show "record_delivery sample_host (iw_store sample_world) ''E1'' (sample_attempt False) (utc_stamp 0) stale_floor
      = Inr (delivered_once, delivered_store)"
    using delivered_once_recorded by (simp add: sample_world_def)
  have c: "inbox_consume sample_host (iw_store (sample_world\<lparr>iw_store := delivered_store\<rparr>)) ''E1'' ''t1'' ''model'' In_cli
      = Inr ((consumed_once, True), consumed_after_delivery)"
    using delivered_once_consumed by simp
  show "run (paced_step ''E1'' 0) (sample_world\<lparr>iw_store := delivered_store\<rparr>) [Touch ''E1'']
      (sample_world\<lparr>iw_store := consumed_after_delivery\<rparr>)"
    using i_consume [OF c] ct_consume [OF c, of 0] by (simp add: paced_step_def)
  show "list_redeliverable sample_host (iw_store (sample_world\<lparr>iw_store := consumed_after_delivery\<rparr>)) (1000 * second) None None
      = Inr [consumed_once]"
    using consumed_once_redeliverable by simp
  show "e_id consumed_once = ''E1''" by (rule consumed_once_fields(1))
qed (simp_all add: valid_utc_def)

text \<open>A row lands exactly when it should: recording a delivery for a pending row makes it
  landed if the attempt was at a turn boundary and the adapter's receipt says accepted, and leaves
  it pending otherwise (a delivered or queued payload is not a landing); a landed row has no
  further attempt scheduled.\<close>

lemma record_delivery_lands_iff:
  assumes "record_delivery h s i attempt now fl = Inr (e, s')" "rf_current fl = None"
    and "row_state s i = Some Pending"
  shows "row_state s' i = Some (if da_landed attempt \<and> ar_delivery_state (da_adapter attempt) = Some AdAccepted
           then Landed else Pending)
    \<and> (row_state s' i = Some Landed \<longrightarrow> e_nextAttemptAt e = None \<and> e_state e = Landed)"
proof -
  obtain es where es: "inbox_read_unlocked s = Inr es"
    using assms(3) by (auto simp: row_state_def split: sum.splits)
  then obtain p where p: "inbox_view es i = Some p" "e_state p = Pending"
    using assms(3) by (auto simp: row_state_Inr)
  note p_id = inbox_view_mem [OF p(1)]
  have rd: "inbox_readable s" using es by (simp add: inbox_readable_def)
  obtain entry where entry: "require_entry h s i None = Inr entry"
    using assms(1,2) by (auto simp: record_delivery_def rbind_eq_Inr_iff)
  have ep: "entry = p"
    using entry es p(1)
    by (auto simp: require_entry_def inbox_current_def inbox_read_def inbox_exclusive_Inr rbind_eq_Inr_iff
        lookup_inbox_fold)
  show ?thesis
  proof (cases "da_landed attempt \<and> ar_delivery_state (da_adapter attempt) = Some AdAccepted")
    case True
    then obtain b where tr: "inbox_transition h s i (land_latest attempt now) = Inr ((e, b), s')"
      using assms(1,2) entry ep p(2) by (auto simp: record_delivery_def rbind_eq_Inr_iff)
    let ?u = "(delivery_evidence attempt now p)\<lparr>e_state := Landed, e_terminalAt := Some now,
        e_terminalReason := Some ''adapter-accepted-at-turn-boundary'', e_nextAttemptAt := None\<rparr>"
    obtain v where v: "e = ?u" "validated ?u = Inr v" "s' = s\<lparr>ib_log := log_append (ib_log s) v\<rparr>"
      using inbox_transition_Inr [OF tr] es p by (auto simp: land_latest_def)
    then show ?thesis
      using row_state_append(2) [OF rd v(2,3), of i] assms(3) p_id True
      by (simp add: overwrite_def delivery_evidence_def Let_def)
  next
    case False
    then obtain st where "inbox_append h s ((delivery_evidence attempt now p)\<lparr>e_nextAttemptAt := st\<rparr>) = Inr s'"
      using assms(1,2) entry ep by (auto simp: record_delivery_def rbind_eq_Inr_iff Let_def)
    then obtain v where v: "validated ((delivery_evidence attempt now p)\<lparr>e_nextAttemptAt := st\<rparr>) = Inr v"
      "s' = s\<lparr>ib_log := log_append (ib_log s) v\<rparr>" using inbox_append_Inr by blast
    then show ?thesis
      using row_state_append(2) [OF rd v, of i] assms(3) p_id False p(2)
      by (auto simp: overwrite_def delivery_evidence_def Let_def)
  qed
qed

lemma record_delivery_lands_iff_witness:
  "\<exists>e s'. record_delivery sample_host (sample_inbox [sample_entry]) ''E1'' (sample_attempt True) ''t0''
      (stale_floor\<lparr>rf_current := None\<rparr>) = Inr (e, s') \<and> row_state s' ''E1'' = Some Landed"
proof -
  let ?r = "record_delivery sample_host (sample_inbox [sample_entry]) ''E1'' (sample_attempt True) ''t0''
      (stale_floor\<lparr>rf_current := None\<rparr>)"
  have "(case ?r of Inl _ \<Rightarrow> False | Inr _ \<Rightarrow> True)" by code_simp
  then obtain e s' where r: "?r = Inr (e, s')" by (auto split: sum.splits)
  have "row_state (sample_inbox [sample_entry]) ''E1'' = Some Pending" by code_simp
  then show ?thesis using record_delivery_lands_iff [OF r] r by (auto simp: stale_floor_def sample_attempt_def)
qed

section \<open>Compaction\<close>

lemma row_state_compact:
  assumes "inbox_compact h s now reg = Inr (n, s')" "inbox_read_unlocked s = Inr es"
  shows "row_state s' k = (if k \<in> compaction_keep now reg (fold_operator_inbox_entries es)
           then row_state s k else None)"
proof -
  let ?keep = "compaction_keep now reg (fold_operator_inbox_entries es)"
  have "map_option e_state (inbox_view (filter (\<lambda>e. e_id e \<in> ?keep) es) k) =
      (if k \<in> ?keep then row_state s k else None)"
    using inbox_view_filter [of "\<lambda>j. j \<in> ?keep" es k] row_state_Inr [OF assms(2), of k] by simp
  moreover have "row_state s' k = map_option e_state (inbox_view (filter (\<lambda>e. e_id e \<in> ?keep) es) k)"
    using inbox_compact_Inr [OF assms(1)] assms(2) row_state_Inr [OF assms(2), of k]
    by (auto simp: row_state_replace(2))
  ultimately show ?thesis by simp
qed

text \<open>The candidates of a compaction, and which of them are protected.\<close>

definition compaction_candidates :: "utc \<Rightarrow> string set \<Rightarrow> inbox_entry list \<Rightarrow> inbox_entry list" where
  "compaction_candidates now reg es = filter (\<lambda>e. unregistered_execution_report reg e \<or> keep_inbox_entry now e)
     (dict_values (fold_operator_inbox_entries es))"

lemma protected_iff:
  assumes "e \<in> set (dict_values (fold_operator_inbox_entries es))"
  shows "e_id e \<in> unregistered_execution_report_ids (fold_operator_inbox_entries es) reg
     \<longleftrightarrow> unregistered_execution_report reg e"
proof -
  have "x = e" if "x \<in> set (dict_values (fold_operator_inbox_entries es))" "e_id x = e_id e" for x
    using that assms unfolding inbox_fold_values by simp
  then show ?thesis using assms by (force simp: unregistered_execution_report_ids_def)
qed

lemma compaction_keep_cap:
  "compaction_keep now reg (fold_operator_inbox_entries es) =
     set (map e_id (inbox_cap (compaction_candidates now reg es) INBOX_MAX_CURRENT_ROWS
       (unregistered_execution_report_ids (fold_operator_inbox_entries es) reg)))"
proof -
  have "filter (\<lambda>e. e_id e \<in> unregistered_execution_report_ids (fold_operator_inbox_entries es) reg
      \<or> keep_inbox_entry now e) (dict_values (fold_operator_inbox_entries es)) = compaction_candidates now reg es"
    unfolding compaction_candidates_def by (rule filter_cong) (auto simp: protected_iff simp del: set_map)
  then show ?thesis by (simp add: compaction_keep_def inbox_keep_ids_def Let_def)
qed

lemma compaction_kept_entry:
  assumes "inbox_view es k = Some e"
  shows "k \<in> compaction_keep now reg (fold_operator_inbox_entries es) \<longleftrightarrow>
     e \<in> set (inbox_cap (compaction_candidates now reg es) INBOX_MAX_CURRENT_ROWS
       (unregistered_execution_report_ids (fold_operator_inbox_entries es) reg))"
proof -
  have k: "e_id e = k" using inbox_view_mem [OF assms] by simp
  have "x = e" if "x \<in> set (inbox_cap (compaction_candidates now reg es) INBOX_MAX_CURRENT_ROWS
       (unregistered_execution_report_ids (fold_operator_inbox_entries es) reg))" "e_id x = k" for x
  proof -
    have "x \<in> set (dict_values (fold_operator_inbox_entries es))"
      using that(1) inbox_cap_subset by (fastforce simp: compaction_candidates_def)
    then show ?thesis using that(2) assms unfolding inbox_fold_values by simp
  qed
  then show ?thesis unfolding compaction_keep_cap using k by auto
qed

text \<open>A cap that leaves a candidate out is full, and it holds no row twice.\<close>

lemma inbox_cap_full:
  assumes "e \<in> set kept" "e \<notin> set (inbox_cap kept m prot)"
  shows "m \<le> length (inbox_cap kept m prot)"
proof -
  let ?P = "filter (\<lambda>e. e_id e \<in> prot) kept" and ?N = "filter (\<lambda>e. e_id e \<notin> prot \<and> e_state e = Pending) kept"
    and ?T = "filter (\<lambda>e. e_id e \<notin> prot \<and> e_state e \<noteq> Pending) kept"
  have over: "length kept > m" using assms by (auto simp: inbox_cap_def split: if_splits)
  have "length kept = length ?P + (length ?N + length ?T)" by (induction kept) auto
  moreover have "length (inbox_cap kept m prot) = length ?P +
      (min (length ?N) (m - length ?P) + min (length ?T) (m - length ?P - length ?N))"
    using over by (auto simp: inbox_cap_def Let_def)
  ultimately show ?thesis using over by arith
qed

lemma distinct_inbox_cap: "distinct kept \<Longrightarrow> distinct (inbox_cap kept m prot)"
  by (auto simp: inbox_cap_def Let_def dest!: in_set_takeD)

lemma distinct_fold_values: "distinct (dict_values (fold_operator_inbox_entries es))"
proof -
  let ?d = "fold_operator_inbox_entries es"
  have keys: "e_id (snd p) = fst p" if "p \<in> set ?d" for p
    using that inbox_view_mem [of es "fst p" "snd p"] map_of_is_SomeI [OF dict_wf_inbox_fold, of "fst p" "snd p" es]
      lookup_inbox_fold [of es "fst p"] by simp
  have "map e_id (dict_values ?d) = map fst ?d" using keys by simp
  then show ?thesis by (metis dict_wf_inbox_fold distinct_map)
qed

lemma compaction_rows_stay:
  assumes "inbox_compact h s now reg = Inr (n, s')" "inbox_read_unlocked s = Inr es"
  shows "length (inbox_cap (compaction_candidates now reg es) INBOX_MAX_CURRENT_ROWS
      (unregistered_execution_report_ids (fold_operator_inbox_entries es) reg)) \<le> card (row_ids s')"
    (is "length ?cap \<le> _")
proof -
  have rows: "x \<in> set (dict_values (fold_operator_inbox_entries es))" if "x \<in> set ?cap" for x
    using that inbox_cap_subset by (fastforce simp: compaction_candidates_def)
  have "e_id x \<in> row_ids s'" if "x \<in> set ?cap" for x
  proof -
    have v: "inbox_view es (e_id x) = Some x" using rows [OF that] inbox_fold_values by metis
    then show ?thesis
      using that compaction_kept_entry [OF v]
      by (simp add: row_ids_def row_state_compact [OF assms] row_state_Inr [OF assms(2)])
  qed
  moreover have "inj_on e_id (set ?cap)" using rows inbox_fold_values by (metis inj_onI option.inject)
  moreover have "distinct ?cap"
    using distinct_inbox_cap distinct_fold_values by (simp add: compaction_candidates_def)
  moreover have "row_ids s' \<subseteq> set (map e_id ?cap)"
    by (auto simp: row_ids_def row_state_compact [OF assms] compaction_keep_cap split: if_splits)
  then have "finite (row_ids s')" by (rule finite_subset) simp
  ultimately show ?thesis by (metis card_image card_mono distinct_card image_subsetI)
qed

text \<open>C9. What a compaction of the inbox keeps. A task-bound turn report that is not registered
  yet survives in its state, whatever its age. At most 500 rows are left, or as many as are
  protected if those alone are more. A pending row, and any other row inside its retention time,
  goes only under the cap: at least 500 rows stay. If a pending row goes, every unprotected row
  that stays is itself pending and was created no earlier.\<close>

theorem inbox_compact_retention:
  assumes "inbox_compact h s now reg = Inr (n, s')" "inbox_read_unlocked s = Inr es"
  shows "(\<forall>k e. inbox_view es k = Some e \<and> unregistered_execution_report reg e \<longrightarrow> row_state s' k = Some (e_state e))
    \<and> card (row_ids s') \<le> max INBOX_MAX_CURRENT_ROWS
         (length (filter (unregistered_execution_report reg) (dict_values (fold_operator_inbox_entries es))))
    \<and> (\<forall>k p. inbox_view es k = Some p \<and> (e_state p = Pending \<or> keep_inbox_entry now p)
         \<and> row_state s' k = None \<longrightarrow> INBOX_MAX_CURRENT_ROWS \<le> card (row_ids s'))
    \<and> (\<forall>k p j e. inbox_view es k = Some p \<and> e_state p = Pending \<and> row_state s' k = None
         \<and> inbox_view es j = Some e \<and> \<not> unregistered_execution_report reg e \<and> row_state s' j \<noteq> None
         \<longrightarrow> e_state e = Pending \<and> e_createdAt p \<le> e_createdAt e)"
proof (intro conjI allI impI; (elim conjE)?)
  let ?vals = "dict_values (fold_operator_inbox_entries es)"
  let ?prot = "unregistered_execution_report_ids (fold_operator_inbox_entries es) reg"
  let ?cand = "compaction_candidates now reg es"
  let ?cap = "inbox_cap ?cand INBOX_MAX_CURRENT_ROWS ?prot"
  note st = row_state_compact [OF assms]
  have val: "inbox_view es k = Some e \<Longrightarrow> e \<in> set ?vals \<and> e_id e = k" for k e
    using inbox_view_mem [of es k e] inbox_fold_values [of e es] by auto
  show "row_state s' k = Some (e_state e)"
    if e: "inbox_view es k = Some e" and u: "unregistered_execution_report reg e" for k e
  proof -
    have "e \<in> set ?cand" "e_id e \<in> ?prot"
      using val [OF e] u protected_iff [of e es reg] by (auto simp: compaction_candidates_def)
    then have "e \<in> set ?cap" by (rule inbox_cap_protected)
    then show ?thesis using e by (simp add: st compaction_kept_entry [OF e] row_state_Inr [OF assms(2)])
  qed
  have "filter (\<lambda>e. e_id e \<in> ?prot) ?cand = filter (unregistered_execution_report reg) ?vals"
    unfolding compaction_candidates_def filter_filter
    by (rule filter_cong) (auto simp: protected_iff simp del: set_map)
  then have "length ?cap \<le> max INBOX_MAX_CURRENT_ROWS (length (filter (unregistered_execution_report reg) ?vals))"
    using inbox_cap_length [of ?cand INBOX_MAX_CURRENT_ROWS ?prot] by simp
  moreover have "row_ids s' \<subseteq> set (map e_id ?cap)"
    by (auto simp: row_ids_def st compaction_keep_cap split: if_splits)
  then have "card (row_ids s') \<le> length ?cap"
    by (metis List.finite_set card_length card_mono le_trans length_map)
  ultimately show "card (row_ids s') \<le> max INBOX_MAX_CURRENT_ROWS
      (length (filter (unregistered_execution_report reg) ?vals))" by simp
  have card_cap: "length ?cap \<le> card (row_ids s')" by (rule compaction_rows_stay [OF assms])
  have out: "p \<in> set ?cand \<and> p \<notin> set ?cap"
    if "inbox_view es k = Some p" "e_state p = Pending \<or> keep_inbox_entry now p" "row_state s' k = None" for k p
  proof
    show "p \<in> set ?cand"
      using val [OF that(1)] that(2) by (auto simp: compaction_candidates_def keep_inbox_entry_def)
    show "p \<notin> set ?cap"
      using that by (simp add: st row_state_Inr [OF assms(2)] compaction_kept_entry [OF that(1)] split: if_splits)
  qed
  show "INBOX_MAX_CURRENT_ROWS \<le> card (row_ids s')"
    if "inbox_view es k = Some p" "e_state p = Pending \<or> keep_inbox_entry now p" "row_state s' k = None" for k p
    using out [OF that] inbox_cap_full [of p ?cand INBOX_MAX_CURRENT_ROWS ?prot] card_cap by simp
  fix k p j e
  assume p: "inbox_view es k = Some p" "e_state p = Pending" "row_state s' k = None"
    and e: "inbox_view es j = Some e" "\<not> unregistered_execution_report reg e" "row_state s' j \<noteq> None"
  have "p \<in> set ?cand" "p \<notin> set ?cap" using out [OF p(1) _ p(3)] p(2) by auto
  moreover have "e \<in> set ?cap" using e(3) by (auto simp: st compaction_kept_entry [OF e(1)] split: if_splits)
  moreover have "e_id e \<notin> ?prot" using val [OF e(1)] e(2) protected_iff by blast
  ultimately show "e_state e = Pending" "e_createdAt p \<le> e_createdAt e"
    using inbox_cap_evicts [of p ?cand INBOX_MAX_CURRENT_ROWS ?prot e] p(2) by auto
qed

theorem inbox_compact_retention_witness:
  "row_ids (sample_inbox [sample_entry]) = {''E1''} \<and> card (row_ids (sample_inbox [sample_entry])) \<le> 500"
proof -
  have c: "inbox_compact sample_host (sample_inbox [sample_entry]) 0 {} = Inr (0, sample_inbox [sample_entry])"
    by code_simp
  have r: "inbox_read_unlocked (sample_inbox [sample_entry]) = Inr [sample_entry]" by code_simp
  have "card (row_ids (sample_inbox [sample_entry])) \<le> max INBOX_MAX_CURRENT_ROWS
      (length (filter (unregistered_execution_report {}) (dict_values (fold_operator_inbox_entries [sample_entry]))))"
    using inbox_compact_retention [OF c r] by blast
  moreover have "length (filter (unregistered_execution_report {}) (dict_values (fold_operator_inbox_entries [sample_entry]))) = 0"
    by code_simp
  moreover have "row_ids (sample_inbox [sample_entry]) = {''E1''}"
    by (auto simp: row_ids_def row_state_Inr [OF r] inbox_view_def)
  ultimately show ?thesis by (simp add: INBOX_MAX_CURRENT_ROWS_def)
qed

section \<open>Batches\<close>

text \<open>The batch of transitions as one lock-held transition after the other.\<close>

fun transition_each :: "host \<Rightarrow> inbox_store \<Rightarrow> (string \<times> row_transition) list \<Rightarrow> inbox_store result" where
  "transition_each h s [] = Inr s"
| "transition_each h s ((i, tr) # rest) =
     rbind (inbox_transition h s i tr) (\<lambda>(_, s'). transition_each h s' rest)"

definition with_rows :: "inbox_store \<Rightarrow> inbox_entry list \<Rightarrow> inbox_store" where
  "with_rows s app = (if app = [] then s else s\<lparr>ib_log := Some (read_log_text (ib_log s) @ map Row app)\<rparr>)"

lemma transition_loop_each:
  assumes "transition_loop ts (fold_operator_inbox_entries es) = Inr (res, app)"
    and "\<forall>t \<in> set ts. proper (snd t)"
    and "inbox_read_unlocked s = Inr es" "lockable h (inbox_log_path s)"
  shows "transition_each h s ts = Inr (with_rows s app)"
  using assms
proof (induction ts arbitrary: es s res app)
  case Nil
  then show ?case by (simp add: with_rows_def)
next
  case (Cons t ts)
  obtain i tr where t: "t = (i, tr)" by (cases t)
  obtain entry where entry: "inbox_view es i = Some entry"
    using Cons.prems(1) by (auto simp: t lookup_inbox_fold split: option.splits)
  note id = inbox_view_mem [OF entry]
  show ?case
  proof (cases "tr entry")
    case None
    then obtain res' where "transition_loop ts (fold_operator_inbox_entries es) = Inr (res', app)"
      using Cons.prems(1) entry by (auto simp: t lookup_inbox_fold rbind_eq_Inr_iff)
    then have "transition_each h s ts = Inr (with_rows s app)"
      using Cons.IH [of es res' app s] Cons.prems by simp
    moreover have "inbox_transition h s i tr = Inr ((entry, False), s)"
      using Cons.prems(3,4) entry None
      by (simp add: inbox_transition_def inbox_exclusive_def exclusive_access_lockable lookup_inbox_fold)
    ultimately show ?thesis by (simp add: t)
  next
    case (Some u)
    then obtain v res' app' where v: "validated u = Inr v"
      and loop: "transition_loop ts (AList.update i v (fold_operator_inbox_entries es)) = Inr (res', app')"
      and app: "app = v # app'"
      using Cons.prems(1) entry by (auto simp: t lookup_inbox_fold rbind_eq_Inr_iff)
    have pend: "e_state entry = Pending" "e_id u = i"
      using Cons.prems(2) Some id by (auto simp: t proper_def)
    have "fold_operator_inbox_entries (es @ [v]) = AList.update i v (fold_operator_inbox_entries es)"
      using entry pend validated_fields(2) [OF v] by (simp add: inbox_fold_snoc inbox_fold_step_def lookup_inbox_fold)
    moreover let ?s = "s\<lparr>ib_log := log_append (ib_log s) v\<rparr>"
    have "inbox_read_unlocked ?s = Inr (es @ [v])" by (rule inbox_read_append [OF Cons.prems(3) v])
    moreover have path: "inbox_log_path ?s = inbox_log_path s" by (simp add: inbox_log_path_def)
    ultimately have each: "transition_each h ?s ts = Inr (with_rows ?s app')"
      using Cons.IH [of "es @ [v]" res' app' ?s] loop Cons.prems by (simp add: path)
    have "inbox_transition h s i tr = Inr ((u, True), ?s)"
      using Cons.prems(3,4) entry Some v
      by (simp add: inbox_transition_def inbox_exclusive_def exclusive_access_lockable lookup_inbox_fold
          inbox_append_unlocked_def log_append_def)
    then show ?thesis using each by (simp add: t app with_rows_def log_append_def)
  qed
qed

text \<open>C10. A batch is its transitions one by one: when \<open>transition_many\<close> succeeds on transitions
  that leave terminal rows alone (every transition of the code does), the log it leaves is the log
  that performing the transitions one after the other leaves, although it folds the log only
  once.\<close>

theorem transition_many_is_sequential:
  assumes "transition_many h s ts = Inr (res, s')" "\<And>i tr. (i, tr) \<in> set ts \<Longrightarrow> proper tr"
  shows "transition_each h s ts = Inr s'"
proof -
  obtain es app where "inbox_read_unlocked s = Inr es" "lockable h (inbox_log_path s)"
    and "transition_loop ts (fold_operator_inbox_entries es) = Inr (res, app)" and "s' = with_rows s app"
    using assms(1)
    by (auto simp: transition_many_def inbox_exclusive_Inr rbind_eq_Inr_iff with_rows_def)
  then show ?thesis using transition_loop_each assms(2) by (metis prod.collapse)
qed

theorem transition_many_is_sequential_witness:
  "transition_each sample_host (sample_inbox [sample_entry])
     [(''E1'', pending_only (terminal_mark Expired ''t1'' ''ttl'')), (''E1'', pending_only (terminal_mark Landed ''t2'' ''x''))]
   = Inr (sample_inbox [sample_entry, terminal_mark Expired ''t1'' ''ttl'' sample_entry])"
proof (rule transition_many_is_sequential)
  show "transition_many sample_host (sample_inbox [sample_entry])
     [(''E1'', pending_only (terminal_mark Expired ''t1'' ''ttl'')), (''E1'', pending_only (terminal_mark Landed ''t2'' ''x''))]
   = Inr ([(terminal_mark Expired ''t1'' ''ttl'' sample_entry, True), (terminal_mark Expired ''t1'' ''ttl'' sample_entry, False)],
       sample_inbox [sample_entry, terminal_mark Expired ''t1'' ''ttl'' sample_entry])"
    by code_simp
qed (auto intro: proper_transitions(2))

section \<open>Posting and polling\<close>

text \<open>A posted message can be polled: after a message with a fresh id is created and appended
  through a mailbox that names a lifecycle, an agent or a role, listing that mailbox returns it,
  pending, and everything returned is pending and addressed to that mailbox.\<close>

lemma post_then_poll:
  assumes "create_operator_inbox_entry m i now routing poster = Inr e" "inbox_append h s e = Inr s'"
    and "inbox_readable s" "row_state s i = None" "validated e = Inr e"
    and "a = ir_address routing" "require_inbox_address None (ia_lifecycle_id a) (ia_agent_id a) (ia_recipient_role a) = Inr ()"
  shows "\<exists>es. list_pending h s' (ia_lifecycle_id a) (ia_agent_id a) (ia_recipient_role a) = Inr es \<and> e \<in> set es
     \<and> (\<forall>x \<in> set es. in_mailbox (ia_lifecycle_id a) (ia_agent_id a) (ia_recipient_role a) False x)"
proof -
  have e: "e_id e = i" "e_state e = Pending" "e_lifecycleId e = ia_lifecycle_id a" "e_agentId e = ia_agent_id a"
    "e_recipientRole e = ia_recipient_role a"
    using assms(1,6) by (auto simp: create_operator_inbox_entry_def Let_def rbind_eq_Inr_iff)
  obtain es where es: "inbox_read_unlocked s = Inr es" using assms(3) by (auto simp: inbox_readable_def)
  have s': "s' = s\<lparr>ib_log := log_append (ib_log s) e\<rparr>" using inbox_append_Inr [OF assms(2)] assms(5) by auto
  then have read: "inbox_read_unlocked s' = Inr (es @ [e])" using inbox_read_append [OF es assms(5)] by simp
  have lock: "lockable h (inbox_log_path s')"
    using assms(2) s' by (auto simp: inbox_append_def inbox_exclusive_Inr rbind_eq_Inr_iff inbox_log_path_def)
  have "inbox_view (es @ [e]) (e_id e) = Some e"
    using assms(4) e(1) by (auto simp: inbox_view_snoc row_state_Inr [OF es])
  then have "e \<in> set (dict_values (fold_operator_inbox_entries (es @ [e])))" unfolding inbox_fold_values .
  moreover have "list_pending h s' (ia_lifecycle_id a) (ia_agent_id a) (ia_recipient_role a) =
      Inr (py_sorted e_createdAt (filter (in_mailbox (ia_lifecycle_id a) (ia_agent_id a) (ia_recipient_role a) False)
        (dict_values (fold_operator_inbox_entries (es @ [e])))))"
    using assms(7) lock read
    by (simp add: list_pending_def list_for_mailbox_def inbox_current_def inbox_read_def inbox_exclusive_def
        exclusive_access_lockable)
  ultimately show ?thesis using e by (auto simp: in_mailbox_def)
qed

lemma post_then_poll_witness:
  "\<exists>es. list_pending sample_host (sample_inbox [sample_entry]) (Some ''L1'') None (Some Manager_role) = Inr es
     \<and> sample_entry \<in> set es \<and> (\<forall>x \<in> set es. in_mailbox (Some ''L1'') None (Some Manager_role) False x)"
proof -
  let ?m = "\<lparr>im_ask = ''ask'', im_response = ''resp'', im_message_kind = Message, im_gate_id = None,
       im_artifact_path = None,
       im_subject = \<lparr>is_task_document_ref = None, is_seat_role = None, is_agent_id = None\<rparr>\<rparr>"
  let ?a = "\<lparr>ia_task_document_ref = None, ia_lifecycle_id = Some ''L1'', ia_agent_id = None,
          ia_recipient_role = Some Manager_role\<rparr>"
  let ?r = "\<lparr>ir_address = ?a,
       ir_owner = \<lparr>io_role = None, io_task_document_ref = None, io_agent_id = None, io_lifecycle_id = None\<rparr>\<rparr>"
  let ?p = "\<lparr>ip_created_by = ''developer'', ip_created_via = In_dashboard, ip_sender_agent_id = None,
       ip_sender_role = None\<rparr>"
  have "create_operator_inbox_entry ?m ''E1'' ''t0'' ?r ?p = Inr sample_entry" by code_simp
  moreover have "inbox_append sample_host (sample_inbox []) sample_entry = Inr (sample_inbox [sample_entry])" by code_simp
  moreover have "inbox_read_unlocked (sample_inbox []) = Inr []" by code_simp
  moreover have "row_state (sample_inbox []) ''E1'' = None" by code_simp
  moreover have "validated sample_entry = Inr sample_entry" by code_simp
  ultimately show ?thesis
    using post_then_poll [of ?m "''E1''" "''t0''" ?r ?p sample_entry sample_host "sample_inbox []"
        "sample_inbox [sample_entry]" ?a]
    by (simp add: inbox_readable_def require_inbox_address_def)
qed

section \<open>What the log does not resolve\<close>

definition consumed_store :: inbox_store where
  "consumed_store = snd (case inbox_consume sample_host (sample_inbox [sample_entry]) ''E1'' ''t1'' ''model'' In_cli
     of Inr r \<Rightarrow> r)"

text \<open>An attribution mark can be lost. Consuming leaves a row pending, so a delivery recorded
  afterwards from a fold taken before the consume overwrites the mark: the row shows no consumer
  any more and the next consume is reported as the first.\<close>

lemma stale_delivery_erases_consume_mark:
  "\<exists>e s1 e2 s2. map_option e_consumedAt (inbox_view (case inbox_read_unlocked consumed_store of Inr es \<Rightarrow> es) ''E1'')
       = Some (Some ''t1'')
   \<and> record_adapter_completion sample_host consumed_store ''E1'' \<lparr>ac_vendor_correlation_id = None, ac_detail = None\<rparr>
       ''t2'' (Some [(''E1'', sample_entry)]) = Inr (e, s1)
   \<and> map_option e_consumedAt (inbox_view (case inbox_read_unlocked s1 of Inr es \<Rightarrow> es) ''E1'') = Some None
   \<and> inbox_consume sample_host s1 ''E1'' ''t3'' ''other'' In_chat = Inr ((e2, True), s2)"
proof -
  let ?r = "record_adapter_completion sample_host consumed_store ''E1''
      \<lparr>ac_vendor_correlation_id = None, ac_detail = None\<rparr> ''t2'' (Some [(''E1'', sample_entry)])"
  define e s1 where "e = fst (case ?r of Inr x \<Rightarrow> x)" and "s1 = snd (case ?r of Inr x \<Rightarrow> x)"
  define e2 s2 where "e2 = fst (fst (case inbox_consume sample_host s1 ''E1'' ''t3'' ''other'' In_chat of Inr x \<Rightarrow> x))"
    and "s2 = snd (case inbox_consume sample_host s1 ''E1'' ''t3'' ''other'' In_chat of Inr x \<Rightarrow> x)"
  have "map_option e_consumedAt (inbox_view (case inbox_read_unlocked consumed_store of Inr es \<Rightarrow> es) ''E1'')
      = Some (Some ''t1'')" by code_simp
  moreover have "?r = Inr (e, s1)" unfolding e_def s1_def by code_simp
  moreover have "map_option e_consumedAt (inbox_view (case inbox_read_unlocked s1 of Inr es \<Rightarrow> es) ''E1'') = Some None"
    unfolding s1_def by code_simp
  moreover have "inbox_consume sample_host s1 ''E1'' ''t3'' ''other'' In_chat = Inr ((e2, True), s2)"
    unfolding e2_def s2_def s1_def by code_simp
  ultimately show ?thesis by blast
qed

definition sample_renewal :: inbox_renewal where
  "sample_renewal = \<lparr>rn_response = None,
     rn_subject = \<lparr>is_task_document_ref = None, is_seat_role = None, is_agent_id = None\<rparr>, rn_readdress_to = None\<rparr>"

definition renewed_entry :: inbox_entry where
  "renewed_entry = sample_entry\<lparr>e_ts := ''t1''\<rparr>"

text \<open>The redelivery schedule can be lost as well. A renewal that works on a fold taken before a
  delivery attempt writes the row back with the schedule it had then: the row is due one second
  after the attempt, far below the floor.\<close>

lemma stale_renewal_clears_floor:
  "record_delivery sample_host (sample_inbox [sample_entry]) ''E1'' (sample_attempt False) (utc_stamp 0) stale_floor
     = Inr (delivered_once, delivered_store)
   \<and> renew sample_host delivered_store ''E1'' sample_renewal ''t1'' (rf_current stale_floor)
     = Inr (renewed_entry, sample_inbox [sample_entry, delivered_once, renewed_entry])
   \<and> list_redeliverable sample_host (sample_inbox [sample_entry, delivered_once, renewed_entry]) (1 * second) None None
     = Inr [renewed_entry]"
proof (intro conjI)
  have v: "validated renewed_entry = Inr renewed_entry" by code_simp
  have r: "renewed sample_renewal ''t1'' sample_entry = renewed_entry" by code_simp
  have fields: "e_id renewed_entry = ''E1''" "e_state renewed_entry = Pending"
    by (simp_all add: renewed_entry_def)
  show "renew sample_host delivered_store ''E1'' sample_renewal ''t1'' (rf_current stale_floor)
     = Inr (renewed_entry, sample_inbox [sample_entry, delivered_once, renewed_entry])"
    using v r by (simp add: renew_def require_entry_def stale_floor_def Let_def inbox_append_def inbox_exclusive_def
        exclusive_access_lockable sample_inbox_append delivered_store_def)
  have "inbox_read_unlocked (sample_inbox [sample_entry, delivered_once, renewed_entry])
      = Inr [sample_entry, delivered_once, renewed_entry]"
    using validated_fields(1) [OF v] by (intro sample_inbox_read) auto
  moreover have "dict_values (fold_operator_inbox_entries [sample_entry, delivered_once, renewed_entry]) = [renewed_entry]"
    using fields by (simp add: fold_operator_inbox_entries_def inbox_fold_step_def)
  moreover have "redeliverable [renewed_entry] (1 * second) MIN_REDELIVERY_INTERVAL = Inr [renewed_entry]" by code_simp
  ultimately show "list_redeliverable sample_host (sample_inbox [sample_entry, delivered_once, renewed_entry]) (1 * second) None None
     = Inr [renewed_entry]"
    using fields by (simp add: list_redeliverable_def inbox_current_def inbox_read_def inbox_exclusive_def
        exclusive_access_lockable)
qed (rule delivered_once_recorded)

definition report_entry :: inbox_entry where
  "report_entry = sample_entry\<lparr>e_messageKind := Turn_report, e_senderRole := Some Worker,
     e_taskDocumentRef := Some \<lparr>repository = ''repo'', ref_path = ''leaf.json''\<rparr>\<rparr>"

text \<open>A resolution of a protected row is reported but not written. When the resolver names a
  turn report that is not registered yet, \<open>reconcile_and_compact\<close> returns it as resolved and
  returns a fold in which it is resolved; but nothing was removed, so the log is left as it was
  and the row is still pending there.\<close>

lemma reconcile_reports_unwritten_resolution:
  "\<exists>resolved. reconcile_and_compact sample_host (sample_inbox [report_entry]) 0 (\<lambda>_. [(''E1'', ''gone'')]) {}
      = Inr ((0, [(''E1'', resolved)], [resolved]), sample_inbox [report_entry])
    \<and> e_state resolved = LadderResolved
    \<and> row_state (sample_inbox [report_entry]) ''E1'' = Some Pending"
proof (intro exI [of _ "ladder_resolve (utc_stamp 0) ''gone'' report_entry"] conjI)
  show "reconcile_and_compact sample_host (sample_inbox [report_entry]) 0 (\<lambda>_. [(''E1'', ''gone'')]) {}
      = Inr ((0, [(''E1'', ladder_resolve (utc_stamp 0) ''gone'' report_entry)],
          [ladder_resolve (utc_stamp 0) ''gone'' report_entry]), sample_inbox [report_entry])"
    by code_simp
  show "row_state (sample_inbox [report_entry]) ''E1'' = Some Pending" by code_simp
qed (simp add: ladder_resolve_def)

end
