(* ===== verification/Cooldowns.thy ===== *)
theory Cooldowns
  imports Inbox_Records
begin

text \<open>
  The three logs nothing is decided on but repetition: the notifier's signal cooldown
  (\<open>controlplane/agent_notifier_signals.py\<close>), orchestration nudges
  (\<open>controlplane/orchestration_nudges.py\<close>) and attention dismissals
  (\<open>controlplane/attention_dismissals.py\<close>). All three are read tolerantly.
\<close>

section \<open>Notifier signals\<close>

datatype signal_state = Sig_sent

record signal_record = durable_record +
  sg_schema :: string
  sg_id :: string
  sg_ts :: string
  sg_state :: signal_state
  sg_targetAgentId :: "string option"
  sg_targetLifecycleId :: "string option"
  sg_targetRole :: "agent_role option"
  sg_taskDocumentRef :: "task_document_ref option"
  sg_seatRole :: "string option"
  sg_findingKind :: string
  sg_detail :: string
  sg_deliveryState :: delivery_state

record signal_target =
  st_agent_id :: "string option"
  st_lifecycle_id :: "string option"
  st_role :: "agent_role option"
  st_task_document_ref :: "task_document_ref option"
  st_seat_role :: "string option"

record signal_key =
  sk_target :: signal_target
  sk_finding_kind :: string
  sk_detail :: string

record signal_store =
  sg_root :: path
  sg_log :: "signal_record log"

definition signal_log_path :: "signal_store \<Rightarrow> path" where
  "signal_log_path s = sg_root s @ [''workspace'', ''supervisor-signals.jsonl'']"

definition signal_read :: "signal_store \<Rightarrow> signal_record list" where
  "signal_read s = read_tolerant (sg_log s)"

definition signal_append :: "host \<Rightarrow> signal_store \<Rightarrow> signal_record \<Rightarrow> signal_store result" where
  "signal_append h s r =
     rbind (check_declared_writer h AGENT_NOTIFIER_SIGNAL_OWNERSHIP) (\<lambda>_.
       exclusive_access h AGENT_NOTIFIER_SIGNAL_OWNERSHIP (signal_log_path s) (\<lambda>h'.
         rbind (append_line h' (signal_log_path s) r (sg_log s)) (\<lambda>log. Inr (s\<lparr>sg_log := log\<rparr>))))"

definition signal_matches :: "signal_key \<Rightarrow> signal_record \<Rightarrow> bool" where
  "signal_matches k r \<longleftrightarrow> sg_state r = Sig_sent
     \<and> sg_targetAgentId r = st_agent_id (sk_target k) \<and> sg_targetLifecycleId r = st_lifecycle_id (sk_target k)
     \<and> sg_targetRole r = st_role (sk_target k) \<and> sg_taskDocumentRef r = st_task_document_ref (sk_target k)
     \<and> sg_seatRole r = st_seat_role (sk_target k) \<and> sg_findingKind r = sk_finding_kind k
     \<and> sg_detail r = sk_detail k"

definition signal_last_sent ::
  "signal_store \<Rightarrow> signal_key \<Rightarrow> signal_record list option \<Rightarrow> signal_record option" where
  "signal_last_sent s k records =
     py_max_by sg_ts (filter (signal_matches k) (case records of None \<Rightarrow> signal_read s | Some rs \<Rightarrow> rs))"

definition in_cooldown ::
  "signal_store \<Rightarrow> signal_key \<Rightarrow> utc \<Rightarrow> micros \<Rightarrow> signal_record list option \<Rightarrow> bool result" where
  "in_cooldown s k now cooldown records =
     rbind (require_redelivery_floor (Some cooldown)) (\<lambda>fl.
       case signal_last_sent s k records of None \<Rightarrow> Inr False
         | Some previous \<Rightarrow> (case fromisoformat (sg_ts previous) of None \<Rightarrow> Inr False
             | Some t \<Rightarrow> rbind (dt_diff (utc_dt now) t) (\<lambda>elapsed. Inr (elapsed < fl))))"

text \<open>Kept by the compaction: a stamp that does not parse or does not compare, or a fresh one.\<close>

definition signal_kept :: "datetime \<Rightarrow> signal_record \<Rightarrow> bool" where
  "signal_kept cutoff r = (case fromisoformat (sg_ts r) of None \<Rightarrow> True
     | Some t \<Rightarrow> (case dt_diff t cutoff of Inl _ \<Rightarrow> True | Inr d \<Rightarrow> 0 \<le> d))"

definition signal_compact ::
  "host \<Rightarrow> signal_store \<Rightarrow> utc \<Rightarrow> micros \<Rightarrow> ((nat \<times> signal_record list) \<times> signal_store) result" where
  "signal_compact h s now retain =
     exclusive_access h AGENT_NOTIFIER_SIGNAL_OWNERSHIP (signal_log_path s) (\<lambda>h'.
       (let records = signal_read s in
        if records = [] then Inr ((0, []), s)
        else rbind (dt_add (utc_dt now) (- retain)) (\<lambda>cutoff.
          (let kept = filter (signal_kept cutoff) records; removed = length records - length kept in
           if 0 < removed
           then rbind (rewrite_lines h' (signal_log_path s) kept AGENT_NOTIFIER_SIGNAL_OWNERSHIP) (\<lambda>log.
                  Inr ((removed, kept), s\<lparr>sg_log := log\<rparr>))
           else Inr ((removed, kept), s)))))"

section \<open>Orchestration nudges\<close>

datatype nudge_reason = Inactive | Missing_turn_report | Manual

datatype nudge_state = Sent | Rate_limited

record nudge_record = durable_record +
  n_schema :: string
  n_id :: string
  n_ts :: string
  n_state :: nudge_state
  n_reason :: nudge_reason
  n_targetAgentId :: "string option"
  n_targetLifecycleId :: "string option"
  n_subjectAgentId :: "string option"
  n_subjectLifecycleId :: "string option"
  n_artifactPath :: "string option"
  n_message :: string

record nudge_store =
  n_root :: path
  n_log :: "nudge_record log"

definition nudge_log_path :: "nudge_store \<Rightarrow> path" where
  "nudge_log_path s = n_root s @ [''workspace'', ''orchestration-nudges.jsonl'']"

definition nudge_read :: "nudge_store \<Rightarrow> nudge_record list" where
  "nudge_read s = read_tolerant (n_log s)"

definition nudge_append :: "host \<Rightarrow> nudge_store \<Rightarrow> nudge_record \<Rightarrow> nudge_store result" where
  "nudge_append h s r =
     rbind (check_declared_writer h ORCHESTRATION_NUDGE_OWNERSHIP) (\<lambda>_.
       exclusive_access h ORCHESTRATION_NUDGE_OWNERSHIP (nudge_log_path s) (\<lambda>h'.
         rbind (append_line h' (nudge_log_path s) r (n_log s)) (\<lambda>log. Inr (s\<lparr>n_log := log\<rparr>))))"

definition nudge_matches ::
  "string option \<Rightarrow> string option \<Rightarrow> string option \<Rightarrow> string option \<Rightarrow> nudge_reason \<Rightarrow> nudge_record \<Rightarrow> bool" where
  "nudge_matches ta tlc sa slc reason r \<longleftrightarrow> n_state r = Sent \<and> n_reason r = reason \<and> n_targetAgentId r = ta
     \<and> n_targetLifecycleId r = tlc \<and> n_subjectAgentId r = sa \<and> n_subjectLifecycleId r = slc"

definition nudge_last_sent ::
  "nudge_store \<Rightarrow> string option \<Rightarrow> string option \<Rightarrow> string option \<Rightarrow> string option \<Rightarrow> nudge_reason
     \<Rightarrow> nudge_record option" where
  "nudge_last_sent s ta tlc sa slc reason =
     py_max_by n_ts (filter (nudge_matches ta tlc sa slc reason) (nudge_read s))"

definition elapsed_seconds :: "string \<Rightarrow> string \<Rightarrow> micros option result" where
  "elapsed_seconds previous current = (case (fromisoformat current, fromisoformat previous) of
       (Some c, Some p) \<Rightarrow> rbind (dt_diff c p) (\<lambda>d. Inr (Some d))
     | _ \<Rightarrow> Inr None)"

text \<open>The verdict of \<open>record\<close> on the log as it is read, before the append.\<close>

definition nudge_verdict :: "nudge_store \<Rightarrow> nudge_record \<Rightarrow> micros \<Rightarrow> nudge_record result" where
  "nudge_verdict s r rate_limit =
     (case nudge_last_sent s (n_targetAgentId r) (n_targetLifecycleId r) (n_subjectAgentId r)
             (n_subjectLifecycleId r) (n_reason r) of
        None \<Rightarrow> Inr r
      | Some previous \<Rightarrow>
          rbind (elapsed_seconds (n_ts previous) (n_ts r)) (\<lambda>elapsed.
            Inr (case elapsed of None \<Rightarrow> r
                 | Some d \<Rightarrow> if d < rate_limit then r\<lparr>n_state := Rate_limited\<rparr> else r)))"

definition nudge_record_op :: "host \<Rightarrow> nudge_store \<Rightarrow> nudge_record \<Rightarrow> micros \<Rightarrow> (nudge_record \<times> nudge_store) result" where
  "nudge_record_op h s r rate_limit =
     rbind (nudge_verdict s r rate_limit) (\<lambda>r'.
     rbind (nudge_append h s r') (\<lambda>s'. Inr (r', s')))"

definition nudge_rewrite :: "host \<Rightarrow> nudge_store \<Rightarrow> nudge_record list \<Rightarrow> nudge_store result" where
  "nudge_rewrite h s rs =
     rbind (rewrite_lines h (nudge_log_path s) rs ORCHESTRATION_NUDGE_OWNERSHIP) (\<lambda>log. Inr (s\<lparr>n_log := log\<rparr>))"

definition nudge_compact :: "host \<Rightarrow> nudge_store \<Rightarrow> (nudge_record \<Rightarrow> bool) \<Rightarrow> (nat \<times> nudge_store) result" where
  "nudge_compact h s keep =
     exclusive_access h ORCHESTRATION_NUDGE_OWNERSHIP (nudge_log_path s) (\<lambda>h'.
       (let records = nudge_read s; kept = filter keep records in
        if length kept = length records then Inr (0, s)
        else rbind (nudge_rewrite h' s kept) (\<lambda>s'. Inr (length records - length kept, s'))))"

definition replace_records :: "host \<Rightarrow> nudge_store \<Rightarrow> nudge_record list \<Rightarrow> nudge_store result" where
  "replace_records h s rs =
     rbind (require_lock_held h (nudge_log_path s) (store_name ORCHESTRATION_NUDGE_OWNERSHIP)) (\<lambda>_.
       nudge_rewrite h s rs)"

definition nudge_message :: "nudge_reason \<Rightarrow> string \<Rightarrow> string option \<Rightarrow> string" where
  "nudge_message reason subject artifact_path = (case reason of
       Inactive \<Rightarrow> ''Nudge: '' @ subject @ '' appears inactive. Check the worker and record the next action.''
     | Missing_turn_report \<Rightarrow> ''Nudge: '' @ subject @ '' ended a turn without its worker turn report.''
         @ (if truthy_str artifact_path then '' Expected artifact: '' @ the artifact_path @ ''.'' else [])
     | Manual \<Rightarrow> ''Nudge: '' @ subject)"

text \<open>\<open>missing_artifact\<close>, given the size of the file at a path (\<^const>\<open>None\<close>: no such file).\<close>

definition missing_artifact :: "(path \<Rightarrow> nat option) \<Rightarrow> path \<Rightarrow> bool" where
  "missing_artifact file_size p = (case file_size p of None \<Rightarrow> True | Some n \<Rightarrow> n = 0)"

section \<open>Attention dismissals\<close>

record dismissal_record = durable_record +
  d_schema :: string
  d_itemId :: string
  d_dismissedAt :: string
  d_kind :: "string option"
  d_lifecycleId :: "string option"
  d_gateId :: "string option"

record dismissal_store =
  d_root :: path
  d_log :: "dismissal_record log"

definition dismissal_log_path :: "dismissal_store \<Rightarrow> path" where
  "dismissal_log_path s = d_root s @ [''workspace'', ''attention-dismissals.jsonl'']"

definition dismissal_read :: "dismissal_store \<Rightarrow> dismissal_record list" where
  "dismissal_read s = read_tolerant (d_log s)"

definition dismissal_current :: "dismissal_store \<Rightarrow> (string, dismissal_record) dict" where
  "dismissal_current s = fold_latest d_itemId (dismissal_read s)"

definition dismissal_replace :: "host \<Rightarrow> dismissal_store \<Rightarrow> dismissal_record list \<Rightarrow> dismissal_store result" where
  "dismissal_replace h s rs =
     rbind (rewrite_lines h (dismissal_log_path s) rs ATTENTION_DISMISSAL_OWNERSHIP) (\<lambda>log. Inr (s\<lparr>d_log := log\<rparr>))"

definition dismiss :: "host \<Rightarrow> dismissal_store \<Rightarrow> dismissal_record \<Rightarrow> dismissal_store result" where
  "dismiss h s r =
     rbind (check_declared_writer h ATTENTION_DISMISSAL_OWNERSHIP) (\<lambda>_.
       exclusive_access h ATTENTION_DISMISSAL_OWNERSHIP (dismissal_log_path s) (\<lambda>h'.
         dismissal_replace h' s (dict_values (AList.update (d_itemId r) r (dismissal_current s)))))"

definition keep_current_record :: "string set \<Rightarrow> dismissal_record \<Rightarrow> bool" where
  "keep_current_record live r = (case d_lifecycleId r of
       Some l \<Rightarrow> l \<in> live | None \<Rightarrow> d_kind r = Some ''actionable-drift'')"

definition prune_locked :: "host \<Rightarrow> dismissal_store \<Rightarrow> string set \<Rightarrow> (nat \<times> dismissal_store) result" where
  "prune_locked h s live =
     (let records = dismissal_read s;
          kept = filter (keep_current_record live) (dict_values (dismissal_current s)) in
      if length kept = length records then Inr (0, s)
      else rbind (dismissal_replace h s kept) (\<lambda>s'. Inr (length records - length kept, s')))"

definition prune_lifecycles :: "host \<Rightarrow> dismissal_store \<Rightarrow> string set \<Rightarrow> (nat \<times> dismissal_store) result" where
  "prune_lifecycles h s live =
     rbind (check_declared_writer h ATTENTION_DISMISSAL_OWNERSHIP) (\<lambda>_.
       exclusive_access h ATTENTION_DISMISSAL_OWNERSHIP (dismissal_log_path s) (\<lambda>h'. prune_locked h' s live))"

section \<open>Reading back a tolerant log\<close>

lemma read_tolerant_rewrite:
  "(\<And>r. r \<in> set rs \<Longrightarrow> version_ok r) \<Longrightarrow> read_tolerant (log_rewrite log rs) = rs"
  by (intro read_tolerant_strict strict.read_rewrite)

lemma read_tolerant_rewrite_kept:
  "(\<And>r. r \<in> set rs \<Longrightarrow> r \<in> set (read_tolerant log)) \<Longrightarrow> read_tolerant (log_rewrite log rs) = rs"
  using read_tolerant_versions by (intro read_tolerant_rewrite) blast

lemma update_memD: "p \<in> set (AList.update k v d) \<Longrightarrow> p = (k, v) \<or> p \<in> set d"
  by (induction d) (auto split: if_splits)

lemma read_tolerant_log_append:
  "version_ok r \<Longrightarrow> read_tolerant (log_append log r) = read_tolerant log @ [r]"
  by (simp add: log_append_def read_tolerant_append)

lemma signal_compact_Inr:
  assumes "signal_compact h s now retain = Inr ((n, kept), s')" "signal_read s \<noteq> []"
  shows "\<exists>cutoff. dt_add (utc_dt now) (- retain) = Inr cutoff \<and> kept = filter (signal_kept cutoff) (signal_read s)
     \<and> signal_read s' = kept"
proof -
  obtain cutoff where c: "dt_add (utc_dt now) (- retain) = Inr cutoff"
    and k: "kept = filter (signal_kept cutoff) (signal_read s)"
    and s': "if length kept < length (signal_read s) then s' = s\<lparr>sg_log := log_rewrite (sg_log s) kept\<rparr> else s' = s"
    using assms
    by (auto simp: signal_compact_def exclusive_access_Inr rbind_eq_Inr_iff Let_def rewrite_lines_def
        log_rewrite_def split: if_splits)
  have "signal_read s' = kept"
  proof (cases "length kept < length (signal_read s)")
    case True
    have "r \<in> set (read_tolerant (sg_log s))" if "r \<in> set kept" for r using that k by (simp add: signal_read_def)
    then show ?thesis using True s' by (simp add: signal_read_def read_tolerant_rewrite_kept)
  next
    case False
    then have "kept = signal_read s" using k by (metis filter_id_conv length_filter_less)
    then show ?thesis using False s' by simp
  qed
  then show ?thesis using c k by blast
qed

lemma nudge_append_Inr: "nudge_append h s r = Inr s' \<Longrightarrow> s' = s\<lparr>n_log := log_append (n_log s) r\<rparr>"
  by (auto simp: nudge_append_def rbind_eq_Inr_iff exclusive_access_Inr append_line_def log_append_def)

lemma dismissal_values:
  "p \<in> set (dismissal_current s) \<Longrightarrow> d_itemId (snd p) = fst p \<and> snd p \<in> set (read_tolerant (d_log s))"
  using fold_latest_mem [of "fst p" "snd p" d_itemId] by (simp add: dismissal_current_def dismissal_read_def)

section \<open>Properties\<close>

lemma dt_diff_sub:
  assumes "dt_add (utc_dt now) (- retain) = Inr cutoff"
  shows "dt_diff t cutoff = (case dt_diff (utc_dt now) t of Inl e \<Rightarrow> dt_diff t cutoff | Inr e \<Rightarrow> Inr (retain - e))"
  using assms by (auto simp: dt_add_def utc_dt_def dt_diff_def split: if_splits option.splits)

lemma in_cooldown_kept:
  assumes "dt_add (utc_dt now) (- retain) = Inr cutoff" "require_redelivery_floor (Some retain) = Inr retain"
    and "signal_last_sent s k (Some rs) = Some r" "in_cooldown s k later retain (Some rs) = Inr True" "now \<le> later"
  shows "signal_kept cutoff r"
proof -
  obtain t e where t: "fromisoformat (sg_ts r) = Some t" "dt_diff (utc_dt later) t = Inr e" "e < retain"
    using assms by (auto simp: in_cooldown_def rbind_eq_Inr_iff split: option.splits)
  then have "dt_diff (utc_dt now) t = Inr (e - (later - now))"
    by (auto simp: dt_diff_def utc_dt_def split: option.splits)
  then show ?thesis using t dt_diff_sub [OF assms(1), of t] assms(5) by (auto simp: signal_kept_def)
qed

text \<open>C24. Reclaiming the cooldown log never lets a suppressed signal through: a signal that is in
  cooldown on a log is, from the instant of the compaction on, still in cooldown on the log the
  compaction leaves and on the snapshot it returns, when the retention window is the cooldown
  window.\<close>

theorem compaction_keeps_cooldown:
  assumes "signal_compact h s now retain = Inr ((n, kept), s')" "require_redelivery_floor (Some retain) = Inr retain"
    and "in_cooldown s k later retain None = Inr True" "now \<le> later"
  shows "in_cooldown s' k later retain None = Inr True \<and> in_cooldown s' k later retain (Some kept) = Inr True"
proof -
  obtain r where r: "signal_last_sent s k None = Some r"
    using assms(3) by (auto simp: in_cooldown_def rbind_eq_Inr_iff split: option.splits)
  have snap: "signal_last_sent s k (Some (signal_read s)) = signal_last_sent s k None"
    by (simp add: signal_last_sent_def)
  then have cool: "in_cooldown s k later retain (Some (signal_read s)) = Inr True"
    using assms(3) by (simp add: in_cooldown_def)
  have "signal_read s \<noteq> []" using r by (auto simp: signal_last_sent_def)
  then obtain cutoff where c: "dt_add (utc_dt now) (- retain) = Inr cutoff"
    and kept: "kept = filter (signal_kept cutoff) (signal_read s)" "signal_read s' = kept"
    using signal_compact_Inr [OF assms(1)] by blast
  have "signal_kept cutoff r"
    using in_cooldown_kept [OF c assms(2) _ cool assms(4)] snap r by simp
  then have "py_max_by sg_ts (filter (signal_kept cutoff) (filter (signal_matches k) (signal_read s))) = Some r"
    using r py_max_by_filter [of sg_ts _ r "signal_kept cutoff"] by (simp add: signal_last_sent_def del: filter_filter)
  then have "py_max_by sg_ts (filter (signal_matches k) kept) = Some r"
    by (simp add: kept(1) conj_commute)
  then have "signal_last_sent s' k None = Some r" "signal_last_sent s' k (Some kept) = Some r"
    by (simp_all add: signal_last_sent_def kept(2))
  then show ?thesis using assms(3) r by (simp add: in_cooldown_def)
qed

definition sample_signal :: "string \<Rightarrow> signal_record" where
  "sample_signal ts = \<lparr>schemaVersion = SCHEMA_VERSION, sg_schema = ''ar-agent-notifier-signal/v2'', sg_id = ''S1'',
     sg_ts = ts, sg_state = Sig_sent, sg_targetAgentId = None, sg_targetLifecycleId = Some ''L1'',
     sg_targetRole = None, sg_taskDocumentRef = None, sg_seatRole = None, sg_findingKind = ''stuck'',
     sg_detail = ''d'', sg_deliveryState = Queued\<rparr>"

definition sample_signals :: "signal_record list \<Rightarrow> signal_store" where
  "sample_signals rs = \<lparr>sg_root = [''observer''], sg_log = Some (map Row rs)\<rparr>"

definition sample_key :: signal_key where
  "sample_key = \<lparr>sk_target = \<lparr>st_agent_id = None, st_lifecycle_id = Some ''L1'', st_role = None,
     st_task_document_ref = None, st_seat_role = None\<rparr>, sk_finding_kind = ''stuck'', sk_detail = ''d''\<rparr>"

lemma sample_signals_read [simp]: "signal_read (sample_signals [sample_signal ts]) = [sample_signal ts]"
  by (simp add: signal_read_def sample_signals_def read_tolerant_def List.map_filter_def version_ok_def sample_signal_def)
    code_simp

lemma sample_signal_last [simp]:
  "signal_last_sent (sample_signals [sample_signal ts]) sample_key None = Some (sample_signal ts)"
  "signal_last_sent (sample_signals [sample_signal ts]) sample_key (Some [sample_signal ts]) = Some (sample_signal ts)"
  by (simp_all add: signal_last_sent_def signal_matches_def sample_key_def sample_signal_def sample_signals_read
      [unfolded sample_signal_def])

lemma sample_signal_ts [simp]: "sg_ts (sample_signal ts) = ts"
  by (simp add: sample_signal_def)

theorem compaction_keeps_cooldown_witness:
  "in_cooldown (sample_signals [sample_signal (utc_stamp (1000 * second))]) sample_key (1500 * second)
     (900 * second) None = Inr True
   \<and> in_cooldown (sample_signals [sample_signal (utc_stamp (1000 * second))]) sample_key (1500 * second)
     (900 * second) (Some [sample_signal (utc_stamp (1000 * second))]) = Inr True"
proof (rule compaction_keeps_cooldown)
  show "signal_compact sample_host (sample_signals [sample_signal (utc_stamp (1000 * second))]) (1200 * second)
      (900 * second) = Inr ((0, [sample_signal (utc_stamp (1000 * second))]),
        sample_signals [sample_signal (utc_stamp (1000 * second))])"
    by (simp add: signal_compact_def exclusive_access_lockable dt_add_def utc_dt_def signal_kept_def valid_utc_def Let_def)
      (simp add: dt_diff_def utc_dt_def)
  show "in_cooldown (sample_signals [sample_signal (utc_stamp (1000 * second))]) sample_key (1500 * second)
     (900 * second) None = Inr True"
    by (simp add: in_cooldown_def require_redelivery_floor_def MIN_REDELIVERY_INTERVAL_def valid_utc_def)
qed (simp_all add: require_redelivery_floor_def MIN_REDELIVERY_INTERVAL_def)

text \<open>A row with a naive stamp stops the notifier: the compaction keeps it, and the cooldown
  check on the kept snapshot then raises instead of answering.\<close>

lemma naive_signal_stamp_raises:
  "\<exists>kept s'. signal_compact sample_host (sample_signals [sample_signal ''2026-01-01T00:00:00'']) (1200 * second) (900 * second)
       = Inr ((0, kept), s')
   \<and> in_cooldown s' sample_key (1200 * second) (900 * second) (Some kept)
       = Inl (TypeError ''offset-naive and offset-aware datetimes'')"
proof -
  have "\<exists>t. fromisoformat ''2026-01-01T00:00:00'' = Some t \<and> dt_off t = None" by (rule exI, rule conjI) code_simp+
  then obtain t where t: "fromisoformat ''2026-01-01T00:00:00'' = Some t" "dt_off t = None" by blast
  have "signal_compact sample_host (sample_signals [sample_signal ''2026-01-01T00:00:00'']) (1200 * second) (900 * second)
      = Inr ((0, [sample_signal ''2026-01-01T00:00:00'']), sample_signals [sample_signal ''2026-01-01T00:00:00''])"
    using t by (simp add: signal_compact_def exclusive_access_lockable dt_add_def utc_dt_def signal_kept_def
        dt_diff_def Let_def)
  moreover have "in_cooldown (sample_signals [sample_signal ''2026-01-01T00:00:00'']) sample_key (1200 * second)
      (900 * second) (Some [sample_signal ''2026-01-01T00:00:00''])
      = Inl (TypeError ''offset-naive and offset-aware datetimes'')"
    using t by (simp add: in_cooldown_def require_redelivery_floor_def MIN_REDELIVERY_INTERVAL_def dt_diff_def utc_dt_def)
  ultimately show ?thesis by blast
qed

text \<open>A nudge is rate limited exactly inside the window: recording a nudge appends it, as
  rate limited if the last nudge sent for the same target, subject and reason is less than the
  limit old, and as it came otherwise.\<close>

lemma nudge_rate_limited_iff:
  assumes "nudge_record_op h s r limit = Inr (r', s')" "version_ok r"
    and "nudge_last_sent s (n_targetAgentId r) (n_targetLifecycleId r) (n_subjectAgentId r) (n_subjectLifecycleId r)
           (n_reason r) = Some p"
    and "n_ts p = utc_stamp t0" "n_ts r = utc_stamp t" "valid_utc t0" "valid_utc t"
  shows "r' = (if t - t0 < limit then r\<lparr>n_state := Rate_limited\<rparr> else r) \<and> nudge_read s' = nudge_read s @ [r']"
proof -
  have "nudge_verdict s r limit = Inr (if t - t0 < limit then r\<lparr>n_state := Rate_limited\<rparr> else r)"
    using assms by (simp add: nudge_verdict_def elapsed_seconds_def)
  then have r': "r' = (if t - t0 < limit then r\<lparr>n_state := Rate_limited\<rparr> else r)" and "nudge_append h s r' = Inr s'"
    using assms(1) by (auto simp: nudge_record_op_def rbind_eq_Inr_iff)
  then have "s' = s\<lparr>n_log := log_append (n_log s) r'\<rparr>" using nudge_append_Inr by blast
  moreover have "version_ok r'" using assms(2) r' by (simp add: version_ok_def)
  ultimately show ?thesis using r' by (simp add: nudge_read_def read_tolerant_log_append)
qed

definition sample_nudge :: "string \<Rightarrow> nudge_record" where
  "sample_nudge ts = \<lparr>schemaVersion = SCHEMA_VERSION, n_schema = ''ar-orchestration-nudge/v1'', n_id = ''N'', n_ts = ts,
     n_state = Sent, n_reason = Inactive, n_targetAgentId = Some ''A'', n_targetLifecycleId = None,
     n_subjectAgentId = None, n_subjectLifecycleId = None, n_artifactPath = None, n_message = ''m''\<rparr>"

definition sample_nudges :: "nudge_record list \<Rightarrow> nudge_store" where
  "sample_nudges rs = \<lparr>n_root = [''observer''], n_log = Some (map Row rs)\<rparr>"

lemma sample_nudge_version: "version_ok (sample_nudge ts)"
proof -
  have "schema_version_supported SCHEMA_VERSION" by code_simp
  then show ?thesis by (simp add: version_ok_def sample_nudge_def)
qed

lemma sample_nudges_read [simp]: "nudge_read (sample_nudges (map sample_nudge ts)) = map sample_nudge ts"
  using sample_nudge_version map_filter_Rows [of "map sample_nudge ts"]
  by (simp add: nudge_read_def sample_nudges_def read_tolerant_def filter_map o_def)

lemma sample_nudge_writer [simp]: "check_declared_writer sample_host ORCHESTRATION_NUDGE_OWNERSHIP = Inr ()"
  by code_simp

lemma sample_nudge_append:
  "nudge_append sample_host (sample_nudges rs) r = Inr (sample_nudges (rs @ [r]))"
  by (simp add: nudge_append_def exclusive_access_lockable sample_nudges_def)

lemma sample_nudge_fields [simp]:
  "n_ts (sample_nudge ts) = ts" "n_state (sample_nudge ts) = Sent" "n_reason (sample_nudge ts) = Inactive"
  "n_targetAgentId (sample_nudge ts) = Some ''A''" "n_targetLifecycleId (sample_nudge ts) = None"
  "n_subjectAgentId (sample_nudge ts) = None" "n_subjectLifecycleId (sample_nudge ts) = None"
  by (simp_all add: sample_nudge_def)

lemma sample_nudge_last:
  "nudge_last_sent (sample_nudges [sample_nudge ts]) (Some ''A'') None None None Inactive = Some (sample_nudge ts)"
  using sample_nudges_read [of "[ts]"] by (simp add: nudge_last_sent_def nudge_matches_def)

lemma nudge_rate_limited_iff_witness:
  "\<exists>r' s'. nudge_record_op sample_host (sample_nudges [sample_nudge (utc_stamp 0)]) (sample_nudge (utc_stamp second))
       (60 * second) = Inr (r', s') \<and> n_state r' = Rate_limited"
proof -
  have "nudge_verdict (sample_nudges [sample_nudge (utc_stamp 0)]) (sample_nudge (utc_stamp second)) (60 * second)
      = Inr ((sample_nudge (utc_stamp second))\<lparr>n_state := Rate_limited\<rparr>)"
    by (simp add: nudge_verdict_def sample_nudge_last elapsed_seconds_def valid_utc_def)
  then obtain r' s' where op: "nudge_record_op sample_host (sample_nudges [sample_nudge (utc_stamp 0)])
      (sample_nudge (utc_stamp second)) (60 * second) = Inr (r', s')"
    by (simp add: nudge_record_op_def sample_nudge_append)
  have "r' = (if second - 0 < 60 * second then (sample_nudge (utc_stamp second))\<lparr>n_state := Rate_limited\<rparr>
        else sample_nudge (utc_stamp second))"
    using nudge_rate_limited_iff [OF op sample_nudge_version, of "sample_nudge (utc_stamp 0)" 0 second]
    by (simp add: sample_nudge_last valid_utc_def)
  then show ?thesis using op by simp
qed

text \<open>The rate limit is not atomic: the last nudge is read before, and not under, the lock of
  the append, so two processes that both read the log first both append a sent nudge, one second
  apart under a limit of a minute.\<close>

lemma nudge_rate_limit_race:
  "\<exists>s1 s2. nudge_verdict (sample_nudges []) (sample_nudge (utc_stamp 0)) (60 * second) = Inr (sample_nudge (utc_stamp 0))
   \<and> nudge_verdict (sample_nudges []) (sample_nudge (utc_stamp second)) (60 * second) = Inr (sample_nudge (utc_stamp second))
   \<and> nudge_append sample_host (sample_nudges []) (sample_nudge (utc_stamp 0)) = Inr s1
   \<and> nudge_append sample_host s1 (sample_nudge (utc_stamp second)) = Inr s2
   \<and> map n_state (nudge_read s2) = [Sent, Sent]"
  using sample_nudges_read [of "[]"] sample_nudges_read [of "[utc_stamp 0, utc_stamp second]"]
  by (simp add: nudge_verdict_def nudge_last_sent_def sample_nudge_append)

text \<open>The dismissal log is a table: dismissing an item sets exactly its acknowledgement, and
  pruning then leaves exactly the acknowledgements of live lifecycles and, without a lifecycle,
  those of actionable drift.\<close>

lemma dismiss_then_prune:
  assumes "dismiss h s r = Inr s1" "version_ok r" "prune_lifecycles h' s1 live = Inr (n, s2)"
  shows "dismissal_current s1 = AList.update (d_itemId r) r (dismissal_current s)
    \<and> dismissal_current s2 = filter (\<lambda>p. keep_current_record live (snd p)) (dismissal_current s1)"
proof -
  let ?d = "AList.update (d_itemId r) r (dismissal_current s)"
  have wf: "dict_wf ?d" by (simp add: dismissal_current_def distinct_update)
  have mem: "p \<in> set ?d \<Longrightarrow> d_itemId (snd p) = fst p \<and> version_ok (snd p)" for p
  proof -
    assume "p \<in> set ?d"
    then have "p = (d_itemId r, r) \<or> p \<in> set (dismissal_current s)"
      by (rule update_memD)
    then show ?thesis using dismissal_values [of p s] read_tolerant_versions assms(2) by auto
  qed
  have s1: "s1 = s\<lparr>d_log := log_rewrite (d_log s) (dict_values ?d)\<rparr>"
    using assms(1) by (auto simp: dismiss_def dismissal_replace_def rbind_eq_Inr_iff exclusive_access_Inr
        rewrite_lines_def log_rewrite_def)
  have "version_ok q" if "q \<in> set (dict_values ?d)" for q using that mem by auto
  then have "dismissal_read s1 = dict_values ?d"
    using read_tolerant_rewrite [of "dict_values ?d" "d_log s"] by (simp add: s1 dismissal_read_def)
  then have c1: "dismissal_current s1 = ?d" using fold_latest_values [OF wf] mem by (simp add: dismissal_current_def)
  let ?k = "filter (\<lambda>p. keep_current_record live (snd p)) (dismissal_current s1)"
  have kv: "filter (keep_current_record live) (dict_values (dismissal_current s1)) = dict_values ?k"
    by (simp add: filter_map o_def)
  have s2: "if length (dict_values ?k) = length (dismissal_read s1) then s2 = s1
      else s2 = s1\<lparr>d_log := log_rewrite (d_log s1) (dict_values ?k)\<rparr>"
    using assms(3) unfolding prune_lifecycles_def prune_locked_def kv
    by (auto simp: dismissal_replace_def rbind_eq_Inr_iff exclusive_access_Inr rewrite_lines_def log_rewrite_def
        Let_def split: if_splits)
  have "dismissal_current s2 = ?k"
  proof (cases "length (dict_values ?k) = length (dismissal_read s1)")
    case True
    then have "?k = dismissal_current s1"
      using length_fold_latest [of d_itemId "dismissal_read s1"] unfolding dismissal_current_def
      by (metis (no_types, lifting) filter_id_conv le_antisym length_filter_le length_filter_less length_map less_irrefl)
    then show ?thesis using True s2 by simp
  next
    case False
    have km: "p \<in> set ?k \<Longrightarrow> d_itemId (snd p) = fst p \<and> snd p \<in> set (read_tolerant (d_log s1))" for p
      using dismissal_values [of p s1] by simp
    then have "dismissal_read s2 = dict_values ?k"
      using False s2 by (auto simp: dismissal_read_def intro!: read_tolerant_rewrite_kept)
    moreover have "dict_wf ?k" using wf c1 by (simp add: distinct_map_filter)
    ultimately show ?thesis using km fold_latest_values [of ?k d_itemId] by (simp add: dismissal_current_def)
  qed
  then show ?thesis using c1 by simp
qed

definition dashboard_host :: host where
  "dashboard_host = sample_host\<lparr>exec_mode := Some Mode_dashboard\<rparr>"

definition sample_dismissal :: "string \<Rightarrow> string option \<Rightarrow> dismissal_record" where
  "sample_dismissal item lifecycle = \<lparr>schemaVersion = SCHEMA_VERSION, d_schema = ''attention-dismissal'',
     d_itemId = item, d_dismissedAt = ''2026-01-01T00:00:00+00:00'', d_kind = None, d_lifecycleId = lifecycle,
     d_gateId = None\<rparr>"

definition sample_dismissals :: dismissal_store where
  "sample_dismissals = \<lparr>d_root = [''control''],
     d_log = Some [Row (sample_dismissal ''I1'' (Some ''L1'')), Row (sample_dismissal ''I2'' (Some ''L2''))]\<rparr>"

lemma dismiss_then_prune_witness:
  "\<exists>s1 s2 n. dismiss dashboard_host sample_dismissals (sample_dismissal ''I3'' (Some ''L2'')) = Inr s1
     \<and> prune_lifecycles dashboard_host s1 {''L2''} = Inr (n, s2)
     \<and> map fst (dismissal_current s2) = [''I2'', ''I3'']"
proof -
  have "case dismiss dashboard_host sample_dismissals (sample_dismissal ''I3'' (Some ''L2'')) of Inl _ \<Rightarrow> False
    | Inr s1 \<Rightarrow> (case prune_lifecycles dashboard_host s1 {''L2''} of Inl _ \<Rightarrow> False | Inr _ \<Rightarrow> True)"
    by code_simp
  then obtain s1 s2 n where d: "dismiss dashboard_host sample_dismissals (sample_dismissal ''I3'' (Some ''L2'')) = Inr s1"
      and p: "prune_lifecycles dashboard_host s1 {''L2''} = Inr (n, s2)"
    by (auto split: sum.splits)
  have v: "version_ok (sample_dismissal ''I3'' (Some ''L2''))" by code_simp
  have "map fst (filter (\<lambda>p. keep_current_record {''L2''} (snd p))
      (AList.update ''I3'' (sample_dismissal ''I3'' (Some ''L2'')) (dismissal_current sample_dismissals))) = [''I2'', ''I3'']"
    by code_simp
  moreover have "d_itemId (sample_dismissal ''I3'' (Some ''L2'')) = ''I3''" by (simp add: sample_dismissal_def)
  ultimately have "map fst (dismissal_current s2) = [''I2'', ''I3'']"
    using dismiss_then_prune [OF d v p] by simp
  then show ?thesis using d p by (intro exI conjI)
qed

end
