(* ===== verification/Gate_Records.thy ===== *)
theory Gate_Records
  imports Durable_Store
begin

text \<open>
  The gate vocabulary and delegation policy (\<open>kernel/primitives/gate_vocab.py\<close>,
  \<open>kernel/primitives/gate_policy.py\<close>), the gate record and its transitions
  (\<open>controlplane/records.py\<close>), the policy check of a recorded decision
  (\<open>controlplane/gate_policy.py\<close>), enforcement (\<open>controlplane/enforcement.py\<close>) and gate
  retention (\<open>controlplane/interaction_retention.py\<close>).
\<close>

section \<open>Vocabulary\<close>

datatype gate_kind =
    plan_approval | worktree_intent | closeout_approval | push_approval | integration_approval
  | master_handover_approval | cleanup_approval | agent_question | provider_retry | alarm_ack

datatype gate_state =
    GOpen | GApproved | GRejected | GRevisionRequested | GApplied | GCancelled | GExpired

fun gate_kind_name :: "gate_kind \<Rightarrow> string" where
  "gate_kind_name plan_approval = ''plan-approval''"
| "gate_kind_name worktree_intent = ''worktree-intent''"
| "gate_kind_name closeout_approval = ''closeout-approval''"
| "gate_kind_name push_approval = ''push-approval''"
| "gate_kind_name integration_approval = ''integration-approval''"
| "gate_kind_name master_handover_approval = ''master-handover-approval''"
| "gate_kind_name cleanup_approval = ''cleanup-approval''"
| "gate_kind_name agent_question = ''agent-question''"
| "gate_kind_name provider_retry = ''provider-retry''"
| "gate_kind_name alarm_ack = ''alarm-ack''"

definition GATE_KINDS :: "gate_kind list" where
  "GATE_KINDS = [plan_approval, worktree_intent, closeout_approval, push_approval,
     integration_approval, master_handover_approval, cleanup_approval, agent_question,
     provider_retry, alarm_ack]"

definition coerce_gate_kind :: "string \<Rightarrow> gate_kind result" where
  "coerce_gate_kind raw = (case find (\<lambda>k. gate_kind_name k = raw) GATE_KINDS of
       Some k \<Rightarrow> Inr k | None \<Rightarrow> Inl (ValueError raw))"

section \<open>Delegation policy\<close>

datatype decision_role = Human | Manager | Orchestrator

fun decision_role_name :: "decision_role \<Rightarrow> string" where
  "decision_role_name Human = ''human''"
| "decision_role_name Manager = ''manager''"
| "decision_role_name Orchestrator = ''orchestrator''"

definition coerce_decision_role :: "string \<Rightarrow> decision_role result" where
  "coerce_decision_role raw = (case find (\<lambda>r. decision_role_name r = raw) [Human, Manager, Orchestrator] of
       Some r \<Rightarrow> Inr r | None \<Rightarrow> Inl (ValueError raw))"

definition HUMAN_PINNED_GATE_KINDS :: "gate_kind set" where
  "HUMAN_PINNED_GATE_KINDS = {integration_approval, push_approval, cleanup_approval}"

definition DELEGABLE_GATE_KINDS :: "gate_kind set" where
  "DELEGABLE_GATE_KINDS = {plan_approval, closeout_approval, master_handover_approval}"

definition SEAM_GATE_KINDS :: "gate_kind set" where
  "SEAM_GATE_KINDS = {master_handover_approval}"

record gate_policy_rule =
  rule_kind :: gate_kind
  delegated_role :: "decision_role option"
  require_reviewer_verdict :: bool

definition allows_role :: "gate_policy_rule \<Rightarrow> decision_role \<Rightarrow> bool" where
  "allows_role rule role \<longleftrightarrow> role = Human \<or> delegated_role rule = Some role"

type_synonym gate_policy = "gate_policy_rule list"

definition human_rule :: "gate_kind \<Rightarrow> gate_policy_rule" where
  "human_rule kind = \<lparr>rule_kind = kind, delegated_role = None, require_reviewer_verdict = False\<rparr>"

definition rule_for :: "gate_policy \<Rightarrow> gate_kind \<Rightarrow> gate_policy_rule" where
  "rule_for policy kind = (case find (\<lambda>rule. rule_kind rule = kind) policy of
       Some rule \<Rightarrow> rule | None \<Rightarrow> human_rule kind)"

definition DEFAULT_GATE_POLICY :: gate_policy where
  "DEFAULT_GATE_POLICY = []"

text \<open>One iteration of the validation loop of \<open>make_gate_policy\<close>.\<close>

definition normalize_rule :: "gate_policy_rule \<Rightarrow> gate_policy_rule" where
  "normalize_rule rule =
     (if delegated_role rule = Some Human then rule\<lparr>delegated_role := None\<rparr> else rule)"

definition check_rule :: "gate_policy_rule \<Rightarrow> gate_policy_rule result" where
  "check_rule rule =
     (let normalized = normalize_rule rule; kind = rule_kind normalized in
      if delegated_role normalized \<noteq> None \<and> kind \<in> HUMAN_PINNED_GATE_KINDS
      then Inl (ValueError ''human-pinned'')
      else if delegated_role normalized \<noteq> None \<and> kind \<notin> DELEGABLE_GATE_KINDS
      then Inl (ValueError ''cannot be delegated'')
      else if require_reviewer_verdict normalized \<and> delegated_role normalized = None
      then Inl (ValueError ''verdict without delegated role'')
      else Inr normalized)"

definition make_gate_policy :: "gate_policy_rule list \<Rightarrow> gate_policy result" where
  "make_gate_policy rules =
     rbind (traverse check_rule rules) (\<lambda>checked.
       (let by_kind = fold_latest rule_kind checked
        in Inr (map snd (sort_key (\<lambda>(k, _). gate_kind_name k) by_kind))))"

definition named_gate_policy :: "string \<Rightarrow> gate_policy result" where
  "named_gate_policy name =
     (if name = ''all-human'' then Inr DEFAULT_GATE_POLICY
      else if name = ''manager-decides-leaf-gates'' then
        make_gate_policy
          [(human_rule plan_approval)\<lparr>delegated_role := Some Manager\<rparr>,
           (human_rule closeout_approval)\<lparr>delegated_role := Some Manager\<rparr>,
           (human_rule master_handover_approval)\<lparr>delegated_role := Some Orchestrator\<rparr>]
      else Inl (ValueError name))"

definition apply_seam_verdict_requirement :: "gate_policy \<Rightarrow> gate_policy" where
  "apply_seam_verdict_requirement policy =
     map (\<lambda>rule. if rule_kind rule \<in> SEAM_GATE_KINDS \<and> delegated_role rule \<noteq> None
                 then rule\<lparr>require_reviewer_verdict := True\<rparr> else rule) policy"

section \<open>Gate records\<close>

datatype decided_via = Via_chat | Via_dashboard | Via_cli | Via_orchestration

text \<open>JSON values, for the opaque review payload of a gate.\<close>

datatype json = JNull | JBool bool | JInt int | JStr string | JList "json list" | JObj "(string \<times> json) list"

record gate_evidence_ref =
  ev_kind :: string
  ev_ref :: string
  ev_verdict :: "string option"

record gate_record = durable_record +
  g_id :: string
  g_ts :: string
  g_kind :: gate_kind
  g_state :: gate_state
  g_lifecycleId :: "string option"
  g_enclosure :: "string option"
  g_repoId :: "string option"
  g_packet :: "(string \<times> json) list"
  g_requiredDecision :: "string list option"
  g_decidedBy :: "string option"
  g_decidedVia :: "decided_via option"
  g_decidingRole :: "string option"
  g_decisionNote :: "string option"
  g_decidedAt :: "string option"
  g_evidenceRefs :: "gate_evidence_ref list"
  g_appliedOperation :: "string option"

record gate_anchor =
  anchor_lifecycle_id :: "string option"
  anchor_enclosure :: "string option"
  anchor_repo_id :: "string option"

text \<open>Evidence arrives as a record or as a raw mapping that is validated on the way in.\<close>

datatype evidence_input = EvRef gate_evidence_ref | EvDict "(string \<times> json) list"

record gate_request =
  req_packet :: "(string \<times> json) list option"
  req_required_decision :: "string list option"
  req_evidence_refs :: "evidence_input list option"

record gate_verdict =
  v_decision :: string
  v_via :: decided_via
  v_by :: "string option"
  v_note :: "string option"
  v_deciding_role :: "string option"

definition DECISION_STATES :: "(string \<times> gate_state) list" where
  "DECISION_STATES = [(''approve'', GApproved), (''reject'', GRejected),
     (''request-revision'', GRevisionRequested), (''cancel'', GCancelled)]"

text \<open>
  \<open>GateEvidenceRef.model_validate\<close> as the class declares it: no extra keys, the literal
  kind, a string reference, an optional string verdict.
\<close>

definition validate_evidence_ref :: "(string \<times> json) list \<Rightarrow> gate_evidence_ref result" where
  "validate_evidence_ref raw =
     (if \<not> list_all (\<lambda>(k, _). k \<in> {''kind'', ''ref'', ''verdict''}) raw
      then Inl (ValidationError ''extra'')
      else (case (map_of raw ''kind'', map_of raw ''ref'') of
          (Some (JStr k), Some (JStr r)) \<Rightarrow>
            if k \<noteq> ''reviewer-verdict'' then Inl (ValidationError ''kind'')
            else (case map_of raw ''verdict'' of
                None \<Rightarrow> Inr \<lparr>ev_kind = k, ev_ref = r, ev_verdict = None\<rparr>
              | Some JNull \<Rightarrow> Inr \<lparr>ev_kind = k, ev_ref = r, ev_verdict = None\<rparr>
              | Some (JStr v) \<Rightarrow> Inr \<lparr>ev_kind = k, ev_ref = r, ev_verdict = Some v\<rparr>
              | _ \<Rightarrow> Inl (ValidationError ''verdict''))
        | _ \<Rightarrow> Inl (ValidationError ''kind or ref'')))"

definition coerce_evidence_refs :: "evidence_input list option \<Rightarrow> gate_evidence_ref list result" where
  "coerce_evidence_refs refs = (case refs of None \<Rightarrow> Inr []
     | Some rs \<Rightarrow> traverse (\<lambda>x. case x of EvRef r \<Rightarrow> Inr r | EvDict d \<Rightarrow> validate_evidence_ref d) rs)"

definition no_anchor :: gate_anchor where
  "no_anchor = \<lparr>anchor_lifecycle_id = None, anchor_enclosure = None, anchor_repo_id = None\<rparr>"

definition no_request :: gate_request where
  "no_request = \<lparr>req_packet = None, req_required_decision = None, req_evidence_refs = None\<rparr>"

definition create_gate ::
  "gate_kind \<Rightarrow> string \<Rightarrow> string \<Rightarrow> gate_anchor option \<Rightarrow> gate_request option \<Rightarrow> gate_record result" where
  "create_gate k gate_id now anchor request =
     (let a = (case anchor of None \<Rightarrow> no_anchor | Some a \<Rightarrow> a);
          q = (case request of None \<Rightarrow> no_request | Some q \<Rightarrow> q)
      in rbind (coerce_evidence_refs (req_evidence_refs q)) (\<lambda>refs.
         Inr \<lparr>schemaVersion = SCHEMA_VERSION, g_id = gate_id, g_ts = now, g_kind = k, g_state = GOpen,
              g_lifecycleId = anchor_lifecycle_id a, g_enclosure = anchor_enclosure a,
              g_repoId = anchor_repo_id a,
              g_packet = (case req_packet q of None \<Rightarrow> [] | Some p \<Rightarrow> p),
              g_requiredDecision = req_required_decision q, g_decidedBy = None, g_decidedVia = None,
              g_decidingRole = None, g_decisionNote = None, g_decidedAt = None, g_evidenceRefs = refs,
              g_appliedOperation = None\<rparr>))"

definition decide_gate ::
  "gate_record \<Rightarrow> gate_verdict \<Rightarrow> string \<Rightarrow> evidence_input list option \<Rightarrow> gate_record result" where
  "decide_gate gate verdict now refs =
     (case map_of DECISION_STATES (v_decision verdict) of
        None \<Rightarrow> Inl (KeyError (v_decision verdict))
      | Some st \<Rightarrow> rbind (coerce_evidence_refs refs) (\<lambda>attached.
          Inr (gate\<lparr>g_ts := now, g_state := st, g_decidedBy := v_by verdict,
               g_decidedVia := Some (v_via verdict), g_decidingRole := v_deciding_role verdict,
               g_decisionNote := v_note verdict, g_decidedAt := Some now,
               g_evidenceRefs := g_evidenceRefs gate @ attached\<rparr>)))"

definition expire_gate :: "gate_record \<Rightarrow> string \<Rightarrow> gate_record" where
  "expire_gate gate now = gate\<lparr>g_ts := now, g_state := GExpired\<rparr>"

definition apply_gate :: "gate_record \<Rightarrow> string \<Rightarrow> string option \<Rightarrow> gate_record" where
  "apply_gate gate now operation_key =
     gate\<lparr>g_ts := now, g_state := GApplied, g_appliedOperation := operation_key\<rparr>"

definition reopen_gate :: "gate_record \<Rightarrow> string \<Rightarrow> gate_record" where
  "reopen_gate gate now = gate\<lparr>g_ts := now, g_state := GOpen, g_decidedBy := None, g_decidedVia := None,
     g_decidingRole := None, g_decisionNote := None, g_decidedAt := None\<rparr>"

section \<open>Does a recorded decision satisfy the policy?\<close>

text \<open>The reasons a decision is refused, one constructor per message of the code.\<close>

datatype refusal =
    NotThroughOrchestration string
  | NoDecidingIdentity string
  | OwnLifecycle string
  | NoDecidingRole string
  | NotDelegated gate_kind decision_role
  | VerdictRequired gate_kind
  | NotPolicyDecider gate_kind string
  | UnknownRole string

definition has_reviewer_verdict_evidence :: "gate_record \<Rightarrow> bool" where
  "has_reviewer_verdict_evidence gate \<longleftrightarrow> (\<exists>r \<in> set (g_evidenceRefs gate). ev_kind r = ''reviewer-verdict'')"

definition decision_role_for_gate :: "gate_record \<Rightarrow> decision_role option result" where
  "decision_role_for_gate gate =
     (if g_decidedBy gate = Some ''developer'' then Inr (Some Human)
      else (case g_decidingRole gate of
          Some r \<Rightarrow> if g_decidedVia gate = Some Via_orchestration
                    then rbind (coerce_decision_role r) (\<lambda>role. Inr (Some role)) else Inr None
        | None \<Rightarrow> Inr None))"

definition decision_attribution_failure_reason :: "gate_record \<Rightarrow> refusal option" where
  "decision_attribution_failure_reason gate =
     (if g_decidedVia gate \<noteq> Some Via_orchestration then Some (NotThroughOrchestration (g_id gate))
      else if \<not> truthy_str (g_decidedBy gate) then Some (NoDecidingIdentity (g_id gate))
      else if truthy_str (g_lifecycleId gate) \<and> g_decidedBy gate = g_lifecycleId gate
      then Some (OwnLifecycle (g_id gate))
      else if g_decidingRole gate = None then Some (NoDecidingRole (g_id gate))
      else None)"

definition delegated_decision_failure_reason :: "gate_record \<Rightarrow> gate_policy \<Rightarrow> refusal option result" where
  "delegated_decision_failure_reason gate policy =
     (case decision_attribution_failure_reason gate of
        Some reason \<Rightarrow> Inr (Some reason)
      | None \<Rightarrow>
        rbind (coerce_decision_role (case g_decidingRole gate of Some r \<Rightarrow> r | None \<Rightarrow> [])) (\<lambda>role.
          (let rule = rule_for policy (g_kind gate) in
           if \<not> allows_role rule role \<or> role = Human then Inr (Some (NotDelegated (g_kind gate) role))
           else if require_reviewer_verdict rule \<and> \<not> has_reviewer_verdict_evidence gate
           then Inr (Some (VerdictRequired (g_kind gate)))
           else Inr None)))"

definition approval_failure_reason :: "gate_record \<Rightarrow> gate_policy \<Rightarrow> refusal option" where
  "approval_failure_reason gate policy =
     (case decision_role_for_gate gate of
        Inl _ \<Rightarrow> Some (UnknownRole (g_id gate))
      | Inr (Some Human) \<Rightarrow> None
      | Inr None \<Rightarrow> Some (NotPolicyDecider (g_kind gate) (g_id gate))
      | Inr (Some _) \<Rightarrow>
         (case delegated_decision_failure_reason gate policy of
            Inl _ \<Rightarrow> Some (UnknownRole (g_id gate))
          | Inr reason \<Rightarrow> reason))"

section \<open>Enforcement\<close>

datatype guard_reason =
    NoGate | ApprovedByPolicy | Refused refusal | StillOpen | RecoveringOperation
  | AlreadyApplied | NotApproved gate_state "string option"

record gate_guard =
  guard_kind :: gate_kind
  permitted :: bool
  guard_reason :: guard_reason
  guard_gate_id :: "string option"

definition guard :: "gate_kind \<Rightarrow> bool \<Rightarrow> guard_reason \<Rightarrow> string option \<Rightarrow> gate_guard" where
  "guard k p r i = \<lparr>guard_kind = k, permitted = p, guard_reason = r, guard_gate_id = i\<rparr>"

definition evaluate_gate ::
  "(string, gate_record) dict \<Rightarrow> gate_kind \<Rightarrow> gate_policy \<Rightarrow> string option \<Rightarrow> gate_guard" where
  "evaluate_gate gates k policy operation_key =
     (case py_max_by g_ts (filter (\<lambda>g. g_kind g = k) (dict_values gates)) of
        None \<Rightarrow> guard k True NoGate None
      | Some gate \<Rightarrow>
        (case g_state gate of
           GApproved \<Rightarrow>
             (case approval_failure_reason gate policy of
                None \<Rightarrow> guard k True ApprovedByPolicy (Some (g_id gate))
              | Some failure \<Rightarrow> guard k False (Refused failure) (Some (g_id gate)))
         | GOpen \<Rightarrow> guard k False StillOpen (Some (g_id gate))
         | GApplied \<Rightarrow>
             (let recovering = (operation_key \<noteq> None \<and> g_appliedOperation gate = operation_key)
              in guard k recovering (if recovering then RecoveringOperation else AlreadyApplied)
                   (Some (g_id gate)))
         | st \<Rightarrow> guard k False (NotApproved st (g_decisionNote gate)) (Some (g_id gate))))"

definition evaluate_closeout_gate ::
  "(string, gate_record) dict \<Rightarrow> gate_policy \<Rightarrow> string option \<Rightarrow> gate_guard" where
  "evaluate_closeout_gate gates policy operation_key =
     evaluate_gate gates closeout_approval policy operation_key"

section \<open>Retention\<close>

definition INTERACTION_RECORD_TTL :: micros where
  "INTERACTION_RECORD_TTL = 24 * 60 * 60 * second"

definition MUTATING_TOOL_GATE_KINDS :: "gate_kind set" where
  "MUTATING_TOOL_GATE_KINDS =
     {worktree_intent, closeout_approval, push_approval, integration_approval, cleanup_approval}"

definition SEAM_CONSUMED_GATE_KINDS :: "gate_kind set" where
  "SEAM_CONSUMED_GATE_KINDS = {master_handover_approval}"

definition CONSUMED_APPROVAL_GATE_KINDS :: "gate_kind set" where
  "CONSUMED_APPROVAL_GATE_KINDS = MUTATING_TOOL_GATE_KINDS \<union> SEAM_CONSUMED_GATE_KINDS"

definition PRUNE_IMMEDIATE_GATE_STATES :: "gate_state set" where
  "PRUNE_IMMEDIATE_GATE_STATES = {GCancelled, GExpired}"

definition keep_gate :: "utc \<Rightarrow> micros \<Rightarrow> gate_record \<Rightarrow> bool" where
  "keep_gate now ttl gate =
     (if g_state gate = GApplied then g_kind gate \<in> CONSUMED_APPROVAL_GATE_KINDS
      else if g_state gate \<in> PRUNE_IMMEDIATE_GATE_STATES then False
      else (case age_seconds (g_ts gate) now of None \<Rightarrow> True | Some age \<Rightarrow> age \<le> ttl))"

definition gate_keep_ids :: "gate_record list \<Rightarrow> utc \<Rightarrow> micros \<Rightarrow> string set" where
  "gate_keep_ids records now ttl =
     set (map g_id (filter (keep_gate now ttl) (dict_values (fold_latest g_id records))))"

definition delete_after_wait :: "gate_record \<Rightarrow> bool" where
  "delete_after_wait gate \<longleftrightarrow> g_kind gate \<notin> MUTATING_TOOL_GATE_KINDS"


section \<open>Properties of the vocabulary and the policy\<close>

lemma gate_kind_name_inject: "gate_kind_name a = gate_kind_name b \<longleftrightarrow> a = b"
  by (cases a; cases b) simp_all

lemma coerce_gate_kind_name [simp]: "coerce_gate_kind (gate_kind_name k) = Inr k"
  by (cases k) (simp_all add: coerce_gate_kind_def GATE_KINDS_def)

lemma coerce_gate_kind_Inr: "coerce_gate_kind raw = Inr k \<Longrightarrow> gate_kind_name k = raw"
  by (auto simp: coerce_gate_kind_def find_Some_iff split: option.splits)

lemma coerce_decision_role_Inr: "coerce_decision_role raw = Inr r \<Longrightarrow> decision_role_name r = raw"
  by (auto simp: coerce_decision_role_def split: option.splits if_splits)

lemma check_rule_Inr:
  assumes "check_rule rule = Inr r"
  shows "rule_kind r = rule_kind rule"
    and "delegated_role r \<noteq> Some Human"
    and "delegated_role r \<noteq> None \<Longrightarrow> rule_kind r \<in> DELEGABLE_GATE_KINDS \<and> rule_kind r \<notin> HUMAN_PINNED_GATE_KINDS"
    and "require_reviewer_verdict r \<Longrightarrow> delegated_role r \<noteq> None"
  using assms by (auto simp: check_rule_def Let_def normalize_rule_def split: if_splits)

text \<open>A policy \<open>make_gate_policy\<close> accepted: what each rule may say, and one rule per kind.\<close>

definition policy_ok :: "gate_policy \<Rightarrow> bool" where
  "policy_ok policy \<longleftrightarrow> distinct (map rule_kind policy) \<and>
     (\<forall>r \<in> set policy. delegated_role r \<noteq> Some Human
        \<and> (delegated_role r \<noteq> None \<longrightarrow>
             rule_kind r \<in> DELEGABLE_GATE_KINDS \<and> rule_kind r \<notin> HUMAN_PINNED_GATE_KINDS)
        \<and> (require_reviewer_verdict r \<longrightarrow> delegated_role r \<noteq> None))"

lemma make_gate_policy_ok:
  assumes "make_gate_policy rules = Inr policy"
  shows "policy_ok policy"
proof -
  obtain checked where ch: "traverse check_rule rules = Inr checked"
    and pol: "policy = map snd (sort_key (\<lambda>(k, _). gate_kind_name k) (fold_latest rule_kind checked))"
    using assms by (auto simp: make_gate_policy_def rbind_eq_Inr_iff)
  have mem: "(k, r) \<in> set (fold_latest rule_kind checked) \<Longrightarrow> rule_kind r = k \<and> r \<in> set checked" for k r
    by (rule fold_latest_mem)
  have "map rule_kind policy = map fst (sort_key (\<lambda>(k, _). gate_kind_name k) (fold_latest rule_kind checked))"
    unfolding pol by (auto dest: mem)
  moreover have "distinct (map fst (sort_key (\<lambda>(k, _). gate_kind_name k) (fold_latest rule_kind checked)))"
    using dict_wf_fold_latest [of rule_kind checked]
    by (metis (no_types, lifting) distinct_map distinct_sort set_sort)
  moreover have "\<exists>rule. check_rule rule = Inr r" if "r \<in> set policy" for r
  proof -
    from that have "r \<in> set checked" unfolding pol by (auto dest: mem)
    then show ?thesis using ch by (auto simp: traverse_Inr_iff list_all2_conv_all_nth in_set_conv_nth)
  qed
  ultimately show ?thesis
    unfolding policy_ok_def by (metis check_rule_Inr(2-4))
qed

lemma rule_for_mem:
  "rule_for policy k = human_rule k \<or> (rule_for policy k \<in> set policy \<and> rule_kind (rule_for policy k) = k)"
  by (auto simp: rule_for_def find_Some_iff split: option.splits)

lemma rule_for_pinned:
  assumes "policy_ok policy" "k \<in> HUMAN_PINNED_GATE_KINDS"
  shows "delegated_role (rule_for policy k) = None"
  using rule_for_mem [of policy k] assms by (auto simp: policy_ok_def human_rule_def)

section \<open>Properties of enforcement\<close>

text \<open>
  What it takes for a recorded decision to count: the developer, or an orchestration decision
  whose decider is named, is not the lifecycle the gate belongs to, and holds the delegated
  role, with the reviewer verdict attached where the rule asks for it.
\<close>

definition binding_decision :: "gate_policy \<Rightarrow> gate_record \<Rightarrow> bool" where
  "binding_decision policy gate \<longleftrightarrow>
     g_decidedBy gate = Some ''developer'' \<or>
     (g_decidedVia gate = Some Via_orchestration \<and> truthy_str (g_decidedBy gate)
      \<and> (truthy_str (g_lifecycleId gate) \<longrightarrow> g_decidedBy gate \<noteq> g_lifecycleId gate)
      \<and> (\<exists>role. role \<noteq> Human \<and> g_decidingRole gate = Some (decision_role_name role)
           \<and> delegated_role (rule_for policy (g_kind gate)) = Some role)
      \<and> (require_reviewer_verdict (rule_for policy (g_kind gate)) \<longrightarrow> has_reviewer_verdict_evidence gate))"

lemma coerce_decision_role_name [simp]: "coerce_decision_role (decision_role_name r) = Inr r"
  by (cases r) (simp_all add: coerce_decision_role_def)

lemma decision_attribution_None_iff:
  "decision_attribution_failure_reason gate = None \<longleftrightarrow>
     g_decidedVia gate = Some Via_orchestration \<and> truthy_str (g_decidedBy gate)
     \<and> (truthy_str (g_lifecycleId gate) \<longrightarrow> g_decidedBy gate \<noteq> g_lifecycleId gate)
     \<and> g_decidingRole gate \<noteq> None"
  by (auto simp: decision_attribution_failure_reason_def)

lemma delegated_decision_ok_iff:
  "delegated_decision_failure_reason gate policy = Inr None \<longleftrightarrow>
     decision_attribution_failure_reason gate = None
     \<and> (\<exists>role. role \<noteq> Human \<and> g_decidingRole gate = Some (decision_role_name role)
          \<and> delegated_role (rule_for policy (g_kind gate)) = Some role)
     \<and> (require_reviewer_verdict (rule_for policy (g_kind gate)) \<longrightarrow> has_reviewer_verdict_evidence gate)"
proof (cases "decision_attribution_failure_reason gate")
  case None
  then obtain r where r: "g_decidingRole gate = Some r"
    by (auto simp: decision_attribution_None_iff)
  show ?thesis
  proof (cases "coerce_decision_role r")
    case (Inl e)
    then have "r \<noteq> decision_role_name role" for role by auto
    then show ?thesis using None r Inl by (simp add: delegated_decision_failure_reason_def)
  next
    case (Inr role)
    then have "r = decision_role_name role" by (simp add: coerce_decision_role_Inr)
    moreover have "decision_role_name role = decision_role_name role' \<longleftrightarrow> role = role'" for role'
      by (cases role; cases role') simp_all
    ultimately show ?thesis
      using None r by (auto simp: delegated_decision_failure_reason_def Let_def allows_role_def)
  qed
qed (simp add: delegated_decision_failure_reason_def)

text \<open>
  Enforcement accepts exactly those, and an orchestration decision whose recorded role is the
  literal \<open>human\<close>: \<^const>\<open>decision_role_for_gate\<close> reads that role as the human and the
  attribution of the decision is then not looked at.
\<close>

definition claimed_human :: "gate_record \<Rightarrow> bool" where
  "claimed_human gate \<longleftrightarrow> g_decidedVia gate = Some Via_orchestration \<and> g_decidingRole gate = Some ''human''"

lemma decision_role_name_inject [simp]: "decision_role_name a = decision_role_name b \<longleftrightarrow> a = b"
  by (cases a; cases b) simp_all

lemma claimed_human_role:
  "g_decidedVia gate = Some Via_orchestration \<Longrightarrow> g_decidingRole gate = Some (decision_role_name role) \<Longrightarrow>
   claimed_human gate \<longleftrightarrow> role = Human"
  by (cases role) (simp_all add: claimed_human_def)

lemma approval_failure_None_iff:
  "approval_failure_reason gate policy = None \<longleftrightarrow> binding_decision policy gate \<or> claimed_human gate"
proof (cases "g_decidedBy gate = Some ''developer''")
  case True
  then show ?thesis
    by (simp add: approval_failure_reason_def decision_role_for_gate_def binding_decision_def)
next
  case dev: False
  show ?thesis
  proof (cases "\<exists>r. g_decidingRole gate = Some r \<and> g_decidedVia gate = Some Via_orchestration")
    case True
    then obtain r where r: "g_decidingRole gate = Some r" "g_decidedVia gate = Some Via_orchestration" by blast
    show ?thesis
    proof (cases "coerce_decision_role r")
      case (Inl e)
      then have "r \<noteq> decision_role_name role" for role by auto
      moreover from this [of Human] have "\<not> claimed_human gate" using r by (simp add: claimed_human_def)
      ultimately show ?thesis
        using dev r Inl by (simp add: approval_failure_reason_def decision_role_for_gate_def binding_decision_def)
    next
      case (Inr role)
      then have name: "r = decision_role_name role" by (simp add: coerce_decision_role_Inr)
      have role: "decision_role_for_gate gate = Inr (Some role)"
        using dev r Inr by (simp add: decision_role_for_gate_def)
      show ?thesis
      proof (cases "role = Human")
        case True
        then show ?thesis
          using role r name by (simp add: approval_failure_reason_def claimed_human_def)
      next
        case False
        then have "approval_failure_reason gate policy =
            (case delegated_decision_failure_reason gate policy of
               Inl _ \<Rightarrow> Some (UnknownRole (g_id gate)) | Inr reason \<Rightarrow> reason)"
          using role by (cases role) (simp_all add: approval_failure_reason_def)
        then have "approval_failure_reason gate policy = None \<longleftrightarrow>
            delegated_decision_failure_reason gate policy = Inr None"
          by (auto split: sum.splits)
        then show ?thesis
          using dev r name False claimed_human_role [of gate role]
          by (auto simp: delegated_decision_ok_iff decision_attribution_None_iff binding_decision_def)
      qed
    qed
  next
    case False
    then have "decision_role_for_gate gate = Inr None"
      using dev by (auto simp: decision_role_for_gate_def split: option.splits)
    then show ?thesis
      using dev False by (auto simp: approval_failure_reason_def binding_decision_def claimed_human_def)
  qed
qed

text \<open>The current gate of a kind: the one enforcement decides by.\<close>

definition newest_gate :: "(string, gate_record) dict \<Rightarrow> gate_kind \<Rightarrow> gate_record option" where
  "newest_gate gates k = py_max_by g_ts (filter (\<lambda>g. g_kind g = k) (dict_values gates))"

lemma newest_gate_Some:
  assumes "newest_gate gates k = Some gate"
  shows "g_kind gate = k" and "gate \<in> set (dict_values gates)"
    and "\<And>g. g \<in> set (dict_values gates) \<Longrightarrow> g_kind g = k \<Longrightarrow> g_ts g \<le> g_ts gate"
  using py_max_by_Some [OF assms [unfolded newest_gate_def]] by auto

lemma newest_gate_None: "newest_gate gates k = None \<longleftrightarrow> (\<forall>g \<in> set (dict_values gates). g_kind g \<noteq> k)"
  by (auto simp: newest_gate_def filter_empty_conv)

lemma guard_permitted [simp]: "permitted (guard k p r i) = p"
  by (simp add: guard_def)

lemma permitted_iff:
  "permitted (evaluate_gate gates k policy operation_key) \<longleftrightarrow>
     (case newest_gate gates k of None \<Rightarrow> True
      | Some gate \<Rightarrow>
         (g_state gate = GApproved \<and> (binding_decision policy gate \<or> claimed_human gate))
       \<or> (g_state gate = GApplied \<and> operation_key \<noteq> None \<and> g_appliedOperation gate = operation_key))"
proof (cases "newest_gate gates k")
  case None
  then show ?thesis by (simp add: evaluate_gate_def newest_gate_def)
next
  case (Some gate)
  have "permitted (case approval_failure_reason gate policy of
           None \<Rightarrow> guard k True ApprovedByPolicy i | Some failure \<Rightarrow> guard k False (Refused failure) i)
        \<longleftrightarrow> approval_failure_reason gate policy = None" for i
    by (auto split: option.splits)
  then show ?thesis using Some
    by (cases "g_state gate")
      (simp_all add: evaluate_gate_def newest_gate_def approval_failure_None_iff Let_def)
qed

lemma binding_decision_pinned:
  assumes "policy_ok policy" "g_kind gate \<in> HUMAN_PINNED_GATE_KINDS"
  shows "binding_decision policy gate \<longleftrightarrow> g_decidedBy gate = Some ''developer''"
  using rule_for_pinned [OF assms] by (auto simp: binding_decision_def)

section \<open>Properties of retention\<close>

lemma keep_gate_applied:
  "g_state gate = GApplied \<Longrightarrow> g_kind gate \<in> CONSUMED_APPROVAL_GATE_KINDS \<Longrightarrow> keep_gate now ttl gate"
  by (simp add: keep_gate_def)

lemma gate_keep_ids_iff:
  "i \<in> gate_keep_ids rs now ttl \<longleftrightarrow> (\<exists>g. map_of (fold_latest g_id rs) i = Some g \<and> keep_gate now ttl g)"
proof -
  have "i \<in> gate_keep_ids rs now ttl \<longleftrightarrow> (\<exists>k g. (k, g) \<in> set (fold_latest g_id rs) \<and> g_id g = i \<and> keep_gate now ttl g)"
    by (force simp: gate_keep_ids_def)
  also have "\<dots> \<longleftrightarrow> (\<exists>g. (i, g) \<in> set (fold_latest g_id rs) \<and> keep_gate now ttl g)"
    by (metis fold_latest_mem)
  finally show ?thesis by simp
qed

section \<open>Properties\<close>

text \<open>C2. What enforcement permits, exactly: there is no gate of the kind; or the newest one is
  approved and its decision is binding under the policy (the developer, or a delegated decider who
  is named, is not the gate's own lifecycle, holds the delegated role and attached the verdict the
  rule asks for) or claims the literal role \<open>human\<close> through orchestration; or the newest one is
  applied and this is the named operation it was applied for. Nothing else is permitted.\<close>

theorem enforcement_permits_iff:
  "permitted (evaluate_gate gates k policy operation_key) \<longleftrightarrow>
     (case newest_gate gates k of None \<Rightarrow> True
      | Some gate \<Rightarrow>
         (g_state gate = GApproved \<and> (binding_decision policy gate \<or> claimed_human gate))
       \<or> (g_state gate = GApplied \<and> operation_key \<noteq> None \<and> g_appliedOperation gate = operation_key))"
  by (rule permitted_iff)

text \<open>No accepted policy delegates the three human-pinned kinds: under every policy
  \<open>make_gate_policy\<close> returns, with the seam verdict requirement applied or not, an approval of an
  integration, push or cleanup gate is binding only if the developer decided it.\<close>

lemma pinned_kinds_need_developer:
  assumes "make_gate_policy rules = Inr policy" "g_kind gate \<in> HUMAN_PINNED_GATE_KINDS"
  shows "(binding_decision policy gate \<longleftrightarrow> g_decidedBy gate = Some ''developer'')
    \<and> (binding_decision (apply_seam_verdict_requirement policy) gate \<longleftrightarrow> g_decidedBy gate = Some ''developer'')"
proof -
  have ok: "policy_ok policy" by (rule make_gate_policy_ok [OF assms(1)])
  then have "policy_ok (apply_seam_verdict_requirement policy)"
    unfolding policy_ok_def apply_seam_verdict_requirement_def by (auto simp: o_def if_distrib cong: if_cong)
  then show ?thesis using ok binding_decision_pinned assms(2) by blast
qed

definition pushed_gate :: "string \<Rightarrow> gate_record" where
  "pushed_gate role = \<lparr>schemaVersion = SCHEMA_VERSION, g_id = ''G1'', g_ts = ''t'', g_kind = push_approval,
     g_state = GApproved, g_lifecycleId = Some ''L1'', g_enclosure = None, g_repoId = None, g_packet = [],
     g_requiredDecision = None, g_decidedBy = Some ''L1'', g_decidedVia = Some Via_orchestration,
     g_decidingRole = Some role, g_decisionNote = None, g_decidedAt = None, g_evidenceRefs = [],
     g_appliedOperation = None\<rparr>"

lemma pinned_kinds_need_developer_witness:
  "\<exists>policy. named_gate_policy ''manager-decides-leaf-gates'' = Inr policy \<and>
     \<not> binding_decision policy (pushed_gate ''manager'')"
proof -
  let ?rules = "[(human_rule plan_approval)\<lparr>delegated_role := Some Manager\<rparr>,
           (human_rule closeout_approval)\<lparr>delegated_role := Some Manager\<rparr>,
           (human_rule master_handover_approval)\<lparr>delegated_role := Some Orchestrator\<rparr>]"
  have "\<exists>policy. make_gate_policy ?rules = Inr policy" by (rule exI) code_simp
  then obtain policy where p: "make_gate_policy ?rules = Inr policy" by blast
  then show ?thesis
    using pinned_kinds_need_developer [OF p, of "pushed_gate ''manager''"]
    by (auto simp: named_gate_policy_def pushed_gate_def HUMAN_PINNED_GATE_KINDS_def)
qed

text \<open>A recorded role of \<open>human\<close> opens even a pinned gate: enforcement permits the push of a
  gate that its own lifecycle approved through orchestration with the deciding role \<open>human\<close>, under
  the human-only default policy, while the delegation check the decision service runs on the same
  record refuses it.\<close>

lemma recorded_human_role_is_not_checked:
  "permitted (evaluate_gate [(''G1'', pushed_gate ''human'')] push_approval DEFAULT_GATE_POLICY None)
   \<and> delegated_decision_failure_reason (pushed_gate ''human'') DEFAULT_GATE_POLICY = Inr (Some (OwnLifecycle ''G1''))"
  by code_simp

end
