(* ===== verification/Gate_Store.thy ===== *)
theory Gate_Store
  imports Gate_Records
begin

text \<open>
  \<open>controlplane/store.py\<close>: the append-only gate logs, one per lifecycle and one for the
  workspace, and the operations of \<open>GateStore\<close>. The spending of an approval
  (\<open>claim_approval\<close>) is the operation the rest of the control plane relies on. Every operation
  runs under the log's lock, so a run of the store by several processes is a sequence of whole
  operations: \<open>gate_step\<close>.
\<close>

section \<open>State\<close>

text \<open>
  The logs under the observer root, keyed by the lifecycle directory (\<^const>\<open>None\<close> for the
  workspace log). Lifecycle ids are single path components, as everywhere in the repository.
\<close>

record gate_store =
  gs_root :: path
  gs_logs :: "(string option, gate_record log_line list) dict"

definition log_key :: "string option \<Rightarrow> string option" where
  "log_key lifecycle_id = (if truthy_str lifecycle_id then lifecycle_id else None)"

definition log_path :: "gate_store \<Rightarrow> string option \<Rightarrow> path" where
  "log_path s lifecycle_id = (case log_key lifecycle_id of
       Some l \<Rightarrow> gs_root s @ [''lifecycles'', l, ''gates.jsonl'']
     | None \<Rightarrow> gs_root s @ [''workspace'', ''gates.jsonl''])"

definition gate_log :: "gate_store \<Rightarrow> string option \<Rightarrow> gate_record log" where
  "gate_log s lifecycle_id = map_of (gs_logs s) (log_key lifecycle_id)"

definition put_log :: "gate_store \<Rightarrow> string option \<Rightarrow> gate_record log \<Rightarrow> gate_store" where
  "put_log s lifecycle_id log = (case log of None \<Rightarrow> s
     | Some ls \<Rightarrow> s\<lparr>gs_logs := AList.update (log_key lifecycle_id) ls (gs_logs s)\<rparr>)"

section \<open>Operations\<close>

definition gate_append :: "host \<Rightarrow> gate_store \<Rightarrow> gate_record \<Rightarrow> gate_store result" where
  "gate_append h s r =
     rbind (check_declared_writer h GATE_OWNERSHIP) (\<lambda>_.
       (let lid = g_lifecycleId r; p = log_path s lid in
        exclusive_access h GATE_OWNERSHIP p (\<lambda>h'.
          rbind (append_line h' p r (gate_log s lid)) (\<lambda>log. Inr (put_log s lid log)))))"

definition gate_read :: "gate_store \<Rightarrow> string option \<Rightarrow> gate_record list result" where
  "gate_read s lifecycle_id = read_strict (gate_log s lifecycle_id)"

definition read_for_projection :: "gate_store \<Rightarrow> string option \<Rightarrow> gate_record list" where
  "read_for_projection s lifecycle_id = read_tolerant (gate_log s lifecycle_id)"

definition gate_current :: "gate_store \<Rightarrow> string option \<Rightarrow> (string, gate_record) dict result" where
  "gate_current s lifecycle_id = rbind (gate_read s lifecycle_id) (\<lambda>rs. Inr (fold_latest g_id rs))"

text \<open>The lifecycle directories that hold a gate log, in path order.\<close>

definition lifecycle_dirs :: "gate_store \<Rightarrow> string list" where
  "lifecycle_dirs s = sort (List.map_filter fst (gs_logs s))"

definition lifecycle_ids :: "gate_store \<Rightarrow> string option list" where
  "lifecycle_ids s = map Some (lifecycle_dirs s) @ (if map_of (gs_logs s) None = None then [] else [None])"

fun find_in :: "gate_store \<Rightarrow> string \<Rightarrow> string list \<Rightarrow> gate_record option result" where
  "find_in s gate_id [] = Inr None"
| "find_in s gate_id (l # ls) =
     rbind (gate_current s (Some l)) (\<lambda>gates. case map_of gates gate_id of
         Some hit \<Rightarrow> Inr (Some hit) | None \<Rightarrow> find_in s gate_id ls)"

definition gate_find :: "gate_store \<Rightarrow> string \<Rightarrow> gate_record option result" where
  "gate_find s gate_id =
     rbind (gate_current s None) (\<lambda>gates. case map_of gates gate_id of
         Some hit \<Rightarrow> Inr (Some hit) | None \<Rightarrow> find_in s gate_id (lifecycle_dirs s))"

fun fold_logs :: "gate_store \<Rightarrow> string option list \<Rightarrow> (string, gate_record) dict \<Rightarrow> (string, gate_record) dict result" where
  "fold_logs s [] latest = Inr latest"
| "fold_logs s (l # ls) latest =
     rbind (gate_current s l) (\<lambda>gates. fold_logs s ls (dict_update latest gates))"

definition all_current :: "gate_store \<Rightarrow> (string, gate_record) dict result" where
  "all_current s = fold_logs s (lifecycle_ids s) []"

definition claim_approval ::
  "host \<Rightarrow> gate_store \<Rightarrow> string option \<Rightarrow> gate_kind \<Rightarrow> string \<Rightarrow> gate_policy \<Rightarrow> string option
     \<Rightarrow> (gate_guard \<times> gate_store) result" where
  "claim_approval h s lifecycle_id k now policy operation_key =
     exclusive_access h GATE_OWNERSHIP (log_path s lifecycle_id) (\<lambda>h'.
       rbind (gate_current s lifecycle_id) (\<lambda>gates.
         (let verdict = evaluate_gate gates k policy operation_key in
          if \<not> permitted verdict then Inr (verdict, s)
          else (case guard_gate_id verdict of
              None \<Rightarrow> Inr (verdict, s)
            | Some gid \<Rightarrow> (case map_of gates gid of
                  None \<Rightarrow> Inl (KeyError gid)
                | Some gate \<Rightarrow>
                    if g_state gate = GApplied then Inr (verdict, s)
                    else rbind (gate_append h' s (apply_gate gate now operation_key)) (\<lambda>s'.
                           Inr (verdict, s')))))))"

definition gate_replace :: "host \<Rightarrow> gate_store \<Rightarrow> string option \<Rightarrow> gate_record list \<Rightarrow> gate_store result" where
  "gate_replace h s lifecycle_id rs =
     rbind (rewrite_lines h (log_path s lifecycle_id) rs GATE_OWNERSHIP) (\<lambda>log. Inr (put_log s lifecycle_id log))"

definition gate_delete :: "host \<Rightarrow> gate_store \<Rightarrow> string \<Rightarrow> string option \<Rightarrow> (bool \<times> gate_store) result" where
  "gate_delete h s gate_id lifecycle_id =
     exclusive_access h GATE_OWNERSHIP (log_path s lifecycle_id) (\<lambda>h'.
       rbind (gate_read s lifecycle_id) (\<lambda>rs.
         (let kept = filter (\<lambda>r. g_id r \<noteq> gate_id) rs in
          if length kept = length rs then Inr (False, s)
          else rbind (gate_replace h' s lifecycle_id kept) (\<lambda>s'. Inr (True, s')))))"

definition gate_compact :: "host \<Rightarrow> gate_store \<Rightarrow> string option \<Rightarrow> utc \<Rightarrow> (nat \<times> gate_store) result" where
  "gate_compact h s lifecycle_id now =
     exclusive_access h GATE_OWNERSHIP (log_path s lifecycle_id) (\<lambda>h'.
       rbind (gate_read s lifecycle_id) (\<lambda>rs.
         if rs = [] then Inr (0, s)
         else (let keep_ids = gate_keep_ids rs now INTERACTION_RECORD_TTL;
                   kept = filter (\<lambda>r. g_id r \<in> keep_ids) rs in
               if length kept = length rs then Inr (0, s)
               else rbind (gate_replace h' s lifecycle_id kept) (\<lambda>s'.
                      Inr (length rs - length kept, s')))))"

definition projected_current :: "gate_store \<Rightarrow> string option \<Rightarrow> utc option \<Rightarrow> (string, gate_record) dict" where
  "projected_current s lifecycle_id now =
     (let rs = read_for_projection s lifecycle_id in
      case now of
        None \<Rightarrow> fold_latest g_id rs
      | Some t \<Rightarrow> (let keep_ids = gate_keep_ids rs t INTERACTION_RECORD_TTL
                  in fold_latest g_id (filter (\<lambda>r. g_id r \<in> keep_ids) rs)))"

section \<open>What each operation does to the logs\<close>

lemma gate_log_put_log [simp]:
  "gate_log (put_log s l (Some ls)) l' = (if log_key l' = log_key l then Some ls else gate_log s l')"
  by (simp add: gate_log_def put_log_def update_conv')

lemma log_path_put_log [simp]: "log_path (put_log s l log) l' = log_path s l'"
  by (simp add: log_path_def put_log_def split: option.splits)

text \<open>A snapshot the store accepts, and what accepting it needs of the process.\<close>

definition may_write :: "host \<Rightarrow> gate_store \<Rightarrow> string option \<Rightarrow> bool" where
  "may_write h s l \<longleftrightarrow> check_declared_writer h GATE_OWNERSHIP = Inr () \<and> lockable h (log_path s l)"

lemma gate_append_Inr_iff:
  "gate_append h s r = Inr s' \<longleftrightarrow>
     may_write h s (g_lifecycleId r) \<and>
     s' = put_log s (g_lifecycleId r) (log_append (gate_log s (g_lifecycleId r)) r)"
  by (auto simp: gate_append_def may_write_def rbind_eq_Inr_iff Let_def exclusive_access_Inr log_append_def)

lemma gate_replace_locked:
  "lockable h (log_path s l) \<Longrightarrow>
   gate_replace (locked h (log_path s l)) s l rs = Inr (put_log s l (log_rewrite (gate_log s l) rs))"
  by (simp add: gate_replace_def log_rewrite_def)

lemma length_filter_same: "length (filter P xs) = length xs \<longleftrightarrow> filter P xs = xs"
  by (metis filter_id_conv length_filter_less less_irrefl)

lemma gate_read_append:
  assumes "gate_append h s r = Inr s'" "version_ok r"
  shows "log_key l \<noteq> log_key (g_lifecycleId r) \<Longrightarrow> gate_log s' l = gate_log s l"
    and "log_key l = log_key (g_lifecycleId r) \<Longrightarrow> gate_read s l = Inr rs \<Longrightarrow> gate_read s' l = Inr (rs @ [r])"
proof -
  have s': "s' = put_log s (g_lifecycleId r) (Some (read_log_text (gate_log s (g_lifecycleId r)) @ [Row r]))"
    using assms(1) by (simp add: gate_append_Inr_iff log_append_def)
  show "log_key l \<noteq> log_key (g_lifecycleId r) \<Longrightarrow> gate_log s' l = gate_log s l"
    by (simp add: s')
  show "gate_read s' l = Inr (rs @ [r])"
    if "log_key l = log_key (g_lifecycleId r)" "gate_read s l = Inr rs"
  proof -
    have "gate_log s l = gate_log s (g_lifecycleId r)" using that(1) by (simp add: gate_log_def)
    then show ?thesis
      using that assms(2) strict.read_append [of "gate_log s l" rs r]
      by (simp add: gate_read_def s' log_append_def)
  qed
qed

text \<open>The two rewrites: what is left of the log is what the filter keeps of a strict read.\<close>

lemma gate_rewrite_effect:
  assumes "gate_read s l = Inr rs"
    and "s' = s \<and> filter keep rs = rs \<or> s' = put_log s l (log_rewrite (gate_log s l) (filter keep rs))"
  shows "gate_read s' l = Inr (filter keep rs)"
    and "log_key l' \<noteq> log_key l \<Longrightarrow> gate_log s' l' = gate_log s l'"
  using assms strict.read_compact [of "gate_log s l" rs keep]
  by (auto simp: gate_read_def log_rewrite_def)

lemma gate_delete_effect:
  assumes "gate_delete h s i l = Inr (b, s')"
  shows "\<exists>rs. gate_read s l = Inr rs
     \<and> (s' = s \<and> filter (\<lambda>r. g_id r \<noteq> i) rs = rs
        \<or> s' = put_log s l (log_rewrite (gate_log s l) (filter (\<lambda>r. g_id r \<noteq> i) rs)))"
  using assms
  by (auto simp: gate_delete_def exclusive_access_Inr rbind_eq_Inr_iff Let_def gate_replace_locked
      length_filter_same split: if_splits)

lemma gate_compact_effect:
  assumes "gate_compact h s l now = Inr (n, s')"
  shows "\<exists>rs. gate_read s l = Inr rs
     \<and> (s' = s \<and> filter (\<lambda>r. g_id r \<in> gate_keep_ids rs now INTERACTION_RECORD_TTL) rs = rs
        \<or> s' = put_log s l (log_rewrite (gate_log s l)
                 (filter (\<lambda>r. g_id r \<in> gate_keep_ids rs now INTERACTION_RECORD_TTL) rs)))"
  using assms
  by (auto simp: gate_compact_def exclusive_access_Inr rbind_eq_Inr_iff Let_def gate_replace_locked
      length_filter_same split: if_splits)

lemma gate_current_Inr: "gate_current s l = Inr d \<longleftrightarrow> (\<exists>rs. gate_read s l = Inr rs \<and> d = fold_latest g_id rs)"
  by (auto simp: gate_current_def rbind_eq_Inr_iff)

lemma gate_current_keyed: "gate_current s l = Inr d \<Longrightarrow> map_of d i = Some g \<Longrightarrow> g_id g = i"
  by (auto simp: gate_current_Inr dest: lookup_fold_latest_key)

lemma gate_current_version: "gate_current s l = Inr d \<Longrightarrow> map_of d i = Some g \<Longrightarrow> version_ok g"
  by (auto simp: gate_current_Inr gate_read_def dest!: lookup_fold_latest_key intro: strict.read_supported)

lemma gate_read_log_cong: "gate_log s l = gate_log s' l' \<Longrightarrow> gate_read s l = gate_read s' l'"
  by (simp add: gate_read_def)

lemma gate_log_key: "log_key l = log_key l' \<Longrightarrow> gate_log s l = gate_log s l'"
  by (simp add: gate_log_def)

section \<open>Claims\<close>

lemma guard_gate_id_evaluate [simp]:
  "guard_gate_id (evaluate_gate gates k policy op) = map_option g_id (newest_gate gates k)"
  by (auto simp: evaluate_gate_def newest_gate_def guard_def Let_def split: option.splits gate_state.splits)

lemma newest_gate_lookup:
  "newest_gate (fold_latest g_id rs) k = Some g \<Longrightarrow> map_of (fold_latest g_id rs) (g_id g) = Some g"
proof -
  assume "newest_gate (fold_latest g_id rs) k = Some g"
  then obtain i where "(i, g) \<in> set (fold_latest g_id rs)"
    using newest_gate_Some(2) by fastforce
  then show ?thesis using fold_latest_mem [of i g g_id rs] by simp
qed

lemma gate_current_newest:
  "gate_current s l = Inr gates \<Longrightarrow> newest_gate gates k = Some g \<Longrightarrow> map_of gates (g_id g) = Some g"
  using newest_gate_lookup by (auto simp: gate_current_Inr simp del: map_of_eq_Some_iff)

text \<open>
  A claim that returns: its verdict is the enforcement verdict on the strict fold, and the log
  changes in exactly one case, when an approved gate becomes applied.
\<close>

lemma claim_approval_Inr:
  assumes "claim_approval h s l k now policy op = Inr (verdict, s')"
  shows "\<exists>gates. gate_current s l = Inr gates \<and> verdict = evaluate_gate gates k policy op \<and>
    (if permitted verdict \<and> (\<exists>g. newest_gate gates k = Some g \<and> g_state g = GApproved)
     then gate_append (locked h (log_path s l)) s (apply_gate (the (newest_gate gates k)) now op) = Inr s'
     else s' = s)"
proof -
  obtain gates where gates: "gate_current s l = Inr gates"
    using assms by (auto simp: claim_approval_def exclusive_access_Inr rbind_eq_Inr_iff)
  then obtain rs where rs: "gates = fold_latest g_id rs" by (auto simp: gate_current_Inr)
  let ?v = "evaluate_gate gates k policy op"
  have body: "(if \<not> permitted ?v then Inr (?v, s)
      else (case guard_gate_id ?v of None \<Rightarrow> Inr (?v, s)
        | Some gid \<Rightarrow> (case map_of gates gid of None \<Rightarrow> Inl (KeyError gid)
          | Some gate \<Rightarrow> if g_state gate = GApplied then Inr (?v, s)
              else rbind (gate_append (locked h (log_path s l)) s (apply_gate gate now op)) (\<lambda>s'. Inr (?v, s')))))
      = Inr (verdict, s')"
    using assms gates
    by (simp add: claim_approval_def exclusive_access_Inr Let_def del: guard_gate_id_evaluate)
  show ?thesis
  proof (cases "newest_gate gates k")
    case None
    then show ?thesis using body gates by (auto split: if_splits)
  next
    case (Some g)
    then have look: "map_of gates (g_id g) = Some g" using newest_gate_lookup rs by simp
    have st: "permitted ?v \<Longrightarrow> g_state g = GApproved \<or> g_state g = GApplied"
      by (auto simp: permitted_iff Some)
    show ?thesis using body Some look gates st
      by (auto simp: rbind_eq_Inr_iff split: if_splits)
  qed
qed

text \<open>A log with a line that does not validate refuses every claim.\<close>

lemma unvalidated_line_unreadable:
  assumes "line \<in> set (read_log_text (gate_log s l))"
    and "line \<noteq> Blank" "\<And>r. line = Row r \<Longrightarrow> \<not> version_ok r"
  shows "\<exists>e. gate_read s l = Inl e"
proof (cases "gate_read s l")
  case (Inr rs)
  have "line \<in> set (filter nonblank (read_log_text (gate_log s l)))"
    using assms(1,2) by (simp add: nonblank_def)
  then have "line \<in> set (map Row rs)" and "\<forall>r \<in> set rs. version_ok r"
    using Inr unfolding gate_read_def read_strict_Inr_iff by simp_all
  then show ?thesis using assms(3) by auto
qed simp

lemma version_unsupported:
  "parse_digits (takeWhile (\<lambda>c. c \<noteq> CHR ''.'') (schemaVersion r)) \<noteq> Some 1
   \<or> parse_digits (tl (dropWhile (\<lambda>c. c \<noteq> CHR ''.'') (schemaVersion r))) = None \<Longrightarrow> \<not> version_ok r"
  by (auto simp: version_ok_def schema_version_supported_def Let_def SUPPORTED_SCHEMA_MAJOR_def split: option.splits)

lemma claim_unreadable_refused:
  assumes "gate_read s l = Inl x"
  shows "\<exists>e. claim_approval h s l k now policy op = Inl e"
proof -
  obtain e where "gate_current s l = Inl e" using assms by (auto simp: gate_current_def)
  then show ?thesis
    using claim_approval_Inr [of h s l k now policy op]
    by (cases "claim_approval h s l k now policy op") force+
qed

section \<open>Runs\<close>

text \<open>
  One completed operation of any process on the store. A process is its \<^typ>\<open>host\<close>, arbitrary
  in every step; an appended record is a validated model instance, hence of a supported schema
  version.
\<close>

datatype gate_event =
    Appended gate_record
  | Claimed "string option" gate_kind "string option" gate_guard
  | Deleted string "string option"
  | Compacted "string option" utc

inductive gate_step :: "gate_store \<Rightarrow> gate_event \<Rightarrow> gate_store \<Rightarrow> bool" where
  step_append: "gate_append h s r = Inr s' \<Longrightarrow> version_ok r \<Longrightarrow> gate_step s (Appended r) s'"
| step_claim: "claim_approval h s l k now policy op = Inr (v, s') \<Longrightarrow> gate_step s (Claimed l k op v) s'"
| step_delete: "gate_delete h s i l = Inr (b, s') \<Longrightarrow> gate_step s (Deleted i l) s'"
| step_compact: "gate_compact h s l now = Inr (n, s') \<Longrightarrow> gate_step s (Compacted l now) s'"

inductive_cases gate_stepE [elim]: "gate_step s e s'"

text \<open>An approval of a lifecycle that some operation has consumed.\<close>

definition spent :: "string option \<Rightarrow> string \<Rightarrow> string option \<Rightarrow> gate_kind \<Rightarrow> gate_store \<Rightarrow> bool" where
  "spent l gid op k s \<longleftrightarrow> (\<exists>d g. gate_current s l = Inr d \<and> map_of d gid = Some g
     \<and> g_state g = GApplied \<and> g_appliedOperation g = op \<and> g_kind g = k)"

text \<open>Events that do not rewrite the history of this gate by hand.\<close>

fun leaves_alone :: "string option \<Rightarrow> string \<Rightarrow> gate_event \<Rightarrow> bool" where
  "leaves_alone l gid (Appended r) \<longleftrightarrow> log_key (g_lifecycleId r) \<noteq> log_key l \<or> g_id r \<noteq> gid"
| "leaves_alone l gid (Claimed l' k op v) \<longleftrightarrow> True"
| "leaves_alone l gid (Deleted i l') \<longleftrightarrow> log_key l' \<noteq> log_key l \<or> i \<noteq> gid"
| "leaves_alone l gid (Compacted l' now) \<longleftrightarrow> True"

text \<open>What the fold of one log looks like after an operation, in one place.\<close>

lemma gate_current_append:
  assumes "gate_append h s r = Inr s'" "version_ok r" "gate_current s l = Inr d"
  shows "\<exists>d'. gate_current s' l = Inr d' \<and>
     map_of d' = (if log_key l = log_key (g_lifecycleId r) then (map_of d)(g_id r \<mapsto> r) else map_of d)"
proof (cases "log_key l = log_key (g_lifecycleId r)")
  case True
  then show ?thesis
    using assms(3) gate_read_append(2) [OF assms(1,2) True] by (auto simp: gate_current_Inr update_conv')
next
  case False
  then have "gate_read s' l = gate_read s l"
    using gate_read_append(1) [OF assms(1,2)] by (simp add: gate_read_def)
  then show ?thesis using False assms(3) by (simp add: gate_current_def)
qed

lemma gate_current_rewrite:
  assumes "gate_read s l = Inr rs"
    and eff: "s' = s \<and> filter (\<lambda>r. P (g_id r)) rs = rs
      \<or> s' = put_log s l (log_rewrite (gate_log s l) (filter (\<lambda>r. P (g_id r)) rs))"
    and cur: "gate_current s l' = Inr d"
  shows "\<exists>d'. gate_current s' l' = Inr d' \<and>
     (\<forall>i. map_of d' i = (if log_key l' = log_key l \<and> \<not> P i then None else map_of d i))"
proof (cases "log_key l' = log_key l")
  case True
  then have "gate_read s l' = Inr rs" and "gate_read s' l' = Inr (filter (\<lambda>r. P (g_id r)) rs)"
    using assms(1) gate_rewrite_effect(1) [OF assms(1) eff]
      gate_read_log_cong [OF gate_log_key [OF True]] by (metis, metis gate_log_key gate_read_log_cong)
  then show ?thesis using True cur by (auto simp: gate_current_Inr lookup_fold_latest_filter)
next
  case False
  then show ?thesis
    using cur gate_rewrite_effect(2) [OF assms(1) eff False] by (simp add: gate_current_def gate_read_def)
qed

section \<open>Routing\<close>

text \<open>Every record lies in the log its own lifecycle id names.\<close>

definition routed :: "gate_store \<Rightarrow> bool" where
  "routed s \<longleftrightarrow> (\<forall>l r. Row r \<in> set (read_log_text (gate_log s l)) \<longrightarrow> log_key (g_lifecycleId r) = log_key l)"

lemma gate_read_Row: "gate_read s l = Inr rs \<Longrightarrow> r \<in> set rs \<Longrightarrow> Row r \<in> set (read_log_text (gate_log s l))"
proof -
  assume "gate_read s l = Inr rs" "r \<in> set rs"
  then have "Row r \<in> set (filter nonblank (read_log_text (gate_log s l)))"
    by (simp add: gate_read_def read_strict_Inr_iff)
  then show ?thesis by simp
qed

lemma routed_current:
  "routed s \<Longrightarrow> gate_current s l = Inr d \<Longrightarrow> map_of d i = Some g \<Longrightarrow> log_key (g_lifecycleId g) = log_key l"
  by (auto simp: gate_current_Inr routed_def dest!: lookup_fold_latest_key gate_read_Row)

lemma routed_append: "gate_append h s r = Inr s' \<Longrightarrow> routed s \<Longrightarrow> routed s'"
  by (auto simp: gate_append_Inr_iff routed_def log_append_def split: if_splits)

lemma routed_rewrite:
  assumes "gate_read s l = Inr rs"
    and "s' = s \<and> filter P rs = rs \<or> s' = put_log s l (log_rewrite (gate_log s l) (filter P rs))"
    and "routed s"
  shows "routed s'"
  using assms gate_read_Row [OF assms(1)] by (auto simp: routed_def log_rewrite_def split: if_splits)

lemma routed_claim: "claim_approval h s l k now policy op = Inr (v, s') \<Longrightarrow> routed s \<Longrightarrow> routed s'"
  using claim_approval_Inr [of h s l k now policy op v s'] by (auto split: if_splits dest: routed_append)

lemma routed_step: "gate_step s e s' \<Longrightarrow> routed s \<Longrightarrow> routed s'"
  by (auto elim!: gate_stepE dest: routed_append routed_claim dest!: gate_delete_effect gate_compact_effect
      intro: routed_rewrite)

interpretation routing: preserved gate_step "\<lambda>_. True" routed
  by unfold_locales (rule routed_step)

section \<open>A spent approval stays spent\<close>

lemma spent_append:
  assumes "gate_append h s r = Inr s'" "version_ok r" "spent l gid op k s"
    and "log_key (g_lifecycleId r) \<noteq> log_key l \<or> g_id r \<noteq> gid"
  shows "spent l gid op k s'"
proof -
  obtain d g where d: "gate_current s l = Inr d" "map_of d gid = Some g" "g_state g = GApplied"
    "g_appliedOperation g = op" "g_kind g = k"
    using assms(3) by (auto simp: spent_def)
  obtain d' where d': "gate_current s' l = Inr d'"
    "map_of d' = (if log_key l = log_key (g_lifecycleId r) then (map_of d)(g_id r \<mapsto> r) else map_of d)"
    using gate_current_append [OF assms(1,2) d(1)] by blast
  then have "map_of d' gid = Some g" using d(2) assms(4) by auto
  then show ?thesis using d d'(1) by (auto simp: spent_def)
qed

lemma spent_rewrite:
  assumes "gate_read s l' = Inr rs"
    and "s' = s \<and> filter (\<lambda>r. P (g_id r)) rs = rs
      \<or> s' = put_log s l' (log_rewrite (gate_log s l') (filter (\<lambda>r. P (g_id r)) rs))"
    and "spent l gid op k s" "log_key l \<noteq> log_key l' \<or> P gid"
  shows "spent l gid op k s'"
proof -
  obtain d g where d: "gate_current s l = Inr d" "map_of d gid = Some g" "g_state g = GApplied"
    "g_appliedOperation g = op" "g_kind g = k"
    using assms(3) by (auto simp: spent_def)
  obtain d' where "gate_current s' l = Inr d'" "map_of d' gid = map_of d gid"
    using gate_current_rewrite [OF assms(1,2) d(1)] assms(4) by auto
  then show ?thesis using d by (auto simp: spent_def)
qed

lemma spent_compact:
  assumes "gate_compact h s l' now = Inr (n, s')" "spent l gid op k s" "k \<in> CONSUMED_APPROVAL_GATE_KINDS"
  shows "spent l gid op k s'"
proof -
  obtain rs where rs: "gate_read s l' = Inr rs"
    and eff: "s' = s \<and> filter (\<lambda>r. g_id r \<in> gate_keep_ids rs now INTERACTION_RECORD_TTL) rs = rs
        \<or> s' = put_log s l' (log_rewrite (gate_log s l')
                 (filter (\<lambda>r. g_id r \<in> gate_keep_ids rs now INTERACTION_RECORD_TTL) rs))"
    using gate_compact_effect [OF assms(1)] by blast
  have "gid \<in> gate_keep_ids rs now INTERACTION_RECORD_TTL" if "log_key l = log_key l'"
  proof -
    have "gate_read s l = Inr rs" using rs gate_read_log_cong [OF gate_log_key [OF that]] by simp
    then show ?thesis
      using assms(2,3) keep_gate_applied
      by (auto simp: spent_def gate_current_Inr gate_keep_ids_iff)
  qed
  then show ?thesis using spent_rewrite [OF rs eff assms(2)] by blast
qed

text \<open>A claim appends only a gate that was approved, never one that is applied already.\<close>

lemma claim_append_other:
  assumes "claim_approval h s l' k' now policy op' = Inr (v, s')" "spent l gid op k s" "routed s"
  shows "spent l gid op k s'"
proof -
  obtain gates where gates: "gate_current s l' = Inr gates"
    and eff: "if permitted v \<and> (\<exists>g. newest_gate gates k' = Some g \<and> g_state g = GApproved)
       then gate_append (locked h (log_path s l')) s (apply_gate (the (newest_gate gates k')) now op') = Inr s'
       else s' = s"
    using claim_approval_Inr [OF assms(1)] by blast
  show ?thesis
  proof (cases "permitted v \<and> (\<exists>g. newest_gate gates k' = Some g \<and> g_state g = GApproved)")
    case True
    then obtain g where g: "newest_gate gates k' = Some g" "g_state g = GApproved" by blast
    have look: "map_of gates (g_id g) = Some g"
      by (rule gate_current_newest [OF gates g(1)])
    let ?r = "apply_gate g now op'"
    have r: "g_id ?r = g_id g" "g_lifecycleId ?r = g_lifecycleId g" "version_ok ?r"
      using gate_current_version [OF gates look] by (simp_all add: apply_gate_def version_ok_def)
    have key: "log_key (g_lifecycleId g) = log_key l'" by (rule routed_current [OF assms(3) gates look])
    have "log_key (g_lifecycleId ?r) \<noteq> log_key l \<or> g_id ?r \<noteq> gid"
    proof (rule ccontr)
      assume "\<not> ?thesis"
      then have "log_key l = log_key l'" "g_id g = gid" using r key by auto
      then have "gate_current s l = Inr gates"
        using gates gate_read_log_cong [OF gate_log_key] by (metis gate_current_def)
      then show False using assms(2) look g(2) \<open>g_id g = gid\<close> by (auto simp: spent_def)
    qed
    then show ?thesis using eff True g(1) spent_append [OF _ r(3) assms(2)] by auto
  next
    case False
    then have "s' = s" using eff by simp
    then show ?thesis using assms(2) by simp
  qed
qed

lemma spent_step:
  assumes "gate_step s e s'" "leaves_alone l gid e" "spent l gid op k s" "routed s"
    and "k \<in> CONSUMED_APPROVAL_GATE_KINDS"
  shows "spent l gid op k s'"
  using assms(1)
proof cases
  case (step_append h r)
  then show ?thesis using assms spent_append by simp
next
  case (step_claim h l' k' now policy op' v)
  then show ?thesis using assms claim_append_other by blast
next
  case (step_delete h i l' b)
  then obtain rs where "gate_read s l' = Inr rs"
    "s' = s \<and> filter (\<lambda>r. g_id r \<noteq> i) rs = rs
        \<or> s' = put_log s l' (log_rewrite (gate_log s l') (filter (\<lambda>r. g_id r \<noteq> i) rs))"
    using gate_delete_effect by blast
  then show ?thesis using spent_rewrite [of s l' rs s' "\<lambda>j. j \<noteq> i" l gid op k] assms step_delete by auto
next
  case (step_compact h l' now n)
  then show ?thesis using assms spent_compact by blast
qed

text \<open>What a permitted claim leaves behind.\<close>

lemma claim_spends:
  assumes "claim_approval h s l k now policy op = Inr (v, s')" "permitted v" "guard_gate_id v = Some gid"
    and "routed s"
  shows "spent l gid op k s'"
proof -
  obtain gates where gates: "gate_current s l = Inr gates" and v: "v = evaluate_gate gates k policy op"
    and eff: "if permitted v \<and> (\<exists>g. newest_gate gates k = Some g \<and> g_state g = GApproved)
       then gate_append (locked h (log_path s l)) s (apply_gate (the (newest_gate gates k)) now op) = Inr s'
       else s' = s"
    using claim_approval_Inr [OF assms(1)] by blast
  obtain g where g: "newest_gate gates k = Some g" "g_id g = gid" using assms(3) v by auto
  have look: "map_of gates gid = Some g"
    using gate_current_newest [OF gates g(1)] g(2) by simp
  note kind = newest_gate_Some(1) [OF g(1)]
  show ?thesis
  proof (cases "g_state g = GApproved")
    case True
    let ?r = "apply_gate g now op"
    have ap: "gate_append (locked h (log_path s l)) s ?r = Inr s'" using eff assms(2) g(1) True by simp
    have "version_ok ?r" using gate_current_version [OF gates look] by (simp add: apply_gate_def version_ok_def)
    moreover have "log_key l = log_key (g_lifecycleId ?r)"
      using routed_current [OF assms(4) gates look] by (simp add: apply_gate_def)
    ultimately obtain d' where "gate_current s' l = Inr d'" "map_of d' = (map_of gates)(g_id ?r \<mapsto> ?r)"
      using gate_current_append [OF ap _ gates] by auto
    then show ?thesis using g(2) kind by (auto simp: spent_def apply_gate_def)
  next
    case False
    then have "s' = s" "g_state g = GApplied" "g_appliedOperation g = op"
      using eff assms(2) g(1) v by (auto simp: permitted_iff)
    then show ?thesis using gates look kind by (auto simp: spent_def)
  qed
qed

lemma spent_claim_verdict:
  assumes "spent l gid op k s" "claim_approval h s l k now policy op' = Inr (v, s')" "permitted v"
  shows "guard_gate_id v \<noteq> None"
    and "guard_gate_id v = Some gid \<Longrightarrow> op' = op \<and> op \<noteq> None \<and> s' = s"
proof -
  obtain gates where gates: "gate_current s l = Inr gates" and v: "v = evaluate_gate gates k policy op'"
    and eff: "if permitted v \<and> (\<exists>g. newest_gate gates k = Some g \<and> g_state g = GApproved)
       then gate_append (locked h (log_path s l)) s (apply_gate (the (newest_gate gates k)) now op') = Inr s'
       else s' = s"
    using claim_approval_Inr [OF assms(2)] by blast
  obtain g where g: "map_of gates gid = Some g" "g_state g = GApplied" "g_appliedOperation g = op" "g_kind g = k"
    using assms(1) gates by (auto simp: spent_def)
  then have "g \<in> set (dict_values gates)" by (metis image_eqI list.set_map map_of_SomeD snd_conv)
  then show "guard_gate_id v \<noteq> None" using g(4) v newest_gate_None [of gates k] by auto
  assume "guard_gate_id v = Some gid"
  then obtain g' where g': "newest_gate gates k = Some g'" "g_id g' = gid" using v by auto
  then have "g' = g" using gate_current_newest [OF gates g'(1)] g(1) by simp
  then show "op' = op \<and> op \<noteq> None \<and> s' = s"
    using g' g(2,3) assms(3) v eff by (auto simp: permitted_iff)
qed

section \<open>Refinement of an abstract gate table\<close>

text \<open>
  What the store promises, without files, lines or folds: a table of current gates per log.
  A refused claim leaves the table alone. A permitted one is about the newest gate of its kind, which was
  approved and is applied now, or had been applied by the same operation; or there is no gate of the kind.
  A deletion and a compaction remove entries, a compaction exactly those retention does not keep.
\<close>

type_synonym gate_table = "string option \<Rightarrow> string \<rightharpoonup> gate_record"

fun table_step :: "gate_table \<Rightarrow> gate_event \<Rightarrow> gate_table \<Rightarrow> bool" where
  "table_step A (Appended r) A' \<longleftrightarrow>
     A' = A(log_key (g_lifecycleId r) := (A (log_key (g_lifecycleId r)))(g_id r \<mapsto> r))"
| "table_step A (Claimed l k op v) A' \<longleftrightarrow>
     (if \<not> permitted v then A' = A
      else (guard_gate_id v = None \<and> (\<forall>i g. A (log_key l) i = Some g \<longrightarrow> g_kind g \<noteq> k) \<and> A' = A)
        \<or> (\<exists>g. guard_gate_id v = Some (g_id g) \<and> A (log_key l) (g_id g) = Some g \<and> g_kind g = k
             \<and> (\<forall>i g'. A (log_key l) i = Some g' \<and> g_kind g' = k \<longrightarrow> g_ts g' \<le> g_ts g)
             \<and> (g_state g = GApproved \<and> (\<exists>now. A' = A(log_key l := (A (log_key l))(g_id g \<mapsto> apply_gate g now op)))
               \<or> g_state g = GApplied \<and> op \<noteq> None \<and> g_appliedOperation g = op \<and> A' = A)))"
| "table_step A (Deleted i l) A' \<longleftrightarrow> A' = A(log_key l := (A (log_key l))(i := None))"
| "table_step A (Compacted l now) A' \<longleftrightarrow>
     A' = A(log_key l := (\<lambda>i. case A (log_key l) i of None \<Rightarrow> None
       | Some g \<Rightarrow> if keep_gate now INTERACTION_RECORD_TTL g then Some g else None))"

definition readable :: "gate_store \<Rightarrow> bool" where
  "readable s \<longleftrightarrow> (\<forall>l. \<exists>d. gate_current s l = Inr d)"

text \<open>The logs have normalised keys; the table is empty elsewhere.\<close>

definition table_of :: "gate_store \<Rightarrow> gate_table" where
  "table_of s l = (if log_key l = l then (case gate_current s l of Inl _ \<Rightarrow> Map.empty | Inr d \<Rightarrow> map_of d)
     else Map.empty)"

lemma log_key_idem [simp]: "log_key (log_key l) = log_key l"
  by (simp add: log_key_def)

lemma gate_current_key: "gate_current s (log_key l) = gate_current s l"
  using gate_log_key [of "log_key l" l s] by (simp add: gate_current_def gate_read_def)

lemma table_of_Inr: "gate_current s l = Inr d \<Longrightarrow> table_of s (log_key l) = map_of d"
  by (simp add: table_of_def gate_current_key)

text \<open>Two stores whose current folds are related key by key have related tables.\<close>

lemma table_eqI:
  assumes "readable s"
    and "\<And>l d. log_key l = l \<Longrightarrow> gate_current s l = Inr d \<Longrightarrow> \<exists>d'. gate_current s' l = Inr d' \<and> map_of d' = F l (map_of d)"
    and "\<And>l. log_key l \<noteq> l \<Longrightarrow> F l Map.empty = Map.empty"
  shows "readable s'" and "table_of s' = (\<lambda>l. F l (table_of s l))"
proof -
  show "readable s'"
    unfolding readable_def
    by (metis assms(1,2) gate_current_key log_key_idem readable_def)
  show "table_of s' = (\<lambda>l. F l (table_of s l))"
  proof
    show "table_of s' l = F l (table_of s l)" for l
    proof (cases "log_key l = l")
      case True
      then show ?thesis
        using assms(1) [unfolded readable_def] assms(2) [OF True] by (metis table_of_Inr)
    next
      case False
      then show ?thesis using assms(3) by (simp add: table_of_def)
    qed
  qed
qed

lemma table_append:
  assumes "gate_append h s r = Inr s'" "version_ok r" "readable s"
  shows "readable s'" and "table_step (table_of s) (Appended r) (table_of s')"
proof -
  let ?F = "\<lambda>l m. if l = log_key (g_lifecycleId r) then m(g_id r \<mapsto> r) else m"
  have "readable s'" and t: "table_of s' = (\<lambda>l. ?F l (table_of s l))"
    using table_eqI [OF assms(3), of s' ?F] gate_current_append [OF assms(1,2)] by force+
  then show "readable s'" "table_step (table_of s) (Appended r) (table_of s')"
    by (auto simp: fun_eq_iff t)
qed

lemma table_rewrite:
  assumes "gate_read s l = Inr rs"
    and "s' = s \<and> filter (\<lambda>r. P (g_id r)) rs = rs
      \<or> s' = put_log s l (log_rewrite (gate_log s l) (filter (\<lambda>r. P (g_id r)) rs))"
    and "readable s"
  shows "readable s'"
    and "table_of s' = (\<lambda>l' i. if l' = log_key l \<and> \<not> P i then None else table_of s l' i)"
proof -
  let ?F = "\<lambda>l' m i. if l' = log_key l \<and> \<not> P i then None else m i"
  have "readable s'" and t: "table_of s' = (\<lambda>l. ?F l (table_of s l))"
    using table_eqI [OF assms(3), of s' ?F] gate_current_rewrite [OF assms(1,2)] by (force simp: fun_eq_iff)+
  then show "readable s'"
    and "table_of s' = (\<lambda>l' i. if l' = log_key l \<and> \<not> P i then None else table_of s l' i)"
    by auto
qed

lemma table_claim:
  assumes "claim_approval h s l k now policy op = Inr (v, s')" "readable s" "routed s"
  shows "readable s'" and "table_step (table_of s) (Claimed l k op v) (table_of s')"
proof -
  obtain gates where gates: "gate_current s l = Inr gates" and v: "v = evaluate_gate gates k policy op"
    and eff: "if permitted v \<and> (\<exists>g. newest_gate gates k = Some g \<and> g_state g = GApproved)
       then gate_append (locked h (log_path s l)) s (apply_gate (the (newest_gate gates k)) now op) = Inr s'
       else s' = s"
    using claim_approval_Inr [OF assms(1)] by blast
  have tab: "table_of s (log_key l) = map_of gates" by (rule table_of_Inr [OF gates])
  have vals: "map_of gates i = Some g \<Longrightarrow> g \<in> set (dict_values gates)" for i g
    by (metis image_eqI list.set_map map_of_SomeD snd_conv)
  have "readable s' \<and> table_step (table_of s) (Claimed l k op v) (table_of s')"
  proof (cases "permitted v")
    case False
    then show ?thesis using eff assms(2) by simp
  next
    case perm: True
    show ?thesis
    proof (cases "newest_gate gates k")
      case None
      then have "s' = s" "guard_gate_id v = None" using eff v by auto
      moreover have "table_of s (log_key l) i = Some g \<Longrightarrow> g_kind g \<noteq> k" for i g
        using None [unfolded newest_gate_None] vals [of i g] by (simp add: tab del: set_map)
      ultimately show ?thesis using perm assms(2) unfolding table_step.simps by (metis (no_types))
    next
      case (Some g)
      note look = gate_current_newest [OF gates Some]
      have newest: "\<forall>i g'. table_of s (log_key l) i = Some g' \<and> g_kind g' = k \<longrightarrow> g_ts g' \<le> g_ts g"
        using newest_gate_Some(3) [OF Some] vals by (auto simp: tab simp del: map_of_eq_Some_iff)
      have own: "guard_gate_id v = Some (g_id g)" "table_of s (log_key l) (g_id g) = Some g" "g_kind g = k"
        using v Some newest_gate_Some(1) [OF Some] look by (simp_all add: tab)
      have st: "g_state g = GApproved \<or> g_state g = GApplied \<and> op \<noteq> None \<and> g_appliedOperation g = op"
        using perm v by (auto simp: permitted_iff Some)
      show ?thesis
      proof (cases "g_state g = GApproved")
        case True
        let ?r = "apply_gate g now op"
        have ap: "gate_append (locked h (log_path s l)) s ?r = Inr s'" using eff perm True Some by simp
        have ver: "version_ok ?r" using gate_current_version [OF gates look] by (simp add: apply_gate_def version_ok_def)
        have r: "log_key (g_lifecycleId ?r) = log_key l" "g_id ?r = g_id g"
          using routed_current [OF assms(3) gates look] by (simp_all add: apply_gate_def)
        have "table_of s' = (table_of s)(log_key l := (table_of s (log_key l))(g_id g \<mapsto> ?r))"
          using table_append(2) [OF ap ver assms(2)] by (simp add: r)
        then show ?thesis
          using table_append(1) [OF ap ver assms(2)] perm own newest True unfolding table_step.simps by auto
      next
        case False
        then have "s' = s" using eff Some by auto
        then show ?thesis using st False perm own newest assms(2) unfolding table_step.simps by auto
      qed
    qed
  qed
  then show "readable s'" and "table_step (table_of s) (Claimed l k op v) (table_of s')" by blast+
qed

lemma table_delete:
  assumes "gate_delete h s i l = Inr (b, s')" "readable s"
  shows "readable s'" and "table_step (table_of s) (Deleted i l) (table_of s')"
proof -
  obtain rs where rs: "gate_read s l = Inr rs"
    and eff: "s' = s \<and> filter (\<lambda>r. g_id r \<noteq> i) rs = rs
        \<or> s' = put_log s l (log_rewrite (gate_log s l) (filter (\<lambda>r. g_id r \<noteq> i) rs))"
    using gate_delete_effect [OF assms(1)] by blast
  show "readable s'" by (rule table_rewrite(1) [OF rs eff assms(2)])
  show "table_step (table_of s) (Deleted i l) (table_of s')"
    by (auto simp: table_rewrite(2) [OF rs eff assms(2)] fun_eq_iff)
qed

lemma table_compact:
  assumes "gate_compact h s l now = Inr (n, s')" "readable s"
  shows "readable s'" and "table_step (table_of s) (Compacted l now) (table_of s')"
proof -
  obtain rs where rs: "gate_read s l = Inr rs"
    and eff: "s' = s \<and> filter (\<lambda>r. g_id r \<in> gate_keep_ids rs now INTERACTION_RECORD_TTL) rs = rs
        \<or> s' = put_log s l (log_rewrite (gate_log s l)
                 (filter (\<lambda>r. g_id r \<in> gate_keep_ids rs now INTERACTION_RECORD_TTL) rs))"
    using gate_compact_effect [OF assms(1)] by blast
  have tab: "table_of s (log_key l) = map_of (fold_latest g_id rs)"
    using rs by (intro table_of_Inr) (auto simp: gate_current_Inr)
  show "readable s'" by (rule table_rewrite(1) [OF rs eff assms(2)])
  show "table_step (table_of s) (Compacted l now) (table_of s')"
    by (auto simp: table_rewrite(2) [OF rs eff assms(2)] fun_eq_iff tab gate_keep_ids_iff
        simp del: map_of_eq_Some_iff split: option.splits)
qed

section \<open>Finding a gate by its id\<close>

lemma find_in_Inr:
  "find_in s i ls = Inr res \<Longrightarrow>
     (case res of
        Some g \<Rightarrow> \<exists>l \<in> set ls. \<exists>d. gate_current s (Some l) = Inr d \<and> map_of d i = Some g
      | None \<Rightarrow> \<forall>l \<in> set ls. \<exists>d. gate_current s (Some l) = Inr d \<and> map_of d i = None)"
  by (induction ls) (auto simp: rbind_eq_Inr_iff split: option.splits)

lemma lifecycle_dirs_mem: "l \<in> set (lifecycle_dirs s) \<longleftrightarrow> map_of (gs_logs s) (Some l) \<noteq> None"
  by (force simp: lifecycle_dirs_def List.map_filter_def map_of_eq_None_iff)

lemma gate_current_absent: "gate_log s l = None \<Longrightarrow> gate_current s l = Inr []"
  by (simp add: gate_current_def gate_read_def read_strict_def)

section \<open>Properties\<close>

text \<open>
  A store for the witnesses: lifecycle \<open>L1\<close> holds one closeout
  gate the developer approved.
\<close>

definition sample_gate :: gate_record where
  "sample_gate = \<lparr>schemaVersion = SCHEMA_VERSION, g_id = ''G1'', g_ts = ''2026-01-01T00:00:00+00:00'',
     g_kind = closeout_approval, g_state = GApproved, g_lifecycleId = Some ''L1'', g_enclosure = None,
     g_repoId = None, g_packet = [], g_requiredDecision = None, g_decidedBy = Some ''developer'',
     g_decidedVia = Some Via_dashboard, g_decidingRole = None, g_decisionNote = None,
     g_decidedAt = Some ''2026-01-01T00:00:00+00:00'', g_evidenceRefs = [], g_appliedOperation = None\<rparr>"

definition sample_store :: gate_store where
  "sample_store = \<lparr>gs_root = [''observer''], gs_logs = [(Some ''L1'', [Row sample_gate])]\<rparr>"

definition sample_spent :: gate_store where
  "sample_spent = sample_store\<lparr>gs_logs := [(Some ''L1'',
     [Row sample_gate, Row (apply_gate sample_gate ''2026-01-02T00:00:00+00:00'' (Some ''op-1''))])]\<rparr>"

definition sample_guard :: "guard_reason \<Rightarrow> gate_guard" where
  "sample_guard r = guard closeout_approval True r (Some ''G1'')"

lemma sample_may_write [simp]: "may_write sample_host s l"
  by (simp add: may_write_def sample_host_def check_declared_writer_def declared_process_role_def
      GATE_OWNERSHIP_def lockable_def require_durable_write_target_def checkout_cli_location_def)

lemma sample_claim:
  "claim_approval sample_host sample_store (Some ''L1'') closeout_approval ''2026-01-02T00:00:00+00:00'' []
     (Some ''op-1'') = Inr (sample_guard ApprovedByPolicy, sample_spent)"
  by code_simp

lemma sample_reclaim:
  "claim_approval sample_host sample_spent (Some ''L1'') closeout_approval ''2026-01-03T00:00:00+00:00'' []
     (Some ''op-1'') = Inr (sample_guard RecoveringOperation, sample_spent)"
  by code_simp

lemma sample_compact: "gate_compact sample_host sample_spent (Some ''L1'') 0 = Inr (0, sample_spent)"
  by code_simp

lemma sample_routed: "routed sample_store"
  by (auto simp: routed_def sample_store_def gate_log_def log_key_def sample_gate_def split: if_splits)

interpretation spending: preserved gate_step "leaves_alone l gid"
    "\<lambda>s. routed s \<and> k \<in> CONSUMED_APPROVAL_GATE_KINDS \<and> spent l gid op k s" for l gid op k
  by unfold_locales (blast intro: routed_step spent_step)

text \<open>C1. One approval is spent once. After a claim is permitted through gate \<open>gid\<close>, whatever
  appends, claims, deletions and compactions of any process follow - as long as none of them
  writes or deletes that very gate by hand - a later permitted claim of the same kind on the same
  lifecycle never falls back to the gateless verdict, and goes through \<open>gid\<close> again only as the
  recovery of the same named operation, in which case it writes nothing.\<close>

theorem approval_spent_once:
  assumes "claim_approval h s l k now policy op = Inr (v, s1)" "permitted v" "guard_gate_id v = Some gid"
    and "routed s" "k \<in> CONSUMED_APPROVAL_GATE_KINDS"
    and "run gate_step s1 es s2" "\<And>e. e \<in> set es \<Longrightarrow> leaves_alone l gid e"
    and "claim_approval h' s2 l k now' policy' op' = Inr (v', s3)" "permitted v'"
  shows "guard_gate_id v' \<noteq> None \<and> (guard_gate_id v' = Some gid \<longrightarrow> op' = op \<and> op \<noteq> None \<and> s3 = s2)"
proof -
  have "spent l gid op k s1" by (rule claim_spends [OF assms(1-4)])
  moreover have "routed s1" by (rule routed_claim [OF assms(1,4)])
  ultimately have "spent l gid op k s2" using spending.run_inv [OF assms(6,7)] assms(5) by blast
  then show ?thesis using spent_claim_verdict [OF _ assms(8,9)] by blast
qed

theorem approval_spent_once_witness:
  "guard_gate_id (sample_guard RecoveringOperation) = Some ''G1''
   \<and> Some ''op-1'' = Some ''op-1'' \<and> sample_spent = sample_spent"
proof -
  have "run gate_step sample_spent [Compacted (Some ''L1'') 0] sample_spent"
    using step_compact [OF sample_compact] by simp
  moreover have "closeout_approval \<in> CONSUMED_APPROVAL_GATE_KINDS"
    by (simp add: CONSUMED_APPROVAL_GATE_KINDS_def MUTATING_TOOL_GATE_KINDS_def)
  ultimately show ?thesis
    using approval_spent_once [OF sample_claim _ _ sample_routed _ _ _ sample_reclaim, of "''G1''"
        "[Compacted (Some ''L1'') 0]"]
    by (simp add: sample_guard_def guard_def)
qed

lemma gate_current_compact:
  assumes "gate_compact h s l now = Inr (n, s')"
  shows "\<exists>rs. gate_read s l = Inr rs \<and> gate_current s' l =
     Inr (filter (\<lambda>p. fst p \<in> gate_keep_ids rs now INTERACTION_RECORD_TTL) (fold_latest g_id rs))"
proof -
  obtain rs where rs: "gate_read s l = Inr rs"
    and eff: "s' = s \<and> filter (\<lambda>r. g_id r \<in> gate_keep_ids rs now INTERACTION_RECORD_TTL) rs = rs
        \<or> s' = put_log s l (log_rewrite (gate_log s l)
                 (filter (\<lambda>r. g_id r \<in> gate_keep_ids rs now INTERACTION_RECORD_TTL) rs))"
    using gate_compact_effect [OF assms] by blast
  then show ?thesis
    using gate_rewrite_effect(1) [OF rs eff] fold_latest_filter [of g_id "\<lambda>i. i \<in> gate_keep_ids rs now INTERACTION_RECORD_TTL" rs]
    by (auto simp: gate_current_def)
qed

lemma gate_keep_ids_mem:
  assumes "(i, g) \<in> set (fold_latest g_id rs)"
  shows "i \<in> gate_keep_ids rs now ttl \<longleftrightarrow> keep_gate now ttl g"
  using assms by (simp add: gate_keep_ids_iff)

text \<open>The folded gates a compaction leaves are the folded gates it keeps, in their order.\<close>

lemma gate_values_compact:
  assumes "gate_compact h s l now = Inr (n, s')" "gate_current s l = Inr gates"
  shows "\<exists>gates'. gate_current s' l = Inr gates'
     \<and> dict_values gates' = filter (keep_gate now INTERACTION_RECORD_TTL) (dict_values gates)"
proof -
  obtain rs where rs: "gates = fold_latest g_id rs"
    and cur: "gate_current s' l =
      Inr (filter (\<lambda>p. fst p \<in> gate_keep_ids rs now INTERACTION_RECORD_TTL) gates)"
    using gate_current_compact [OF assms(1)] assms(2) by (auto simp: gate_current_Inr)
  have "filter (\<lambda>p. fst p \<in> gate_keep_ids rs now INTERACTION_RECORD_TTL) gates
      = filter (keep_gate now INTERACTION_RECORD_TTL \<circ> snd) gates"
    using gate_keep_ids_mem [of _ _ rs] by (intro filter_cong) (auto simp: rs)
  then show ?thesis using cur by (simp add: filter_map)
qed

lemma newest_gate_compact:
  assumes "gate_compact h s l now = Inr (n, s')" "gate_current s l = Inr gates"
    and "newest_gate gates k = Some g" "keep_gate now INTERACTION_RECORD_TTL g"
  shows "\<exists>gates'. gate_current s' l = Inr gates' \<and> newest_gate gates' k = Some g"
proof -
  obtain gates' where cur: "gate_current s' l = Inr gates'"
    and vals: "dict_values gates' = filter (keep_gate now INTERACTION_RECORD_TTL) (dict_values gates)"
    using gate_values_compact [OF assms(1,2)] by blast
  have "filter (\<lambda>g. g_kind g = k) (dict_values gates')
      = filter (keep_gate now INTERACTION_RECORD_TTL) (filter (\<lambda>g. g_kind g = k) (dict_values gates))"
    by (simp add: vals conj_commute)
  then have "newest_gate gates' k = newest_gate gates k"
    using py_max_by_filter [of g_ts _ g "keep_gate now INTERACTION_RECORD_TTL"] assms(3,4)
    by (simp add: newest_gate_def del: filter_filter)
  then show ?thesis using cur assms(3) by simp
qed

text \<open>The verdict depends on the newest gate of the kind only.\<close>

lemma evaluate_gate_newest:
  "newest_gate gates k = newest_gate gates' k \<Longrightarrow> evaluate_gate gates k policy op = evaluate_gate gates' k policy op"
  by (simp add: evaluate_gate_def newest_gate_def)

text \<open>C7. Compaction does not change an enforcement verdict whose gate it keeps: if the newest
  gate of a kind is retained (in particular every applied gate of a consumed kind, at any age),
  the verdict for that kind is the same before and after, under every policy and for every
  operation.\<close>

theorem compact_keeps_verdict:
  assumes "gate_compact h s l now = Inr (n, s')" "gate_current s l = Inr gates"
    and "newest_gate gates k = Some g" "keep_gate now INTERACTION_RECORD_TTL g"
  shows "\<exists>gates'. gate_current s' l = Inr gates'
     \<and> evaluate_gate gates' k policy op = evaluate_gate gates k policy op"
  using newest_gate_compact [OF assms] assms(3) by (auto intro!: evaluate_gate_newest)

theorem compact_keeps_verdict_witness:
  "\<exists>gates'. gate_current sample_spent (Some ''L1'') = Inr gates'
     \<and> evaluate_gate gates' closeout_approval [] (Some ''op-2'')
       = evaluate_gate [(''G1'', apply_gate sample_gate ''2026-01-02T00:00:00+00:00'' (Some ''op-1''))]
           closeout_approval [] (Some ''op-2'')"
proof (rule compact_keeps_verdict [OF sample_compact])
  show "gate_current sample_spent (Some ''L1'') =
      Inr [(''G1'', apply_gate sample_gate ''2026-01-02T00:00:00+00:00'' (Some ''op-1''))]"
    by code_simp
  show "newest_gate [(''G1'', apply_gate sample_gate ''2026-01-02T00:00:00+00:00'' (Some ''op-1''))]
      closeout_approval = Some (apply_gate sample_gate ''2026-01-02T00:00:00+00:00'' (Some ''op-1''))"
    by code_simp
  show "keep_gate 0 INTERACTION_RECORD_TTL
      (apply_gate sample_gate ''2026-01-02T00:00:00+00:00'' (Some ''op-1''))"
    by code_simp
qed

text \<open>The dashboard's projection is what a compaction would leave: on a log the strict read
  accepts, the keep-filtered fold rendered at an instant is exactly the enforcement fold of the
  log compacted at that instant.\<close>

lemma projected_current_is_compacted:
  assumes "gate_compact h s l now = Inr (n, s')"
  shows "gate_current s' l = Inr (projected_current s l (Some now))"
proof -
  obtain rs where rs: "gate_read s l = Inr rs"
    and cur: "gate_current s' l =
      Inr (filter (\<lambda>p. fst p \<in> gate_keep_ids rs now INTERACTION_RECORD_TTL) (fold_latest g_id rs))"
    using gate_current_compact [OF assms] by blast
  have "read_for_projection s l = rs"
    using rs read_tolerant_strict by (simp add: read_for_projection_def gate_read_def)
  then show ?thesis
    using cur fold_latest_filter [of g_id "\<lambda>i. i \<in> gate_keep_ids rs now INTERACTION_RECORD_TTL" rs]
    by (simp add: projected_current_def Let_def)
qed

lemma projected_current_is_compacted_witness:
  "gate_current sample_spent (Some ''L1'') = Inr (projected_current sample_spent (Some ''L1'') (Some 0))"
  by (rule projected_current_is_compacted [OF sample_compact])

text \<open>C5. The store refines the abstract gate table: from a readable store whose records lie in
  their own logs, every operation of every process is a step of the table with the same event,
  and leaves a readable, routed store. In the table a claim that permits about a gate marks the
  newest gate of the kind applied by this operation, unless this operation had applied it
  before; a refused claim changes nothing.\<close>

theorem gate_store_refines_table:
  assumes "gate_step s e s'" "readable s" "routed s"
  shows "table_step (table_of s) e (table_of s') \<and> readable s' \<and> routed s'"
  using assms(1)
proof cases
  case (step_append h r)
  then show ?thesis using table_append [of h s r s'] assms routed_step by blast
next
  case (step_claim h l k now policy op v)
  then show ?thesis using table_claim [of h s l k now policy op v s'] assms routed_step by blast
next
  case (step_delete h i l b)
  then show ?thesis using table_delete [of h s i l b s'] assms routed_step by blast
next
  case (step_compact h l now n)
  then show ?thesis using table_compact [of h s l now n s'] assms routed_step by blast
qed

lemma sample_readable: "readable sample_store"
  unfolding readable_def
proof
  fix l
  show "\<exists>d. gate_current sample_store l = Inr d"
  proof (cases "log_key l = Some ''L1''")
    case True
    then have "gate_current sample_store l = gate_current sample_store (Some ''L1'')"
      using gate_current_key [of sample_store l] by simp
    moreover have "gate_current sample_store (Some ''L1'') = Inr [(''G1'', sample_gate)]" by code_simp
    ultimately show ?thesis by simp
  next
    case False
    then show ?thesis using gate_current_absent [of sample_store l] by (simp add: gate_log_def sample_store_def)
  qed
qed

theorem gate_store_refines_table_witness:
  "table_step (table_of sample_store)
     (Claimed (Some ''L1'') closeout_approval (Some ''op-1'') (sample_guard ApprovedByPolicy))
     (table_of sample_spent) \<and> readable sample_spent \<and> routed sample_spent"
  by (rule gate_store_refines_table [OF step_claim [OF sample_claim] sample_readable sample_routed])

lemma routed_hit:
  "routed s \<Longrightarrow> gate_current s l = Inr d \<Longrightarrow> map_of d i = Some g \<Longrightarrow>
   \<exists>d. gate_current s (g_lifecycleId g) = Inr d \<and> map_of d i = Some g"
  using routed_current [of s l d i g] gate_current_key [of s] by metis

lemma gate_find_hit:
  assumes "routed s" "gate_find s i = Inr (Some g)"
  shows "\<exists>d. gate_current s (g_lifecycleId g) = Inr d \<and> map_of d i = Some g"
proof -
  obtain d0 where d0: "gate_current s None = Inr d0"
    and res: "(case map_of d0 i of Some hit \<Rightarrow> Inr (Some hit) | None \<Rightarrow> find_in s i (lifecycle_dirs s)) = Inr (Some g)"
    using assms(2) by (auto simp: gate_find_def rbind_eq_Inr_iff)
  show ?thesis
  proof (cases "map_of d0 i")
    case (Some g')
    then show ?thesis using res routed_hit [OF assms(1) d0] by simp
  next
    case None
    then have "find_in s i (lifecycle_dirs s) = Inr (Some g)" using res by simp
    then obtain l d where "gate_current s (Some l) = Inr d" "map_of d i = Some g"
      using find_in_Inr [of s i "lifecycle_dirs s" "Some g"] by (auto simp del: map_of_eq_Some_iff)
    then show ?thesis by (rule routed_hit [OF assms(1)])
  qed
qed

text \<open>Looking a gate up by its id is sound and complete: a hit is the current snapshot in the
  log of its own lifecycle, so a decision appended by that lifecycle id lands where the gate was
  found; a miss means that no log holds a gate with this id.\<close>

lemma gate_find_correct:
  assumes "routed s" "gate_find s i = Inr res"
  shows "case res of
      Some g \<Rightarrow> \<exists>d. gate_current s (g_lifecycleId g) = Inr d \<and> map_of d i = Some g
    | None \<Rightarrow> \<forall>l. \<exists>d. gate_current s l = Inr d \<and> map_of d i = None"
proof (cases res)
  case (Some g)
  then show ?thesis using gate_find_hit [of s i g] assms by simp
next
  case None
  then obtain d0 where d0: "gate_current s None = Inr d0" and miss: "map_of d0 i = None"
    and *: "find_in s i (lifecycle_dirs s) = Inr None"
    using assms(2) by (auto simp: gate_find_def rbind_eq_Inr_iff split: option.splits)
  have "\<exists>d. gate_current s l = Inr d \<and> map_of d i = None" for l
  proof (cases "log_key l")
    case None
    then have "gate_current s l = Inr d0" using d0 gate_current_key [of s l] by simp
    then show ?thesis using miss by simp
  next
    case (Some l')
    then have "gate_current s l = gate_current s (Some l')" using gate_current_key [of s l] by simp
    moreover have "gate_log s (Some l') = map_of (gs_logs s) (Some l')"
      using Some by (auto simp: gate_log_def log_key_def split: if_splits)
    ultimately show ?thesis
      using find_in_Inr [OF *] gate_current_absent [of s "Some l'"] lifecycle_dirs_mem [of l' s]
      by (cases "l' \<in> set (lifecycle_dirs s)") auto
  qed
  then show ?thesis using None by simp
qed

lemma gate_find_correct_witness:
  "case Some sample_gate of
      Some g \<Rightarrow> \<exists>d. gate_current sample_store (g_lifecycleId g) = Inr d \<and> map_of d ''G1'' = Some g
    | None \<Rightarrow> \<forall>l. \<exists>d. gate_current sample_store l = Inr d \<and> map_of d ''G1'' = None"
proof (rule gate_find_correct [OF sample_routed])
  show "gate_find sample_store ''G1'' = Inr (Some sample_gate)" by code_simp
qed

text \<open>C8. The authority path fails closed on a damaged log: while a gate log holds a line that
  does not validate, every claim on it raises and neither a deletion nor a compaction rewrites it.
  Such a line is a torn one, or a record whose schema version is not two numerals around a dot of
  which the first is 1.\<close>

theorem damaged_log_fails_closed:
  assumes "line \<in> set (read_log_text (gate_log s l))"
    and "(\<exists>t. line = Torn t)
       \<or> (\<exists>r. line = Row r
            \<and> (parse_digits (takeWhile (\<lambda>c. c \<noteq> CHR ''.'') (schemaVersion r)) \<noteq> Some 1
               \<or> parse_digits (tl (dropWhile (\<lambda>c. c \<noteq> CHR ''.'') (schemaVersion r))) = None))"
  shows "(\<exists>e. claim_approval h s l k now policy op = Inl e) \<and> (\<exists>e. gate_delete h s i l = Inl e)
    \<and> (\<exists>e. gate_compact h s l when = Inl e)"
proof -
  have "line \<noteq> Blank" and "\<not> version_ok r" if "line = Row r" for r
    using assms(2) that version_unsupported [of r] by auto
  then obtain e where e: "gate_read s l = Inl e"
    using unvalidated_line_unreadable [OF assms(1)] assms(2) by blast
  have "gate_delete h s i l \<noteq> Inr x" for x
    using gate_delete_effect [of h s i l "fst x" "snd x"] e by auto
  moreover have "gate_compact h s l when \<noteq> Inr x" for x
    using gate_compact_effect [of h s l "when" "fst x" "snd x"] e by auto
  ultimately show ?thesis
    using claim_unreadable_refused [OF e] by (metis sum.exhaust)
qed

text \<open>A log whose one record says it is of major version 2.\<close>

definition sample_foreign_log :: gate_store where
  "sample_foreign_log = sample_store\<lparr>gs_logs := [(None, [Row (sample_gate\<lparr>schemaVersion := ''2.0''\<rparr>)])]\<rparr>"

theorem damaged_log_fails_closed_witness:
  "(\<exists>e. claim_approval sample_host sample_foreign_log None closeout_approval ''now'' [] None = Inl e)
   \<and> (\<exists>e. gate_delete sample_host sample_foreign_log ''G1'' None = Inl e)
   \<and> (\<exists>e. gate_compact sample_host sample_foreign_log None 0 = Inl e)"
proof (rule damaged_log_fails_closed)
  show "Row (sample_gate\<lparr>schemaVersion := ''2.0''\<rparr>) \<in> set (read_log_text (gate_log sample_foreign_log None))"
    by (simp add: gate_log_def log_key_def sample_foreign_log_def)
  have "parse_digits (takeWhile (\<lambda>c. c \<noteq> CHR ''.'') ''2.0'') \<noteq> Some 1" by code_simp
  then show "(\<exists>t. Row (sample_gate\<lparr>schemaVersion := ''2.0''\<rparr>) = Torn t)
       \<or> (\<exists>r. Row (sample_gate\<lparr>schemaVersion := ''2.0''\<rparr>) = Row r
            \<and> (parse_digits (takeWhile (\<lambda>c. c \<noteq> CHR ''.'') (schemaVersion r)) \<noteq> Some 1
               \<or> parse_digits (tl (dropWhile (\<lambda>c. c \<noteq> CHR ''.'') (schemaVersion r))) = None))"
    by simp
qed

end
