(* ===== verification/Expectations.thy ===== *)
theory Expectations
  imports Durable_Store Task_Document_Ref
begin

text \<open>
  \<open>controlplane/expectation_rows.py\<close>: durable deadline rows. A row is written in the call that
  dispatches work or opens a gate, is marked met or missed once, and is reclaimed an hour after
  that. The log is read strictly.
\<close>

section \<open>Rows\<close>

datatype expectation_kind = Briefed_by | Verdict_by | Turn_report_by | Ack_by

datatype expectation_state = XPending | XMet | XMissed

record expectation_row = durable_record +
  x_schema :: string
  x_id :: string
  x_ts :: string
  x_kind :: expectation_kind
  x_state :: expectation_state
  x_createdAt :: string
  x_dueAt :: string
  x_sourceId :: string
  x_subjectAgentId :: "string option"
  x_subjectLifecycleId :: "string option"
  x_taskDocumentRef :: "task_document_ref option"
  x_seatRole :: "string option"
  x_note :: "string option"
  x_metAt :: "string option"
  x_missedAt :: "string option"

record expectation_subject =
  xs_agent_id :: "string option"
  xs_lifecycle_id :: "string option"
  xs_task_document_ref :: "task_document_ref option"
  xs_seat_role :: "string option"

record expectation =
  xp_kind :: expectation_kind
  xp_source_id :: string
  xp_subject :: expectation_subject
  xp_note :: "string option"

definition EXPECTATION_RETENTION :: micros where
  "EXPECTATION_RETENTION = 3600 * second"

definition EXPECTATION_ROW_SCHEMA :: string where
  "EXPECTATION_ROW_SCHEMA = ''ar-expectation-row/v2''"

definition create_expectation_row :: "expectation \<Rightarrow> string \<Rightarrow> string \<Rightarrow> string \<Rightarrow> expectation_row" where
  "create_expectation_row x row_id now due_at =
     (let sub = xp_subject x in
      \<lparr>schemaVersion = SCHEMA_VERSION, x_schema = EXPECTATION_ROW_SCHEMA, x_id = row_id, x_ts = now,
       x_kind = xp_kind x, x_state = XPending, x_createdAt = now, x_dueAt = due_at,
       x_sourceId = xp_source_id x, x_subjectAgentId = xs_agent_id sub,
       x_subjectLifecycleId = xs_lifecycle_id sub, x_taskDocumentRef = xs_task_document_ref sub,
       x_seatRole = xs_seat_role sub, x_note = xp_note x, x_metAt = None, x_missedAt = None\<rparr>)"

definition due_at_from_sla :: "utc \<Rightarrow> micros \<Rightarrow> string result" where
  "due_at_from_sla now sla = rbind (dt_add (utc_dt now) sla) (\<lambda>t. Inr (isoformat t))"

text \<open>\<^const>\<open>None\<close>: the row itself is returned.\<close>

definition mark_met :: "expectation_row \<Rightarrow> string \<Rightarrow> expectation_row option" where
  "mark_met row now = (if x_state row \<noteq> XPending then None
     else Some (row\<lparr>x_ts := now, x_state := XMet, x_metAt := Some now\<rparr>))"

definition mark_missed :: "expectation_row \<Rightarrow> string \<Rightarrow> expectation_row option" where
  "mark_missed row now = (if x_state row \<noteq> XPending then None
     else Some (row\<lparr>x_ts := now, x_state := XMissed, x_missedAt := Some now\<rparr>))"

definition pending_rows :: "expectation_row list \<Rightarrow> expectation_row list" where
  "pending_rows rows = py_sorted x_dueAt
     (filter (\<lambda>r. x_state r = XPending) (dict_values (fold_latest x_id rows)))"

definition terminal_time :: "expectation_row \<Rightarrow> datetime option" where
  "terminal_time row =
     fromisoformat (case str_or (x_metAt row) (str_or (x_missedAt row) (Some (x_ts row))) of
         Some stamp \<Rightarrow> stamp | None \<Rightarrow> [])"

section \<open>The store\<close>

record expectation_store =
  xs_root :: path
  xs_log :: "expectation_row log"

definition expectation_log_path :: "expectation_store \<Rightarrow> path" where
  "expectation_log_path s = xs_root s @ [''workspace'', ''expectation-rows.jsonl'']"

definition expectation_append :: "host \<Rightarrow> expectation_store \<Rightarrow> expectation_row \<Rightarrow> expectation_store result" where
  "expectation_append h s row =
     rbind (check_declared_writer h EXPECTATION_ROW_OWNERSHIP) (\<lambda>_.
       exclusive_access h EXPECTATION_ROW_OWNERSHIP (expectation_log_path s) (\<lambda>h'.
         rbind (append_line h' (expectation_log_path s) row (xs_log s)) (\<lambda>log. Inr (s\<lparr>xs_log := log\<rparr>))))"

definition expectation_read :: "expectation_store \<Rightarrow> expectation_row list result" where
  "expectation_read s = read_strict (xs_log s)"

definition expectation_read_for_projection :: "expectation_store \<Rightarrow> expectation_row list" where
  "expectation_read_for_projection s = read_tolerant (xs_log s)"

definition expectation_current :: "expectation_store \<Rightarrow> (string, expectation_row) dict result" where
  "expectation_current s = rbind (expectation_read s) (\<lambda>rows. Inr (fold_latest x_id rows))"

definition expectation_pending :: "expectation_store \<Rightarrow> expectation_row list result" where
  "expectation_pending s = rbind (expectation_read s) (\<lambda>rows. Inr (pending_rows rows))"

definition pending_for_projection :: "expectation_store \<Rightarrow> expectation_row list" where
  "pending_for_projection s = pending_rows (expectation_read_for_projection s)"

definition find_by_source ::
  "expectation_store \<Rightarrow> string \<Rightarrow> expectation_kind option \<Rightarrow> (string, expectation_row) dict option
     \<Rightarrow> expectation_row option result" where
  "find_by_source s source_id k current =
     rbind (case current of None \<Rightarrow> expectation_current s | Some d \<Rightarrow> Inr d) (\<lambda>rows.
       Inr (py_max_by x_createdAt (filter (\<lambda>r. x_state r = XPending \<and> x_sourceId r = source_id
              \<and> (k = None \<or> k = Some (x_kind r))) (dict_values rows))))"

definition is_overdue :: "utc \<Rightarrow> expectation_row \<Rightarrow> bool result" where
  "is_overdue now row = (case fromisoformat (x_dueAt row) of None \<Rightarrow> Inr False
     | Some due_at \<Rightarrow> rbind (dt_diff (utc_dt now) due_at) (\<lambda>d. Inr (0 \<le> d)))"

definition overdue :: "expectation_store \<Rightarrow> utc \<Rightarrow> expectation_row list result" where
  "overdue s now = rbind (expectation_pending s) (filter_result (is_overdue now))"

text \<open>\<open>mark_met\<close> of the store also updates the snapshot it was given; \<open>mark_missed\<close> does not.\<close>

definition store_mark_met ::
  "host \<Rightarrow> expectation_store \<Rightarrow> string \<Rightarrow> string \<Rightarrow> (string, expectation_row) dict option
     \<Rightarrow> (expectation_row \<times> (string, expectation_row) dict option \<times> expectation_store) result" where
  "store_mark_met h s row_id now current =
     rbind (case current of None \<Rightarrow> expectation_current s | Some d \<Rightarrow> Inr d) (\<lambda>rows.
       case map_of rows row_id of None \<Rightarrow> Inl (KeyError row_id)
       | Some row \<Rightarrow> (case mark_met row now of
             None \<Rightarrow> Inr (row, current, s)
           | Some met \<Rightarrow> rbind (expectation_append h s met) (\<lambda>s'.
               Inr (met, map_option (AList.update row_id met) current, s'))))"

definition store_mark_missed ::
  "host \<Rightarrow> expectation_store \<Rightarrow> string \<Rightarrow> string \<Rightarrow> (string, expectation_row) dict option
     \<Rightarrow> (expectation_row \<times> expectation_store) result" where
  "store_mark_missed h s row_id now current =
     rbind (case current of None \<Rightarrow> expectation_current s | Some d \<Rightarrow> Inr d) (\<lambda>rows.
       case map_of rows row_id of None \<Rightarrow> Inl (KeyError row_id)
       | Some row \<Rightarrow> (case mark_missed row now of
             None \<Rightarrow> Inr (row, s)
           | Some missed \<Rightarrow> rbind (expectation_append h s missed) (\<lambda>s'. Inr (missed, s'))))"

text \<open>A terminal row is stale when its terminal time lies before the cutoff; a comparison that
  raises keeps the row.\<close>

definition stale_row :: "datetime \<Rightarrow> expectation_row \<Rightarrow> bool" where
  "stale_row cutoff row =
     (x_state row \<noteq> XPending \<and>
      (case terminal_time row of None \<Rightarrow> False
       | Some t \<Rightarrow> (case dt_less t cutoff of Inl _ \<Rightarrow> False | Inr b \<Rightarrow> b)))"

definition expectation_replace :: "host \<Rightarrow> expectation_store \<Rightarrow> expectation_row list \<Rightarrow> expectation_store result" where
  "expectation_replace h s rows =
     rbind (rewrite_lines h (expectation_log_path s) rows EXPECTATION_ROW_OWNERSHIP) (\<lambda>log. Inr (s\<lparr>xs_log := log\<rparr>))"

definition compact_locked ::
  "host \<Rightarrow> expectation_store \<Rightarrow> utc \<Rightarrow> micros
     \<Rightarrow> ((int \<times> (string, expectation_row) dict) \<times> expectation_store) result" where
  "compact_locked h s now retain =
     rbind (expectation_read s) (\<lambda>records.
       if records = [] then Inr ((0, []), s)
       else rbind (dt_add (utc_dt now) (- retain)) (\<lambda>cutoff.
         (let kept = filter (\<lambda>p. \<not> stale_row cutoff (snd p)) (fold_latest x_id records);
              removed = int (length records) - int (length kept) in
          if removed \<noteq> 0
          then rbind (expectation_replace h s (dict_values kept)) (\<lambda>s'. Inr ((removed, kept), s'))
          else Inr ((removed, kept), s))))"

definition expectation_compact ::
  "host \<Rightarrow> expectation_store \<Rightarrow> utc \<Rightarrow> micros
     \<Rightarrow> ((int \<times> (string, expectation_row) dict) \<times> expectation_store) result" where
  "expectation_compact h s now retain =
     exclusive_access h EXPECTATION_ROW_OWNERSHIP (expectation_log_path s) (\<lambda>h'. compact_locked h' s now retain)"

definition write_expectation_row ::
  "host \<Rightarrow> expectation_store \<Rightarrow> expectation \<Rightarrow> string \<Rightarrow> utc \<Rightarrow> micros
     \<Rightarrow> (expectation_row \<times> expectation_store) result" where
  "write_expectation_row h s x row_id now sla =
     rbind (due_at_from_sla now sla) (\<lambda>due_at.
       (let row = create_expectation_row x row_id (utc_stamp now) due_at in
        rbind (expectation_append h s row) (\<lambda>s'. Inr (row, s'))))"

section \<open>What the operations do\<close>

lemma expectation_append_Inr:
  "expectation_append h s r = Inr s' \<Longrightarrow> s' = s\<lparr>xs_log := log_append (xs_log s) r\<rparr>"
  by (auto simp: expectation_append_def rbind_eq_Inr_iff exclusive_access_Inr append_line_def log_append_def)

lemma expectation_read_append:
  "expectation_read s = Inr rows \<Longrightarrow> version_ok r \<Longrightarrow>
   expectation_read (s\<lparr>xs_log := log_append (xs_log s) r\<rparr>) = Inr (rows @ [r])"
  using strict.read_append [of "xs_log s" rows r] by (simp add: expectation_read_def)

lemma expectation_read_version: "expectation_read s = Inr rows \<Longrightarrow> r \<in> set rows \<Longrightarrow> version_ok r"
  by (simp add: expectation_read_def strict.read_supported)

lemma compact_spec:
  assumes "expectation_compact h s now retain = Inr ((n, kept), s')" "expectation_read s = Inr rows"
  shows "\<exists>stale. kept = filter (\<lambda>p. \<not> stale (snd p)) (fold_latest x_id rows)
     \<and> (\<forall>r. stale r \<longrightarrow> x_state r \<noteq> XPending)
     \<and> expectation_current s' = Inr kept \<and> (\<exists>rows'. expectation_read s' = Inr rows' \<and> fold_latest x_id rows' = kept)"
proof (cases "rows = []")
  case True
  then show ?thesis
    using assms by (intro exI [of _ "\<lambda>_. False"])
      (auto simp: expectation_compact_def exclusive_access_Inr compact_locked_def expectation_current_def)
next
  case False
  then obtain cutoff where
    k: "kept = filter (\<lambda>p. \<not> stale_row cutoff (snd p)) (fold_latest x_id rows)"
    and s': "if int (length rows) \<noteq> int (length kept)
        then s' = s\<lparr>xs_log := log_rewrite (xs_log s) (dict_values kept)\<rparr> else s' = s"
    using assms
    by (auto simp: expectation_compact_def exclusive_access_Inr compact_locked_def rbind_eq_Inr_iff Let_def
        expectation_replace_def rewrite_lines_def log_rewrite_def split: if_splits)
  have mem: "p \<in> set kept \<Longrightarrow> x_id (snd p) = fst p \<and> snd p \<in> set rows" for p
    using fold_latest_mem [of "fst p" "snd p" x_id rows] by (simp add: k)
  have wf: "dict_wf kept" by (simp add: k distinct_map_filter)
  have re: "fold_latest x_id (dict_values kept) = kept" using fold_latest_values [OF wf] mem by blast
  have read: "\<exists>rows'. expectation_read s' = Inr rows' \<and> fold_latest x_id rows' = kept"
  proof (cases "length rows = length kept")
    case True
    have "length (fold_latest x_id rows) \<le> length rows" by (rule length_fold_latest)
    then have "kept = fold_latest x_id rows"
      using True k by (metis filter_id_conv le_antisym length_filter_le length_filter_less nat_less_le)
    then show ?thesis using True s' assms(2) by simp
  next
    case False
    have "read_strict (log_rewrite (xs_log s) (dict_values kept)) = Inr (dict_values kept)"
      using mem expectation_read_version [OF assms(2)] by (intro strict.read_rewrite) auto
    then show ?thesis using False s' re by (simp add: expectation_read_def)
  qed
  then show ?thesis
    using k by (intro exI [of _ "stale_row cutoff"]) (auto simp: expectation_current_def stale_row_def)
qed

section \<open>Properties\<close>

definition sample_expectation :: expectation where
  "sample_expectation = \<lparr>xp_kind = Verdict_by, xp_source_id = ''G1'',
     xp_subject = \<lparr>xs_agent_id = None, xs_lifecycle_id = Some ''L1'', xs_task_document_ref = None, xs_seat_role = None\<rparr>,
     xp_note = None\<rparr>"

definition sample_row :: expectation_row where
  "sample_row = create_expectation_row sample_expectation ''X1'' ''t0'' ''t9''"

definition sample_rows :: "expectation_row list \<Rightarrow> expectation_store" where
  "sample_rows rs = \<lparr>xs_root = [''observer''], xs_log = Some (map Row rs)\<rparr>"

text \<open>Reclaiming the deadline log loses no deadline: the fold the compaction returns is the
  current fold of the log it leaves, and the list of pending rows, in deadline order, is the same
  before and after.\<close>

lemma compact_keeps_pending:
  assumes "expectation_compact h s now retain = Inr ((n, kept), s')" "expectation_read s = Inr rows"
  shows "expectation_current s' = Inr kept \<and> expectation_pending s' = expectation_pending s"
proof -
  obtain stale rows' where kept: "kept = filter (\<lambda>p. \<not> stale (snd p)) (fold_latest x_id rows)"
    and st: "\<forall>r. stale r \<longrightarrow> x_state r \<noteq> XPending" and cur: "expectation_current s' = Inr kept"
    and rows': "expectation_read s' = Inr rows'" "fold_latest x_id rows' = kept"
    using compact_spec [OF assms] by blast
  have "filter (\<lambda>r. x_state r = XPending) (dict_values kept)
      = filter (\<lambda>r. x_state r = XPending) (dict_values (fold_latest x_id rows))"
    using st unfolding kept by (auto simp: filter_map o_def intro: arg_cong [of _ _ "map snd"] filter_cong)
  then have "pending_rows rows' = pending_rows rows" by (simp add: pending_rows_def rows'(2))
  then show ?thesis using cur rows'(1) assms(2) by (simp add: expectation_pending_def)
qed

lemma compact_keeps_pending_witness:
  "expectation_current (sample_rows [sample_row]) = Inr [(''X1'', sample_row)]
   \<and> expectation_pending (sample_rows [sample_row]) = expectation_pending (sample_rows [sample_row, sample_row])"
proof (rule compact_keeps_pending)
  show "expectation_compact sample_host (sample_rows [sample_row, sample_row]) (4000 * second) EXPECTATION_RETENTION
      = Inr ((1, [(''X1'', sample_row)]), sample_rows [sample_row])" by code_simp
  show "expectation_read (sample_rows [sample_row, sample_row]) = Inr [sample_row, sample_row]" by code_simp
qed

text \<open>A deadline is due exactly when its time has come: a row written at \<open>now\<close> with an SLA
  is pending, is found by the id of the dispatch it rides beside, and is listed as overdue at a
  later instant exactly if the SLA has run out by then.\<close>

lemma written_row_falls_due:
  assumes "write_expectation_row h s x row_id now sla = Inr (row, s')" "expectation_read s = Inr []"
    and "valid_utc now"
  shows "find_by_source s' (xp_source_id x) (Some (xp_kind x)) None = Inr (Some row)
    \<and> overdue s' later = Inr (if now + sla \<le> later then [row] else [])"
proof -
  obtain t where t: "dt_add (utc_dt now) sla = Inr t"
    and row: "row = create_expectation_row x row_id (utc_stamp now) (isoformat t)"
    and ap: "expectation_append h s row = Inr s'"
    using assms(1) by (auto simp: write_expectation_row_def due_at_from_sla_def rbind_eq_Inr_iff Let_def)
  have t': "t = utc_dt (now + sla)" "valid_utc (now + sla)"
    using t by (auto simp: dt_add_def utc_dt_def valid_utc_def split: if_splits)
  have fields: "x_id row = row_id" "x_state row = XPending" "x_sourceId row = xp_source_id x" "x_kind row = xp_kind x"
    "x_dueAt row = utc_stamp (now + sla)" "version_ok row"
    using row t' by (simp_all add: create_expectation_row_def Let_def utc_stamp_def version_ok_def) code_simp
  have read: "expectation_read s' = Inr [row]"
    using expectation_read_append [OF assms(2) fields(6)] expectation_append_Inr [OF ap] by simp
  have fold: "fold_latest x_id [row] = [(row_id, row)]" by (simp add: fold_latest_def fields)
  have "find_by_source s' (xp_source_id x) (Some (xp_kind x)) None = Inr (Some row)"
    by (simp add: find_by_source_def expectation_current_def read fold fields)
  moreover have "expectation_pending s' = Inr [row]"
    by (simp add: expectation_pending_def read pending_rows_def fold fields py_sorted_def)
  ultimately show ?thesis using t'(2) by (simp add: overdue_def is_overdue_def fields)
qed

lemma sample_row_written:
  "\<exists>row s'. write_expectation_row sample_host (sample_rows []) sample_expectation ''X1'' 0 (60 * second) = Inr (row, s')"
proof -
  have w: "check_declared_writer sample_host EXPECTATION_ROW_OWNERSHIP = Inr ()" by code_simp
  have "dt_add (utc_dt 0) (60 * second) = Inr (utc_dt (60 * second))" by (simp add: dt_add_def utc_dt_def)
  then show ?thesis
    by (simp add: write_expectation_row_def due_at_from_sla_def Let_def expectation_append_def w exclusive_access_lockable)
qed

lemma written_row_falls_due_witness:
  "\<exists>row s'. write_expectation_row sample_host (sample_rows []) sample_expectation ''X1'' 0 (60 * second) = Inr (row, s')
     \<and> overdue s' (59 * second) = Inr [] \<and> overdue s' (60 * second) = Inr [row]"
proof -
  obtain row s' where w: "write_expectation_row sample_host (sample_rows []) sample_expectation ''X1'' 0 (60 * second)
      = Inr (row, s')" using sample_row_written by blast
  have r: "expectation_read (sample_rows []) = Inr []" by code_simp
  have v: "valid_utc 0" by (simp add: valid_utc_def)
  show ?thesis
    using written_row_falls_due [OF w r v, of "59 * second"] written_row_falls_due [OF w r v, of "60 * second"] w by auto
qed

lemma mark_terminal:
  assumes "expectation_current s = Inr d" "map_of d i = Some row" "x_state row \<noteq> XPending"
  shows "store_mark_met h s i now None = Inr (row, None, s)" and "store_mark_missed h s i now None = Inr (row, s)"
  using assms by (simp_all add: store_mark_met_def store_mark_missed_def mark_met_def mark_missed_def)

lemma mark_pending:
  assumes "expectation_current s = Inr d" "map_of d i = Some row" "x_state row = XPending"
    and "store_mark_met h s i now None = Inr (met, c, s')"
  shows "x_state met = XMet" and "\<exists>d'. expectation_current s' = Inr d' \<and> map_of d' i = Some met"
proof -
  obtain rows where rows: "expectation_read s = Inr rows" "d = fold_latest x_id rows"
    using assms(1) by (auto simp: expectation_current_def rbind_eq_Inr_iff)
  have row: "x_id row = i" "row \<in> set rows"
    using lookup_fold_latest_key [of x_id rows i row] assms(2) by (simp_all only: rows(2))
  have met: "met = row\<lparr>x_ts := now, x_state := XMet, x_metAt := Some now\<rparr>" "expectation_append h s met = Inr s'"
    using assms by (auto simp: store_mark_met_def mark_met_def rbind_eq_Inr_iff)
  then show "x_state met = XMet" by simp
  have "version_ok met" using expectation_read_version [OF rows(1) row(2)] met(1) by (simp add: version_ok_def)
  then have "expectation_current s' = Inr (fold_latest x_id (rows @ [met]))"
    using expectation_read_append [OF rows(1)] expectation_append_Inr [OF met(2)] by (simp add: expectation_current_def)
  moreover have "map_of (fold_latest x_id (rows @ [met])) i = Some met"
    using row(1) met(1) by (simp add: lookup_fold_latest_snoc del: fold_latest_snoc map_of_eq_Some_iff)
  ultimately show "\<exists>d'. expectation_current s' = Inr d' \<and> map_of d' i = Some met" by blast
qed

text \<open>Marked once: with a fresh read of the log, marking a row met or missed that is met or
  missed already changes nothing and returns the row as it is, and marking a pending row met makes
  every later mark such a no-op.\<close>

lemma terminal_mark_is_final:
  assumes "expectation_current s = Inr d" "map_of d i = Some row"
  shows "if x_state row = XPending
    then \<forall>met c s'. store_mark_met h s i now None = Inr (met, c, s') \<longrightarrow>
           store_mark_met h' s' i now' None = Inr (met, None, s') \<and> store_mark_missed h' s' i now' None = Inr (met, s')
    else store_mark_met h s i now None = Inr (row, None, s) \<and> store_mark_missed h s i now None = Inr (row, s)"
proof (cases "x_state row = XPending")
  case True
  have "store_mark_met h' s' i now' None = Inr (met, None, s') \<and> store_mark_missed h' s' i now' None = Inr (met, s')"
    if m: "store_mark_met h s i now None = Inr (met, c, s')" for met c s'
  proof -
    obtain d' where "expectation_current s' = Inr d'" "map_of d' i = Some met"
      using mark_pending(2) [OF assms True m] by blast
    moreover have "x_state met \<noteq> XPending" using mark_pending(1) [OF assms True m] by simp
    ultimately show ?thesis using mark_terminal by blast
  qed
  then show ?thesis using True by simp
next
  case False
  then show ?thesis using mark_terminal [OF assms] by simp
qed

lemma terminal_mark_is_final_witness:
  "store_mark_missed sample_host (sample_rows [sample_row\<lparr>x_state := XMet\<rparr>]) ''X1'' ''t5'' None
     = Inr (sample_row\<lparr>x_state := XMet\<rparr>, sample_rows [sample_row\<lparr>x_state := XMet\<rparr>])"
proof -
  have "expectation_current (sample_rows [sample_row\<lparr>x_state := XMet\<rparr>]) = Inr [(''X1'', sample_row\<lparr>x_state := XMet\<rparr>)]"
    by code_simp
  then show ?thesis using terminal_mark_is_final [of _ _ "''X1''" "sample_row\<lparr>x_state := XMet\<rparr>"] by simp
qed

text \<open>With a caller's snapshot the mark is not final: \<open>mark_missed\<close> does not update the
  snapshot it is given, so marking the same row met through that snapshot afterwards appends a
  met row over the missed one, and marking it missed again appends a second missed row.\<close>

lemma missed_mark_forgotten_by_snapshot:
  "\<exists>m1 s1 m2 c s2 m3 s3. store_mark_missed sample_host (sample_rows [sample_row]) ''X1'' ''t1'' (Some [(''X1'', sample_row)])
       = Inr (m1, s1) \<and> x_state m1 = XMissed
   \<and> store_mark_met sample_host s1 ''X1'' ''t2'' (Some [(''X1'', sample_row)]) = Inr (m2, c, s2)
   \<and> expectation_current s2 = Inr [(''X1'', m2)] \<and> x_state m2 = XMet
   \<and> store_mark_missed sample_host s1 ''X1'' ''t3'' (Some [(''X1'', sample_row)]) = Inr (m3, s3) \<and> s3 \<noteq> s1"
proof -
  let ?snap = "Some [(''X1'', sample_row)]"
  let ?m1 = "sample_row\<lparr>x_ts := ''t1'', x_state := XMissed, x_missedAt := Some ''t1''\<rparr>"
  let ?m2 = "sample_row\<lparr>x_ts := ''t2'', x_state := XMet, x_metAt := Some ''t2''\<rparr>"
  let ?m3 = "sample_row\<lparr>x_ts := ''t3'', x_state := XMissed, x_missedAt := Some ''t3''\<rparr>"
  have "store_mark_missed sample_host (sample_rows [sample_row]) ''X1'' ''t1'' ?snap = Inr (?m1, sample_rows [sample_row, ?m1])"
    by code_simp
  moreover have "store_mark_met sample_host (sample_rows [sample_row, ?m1]) ''X1'' ''t2'' ?snap
      = Inr (?m2, Some [(''X1'', ?m2)], sample_rows [sample_row, ?m1, ?m2])" by code_simp
  moreover have "expectation_current (sample_rows [sample_row, ?m1, ?m2]) = Inr [(''X1'', ?m2)]" by code_simp
  moreover have "store_mark_missed sample_host (sample_rows [sample_row, ?m1]) ''X1'' ''t3'' ?snap
      = Inr (?m3, sample_rows [sample_row, ?m1, ?m3])" by code_simp
  moreover have "sample_rows [sample_row, ?m1, ?m3] \<noteq> sample_rows [sample_row, ?m1]" by (simp add: sample_rows_def)
  ultimately show ?thesis by (intro exI conjI) (assumption | simp)+
qed

end
