(* ===== verification/Gate_Decisions.thy ===== *)
theory Gate_Decisions
  imports Gate_Store Inbox_Store Expectations
begin

text \<open>
  \<open>controlplane/gate_decisions.py\<close>: the one service that records a decision on a gate, shared by
  the tools and the dashboard. It composes the gate store, the operator inbox and the expectation
  rows. A handler that raises half way keeps what it already wrote, so handlers are functions on
  the world that return a result and the world they leave.
\<close>

section \<open>The world of a handler\<close>

text \<open>The three stores under the observer root; without a coordination root there are no
  expectation rows.\<close>

record world =
  w_gates :: gate_store
  w_inbox :: inbox_store
  w_rows :: "expectation_store option"

text \<open>An operation of one store, as part of the world: the operations of the stores write last,
  so one that raises has written nothing.\<close>

definition on_gates :: "(gate_store \<Rightarrow> ('a \<times> gate_store) result) \<Rightarrow> ('z world_scheme, 'a) act" where
  "on_gates f w = (case f (w_gates w) of Inl e \<Rightarrow> (Inl e, w) | Inr (x, s) \<Rightarrow> (Inr x, w\<lparr>w_gates := s\<rparr>))"

definition on_inbox :: "(inbox_store \<Rightarrow> ('a \<times> inbox_store) result) \<Rightarrow> ('z world_scheme, 'a) act" where
  "on_inbox f w = (case f (w_inbox w) of Inl e \<Rightarrow> (Inl e, w) | Inr (x, s) \<Rightarrow> (Inr x, w\<lparr>w_inbox := s\<rparr>))"

definition on_rows :: "(expectation_store \<Rightarrow> ('a \<times> expectation_store) result) \<Rightarrow> ('z world_scheme, 'a option) act" where
  "on_rows f w = (case w_rows w of None \<Rightarrow> (Inr None, w)
     | Some rows \<Rightarrow> (case f rows of Inl e \<Rightarrow> (Inl e, w) | Inr (x, s) \<Rightarrow> (Inr (Some x), w\<lparr>w_rows := Some s\<rparr>)))"

definition append_gate :: "host \<Rightarrow> gate_record \<Rightarrow> ('z world_scheme, unit) act" where
  "append_gate h r = on_gates (\<lambda>s. rbind (gate_append h s r) (\<lambda>s'. Inr ((), s')))"

lemma on_gates_Inr: "on_gates f w = (Inr x, w') \<longleftrightarrow> (\<exists>s. f (w_gates w) = Inr (x, s) \<and> w' = w\<lparr>w_gates := s\<rparr>)"
  by (auto simp: on_gates_def split: sum.splits prod.splits)

lemma on_inbox_Inr: "on_inbox f w = (Inr x, w') \<longleftrightarrow> (\<exists>s. f (w_inbox w) = Inr (x, s) \<and> w' = w\<lparr>w_inbox := s\<rparr>)"
  by (auto simp: on_inbox_def split: sum.splits prod.splits)

lemma append_gate_Inr:
  "append_gate h r w = (Inr x, w') \<longleftrightarrow> (\<exists>s. gate_append h (w_gates w) r = Inr s \<and> w' = w\<lparr>w_gates := s\<rparr>)"
  by (auto simp: append_gate_def on_gates_Inr rbind_eq_Inr_iff)

section \<open>The decision service\<close>

record gate_decision_context =
  dc_policy :: gate_policy
  dc_now :: utc

record decision_response =
  dr_gateId :: string
  dr_state :: gate_state
  dr_decidedBy :: "string option"
  dr_decidedVia :: "decided_via option"
  dr_decidingRole :: "string option"
  dr_evidenceRefs :: "gate_evidence_ref list"

definition target_gate :: "gate_store \<Rightarrow> string \<Rightarrow> string option \<Rightarrow> gate_record result" where
  "target_gate s gate_id lifecycle_id =
     rbind (gate_current s lifecycle_id) (\<lambda>gates.
       case map_of gates gate_id of Some gate \<Rightarrow> Inr gate
       | None \<Rightarrow>
          rbind (if lifecycle_id = None then gate_find s gate_id else Inr None) (\<lambda>found.
            case found of None \<Rightarrow> Inl (KeyError gate_id) | Some gate \<Rightarrow> Inr gate))"

definition require_undelegated_cli_decision :: "gate_record \<Rightarrow> gate_policy \<Rightarrow> unit result" where
  "require_undelegated_cli_decision gate policy =
     (if delegated_role (rule_for policy (g_kind gate)) \<noteq> None
      then Inl (ValueError ''delegated by the active gate policy'') else Inr ())"

definition evidence_refs_of :: "(string \<times> json) list list option \<Rightarrow> gate_evidence_ref list result" where
  "evidence_refs_of raw = (case raw of None \<Rightarrow> Inr [] | Some entries \<Rightarrow> traverse validate_evidence_ref entries)"

definition meet_verdict_expectation :: "host \<Rightarrow> gate_record \<Rightarrow> string \<Rightarrow> ('z world_scheme, unit) act" where
  "meet_verdict_expectation h gate now =
     abind (on_rows (\<lambda>rows.
         rbind (find_by_source rows (g_id gate) (Some Verdict_by) None) (\<lambda>row.
           case row of None \<Rightarrow> Inr ((), rows)
           | Some r \<Rightarrow> rbind (store_mark_met h rows (x_id r) now None) (\<lambda>(_, _, rows'). Inr ((), rows')))))
       (\<lambda>_. aread (\<lambda>_. Inr ()))"

text \<open>\<open>contextlib.suppress(OSError, ValidationError)\<close>: of the exceptions a compaction raises in the
  model, only the validation of a damaged log is suppressed.\<close>

definition reclaim_gate_log :: "host \<Rightarrow> string option \<Rightarrow> utc \<Rightarrow> ('z world_scheme, unit) act" where
  "reclaim_gate_log h lifecycle_id now w =
     (if \<not> is_compaction_owner h GATE_OWNERSHIP then (Inr (), w)
      else (case on_gates (\<lambda>s. gate_compact h s lifecycle_id now) w of
          (Inl (ValidationError m), w') \<Rightarrow> (Inr (), w')
        | (Inl e, w') \<Rightarrow> (Inl e, w')
        | (Inr n, w') \<Rightarrow> (Inr (), w')))"

text \<open>The decided snapshot, with every check that comes before the first write.\<close>

definition decided_gate ::
  "gate_decision_context \<Rightarrow> string \<Rightarrow> string option \<Rightarrow> gate_verdict \<Rightarrow> (string \<times> json) list list option
     \<Rightarrow> gate_store \<Rightarrow> gate_record result" where
  "decided_gate ctx gate_id lifecycle_id verdict evidence s =
     (if v_decision verdict \<notin> fst ` set DECISION_STATES then Inl (ValueError (v_decision verdict))
      else rbind (target_gate s gate_id lifecycle_id) (\<lambda>gate.
        rbind (if v_via verdict = Via_cli \<and> v_decision verdict \<noteq> ''cancel''
               then require_undelegated_cli_decision gate (dc_policy ctx) else Inr ()) (\<lambda>_.
        rbind (evidence_refs_of evidence) (\<lambda>refs.
        rbind (decide_gate gate verdict (utc_stamp (dc_now ctx)) (Some (map EvRef refs))) (\<lambda>updated.
          if v_via verdict = Via_orchestration
          then rbind (delegated_decision_failure_reason updated (dc_policy ctx)) (\<lambda>failure.
                 case failure of None \<Rightarrow> Inr updated | Some _ \<Rightarrow> Inl (ValueError ''delegation policy''))
          else Inr updated)))))"

definition record_gate_decision ::
  "host \<Rightarrow> gate_decision_context \<Rightarrow> string \<Rightarrow> string option \<Rightarrow> gate_verdict \<Rightarrow> (string \<times> json) list list option
     \<Rightarrow> ('z world_scheme, decision_response) act" where
  "record_gate_decision h ctx gate_id lifecycle_id verdict evidence =
     abind (aread (\<lambda>w. decided_gate ctx gate_id lifecycle_id verdict evidence (w_gates w))) (\<lambda>updated.
     abind (append_gate h updated) (\<lambda>_.
     abind (if v_decision verdict = ''cancel''
            then abind (on_gates (\<lambda>s. gate_delete h s (g_id updated) (g_lifecycleId updated))) (\<lambda>_.
                 abind (on_inbox (\<lambda>s. delete_by_gate h s (g_id updated))) (\<lambda>_. aread (\<lambda>_. Inr ())))
            else aread (\<lambda>_. Inr ())) (\<lambda>_.
     abind (meet_verdict_expectation h updated (utc_stamp (dc_now ctx))) (\<lambda>_.
     abind (reclaim_gate_log h (g_lifecycleId updated) (dc_now ctx)) (\<lambda>_.
       aread (\<lambda>_. Inr \<lparr>dr_gateId = g_id updated, dr_state = g_state updated, dr_decidedBy = g_decidedBy updated,
         dr_decidedVia = g_decidedVia updated, dr_decidingRole = g_decidingRole updated,
         dr_evidenceRefs = g_evidenceRefs updated\<rparr>))))))"

definition current_open_gate :: "string \<Rightarrow> string option \<Rightarrow> gate_store \<Rightarrow> gate_record result" where
  "current_open_gate lifecycle_id expected_gate_id s =
     rbind (gate_current s (Some lifecycle_id)) (\<lambda>current.
       case py_max_by g_ts (filter (\<lambda>g. g_state g = GOpen) (dict_values current)) of
         None \<Rightarrow> Inl (KeyError lifecycle_id)
       | Some gate \<Rightarrow>
          (case expected_gate_id of None \<Rightarrow> Inr gate
           | Some expected \<Rightarrow> if g_id gate \<noteq> expected then Inl (KeyError expected) else Inr gate))"

definition record_lifecycle_gate_decision ::
  "host \<Rightarrow> gate_decision_context \<Rightarrow> string \<Rightarrow> string option \<Rightarrow> gate_verdict \<Rightarrow> (string \<times> json) list list option
     \<Rightarrow> ('z world_scheme, decision_response) act" where
  "record_lifecycle_gate_decision h ctx lifecycle_id expected_gate_id verdict evidence =
     abind (aread (\<lambda>w. current_open_gate lifecycle_id expected_gate_id (w_gates w))) (\<lambda>gate.
       record_gate_decision h ctx (g_id gate) (Some lifecycle_id) verdict evidence)"

section \<open>What a recorded decision is\<close>

lemma target_gate_hit:
  assumes "routed s" "target_gate s i l = Inr g"
  shows "\<exists>d. gate_current s (g_lifecycleId g) = Inr d \<and> map_of d i = Some g"
proof -
  obtain d where d: "gate_current s l = Inr d" using assms(2) by (auto simp: target_gate_def rbind_eq_Inr_iff)
  show ?thesis
  proof (cases "map_of d i")
    case None
    then have "gate_find s i = Inr (Some g)"
      using assms(2) d by (auto simp: target_gate_def rbind_eq_Inr_iff split: option.splits if_splits)
    then show ?thesis by (rule gate_find_hit [OF assms(1)])
  next
    case (Some g')
    then have "map_of d i = Some g" using assms(2) d by (simp add: target_gate_def)
    then show ?thesis by (rule routed_hit [OF assms(1) d])
  qed
qed

lemma decided_gate_Inr:
  assumes "decided_gate ctx i l v ev s = Inr u"
  shows "\<exists>g st refs. target_gate s i l = Inr g \<and> map_of DECISION_STATES (v_decision v) = Some st
    \<and> u = g\<lparr>g_ts := utc_stamp (dc_now ctx), g_state := st, g_decidedBy := v_by v, g_decidedVia := Some (v_via v),
             g_decidingRole := v_deciding_role v, g_decisionNote := v_note v, g_decidedAt := Some (utc_stamp (dc_now ctx)),
             g_evidenceRefs := refs\<rparr>
    \<and> (v_via v = Via_orchestration \<longrightarrow> delegated_decision_failure_reason u (dc_policy ctx) = Inr None)"
proof -
  obtain g att where g: "target_gate s i l = Inr g"
    and u: "decide_gate g v (utc_stamp (dc_now ctx)) (Some (map EvRef att)) = Inr u"
    and del: "v_via v = Via_orchestration \<longrightarrow> delegated_decision_failure_reason u (dc_policy ctx) = Inr None"
    using assms by (auto simp: decided_gate_def rbind_eq_Inr_iff split: if_splits option.splits)
  obtain st where "map_of DECISION_STATES (v_decision v) = Some st"
    using u by (auto simp: decide_gate_def split: option.splits)
  then show ?thesis using g u del by (auto simp: decide_gate_def rbind_eq_Inr_iff)
qed

lemma meet_verdict_expectation_gates:
  "meet_verdict_expectation h g now w = (r, w') \<Longrightarrow> w_gates w' = w_gates w"
  by (auto simp: meet_verdict_expectation_def abind_def on_rows_def aread_def
      split: sum.splits option.splits prod.splits)

lemma reclaim_gate_log_Inr:
  "reclaim_gate_log h l now w = (Inr x, w') \<Longrightarrow>
   w_gates w' = w_gates w \<or> (\<exists>n. gate_compact h (w_gates w) l now = Inr (n, w_gates w'))"
  by (auto simp: reclaim_gate_log_def on_gates_def split: if_splits sum.splits py_error.splits prod.splits)

text \<open>A decision that is no cancel leaves the store with the decided snapshot appended, compacted
  at that instant or not.\<close>

lemma record_gate_decision_stores:
  assumes "record_gate_decision h ctx i l v ev w = (Inr resp, w')" "v_decision v \<noteq> ''cancel''"
  obtains u s1 where "decided_gate ctx i l v ev (w_gates w) = Inr u" "gate_append h (w_gates w) u = Inr s1"
    "w_gates w' = s1 \<or> (\<exists>n. gate_compact h s1 (g_lifecycleId u) (dc_now ctx) = Inr (n, w_gates w'))"
  using assms
  by (auto simp: record_gate_decision_def abind_eq_Inr append_gate_Inr dest!: meet_verdict_expectation_gates
      dest: reclaim_gate_log_Inr)

section \<open>Properties\<close>

lemma py_max_by_greatest:
  "x \<in> set xs \<Longrightarrow> (\<And>y. y \<in> set xs \<Longrightarrow> y \<noteq> x \<Longrightarrow> (f y :: 'k::linorder) < f x) \<Longrightarrow> py_max_by f xs = Some x"
  using py_max_by_Some [of f xs] by (cases "py_max_by f xs") (auto dest: leD)

lemma append_newest:
  assumes "gate_append h s u = Inr s1" "version_ok u" "gate_current s (g_lifecycleId u) = Inr d"
    and "\<And>j g. map_of d j = Some g \<Longrightarrow> j \<noteq> g_id u \<Longrightarrow> g_kind g = g_kind u \<Longrightarrow> g_ts g < g_ts u"
  shows "\<exists>d1. gate_current s1 (g_lifecycleId u) = Inr d1 \<and> newest_gate d1 (g_kind u) = Some u"
proof -
  obtain d1 where d1: "gate_current s1 (g_lifecycleId u) = Inr d1" and m: "map_of d1 = (map_of d)(g_id u \<mapsto> u)"
    using gate_current_append [OF assms(1-3)] by auto
  have wf: "dict_wf d1" using d1 by (auto simp: gate_current_Inr)
  have mem: "(j, g) \<in> set d1 \<longleftrightarrow> map_of d1 j = Some g" for j g using wf by simp
  have "newest_gate d1 (g_kind u) = Some u"
    unfolding newest_gate_def
  proof (rule py_max_by_greatest)
    show "u \<in> set (filter (\<lambda>g. g_kind g = g_kind u) (dict_values d1))"
      using mem [of "g_id u" u] m by force
    fix g assume "g \<in> set (filter (\<lambda>g. g_kind g = g_kind u) (dict_values d1))" "g \<noteq> u"
    then obtain j where "map_of d1 j = Some g" "g_kind g = g_kind u" using mem by auto
    then show "g_ts g < g_ts u" using \<open>g \<noteq> u\<close> m assms(4) by (auto split: if_splits)
  qed
  then show ?thesis using d1 by blast
qed

text \<open>C11. An approval opens its gate exactly when somebody entitled gave it. After the decision
  service records an approval at an instant later than every other gate of that kind on the
  lifecycle, enforcement permits the gated operation under the same policy if and only if the
  decision came from the developer or went through orchestration (where the service has already
  checked the delegation); an agent's own approval through the command line is recorded and opens
  nothing. Reclaiming the log in the same call does not lose the decision.\<close>

theorem decision_opens_gate_iff:
  assumes "record_gate_decision h ctx i l v ev w = (Inr resp, w')" "v_decision v = ''approve''"
    and "routed (w_gates w)" "valid_utc (dc_now ctx)" "target_gate (w_gates w) i l = Inr g"
    and "gate_current (w_gates w) (g_lifecycleId g) = Inr d"
    and "\<And>j r. map_of d j = Some r \<Longrightarrow> j \<noteq> i \<Longrightarrow> g_kind r = g_kind g \<Longrightarrow> g_ts r < utc_stamp (dc_now ctx)"
  shows "\<exists>d'. gate_current (w_gates w') (g_lifecycleId g) = Inr d' \<and>
    (permitted (evaluate_gate d' (g_kind g) (dc_policy ctx) op)
       \<longleftrightarrow> v_by v = Some ''developer'' \<or> v_via v = Via_orchestration)"
proof -
  obtain u s1 where u: "decided_gate ctx i l v ev (w_gates w) = Inr u" and s1: "gate_append h (w_gates w) u = Inr s1"
    and fin: "w_gates w' = s1 \<or> (\<exists>n. gate_compact h s1 (g_lifecycleId u) (dc_now ctx) = Inr (n, w_gates w'))"
    using record_gate_decision_stores [OF assms(1)] assms(2) by auto
  obtain g0 st refs where g0: "target_gate (w_gates w) i l = Inr g0" "map_of DECISION_STATES (v_decision v) = Some st"
    and u0: "u = g0\<lparr>g_ts := utc_stamp (dc_now ctx), g_state := st, g_decidedBy := v_by v,
      g_decidedVia := Some (v_via v), g_decidingRole := v_deciding_role v, g_decisionNote := v_note v,
      g_decidedAt := Some (utc_stamp (dc_now ctx)), g_evidenceRefs := refs\<rparr>"
    and del: "v_via v = Via_orchestration \<longrightarrow> delegated_decision_failure_reason u (dc_policy ctx) = Inr None"
    using decided_gate_Inr [OF u] by blast
  have "g0 = g" "st = GApproved" using g0 assms(2,5) by (simp_all add: DECISION_STATES_def)
  note ueq = u0 [unfolded this]
  have hit: "map_of d i = Some g" using target_gate_hit [OF assms(3,5)] assms(6) by auto
  have gi: "g_id g = i" and ver: "version_ok g"
    using gate_current_keyed [OF assms(6) hit] gate_current_version [OF assms(6) hit] by auto
  have "\<exists>d1. gate_current s1 (g_lifecycleId u) = Inr d1 \<and> newest_gate d1 (g_kind u) = Some u"
    using assms(6,7) gi ver by (intro append_newest [OF s1]) (auto simp: ueq version_ok_def)
  then obtain d1 where d1: "gate_current s1 (g_lifecycleId g) = Inr d1" "newest_gate d1 (g_kind g) = Some u"
    by (auto simp: ueq)
  have lid: "g_lifecycleId u = g_lifecycleId g" by (simp add: ueq)
  have keep: "keep_gate (dc_now ctx) INTERACTION_RECORD_TTL u"
    using assms(4) by (simp add: keep_gate_def ueq PRUNE_IMMEDIATE_GATE_STATES_def INTERACTION_RECORD_TTL_def)
  obtain d' where d': "gate_current (w_gates w') (g_lifecycleId g) = Inr d'" "newest_gate d' (g_kind g) = Some u"
    using fin [unfolded lid] d1 newest_gate_compact [OF _ d1 keep] by blast
  have "binding_decision (dc_policy ctx) u \<or> claimed_human u
      \<longleftrightarrow> v_by v = Some ''developer'' \<or> v_via v = Via_orchestration"
    using del by (auto simp: binding_decision_def delegated_decision_ok_iff decision_attribution_None_iff
        claimed_human_def ueq)
  then show ?thesis using d' by (auto simp: permitted_iff ueq)
qed

definition panel_host :: host where
  "panel_host = sample_host\<lparr>exec_mode := Some Mode_dashboard\<rparr>"

definition sample_open :: gate_record where
  "sample_open = sample_gate\<lparr>g_state := GOpen, g_decidedBy := None, g_decidedVia := None, g_decidedAt := None\<rparr>"

definition decision_world :: "gate_record list \<Rightarrow> world" where
  "decision_world gs = \<lparr>w_gates = sample_store\<lparr>gs_logs := [(Some ''L1'', map Row gs)]\<rparr>,
     w_inbox = \<lparr>ib_root = [''observer''], ib_log = None\<rparr>, w_rows = None\<rparr>"

definition sample_ctx :: gate_decision_context where
  "sample_ctx = \<lparr>dc_policy = [], dc_now = 0\<rparr>"

definition developer_verdict :: "string \<Rightarrow> gate_verdict" where
  "developer_verdict d = \<lparr>v_decision = d, v_via = Via_dashboard, v_by = Some ''developer'', v_note = None,
     v_deciding_role = None\<rparr>"

lemma decision_world_current:
  "gate_current (w_gates (decision_world [sample_open])) (Some ''L1'') = Inr [(''G1'', sample_open)]"
  by code_simp

lemma decision_world_routed: "routed (w_gates (decision_world [sample_open]))"
  by (auto simp: routed_def decision_world_def sample_store_def sample_open_def sample_gate_def gate_log_def log_key_def
      split: if_splits)

theorem decision_opens_gate_iff_witness:
  "\<exists>resp w' d'. record_gate_decision panel_host sample_ctx ''G1'' (Some ''L1'') (developer_verdict ''approve'') None
       (decision_world [sample_open]) = (Inr resp, w')
     \<and> gate_current (w_gates w') (Some ''L1'') = Inr d' \<and> permitted (evaluate_gate d' closeout_approval [] None)"
proof -
  have "case record_gate_decision panel_host sample_ctx ''G1'' (Some ''L1'') (developer_verdict ''approve'') None
      (decision_world [sample_open]) of (Inr _, _) \<Rightarrow> True | _ \<Rightarrow> False" by code_simp
  then obtain resp w' where r: "record_gate_decision panel_host sample_ctx ''G1'' (Some ''L1'')
      (developer_verdict ''approve'') None (decision_world [sample_open]) = (Inr resp, w')"
    by (auto split: prod.splits sum.splits)
  have t: "target_gate (w_gates (decision_world [sample_open])) ''G1'' (Some ''L1'') = Inr sample_open"
    by (simp add: target_gate_def decision_world_current)
  have f: "g_lifecycleId sample_open = Some ''L1''" "g_kind sample_open = closeout_approval"
    by (simp_all add: sample_open_def sample_gate_def)
  have "\<exists>d'. gate_current (w_gates w') (g_lifecycleId sample_open) = Inr d' \<and>
    (permitted (evaluate_gate d' (g_kind sample_open) (dc_policy sample_ctx) None)
       \<longleftrightarrow> v_by (developer_verdict ''approve'') = Some ''developer'' \<or> v_via (developer_verdict ''approve'') = Via_orchestration)"
    by (rule decision_opens_gate_iff [OF r _ decision_world_routed _ t])
      (auto simp: developer_verdict_def sample_ctx_def valid_utc_def f decision_world_current split: if_splits)
  then show ?thesis using r by (auto simp: f sample_ctx_def developer_verdict_def)
qed

text \<open>No orchestration decision touches a human-pinned gate: under every policy the
  configuration accepts, deciding an integration, push or cleanup gate through orchestration, by
  its id or as the newest open gate of its lifecycle, raises and leaves every store as it
  was.\<close>

lemma pinned_gate_refuses_orchestration:
  assumes "make_gate_policy rules = Inr (dc_policy ctx)" "v_via v = Via_orchestration"
    and "target_gate (w_gates w) i l = Inr g" "g_kind g \<in> HUMAN_PINNED_GATE_KINDS"
  shows "(\<exists>e. record_gate_decision h ctx i l v ev w = (Inl e, w))
    \<and> (\<forall>x. current_open_gate x expected (w_gates w) = Inr g \<and> g_id g = i \<and> l = Some x \<longrightarrow>
         (\<exists>e. record_lifecycle_gate_decision h ctx x expected v ev w = (Inl e, w)))"
proof -
  have "delegated_role (rule_for (dc_policy ctx) (g_kind g)) = None"
    using rule_for_pinned [OF make_gate_policy_ok [OF assms(1)] assms(4)] .
  then have "decided_gate ctx i l v ev (w_gates w) \<noteq> Inr u" for u
    using decided_gate_Inr [of ctx i l v ev "w_gates w" u] assms(2,3) by (auto simp: delegated_decision_ok_iff)
  then obtain e where e: "decided_gate ctx i l v ev (w_gates w) = Inl e"
    by (cases "decided_gate ctx i l v ev (w_gates w)") auto
  then have *: "record_gate_decision h ctx i l v ev w = (Inl e, w)"
    by (simp add: record_gate_decision_def abind_def aread_def)
  then show ?thesis by (auto simp: record_lifecycle_gate_decision_def abind_def aread_def)
qed

lemma pinned_gate_refuses_orchestration_witness:
  "\<exists>e. record_gate_decision panel_host sample_ctx ''G1'' (Some ''L1'')
      \<lparr>v_decision = ''approve'', v_via = Via_orchestration, v_by = Some ''L2'', v_note = None,
       v_deciding_role = Some ''orchestrator''\<rparr> None (decision_world [sample_open\<lparr>g_kind := push_approval\<rparr>])
    = (Inl e, decision_world [sample_open\<lparr>g_kind := push_approval\<rparr>])"
proof (rule pinned_gate_refuses_orchestration [THEN conjunct1])
  show "make_gate_policy [] = Inr (dc_policy sample_ctx)" by code_simp
  show "target_gate (w_gates (decision_world [sample_open\<lparr>g_kind := push_approval\<rparr>])) ''G1'' (Some ''L1'')
      = Inr (sample_open\<lparr>g_kind := push_approval\<rparr>)" by code_simp
qed (simp_all add: HUMAN_PINNED_GATE_KINDS_def)

text \<open>Cancelling a spent approval forgets it: an agent's own cancel, through the command line,
  of a gate that is already applied deletes the record, and the next claim for another operation is
  permitted as if the gate had never been raised, while the same claim before the cancel is
  refused.\<close>

lemma cancel_forgets_spent_approval:
  "\<exists>resp w'. \<not> permitted (evaluate_gate [(''G1'', apply_gate sample_gate ''2026-01-02T00:00:00+00:00'' (Some ''op-1''))]
       closeout_approval [] (Some ''op-2''))
   \<and> record_gate_decision panel_host sample_ctx ''G1'' (Some ''L1'')
        \<lparr>v_decision = ''cancel'', v_via = Via_cli, v_by = Some ''model'', v_note = None, v_deciding_role = None\<rparr> None
        (decision_world [sample_gate, apply_gate sample_gate ''2026-01-02T00:00:00+00:00'' (Some ''op-1'')]) = (Inr resp, w')
   \<and> claim_approval sample_host (w_gates w') (Some ''L1'') closeout_approval ''2026-01-03T00:00:00+00:00'' [] (Some ''op-2'')
        = Inr (guard closeout_approval True NoGate None, w_gates w')"
proof -
  have 1: "\<not> permitted (evaluate_gate [(''G1'', apply_gate sample_gate ''2026-01-02T00:00:00+00:00'' (Some ''op-1''))]
       closeout_approval [] (Some ''op-2''))" by code_simp
  have "case record_gate_decision panel_host sample_ctx ''G1'' (Some ''L1'')
        \<lparr>v_decision = ''cancel'', v_via = Via_cli, v_by = Some ''model'', v_note = None, v_deciding_role = None\<rparr> None
        (decision_world [sample_gate, apply_gate sample_gate ''2026-01-02T00:00:00+00:00'' (Some ''op-1'')]) of
        (Inr _, w') \<Rightarrow> claim_approval sample_host (w_gates w') (Some ''L1'') closeout_approval ''2026-01-03T00:00:00+00:00'' []
          (Some ''op-2'') = Inr (guard closeout_approval True NoGate None, w_gates w')
      | _ \<Rightarrow> False" by code_simp
  then show ?thesis using 1 by (auto split: prod.splits sum.splits)
qed

end
