(* ===== verification/Lifecycle.thy ===== *)
theory Lifecycle
  imports Gate_Store
begin

text \<open>
  The observer's lifecycle: \<open>observer/lifecycle_state.py\<close>, \<open>observer/save_gate.py\<close>,
  \<open>observer/events.py\<close>, \<open>observer/store.py\<close>, \<open>observer/served_store.py\<close> and the process-wide
  state machine of \<open>observer/ambient.py\<close>. A session holds at most one lifecycle; every signal moves
  it and appends an event to the log of that lifecycle.
\<close>

section \<open>Vocabulary\<close>

datatype lc_state = Running | Paused | Blocked | Awaiting_developer | Completed | Abandoned

datatype phase = Request | Trust_checkpoint | Reframe_research | Decide | Build | Close

fun state_name :: "lc_state \<Rightarrow> string" where
  "state_name Running = ''running''"
| "state_name Paused = ''paused''"
| "state_name Blocked = ''blocked''"
| "state_name Awaiting_developer = ''awaiting-developer''"
| "state_name Completed = ''completed''"
| "state_name Abandoned = ''abandoned''"

fun phase_name :: "phase \<Rightarrow> string" where
  "phase_name Request = ''request''"
| "phase_name Trust_checkpoint = ''trust-checkpoint''"
| "phase_name Reframe_research = ''reframe-research''"
| "phase_name Decide = ''decide''"
| "phase_name Build = ''build''"
| "phase_name Close = ''close''"

definition STATES :: "lc_state list" where
  "STATES = [Running, Paused, Blocked, Awaiting_developer, Completed, Abandoned]"

definition TERMINAL_STATES :: "lc_state set" where
  "TERMINAL_STATES = {Completed, Abandoned}"

definition PHASES :: "phase list" where
  "PHASES = [Request, Trust_checkpoint, Reframe_research, Decide, Build, Close]"

definition state_of_name :: "string \<Rightarrow> lc_state option" where
  "state_of_name n = find (\<lambda>s. state_name s = n) STATES"

definition coerce_phase :: "string \<Rightarrow> phase result" where
  "coerce_phase v = (case find (\<lambda>p. phase_name p = v) PHASES of
       None \<Rightarrow> Inl (LifecycleError v) | Some p \<Rightarrow> Inr p)"

text \<open>The outcome of \<open>lifecycle.ended\<close>: anything but a terminal name is an abandonment.\<close>

definition coerce_end_outcome :: "json option \<Rightarrow> lc_state" where
  "coerce_end_outcome v = (case v of
       Some (JStr n) \<Rightarrow> (case state_of_name n of
           Some s \<Rightarrow> if s \<in> TERMINAL_STATES then s else Abandoned
         | None \<Rightarrow> Abandoned)
     | _ \<Rightarrow> Abandoned)"

record lifecycle_state =
  lc_id :: string
  lc_state :: lc_state
  lc_phase :: phase
  lc_fleeting :: bool
  lc_started_at :: string
  lc_enclosure :: "string option"
  lc_repo_id :: "string option"
  lc_scope :: "string option"

definition is_terminal :: "lifecycle_state \<Rightarrow> bool" where
  "is_terminal c \<longleftrightarrow> lc_state c \<in> TERMINAL_STATES"

datatype save_decision = Save | Discard

definition coerce_save_decision :: "string \<Rightarrow> save_decision result" where
  "coerce_save_decision v = (if v = ''save'' then Inr Save else if v = ''discard'' then Inr Discard
     else Inl (LifecycleError v))"

definition compute_scope :: "string option \<Rightarrow> bool \<Rightarrow> string" where
  "compute_scope repo_id cross_repo =
     (if cross_repo then ''1_cross-repo''
      else if truthy_str repo_id then the repo_id else ''0_unscoped'')"

section \<open>Events and their store\<close>

datatype trust = Declared | Observed | Inferred | Approved

datatype actor = Model | System | Developer

record event =
  ov_id :: string
  ov_ts :: string
  ov_kind :: string
  ov_trust :: trust
  ov_actor :: actor
  ov_data :: "(string \<times> json) list"
  ov_lifecycleId :: "string option"
  ov_enclosure :: "string option"
  ov_repoId :: "string option"
  ov_sessionId :: "string option"
  ov_spanId :: "string option"

abbreviation HEARTBEAT_KIND :: string where
  "HEARTBEAT_KIND \<equiv> ''lifecycle.heartbeat''"

text \<open>The JSONL logs, keyed like the gate logs, and the coalesced heartbeat of each lifecycle.\<close>

record event_store =
  es_logs :: "(string option, event log_line list) dict"
  es_beats :: "(string, event log_line) dict"

definition event_append :: "event_store \<Rightarrow> event \<Rightarrow> event_store" where
  "event_append s e =
     (if truthy_str (ov_lifecycleId e) \<and> ov_kind e = HEARTBEAT_KIND
      then s\<lparr>es_beats := AList.update (the (ov_lifecycleId e)) (Row e) (es_beats s)\<rparr>
      else s\<lparr>es_logs := AList.update (log_key (ov_lifecycleId e))
             (read_log_text (map_of (es_logs s) (log_key (ov_lifecycleId e))) @ [Row e]) (es_logs s)\<rparr>)"

fun row_event :: "event log_line \<Rightarrow> event option" where
  "row_event (Row e) = Some e"
| "row_event (Torn t) = None"
| "row_event Blank = None"

definition read_log :: "event_store \<Rightarrow> string option \<Rightarrow> event list" where
  "read_log s lifecycle_id = List.map_filter row_event (read_log_text (map_of (es_logs s) (log_key lifecycle_id)))"

definition read_heartbeat_sidecar :: "event_store \<Rightarrow> string \<Rightarrow> event option" where
  "read_heartbeat_sidecar s lifecycle_id =
     (case Option.bind (map_of (es_beats s) lifecycle_id) row_event of None \<Rightarrow> None
      | Some e \<Rightarrow> if ov_kind e = HEARTBEAT_KIND then Some e else None)"

text \<open>\<open>_event_time\<close>: every \<open>Z\<close> of the stamp is written out as an offset, a naive stamp counts as UTC.
  The instant is an integer, so the ends of Python's calendar are not reached.\<close>

definition event_time :: "string \<Rightarrow> micros option" where
  "event_time ts = (case fromisoformat (concat (map (\<lambda>c. if c = CHR ''Z'' then ''+00:00'' else [c]) ts)) of
       None \<Rightarrow> None
     | Some d \<Rightarrow> Some (case dt_off d of None \<Rightarrow> dt_us d | Some off \<Rightarrow> dt_us d - off))"

definition event_before :: "event \<Rightarrow> event \<Rightarrow> bool" where
  "event_before l r = (case (event_time (ov_ts l), event_time (ov_ts r)) of
       (Some a, Some b) \<Rightarrow> a < b | _ \<Rightarrow> ov_ts l < ov_ts r)"

definition event_read :: "event_store \<Rightarrow> string option \<Rightarrow> event list" where
  "event_read s lifecycle_id =
     (let events = read_log s lifecycle_id in
      case lifecycle_id of None \<Rightarrow> events
      | Some l \<Rightarrow> (case read_heartbeat_sidecar s l of None \<Rightarrow> events
          | Some beat \<Rightarrow> if events = [] \<or> \<not> event_before beat (last events) then events @ [beat] else events))"

section \<open>The served ledger\<close>

record served_record =
  sv_kind :: string
  sv_path :: string
  sv_hash :: string
  sv_ts :: string

definition served_key :: "string \<Rightarrow> string \<Rightarrow> string \<Rightarrow> string" where
  "served_key k p content_hash = k @ '':'' @ p @ '':'' @ content_hash"

text \<open>The durable logs by lifecycle, and the sets in memory.\<close>

type_synonym served_store = "(string, served_record log_line list) dict"

type_synonym served_sets = "(string, string list) dict"

fun served_row :: "served_record log_line \<Rightarrow> served_record option" where
  "served_row (Row r) = Some r"
| "served_row (Torn t) = None"
| "served_row Blank = None"

definition served_append :: "served_store \<Rightarrow> string \<Rightarrow> served_record \<Rightarrow> served_store" where
  "served_append st l r = AList.update l (read_log_text (map_of st l) @ [Row r]) st"

definition served_set :: "served_store \<Rightarrow> string \<Rightarrow> string list" where
  "served_set st l = map (\<lambda>r. served_key (sv_kind r) (sv_path r) (sv_hash r))
     (List.map_filter served_row (read_log_text (map_of st l)))"

definition hydrated :: "served_store \<Rightarrow> string \<Rightarrow> served_sets \<Rightarrow> string list \<times> served_sets" where
  "hydrated st l sets = (case map_of sets l of Some cached \<Rightarrow> (cached, sets)
     | None \<Rightarrow> (served_set st l, AList.update l (served_set st l) sets))"

definition is_served ::
  "served_store \<Rightarrow> string \<Rightarrow> string \<Rightarrow> string \<Rightarrow> string \<Rightarrow> served_sets \<Rightarrow> bool \<times> served_sets" where
  "is_served st l k p content_hash sets =
     (let (cached, sets') = hydrated st l sets in (served_key k p content_hash \<in> set cached, sets'))"

definition record_served ::
  "string \<Rightarrow> string \<Rightarrow> string \<Rightarrow> string \<Rightarrow> string \<Rightarrow> served_store \<Rightarrow> served_sets \<Rightarrow> served_store \<times> served_sets" where
  "record_served l k p content_hash ts st sets =
     (let (cached, sets') = hydrated st l sets in
      (served_append st l \<lparr>sv_kind = k, sv_path = p, sv_hash = content_hash, sv_ts = ts\<rparr>,
       AList.update l (cached @ [served_key k p content_hash]) sets'))"

definition reset_served :: "string \<Rightarrow> served_store \<Rightarrow> served_sets \<Rightarrow> served_store \<times> served_sets" where
  "reset_served l st sets = (AList.delete l st, AList.delete l sets)"

definition forget_served :: "string \<Rightarrow> served_sets \<Rightarrow> served_sets" where
  "forget_served l sets = AList.delete l sets"

end
