(* ===== verification/Ambient.thy ===== *)
theory Ambient
  imports Lifecycle
begin

text \<open>
  \<open>observer/ambient.py\<close>: the lifecycle of one server process. Each signal checks the state it
  starts from, moves the current lifecycle and emits one event; leaving a lifecycle goes through
  the save gate; the heartbeat beats while there is activity; a sweep deletes the directories of
  dormant fleeting lifecycles.
\<close>

section \<open>State\<close>

text \<open>The directory below the observer root: a lifecycle's directory holds its events, heartbeat,
  gates and served pieces.\<close>

record observer =
  ob_events :: event_store
  ob_gates :: gate_store
  ob_served :: served_store

text \<open>The injected clock and id factory: what the n-th call returns.\<close>

record ambient_env =
  mint_id :: "nat \<Rightarrow> string"
  clock_at :: "nat \<Rightarrow> utc"

record ambient_timing =
  heartbeat_us :: micros
  ttl_us :: micros
  inactivity_cutoff_us :: micros

definition TTL :: micros where
  "TTL = 3600 * second"

definition STALE_AFTER :: micros where
  "STALE_AFTER = 180 * second"

definition default_timing :: ambient_timing where
  "default_timing = \<lparr>heartbeat_us = 15 * second, ttl_us = TTL, inactivity_cutoff_us = 10 * 60 * second\<rparr>"

record session =
  se_timing :: ambient_timing
  se_current :: "lifecycle_state option"
  se_last_activity :: "string option"
  se_ticking :: bool
  se_sets :: served_sets
  se_minted :: nat
  se_clock_reads :: nat
  se_obs :: observer

definition now_stamp :: "ambient_env \<Rightarrow> session \<Rightarrow> string" where
  "now_stamp env s = utc_stamp (clock_at env (se_clock_reads s))"

section \<open>Emission\<close>

definition emitted_event ::
  "ambient_env \<Rightarrow> session \<Rightarrow> lifecycle_state \<Rightarrow> string \<Rightarrow> trust \<Rightarrow> actor \<Rightarrow> (string \<times> json) list \<Rightarrow> event" where
  "emitted_event env s c k tr ac data =
     \<lparr>ov_id = mint_id env (se_minted s), ov_ts = now_stamp env s, ov_kind = k, ov_trust = tr, ov_actor = ac,
      ov_data = data, ov_lifecycleId = Some (lc_id c), ov_enclosure = lc_enclosure c, ov_repoId = lc_repo_id c,
      ov_sessionId = None, ov_spanId = None\<rparr>"

definition emit :: "ambient_env \<Rightarrow> string \<Rightarrow> trust \<Rightarrow> actor \<Rightarrow> (string \<times> json) list \<Rightarrow> session \<Rightarrow> session" where
  "emit env k tr ac data s = (case se_current s of None \<Rightarrow> s
     | Some c \<Rightarrow>
        s\<lparr>se_last_activity := (if k \<noteq> HEARTBEAT_KIND then Some (now_stamp env s) else se_last_activity s),
          se_minted := se_minted s + 1, se_clock_reads := se_clock_reads s + 1,
          se_obs := (se_obs s)\<lparr>ob_events := event_append (ob_events (se_obs s)) (emitted_event env s c k tr ac data)\<rparr>\<rparr>)"

definition start_ticker :: "session \<Rightarrow> session" where
  "start_ticker s = s\<lparr>se_ticking := True\<rparr>"

definition stop_ticker :: "session \<Rightarrow> session" where
  "stop_ticker s = s\<lparr>se_ticking := False\<rparr>"

definition require_active :: "session \<Rightarrow> lifecycle_state result" where
  "require_active s = (case se_current s of None \<Rightarrow> Inl (LifecycleError ''no active lifecycle'') | Some c \<Rightarrow> Inr c)"

section \<open>The sweep of dormant fleeting lifecycles\<close>

fun json_truthy :: "json \<Rightarrow> bool" where
  "json_truthy JNull = False"
| "json_truthy (JBool b) = b"
| "json_truthy (JInt n) = (n \<noteq> 0)"
| "json_truthy (JStr t) = (t \<noteq> [])"
| "json_truthy (JList xs) = (xs \<noteq> [])"
| "json_truthy (JObj ps) = (ps \<noteq> [])"

definition data_truthy :: "bool \<Rightarrow> (string \<times> json) list \<Rightarrow> string \<Rightarrow> bool" where
  "data_truthy dflt data k = (case map_of data k of None \<Rightarrow> dflt | Some v \<Rightarrow> json_truthy v)"

definition is_dormant_fleeting :: "micros \<Rightarrow> event_store \<Rightarrow> string \<Rightarrow> utc \<Rightarrow> bool" where
  "is_dormant_fleeting ttl es lifecycle_id now =
     (let events = event_read es (Some lifecycle_id) in
      if events = [] then False
      else if ov_kind (hd events) \<noteq> ''lifecycle.started'' \<or> \<not> data_truthy False (ov_data (hd events)) ''fleeting''
      then False
      else if list_ex (\<lambda>e. ov_kind e = ''lifecycle.promoted'') events then False
      else (case age_seconds (ov_ts (last events)) now of None \<Rightarrow> False | Some age \<Rightarrow> ttl < age))"

text \<open>The lifecycle directories, and the removal of one of them with all it holds.\<close>

definition observer_dirs :: "observer \<Rightarrow> string list" where
  "observer_dirs ob = remdups (List.map_filter fst (es_logs (ob_events ob)) @ map fst (es_beats (ob_events ob))
     @ List.map_filter fst (gs_logs (ob_gates ob)) @ map fst (ob_served ob))"

definition rmtree :: "string \<Rightarrow> observer \<Rightarrow> observer" where
  "rmtree l ob =
     ob\<lparr>ob_events := (ob_events ob)\<lparr>es_logs := AList.delete (Some l) (es_logs (ob_events ob)),
                                    es_beats := AList.delete l (es_beats (ob_events ob))\<rparr>,
        ob_gates := (ob_gates ob)\<lparr>gs_logs := AList.delete (Some l) (gs_logs (ob_gates ob))\<rparr>,
        ob_served := AList.delete l (ob_served ob)\<rparr>"

definition stale_dirs :: "session \<Rightarrow> utc \<Rightarrow> string list" where
  "stale_dirs s now = filter (\<lambda>l. map_option lc_id (se_current s) \<noteq> Some l
       \<and> is_dormant_fleeting (ttl_us (se_timing s)) (ob_events (se_obs s)) l now) (observer_dirs (se_obs s))"

definition reap_stale_fleeting :: "ambient_env \<Rightarrow> session \<Rightarrow> string list \<times> session" where
  "reap_stale_fleeting env s =
     (if observer_dirs (se_obs s) = [] then ([], s)
      else (let pruned = stale_dirs s (clock_at env (se_clock_reads s)) in
            (pruned, s\<lparr>se_clock_reads := se_clock_reads s + 1, se_obs := fold rmtree pruned (se_obs s)\<rparr>)))"

section \<open>Signals\<close>

definition started_lifecycle :: "ambient_env \<Rightarrow> bool \<Rightarrow> phase \<Rightarrow> session \<Rightarrow> lifecycle_state" where
  "started_lifecycle env fleeting ph s =
     \<lparr>lc_id = mint_id env (se_minted s), lc_state = Running, lc_phase = ph, lc_fleeting = fleeting,
      lc_started_at = now_stamp env s, lc_enclosure = None, lc_repo_id = None, lc_scope = None\<rparr>"

text \<open>Minting a fresh lifecycle, shared by \<open>start\<close> and \<open>switch\<close>.\<close>

definition begin_lifecycle ::
  "ambient_env \<Rightarrow> bool \<Rightarrow> phase \<Rightarrow> session \<Rightarrow> lifecycle_state \<times> session" where
  "begin_lifecycle env fleeting ph s =
     (let c = started_lifecycle env fleeting ph s;
          s1 = s\<lparr>se_current := Some c, se_minted := se_minted s + 1, se_clock_reads := se_clock_reads s + 1\<rparr>;
          s2 = emit env ''lifecycle.started'' Declared Model [(''phase'', JStr (phase_name ph)), (''fleeting'', JBool fleeting)] s1
      in (c, snd (reap_stale_fleeting env (start_ticker s2))))"

definition start_lifecycle :: "ambient_env \<Rightarrow> bool \<Rightarrow> phase \<Rightarrow> session \<Rightarrow> (lifecycle_state \<times> session) result" where
  "start_lifecycle env fleeting ph s = (case se_current s of
       Some c \<Rightarrow> Inl (GuardedStartError (lc_id c))
     | None \<Rightarrow> Inr (begin_lifecycle env fleeting ph s))"

definition build_ask :: "string option \<Rightarrow> string option \<Rightarrow> string list option \<Rightarrow> (string \<times> json) list option" where
  "build_ask k prompt options =
     (let pruned = (case k of None \<Rightarrow> [] | Some t \<Rightarrow> [(''kind'', JStr t)])
                 @ (case prompt of None \<Rightarrow> [] | Some t \<Rightarrow> [(''prompt'', JStr t)])
                 @ (case options of None \<Rightarrow> [] | Some ts \<Rightarrow> [(''options'', JList (map JStr ts))])
      in if pruned = [] then None else Some pruned)"

text \<open>A signal that needs the current lifecycle in one state, moves it to another and emits.\<close>

definition signal_from ::
  "ambient_env \<Rightarrow> lc_state \<Rightarrow> lc_state \<Rightarrow> string \<Rightarrow> (string \<times> json) list \<Rightarrow> session
     \<Rightarrow> (lifecycle_state \<times> session) result" where
  "signal_from env from_state to_state k data s =
     rbind (require_active s) (\<lambda>c.
       if lc_state c \<noteq> from_state then Inl (LifecycleError (state_name (lc_state c)))
       else (let c' = c\<lparr>lc_state := to_state\<rparr> in
             Inr (c', emit env k Declared Model data (s\<lparr>se_current := Some c'\<rparr>))))"

definition block ::
  "ambient_env \<Rightarrow> string option \<Rightarrow> string option \<Rightarrow> string list option \<Rightarrow> session
     \<Rightarrow> (lifecycle_state \<times> session) result" where
  "block env k prompt options =
     signal_from env Running Blocked ''lifecycle.blocked''
       (case build_ask k prompt options of None \<Rightarrow> [] | Some ask \<Rightarrow> [(''ask'', JObj ask)])"

definition resume :: "ambient_env \<Rightarrow> session \<Rightarrow> (lifecycle_state \<times> session) result" where
  "resume env = signal_from env Blocked Running ''lifecycle.resumed'' []"

definition await_developer :: "ambient_env \<Rightarrow> string \<Rightarrow> session \<Rightarrow> (lifecycle_state \<times> session) result" where
  "await_developer env summary =
     signal_from env Running Awaiting_developer ''lifecycle.awaiting-developer'' [(''summary'', JStr summary)]"

definition resume_from_await :: "ambient_env \<Rightarrow> session \<Rightarrow> (lifecycle_state \<times> session) result" where
  "resume_from_await env = signal_from env Awaiting_developer Running ''lifecycle.resumed'' []"

text \<open>Dropping the current lifecycle: the ticker stops, the served set is forgotten.\<close>

definition release :: "session \<Rightarrow> session" where
  "release s = (case se_current s of None \<Rightarrow> s
     | Some c \<Rightarrow> (stop_ticker s)\<lparr>se_sets := forget_served (lc_id c) (se_sets s), se_current := None\<rparr>)"

definition end_lifecycle :: "ambient_env \<Rightarrow> string \<Rightarrow> session \<Rightarrow> (lifecycle_state \<times> session) result" where
  "end_lifecycle env outcome s =
     (if outcome \<notin> state_name ` TERMINAL_STATES then Inl (LifecycleError outcome)
      else rbind (require_active s) (\<lambda>c.
        Inr (c\<lparr>lc_state := coerce_end_outcome (Some (JStr outcome))\<rparr>,
             release (emit env ''lifecycle.ended'' Declared Model [(''outcome'', JStr outcome)] s))))"

definition set_phase :: "ambient_env \<Rightarrow> phase \<Rightarrow> session \<Rightarrow> (lifecycle_state \<times> session) result" where
  "set_phase env ph s =
     rbind (require_active s) (\<lambda>c. let c' = c\<lparr>lc_phase := ph\<rparr> in
       Inr (c', emit env ''lifecycle.phase-changed'' Declared Model [(''phase'', JStr (phase_name ph))]
                  (s\<lparr>se_current := Some c'\<rparr>)))"

definition pause :: "ambient_env \<Rightarrow> string \<Rightarrow> session \<Rightarrow> session" where
  "pause env cause s = release (emit env ''lifecycle.paused'' Observed System [(''cause'', JStr cause)] s)"

definition promote_to_landing_zone :: "ambient_env \<Rightarrow> session \<Rightarrow> session" where
  "promote_to_landing_zone env s = (case se_current s of None \<Rightarrow> s
     | Some c \<Rightarrow> (let scope = compute_scope (lc_repo_id c) False in
         emit env ''lifecycle.promoted'' Observed System [(''scope'', JStr scope)]
           (s\<lparr>se_current := Some (c\<lparr>lc_fleeting := False, lc_scope := Some scope\<rparr>)\<rparr>)))"

definition leave_current :: "ambient_env \<Rightarrow> save_decision option \<Rightarrow> session \<Rightarrow> session result" where
  "leave_current env decision s = (case se_current s of None \<Rightarrow> Inr s
     | Some c \<Rightarrow>
        if \<not> lc_fleeting c then Inr (pause env ''switched-away'' s)
        else (case decision of
            None \<Rightarrow> Inl (SaveGateRequired (lc_id c))
          | Some Save \<Rightarrow> Inr (pause env ''switched-away'' (promote_to_landing_zone env s))
          | Some Discard \<Rightarrow>
              Inr (release (emit env ''lifecycle.ended'' Declared Model [(''outcome'', JStr ''abandoned'')] s))))"

definition switch ::
  "ambient_env \<Rightarrow> save_decision option \<Rightarrow> bool \<Rightarrow> phase \<Rightarrow> session \<Rightarrow> (lifecycle_state \<times> session) result" where
  "switch env on_unsaved fleeting ph s =
     rbind (leave_current env on_unsaved s) (\<lambda>s'. Inr (begin_lifecycle env fleeting ph s'))"

definition promote ::
  "ambient_env \<Rightarrow> string \<Rightarrow> string option \<Rightarrow> string \<Rightarrow> session \<Rightarrow> (lifecycle_state \<times> session) result" where
  "promote env enclosure repo_id scope s =
     rbind (require_active s) (\<lambda>c.
       let c' = c\<lparr>lc_fleeting := False, lc_enclosure := Some enclosure, lc_repo_id := repo_id, lc_scope := Some scope\<rparr> in
       Inr (c', emit env ''lifecycle.promoted'' Observed System [(''scope'', JStr scope)] (s\<lparr>se_current := Some c'\<rparr>)))"

definition attach ::
  "ambient_env \<Rightarrow> string \<Rightarrow> string \<Rightarrow> string option \<Rightarrow> save_decision option \<Rightarrow> phase \<Rightarrow> session
     \<Rightarrow> (lifecycle_state \<times> session) result" where
  "attach env lifecycle_id enclosure repo_id on_unsaved ph s =
     (if map_option lc_id (se_current s) = Some lifecycle_id then Inr (the (se_current s), s)
      else rbind (leave_current env on_unsaved s) (\<lambda>s'.
        (let adopted = \<lparr>lc_id = lifecycle_id, lc_state = Running, lc_phase = ph, lc_fleeting = False,
               lc_started_at = now_stamp env s', lc_enclosure = Some enclosure, lc_repo_id = repo_id,
               lc_scope = Some (compute_scope repo_id False)\<rparr>;
             s1 = s'\<lparr>se_current := Some adopted, se_clock_reads := se_clock_reads s' + 1\<rparr>;
             s2 = emit env ''lifecycle.resumed'' Observed System [(''cause'', JStr ''adopted'')] s1
         in Inr (adopted, snd (reap_stale_fleeting env (start_ticker s2))))))"

section \<open>Observed events, heartbeat\<close>

definition json_or_null :: "json option \<Rightarrow> json" where
  "json_or_null v = (case v of None \<Rightarrow> JNull | Some j \<Rightarrow> j)"

definition emit_tool :: "ambient_env \<Rightarrow> string \<Rightarrow> (string \<times> json) list \<Rightarrow> session \<Rightarrow> session" where
  "emit_tool env tool_name payload =
     emit env ''tool.completed'' Observed Model
       [(''tool'', JStr tool_name), (''tokens'', json_or_null (map_of payload ''tokens'')),
        (''ok'', json_or_null (map_of payload ''ok''))]"

definition READ_PACKET_FACTS :: "string list" where
  "READ_PACKET_FACTS = [''path'', ''lines'', ''status'', ''bytes'']"

definition project_read_facts :: "(string \<times> json) list \<Rightarrow> (string \<times> json) list" where
  "project_read_facts entry =
     List.map_filter (\<lambda>k. map_option (Pair k) (map_of entry k)) READ_PACKET_FACTS"

definition emit_read_packet :: "ambient_env \<Rightarrow> string \<Rightarrow> (string \<times> json) list list \<Rightarrow> session \<Rightarrow> session" where
  "emit_read_packet env repo_id files =
     emit env ''read.packet'' Observed Model
       [(''repoId'', JStr repo_id), (''files'', JList (map (JObj \<circ> project_read_facts) files))]"

definition inactive_us :: "session \<Rightarrow> utc \<Rightarrow> micros" where
  "inactive_us s now = (case se_last_activity s of None \<Rightarrow> 0
     | Some ts \<Rightarrow> (case age_seconds ts now of None \<Rightarrow> 0 | Some age \<Rightarrow> age))"

text \<open>One beat: whether the loop goes on, and the session after it. The clock is read only when there
  was activity before.\<close>

definition heartbeat_tick :: "ambient_env \<Rightarrow> session \<Rightarrow> bool \<times> session" where
  "heartbeat_tick env s = (case se_current s of None \<Rightarrow> (False, s)
     | Some c \<Rightarrow>
        if is_terminal c then (False, s)
        else (let idle = inactive_us s (clock_at env (se_clock_reads s));
                  s1 = (if se_last_activity s = None then s else s\<lparr>se_clock_reads := se_clock_reads s + 1\<rparr>) in
              if inactivity_cutoff_us (se_timing s) < idle then (True, s1)
              else (True, emit env HEARTBEAT_KIND Observed System
                      [(''state'', JStr (state_name (lc_state c))), (''phase'', JStr (phase_name (lc_phase c)))] s1)))"

definition shutdown :: "session \<Rightarrow> session" where
  "shutdown s = stop_ticker s"

end
