(* ===== verification/Gate_Tools.thy ===== *)
theory Gate_Tools
  imports Gate_Decisions Ambient
begin

text \<open>
  \<open>application/gate_tools.py\<close>: the tools through which an agent raises a gate, waits for its
  decision and records decisions of its own. The clock, the minted ids, the configured policy and
  the deadline setting are arguments; while a tool waits, the other processes are a function that
  gives the world each poll finds.
\<close>

section \<open>Calls\<close>

text \<open>\<open>config\<close>: the gate policy and the \<open>verdict-by\<close> deadline of the agentic settings.\<close>

record tool_config =
  cf_policy :: gate_policy
  cf_sla :: micros

text \<open>What one call draws from the outside: its clock readings and fresh ids.\<close>

record gate_call =
  gc_now :: utc
  gc_gate_id :: string
  gc_row_id :: string
  gc_row_now :: utc

record tool_world = world +
  tw_ambient :: "session option"

definition ambient_current :: "'z tool_world_scheme \<Rightarrow> lifecycle_state option" where
  "ambient_current w = Option.bind (tw_ambient w) se_current"

definition write_verdict_by_row :: "host \<Rightarrow> tool_config \<Rightarrow> gate_call \<Rightarrow> gate_record \<Rightarrow> ('z world_scheme, unit) act" where
  "write_verdict_by_row h cfg call gate =
     abind (on_rows (\<lambda>rows. write_expectation_row h rows
         \<lparr>xp_kind = Verdict_by, xp_source_id = g_id gate,
          xp_subject = \<lparr>xs_agent_id = None, xs_lifecycle_id = g_lifecycleId gate, xs_task_document_ref = None,
                        xs_seat_role = None\<rparr>,
          xp_note = Some (''verdict-by: '' @ gate_kind_name (g_kind gate) @ '' gate '' @ g_id gate)\<rparr>
         (gc_row_id call) (gc_row_now call) (cf_sla cfg)))
       (\<lambda>_. aread (\<lambda>_. Inr ()))"

definition resolve_gate_lifecycle_id :: "string option \<Rightarrow> 'z tool_world_scheme \<Rightarrow> string result" where
  "resolve_gate_lifecycle_id lifecycle_id w = (case lifecycle_id of
       Some l \<Rightarrow> if str_strip l \<noteq> [] then Inr l else Inl (ValueError ''lifecycle_id must be non-empty'')
     | None \<Rightarrow> (case ambient_current w of
           None \<Rightarrow> Inl (LifecycleError ''no active lifecycle'') | Some c \<Rightarrow> Inr (lc_id c)))"

definition resolve_deciding_actor :: "string option \<Rightarrow> decided_via \<Rightarrow> 'z tool_world_scheme \<Rightarrow> string result" where
  "resolve_deciding_actor decided_by via w =
     (let named = (case decided_by of None \<Rightarrow> False | Some b \<Rightarrow> str_strip b \<noteq> []) in
      if named then Inr (the decided_by)
      else if via \<noteq> Via_orchestration then Inl (ValueError ''gate decision actor must be non-empty'')
      else (case ambient_current w of
          None \<Rightarrow> Inl (LifecycleError ''no active deciding lifecycle'') | Some c \<Rightarrow> Inr (lc_id c)))"

section \<open>Raising a gate\<close>

fun expire_open :: "host \<Rightarrow> string \<Rightarrow> gate_record list \<Rightarrow> ('z world_scheme, unit) act" where
  "expire_open h now [] = aread (\<lambda>_. Inr ())"
| "expire_open h now (g # gs) =
     (if g_state g = GOpen then abind (append_gate h (expire_gate g now)) (\<lambda>_. expire_open h now gs)
      else expire_open h now gs)"

definition expire_current :: "host \<Rightarrow> string \<Rightarrow> string \<Rightarrow> ('z world_scheme, unit) act" where
  "expire_current h now lifecycle_id =
     abind (aread (\<lambda>w. gate_current (w_gates w) (Some lifecycle_id))) (\<lambda>gates. expire_open h now (dict_values gates))"

text \<open>Creating, appending and the deadline row: the common tail of both raising tools.\<close>

definition open_gate ::
  "host \<Rightarrow> tool_config \<Rightarrow> gate_call \<Rightarrow> string \<Rightarrow> gate_kind result \<Rightarrow> gate_anchor \<Rightarrow> gate_request option
     \<Rightarrow> ('z world_scheme, gate_record) act" where
  "open_gate h cfg call lifecycle_id k anchor request =
     abind (aread (\<lambda>_. rbind k (\<lambda>kind. create_gate kind (gc_gate_id call) (utc_stamp (gc_now call))
         (Some (anchor\<lparr>anchor_lifecycle_id := Some lifecycle_id\<rparr>)) request))) (\<lambda>gate.
     abind (append_gate h gate) (\<lambda>_.
     abind (write_verdict_by_row h cfg call gate) (\<lambda>_. aread (\<lambda>_. Inr gate))))"

definition gate_create_tool ::
  "host \<Rightarrow> tool_config \<Rightarrow> gate_call \<Rightarrow> string \<Rightarrow> gate_anchor option \<Rightarrow> gate_request option
     \<Rightarrow> ('z tool_world_scheme, gate_record) act" where
  "gate_create_tool h cfg call k anchor request =
     (let a = (case anchor of None \<Rightarrow> no_anchor | Some a \<Rightarrow> a) in
      abind (aread (resolve_gate_lifecycle_id (anchor_lifecycle_id a))) (\<lambda>lifecycle_id.
      abind (expire_current h (utc_stamp (gc_now call)) lifecycle_id) (\<lambda>_.
        open_gate h cfg call lifecycle_id (coerce_gate_kind k) a request)))"

definition gating_lifecycle :: "lifecycle_state option \<Rightarrow> string option \<Rightarrow> lifecycle_state result" where
  "gating_lifecycle current lifecycle_id = (case current of
       None \<Rightarrow> Inl (LifecycleError ''lifecycle_gate requires an active lifecycle'')
     | Some c \<Rightarrow>
        if lifecycle_id \<noteq> None \<and> lifecycle_id \<noteq> Some (lc_id c) then Inl (LifecycleError ''lifecycle_id does not match'')
        else if lc_state c \<noteq> Running then Inl (LifecycleError (state_name (lc_state c)))
        else Inr c)"

definition ask_string :: "(string \<times> json) list \<Rightarrow> string \<Rightarrow> string option result" where
  "ask_string ask k = (case map_of ask k of None \<Rightarrow> Inr None | Some JNull \<Rightarrow> Inr None
     | Some (JStr t) \<Rightarrow> Inr (Some t) | Some _ \<Rightarrow> Inl (ValueError k))"

fun json_string :: "json \<Rightarrow> string option" where
  "json_string (JStr t) = Some t"
| "json_string _ = None"

definition validated_ask ::
  "(string \<times> json) list option \<Rightarrow> (string option \<times> string option \<times> string list option) result" where
  "validated_ask ask =
     (let payload = (case ask of None \<Rightarrow> [] | Some a \<Rightarrow> a) in
      rbind (ask_string payload ''kind'') (\<lambda>k.
      rbind (ask_string payload ''prompt'') (\<lambda>prompt.
      rbind (case map_of payload ''options'' of None \<Rightarrow> Inr None | Some JNull \<Rightarrow> Inr None
             | Some (JList os) \<Rightarrow> (if list_all (\<lambda>j. json_string j \<noteq> None) os
                                    then Inr (Some (List.map_filter json_string os)) else Inl (ValueError ''options''))
             | Some _ \<Rightarrow> Inl (ValueError ''options'')) (\<lambda>options. Inr (k, prompt, options)))))"

definition require_raise_and_continue_allowed :: "tool_config \<Rightarrow> gate_kind \<Rightarrow> string option \<Rightarrow> unit result" where
  "require_raise_and_continue_allowed cfg k enclosure =
     (if k \<notin> SEAM_GATE_KINDS then Inl (ValueError ''wait=false is reserved for delegated seam kinds'')
      else if delegated_role (rule_for (cf_policy cfg) k) = None then Inl (ValueError ''not delegated'')
      else if (case enclosure of None \<Rightarrow> True | Some e \<Rightarrow> str_strip e = [])
      then Inl (ValueError ''requires enclosure'') else Inr ())"

section \<open>Waiting\<close>

record inbox_watch =
  iw_agent_id :: "string option"
  iw_allow_ungated :: bool

datatype wait_result =
    Wait_cancelled
  | Wait_answered gate_record "inbox_entry list"
  | Wait_timed_out gate_record

text \<open>One poll of \<open>gate_response_wait\<close>: nothing yet, or how the wait ends. The world is as found,
  except that an answered gate of a kind no mutation consumes is deleted.\<close>

definition watched_entries :: "host \<Rightarrow> string \<Rightarrow> string option \<Rightarrow> inbox_watch \<Rightarrow> inbox_store \<Rightarrow> inbox_entry list result" where
  "watched_entries h gate_id lifecycle_id watch s =
     (if lifecycle_id \<noteq> None \<or> iw_agent_id watch \<noteq> None
      then rbind (list_pending h s lifecycle_id (iw_agent_id watch) None) (\<lambda>es.
             Inr (filter (\<lambda>e. e_gateId e = Some gate_id \<or> (iw_allow_ungated watch \<and> e_gateId e = None)) es))
      else Inr [])"

definition response_poll ::
  "host \<Rightarrow> string \<Rightarrow> string option \<Rightarrow> inbox_watch \<Rightarrow> 'z world_scheme \<Rightarrow> (wait_result result \<times> 'z world_scheme) option" where
  "response_poll h gate_id lifecycle_id watch w =
     (case gate_current (w_gates w) lifecycle_id of Inl e \<Rightarrow> Some (Inl e, w)
      | Inr gates \<Rightarrow> (case map_of gates gate_id of None \<Rightarrow> Some (Inr Wait_cancelled, w)
        | Some gate \<Rightarrow> (case watched_entries h gate_id lifecycle_id watch (w_inbox w) of Inl e \<Rightarrow> Some (Inl e, w)
          | Inr entries \<Rightarrow>
              if g_state gate \<noteq> GOpen \<or> entries \<noteq> []
              then Some (abind (if g_state gate \<noteq> GOpen \<and> delete_after_wait gate
                                then abind (on_gates (\<lambda>s. gate_delete h s (g_id gate) lifecycle_id)) (\<lambda>_. aread (\<lambda>_. Inr ()))
                                else aread (\<lambda>_. Inr ()))
                          (\<lambda>_. aread (\<lambda>_. Inr (Wait_answered gate entries))) w)
              else None)))"

definition still_open :: "string \<Rightarrow> string option \<Rightarrow> 'z world_scheme \<Rightarrow> gate_record result" where
  "still_open gate_id lifecycle_id w =
     rbind (gate_current (w_gates w) lifecycle_id) (\<lambda>gates.
       case map_of gates gate_id of None \<Rightarrow> Inl (KeyError gate_id) | Some gate \<Rightarrow> Inr gate)"

text \<open>\<open>deadline is not None and monotonic() >= deadline\<close> after the n-th poll; reading 0 set the deadline.\<close>

definition past_deadline :: "micros option \<Rightarrow> (nat \<Rightarrow> micros) \<Rightarrow> nat \<Rightarrow> bool" where
  "past_deadline timeout monotonic n =
     (case timeout of None \<Rightarrow> False | Some t \<Rightarrow> monotonic 0 + t \<le> monotonic (Suc n))"

text \<open>A polling loop: \<^const>\<open>None\<close> when the fuel does not reach its end.\<close>

fun poll_loop ::
  "('w \<Rightarrow> ('r result \<times> 'w) option) \<Rightarrow> ('w \<Rightarrow> 'r result) \<Rightarrow> micros option \<Rightarrow> (nat \<Rightarrow> micros) \<Rightarrow> (nat \<Rightarrow> 'w)
     \<Rightarrow> nat \<Rightarrow> nat \<Rightarrow> ('r result \<times> 'w) option" where
  "poll_loop poll timed_out timeout monotonic seen 0 n = None"
| "poll_loop poll timed_out timeout monotonic seen (Suc fuel) n =
     (case poll (seen n) of Some r \<Rightarrow> Some r
      | None \<Rightarrow> if past_deadline timeout monotonic n then Some (timed_out (seen n), seen n)
                else poll_loop poll timed_out timeout monotonic seen fuel (Suc n))"

definition gate_response_wait_tool ::
  "host \<Rightarrow> string \<Rightarrow> string option \<Rightarrow> inbox_watch \<Rightarrow> micros option \<Rightarrow> (nat \<Rightarrow> micros) \<Rightarrow> (nat \<Rightarrow> 'z world_scheme)
     \<Rightarrow> nat \<Rightarrow> (wait_result result \<times> 'z world_scheme) option" where
  "gate_response_wait_tool h gate_id lifecycle_id watch timeout monotonic seen fuel =
     poll_loop (response_poll h gate_id lifecycle_id watch)
       (\<lambda>w. rbind (still_open gate_id lifecycle_id w) (\<lambda>gate. Inr (Wait_timed_out gate))) timeout monotonic seen fuel 0"

definition gate_poll :: "string \<Rightarrow> string option \<Rightarrow> 'z world_scheme \<Rightarrow> (wait_result result \<times> 'z world_scheme) option" where
  "gate_poll gate_id lifecycle_id w =
     (case still_open gate_id lifecycle_id w of Inl e \<Rightarrow> Some (Inl e, w)
      | Inr gate \<Rightarrow> if g_state gate \<noteq> GOpen then Some (Inr (Wait_answered gate []), w) else None)"

definition gate_wait_tool ::
  "string \<Rightarrow> string option \<Rightarrow> micros option \<Rightarrow> (nat \<Rightarrow> micros) \<Rightarrow> (nat \<Rightarrow> 'z world_scheme)
     \<Rightarrow> nat \<Rightarrow> (wait_result result \<times> 'z world_scheme) option" where
  "gate_wait_tool gate_id lifecycle_id timeout monotonic seen fuel =
     poll_loop (gate_poll gate_id lifecycle_id)
       (\<lambda>w. rbind (still_open gate_id lifecycle_id w) (\<lambda>gate. Inr (Wait_timed_out gate))) timeout monotonic seen fuel 0"

section \<open>The agent-facing tool\<close>

record gate_raise =
  gr_kind :: string
  gr_anchor :: "gate_anchor option"
  gr_request :: "gate_request option"
  gr_ask :: "(string \<times> json) list option"

datatype raise_result =
    Raised gate_record lifecycle_state
  | Waited gate_record lifecycle_state wait_result "(string \<times> json) list option"

text \<open>The part before the wait: every check, the expired siblings, the open gate and, for a blocking
  raise, the blocked lifecycle.\<close>

definition block_ambient ::
  "ambient_env \<Rightarrow> string option \<Rightarrow> string option \<Rightarrow> string list option \<Rightarrow> ('z tool_world_scheme, lifecycle_state) act" where
  "block_ambient env k prompt options w = (case tw_ambient w of
       None \<Rightarrow> (Inl (LifecycleError ''no ambient lifecycle installed in this process''), w)
     | Some s \<Rightarrow> (case block env k prompt options (s\<lparr>se_obs := (se_obs s)\<lparr>ob_gates := w_gates w\<rparr>\<rparr>) of
           Inl e \<Rightarrow> (Inl e, w) | Inr (c, s') \<Rightarrow> (Inr c, w\<lparr>tw_ambient := Some s'\<rparr>)))"

definition raise_gate ::
  "host \<Rightarrow> tool_config \<Rightarrow> gate_call \<Rightarrow> gate_raise \<Rightarrow> bool
     \<Rightarrow> ('z tool_world_scheme, gate_record \<times> lifecycle_state \<times> (string option \<times> string option \<times> string list option)) act" where
  "raise_gate h cfg call raised blocking =
     (let a = (case gr_anchor raised of None \<Rightarrow> no_anchor | Some a \<Rightarrow> a) in
      abind (aread (\<lambda>w. if tw_ambient w = None then Inl (LifecycleError ''no ambient lifecycle installed in this process'')
                         else gating_lifecycle (ambient_current w) (anchor_lifecycle_id a))) (\<lambda>current.
      abind (aread (\<lambda>_. validated_ask (gr_ask raised))) (\<lambda>ask.
      abind (aread (\<lambda>_. coerce_gate_kind (gr_kind raised))) (\<lambda>k.
      abind (aread (\<lambda>_. if blocking then Inr () else require_raise_and_continue_allowed cfg k (anchor_enclosure a))) (\<lambda>_.
      abind (expire_current h (utc_stamp (gc_now call)) (lc_id current)) (\<lambda>_.
      abind (open_gate h cfg call (lc_id current) (Inr k) a (gr_request raised)) (\<lambda>gate.
        aread (\<lambda>_. Inr (gate, current, ask)))))))))"

text \<open>\<open>others\<close> is what the other processes make of the world while the tool waits.\<close>

definition lifecycle_gate_tool ::
  "host \<Rightarrow> tool_config \<Rightarrow> gate_call \<Rightarrow> ambient_env \<Rightarrow> gate_raise \<Rightarrow> bool \<Rightarrow> micros option \<Rightarrow> (nat \<Rightarrow> micros)
     \<Rightarrow> (tool_world \<Rightarrow> nat \<Rightarrow> tool_world) \<Rightarrow> nat \<Rightarrow> tool_world \<Rightarrow> (raise_result result \<times> tool_world) option" where
  "lifecycle_gate_tool h cfg call env raised blocking timeout monotonic others fuel w =
     (case raise_gate h cfg call raised blocking w of
        (Inl e, w1) \<Rightarrow> Some (Inl e, w1)
      | (Inr (gate, current, (k, prompt, options)), w1) \<Rightarrow>
         if \<not> blocking then Some (Inr (Raised gate current), w1)
         else (case block_ambient env k prompt options w1 of
             (Inl e, w2) \<Rightarrow> Some (Inl e, w2)
           | (Inr blocked, w2) \<Rightarrow>
              (case gate_response_wait_tool h (g_id gate) (Some (lc_id blocked)) \<lparr>iw_agent_id = None, iw_allow_ungated = False\<rparr>
                      timeout monotonic (others w2) fuel of
                 None \<Rightarrow> None
               | Some (Inl e, w3) \<Rightarrow> Some (Inl e, w3)
               | Some (Inr res, w3) \<Rightarrow> Some (Inr (Waited gate blocked res (build_ask k prompt options)), w3))))"

section \<open>Deciding and listing\<close>

definition gate_decide_tool ::
  "host \<Rightarrow> tool_config \<Rightarrow> utc \<Rightarrow> string \<Rightarrow> string option \<Rightarrow> gate_verdict \<Rightarrow> (string \<times> json) list list option
     \<Rightarrow> ('z tool_world_scheme, decision_response) act" where
  "gate_decide_tool h cfg now gate_id lifecycle_id verdict evidence =
     abind (aread (resolve_deciding_actor (v_by verdict) (v_via verdict))) (\<lambda>actor.
       record_gate_decision h \<lparr>dc_policy = cf_policy cfg, dc_now = now\<rparr> gate_id lifecycle_id (verdict\<lparr>v_by := Some actor\<rparr>) evidence)"

definition gate_decide_for_lifecycle_tool ::
  "host \<Rightarrow> tool_config \<Rightarrow> utc \<Rightarrow> string \<Rightarrow> gate_verdict \<Rightarrow> string option \<Rightarrow> (string \<times> json) list list option
     \<Rightarrow> ('z tool_world_scheme, decision_response) act" where
  "gate_decide_for_lifecycle_tool h cfg now lifecycle_id verdict expected evidence =
     abind (aread (resolve_deciding_actor (v_by verdict) (v_via verdict))) (\<lambda>actor.
       record_lifecycle_gate_decision h \<lparr>dc_policy = cf_policy cfg, dc_now = now\<rparr> lifecycle_id expected
         (verdict\<lparr>v_by := Some actor\<rparr>) evidence)"

definition gate_list_tool :: "string option \<Rightarrow> 'z tool_world_scheme \<Rightarrow> gate_record list result" where
  "gate_list_tool lifecycle_id w =
     rbind (gate_current (w_gates w) (option_or lifecycle_id (map_option lc_id (ambient_current w))))
       (\<lambda>gates. Inr (dict_values gates))"


text \<open>The transport requests: flat fields composed into the tools' arguments.\<close>

record lifecycle_gate_request =
  lq_kind :: string
  lq_lifecycle_id :: "string option"
  lq_enclosure :: "string option"
  lq_repo_id :: "string option"
  lq_packet :: "(string \<times> json) list option"
  lq_required_decision :: "string list option"
  lq_evidence_refs :: "(string \<times> json) list list option"
  lq_ask :: "(string \<times> json) list option"
  lq_wait :: bool

definition raise_lifecycle_gate ::
  "host \<Rightarrow> tool_config \<Rightarrow> gate_call \<Rightarrow> ambient_env \<Rightarrow> lifecycle_gate_request \<Rightarrow> (nat \<Rightarrow> micros)
     \<Rightarrow> (tool_world \<Rightarrow> nat \<Rightarrow> tool_world) \<Rightarrow> nat \<Rightarrow> tool_world \<Rightarrow> (raise_result result \<times> tool_world) option" where
  "raise_lifecycle_gate h cfg call env rq monotonic others fuel =
     lifecycle_gate_tool h cfg call env
       \<lparr>gr_kind = lq_kind rq,
        gr_anchor = Some \<lparr>anchor_lifecycle_id = lq_lifecycle_id rq, anchor_enclosure = lq_enclosure rq,
                          anchor_repo_id = lq_repo_id rq\<rparr>,
        gr_request = Some \<lparr>req_packet = lq_packet rq, req_required_decision = lq_required_decision rq,
                           req_evidence_refs = map_option (map EvDict) (lq_evidence_refs rq)\<rparr>,
        gr_ask = lq_ask rq\<rparr>
       (lq_wait rq) None monotonic others fuel"

record gate_decision_request =
  dq_decision :: string
  dq_gate_id :: "string option"
  dq_lifecycle_id :: "string option"
  dq_decided_by :: "string option"
  dq_decided_via :: decided_via
  dq_note :: "string option"
  dq_deciding_role :: "string option"
  dq_evidence_refs :: "(string \<times> json) list list option"

definition requested_verdict :: "gate_decision_request \<Rightarrow> gate_verdict" where
  "requested_verdict rq = \<lparr>v_decision = dq_decision rq, v_via = dq_decided_via rq, v_by = dq_decided_by rq,
     v_note = dq_note rq, v_deciding_role = dq_deciding_role rq\<rparr>"

definition requested_gate_decision ::
  "host \<Rightarrow> tool_config \<Rightarrow> utc \<Rightarrow> gate_decision_request \<Rightarrow> ('z tool_world_scheme, decision_response) act" where
  "requested_gate_decision h cfg now rq = (case dq_gate_id rq of
       None \<Rightarrow> aread (\<lambda>_. Inl (ValueError ''an addressed gate decision requires gate_id''))
     | Some gate_id \<Rightarrow>
         gate_decide_tool h cfg now gate_id (dq_lifecycle_id rq) (requested_verdict rq) (dq_evidence_refs rq))"

definition requested_lifecycle_gate_decision ::
  "host \<Rightarrow> tool_config \<Rightarrow> utc \<Rightarrow> gate_decision_request \<Rightarrow> ('z tool_world_scheme, decision_response) act" where
  "requested_lifecycle_gate_decision h cfg now rq = (case dq_lifecycle_id rq of
       None \<Rightarrow> aread (\<lambda>_. Inl (ValueError ''a lifecycle gate decision requires lifecycle_id''))
     | Some lifecycle_id \<Rightarrow>
         gate_decide_for_lifecycle_tool h cfg now lifecycle_id (requested_verdict rq) (dq_gate_id rq)
           (dq_evidence_refs rq))"

section \<open>Waiting ends\<close>

text \<open>The deadline is a bound on the number of polls as soon as every sleep takes its time.\<close>

lemma poll_loop_first:
  assumes "poll (seen k) \<noteq> None \<or> past_deadline timeout clock k" "n \<le> k" "k - n < fuel"
    and "\<And>j. n \<le> j \<Longrightarrow> j < k \<Longrightarrow> poll (seen j) = None \<and> \<not> past_deadline timeout clock j"
  shows "poll_loop poll late timeout clock seen fuel n
    = (case poll (seen k) of Some r \<Rightarrow> Some r | None \<Rightarrow> Some (late (seen k), seen k))"
  using assms(2-4)
proof (induction fuel arbitrary: n)
  case (Suc fuel)
  show ?case
  proof (cases "n = k")
    case True
    then show ?thesis using assms(1) by (auto split: option.splits)
  next
    case False
    then have "poll (seen n) = None" "\<not> past_deadline timeout clock n" using Suc.prems by auto
    then show ?thesis using Suc False by (simp add: Suc_diff_Suc)
  qed
qed simp

lemma deadline_reached:
  assumes "0 < period" "0 \<le> t" "\<And>n. clock 0 + int n * period \<le> clock (Suc n)"
  shows "past_deadline (Some t) clock (nat (t div period + 1))"
proof -
  have "t < (t div period + 1) * period"
    using div_mult_mod_eq [of t period] pos_mod_bound [OF assms(1), of t] unfolding distrib_right mult_1_left by linarith
  moreover have "0 \<le> t div period + 1" using assms(1,2) by (simp add: pos_imp_zdiv_nonneg_iff)
  ultimately show ?thesis
    using assms(3) [of "nat (t div period + 1)"] by (simp add: past_deadline_def)
qed

lemma bounded_poll_returns:
  assumes "0 < period" "0 \<le> t" "\<And>n. clock 0 + int n * period \<le> clock (Suc n)" "nat (t div period + 1) < fuel"
  shows "\<exists>k. k \<le> nat (t div period + 1) \<and> (\<forall>j<k. poll (seen j) = None)
    \<and> (poll (seen k) = None \<longrightarrow> past_deadline (Some t) clock k)
    \<and> poll_loop poll late (Some t) clock seen fuel 0
        = (case poll (seen k) of Some r \<Rightarrow> Some r | None \<Rightarrow> Some (late (seen k), seen k))"
proof -
  let ?stops = "\<lambda>k. poll (seen k) \<noteq> None \<or> past_deadline (Some t) clock k"
  define k where "k = (LEAST k. ?stops k)"
  have stop: "?stops (nat (t div period + 1))" using deadline_reached [OF assms(1-3)] by blast
  have k: "?stops k" "k \<le> nat (t div period + 1)"
    unfolding k_def by (rule LeastI [of ?stops, OF stop], rule Least_le [of ?stops, OF stop])
  have before: "poll (seen j) = None \<and> \<not> past_deadline (Some t) clock j" if "j < k" for j
    using not_less_Least [OF that [unfolded k_def]] by blast
  have "poll_loop poll late (Some t) clock seen fuel 0
      = (case poll (seen k) of Some r \<Rightarrow> Some r | None \<Rightarrow> Some (late (seen k), seen k))"
    by (rule poll_loop_first [of poll seen k, OF k(1)]) (use k(2) before assms(4) in simp_all)
  moreover have "\<forall>j<k. poll (seen j) = None" using before by simp
  moreover have "poll (seen k) = None \<longrightarrow> past_deadline (Some t) clock k" using k(1) by auto
  ultimately show ?thesis using k(2) by (intro exI [of _ k] conjI)
qed

lemma response_poll_open:
  "response_poll h i l watch w = None \<Longrightarrow> \<exists>g. still_open i l w = Inr g \<and> g_state g = GOpen"
  by (auto simp: response_poll_def still_open_def split: sum.splits option.splits if_splits)

section \<open>Raising leaves one open gate\<close>

lemma write_verdict_by_row_gates:
  "write_verdict_by_row h cfg call g w = (r, w') \<Longrightarrow> w_gates w' = w_gates w"
  by (auto simp: write_verdict_by_row_def abind_def on_rows_def aread_def split: sum.splits option.splits prod.splits)

definition superseded :: "string \<Rightarrow> gate_record \<Rightarrow> gate_record" where
  "superseded now g = (if g_state g = GOpen then expire_gate g now else g)"

lemma superseded_closed [simp]: "g_state (superseded now g) \<noteq> GOpen" "g_id (superseded now g) = g_id g"
  by (simp_all add: superseded_def expire_gate_def)

lemma superseded_expired [simp]: "superseded now (expire_gate g now') = expire_gate g now'"
  by (simp add: superseded_def expire_gate_def)

lemma expire_open_effect:
  assumes "expire_open h now gs w = (Inr x, w')" "routed (w_gates w)" "gate_current (w_gates w) l = Inr d"
    and "distinct (map g_id gs)" "\<And>g. g \<in> set gs \<Longrightarrow> map_of d (g_id g) = Some g"
  shows "\<exists>d'. gate_current (w_gates w') l = Inr d' \<and>
    map_of d' = (\<lambda>i. map_option (\<lambda>g. if i \<in> g_id ` set gs then superseded now g else g) (map_of d i))"
  using assms
proof (induction gs arbitrary: w d)
  case Nil
  then show ?case by (auto simp: option.map_ident)
next
  case (Cons g gs)
  have look: "map_of d (g_id g) = Some g" using Cons.prems(5) by simp
  show ?case
  proof (cases "g_state g = GOpen")
    case False
    then obtain d' where d': "gate_current (w_gates w') l = Inr d'"
      "map_of d' = (\<lambda>i. map_option (\<lambda>g. if i \<in> g_id ` set gs then superseded now g else g) (map_of d i))"
      using Cons.IH [of w d] Cons.prems by auto
    then show ?thesis using False look by (intro exI [of _ d']) (auto simp: fun_eq_iff superseded_def intro!: option.map_cong)
  next
    case True
    let ?g = "expire_gate g now"
    obtain s1 where s1: "gate_append h (w_gates w) ?g = Inr s1"
      and rest: "expire_open h now gs (w\<lparr>w_gates := s1\<rparr>) = (Inr x, w')"
      using Cons.prems(1) True by (auto simp: abind_eq_Inr append_gate_Inr)
    have "version_ok ?g" "log_key l = log_key (g_lifecycleId ?g)"
      using gate_current_version [OF Cons.prems(3) look] routed_current [OF Cons.prems(2,3) look]
      by (simp_all add: expire_gate_def version_ok_def)
    then obtain d1 where d1: "gate_current s1 l = Inr d1" "map_of d1 = (map_of d)(g_id g \<mapsto> ?g)"
      using gate_current_append [OF s1 _ Cons.prems(3)] by (auto simp: expire_gate_def)
    have "\<exists>d'. gate_current (w_gates w') l = Inr d' \<and>
        map_of d' = (\<lambda>i. map_option (\<lambda>g. if i \<in> g_id ` set gs then superseded now g else g) (map_of d1 i))"
      by (rule Cons.IH [OF rest])
        (use Cons.prems d1 routed_append [OF s1] in \<open>auto simp: image_iff\<close>)
    then show ?thesis using d1(2) True look by (auto simp: fun_eq_iff superseded_def [of _ g])
  qed
qed

lemma expire_current_effect:
  assumes "expire_current h now l w = (Inr x, w')" "routed (w_gates w)" "gate_current (w_gates w) (Some l) = Inr d"
  shows "\<exists>d'. gate_current (w_gates w') (Some l) = Inr d' \<and>
    map_of d' = (\<lambda>i. map_option (superseded now) (map_of d i))"
proof -
  have wf: "dict_wf d" and key: "\<And>i g. map_of d i = Some g \<Longrightarrow> g_id g = i"
    using assms(3) gate_current_keyed [OF assms(3)] by (auto simp: gate_current_Inr)
  have run: "expire_open h now (dict_values d) w = (Inr x, w')"
    using assms(1,3) by (auto simp: expire_current_def abind_eq_Inr)
  have keys: "map g_id (dict_values d) = map fst d"
    using wf key by auto
  have "\<exists>d'. gate_current (w_gates w') (Some l) = Inr d' \<and>
    map_of d' = (\<lambda>i. map_option (\<lambda>g. if i \<in> g_id ` set (dict_values d) then superseded now g else g) (map_of d i))"
  proof (rule expire_open_effect [OF run assms(2,3)])
    show "distinct (map g_id (dict_values d))" using wf by (simp only: keys)
  qed (use wf key in auto)
  moreover have "i \<in> g_id ` set (dict_values d)" if "map_of d i = Some g" for i g
    using that key [OF that] map_of_SomeD [OF that] by force
  ultimately show ?thesis by (auto simp: fun_eq_iff split: option.splits intro!: option.map_cong)
qed

lemma schema_version_current [simp]: "schema_version_supported SCHEMA_VERSION"
  by code_simp

lemma open_gate_effect:
  assumes "open_gate h cfg call l k a rq w = (Inr gate, w')" "gate_current (w_gates w) (Some l) = Inr d"
  shows "g_lifecycleId gate = Some l \<and> g_id gate = gc_gate_id call \<and> g_state gate = GOpen \<and> k = Inr (g_kind gate)
    \<and> (\<exists>d'. gate_current (w_gates w') (Some l) = Inr d' \<and> map_of d' = (map_of d)(gc_gate_id call \<mapsto> gate))"
proof -
  obtain kind s1 w2 where k: "k = Inr kind" and g: "create_gate kind (gc_gate_id call) (utc_stamp (gc_now call))
      (Some (a\<lparr>anchor_lifecycle_id := Some l\<rparr>)) rq = Inr gate"
    and s1: "gate_append h (w_gates w) gate = Inr s1"
    and row: "write_verdict_by_row h cfg call gate (w\<lparr>w_gates := s1\<rparr>) = (Inr w2, w')"
    using assms(1) by (auto simp: open_gate_def abind_eq_Inr append_gate_Inr rbind_eq_Inr_iff)
  have gate: "g_lifecycleId gate = Some l" "g_id gate = gc_gate_id call" "g_state gate = GOpen" "g_kind gate = kind"
      "version_ok gate"
    using g by (auto simp: create_gate_def Let_def rbind_eq_Inr_iff version_ok_def)
  have "w_gates w' = s1" using write_verdict_by_row_gates [OF row] by simp
  then show ?thesis using gate_current_append [OF s1 gate(5) assms(2)] gate k by auto
qed

lemma supersede_then_open:
  assumes "expire_current h (utc_stamp (gc_now call)) l w = (Inr x, w1)" "open_gate h cfg call l k a rq w1 = (Inr gate, w')"
    and "routed (w_gates w)"
  shows "g_lifecycleId gate = Some l \<and> g_id gate = gc_gate_id call \<and> g_state gate = GOpen \<and> k = Inr (g_kind gate)
    \<and> (\<exists>d d'. gate_current (w_gates w) (Some l) = Inr d \<and> gate_current (w_gates w') (Some l) = Inr d' \<and>
        map_of d' = (\<lambda>i. map_option (superseded (utc_stamp (gc_now call))) (map_of d i))(gc_gate_id call \<mapsto> gate))"
proof -
  obtain d where d: "gate_current (w_gates w) (Some l) = Inr d"
    using assms(1) by (auto simp: expire_current_def abind_eq_Inr)
  obtain d1 where d1: "gate_current (w_gates w1) (Some l) = Inr d1"
    "map_of d1 = (\<lambda>i. map_option (superseded (utc_stamp (gc_now call))) (map_of d i))"
    using expire_current_effect [OF assms(1,3) d] by blast
  show ?thesis using open_gate_effect [OF assms(2) d1(1)] d d1(2) by auto
qed

lemma gate_create_tool_parts:
  "gate_create_tool h cfg call k anchor rq w = (Inr gate, w') \<Longrightarrow>
   \<exists>l w1 x a. expire_current h (utc_stamp (gc_now call)) l w = (Inr x, w1)
     \<and> open_gate h cfg call l (coerce_gate_kind k) a rq w1 = (Inr gate, w')"
  by (auto simp: gate_create_tool_def Let_def abind_eq_Inr)

lemma raise_gate_parts:
  "raise_gate h cfg call raised b w = (Inr (gate, c, ask), w') \<Longrightarrow>
   \<exists>w1 x a kind. coerce_gate_kind (gr_kind raised) = Inr kind \<and> ambient_current w = Some c \<and> lc_state c = Running
     \<and> expire_current h (utc_stamp (gc_now call)) (lc_id c) w = (Inr x, w1)
     \<and> open_gate h cfg call (lc_id c) (Inr kind) a (gr_request raised) w1 = (Inr gate, w')"
  by (auto simp: raise_gate_def Let_def abind_eq_Inr gating_lifecycle_def split: option.splits if_splits)

section \<open>Properties\<close>

lemma unblocked_tool_raises:
  "lifecycle_gate_tool h cfg call env raised False timeout monotonic others fuel w = Some (Inr (Raised gate c), w') \<Longrightarrow>
   \<exists>ask. raise_gate h cfg call raised False w = (Inr (gate, c, ask), w')"
  by (auto simp: lifecycle_gate_tool_def split: prod.splits sum.splits)

text \<open>C22. A raised gate supersedes. When \<open>gate_create_tool\<close> returns, when \<open>lifecycle_gate_tool\<close>
  returns without blocking, and when it has raised its gate and is about to block, the lifecycle has
  exactly one open gate, the new one, under its minted id and of the requested kind; every gate
  that was open is now expired, of whatever kind, and every other gate is as it was. (What the
  blocking tool finds when its wait ends is up to whoever decides the gate meanwhile.)\<close>

theorem raise_leaves_one_open_gate:
  assumes "gate_create_tool h cfg call k anchor rq w = (Inr gate, w')
      \<or> (\<exists>env raised timeout monotonic others fuel c.
          lifecycle_gate_tool h cfg call env raised False timeout monotonic others fuel w = Some (Inr (Raised gate c), w')
          \<and> gr_kind raised = k)
      \<or> (\<exists>raised b c ask. raise_gate h cfg call raised b w = (Inr (gate, c, ask), w') \<and> gr_kind raised = k)"
    and "routed (w_gates w)"
  shows "\<exists>d d'. gate_current (w_gates w) (g_lifecycleId gate) = Inr d \<and> gate_current (w_gates w') (g_lifecycleId gate) = Inr d'
    \<and> coerce_gate_kind k = Inr (g_kind gate)
    \<and> map_of d' = (\<lambda>i. map_option (superseded (utc_stamp (gc_now call))) (map_of d i))(gc_gate_id call \<mapsto> gate)
    \<and> {g. \<exists>i. map_of d' i = Some g \<and> g_state g = GOpen} = {gate}"
proof -
  obtain l x w1 a kd q where "expire_current h (utc_stamp (gc_now call)) l w = (Inr x, w1)"
    "open_gate h cfg call l kd a q w1 = (Inr gate, w')" "kd = coerce_gate_kind k"
    using assms(1) gate_create_tool_parts raise_gate_parts unblocked_tool_raises by metis
  then have "g_lifecycleId gate = Some l" "g_state gate = GOpen" "coerce_gate_kind k = Inr (g_kind gate)"
    "\<exists>d d'. gate_current (w_gates w) (Some l) = Inr d \<and> gate_current (w_gates w') (Some l) = Inr d' \<and>
        map_of d' = (\<lambda>i. map_option (superseded (utc_stamp (gc_now call))) (map_of d i))(gc_gate_id call \<mapsto> gate)"
    using supersede_then_open assms(2) by metis+
  then show ?thesis by (auto simp: map_option_eq_Some split: if_splits)
qed

definition tool_sample_world :: "gate_record list \<Rightarrow> tool_world" where
  "tool_sample_world gs = world.extend (decision_world gs) \<lparr>tw_ambient = None\<rparr>"

definition sample_call :: gate_call where
  "sample_call = \<lparr>gc_now = 0, gc_gate_id = ''G2'', gc_row_id = ''X1'', gc_row_now = 0\<rparr>"

definition sample_config :: tool_config where
  "sample_config = \<lparr>cf_policy = [], cf_sla = 3600000000\<rparr>"

theorem raise_leaves_one_open_gate_witness:
  "\<exists>gate w' d'. gate_create_tool sample_host sample_config sample_call ''agent-question''
       (Some (no_anchor\<lparr>anchor_lifecycle_id := Some ''L1''\<rparr>)) None (tool_sample_world [sample_open]) = (Inr gate, w')
     \<and> gate_current (w_gates w') (g_lifecycleId gate) = Inr d' \<and> {g. \<exists>i. map_of d' i = Some g \<and> g_state g = GOpen} = {gate}"
proof -
  have "case gate_create_tool sample_host sample_config sample_call ''agent-question''
       (Some (no_anchor\<lparr>anchor_lifecycle_id := Some ''L1''\<rparr>)) None (tool_sample_world [sample_open]) of
       (Inr _, _) \<Rightarrow> True | _ \<Rightarrow> False" by code_simp
  then obtain gate w' where r: "gate_create_tool sample_host sample_config sample_call ''agent-question''
       (Some (no_anchor\<lparr>anchor_lifecycle_id := Some ''L1''\<rparr>)) None (tool_sample_world [sample_open]) = (Inr gate, w')"
    by (auto split: prod.splits sum.splits)
  have "routed (w_gates (tool_sample_world [sample_open]))"
    using decision_world_routed by (simp add: tool_sample_world_def world.defs decision_world_def)
  then show ?thesis using raise_leaves_one_open_gate [OF disjI1 [OF r]] r by blast
qed

text \<open>C23. A wait with a timeout returns. When every sleep lasts at least the poll period, the loop
  polls at most one time more than the timeout holds periods, plus the first; it stops at the first
  poll that finds an answer and returns that answer, or at the deadline with the gate still open.\<close>

theorem bounded_wait_returns:
  assumes "0 < period" "0 \<le> t" "\<And>n. clock 0 + int n * period \<le> clock (Suc n)" "nat (t div period + 1) < fuel"
  shows "\<exists>k. k \<le> nat (t div period + 1) \<and> (\<forall>j<k. response_poll h i l watch (seen j) = None)
    \<and> (case response_poll h i l watch (seen k) of
         Some r \<Rightarrow> gate_response_wait_tool h i l watch (Some t) clock seen fuel = Some r
       | None \<Rightarrow> clock 0 + t \<le> clock (Suc k) \<and>
           (\<exists>g. still_open i l (seen k) = Inr g \<and> g_state g = GOpen \<and>
             gate_response_wait_tool h i l watch (Some t) clock seen fuel = Some (Inr (Wait_timed_out g), seen k)))"
proof -
  let ?late = "\<lambda>w. rbind (still_open i l w) (\<lambda>gate. Inr (Wait_timed_out gate))"
  obtain k where k: "k \<le> nat (t div period + 1)" "\<forall>j<k. response_poll h i l watch (seen j) = None"
    and dl: "response_poll h i l watch (seen k) = None \<longrightarrow> past_deadline (Some t) clock k"
    and run: "gate_response_wait_tool h i l watch (Some t) clock seen fuel
        = (case response_poll h i l watch (seen k) of Some r \<Rightarrow> Some r | None \<Rightarrow> Some (?late (seen k), seen k))"
    using bounded_poll_returns [OF assms, of "response_poll h i l watch" seen ?late, folded gate_response_wait_tool_def]
    by (elim exE conjE) (rule that)
  show ?thesis
  proof (cases "response_poll h i l watch (seen k)")
    case None
    then obtain g where "still_open i l (seen k) = Inr g" "g_state g = GOpen" using response_poll_open by blast
    then show ?thesis using None k dl run by (intro exI [of _ k]) (simp add: past_deadline_def)
  next
    case (Some r)
    then show ?thesis using k run by (intro exI [of _ k]) simp
  qed
qed

theorem bounded_wait_returns_witness:
  "\<exists>r. gate_response_wait_tool sample_host ''G1'' (Some ''L1'') \<lparr>iw_agent_id = None, iw_allow_ungated = True\<rparr>
     (Some 30000000) (\<lambda>n. int n * 1000000) (\<lambda>n. decision_world [if n < 3 then sample_open else sample_gate]) 32 = Some r"
proof -
  have "\<exists>k. k \<le> nat (30000000 div 1000000 + 1) \<and> (\<forall>j<k. response_poll sample_host ''G1'' (Some ''L1'')
        \<lparr>iw_agent_id = None, iw_allow_ungated = True\<rparr> (decision_world [if j < 3 then sample_open else sample_gate]) = None)
    \<and> (case response_poll sample_host ''G1'' (Some ''L1'') \<lparr>iw_agent_id = None, iw_allow_ungated = True\<rparr>
          (decision_world [if k < 3 then sample_open else sample_gate]) of
         Some r \<Rightarrow> gate_response_wait_tool sample_host ''G1'' (Some ''L1'') \<lparr>iw_agent_id = None, iw_allow_ungated = True\<rparr>
           (Some 30000000) (\<lambda>n. int n * 1000000) (\<lambda>n. decision_world [if n < 3 then sample_open else sample_gate]) 32 = Some r
       | None \<Rightarrow> int 0 * 1000000 + 30000000 \<le> int (Suc k) * 1000000 \<and>
           (\<exists>g. still_open ''G1'' (Some ''L1'') (decision_world [if k < 3 then sample_open else sample_gate]) = Inr g
             \<and> g_state g = GOpen \<and>
             gate_response_wait_tool sample_host ''G1'' (Some ''L1'') \<lparr>iw_agent_id = None, iw_allow_ungated = True\<rparr>
               (Some 30000000) (\<lambda>n. int n * 1000000) (\<lambda>n. decision_world [if n < 3 then sample_open else sample_gate]) 32
             = Some (Inr (Wait_timed_out g), decision_world [if k < 3 then sample_open else sample_gate])))"
    by (rule bounded_wait_returns) simp_all
  then show ?thesis by (auto split: option.splits)
qed

text \<open>A raise that fails still withdraws the open gates: \<open>gate_create\<close> with an unknown kind
  raises after it has expired the open closeout gate, the next compaction drops the expired record,
  and the closeout that was waiting for the developer is then permitted as if no gate had ever been
  raised.\<close>

lemma failed_raise_withdraws_gate:
  "\<exists>e w' n s. \<not> permitted (evaluate_gate [(''G1'', sample_open)] closeout_approval [] (Some ''op-1''))
   \<and> gate_create_tool sample_host sample_config sample_call ''no-such-kind''
        (Some (no_anchor\<lparr>anchor_lifecycle_id := Some ''L1''\<rparr>)) None (tool_sample_world [sample_open]) = (Inl e, w')
   \<and> gate_compact sample_host (w_gates w') (Some ''L1'') 0 = Inr (n, s)
   \<and> claim_approval sample_host s (Some ''L1'') closeout_approval ''2026-01-03T00:00:00+00:00'' [] (Some ''op-1'')
        = Inr (guard closeout_approval True NoGate None, s)"
proof -
  have 1: "\<not> permitted (evaluate_gate [(''G1'', sample_open)] closeout_approval [] (Some ''op-1''))" by code_simp
  have "case gate_create_tool sample_host sample_config sample_call ''no-such-kind''
        (Some (no_anchor\<lparr>anchor_lifecycle_id := Some ''L1''\<rparr>)) None (tool_sample_world [sample_open]) of
      (Inl _, w') \<Rightarrow> (case gate_compact sample_host (w_gates w') (Some ''L1'') 0 of
         Inr (_, s) \<Rightarrow> claim_approval sample_host s (Some ''L1'') closeout_approval ''2026-01-03T00:00:00+00:00'' []
           (Some ''op-1'') = Inr (guard closeout_approval True NoGate None, s)
       | Inl _ \<Rightarrow> False)
    | _ \<Rightarrow> False" by code_simp
  then show ?thesis using 1 by (auto split: prod.splits sum.splits)
qed

end
