(* ===== verification/Reducer.thy ===== *)
theory Reducer
  imports Ambient
begin

text \<open>
  \<open>observer/reducer.py\<close>: the fold of one lifecycle's event log into its projection, the states it
  infers from silence, the lifecycles it derives from worktree enclosures, and the actions it
  offers. The token series of the dashboard is left out: it is thinned with floating point.
\<close>

section \<open>Projections\<close>

record action_availability =
  aa_action :: string
  aa_enabled :: bool
  aa_disabledReason :: "string option"
  aa_nextSafeAction :: "string option"

record lifecycle_projection =
  pj_id :: string
  pj_state :: lc_state
  pj_phase :: phase
  pj_fleeting :: bool
  pj_enclosure :: "string option"
  pj_repoId :: "string option"
  pj_scope :: "json option"
  pj_tokens :: int
  pj_startedAt :: string
  pj_lastEventTs :: string
  pj_stateEnteredAt :: string
  pj_staleSeconds :: "micros option"
  pj_inferred :: bool
  pj_ask :: "json option"
  pj_actions :: "action_availability list"

text \<open>\<open>data.get(key)\<close>: a missing key and a null are both \<^const>\<open>None\<close>.\<close>

definition data_get :: "(string \<times> json) list \<Rightarrow> string \<Rightarrow> json option" where
  "data_get data k = (case map_of data k of Some JNull \<Rightarrow> None | v \<Rightarrow> v)"

text \<open>\<open>coerce_phase(str(data.get("phase", default)))\<close>: the text of a value that is no string is never
  the name of a phase.\<close>

definition phase_from :: "(string \<times> json) list \<Rightarrow> phase \<Rightarrow> phase result" where
  "phase_from data dflt = (case map_of data ''phase'' of None \<Rightarrow> Inr dflt
     | Some (JStr p) \<Rightarrow> coerce_phase p
     | Some _ \<Rightarrow> Inl (LifecycleError ''phase''))"

definition seed_from_started :: "event \<Rightarrow> lifecycle_projection result" where
  "seed_from_started e =
     rbind (phase_from (ov_data e) Request) (\<lambda>ph.
       Inr \<lparr>pj_id = (case ov_lifecycleId e of None \<Rightarrow> [] | Some l \<Rightarrow> l), pj_state = Running, pj_phase = ph,
            pj_fleeting = data_truthy True (ov_data e) ''fleeting'', pj_enclosure = ov_enclosure e,
            pj_repoId = ov_repoId e, pj_scope = None, pj_tokens = 0, pj_startedAt = ov_ts e,
            pj_lastEventTs = ov_ts e, pj_stateEnteredAt = ov_ts e, pj_staleSeconds = None, pj_inferred = False,
            pj_ask = None, pj_actions = []\<rparr>)"

section \<open>The fold\<close>

definition phase_changed_updates :: "lifecycle_projection \<Rightarrow> event \<Rightarrow> lifecycle_projection result" where
  "phase_changed_updates p e = rbind (phase_from (ov_data e) (pj_phase p)) (\<lambda>ph. Inr (p\<lparr>pj_phase := ph\<rparr>))"

definition blocked_updates :: "lifecycle_projection \<Rightarrow> event \<Rightarrow> lifecycle_projection" where
  "blocked_updates p e = p\<lparr>pj_state := Blocked, pj_ask := data_get (ov_data e) ''ask''\<rparr>"

definition awaiting_developer_updates :: "lifecycle_projection \<Rightarrow> event \<Rightarrow> lifecycle_projection" where
  "awaiting_developer_updates p e =
     p\<lparr>pj_state := Awaiting_developer,
       pj_ask := map_option (\<lambda>v. JObj [(''summary'', v)]) (data_get (ov_data e) ''summary'')\<rparr>"

definition resumed_updates :: "lifecycle_projection \<Rightarrow> lifecycle_projection" where
  "resumed_updates p = p\<lparr>pj_state := Running, pj_ask := None\<rparr>"

definition paused_updates :: "lifecycle_projection \<Rightarrow> lifecycle_projection" where
  "paused_updates p = p\<lparr>pj_state := Paused\<rparr>"

definition promoted_updates :: "lifecycle_projection \<Rightarrow> event \<Rightarrow> lifecycle_projection" where
  "promoted_updates p e =
     p\<lparr>pj_fleeting := False, pj_scope := data_get (ov_data e) ''scope'',
       pj_enclosure := option_or (ov_enclosure e) (pj_enclosure p), pj_repoId := option_or (ov_repoId e) (pj_repoId p)\<rparr>"

definition ended_updates :: "lifecycle_projection \<Rightarrow> event \<Rightarrow> lifecycle_projection" where
  "ended_updates p e = p\<lparr>pj_state := coerce_end_outcome (data_get (ov_data e) ''outcome'')\<rparr>"

text \<open>\<open>isinstance(tokens, int)\<close> holds of booleans too.\<close>

definition tool_completed_updates :: "lifecycle_projection \<Rightarrow> event \<Rightarrow> lifecycle_projection" where
  "tool_completed_updates p e = (case map_of (ov_data e) ''tokens'' of
       Some (JInt n) \<Rightarrow> p\<lparr>pj_tokens := pj_tokens p + n\<rparr>
     | Some (JBool b) \<Rightarrow> p\<lparr>pj_tokens := pj_tokens p + of_bool b\<rparr>
     | _ \<Rightarrow> p)"

definition apply_kind :: "lifecycle_projection \<Rightarrow> event \<Rightarrow> lifecycle_projection result" where
  "apply_kind p e =
     (let k = ov_kind e in
      if k = ''lifecycle.phase-changed'' then phase_changed_updates p e
      else if k = ''lifecycle.blocked'' then Inr (blocked_updates p e)
      else if k = ''lifecycle.awaiting-developer'' then Inr (awaiting_developer_updates p e)
      else if k = ''lifecycle.resumed'' then Inr (resumed_updates p)
      else if k = ''lifecycle.paused'' then Inr (paused_updates p)
      else if k = ''lifecycle.promoted'' then Inr (promoted_updates p e)
      else if k = ''lifecycle.ended'' then Inr (ended_updates p e)
      else if k = ''tool.completed'' then Inr (tool_completed_updates p e)
      else Inr p)"

definition correction_of :: "event \<Rightarrow> (string \<times> lc_state) option" where
  "correction_of e =
     (if ov_kind e \<noteq> ''correction.recorded'' then None
      else (case (map_of (ov_data e) ''corrects'', map_of (ov_data e) ''state'') of
          (Some (JStr i), Some (JStr n)) \<Rightarrow> map_option (Pair i) (state_of_name n)
        | _ \<Rightarrow> None))"

definition index_corrections :: "event list \<Rightarrow> (string, lc_state) dict" where
  "index_corrections events = fold (\<lambda>(i, st) d. AList.update i st d) (List.map_filter correction_of events) []"

definition fold_event :: "(string, lc_state) dict \<Rightarrow> lifecycle_projection \<Rightarrow> event \<Rightarrow> lifecycle_projection result" where
  "fold_event corrections p e =
     (if ov_kind e = ''correction.recorded'' then Inr p
      else rbind (apply_kind p e) (\<lambda>p1.
        (let p2 = (case map_of corrections (ov_id e) of None \<Rightarrow> p1 | Some st \<Rightarrow> p1\<lparr>pj_state := st\<rparr>) in
         Inr (if pj_state p2 \<noteq> pj_state p then p2\<lparr>pj_stateEnteredAt := ov_ts e\<rparr> else p2))))"

fun fold_events ::
  "(string, lc_state) dict \<Rightarrow> lifecycle_projection \<Rightarrow> event list \<Rightarrow> lifecycle_projection result" where
  "fold_events corrections p [] = Inr p"
| "fold_events corrections p (e # es) = rbind (fold_event corrections p e) (\<lambda>p'. fold_events corrections p' es)"

definition project_inferred :: "lifecycle_projection \<Rightarrow> string \<Rightarrow> utc \<Rightarrow> lifecycle_projection" where
  "project_inferred p last_ts now =
     (let age = age_seconds last_ts now; p1 = p\<lparr>pj_staleSeconds := age\<rparr> in
      case age of None \<Rightarrow> p1
      | Some a \<Rightarrow>
         if pj_state p1 \<in> TERMINAL_STATES then p1
         else if pj_fleeting p1 \<and> TTL < a then p1\<lparr>pj_state := Abandoned, pj_inferred := True\<rparr>
         else if pj_state p1 = Running \<and> STALE_AFTER < a then p1\<lparr>pj_state := Paused, pj_inferred := True\<rparr>
         else p1)"

definition lifecycle_actions :: "lifecycle_projection \<Rightarrow> action_availability list" where
  "lifecycle_actions p =
     (let blocked = (pj_state p = Blocked) in
      [\<lparr>aa_action = ''resume'', aa_enabled = blocked,
        aa_disabledReason = (if blocked then None else Some ''lifecycle is not blocked''),
        aa_nextSafeAction = (if blocked then None else Some ''resume becomes safe once the gate is resolved'')\<rparr>])"

definition project_lifecycle :: "event list \<Rightarrow> utc \<Rightarrow> lifecycle_projection result" where
  "project_lifecycle events now =
     (if events = [] then Inl (ValueError ''empty event log'')
      else rbind (seed_from_started (hd events)) (\<lambda>seed.
           rbind (fold_events (index_corrections events) seed (List.tl events)) (\<lambda>p.
             (let p1 = project_inferred (p\<lparr>pj_lastEventTs := ov_ts (last events)\<rparr>) (ov_ts (last events)) now in
              Inr (p1\<lparr>pj_actions := lifecycle_actions p1\<rparr>)))))"

section \<open>Lifecycles and enclosures\<close>

record enclosure_node =
  en_enclosure :: string
  en_taskName :: string
  en_repoName :: string
  en_lifecycleId :: string
  en_closeoutStatus :: string
  en_integrationStatus :: string
  en_cleanup :: string

definition missing_enclosure_is_still_materializing :: "lifecycle_projection \<Rightarrow> bool" where
  "missing_enclosure_is_still_materializing p \<longleftrightarrow> pj_state p \<notin> TERMINAL_STATES \<and> \<not> pj_inferred p
     \<and> (case pj_staleSeconds p of None \<Rightarrow> False | Some a \<Rightarrow> a \<le> STALE_AFTER)"

definition event_backed_lifecycle_is_current :: "lifecycle_projection \<Rightarrow> (string, enclosure_node) dict \<Rightarrow> bool" where
  "event_backed_lifecycle_is_current p enclosures =
     (if pj_fleeting p then True
      else if \<not> truthy_str (pj_enclosure p) then missing_enclosure_is_still_materializing p
      else (case map_of enclosures (the (pj_enclosure p)) of
          None \<Rightarrow> missing_enclosure_is_still_materializing p
        | Some en \<Rightarrow> en_lifecycleId en = [] \<or> en_lifecycleId en = pj_id p))"

definition current_event_backed_lifecycles ::
  "enclosure_node list \<Rightarrow> lifecycle_projection list \<Rightarrow> lifecycle_projection list" where
  "current_event_backed_lifecycles enclosures =
     filter (\<lambda>p. event_backed_lifecycle_is_current p (fold_latest en_enclosure enclosures))"

definition terminalize_abandoned_anchor_lifecycles ::
  "enclosure_node list \<Rightarrow> lifecycle_projection list \<Rightarrow> lifecycle_projection list" where
  "terminalize_abandoned_anchor_lifecycles enclosures lifecycles =
     (let anchors = en_enclosure ` set (filter (\<lambda>en. en_cleanup en = ''abandoned'') enclosures) in
      if anchors = {} then lifecycles
      else map (\<lambda>p. if \<not> pj_fleeting p \<and> pj_enclosure p \<in> Some ` anchors \<and> pj_state p \<notin> TERMINAL_STATES
                    then p\<lparr>pj_state := Abandoned\<rparr> else p) lifecycles)"

definition persistent_from_enclosure :: "enclosure_node \<Rightarrow> lifecycle_projection" where
  "persistent_from_enclosure en =
     (let closed = (''completed'' \<in> {en_closeoutStatus en, en_integrationStatus en});
          p = \<lparr>pj_id = (if en_lifecycleId en \<noteq> [] then en_lifecycleId en else en_repoName en @ ''/'' @ en_taskName en),
               pj_state = Paused, pj_phase = (if closed then Close else Build), pj_fleeting = False,
               pj_enclosure = Some (en_enclosure en), pj_repoId = Some (en_repoName en), pj_scope = None, pj_tokens = 0,
               pj_startedAt = [], pj_lastEventTs = [], pj_stateEnteredAt = [], pj_staleSeconds = None,
               pj_inferred = True, pj_ask = None, pj_actions = []\<rparr>
      in p\<lparr>pj_actions := lifecycle_actions p\<rparr>)"

definition persistent_lifecycles ::
  "enclosure_node list \<Rightarrow> lifecycle_projection list \<Rightarrow> lifecycle_projection list" where
  "persistent_lifecycles enclosures event_backed =
     (let known_ids = set (map pj_id event_backed);
          known_enclosures = set (List.map_filter (\<lambda>p. if truthy_str (pj_enclosure p) then pj_enclosure p else None) event_backed)
      in map persistent_from_enclosure
           (filter (\<lambda>en. \<not> (en_lifecycleId en \<noteq> [] \<and> en_lifecycleId en \<in> known_ids)
              \<and> en_enclosure en \<notin> known_enclosures \<and> en_cleanup en \<notin> {''abandoned'', ''reopened''}) enclosures))"

text \<open>The lifecycles of \<open>project_workspace\<close>: the logs, filtered and terminalized by their enclosures,
  and the enclosures no log accounts for.\<close>

definition workspace_lifecycles ::
  "event list list \<Rightarrow> enclosure_node list \<Rightarrow> utc \<Rightarrow> lifecycle_projection list result" where
  "workspace_lifecycles logs enclosures now =
     rbind (traverse (\<lambda>log. project_lifecycle log now) (filter (\<lambda>log. log \<noteq> []) logs)) (\<lambda>projected.
       (let ls = terminalize_abandoned_anchor_lifecycles enclosures (current_event_backed_lifecycles enclosures projected)
        in Inr (ls @ persistent_lifecycles enclosures ls)))"

definition integrate_action :: "enclosure_node \<Rightarrow> action_availability" where
  "integrate_action en =
     (if en_closeoutStatus en \<noteq> ''completed''
      then \<lparr>aa_action = ''integrate'', aa_enabled = False, aa_disabledReason = Some ''closeout not complete'',
            aa_nextSafeAction = Some ''run worktree_closeout_preview then apply''\<rparr>
      else if en_integrationStatus en \<noteq> ''not-started''
      then \<lparr>aa_action = ''integrate'', aa_enabled = False,
            aa_disabledReason = Some (''integration already '' @ en_integrationStatus en), aa_nextSafeAction = None\<rparr>
      else \<lparr>aa_action = ''integrate'', aa_enabled = True, aa_disabledReason = None, aa_nextSafeAction = None\<rparr>)"

definition cleanup_action :: "enclosure_node \<Rightarrow> action_availability" where
  "cleanup_action en =
     (if en_integrationStatus en \<noteq> ''completed''
      then \<lparr>aa_action = ''cleanup'', aa_enabled = False, aa_disabledReason = Some ''integration not complete'',
            aa_nextSafeAction = Some ''integrate first''\<rparr>
      else if en_cleanup en \<noteq> ''pending''
      then \<lparr>aa_action = ''cleanup'', aa_enabled = False, aa_disabledReason = Some (''already '' @ en_cleanup en),
            aa_nextSafeAction = None\<rparr>
      else \<lparr>aa_action = ''cleanup'', aa_enabled = True, aa_disabledReason = None, aa_nextSafeAction = None\<rparr>)"

definition enclosure_actions :: "enclosure_node \<Rightarrow> action_availability list" where
  "enclosure_actions en = [integrate_action en, cleanup_action en]"

end
