(* ===== verification/Lifecycle_Properties.thy ===== *)
theory Lifecycle_Properties
  imports Reducer
begin

text \<open>
  What the reducer reads is what the session did: a simulation between the state machine of
  \<open>observer/ambient.py\<close> and the fold of \<open>observer/reducer.py\<close> over the log the machine writes.
\<close>

section \<open>The written state of a log\<close>

text \<open>The fold without inference, for a log without corrections.\<close>

definition written :: "event list \<Rightarrow> lifecycle_projection result" where
  "written es = (case es of [] \<Rightarrow> Inl (ValueError ''empty event log'')
     | e # rest \<Rightarrow> rbind (seed_from_started e) (\<lambda>p. fold_events [] p rest))"

definition uncorrected :: "event list \<Rightarrow> bool" where
  "uncorrected es \<longleftrightarrow> (\<forall>e \<in> set es. ov_kind e \<noteq> ''correction.recorded'')"

lemma fold_events_append:
  "fold_events c p (es @ es') = rbind (fold_events c p es) (\<lambda>p'. fold_events c p' es')"
  by (induction es arbitrary: p) (auto split: rbind_split simp: rbind_def split: sum.splits)

lemma written_snoc:
  "es \<noteq> [] \<Longrightarrow> written (es @ [e]) = rbind (written es) (\<lambda>p. fold_event [] p e)"
  by (cases es) (auto simp: written_def fold_events_append rbind_def split: sum.splits)

lemma written_single: "written [e] = seed_from_started e"
  by (simp add: written_def rbind_def split: sum.splits)

lemma index_corrections_uncorrected: "uncorrected es \<Longrightarrow> index_corrections es = []"
proof -
  assume "uncorrected es"
  then have "List.map_filter correction_of es = []"
    by (induction es) (auto simp: List.map_filter_def uncorrected_def correction_of_def)
  then show ?thesis by (simp add: index_corrections_def)
qed

lemma project_lifecycle_written:
  assumes "uncorrected es" "written es = Inr p"
  shows "project_lifecycle es now =
    Inr ((project_inferred (p\<lparr>pj_lastEventTs := ov_ts (last es)\<rparr>) (ov_ts (last es)) now)
      \<lparr>pj_actions := lifecycle_actions (project_inferred (p\<lparr>pj_lastEventTs := ov_ts (last es)\<rparr>) (ov_ts (last es)) now)\<rparr>)"
  using assms index_corrections_uncorrected [OF assms(1)]
  by (cases es) (auto simp: project_lifecycle_def written_def rbind_eq_Inr_iff Let_def)

lemma fold_event_heartbeat: "ov_kind e = HEARTBEAT_KIND \<Longrightarrow> fold_event [] p e = Inr p"
  by (simp add: fold_event_def apply_kind_def Let_def)

text \<open>Reading the log with its heartbeat does not change what was written.\<close>

lemma event_read_written:
  assumes "read_log es (Some l) \<noteq> []" "uncorrected (read_log es (Some l))"
  shows "written (event_read es (Some l)) = written (read_log es (Some l))"
    and "uncorrected (event_read es (Some l))"
proof -
  have "event_read es (Some l) = read_log es (Some l) \<or>
      (\<exists>b. ov_kind b = HEARTBEAT_KIND \<and> event_read es (Some l) = read_log es (Some l) @ [b])"
    by (auto simp: event_read_def read_heartbeat_sidecar_def Let_def split: option.splits if_splits)
  then show "written (event_read es (Some l)) = written (read_log es (Some l))"
    and "uncorrected (event_read es (Some l))"
    using assms by (auto simp: written_snoc fold_event_heartbeat rbind_def uncorrected_def split: sum.splits)
qed

section \<open>What emission does to the logs\<close>

abbreviation slog :: "session \<Rightarrow> string \<Rightarrow> event list" where
  "slog s l \<equiv> read_log (ob_events (se_obs s)) (Some l)"

lemma log_key_Some [simp]: "l \<noteq> [] \<Longrightarrow> log_key (Some l) = Some l"
  by (simp add: log_key_def truthy_str_def)

lemma read_log_append:
  assumes "ov_lifecycleId e = Some i" "i \<noteq> []" "l \<noteq> []"
  shows "read_log (event_append es e) (Some l)
    = (if l = i \<and> ov_kind e \<noteq> HEARTBEAT_KIND then read_log es (Some l) @ [e] else read_log es (Some l))"
  using assms by (auto simp: event_append_def read_log_def truthy_str_def update_conv' List.map_filter_def)

lemma emit_fields [simp]:
  "se_current (emit env k tr ac data s) = se_current s"
  "se_timing (emit env k tr ac data s) = se_timing s"
  by (simp_all add: emit_def split: option.splits)

lemma slog_emit:
  assumes "se_current s = Some c" "lc_id c \<noteq> []" "l \<noteq> []"
  shows "slog (emit env k tr ac data s) l
    = (if l = lc_id c \<and> k \<noteq> HEARTBEAT_KIND then slog s l @ [emitted_event env s c k tr ac data] else slog s l)"
  using assms read_log_append [of "emitted_event env s c k tr ac data" "lc_id c" l]
  by (simp add: emit_def emitted_event_def)

lemma read_log_rmtree:
  "l \<noteq> [] \<Longrightarrow> read_log (ob_events (rmtree d ob)) (Some l) = (if l = d then [] else read_log (ob_events ob) (Some l))"
  by (simp add: rmtree_def read_log_def delete_conv' List.map_filter_def)

lemma read_log_rmtrees:
  "l \<noteq> [] \<Longrightarrow> read_log (ob_events (fold rmtree ds ob)) (Some l)
     = (if l \<in> set ds then [] else read_log (ob_events ob) (Some l))"
  by (induction ds arbitrary: ob) (auto simp: read_log_rmtree)

section \<open>The simulation\<close>

text \<open>An id factory that never repeats itself and never returns the empty id.\<close>

definition ids_ok :: "ambient_env \<Rightarrow> bool" where
  "ids_ok env \<longleftrightarrow> inj (mint_id env) \<and> (\<forall>n. mint_id env n \<noteq> [])"

abbreviation live_states :: "lc_state set" where
  "live_states \<equiv> {Running, Blocked, Awaiting_developer}"

abbreviation left_states :: "lc_state set" where
  "left_states \<equiv> {Paused, Completed, Abandoned}"

text \<open>The projection agrees with the session's lifecycle: in its state always, in everything else as
  long as the session only holds lifecycles it started itself (\<open>full\<close>).\<close>

definition agrees :: "bool \<Rightarrow> lifecycle_state \<Rightarrow> lifecycle_projection \<Rightarrow> bool" where
  "agrees full c p \<longleftrightarrow> pj_state p = lc_state c \<and> (full \<longrightarrow> pj_phase p = lc_phase c
     \<and> pj_fleeting p = lc_fleeting c \<and> pj_enclosure p = lc_enclosure c \<and> pj_id p = lc_id c)"

definition log_agrees :: "bool \<Rightarrow> lifecycle_state option \<Rightarrow> string \<Rightarrow> event list \<Rightarrow> bool" where
  "log_agrees full cur l es \<longleftrightarrow> uncorrected es \<and> (\<exists>p. written es = Inr p
     \<and> (case cur of Some c \<Rightarrow> if lc_id c = l then agrees full c p else pj_state p \<in> left_states
         | None \<Rightarrow> pj_state p \<in> left_states))"

definition session_inv :: "bool \<Rightarrow> ambient_env \<Rightarrow> session \<Rightarrow> bool" where
  "session_inv full env s \<longleftrightarrow>
     (\<forall>l. l \<noteq> [] \<longrightarrow> slog s l \<noteq> [] \<longrightarrow> log_agrees full (se_current s) l (slog s l))
   \<and> (\<forall>n \<ge> se_minted s. slog s (mint_id env n) = [])
   \<and> (\<forall>c. se_current s = Some c \<longrightarrow> lc_id c \<noteq> [] \<and> slog s (lc_id c) \<noteq> [] \<and> lc_state c \<in> live_states
        \<and> (\<forall>n \<ge> se_minted s. mint_id env n \<noteq> lc_id c))"

lemma session_invD:
  assumes "session_inv full env s"
  shows "l \<noteq> [] \<Longrightarrow> slog s l \<noteq> [] \<Longrightarrow> log_agrees full (se_current s) l (slog s l)"
    and "se_minted s \<le> n \<Longrightarrow> slog s (mint_id env n) = []"
    and "se_current s = Some c \<Longrightarrow> lc_id c \<noteq> []"
    and "se_current s = Some c \<Longrightarrow> slog s (lc_id c) \<noteq> []"
    and "se_current s = Some c \<Longrightarrow> lc_state c \<in> live_states"
    and "se_current s = Some c \<Longrightarrow> se_minted s \<le> n \<Longrightarrow> mint_id env n \<noteq> lc_id c"
  using assms unfolding session_inv_def by blast+

lemma agrees_entered [simp]: "agrees full c (p\<lparr>pj_stateEnteredAt := t\<rparr>) = agrees full c p"
  by (simp add: agrees_def)

lemma fold_event_apply:
  assumes "apply_kind p e = Inr p1" "ov_kind e \<noteq> ''correction.recorded''"
  obtains p' where "fold_event [] p e = Inr p'" "p' = p1 \<or> p' = p1\<lparr>pj_stateEnteredAt := ov_ts e\<rparr>"
  using assms by (auto simp: fold_event_def Let_def)

lemma emitted_fields [simp]:
  "ov_kind (emitted_event env s c k tr ac data) = k" "ov_data (emitted_event env s c k tr ac data) = data"
  "ov_enclosure (emitted_event env s c k tr ac data) = lc_enclosure c"
  "ov_repoId (emitted_event env s c k tr ac data) = lc_repo_id c"
  "ov_lifecycleId (emitted_event env s c k tr ac data) = Some (lc_id c)"
  by (simp_all add: emitted_event_def)

text \<open>One event on the current log: the fold of the longer log is one more step of the fold.\<close>

lemma current_log:
  assumes "session_inv full env s" "se_current s = Some c"
  obtains p where "written (slog s (lc_id c)) = Inr p" "uncorrected (slog s (lc_id c))" "agrees full c p"
  using session_invD(1) [OF assms(1) session_invD(3,4) [OF assms]] assms(2) by (auto simp: log_agrees_def)

lemma slog_moved:
  assumes "session_inv full env s" "se_current s = Some c" "lc_id c' = lc_id c" "l \<noteq> []"
  shows "slog (emit env k tr ac data (s\<lparr>se_current := Some c'\<rparr>)) l
    = (if l = lc_id c \<and> k \<noteq> HEARTBEAT_KIND then slog s l @ [emitted_event env s c' k tr ac data] else slog s l)"
  using slog_emit [of "s\<lparr>se_current := Some c'\<rparr>" c' l env k tr ac data] session_invD(3) [OF assms(1,2)] assms(3,4)
  by (simp add: emitted_event_def now_stamp_def)

lemma minted_emit: "se_current s = Some c \<Longrightarrow> se_minted (emit env k tr ac data s) = Suc (se_minted s)"
  by (simp add: emit_def)

lemma advance_inv:
  assumes inv: "session_inv full env s" and cur: "se_current s = Some c" and ids: "ids_ok env"
    and c': "lc_id c' = lc_id c" "lc_state c' \<in> live_states"
    and k: "k \<noteq> HEARTBEAT_KIND" "k \<noteq> ''correction.recorded''"
    and step: "\<And>p. agrees full c p \<Longrightarrow> \<exists>p'. apply_kind p (emitted_event env s c' k tr ac data) = Inr p' \<and> agrees full c' p'"
  shows "session_inv full env (emit env k tr ac data (s\<lparr>se_current := Some c'\<rparr>))"
proof -
  let ?s = "emit env k tr ac data (s\<lparr>se_current := Some c'\<rparr>)"
  note log = slog_moved [OF inv cur c'(1)]
  obtain p where p: "written (slog s (lc_id c)) = Inr p" "uncorrected (slog s (lc_id c))" "agrees full c p"
    by (rule current_log [OF inv cur])
  obtain p' where p': "fold_event [] p (emitted_event env s c' k tr ac data) = Inr p'" "agrees full c' p'"
    using step [OF p(3)] k(2) by (auto elim!: fold_event_apply)
  have "log_agrees full (Some c') l (slog ?s l)" if "l \<noteq> []" "slog ?s l \<noteq> []" for l
  proof (cases "l = lc_id c")
    case True
    then show ?thesis
      using that log k p p' c' written_snoc [OF session_invD(4) [OF inv cur]]
      by (auto simp: log_agrees_def uncorrected_def emitted_event_def)
  next
    case False
    then have "log_agrees full (Some c) l (slog s l)" using that log session_invD(1) [OF inv, of l] cur by simp
    then show ?thesis using False log that c'(1) by (simp add: log_agrees_def)
  qed
  moreover have "slog ?s (mint_id env n) = []" if "se_minted ?s \<le> n" for n
    using that ids session_invD(2,6) [OF inv] cur log [of "mint_id env n"]
    by (simp add: minted_emit [of _ c'] ids_ok_def)
  ultimately show ?thesis
    using session_invD(3,4,6) [OF inv cur] c' log k
    by (auto simp: session_inv_def minted_emit [of _ c'])
qed

lemma release_emit:
  assumes inv: "session_inv full env s" and cur: "se_current s = Some c" and ids: "ids_ok env"
    and k: "k \<noteq> HEARTBEAT_KIND" "k \<noteq> ''correction.recorded''"
    and step: "\<And>p. \<exists>p'. apply_kind p (emitted_event env s c k tr ac data) = Inr p' \<and> pj_state p' \<in> left_states"
  shows "session_inv full env (release (emit env k tr ac data s)) \<and> se_current (release (emit env k tr ac data s)) = None"
proof -
  let ?e = "emit env k tr ac data s"
  let ?s = "release ?e"
  have same: "s\<lparr>se_current := Some c\<rparr> = s" using cur by simp
  note log = slog_moved [OF inv cur refl, unfolded same]
  have rel: "slog ?s l = slog ?e l" "se_current ?s = None" "se_minted ?s = se_minted ?e" for l
    using cur by (simp_all add: release_def stop_ticker_def)
  obtain p where p: "written (slog s (lc_id c)) = Inr p" "uncorrected (slog s (lc_id c))" "agrees full c p"
    by (rule current_log [OF inv cur])
  obtain p' where p': "fold_event [] p (emitted_event env s c k tr ac data) = Inr p'" "pj_state p' \<in> left_states"
    using step [of p] k(2) by (auto elim!: fold_event_apply)
  have "log_agrees full None l (slog ?e l)" if "l \<noteq> []" "slog ?e l \<noteq> []" for l
  proof (cases "l = lc_id c")
    case True
    then show ?thesis
      using that log k p p' written_snoc [OF session_invD(4) [OF inv cur]]
      by (auto simp: log_agrees_def uncorrected_def emitted_event_def)
  next
    case False
    then have "log_agrees full (Some c) l (slog s l)" using that log session_invD(1) [OF inv, of l] cur by simp
    then show ?thesis using False log that by (simp add: log_agrees_def)
  qed
  moreover have "slog ?e (mint_id env n) = []" if "se_minted ?e \<le> n" for n
    using that ids session_invD(2,6) [OF inv] cur log [of "mint_id env n"] by (simp add: minted_emit ids_ok_def)
  ultimately show ?thesis by (simp add: session_inv_def rel)
qed

lemma reap_inv:
  assumes "session_inv full env s" "ids_ok env"
  shows "session_inv full env (snd (reap_stale_fleeting env s))"
proof -
  let ?s = "snd (reap_stale_fleeting env s)"
  have "\<exists>ds. (\<forall>d \<in> set ds. map_option lc_id (se_current s) \<noteq> Some d)
      \<and> (\<forall>l. l \<noteq> [] \<longrightarrow> slog ?s l = (if l \<in> set ds then [] else slog s l))"
    by (rule exI [of _ "if observer_dirs (se_obs s) = [] then [] else stale_dirs s (clock_at env (se_clock_reads s))"])
      (auto simp: reap_stale_fleeting_def Let_def read_log_rmtrees stale_dirs_def)
  then obtain ds where ds: "\<forall>d \<in> set ds. map_option lc_id (se_current s) \<noteq> Some d"
    and log: "\<And>l. l \<noteq> [] \<Longrightarrow> slog ?s l = (if l \<in> set ds then [] else slog s l)" by blast
  have eq: "se_current ?s = se_current s" "se_minted ?s = se_minted s"
    by (simp_all add: reap_stale_fleeting_def Let_def)
  have "slog ?s (mint_id env n) = []" if "se_minted s \<le> n" for n
    using session_invD(2) [OF assms(1) that] log assms(2) by (simp add: ids_ok_def)
  then show ?thesis
    using assms(1) ds log unfolding session_inv_def eq by auto
qed

lemma session_inv_cong:
  "se_current s' = se_current s \<Longrightarrow> se_minted s' = se_minted s \<Longrightarrow> ob_events (se_obs s') = ob_events (se_obs s) \<Longrightarrow>
   session_inv full env s' = session_inv full env s"
  by (simp add: session_inv_def)

lemma heartbeat_inv:
  assumes inv: "session_inv full env s" and ids: "ids_ok env"
  shows "session_inv full env (emit env HEARTBEAT_KIND tr ac data s)"
proof (cases "se_current s")
  case None
  then show ?thesis using inv by (simp add: emit_def)
next
  case (Some c)
  let ?s = "emit env HEARTBEAT_KIND tr ac data s"
  have "slog ?s l = slog s l" if "l \<noteq> []" for l
    using slog_emit [OF Some session_invD(3) [OF inv Some] that] by simp
  then show ?thesis
    using inv ids Some minted_emit [OF Some] unfolding session_inv_def ids_ok_def by simp
qed

section \<open>Each signal keeps the simulation\<close>

lemma apply_kind_simps:
  "ov_kind e = ''lifecycle.phase-changed'' \<Longrightarrow> apply_kind p e = phase_changed_updates p e"
  "ov_kind e = ''lifecycle.blocked'' \<Longrightarrow> apply_kind p e = Inr (blocked_updates p e)"
  "ov_kind e = ''lifecycle.awaiting-developer'' \<Longrightarrow> apply_kind p e = Inr (awaiting_developer_updates p e)"
  "ov_kind e = ''lifecycle.resumed'' \<Longrightarrow> apply_kind p e = Inr (resumed_updates p)"
  "ov_kind e = ''lifecycle.paused'' \<Longrightarrow> apply_kind p e = Inr (paused_updates p)"
  "ov_kind e = ''lifecycle.promoted'' \<Longrightarrow> apply_kind p e = Inr (promoted_updates p e)"
  "ov_kind e = ''lifecycle.ended'' \<Longrightarrow> apply_kind p e = Inr (ended_updates p e)"
  "ov_kind e = ''tool.completed'' \<Longrightarrow> apply_kind p e = Inr (tool_completed_updates p e)"
  "ov_kind e = ''read.packet'' \<Longrightarrow> apply_kind p e = Inr p"
  by (simp_all add: apply_kind_def)

lemmas update_defs = agrees_def blocked_updates_def awaiting_developer_updates_def resumed_updates_def
  paused_updates_def promoted_updates_def ended_updates_def tool_completed_updates_def phase_changed_updates_def

lemma coerce_phase_name [simp]: "coerce_phase (phase_name ph) = Inr ph"
  by (cases ph) (simp_all add: coerce_phase_def PHASES_def)

lemma state_of_name_name [simp]: "state_of_name (state_name st) = Some st"
  by (cases st) (simp_all add: state_of_name_def STATES_def)

lemma require_active_Inr [simp]: "require_active s = Inr c \<longleftrightarrow> se_current s = Some c"
  by (auto simp: require_active_def split: option.splits)

lemma signal_from_inv:
  assumes "signal_from env a b k data s = Inr (c', s')" "session_inv full env s" "ids_ok env"
    and "(k, b) \<in> {(''lifecycle.blocked'', Blocked), (''lifecycle.resumed'', Running),
           (''lifecycle.awaiting-developer'', Awaiting_developer)}"
  shows "session_inv full env s'"
proof -
  obtain c where c: "se_current s = Some c" and s': "s' = emit env k Declared Model data (s\<lparr>se_current := Some (c\<lparr>lc_state := b\<rparr>)\<rparr>)"
    using assms(1) by (auto simp: signal_from_def rbind_eq_Inr_iff Let_def split: if_splits)
  show ?thesis unfolding s'
    by (rule advance_inv [OF assms(2) c assms(3)]) (use assms(4) in \<open>auto simp: apply_kind_simps update_defs\<close>)
qed

lemma set_phase_inv:
  assumes "set_phase env ph s = Inr (c', s')" "session_inv full env s" "ids_ok env"
  shows "session_inv full env s'"
proof -
  obtain c where c: "se_current s = Some c" and s': "s' = emit env ''lifecycle.phase-changed'' Declared Model
      [(''phase'', JStr (phase_name ph))] (s\<lparr>se_current := Some (c\<lparr>lc_phase := ph\<rparr>)\<rparr>)"
    using assms(1) by (auto simp: set_phase_def rbind_eq_Inr_iff Let_def)
  show ?thesis unfolding s'
    by (rule advance_inv [OF assms(2) c assms(3)])
      (use session_invD(5) [OF assms(2) c] in \<open>auto simp: apply_kind_simps update_defs phase_from_def\<close>)
qed

lemma promoted_inv:
  assumes "session_inv full env s" "se_current s = Some c" "ids_ok env"
    and "lc_id c' = lc_id c" "lc_state c' = lc_state c" "lc_phase c' = lc_phase c" "\<not> lc_fleeting c'"
    and "lc_enclosure c' = lc_enclosure c \<or> lc_enclosure c' \<noteq> None"
  shows "session_inv full env (emit env ''lifecycle.promoted'' tr ac data (s\<lparr>se_current := Some c'\<rparr>))"
  by (rule advance_inv [OF assms(1-4)])
    (use session_invD(5) [OF assms(1,2)] assms(4-8) in \<open>auto simp: apply_kind_simps update_defs option_or_def split: option.splits\<close>)

lemma tool_inv:
  assumes "session_inv full env s" "ids_ok env" "k \<in> {''tool.completed'', ''read.packet''}"
  shows "session_inv full env (emit env k tr ac data s)"
proof (cases "se_current s")
  case None
  then show ?thesis using assms(1) by (simp add: emit_def)
next
  case (Some c)
  have "session_inv full env (emit env k tr ac data (s\<lparr>se_current := Some c\<rparr>))"
    by (rule advance_inv [OF assms(1) Some assms(2)])
      (use session_invD(5) [OF assms(1) Some] assms(3) in
        \<open>auto simp: apply_kind_simps update_defs split: option.splits json.splits\<close>)
  moreover have "s\<lparr>se_current := Some c\<rparr> = s" using Some by simp
  ultimately show ?thesis by simp
qed

lemma ended_inv:
  assumes "session_inv full env s" "se_current s = Some c" "ids_ok env"
  shows "session_inv full env (release (emit env ''lifecycle.ended'' tr ac data s))
    \<and> se_current (release (emit env ''lifecycle.ended'' tr ac data s)) = None"
  by (rule release_emit [OF assms])
    (auto simp: apply_kind_simps update_defs coerce_end_outcome_def TERMINAL_STATES_def split: option.splits json.splits)

lemma pause_inv:
  assumes "session_inv full env s" "se_current s = Some c" "ids_ok env"
  shows "session_inv full env (pause env cause s) \<and> se_current (pause env cause s) = None"
  unfolding pause_def by (rule release_emit [OF assms]) (auto simp: apply_kind_simps update_defs)

lemma leave_current_inv:
  assumes "leave_current env decision s = Inr s'" "session_inv full env s" "ids_ok env"
  shows "session_inv full env s' \<and> se_current s' = None"
proof (cases "se_current s")
  case None
  then show ?thesis using assms(1,2) by (simp add: leave_current_def)
next
  case (Some c)
  let ?z = "promote_to_landing_zone env s"
  have z: "session_inv full env ?z" "se_current ?z = Some (c\<lparr>lc_fleeting := False,
      lc_scope := Some (compute_scope (lc_repo_id c) False)\<rparr>)"
    using promoted_inv [OF assms(2) Some assms(3)] Some by (simp_all add: promote_to_landing_zone_def Let_def)
  show ?thesis
    using assms(1) Some pause_inv [OF assms(2) Some assms(3)] pause_inv [OF z assms(3)]
      ended_inv [OF assms(2) Some assms(3)]
    by (auto simp: leave_current_def split: if_splits option.splits save_decision.splits)
qed

text \<open>Taking up a lifecycle, fresh or adopted, when none is held.\<close>

lemma enter_inv:
  assumes inv: "session_inv full env s" and none: "se_current s = None" and ids: "ids_ok env"
    and s1: "se_current s1 = Some c" "se_minted s \<le> se_minted s1" "ob_events (se_obs s1) = ob_events (se_obs s)"
    and c: "lc_id c \<noteq> []" "lc_state c \<in> live_states" "\<And>n. se_minted s1 \<le> n \<Longrightarrow> mint_id env n \<noteq> lc_id c"
    and k: "k \<noteq> HEARTBEAT_KIND" "k \<noteq> ''correction.recorded''"
    and log: "\<exists>p. written (slog s (lc_id c) @ [emitted_event env s1 c k tr ac data]) = Inr p \<and> agrees full c p"
  shows "session_inv full env (emit env k tr ac data s1)"
proof -
  let ?s = "emit env k tr ac data s1"
  have sl: "slog ?s l = (if l = lc_id c then slog s l @ [emitted_event env s1 c k tr ac data] else slog s l)"
    if "l \<noteq> []" for l
    using slog_emit [OF s1(1) c(1) that] k(1) s1(3) by simp
  have "log_agrees full (Some c) l (slog ?s l)" if "l \<noteq> []" "slog ?s l \<noteq> []" for l
  proof (cases "l = lc_id c")
    case True
    have "uncorrected (slog s l)"
      using session_invD(1) [OF inv that(1)] by (cases "slog s l = []") (auto simp: log_agrees_def uncorrected_def)
    then show ?thesis using True that sl log k(2) by (auto simp: log_agrees_def uncorrected_def)
  next
    case False
    then have "log_agrees full None l (slog s l)" using that sl session_invD(1) [OF inv, of l] none by simp
    then show ?thesis using False sl that by (simp add: log_agrees_def)
  qed
  moreover have "slog ?s (mint_id env n) = []" if "se_minted ?s \<le> n" for n
    using that ids session_invD(2) [OF inv, of n] s1 c(3) [of n] sl [of "mint_id env n"]
    by (simp add: minted_emit [OF s1(1)] ids_ok_def)
  ultimately show ?thesis
    using s1(1) c sl [OF c(1)] by (auto simp: session_inv_def minted_emit [OF s1(1)])
qed

lemma start_ticker_inv [simp]: "session_inv full env (start_ticker s) = session_inv full env s"
  by (rule session_inv_cong) (simp_all add: start_ticker_def)

lemma begin_inv:
  assumes inv: "session_inv full env s" and none: "se_current s = None" and ids: "ids_ok env"
  shows "session_inv full env (snd (begin_lifecycle env fleeting ph s))"
proof -
  let ?c = "started_lifecycle env fleeting ph s"
  let ?s1 = "s\<lparr>se_current := Some ?c, se_minted := se_minted s + 1, se_clock_reads := se_clock_reads s + 1\<rparr>"
  let ?d = "[(''phase'', JStr (phase_name ph)), (''fleeting'', JBool fleeting)]"
  have id: "lc_id ?c = mint_id env (se_minted s)" by (simp add: started_lifecycle_def)
  have empty: "slog s (lc_id ?c) = []" using session_invD(2) [OF inv] by (simp add: id)
  have fresh: "mint_id env n \<noteq> lc_id ?c" if "se_minted s + 1 \<le> n" for n
  proof
    assume "mint_id env n = lc_id ?c"
    then have "n = se_minted s" using ids id by (auto simp: ids_ok_def dest: injD)
    then show False using that by simp
  qed
  have "session_inv full env (emit env ''lifecycle.started'' Declared Model ?d ?s1)"
  proof (rule enter_inv [OF inv none ids])
    show "\<exists>p. written (slog s (lc_id ?c) @ [emitted_event env ?s1 ?c ''lifecycle.started'' Declared Model ?d]) = Inr p
        \<and> agrees full ?c p"
      unfolding empty
      by (simp add: written_single seed_from_started_def phase_from_def data_truthy_def agrees_def
          started_lifecycle_def)
  qed (use ids fresh in \<open>auto simp: id ids_ok_def started_lifecycle_def\<close>)
  then show ?thesis by (auto simp: begin_lifecycle_def Let_def intro!: reap_inv ids)
qed

lemma attach_inv:
  assumes at: "attach env l enclosure repo_id on_unsaved ph s = Inr (c, s')" and inv: "session_inv False env s"
    and ids: "ids_ok env" and l: "l \<noteq> []" "\<And>n. se_minted s \<le> n \<Longrightarrow> mint_id env n \<noteq> l"
  shows "session_inv False env s'"
proof (cases "map_option lc_id (se_current s) = Some l")
  case True
  then show ?thesis using at inv by (simp add: attach_def)
next
  case False
  define ad where "ad t = \<lparr>lc_id = l, lc_state = Running, lc_phase = ph, lc_fleeting = False, lc_started_at = t,
    lc_enclosure = Some enclosure, lc_repo_id = repo_id, lc_scope = Some (compute_scope repo_id False)\<rparr>" for t
  obtain s0 where s0: "leave_current env on_unsaved s = Inr s0"
    using at False unfolding attach_def by (cases "leave_current env on_unsaved s") (simp_all del: map_option_eq_Some)
  let ?c = "ad (now_stamp env s0)"
  let ?s1 = "s0\<lparr>se_current := Some ?c, se_clock_reads := se_clock_reads s0 + 1\<rparr>"
  let ?s2 = "emit env ''lifecycle.resumed'' Observed System [(''cause'', JStr ''adopted'')] ?s1"
  have s': "s' = snd (reap_stale_fleeting env (start_ticker ?s2))"
    using at False s0 by (auto simp: attach_def Let_def ad_def simp del: map_option_eq_Some)
  have in0: "session_inv False env s0" and none: "se_current s0 = None"
    using leave_current_inv [OF s0 inv ids] by auto
  have mint: "se_minted s \<le> se_minted s0"
    using s0 by (auto simp: leave_current_def pause_def release_def stop_ticker_def promote_to_landing_zone_def emit_def
        Let_def split: option.splits if_splits save_decision.splits)
  have "\<exists>p. written (slog s0 l @ [emitted_event env ?s1 ?c ''lifecycle.resumed'' Observed System [(''cause'', JStr ''adopted'')]])
      = Inr p \<and> agrees False ?c p"
  proof (cases "slog s0 l = []")
    case True
    then show ?thesis
      by (simp add: written_single seed_from_started_def phase_from_def agrees_def ad_def)
  next
    case False
    obtain p where p: "written (slog s0 l) = Inr p"
      using session_invD(1) [OF in0 l(1) False] by (auto simp: log_agrees_def)
    let ?e = "emitted_event env ?s1 ?c ''lifecycle.resumed'' Observed System [(''cause'', JStr ''adopted'')]"
    have "apply_kind p ?e = Inr (resumed_updates p)" by (rule apply_kind_simps) simp
    then obtain p' where "fold_event [] p ?e = Inr p'"
      "p' = resumed_updates p \<or> p' = (resumed_updates p)\<lparr>pj_stateEnteredAt := ov_ts ?e\<rparr>"
      by (rule fold_event_apply) simp
    then show ?thesis using written_snoc [OF False] p by (auto simp: agrees_def resumed_updates_def ad_def)
  qed
  then have "session_inv False env ?s2"
    using l mint by (intro enter_inv [OF in0 none ids]) (auto simp: ad_def)
  then show ?thesis unfolding s' by (auto intro!: reap_inv ids)
qed

section \<open>Runs of a session\<close>

text \<open>One completed signal, observation or beat; adopting a lifecycle is told apart. An id that is
  adopted is not one the factory will mint later.\<close>

datatype session_event = Own | Adopted

inductive session_step :: "ambient_env \<Rightarrow> session \<Rightarrow> session_event \<Rightarrow> session \<Rightarrow> bool" for env where
  step_start: "start_lifecycle env fleeting ph s = Inr (c, s') \<Longrightarrow> session_step env s Own s'"
| step_block: "block env k prompt options s = Inr (c, s') \<Longrightarrow> session_step env s Own s'"
| step_resume: "resume env s = Inr (c, s') \<Longrightarrow> session_step env s Own s'"
| step_await: "await_developer env summary s = Inr (c, s') \<Longrightarrow> session_step env s Own s'"
| step_resume_await: "resume_from_await env s = Inr (c, s') \<Longrightarrow> session_step env s Own s'"
| step_end: "end_lifecycle env outcome s = Inr (c, s') \<Longrightarrow> session_step env s Own s'"
| step_phase: "set_phase env ph s = Inr (c, s') \<Longrightarrow> session_step env s Own s'"
| step_switch: "switch env on_unsaved fleeting ph s = Inr (c, s') \<Longrightarrow> session_step env s Own s'"
| step_promote: "promote env enclosure repo_id scope s = Inr (c, s') \<Longrightarrow> session_step env s Own s'"
| step_attach: "attach env l enclosure repo_id on_unsaved ph s = Inr (c, s') \<Longrightarrow> l \<noteq> [] \<Longrightarrow>
     (\<And>n. se_minted s \<le> n \<Longrightarrow> mint_id env n \<noteq> l) \<Longrightarrow> session_step env s Adopted s'"
| step_tool: "session_step env s Own (emit_tool env tool payload s)"
| step_read: "session_step env s Own (emit_read_packet env repo files s)"
| step_beat: "session_step env s Own (snd (heartbeat_tick env s))"
| step_shutdown: "session_step env s Own (shutdown s)"

lemma heartbeat_tick_inv:
  assumes "session_inv full env s" "ids_ok env"
  shows "session_inv full env (snd (heartbeat_tick env s))"
proof -
  let ?s1 = "if se_last_activity s = None then s else s\<lparr>se_clock_reads := se_clock_reads s + 1\<rparr>"
  have "session_inv full env ?s1" using assms(1) session_inv_cong [of ?s1 s full env] by simp
  then show ?thesis
    using assms heartbeat_inv [of full env ?s1] by (auto simp: heartbeat_tick_def Let_def split: option.splits if_splits)
qed

lemma session_step_inv:
  assumes "session_step env s e s'" "e = Own \<or> \<not> full" "session_inv full env s" "ids_ok env"
  shows "session_inv full env s'"
  using assms(1)
proof cases
  case (step_start fleeting ph c)
  then have "se_current s = None" "s' = snd (begin_lifecycle env fleeting ph s)"
    by (auto simp: start_lifecycle_def split: option.splits)
  then show ?thesis using begin_inv [OF assms(3) _ assms(4)] by simp
next
  case (step_block k prompt options c)
  then show ?thesis using signal_from_inv assms(3,4) unfolding block_def by blast
next
  case (step_resume c)
  then show ?thesis using signal_from_inv assms(3,4) unfolding resume_def by blast
next
  case (step_await summary c)
  then show ?thesis using signal_from_inv assms(3,4) unfolding await_developer_def by blast
next
  case (step_resume_await c)
  then show ?thesis using signal_from_inv assms(3,4) unfolding resume_from_await_def by blast
next
  case (step_end outcome c)
  then obtain c0 where "se_current s = Some c0"
    "s' = release (emit env ''lifecycle.ended'' Declared Model [(''outcome'', JStr outcome)] s)"
    by (auto simp: end_lifecycle_def rbind_eq_Inr_iff split: if_splits)
  then show ?thesis using ended_inv [OF assms(3) _ assms(4)] by blast
next
  case (step_phase ph c)
  then show ?thesis using set_phase_inv assms(3,4) by blast
next
  case (step_switch on_unsaved fleeting ph c)
  then obtain s1 where "leave_current env on_unsaved s = Inr s1" "s' = snd (begin_lifecycle env fleeting ph s1)"
    by (auto simp: switch_def rbind_eq_Inr_iff)
  then show ?thesis using leave_current_inv [OF _ assms(3,4)] begin_inv [OF _ _ assms(4)] by blast
next
  case (step_promote enclosure repo_id scope c)
  then show ?thesis
    using promoted_inv [OF assms(3) _ assms(4)] by (auto simp: promote_def rbind_eq_Inr_iff Let_def)
next
  case (step_attach l enclosure repo_id on_unsaved ph c)
  then show ?thesis using attach_inv assms(2-4) by (cases full) auto
next
  case (step_tool tool payload)
  then show ?thesis using tool_inv [OF assms(3,4)] by (simp add: emit_tool_def)
next
  case (step_read repo files)
  then show ?thesis using tool_inv [OF assms(3,4)] by (simp add: emit_read_packet_def)
next
  case step_beat
  then show ?thesis using heartbeat_tick_inv [OF assms(3,4)] by simp
next
  case step_shutdown
  then show ?thesis
    using assms(3) session_inv_cong [of s' s full env] by (simp add: shutdown_def stop_ticker_def)
qed

interpretation sim: preserved "session_step env" "\<lambda>e. e = Own \<or> \<not> full" "\<lambda>s. ids_ok env \<and> session_inv full env s" for env full
  by unfold_locales (blast intro: session_step_inv)

lemma fresh_session_inv:
  "se_current s = None \<Longrightarrow> es_logs (ob_events (se_obs s)) = [] \<Longrightarrow> session_inv full env s"
  by (simp add: session_inv_def read_log_def List.map_filter_def)

lemma project_inferred_keeps [simp]:
  "pj_phase (project_inferred p t now) = pj_phase p" "pj_fleeting (project_inferred p t now) = pj_fleeting p"
  "pj_enclosure (project_inferred p t now) = pj_enclosure p" "pj_id (project_inferred p t now) = pj_id p"
  by (simp_all add: project_inferred_def Let_def split: option.splits)

lemma project_inferred_state:
  "pj_state (project_inferred p t now) = pj_state p
   \<or> pj_inferred (project_inferred p t now) \<and> pj_state (project_inferred p t now) \<in> {Paused, Abandoned}
     \<and> (\<exists>a. pj_staleSeconds (project_inferred p t now) = Some a \<and> STALE_AFTER < a)"
  by (auto simp: project_inferred_def Let_def TTL_def STALE_AFTER_def split: option.splits)

lemma log_agrees_projected:
  assumes "log_agrees full cur l (read_log es (Some l))" "read_log es (Some l) \<noteq> []"
  shows "\<exists>q. project_lifecycle (event_read es (Some l)) now = Inr q \<and>
    (case cur of
       Some c \<Rightarrow> if lc_id c = l
         then (pj_state q = lc_state c \<or> pj_inferred q \<and> (\<exists>a. pj_staleSeconds q = Some a \<and> STALE_AFTER < a))
            \<and> (full \<longrightarrow> pj_phase q = lc_phase c \<and> pj_fleeting q = lc_fleeting c
                 \<and> pj_enclosure q = lc_enclosure c \<and> pj_id q = l)
         else pj_state q \<in> left_states
     | None \<Rightarrow> pj_state q \<in> left_states)"
proof -
  obtain p where p: "written (read_log es (Some l)) = Inr p" "uncorrected (read_log es (Some l))"
    and st: "case cur of Some c \<Rightarrow> if lc_id c = l then agrees full c p else pj_state p \<in> left_states
      | None \<Rightarrow> pj_state p \<in> left_states"
    using assms(1) by (auto simp: log_agrees_def)
  let ?es = "event_read es (Some l)"
  let ?p = "project_inferred (p\<lparr>pj_lastEventTs := ov_ts (last ?es)\<rparr>) (ov_ts (last ?es)) now"
  have "project_lifecycle ?es now = Inr (?p\<lparr>pj_actions := lifecycle_actions ?p\<rparr>)"
    using event_read_written [OF assms(2) p(2)] p(1) by (intro project_lifecycle_written) simp_all
  moreover have "pj_state ?p = pj_state p \<or> pj_inferred ?p \<and> pj_state ?p \<in> {Paused, Abandoned}
      \<and> (\<exists>a. pj_staleSeconds ?p = Some a \<and> STALE_AFTER < a)"
    using project_inferred_state [of "p\<lparr>pj_lastEventTs := ov_ts (last ?es)\<rparr>"] by simp
  ultimately show ?thesis
    using st by (intro exI [of _ "?p\<lparr>pj_actions := lifecycle_actions ?p\<rparr>"]) (auto simp: agrees_def split: option.splits)
qed

text \<open>C12. The dashboard reads what the session did. Let a session start with no lifecycle and no
  logs and then issue any signals, tool calls and heartbeats, start, block, resume, await, end,
  change phase, promote, switch and adopt lifecycles. Then every log it wrote projects without
  error: the log of the lifecycle it holds projects that lifecycle's state, unless the log has been
  quiet for more than three minutes and the projection says so by being inferred; every other log
  projects paused, completed or abandoned, so no lifecycle is left behind running. If the session
  adopted nothing, phase, fleeting, enclosure and id of the held lifecycle are projected exactly
  too.\<close>

theorem projection_follows_session:
  assumes "ids_ok env" "se_current s0 = None" "es_logs (ob_events (se_obs s0)) = []"
    and "run (session_step env) s0 es s" "l \<noteq> []" "read_log (ob_events (se_obs s)) (Some l) \<noteq> []"
  shows "\<exists>q. project_lifecycle (event_read (ob_events (se_obs s)) (Some l)) now = Inr q \<and>
    (case se_current s of
       Some c \<Rightarrow> if lc_id c = l
         then (pj_state q = lc_state c \<or> pj_inferred q \<and> (\<exists>a. pj_staleSeconds q = Some a \<and> STALE_AFTER < a))
            \<and> (Adopted \<notin> set es \<longrightarrow> pj_phase q = lc_phase c \<and> pj_fleeting q = lc_fleeting c
                 \<and> pj_enclosure q = lc_enclosure c \<and> pj_id q = l)
         else pj_state q \<in> {Paused, Completed, Abandoned}
     | None \<Rightarrow> pj_state q \<in> {Paused, Completed, Abandoned})"
proof -
  have adm: "e \<in> set es \<Longrightarrow> e = Own \<or> \<not> (Adopted \<notin> set es)" for e by (cases e) auto
  have "session_inv (Adopted \<notin> set es) env s"
    using sim.run_inv [OF assms(4) adm] fresh_session_inv [OF assms(2,3)] assms(1) by blast
  then have "log_agrees (Adopted \<notin> set es) (se_current s) l (slog s l)"
    using session_invD(1) assms(5,6) by blast
  then show ?thesis using log_agrees_projected [OF _ assms(6)] by blast
qed

definition plain_env :: ambient_env where
  "plain_env = \<lparr>mint_id = (\<lambda>n. replicate (Suc n) (CHR ''x'')), clock_at = (\<lambda>_. 0)\<rparr>"

definition plain_session :: session where
  "plain_session = \<lparr>se_timing = default_timing, se_current = None, se_last_activity = None, se_ticking = False,
     se_sets = [], se_minted = 0, se_clock_reads = 0,
     se_obs = \<lparr>ob_events = \<lparr>es_logs = [], es_beats = []\<rparr>, ob_gates = \<lparr>gs_root = [''observer''], gs_logs = []\<rparr>,
               ob_served = []\<rparr>\<rparr>"

lemma plain_none [simp]: "se_current plain_session = None"
  by (simp add: plain_session_def)

lemma plain_ids: "ids_ok plain_env"
  by (auto simp: ids_ok_def plain_env_def inj_def dest: arg_cong [of _ _ length])

lemma plain_started:
  "begin_lifecycle plain_env True Request plain_session =
    (let c = started_lifecycle plain_env True Request plain_session in
     (c, plain_session\<lparr>se_current := Some c, se_last_activity := Some (utc_stamp 0), se_ticking := True, se_minted := 2,
           se_clock_reads := 3,
           se_obs := (se_obs plain_session)\<lparr>ob_events := \<lparr>es_logs = [(Some ''x'',
             [Row \<lparr>ov_id = ''xx'', ov_ts = utc_stamp 0, ov_kind = ''lifecycle.started'', ov_trust = Declared, ov_actor = Model,
               ov_data = [(''phase'', JStr ''request''), (''fleeting'', JBool True)], ov_lifecycleId = Some ''x'',
               ov_enclosure = None, ov_repoId = None, ov_sessionId = None, ov_spanId = None\<rparr>])], es_beats = []\<rparr>\<rparr>\<rparr>))"
  by (simp add: begin_lifecycle_def started_lifecycle_def plain_env_def plain_session_def emit_def emitted_event_def
      now_stamp_def event_append_def reap_stale_fleeting_def stale_dirs_def observer_dirs_def start_ticker_def Let_def
      log_key_def truthy_str_def List.map_filter_def)

theorem projection_follows_session_witness:
  "\<exists>s q. run (session_step plain_env) plain_session [Own] s
     \<and> project_lifecycle (event_read (ob_events (se_obs s)) (Some ''x'')) (60 * second) = Inr q
     \<and> (pj_state q = Running \<or> pj_inferred q) \<and> pj_fleeting q"
proof -
  let ?c = "started_lifecycle plain_env True Request plain_session"
  let ?s = "snd (begin_lifecycle plain_env True Request plain_session)"
  have "start_lifecycle plain_env True Request plain_session = Inr (?c, ?s)"
    by (simp add: start_lifecycle_def plain_none begin_lifecycle_def Let_def)
  then have r: "run (session_step plain_env) plain_session [Own] ?s" by (auto intro: step_start)
  have c: "lc_id ?c = ''x''" "lc_state ?c = Running" "lc_fleeting ?c"
    by (simp_all add: started_lifecycle_def plain_env_def plain_session_def)
  have cur: "se_current ?s = Some ?c" and log: "slog ?s ''x'' \<noteq> []"
    by (simp_all add: plain_started Let_def read_log_def List.map_filter_def)
  have "\<exists>q. project_lifecycle (event_read (ob_events (se_obs ?s)) (Some ''x'')) (60 * second) = Inr q \<and>
    (case se_current ?s of
       Some c \<Rightarrow> if lc_id c = ''x''
         then (pj_state q = lc_state c \<or> pj_inferred q \<and> (\<exists>a. pj_staleSeconds q = Some a \<and> STALE_AFTER < a))
            \<and> (Adopted \<notin> set [Own] \<longrightarrow> pj_phase q = lc_phase c \<and> pj_fleeting q = lc_fleeting c
                 \<and> pj_enclosure q = lc_enclosure c \<and> pj_id q = ''x'')
         else pj_state q \<in> {Paused, Completed, Abandoned}
     | None \<Rightarrow> pj_state q \<in> {Paused, Completed, Abandoned})"
    by (rule projection_follows_session [OF plain_ids _ _ r _ log]) (simp_all add: plain_session_def)
  then obtain q where "project_lifecycle (event_read (ob_events (se_obs ?s)) (Some ''x'')) (60 * second) = Inr q"
    "pj_state q = Running \<or> pj_inferred q" "pj_fleeting q"
    using c unfolding cur by auto
  then show ?thesis using r by blast
qed

section \<open>The sweep and the projection\<close>

lemma fold_event_fleeting:
  "fold_event corr p e = Inr p' \<Longrightarrow> pj_fleeting p' \<longleftrightarrow> pj_fleeting p \<and> ov_kind e \<noteq> ''lifecycle.promoted''"
  by (auto simp: fold_event_def apply_kind_def update_defs Let_def rbind_eq_Inr_iff
      split: if_splits option.splits json.splits)

lemma fold_events_fleeting:
  "fold_events corr p es = Inr p' \<Longrightarrow>
   pj_fleeting p' \<longleftrightarrow> pj_fleeting p \<and> \<not> list_ex (\<lambda>e. ov_kind e = ''lifecycle.promoted'') es"
  by (induction es arbitrary: p) (auto simp: rbind_eq_Inr_iff dest: fold_event_fleeting)

lemma project_inferred_abandons:
  "pj_fleeting p \<Longrightarrow> age_seconds t now = Some a \<Longrightarrow> TTL < a \<Longrightarrow> pj_state (project_inferred p t now) \<in> TERMINAL_STATES"
  by (simp add: project_inferred_def TERMINAL_STATES_def Let_def)

lemma project_inferred_abandoned:
  "pj_inferred (project_inferred p t now) \<Longrightarrow> \<not> pj_inferred p \<Longrightarrow> pj_state (project_inferred p t now) = Abandoned \<Longrightarrow>
   pj_fleeting p \<and> (\<exists>a. age_seconds t now = Some a \<and> TTL < a)"
  by (auto simp: project_inferred_def Let_def split: option.splits if_splits)

lemma fold_events_inferred: "fold_events corr p es = Inr p' \<Longrightarrow> pj_inferred p' = pj_inferred p"
proof (induction es arbitrary: p)
  case (Cons e es)
  have "fold_event corr p e = Inr p1 \<Longrightarrow> pj_inferred p1 = pj_inferred p" for p1
    by (auto simp: fold_event_def apply_kind_def update_defs Let_def rbind_eq_Inr_iff
        split: if_splits option.splits json.splits)
  then show ?case using Cons by (auto simp: rbind_eq_Inr_iff)
qed simp

text \<open>The sweep and the projection agree on dormancy: for a log that begins with its start event,
  the sweep would delete the directory exactly when the projection is fleeting and quiet for more
  than an hour; the projection then shows it abandoned by inference, unless it had ended already.\<close>

lemma sweep_mirrors_projection:
  assumes "project_lifecycle (event_read es (Some l)) now = Inr q"
    and "ov_kind (hd (event_read es (Some l))) = ''lifecycle.started''"
    and "map_of (ov_data (hd (event_read es (Some l)))) ''fleeting'' \<noteq> None"
  shows "(is_dormant_fleeting TTL es l now \<longleftrightarrow> pj_fleeting q \<and> (\<exists>a. pj_staleSeconds q = Some a \<and> TTL < a))
    \<and> (is_dormant_fleeting TTL es l now \<longrightarrow> pj_state q \<in> TERMINAL_STATES)
    \<and> (pj_inferred q \<and> pj_state q = Abandoned \<longrightarrow> is_dormant_fleeting TTL es l now)"
proof -
  let ?es = "event_read es (Some l)"
  obtain seed p where ne: "?es \<noteq> []" and seed: "seed_from_started (hd ?es) = Inr seed"
    and p: "fold_events (index_corrections ?es) seed (tl ?es) = Inr p"
    and q: "q = (let p1 = project_inferred (p\<lparr>pj_lastEventTs := ov_ts (last ?es)\<rparr>) (ov_ts (last ?es)) now
                 in p1\<lparr>pj_actions := lifecycle_actions p1\<rparr>)"
    using assms(1) by (auto simp: project_lifecycle_def rbind_eq_Inr_iff Let_def split: if_splits)
  have "data_truthy True (ov_data (hd ?es)) ''fleeting'' = data_truthy False (ov_data (hd ?es)) ''fleeting''"
    using assms(3) by (auto simp: data_truthy_def)
  then have "pj_fleeting seed = data_truthy False (ov_data (hd ?es)) ''fleeting''" and "\<not> pj_inferred seed"
    using seed by (auto simp: seed_from_started_def rbind_eq_Inr_iff)
  then have "pj_fleeting p \<longleftrightarrow> data_truthy False (ov_data (hd ?es)) ''fleeting''
      \<and> \<not> list_ex (\<lambda>e. ov_kind e = ''lifecycle.promoted'') (tl ?es)"
    using fold_events_fleeting [OF p] by simp
  moreover have "list_ex (\<lambda>e. ov_kind e = ''lifecycle.promoted'') ?es \<longleftrightarrow> list_ex (\<lambda>e. ov_kind e = ''lifecycle.promoted'') (tl ?es)"
    using ne assms(2) by (cases ?es) auto
  ultimately have "is_dormant_fleeting TTL es l now \<longleftrightarrow> pj_fleeting p \<and>
      (\<exists>a. age_seconds (ov_ts (last ?es)) now = Some a \<and> TTL < a)"
    using ne assms(2) by (auto simp: is_dormant_fleeting_def Let_def split: option.splits)
  moreover have "pj_staleSeconds q = age_seconds (ov_ts (last ?es)) now" "pj_fleeting q = pj_fleeting p"
    by (simp_all add: q project_inferred_def Let_def split: option.splits)
  moreover have "pj_fleeting p \<and> (\<exists>a. age_seconds (ov_ts (last ?es)) now = Some a \<and> TTL < a) \<longrightarrow> pj_state q \<in> TERMINAL_STATES"
    using project_inferred_abandons [of "p\<lparr>pj_lastEventTs := ov_ts (last ?es)\<rparr>"] by (auto simp: q Let_def)
  moreover have "\<not> pj_inferred p" using fold_events_inferred [OF p] \<open>\<not> pj_inferred seed\<close> by simp
  then have "pj_inferred q \<and> pj_state q = Abandoned \<longrightarrow>
      pj_fleeting p \<and> (\<exists>a. age_seconds (ov_ts (last ?es)) now = Some a \<and> TTL < a)"
    using project_inferred_abandoned [of "p\<lparr>pj_lastEventTs := ov_ts (last ?es)\<rparr>" "ov_ts (last ?es)" now]
    by (auto simp: q Let_def)
  ultimately show ?thesis by simp
qed

definition plain_log :: "event_store" where
  "plain_log = ob_events (se_obs (snd (begin_lifecycle plain_env True Request plain_session)))"

lemma plain_log_read:
  "event_read plain_log (Some ''x'') = [\<lparr>ov_id = ''xx'', ov_ts = utc_stamp 0, ov_kind = ''lifecycle.started'',
     ov_trust = Declared, ov_actor = Model, ov_data = [(''phase'', JStr ''request''), (''fleeting'', JBool True)],
     ov_lifecycleId = Some ''x'', ov_enclosure = None, ov_repoId = None, ov_sessionId = None, ov_spanId = None\<rparr>]"
  by (simp add: plain_log_def plain_started Let_def event_read_def read_log_def read_heartbeat_sidecar_def
      List.map_filter_def)

lemma valid_utc_zero [simp]: "valid_utc 0"
  by (simp add: valid_utc_def)

lemma sweep_mirrors_projection_witness:
  "\<exists>q. project_lifecycle (event_read plain_log (Some ''x'')) (7200 * second) = Inr q
     \<and> is_dormant_fleeting TTL plain_log ''x'' (7200 * second) \<and> pj_state q \<in> TERMINAL_STATES"
proof -
  have "coerce_phase ''request'' = Inr Request" by code_simp
  then obtain q where q: "project_lifecycle (event_read plain_log (Some ''x'')) (7200 * second) = Inr q"
      and st: "pj_fleeting q" "pj_staleSeconds q = Some (7200 * second)"
    by (simp add: plain_log_read project_lifecycle_def seed_from_started_def phase_from_def data_truthy_def Let_def
        project_inferred_def TERMINAL_STATES_def TTL_def)
  have k: "ov_kind (hd (event_read plain_log (Some ''x''))) = ''lifecycle.started''"
      "map_of (ov_data (hd (event_read plain_log (Some ''x'')))) ''fleeting'' \<noteq> None"
    by (simp_all add: plain_log_read)
  have "TTL < 7200 * second" by (simp add: TTL_def)
  then show ?thesis using sweep_mirrors_projection [OF q k] q st by auto
qed

text \<open>Adopting a lifecycle that has no log makes the projection disown it: the session holds it as
  persistent and running, but its log begins with the adoption, which the reducer reads as the start
  of a fleeting lifecycle; two hours later it is projected abandoned.\<close>

lemma adopted_log_projects_fleeting:
  "\<exists>c s' q. attach plain_env ''L9'' ''task'' None None Build plain_session = Inr (c, s')
     \<and> lc_state c = Running \<and> \<not> lc_fleeting c
     \<and> project_lifecycle (event_read (ob_events (se_obs s')) (Some ''L9'')) (7200 * second) = Inr q
     \<and> pj_fleeting q \<and> pj_state q = Abandoned"
proof -
  define c where "c = \<lparr>lc_id = ''L9'', lc_state = Running, lc_phase = Build, lc_fleeting = False, lc_started_at = utc_stamp 0,
    lc_enclosure = Some ''task'', lc_repo_id = None, lc_scope = Some (compute_scope None False)\<rparr>"
  define e where "e = \<lparr>ov_id = ''x'', ov_ts = utc_stamp 0, ov_kind = ''lifecycle.resumed'', ov_trust = Observed,
    ov_actor = System, ov_data = [(''cause'', JStr ''adopted'')], ov_lifecycleId = Some ''L9'', ov_enclosure = Some ''task'',
    ov_repoId = None, ov_sessionId = None, ov_spanId = None\<rparr>"
  obtain s' where s': "attach plain_env ''L9'' ''task'' None None Build plain_session = Inr (c, s')"
    and log: "es_logs (ob_events (se_obs s')) = [(Some ''L9'', [Row e])]" "es_beats (ob_events (se_obs s')) = []"
    by (simp add: attach_def leave_current_def plain_env_def plain_session_def emit_def emitted_event_def c_def e_def
      now_stamp_def event_append_def reap_stale_fleeting_def stale_dirs_def observer_dirs_def start_ticker_def Let_def
      log_key_def truthy_str_def List.map_filter_def)
  have read: "event_read (ob_events (se_obs s')) (Some ''L9'') = [e]"
    by (simp add: event_read_def read_log_def read_heartbeat_sidecar_def log List.map_filter_def)
  have "\<exists>q. project_lifecycle [e] (7200 * second) = Inr q \<and> pj_fleeting q \<and> pj_state q = Abandoned"
    by (simp add: project_lifecycle_def e_def seed_from_started_def phase_from_def data_truthy_def Let_def
        project_inferred_def TERMINAL_STATES_def TTL_def)
  then show ?thesis using s' read by (auto simp: c_def)
qed

end
