(* ===== verification/Event_Retention.thy ===== *)
theory Event_Retention
  imports Lifecycle_Properties
begin

text \<open>
  \<open>observer/event_retention.py\<close>: the dashboard retires the directories of lifecycles that show no
  activity, and reclaims the head of the shared workspace river while clients keep virtual byte
  offsets into it. Decoding one line as JSON is a parameter: a line decodes to an object or is
  skipped.
\<close>

section \<open>Payloads\<close>

type_synonym payload = "(string \<times> json) list"

definition payload_time :: "payload \<Rightarrow> micros option" where
  "payload_time p = (case map_of p ''ts'' of
       Some (JStr ts) \<Rightarrow> if ts = [] then None else event_time ts
     | _ \<Rightarrow> None)"

definition LIFECYCLE_EVENT_GRACE :: micros where
  "LIFECYCLE_EVENT_GRACE = 60 * 60 * second"

definition WORKSPACE_EVENT_TTL :: micros where
  "WORKSPACE_EVENT_TTL = 60 * 60 * second"

definition FLEETING_INACTIVE_TTL :: micros where
  "FLEETING_INACTIVE_TTL = 60 * 60 * second"

definition ENCLOSURE_INACTIVE_GRACE :: micros where
  "ENCLOSURE_INACTIVE_GRACE = 60 * 60 * second"

section \<open>Dormant lifecycles\<close>

text \<open>What a pass over a log has seen: last activity, started fleeting, promoted.\<close>

definition retention_step ::
  "payload \<Rightarrow> micros option \<times> bool \<times> bool \<Rightarrow> micros option \<times> bool \<times> bool" where
  "retention_step p acc =
     (let (last_activity, fleeting, promoted) = acc; k = map_of p ''kind'' in
      if k = Some (JStr HEARTBEAT_KIND) then acc
      else (option_or (payload_time p) last_activity,
            (if k = Some (JStr ''lifecycle.started'')
             then (case map_of p ''data'' of Some (JObj data) \<Rightarrow> data_truthy False data ''fleeting'' | _ \<Rightarrow> False)
             else fleeting),
            promoted \<or> k = Some (JStr ''lifecycle.promoted'')))"

definition retention_facts :: "payload list \<Rightarrow> micros option \<times> bool" where
  "retention_facts ps =
     (let (last_activity, fleeting, promoted) = fold retention_step ps (None, False, False)
      in (last_activity, fleeting \<and> \<not> promoted))"

definition last_activity_at :: "payload list \<Rightarrow> micros option" where
  "last_activity_at ps = fst (retention_facts ps)"

definition lifecycle_terminal_at :: "payload list \<Rightarrow> micros option" where
  "lifecycle_terminal_at ps =
     fold (\<lambda>p t. if map_of p ''kind'' = Some (JStr ''lifecycle.ended'') then option_or (payload_time p) t else t) ps None"

definition lifecycle_is_dormant :: "payload list \<Rightarrow> utc \<Rightarrow> bool" where
  "lifecycle_is_dormant ps now =
     (let (last_activity, is_fleeting) = retention_facts ps in
      case last_activity of None \<Rightarrow> False
      | Some t \<Rightarrow> (if is_fleeting then FLEETING_INACTIVE_TTL else ENCLOSURE_INACTIVE_GRACE) < now - t)"

text \<open>The lines of an event log as the retention pass decodes them; a torn line is skipped.\<close>

fun line_payload :: "event log_line \<Rightarrow> payload option" where
  "line_payload (Row e) = Some [(''ts'', JStr (ov_ts e)), (''kind'', JStr (ov_kind e)), (''data'', JObj (ov_data e))]"
| "line_payload (Torn t) = None"
| "line_payload Blank = None"

definition log_payloads :: "event_store \<Rightarrow> string \<Rightarrow> payload list" where
  "log_payloads es l = List.map_filter line_payload (read_log_text (map_of (es_logs es) (Some l)))"

definition event_log_dirs :: "observer \<Rightarrow> string list" where
  "event_log_dirs ob = sort (List.map_filter fst (es_logs (ob_events ob)))"

definition prune_expired_lifecycle_event_logs ::
  "observer \<Rightarrow> utc \<Rightarrow> string set \<Rightarrow> string list \<times> observer" where
  "prune_expired_lifecycle_event_logs ob now protected_ids =
     (let removed = filter (\<lambda>l. l \<notin> protected_ids \<and> lifecycle_is_dormant (log_payloads (ob_events ob) l) now)
            (event_log_dirs ob)
      in (removed, fold rmtree removed ob))"

section \<open>The workspace river\<close>

text \<open>The bytes of the file and the virtual offset of its first byte.\<close>

record river =
  rv_bytes :: string
  rv_base :: nat

text \<open>\<open>readline\<close> over the file: each complete line with its start and end offset.\<close>

function iter_lines :: "nat \<Rightarrow> string \<Rightarrow> (nat \<times> nat \<times> string) list" where
  "iter_lines start bytes =
     (case dropWhile (\<lambda>c. c \<noteq> CHR 0x0A) bytes of
        [] \<Rightarrow> []
      | nl # rest \<Rightarrow> (let line = takeWhile (\<lambda>c. c \<noteq> CHR 0x0A) bytes; after = start + length line + 1
                      in (start, after, line) # iter_lines after rest))"
  by pat_completeness auto

termination
proof (relation "measure (\<lambda>(_, bytes). length bytes)")
  fix start bytes nl rest x xa
  assume "dropWhile (\<lambda>c. c \<noteq> CHR 0x0A) bytes = nl # rest"
  moreover have "length (dropWhile (\<lambda>c. c \<noteq> CHR 0x0A) bytes) \<le> length bytes" by (rule length_dropWhile_le)
  ultimately show "((xa, rest), start, bytes) \<in> measure (\<lambda>(_, bytes). length bytes)" by simp
qed simp

declare iter_lines.simps [simp del]

definition iter_event_payloads :: "(string \<Rightarrow> payload option) \<Rightarrow> string \<Rightarrow> (nat \<times> nat \<times> payload) list" where
  "iter_event_payloads decode bytes =
     List.map_filter (\<lambda>(start, after, line). map_option (\<lambda>p. (start, after, p)) (decode line)) (iter_lines 0 bytes)"

text \<open>A row the compaction and the replay may skip: its stamp is readable and before the cutoff.\<close>

definition aged_out :: "micros \<Rightarrow> payload \<Rightarrow> bool" where
  "aged_out cutoff p = (case payload_time p of None \<Rightarrow> False | Some t \<Rightarrow> t < cutoff)"

definition first_retained_offset :: "(string \<Rightarrow> payload option) \<Rightarrow> string \<Rightarrow> micros \<Rightarrow> nat" where
  "first_retained_offset decode bytes cutoff =
     (let rows = iter_event_payloads decode bytes in
      case dropWhile (\<lambda>(_, _, p). aged_out cutoff p) rows of
        (start, _, _) # _ \<Rightarrow> start
      | [] \<Rightarrow> (if rows = [] then 0 else fst (snd (last rows))))"

definition workspace_logical_size :: "river \<Rightarrow> nat" where
  "workspace_logical_size r = rv_base r + length (rv_bytes r)"

definition compact_workspace_river ::
  "(string \<Rightarrow> payload option) \<Rightarrow> river \<Rightarrow> utc \<Rightarrow> micros \<Rightarrow> nat \<times> river" where
  "compact_workspace_river decode r now ttl =
     (let rows = iter_event_payloads decode (rv_bytes r);
          aged = takeWhile (\<lambda>(_, _, p). aged_out (now - ttl) p) rows in
      if aged = [] then (0, r)
      else (let retained_start = (case drop (length aged) rows of (start, _, _) # _ \<Rightarrow> start
                                  | [] \<Rightarrow> length (rv_bytes r))
            in (length aged, \<lparr>rv_bytes = drop retained_start (rv_bytes r), rv_base = rv_base r + retained_start\<rparr>)))"

text \<open>The starting offset of a fresh connection on the river.\<close>

definition workspace_initial_offset :: "(string \<Rightarrow> payload option) \<Rightarrow> river \<Rightarrow> utc \<Rightarrow> nat" where
  "workspace_initial_offset decode r now =
     rv_base r + first_retained_offset decode (rv_bytes r) (now - WORKSPACE_EVENT_TTL)"

section \<open>Offsets\<close>

lemma iter_lines_Nil: "dropWhile (\<lambda>c. c \<noteq> CHR 0x0A) bytes = [] \<Longrightarrow> iter_lines st bytes = []"
  by (subst iter_lines.simps) (simp only: list.case)

lemma iter_lines_Cons:
  assumes "dropWhile (\<lambda>c. c \<noteq> CHR 0x0A) bytes = nl # rest"
  shows "iter_lines st bytes = (st, st + length (takeWhile (\<lambda>c. c \<noteq> CHR 0x0A) bytes) + 1,
    takeWhile (\<lambda>c. c \<noteq> CHR 0x0A) bytes) # iter_lines (st + length (takeWhile (\<lambda>c. c \<noteq> CHR 0x0A) bytes) + 1) rest"
  using assms by (subst iter_lines.simps) (simp only: list.case Let_def)

lemma iter_lines_shift: "iter_lines (st + d) bytes = map (\<lambda>(a, b, l). (a + d, b + d, l)) (iter_lines st bytes)"
proof (induction st bytes rule: iter_lines.induct)
  case (1 st bytes)
  show ?case
  proof (cases "dropWhile (\<lambda>c. c \<noteq> CHR 0x0A) bytes")
    case Nil
    then show ?thesis by (simp only: iter_lines_Nil list.map)
  next
    case (Cons nl rest)
    then show ?thesis
      using "1.IH" [OF Cons refl refl] iter_lines_Cons [OF Cons, of "st + d"] iter_lines_Cons [OF Cons, of st]
      by (simp add: algebra_simps)
  qed
qed

lemma iter_lines_suffix:
  "iter_lines st bytes = pre @ (a, b, l) # suf \<Longrightarrow> st \<le> a \<and> iter_lines a (drop (a - st) bytes) = (a, b, l) # suf"
proof (induction st bytes arbitrary: pre rule: iter_lines.induct)
  case (1 st bytes)
  show ?case
  proof (cases "dropWhile (\<lambda>c. c \<noteq> CHR 0x0A) bytes")
    case Nil
    then have "iter_lines st bytes = []" by (rule iter_lines_Nil)
    then show ?thesis using "1.prems" by simp
  next
    case (Cons nl rest)
    let ?line = "takeWhile (\<lambda>c. c \<noteq> CHR 0x0A) bytes"
    let ?after = "st + length ?line + 1"
    have eq: "iter_lines st bytes = (st, ?after, ?line) # iter_lines ?after rest"
      by (rule iter_lines_Cons [OF Cons])
    have bytes: "bytes = ?line @ nl # rest" using Cons takeWhile_dropWhile_id [of "\<lambda>c. c \<noteq> CHR 0x0A" bytes] by simp
    show ?thesis
    proof (cases pre)
      case Nil
      then show ?thesis using "1.prems" eq by auto
    next
      case (Cons x pre')
      then have tl: "iter_lines ?after rest = pre' @ (a, b, l) # suf" using "1.prems" eq by simp
      have "?after \<le> a \<and> iter_lines a (drop (a - ?after) rest) = (a, b, l) # suf"
        using "1.IH" [OF \<open>dropWhile (\<lambda>c. c \<noteq> CHR 0x0A) bytes = nl # rest\<close> refl refl tl] .
      moreover have "drop (a - st) bytes = drop (a - ?after) rest" if "?after \<le> a"
      proof -
        have "a - st = length (?line @ [nl]) + (a - ?after)" using that by simp
        then have "drop (a - st) bytes = drop (a - ?after) (drop (length (?line @ [nl])) bytes)" by (simp add: add.commute)
        moreover have "drop (length (?line @ [nl])) bytes = rest"
          using arg_cong [OF bytes, of "drop (length (?line @ [nl]))"] by simp
        ultimately show ?thesis by (simp only:)
      qed
      ultimately show ?thesis by auto
    qed
  qed
qed

lemma map_filter_split:
  "List.map_filter f xs = ys @ z # zs \<Longrightarrow>
   \<exists>xs1 x xs2. xs = xs1 @ x # xs2 \<and> List.map_filter f xs1 = ys \<and> f x = Some z \<and> List.map_filter f xs2 = zs"
proof (induction xs arbitrary: ys)
  case (Cons x xs)
  show ?case
  proof (cases "f x")
    case None
    then obtain xs1 y xs2 where "xs = xs1 @ y # xs2" "List.map_filter f xs1 = ys" "f y = Some z" "List.map_filter f xs2 = zs"
      using Cons by (auto simp: List.map_filter_def)
    then show ?thesis using None by (intro exI [of _ "x # xs1"] exI [of _ y] exI [of _ xs2]) (simp add: List.map_filter_def)
  next
    case (Some w)
    show ?thesis
    proof (cases ys)
      case Nil
      then show ?thesis using Cons.prems Some
        by (intro exI [of _ "[]"] exI [of _ x] exI [of _ xs]) (simp add: List.map_filter_def)
    next
      case (Cons y ys')
      then have "List.map_filter f xs = ys' @ z # zs" "y = w" using Cons.prems Some by (simp_all add: List.map_filter_def)
      then obtain xs1 u xs2 where "xs = xs1 @ u # xs2" "List.map_filter f xs1 = ys'" "f u = Some z" "List.map_filter f xs2 = zs"
        using Cons.IH by blast
      then show ?thesis using Some Cons \<open>y = w\<close>
        by (intro exI [of _ "x # xs1"] exI [of _ u] exI [of _ xs2]) (simp add: List.map_filter_def)
    qed
  qed
qed (simp add: List.map_filter_def)

abbreviation rows_of :: "(string \<Rightarrow> payload option) \<Rightarrow> string \<Rightarrow> payload list" where
  "rows_of decode bytes \<equiv> map (snd \<circ> snd) (iter_event_payloads decode bytes)"

text \<open>Cutting the file where a row starts leaves exactly that row and the later ones.\<close>

lemma rows_cut:
  assumes "iter_event_payloads decode bytes = pre @ (a, b, p) # post"
  shows "rows_of decode (drop a bytes) = map (snd \<circ> snd) ((a, b, p) # post)" and "a \<le> length bytes"
proof -
  let ?f = "\<lambda>(start, after, line). map_option (\<lambda>p. (start, after, p)) (decode line)"
  obtain xs1 x xs2 where x: "iter_lines 0 bytes = xs1 @ x # xs2" "?f x = Some (a, b, p)" "List.map_filter ?f xs2 = post"
    using map_filter_split [OF assms [unfolded iter_event_payloads_def]] by blast
  then obtain l where l: "x = (a, b, l)" "decode l = Some p" by (cases x) auto
  have suf: "iter_lines a (drop a bytes) = (a, b, l) # xs2"
    using iter_lines_suffix [of 0 bytes xs1 a b l xs2] x(1) l(1) by simp
  then have *: "map (\<lambda>(x, y, l). (x + a, y + a, l)) (iter_lines 0 (drop a bytes)) = (a, b, l) # xs2"
    using iter_lines_shift [of 0 a "drop a bytes"] by simp
  have shift: "List.map_filter (\<lambda>(_, _, line). decode line) ls
      = List.map_filter (\<lambda>(_, _, line). decode line) (map (\<lambda>(x, y, l). (x + a, y + a, l)) ls)" for ls :: "(nat \<times> nat \<times> string) list"
    by (induction ls) (auto simp: List.map_filter_def)
  have rows: "map (snd \<circ> snd) (List.map_filter ?f ls) = List.map_filter (\<lambda>(_, _, line). decode line) ls"
    for ls :: "(nat \<times> nat \<times> string) list"
    by (induction ls) (auto simp: List.map_filter_def)
  have "rows_of decode (drop a bytes) = List.map_filter (\<lambda>(_, _, line). decode line) (iter_lines 0 (drop a bytes))"
    unfolding iter_event_payloads_def by (rule rows)
  also have "\<dots> = List.map_filter (\<lambda>(_, _, line). decode line) ((a, b, l) # xs2)"
    unfolding shift [of "iter_lines 0 (drop a bytes)"] * ..
  also have "\<dots> = p # map (snd \<circ> snd) post"
    using l(2) rows [of xs2, unfolded x(3)] by simp
  finally show "rows_of decode (drop a bytes) = map (snd \<circ> snd) ((a, b, p) # post)" by simp
  show "a \<le> length bytes"
  proof (rule ccontr)
    assume "\<not> a \<le> length bytes"
    then have "iter_lines a (drop a bytes) = []" by (intro iter_lines_Nil) simp
    then show False using suf by simp
  qed
qed

section \<open>Properties\<close>

text \<open>C21. Reclaiming the river is invisible to its readers. The compaction drops a prefix of the rows,
  all of them readable and older than the window; the rows that remain are exactly the later ones;
  the virtual end of the river does not move; and from every virtual offset that has not been
  reclaimed, a reader finds the same bytes as before.\<close>

theorem river_compaction_cursor_safe:
  assumes "compact_workspace_river decode r now ttl = (n, r')"
  shows "list_all (aged_out (now - ttl)) (take n (rows_of decode (rv_bytes r)))
    \<and> rows_of decode (rv_bytes r') = drop n (rows_of decode (rv_bytes r))
    \<and> workspace_logical_size r' = workspace_logical_size r \<and> rv_base r \<le> rv_base r'
    \<and> (\<forall>v \<ge> rv_base r'. drop (v - rv_base r') (rv_bytes r') = drop (v - rv_base r) (rv_bytes r))"
proof -
  let ?rows = "iter_event_payloads decode (rv_bytes r)"
  let ?P = "\<lambda>(_, _, p). aged_out (now - ttl) p"
  let ?aged = "takeWhile ?P ?rows"
  show ?thesis
  proof (cases "?aged = []")
    case True
    then have "n = 0" "r' = r" using assms by (simp_all add: compact_workspace_river_def)
    then show ?thesis by simp
  next
    case False
    define cut where "cut = (case drop (length ?aged) ?rows of (start, _, _) # _ \<Rightarrow> start | [] \<Rightarrow> length (rv_bytes r))"
    have n: "n = length ?aged" and r': "r' = \<lparr>rv_bytes = drop cut (rv_bytes r), rv_base = rv_base r + cut\<rparr>"
      using assms False by (auto simp: compact_workspace_river_def Let_def cut_def)
    have split: "?rows = ?aged @ drop (length ?aged) ?rows"
      by (metis append_take_drop_id takeWhile_eq_take)
    have rows: "rows_of decode (drop cut (rv_bytes r)) = drop n (rows_of decode (rv_bytes r)) \<and> cut \<le> length (rv_bytes r)"
    proof (cases "drop (length ?aged) ?rows")
      case Nil
      then have "cut = length (rv_bytes r)" "drop n (rows_of decode (rv_bytes r)) = []"
        by (simp_all add: cut_def n drop_map)
      then show ?thesis by (simp add: iter_event_payloads_def iter_lines_Nil List.map_filter_def)
    next
      case (Cons x post)
      then obtain a b p where x: "x = (a, b, p)" by (cases x) auto
      have "?rows = ?aged @ (a, b, p) # post" using split Cons x by simp
      note cutrows = rows_cut [OF this]
      have "cut = a" using Cons x by (simp add: cut_def)
      then show ?thesis using cutrows Cons x by (simp add: n drop_map)
    qed
    have "take n (rows_of decode (rv_bytes r)) = map (snd \<circ> snd) ?aged"
      by (simp add: n take_map takeWhile_eq_take [symmetric])
    then have "list_all (aged_out (now - ttl)) (take n (rows_of decode (rv_bytes r)))"
      by (auto simp: list_all_iff dest!: set_takeWhileD)
    moreover have "drop (v - rv_base r') (rv_bytes r') = drop (v - rv_base r) (rv_bytes r)" if "rv_base r' \<le> v" for v
      using that by (simp add: r')
    ultimately show ?thesis using rows by (simp add: r' workspace_logical_size_def)
  qed
qed

definition sample_river :: river where
  "sample_river = \<lparr>rv_bytes = ''a'' @ [CHR 0x0A] @ ''b'' @ [CHR 0x0A], rv_base = 7\<rparr>"

definition sample_decode :: "string \<Rightarrow> payload option" where
  "sample_decode line = Some [(''ts'', JStr (if line = ''a'' then utc_stamp 0 else ''now''))]"

lemma event_time_zero: "event_time (utc_stamp 0) = Some 0"
proof -
  have "concat (map (\<lambda>c. if c = CHR ''Z'' then ''+00:00'' else [c]) (utc_stamp 0)) = utc_stamp 0" by code_simp
  then show ?thesis by (simp add: event_time_def) (simp add: utc_dt_def)
qed

lemma event_time_now: "event_time ''now'' = None"
  by code_simp

lemma utc_stamp_zero_nonempty: "utc_stamp 0 \<noteq> []"
  by code_simp

lemma sample_lines: "iter_lines 0 (rv_bytes sample_river) = [(0, 2, ''a''), (2, 4, ''b'')]"
  by code_simp

lemma sample_compacted:
  "compact_workspace_river sample_decode sample_river (7200 * second) WORKSPACE_EVENT_TTL
     = (1, \<lparr>rv_bytes = ''b'' @ [CHR 0x0A], rv_base = 9\<rparr>)"
proof -
  have "iter_event_payloads sample_decode (rv_bytes sample_river)
      = [(0, 2, [(''ts'', JStr (utc_stamp 0))]), (2, 4, [(''ts'', JStr ''now'')])]"
    by (simp add: iter_event_payloads_def sample_lines sample_decode_def List.map_filter_def)
  then show ?thesis
    by (simp add: compact_workspace_river_def Let_def aged_out_def payload_time_def event_time_zero event_time_now
        utc_stamp_zero_nonempty WORKSPACE_EVENT_TTL_def) (simp add: sample_river_def)
qed

theorem river_compaction_cursor_safe_witness:
  "drop (10 - 9) (''b'' @ [CHR 0x0A]) = drop (10 - 7) (rv_bytes sample_river)
   \<and> workspace_logical_size \<lparr>rv_bytes = ''b'' @ [CHR 0x0A], rv_base = 9\<rparr> = workspace_logical_size sample_river"
  using river_compaction_cursor_safe [OF sample_compacted] by (auto simp: sample_river_def dest: spec [of _ 10])

section \<open>Retired directories and the gates in them\<close>

lemma gs_logs_rmtrees:
  "map_of (gs_logs (ob_gates (fold rmtree ds ob))) (Some l) = (if l \<in> set ds then None else map_of (gs_logs (ob_gates ob)) (Some l))"
  by (induction ds arbitrary: ob) (auto simp: rmtree_def delete_conv')

lemma set_map_filter_fst: "l \<in> set (List.map_filter fst d) \<longleftrightarrow> Some l \<in> fst ` set d"
  by (force simp: List.map_filter_def)

text \<open>Retiring a dormant lifecycle retires its authority: the pass removes exactly the unprotected
  lifecycles whose log is dormant, and with the directory goes the gate log in it. Every other
  lifecycle keeps its gates; on a removed one no gate is left, so each claim of any kind is
  permitted without a gate from then on, whatever was open, rejected or spent there before.\<close>

lemma retired_lifecycle_is_gateless:
  assumes "prune_expired_lifecycle_event_logs ob now protected_ids = (removed, ob')" "l \<noteq> []"
  shows "(l \<in> set removed \<longleftrightarrow> map_of (es_logs (ob_events ob)) (Some l) \<noteq> None \<and> l \<notin> protected_ids
        \<and> lifecycle_is_dormant (log_payloads (ob_events ob) l) now)
    \<and> gate_current (ob_gates ob') (Some l) = (if l \<in> set removed then Inr [] else gate_current (ob_gates ob) (Some l))
    \<and> (l \<in> set removed \<and> lockable h (log_path (ob_gates ob') (Some l)) \<longrightarrow>
        claim_approval h (ob_gates ob') (Some l) k ts policy op = Inr (guard k True NoGate None, ob_gates ob'))"
proof -
  have rem: "removed = filter (\<lambda>l. l \<notin> protected_ids \<and> lifecycle_is_dormant (log_payloads (ob_events ob) l) now) (event_log_dirs ob)"
    and ob': "ob' = fold rmtree removed ob"
    using assms(1) by (auto simp: prune_expired_lifecycle_event_logs_def Let_def)
  have "l \<in> set (event_log_dirs ob) \<longleftrightarrow> map_of (es_logs (ob_events ob)) (Some l) \<noteq> None"
    by (simp add: event_log_dirs_def set_map_filter_fst map_of_eq_None_iff)
  then have mem: "l \<in> set removed \<longleftrightarrow> map_of (es_logs (ob_events ob)) (Some l) \<noteq> None \<and> l \<notin> protected_ids
      \<and> lifecycle_is_dormant (log_payloads (ob_events ob) l) now" by (auto simp: rem)
  have cur: "gate_current (ob_gates ob') (Some l) = (if l \<in> set removed then Inr [] else gate_current (ob_gates ob) (Some l))"
    using assms(2) gs_logs_rmtrees [of removed ob l]
    by (simp add: ob' gate_current_def gate_read_def gate_log_def read_strict_def)
  have "claim_approval h (ob_gates ob') (Some l) k ts policy op = Inr (guard k True NoGate None, ob_gates ob')"
    if "l \<in> set removed" "lockable h (log_path (ob_gates ob') (Some l))"
    using that cur by (simp add: claim_approval_def exclusive_access_lockable evaluate_gate_def guard_def Let_def)
  then show ?thesis using mem cur by simp
qed

definition waiting_event :: "string \<Rightarrow> (string \<times> json) list \<Rightarrow> event" where
  "waiting_event k data = \<lparr>ov_id = ''e'', ov_ts = utc_stamp 0, ov_kind = k, ov_trust = Declared, ov_actor = Model,
     ov_data = data, ov_lifecycleId = Some ''L1'', ov_enclosure = Some ''task'', ov_repoId = None, ov_sessionId = None,
     ov_spanId = None\<rparr>"

text \<open>An enclosure-backed lifecycle that has waited at an open closeout gate since instant 0.\<close>

definition waiting_observer :: observer where
  "waiting_observer = \<lparr>ob_events = \<lparr>es_logs = [(Some ''L1'', [Row (waiting_event ''lifecycle.started'' [(''fleeting'', JBool False)]),
       Row (waiting_event ''lifecycle.blocked'' [])])], es_beats = []\<rparr>,
     ob_gates = sample_store\<lparr>gs_logs := [(Some ''L1'', [Row (sample_gate\<lparr>g_state := GOpen, g_decidedBy := None\<rparr>)])]\<rparr>,
     ob_served = []\<rparr>"

lemma waiting_dormant: "lifecycle_is_dormant (log_payloads (ob_events waiting_observer) ''L1'') (7200 * second)"
  by (simp add: lifecycle_is_dormant_def log_payloads_def waiting_observer_def List.map_filter_def retention_facts_def
      retention_step_def waiting_event_def payload_time_def event_time_zero utc_stamp_zero_nonempty data_truthy_def
      option_or_def Let_def ENCLOSURE_INACTIVE_GRACE_def FLEETING_INACTIVE_TTL_def)

lemma retired_lifecycle_is_gateless_witness:
  "\<exists>removed ob'. prune_expired_lifecycle_event_logs waiting_observer (7200 * second) {} = (removed, ob')
     \<and> \<not> permitted (evaluate_gate [(''G1'', sample_gate\<lparr>g_state := GOpen, g_decidedBy := None\<rparr>)] closeout_approval [] None)
     \<and> claim_approval sample_host (ob_gates ob') (Some ''L1'') closeout_approval ''t'' [] None
        = Inr (guard closeout_approval True NoGate None, ob_gates ob')"
proof -
  obtain removed ob' where p: "prune_expired_lifecycle_event_logs waiting_observer (7200 * second) {} = (removed, ob')"
    by (cases "prune_expired_lifecycle_event_logs waiting_observer (7200 * second) {}") auto
  have "\<not> permitted (evaluate_gate [(''G1'', sample_gate\<lparr>g_state := GOpen, g_decidedBy := None\<rparr>)] closeout_approval [] None)"
    by code_simp
  moreover have "map_of (es_logs (ob_events waiting_observer)) (Some ''L1'') \<noteq> None" by (simp add: waiting_observer_def)
  ultimately show ?thesis
    using p waiting_dormant retired_lifecycle_is_gateless [OF p, of "''L1''" sample_host closeout_approval "''t''" "[]" None]
    by simp
qed

end
