(* ===== verification/Closeout_Queue.thy ===== *)
theory Closeout_Queue
  imports Durable_Store Task_Document_Ref
begin

text \<open>
  The closeout projection of one sprint: \<open>models/closeout/projection.py\<close> (what a stored state must
  satisfy), \<open>controlplane/closeout_queue_records.py\<close> and \<open>closeout_queue_store.py\<close> (one file, replaced
  as a whole under its lock, and an off-side build), and
  \<open>worktrees/queue/closeout_projection_publication.py\<close> (invalidate, rebuild, preview). What the
  census of the task documents captured is an argument.
\<close>

section \<open>Records and their validators\<close>

definition MAX_CLOSEOUT_SOURCE_PROBLEMS :: nat where "MAX_CLOSEOUT_SOURCE_PROBLEMS = 256"
definition MAX_CLOSEOUT_REASONS :: nat where "MAX_CLOSEOUT_REASONS = 264"
definition MAX_CLOSEOUT_TEXT :: nat where "MAX_CLOSEOUT_TEXT = 8192"
definition MAX_CLOSEOUT_SHORT_TEXT :: nat where "MAX_CLOSEOUT_SHORT_TEXT = 256"

datatype service_condition = Valid_built | Invalid_empty
datatype source_classification = Source_active | Source_terminal
datatype member_classification = Member_ready | Member_waiting | Member_blocked
datatype priority_grade = Prio_critical | Prio_high | Prio_normal | Prio_low
datatype problem_kind = Problem_task | Problem_door | Problem_series | Problem_projection
datatype problem_state = Problem_missing | Problem_unreadable | Problem_invalid

text \<open>A repair action keeps the sprint a rebuild names, not its rendering as a call. So the bound of 8192
  characters on the rendered action is not among the validators below; only a reference of thousands of
  characters exceeds it.\<close>

datatype repair_action = Rebuild task_document_ref | Other_repair string

record source_problem =
  sp_kind :: problem_kind
  sp_address :: string
  sp_state :: problem_state
  sp_errorType :: string
  sp_repairAction :: repair_action

definition text_within :: "nat \<Rightarrow> string \<Rightarrow> bool" where
  "text_within n s \<longleftrightarrow> s \<noteq> [] \<and> length s \<le> n"

definition is_hex :: "nat \<Rightarrow> nat \<Rightarrow> string \<Rightarrow> bool" where
  "is_hex lo hi s \<longleftrightarrow> lo \<le> length s \<and> length s \<le> hi \<and> list_all (\<lambda>c. c \<in> set ''0123456789abcdef'') s"

definition make_problem ::
  "problem_kind \<Rightarrow> string \<Rightarrow> problem_state \<Rightarrow> string \<Rightarrow> repair_action \<Rightarrow> source_problem result" where
  "make_problem k address st error_type repair =
     (if text_within MAX_CLOSEOUT_TEXT address \<and> text_within MAX_CLOSEOUT_SHORT_TEXT error_type
      then Inr \<lparr>sp_kind = k, sp_address = address, sp_state = st, sp_errorType = error_type, sp_repairAction = repair\<rparr>
      else Inl (ValidationError ''ProjectionSourceProblem''))"

record projection_member =
  pm_generationId :: string
  pm_taskDocumentRef :: task_document_ref
  pm_owningMaster :: task_document_ref
  pm_contractPath :: string
  pm_candidateTree :: string
  pm_sourceDoorFingerprint :: string
  pm_classification :: member_classification
  pm_reasons :: "string list"
  pm_priority :: priority_grade
  pm_order :: nat

definition bounded_nonblank_reasons :: "string list \<Rightarrow> string list result" where
  "bounded_nonblank_reasons reasons =
     (let cleaned = map str_strip reasons in
      if \<not> list_all (text_within MAX_CLOSEOUT_TEXT) cleaned then Inl (ValueError ''reasons must be nonblank and bounded'')
      else if \<not> distinct cleaned then Inl (ValueError ''reasons must be unique'')
      else Inr cleaned)"

definition validate_member :: "projection_member \<Rightarrow> projection_member result" where
  "validate_member m =
     (if is_hex 64 64 (pm_generationId m) \<and> text_within MAX_CLOSEOUT_TEXT (pm_contractPath m)
         \<and> is_hex 40 64 (pm_candidateTree m) \<and> is_hex 64 64 (pm_sourceDoorFingerprint m)
         \<and> length (pm_reasons m) \<le> MAX_CLOSEOUT_REASONS
      then (case bounded_nonblank_reasons (pm_reasons m) of
              Inl _ \<Rightarrow> Inl (ValidationError ''reasons'')
            | Inr cleaned \<Rightarrow> Inr (m\<lparr>pm_reasons := cleaned\<rparr>))
      else Inl (ValidationError ''CloseoutProjectionMember''))"

record queue_state =
  qs_sprint :: task_document_ref
  qs_revision :: nat
  qs_serviceCondition :: service_condition
  qs_sourceClassification :: "source_classification option"
  qs_sourceFingerprint :: "string option"
  qs_members :: "projection_member list"
  qs_sourceProblems :: "source_problem list"
  qs_updatedAt :: string

definition condition_is_exact :: "queue_state \<Rightarrow> bool" where
  "condition_is_exact st \<longleftrightarrow>
     distinct (map pm_generationId (qs_members st)) \<and> distinct (map (ref_key \<circ> pm_taskDocumentRef) (qs_members st))
   \<and> (if qs_serviceCondition st = Invalid_empty
      then qs_members st = [] \<and> qs_sourceFingerprint st = None \<and> qs_sourceClassification st = None
      else qs_sourceFingerprint st \<noteq> None \<and> qs_sourceClassification st \<noteq> None \<and> qs_sourceProblems st = [])
   \<and> \<not> (qs_sourceClassification st = Some Source_terminal \<and> qs_members st \<noteq> [])"

text \<open>Construction of a state from parts that are already models: the field constraints and the
  validator of the whole; nested models are taken as they are.\<close>

definition make_queue_state :: "queue_state \<Rightarrow> queue_state result" where
  "make_queue_state st =
     (if (case qs_sourceFingerprint st of None \<Rightarrow> True | Some f \<Rightarrow> is_hex 64 64 f)
         \<and> length (qs_sourceProblems st) \<le> MAX_CLOSEOUT_SOURCE_PROBLEMS
         \<and> text_within MAX_CLOSEOUT_SHORT_TEXT (qs_updatedAt st) \<and> condition_is_exact st
      then Inr st else Inl (ValidationError ''CloseoutQueueState''))"

text \<open>Validation of a parsed file: every member is validated on the way.\<close>

definition validate_queue_state :: "queue_state \<Rightarrow> queue_state result" where
  "validate_queue_state st =
     rbind (traverse validate_member (qs_members st)) (\<lambda>ms. make_queue_state (st\<lparr>qs_members := ms\<rparr>))"

record projection_build =
  pb_sprint :: task_document_ref
  pb_sourceFingerprint :: string
  pb_sourceClassification :: source_classification
  pb_members :: "projection_member list"
  pb_builtAt :: string

definition make_projection_build :: "projection_build \<Rightarrow> projection_build result" where
  "make_projection_build b =
     (if is_hex 64 64 (pb_sourceFingerprint b) \<and> text_within 256 (pb_builtAt b)
         \<and> \<not> (pb_sourceClassification b = Source_terminal \<and> pb_members b \<noteq> [])
      then Inr b else Inl (ValidationError ''CloseoutProjectionBuild''))"

datatype invalidation_outcome = Persisted_empty | Already_empty | Recovered_malformed
  | Would_recover_malformed | Would_persist_empty | Invalidation_failed

record invalidation_result =
  ir_outcome :: invalidation_outcome
  ir_revision :: "nat option"
  ir_diagnostic :: "source_problem option"

datatype rebuild_outcome = Published | Already_current | Source_changed | Source_unreadable
  | Would_publish | Not_attempted

record rebuild_result =
  rr_outcome :: rebuild_outcome
  rr_revision :: "nat option"
  rr_sourceFingerprint :: "string option"
  rr_sourceClassification :: "source_classification option"
  rr_memberCount :: nat
  rr_sourceProblems :: "source_problem list"

definition no_rebuild :: "rebuild_outcome \<Rightarrow> rebuild_result" where
  "no_rebuild outcome = \<lparr>rr_outcome = outcome, rr_revision = None, rr_sourceFingerprint = None,
     rr_sourceClassification = None, rr_memberCount = 0, rr_sourceProblems = []\<rparr>"

record source_identity =
  si_fingerprint :: "string option"
  si_problems :: "source_problem list"
  si_classification :: "source_classification option"
  si_members :: "projection_member list"

definition source_readable :: "source_identity \<Rightarrow> bool" where
  "source_readable src \<longleftrightarrow> si_fingerprint src \<noteq> None \<and> si_problems src = []"

section \<open>The store\<close>

text \<open>What is at the path of the state: nothing, something \<open>lstat\<close> fails on, something that is no
  regular file, or a text that parses to a state or not.\<close>

datatype queue_file = No_file | Uninspectable | Irregular | Text "queue_state option"

text \<open>The two files, and whether an atomic write reaches each of them.\<close>

record queue_store =
  st_path :: path
  st_sprint :: task_document_ref
  st_file :: queue_file
  st_build :: "projection_build option"
  st_file_writable :: bool
  st_build_writable :: bool

definition PROJECTION_OWNERSHIP :: store_ownership where
  "PROJECTION_OWNERSHIP = \<lparr>store_name = ''sprint-closeout-projection'',
     writers = [Mode_mcp, Mode_lifecycle_operation], compaction_owner = Some Mode_mcp\<rparr>"

text \<open>\<open>resolve(strict=False)\<close> of the file system is an argument.\<close>

definition queue_store_paths :: "(path \<Rightarrow> path) \<Rightarrow> path \<Rightarrow> task_document_ref \<Rightarrow> (path \<times> path) result" where
  "queue_store_paths resolve root ref =
     (let repository_root = resolve (root @ [''tasks'', repository ref]);
          sprint_path = resolve (root @ [''tasks'', repository ref] @ posix_parts (ref_path ref));
          artifacts = butlast sprint_path @ [''artifacts''] in
      if \<not> is_relative_to sprint_path repository_root
      then Inl (CloseoutQueueStoreError ''path escapes its task repository'')
      else Inr (artifacts @ [''closeout-candidates.json''], artifacts @ [''.closeout-candidates.build'']))"

definition queue_exists :: "queue_store \<Rightarrow> bool result" where
  "queue_exists s = (case st_file s of
       No_file \<Rightarrow> Inr False
     | Uninspectable \<Rightarrow> Inl (CloseoutQueueStoreError ''presence cannot be inspected'')
     | _ \<Rightarrow> Inr True)"

definition empty_state :: "queue_store \<Rightarrow> nat \<Rightarrow> source_problem list \<Rightarrow> string \<Rightarrow> queue_state result" where
  "empty_state s revision problems timestamp = make_queue_state
     \<lparr>qs_sprint = st_sprint s, qs_revision = revision, qs_serviceCondition = Invalid_empty,
      qs_sourceClassification = None, qs_sourceFingerprint = None, qs_members = [], qs_sourceProblems = problems,
      qs_updatedAt = timestamp\<rparr>"

definition read_state :: "queue_store \<Rightarrow> string \<Rightarrow> queue_state result" where
  "read_state s timestamp = (case st_file s of
       No_file \<Rightarrow> empty_state s 0 [] timestamp
     | Uninspectable \<Rightarrow> Inl (CloseoutQueueStoreError ''cannot be inspected'')
     | Irregular \<Rightarrow> Inl (CloseoutQueueStoreError ''not a regular file'')
     | Text t \<Rightarrow> (case t of None \<Rightarrow> Inl (CloseoutQueueStoreError ''invalid'')
         | Some raw \<Rightarrow> (case validate_queue_state raw of Inl _ \<Rightarrow> Inl (CloseoutQueueStoreError ''invalid'')
             | Inr st \<Rightarrow> if qs_sprint st \<noteq> st_sprint s then Inl (CloseoutQueueStoreError ''belongs to another sprint'')
                         else Inr st)))"

definition artifact_problem :: "queue_store \<Rightarrow> source_problem result" where
  "artifact_problem s = make_problem Problem_projection (CHR ''/'' # join_with (CHR ''/'') (st_path s)) Problem_unreadable
     ''CloseoutQueueStoreError'' (Rebuild (st_sprint s))"

text \<open>The handler of \<open>except CloseoutQueueStoreError\<close>.\<close>

definition on_store_error :: "'a result \<Rightarrow> 'a result \<Rightarrow> 'a result" where
  "on_store_error m handler = (case m of Inl (CloseoutQueueStoreError _) \<Rightarrow> handler | _ \<Rightarrow> m)"

definition read_raw :: "queue_store \<Rightarrow> string \<Rightarrow> queue_state result" where
  "read_raw s timestamp = on_store_error (read_state s timestamp)
     (rbind (artifact_problem s) (\<lambda>p. empty_state s 0 [p] timestamp))"

text \<open>First occurrences, as the loop over \<open>seen\<close> keeps them.\<close>

fun unique_problems :: "source_problem list \<Rightarrow> source_problem list \<Rightarrow> source_problem list" where
  "unique_problems seen [] = []"
| "unique_problems seen (p # ps) =
     (if p \<in> set seen then unique_problems seen ps else p # unique_problems (p # seen) ps)"

definition bounded_problems :: "queue_store \<Rightarrow> source_problem list \<Rightarrow> source_problem list result" where
  "bounded_problems s problems =
     (let unique = unique_problems [] problems in
      if length unique \<le> MAX_CLOSEOUT_SOURCE_PROBLEMS then Inr unique
      else rbind (make_problem Problem_projection (CHR ''/'' # join_with (CHR ''/'') (st_path s)) Problem_invalid
                    ''source-problem-cap-exceeded'' (Rebuild (st_sprint s))) (\<lambda>overflow.
             Inr (take (MAX_CLOSEOUT_SOURCE_PROBLEMS - 1) unique @ [overflow])))"

definition source_matches :: "queue_state \<Rightarrow> source_identity \<Rightarrow> bool" where
  "source_matches st src \<longleftrightarrow> qs_serviceCondition st = Valid_built \<and> source_readable src
     \<and> qs_sourceFingerprint st = si_fingerprint src \<and> qs_sourceClassification st = si_classification src
     \<and> qs_members st = si_members src"

definition read_effective :: "queue_store \<Rightarrow> string \<Rightarrow> source_identity \<Rightarrow> queue_state result" where
  "read_effective s timestamp src =
     rbind (read_raw s timestamp) (\<lambda>raw.
       if source_matches raw src then Inr raw
       else rbind (bounded_problems s (qs_sourceProblems raw @ si_problems src)) (\<lambda>problems.
            rbind (if problems = [] \<and> qs_serviceCondition raw = Valid_built
                   then rbind (make_problem Problem_task (ref_key (st_sprint s)) Problem_invalid
                                 ''source-fingerprint-mismatch'' (Rebuild (st_sprint s))) (\<lambda>p. Inr [p])
                   else Inr problems) (\<lambda>problems'.
              empty_state s (qs_revision raw) problems' timestamp)))"

text \<open>\<open>_publish\<close> and \<open>_clear_build\<close>.\<close>

definition publish :: "queue_state \<Rightarrow> queue_store \<Rightarrow> queue_store result" where
  "publish st s = (if st_file_writable s then Inr (s\<lparr>st_file := Text (Some st)\<rparr>) else Inl (OSError ''replace''))"

definition clear_build :: "queue_store \<Rightarrow> queue_store" where
  "clear_build s = (if st_build_writable s then s\<lparr>st_build := None\<rparr> else s)"

text \<open>The state under the lock: what is there, whether it existed, and the problem of a malformed one.\<close>

definition read_for_invalidation ::
  "queue_store \<Rightarrow> string \<Rightarrow> (queue_state \<times> bool \<times> source_problem option) result" where
  "read_for_invalidation s timestamp =
     on_store_error
       (rbind (queue_exists s) (\<lambda>existed. rbind (read_state s timestamp) (\<lambda>st. Inr (st, existed, None))))
       (rbind (artifact_problem s) (\<lambda>p. rbind (empty_state s 0 [p] timestamp) (\<lambda>st. Inr (st, True, Some p))))"

definition invalidate_locked ::
  "queue_store \<Rightarrow> string \<Rightarrow> ((queue_state \<times> invalidation_result) \<times> queue_store) result" where
  "invalidate_locked s timestamp =
     rbind (read_for_invalidation s timestamp) (\<lambda>(current, existed, malformed).
       case malformed of
         Some p \<Rightarrow> (let invalid = current\<lparr>qs_sourceProblems := []\<rparr> in
           rbind (publish invalid s) (\<lambda>s'.
             Inr ((invalid, \<lparr>ir_outcome = Recovered_malformed, ir_revision = Some (qs_revision invalid),
                             ir_diagnostic = Some p\<rparr>), clear_build s')))
       | None \<Rightarrow>
          if \<not> existed
          then rbind (publish current s) (\<lambda>s'.
             Inr ((current, \<lparr>ir_outcome = Persisted_empty, ir_revision = Some (qs_revision current), ir_diagnostic = None\<rparr>),
                  clear_build s'))
          else if qs_serviceCondition current = Invalid_empty
          then Inr ((current, \<lparr>ir_outcome = Already_empty, ir_revision = Some (qs_revision current), ir_diagnostic = None\<rparr>),
                    clear_build s)
          else rbind (empty_state s (qs_revision current + 1) [] timestamp) (\<lambda>invalid.
             rbind (publish invalid s) (\<lambda>s'.
               Inr ((invalid, \<lparr>ir_outcome = Persisted_empty, ir_revision = Some (qs_revision invalid), ir_diagnostic = None\<rparr>),
                    clear_build s'))))"

definition invalidate :: "host \<Rightarrow> string \<Rightarrow> (queue_store, queue_state \<times> invalidation_result) act" where
  "invalidate h timestamp = awrite (\<lambda>s.
     rbind (check_declared_writer h PROJECTION_OWNERSHIP) (\<lambda>_.
       exclusive_access h PROJECTION_OWNERSHIP (st_path s) (\<lambda>_. invalidate_locked s timestamp)))"

text \<open>The part of \<open>publish_build\<close> under the lock, with the source as it is captured there.\<close>

definition publish_locked ::
  "queue_store \<Rightarrow> projection_build \<Rightarrow> source_identity result \<Rightarrow> ((queue_state \<times> rebuild_result) \<times> queue_store) result" where
  "publish_locked s build source =
     rbind (read_state s (pb_builtAt build)) (\<lambda>current.
     rbind source (\<lambda>src.
       if \<not> source_readable src
       then rbind (bounded_problems s (si_problems src)) (\<lambda>problems.
              Inr ((current, (no_rebuild Source_unreadable)\<lparr>rr_sourceProblems := problems\<rparr>), clear_build s))
       else if si_fingerprint src \<noteq> Some (pb_sourceFingerprint build)
       then Inr ((current, (no_rebuild Source_changed)\<lparr>rr_sourceFingerprint := si_fingerprint src\<rparr>), clear_build s)
       else if si_classification src \<noteq> Some (pb_sourceClassification build) \<or> si_members src \<noteq> pb_members build
       then Inr ((current, (no_rebuild Source_changed)\<lparr>rr_sourceFingerprint := si_fingerprint src,
                   rr_sourceClassification := si_classification src, rr_memberCount := length (si_members src)\<rparr>), clear_build s)
       else if source_matches current src
       then Inr ((current, \<lparr>rr_outcome = Already_current, rr_revision = Some (qs_revision current),
                   rr_sourceFingerprint = Some (pb_sourceFingerprint build),
                   rr_sourceClassification = Some (pb_sourceClassification build),
                   rr_memberCount = length (pb_members build), rr_sourceProblems = []\<rparr>), clear_build s)
       else rbind (make_queue_state
              \<lparr>qs_sprint = st_sprint s, qs_revision = qs_revision current + 1, qs_serviceCondition = Valid_built,
               qs_sourceClassification = Some (pb_sourceClassification build),
               qs_sourceFingerprint = Some (pb_sourceFingerprint build), qs_members = pb_members build,
               qs_sourceProblems = [], qs_updatedAt = pb_builtAt build\<rparr>) (\<lambda>published.
            rbind (publish published s) (\<lambda>s'.
              Inr ((published, \<lparr>rr_outcome = Published, rr_revision = Some (qs_revision published),
                     rr_sourceFingerprint = Some (pb_sourceFingerprint build),
                     rr_sourceClassification = Some (pb_sourceClassification build),
                     rr_memberCount = length (pb_members build), rr_sourceProblems = []\<rparr>), clear_build s')))))"

definition publish_build ::
  "host \<Rightarrow> projection_build \<Rightarrow> source_identity result \<Rightarrow> (queue_store, queue_state \<times> rebuild_result) act" where
  "publish_build h build source =
     abind (awrite (\<lambda>s.
       if pb_sprint build \<noteq> st_sprint s then Inl (CloseoutQueueStoreError ''build belongs to another sprint'')
       else rbind (check_declared_writer h PROJECTION_OWNERSHIP) (\<lambda>_.
         if st_build_writable s then Inr ((), s\<lparr>st_build := Some build\<rparr>) else Inl (OSError ''replace'')))) (\<lambda>_.
     awrite (\<lambda>s. exclusive_access h PROJECTION_OWNERSHIP (st_path s) (\<lambda>_. publish_locked s build source)))"

section \<open>Refreshing a projection\<close>

text \<open>\<open>ProjectionSourceSnapshot\<close> with its \<open>build\<close>.\<close>

record source_snapshot =
  ss_identity :: source_identity
  ss_classification :: "source_classification option"
  ss_members :: "projection_member list"
  ss_captured_at :: string

definition snapshot_build :: "source_snapshot \<Rightarrow> task_document_ref \<Rightarrow> projection_build option result" where
  "snapshot_build snap sprint =
     (case (si_fingerprint (ss_identity snap), ss_classification snap) of
        (Some f, Some c) \<Rightarrow>
          if source_readable (ss_identity snap)
          then rbind (make_projection_build \<lparr>pb_sprint = sprint, pb_sourceFingerprint = f, pb_sourceClassification = c,
                        pb_members = ss_members snap, pb_builtAt = ss_captured_at snap\<rparr>) (\<lambda>b. Inr (Some b))
          else Inr None
      | _ \<Rightarrow> Inr None)"

record invalidation_receipt =
  rc_queue_existed :: bool
  rc_prior_revision :: "nat option"
  rc_prior_source_fingerprint :: "string option"
  rc_invalidation :: invalidation_result

record projection_effect =
  ef_sprint :: task_document_ref
  ef_queueExisted :: bool
  ef_priorRevision :: "nat option"
  ef_priorSourceFingerprint :: "string option"
  ef_invalidation :: invalidation_result
  ef_rebuild :: rebuild_result
  ef_rebuiltRevision :: "nat option"
  ef_nextAction :: "repair_action option"

definition incomplete_has_action :: "projection_effect \<Rightarrow> projection_effect result" where
  "incomplete_has_action ef =
     (if (rr_outcome (ef_rebuild ef) \<in> {Published, Already_current, Would_publish}) = (ef_nextAction ef \<noteq> None)
      then Inl (ValidationError ''TaskDocProjectionEffect'') else Inr ef)"

definition rebuild_effect ::
  "task_document_ref \<Rightarrow> invalidation_receipt \<Rightarrow> queue_state \<Rightarrow> rebuild_result \<Rightarrow> projection_effect result" where
  "rebuild_effect sprint receipt st rebuild =
     (let complete = rr_outcome rebuild \<in> {Published, Already_current} in
      incomplete_has_action
        \<lparr>ef_sprint = sprint, ef_queueExisted = rc_queue_existed receipt, ef_priorRevision = rc_prior_revision receipt,
         ef_priorSourceFingerprint = rc_prior_source_fingerprint receipt, ef_invalidation = rc_invalidation receipt,
         ef_rebuild = rebuild, ef_rebuiltRevision = (if complete then Some (qs_revision st) else None),
         ef_nextAction = (if complete then None else Some (Rebuild sprint))\<rparr>)"

text \<open>\<open>captured\<close> is the census the build is made from, \<open>at_publish\<close> the one under the lock.\<close>

definition rebuild_invalidated_closeout_projection ::
  "host \<Rightarrow> invalidation_receipt \<Rightarrow> string \<Rightarrow> source_snapshot \<Rightarrow> source_identity result
     \<Rightarrow> (queue_store, projection_effect) act" where
  "rebuild_invalidated_closeout_projection h receipt timestamp captured at_publish =
     abind (aread (\<lambda>s. rbind (snapshot_build captured (st_sprint s)) (\<lambda>b. Inr (st_sprint s, b)))) (\<lambda>(sprint, build).
     abind (case build of
         None \<Rightarrow> aread (\<lambda>s. rbind (read_raw s timestamp) (\<lambda>st.
            Inr (st, (no_rebuild Source_unreadable)\<lparr>rr_sourceProblems := si_problems (ss_identity captured)\<rparr>)))
       | Some b \<Rightarrow> publish_build h b at_publish) (\<lambda>(st, rebuild).
       aread (\<lambda>_. rebuild_effect sprint receipt st rebuild)))"

definition refresh_closeout_projection ::
  "host \<Rightarrow> string \<Rightarrow> source_snapshot \<Rightarrow> source_identity result \<Rightarrow> (queue_store, projection_effect) act" where
  "refresh_closeout_projection h timestamp captured at_publish =
     abind (aread (\<lambda>s. rbind (queue_exists s) (\<lambda>existed. rbind (read_raw s timestamp) (\<lambda>prior. Inr (existed, prior))))) (\<lambda>(existed, prior).
     abind (invalidate h timestamp) (\<lambda>(_, invalidation).
       rebuild_invalidated_closeout_projection h
         \<lparr>rc_queue_existed = existed, rc_prior_revision = (if existed then Some (qs_revision prior) else None),
          rc_prior_source_fingerprint = qs_sourceFingerprint prior, rc_invalidation = invalidation\<rparr>
         timestamp captured at_publish))"

text \<open>The invalidation a preview announces.\<close>

definition previewed_invalidation :: "bool \<Rightarrow> queue_state \<Rightarrow> invalidation_result" where
  "previewed_invalidation existed prior =
     (let malformed = find (\<lambda>p. sp_kind p = Problem_projection \<and> sp_state p = Problem_unreadable) (qs_sourceProblems prior);
          empty = (qs_serviceCondition prior = Invalid_empty) in
      \<lparr>ir_outcome = (if malformed \<noteq> None then Would_recover_malformed else if \<not> existed then Would_persist_empty
                     else if empty then Already_empty else Would_persist_empty),
       ir_revision = Some (if malformed \<noteq> None \<or> \<not> existed \<or> empty then qs_revision prior else qs_revision prior + 1),
       ir_diagnostic = malformed\<rparr>)"

definition preview_closeout_projection_effect ::
  "queue_store \<Rightarrow> string \<Rightarrow> source_snapshot \<Rightarrow> projection_effect result" where
  "preview_closeout_projection_effect s timestamp captured =
     rbind (queue_exists s) (\<lambda>existed.
     rbind (read_raw s timestamp) (\<lambda>prior.
     rbind (snapshot_build captured (st_sprint s)) (\<lambda>build.
       incomplete_has_action
         \<lparr>ef_sprint = st_sprint s, ef_queueExisted = existed,
          ef_priorRevision = (if existed then Some (qs_revision prior) else None),
          ef_priorSourceFingerprint = qs_sourceFingerprint prior,
          ef_invalidation = previewed_invalidation existed prior,
          ef_rebuild = (case build of
              Some b \<Rightarrow> (no_rebuild Would_publish)\<lparr>rr_sourceFingerprint := Some (pb_sourceFingerprint b),
                 rr_sourceClassification := Some (pb_sourceClassification b), rr_memberCount := length (pb_members b)\<rparr>
            | None \<Rightarrow> (no_rebuild Source_unreadable)\<lparr>rr_sourceProblems := si_problems (ss_identity captured)\<rparr>),
          ef_rebuiltRevision = (if build = None then None
            else Some (if \<not> existed \<or> qs_serviceCondition prior = Invalid_empty then qs_revision prior + 1
                       else qs_revision prior + 2)),
          ef_nextAction = (if build = None then Some (Rebuild (st_sprint s)) else None)\<rparr>)))"

text \<open>The effect reported when a refresh raised: \<open>error_type\<close> is the class of what it raised.\<close>

definition projection_refresh_failure_effect :: "queue_store \<Rightarrow> string \<Rightarrow> string \<Rightarrow> projection_effect result" where
  "projection_refresh_failure_effect s error_type timestamp =
     rbind (queue_exists s) (\<lambda>existed.
     rbind (make_problem Problem_projection (CHR ''/'' # join_with (CHR ''/'') (st_path s)) Problem_unreadable error_type
              (Rebuild (st_sprint s))) (\<lambda>problem.
       (let prior = (case read_raw s timestamp of
              Inl _ \<Rightarrow> (None, None)
            | Inr prior \<Rightarrow> (if existed then Some (qs_revision prior) else None, qs_sourceFingerprint prior)) in
        incomplete_has_action
         \<lparr>ef_sprint = st_sprint s, ef_queueExisted = existed, ef_priorRevision = fst prior,
          ef_priorSourceFingerprint = snd prior,
          ef_invalidation = \<lparr>ir_outcome = Invalidation_failed, ir_revision = None, ir_diagnostic = Some problem\<rparr>,
          ef_rebuild = (no_rebuild Not_attempted)\<lparr>rr_sourceProblems := [problem]\<rparr>,
          ef_rebuiltRevision = None, ef_nextAction = Some (Rebuild (st_sprint s))\<rparr>)))"

section \<open>Reading back what was written\<close>

definition path_text_ok :: "queue_store \<Rightarrow> bool" where
  "path_text_ok s \<longleftrightarrow> text_within MAX_CLOSEOUT_TEXT (CHR ''/'' # join_with (CHR ''/'') (st_path s))"

lemma short_texts [simp]:
  "text_within MAX_CLOSEOUT_SHORT_TEXT ''CloseoutQueueStoreError''"
  "text_within MAX_CLOSEOUT_SHORT_TEXT ''source-problem-cap-exceeded''"
  "text_within MAX_CLOSEOUT_SHORT_TEXT ''source-fingerprint-mismatch''"
  by (simp_all add: text_within_def MAX_CLOSEOUT_SHORT_TEXT_def)

lemma make_queue_state_Inr:
  "make_queue_state st = Inr st' \<longleftrightarrow> st' = st \<and> (case qs_sourceFingerprint st of None \<Rightarrow> True | Some f \<Rightarrow> is_hex 64 64 f)
     \<and> length (qs_sourceProblems st) \<le> MAX_CLOSEOUT_SOURCE_PROBLEMS
     \<and> text_within MAX_CLOSEOUT_SHORT_TEXT (qs_updatedAt st) \<and> condition_is_exact st"
  by (auto simp: make_queue_state_def)

lemma empty_state_Inr:
  "empty_state s n ps ts = Inr st \<longleftrightarrow> length ps \<le> MAX_CLOSEOUT_SOURCE_PROBLEMS \<and> text_within MAX_CLOSEOUT_SHORT_TEXT ts
     \<and> st = \<lparr>qs_sprint = st_sprint s, qs_revision = n, qs_serviceCondition = Invalid_empty,
          qs_sourceClassification = None, qs_sourceFingerprint = None, qs_members = [], qs_sourceProblems = ps,
          qs_updatedAt = ts\<rparr>"
  by (auto simp: empty_state_def make_queue_state_Inr condition_is_exact_def)

lemma traverse_fixed: "list_all (\<lambda>x. f x = Inr x) xs \<Longrightarrow> traverse f xs = Inr xs"
  by (induction xs) auto

lemma validate_queue_state_fixed:
  "list_all (\<lambda>m. validate_member m = Inr m) (qs_members st) \<Longrightarrow> make_queue_state st = Inr st \<Longrightarrow> validate_queue_state st = Inr st"
  by (simp add: validate_queue_state_def traverse_fixed)

text \<open>The file holds nothing, or a state of this sprint that validates to itself.\<close>

definition queue_wf :: "queue_store \<Rightarrow> bool" where
  "queue_wf s \<longleftrightarrow> (case st_file s of No_file \<Rightarrow> True
     | Text (Some st) \<Rightarrow> validate_queue_state st = Inr st \<and> qs_sprint st = st_sprint s
     | _ \<Rightarrow> False)"

definition stored_revision :: "queue_store \<Rightarrow> nat" where
  "stored_revision s = (case st_file s of Text (Some st) \<Rightarrow> qs_revision st | _ \<Rightarrow> 0)"

definition stored_content ::
  "queue_store \<Rightarrow> service_condition \<times> source_classification option \<times> string option \<times> projection_member list" where
  "stored_content s = (case st_file s of
       Text (Some st) \<Rightarrow> (qs_serviceCondition st, qs_sourceClassification st, qs_sourceFingerprint st, qs_members st)
     | _ \<Rightarrow> (Invalid_empty, None, None, []))"

definition content_of ::
  "queue_state \<Rightarrow> service_condition \<times> source_classification option \<times> string option \<times> projection_member list" where
  "content_of st = (qs_serviceCondition st, qs_sourceClassification st, qs_sourceFingerprint st, qs_members st)"

lemma read_state_wf:
  assumes "queue_wf s" "read_state s ts = Inr st"
  shows "qs_revision st = stored_revision s" "content_of st = stored_content s" "qs_sprint st = st_sprint s"
    "st_file s \<noteq> No_file \<Longrightarrow> st_file s = Text (Some st)"
  using assms
  by (auto simp: queue_wf_def read_state_def empty_state_Inr stored_revision_def stored_content_def content_of_def
      split: queue_file.splits option.splits if_splits)

lemma clear_build_simps [simp]:
  "st_file (clear_build s) = st_file s" "st_sprint (clear_build s) = st_sprint s" "st_path (clear_build s) = st_path s"
  "st_file_writable (clear_build s) = st_file_writable s" "st_build_writable (clear_build s) = st_build_writable s"
  by (simp_all add: clear_build_def)

lemma publish_Inr: "publish st s = Inr s' \<longleftrightarrow> st_file_writable s \<and> s' = s\<lparr>st_file := Text (Some st)\<rparr>"
  by (auto simp: publish_def)

section \<open>Revisions\<close>

datatype queue_event = Invalidated string | Built projection_build

inductive queue_step :: "queue_store \<Rightarrow> queue_event \<Rightarrow> queue_store \<Rightarrow> bool" where
  step_invalidate: "invalidate h ts s = (r, s') \<Longrightarrow> queue_step s (Invalidated ts) s'"
| step_publish: "publish_build h b src s = (r, s') \<Longrightarrow> queue_step s (Built b) s'"

inductive_cases queue_stepE: "queue_step s e s'"

text \<open>The members of a build are validated models.\<close>

fun built_from_models :: "queue_event \<Rightarrow> bool" where
  "built_from_models (Invalidated _) = True"
| "built_from_models (Built b) = list_all (\<lambda>m. validate_member m = Inr m) (pb_members b)"

locale versioned = preserved step admitted inv
  for step :: "'s \<Rightarrow> 'e \<Rightarrow> 's \<Rightarrow> bool" and admitted and inv +
  fixes rev_of :: "'s \<Rightarrow> nat" and content :: "'s \<Rightarrow> 'c"
  assumes step_versioned: "step s e s' \<Longrightarrow> admitted e \<Longrightarrow> inv s \<Longrightarrow>
    rev_of s \<le> rev_of s' \<and> (rev_of s' = rev_of s \<longrightarrow> content s' = content s)"
begin

lemma run_versioned:
  assumes "run step s es s'" "\<And>e. e \<in> set es \<Longrightarrow> admitted e" "inv s"
  shows "rev_of s \<le> rev_of s' \<and> (rev_of s' = rev_of s \<longrightarrow> content s' = content s)"
  using assms
proof (induction rule: run.induct)
  case (run_cons s e s' es s'')
  have "rev_of s \<le> rev_of s' \<and> (rev_of s' = rev_of s \<longrightarrow> content s' = content s)" "inv s'"
    using step_versioned step_inv run_cons by auto
  with run_cons show ?case by fastforce
qed simp

end

text \<open>One step rewrites the file with a higher revision, with the content it had, or not at all.\<close>

definition revised :: "queue_store \<Rightarrow> queue_store \<Rightarrow> bool" where
  "revised s s' \<longleftrightarrow> st_sprint s' = st_sprint s \<and> (st_file s' = st_file s \<or>
     (\<exists>st. st_file s' = Text (Some st) \<and> validate_queue_state st = Inr st \<and> qs_sprint st = st_sprint s
       \<and> (stored_revision s < qs_revision st \<or> qs_revision st = stored_revision s \<and> content_of st = stored_content s)))"

lemma revisedD:
  assumes "revised s s'" "queue_wf s"
  shows "queue_wf s'" "stored_revision s \<le> stored_revision s'"
    "stored_revision s' = stored_revision s \<Longrightarrow> stored_content s' = stored_content s"
  using assms
  by (auto simp: revised_def queue_wf_def stored_revision_def stored_content_def content_of_def split: queue_file.splits option.splits)

lemma queue_wf_cases:
  assumes "queue_wf s"
  obtains "st_file s = No_file" | st where "st_file s = Text (Some st)" "validate_queue_state st = Inr st" "qs_sprint st = st_sprint s"
  using assms by (auto simp: queue_wf_def split: queue_file.splits option.splits)

lemma empty_state_validates: "empty_state s n ps ts = Inr st \<Longrightarrow> validate_queue_state st = Inr st"
  by (auto simp: empty_state_Inr validate_queue_state_def make_queue_state_Inr condition_is_exact_def)

lemma empty_state_cases:
  "(\<exists>st. empty_state s n ps ts = Inr st) \<or> (\<exists>m. empty_state s n ps ts = Inl (ValidationError m))"
  by (simp add: empty_state_def make_queue_state_def)

lemma read_for_invalidation_wf:
  assumes "queue_wf s" "read_for_invalidation s ts = Inr (current, existed, malformed)"
  shows "malformed = None" "existed \<longleftrightarrow> st_file s \<noteq> No_file" "read_state s ts = Inr current"
    "validate_queue_state current = Inr current"
  using assms(1)
  by (cases rule: queue_wf_cases; use assms(2) empty_state_cases [of s 0 "[]" ts] empty_state_validates in
      \<open>auto simp: read_for_invalidation_def on_store_error_def queue_exists_def read_state_def\<close>)+

lemma invalidate_locked_revised:
  assumes "invalidate_locked s ts = Inr (x, s')" "queue_wf s"
  shows "revised s s'"
proof -
  obtain current existed malformed where rd: "read_for_invalidation s ts = Inr (current, existed, malformed)"
    using assms(1) by (auto simp: invalidate_locked_def rbind_eq_Inr_iff)
  note wf = read_for_invalidation_wf [OF assms(2) rd]
  note st = read_state_wf [OF assms(2) wf(3)]
  consider "\<not> existed" "s' = clear_build (s\<lparr>st_file := Text (Some current)\<rparr>)"
    | "s' = clear_build s"
    | invalid where "empty_state s (qs_revision current + 1) [] ts = Inr invalid"
        "s' = clear_build (s\<lparr>st_file := Text (Some invalid)\<rparr>)"
    using assms(1) rd wf(1) by (auto simp: invalidate_locked_def rbind_eq_Inr_iff publish_Inr split: if_splits)
  then show ?thesis
  proof cases
    case 1
    then show ?thesis using st wf by (simp add: revised_def)
  next
    case 2
    then show ?thesis by (simp add: revised_def)
  next
    case 3
    then show ?thesis using st empty_state_validates [OF 3(1)] by (simp add: revised_def empty_state_Inr)
  qed
qed

lemma publish_locked_revised:
  assumes "publish_locked s b src = Inr (x, s')" "queue_wf s" "built_from_models (Built b)"
  shows "revised s s'"
proof -
  obtain current where st: "read_state s (pb_builtAt b) = Inr current"
    using assms(1) by (auto simp: publish_locked_def rbind_eq_Inr_iff)
  show ?thesis
    using assms(1,3) st read_state_wf(1) [OF assms(2) st]
    by (auto simp: publish_locked_def revised_def rbind_eq_Inr_iff publish_Inr make_queue_state_Inr
        intro!: validate_queue_state_fixed split: if_splits)
qed

lemma awrite_cases: "awrite f w = (r, w') \<Longrightarrow> w' = w \<or> (\<exists>x. f w = Inr (x, w'))"
  by (auto simp: awrite_def split: sum.splits prod.splits)

lemma build_irrelevant [simp]:
  "queue_wf (s\<lparr>st_build := b\<rparr>) = queue_wf s" "revised (s\<lparr>st_build := b\<rparr>) s' = revised s s'"
  by (auto simp: queue_wf_def revised_def stored_revision_def stored_content_def split: queue_file.splits option.splits)

lemma revised_refl [simp]: "revised s s" "revised s (s\<lparr>st_build := b\<rparr>)"
  by (simp_all add: revised_def)

lemma invalidate_revised: "invalidate h ts s = (r, s') \<Longrightarrow> queue_wf s \<Longrightarrow> revised s s'"
  by (auto simp: invalidate_def rbind_eq_Inr_iff exclusive_access_Inr intro: invalidate_locked_revised dest!: awrite_cases)

lemma publish_build_revised:
  assumes "publish_build h b src s = (r, s')" "queue_wf s" "built_from_models (Built b)"
  shows "revised s s'"
proof -
  consider "s' = s"
    | "awrite (\<lambda>s. exclusive_access h PROJECTION_OWNERSHIP (st_path s) (\<lambda>_. publish_locked s b src)) (s\<lparr>st_build := Some b\<rparr>) = (r, s')"
    using assms(1)
    by (auto simp: publish_build_def abind_def awrite_def rbind_eq_Inr_iff split: sum.splits prod.splits if_splits)
  then show ?thesis
  proof cases
    case 2
    then have "s' = s\<lparr>st_build := Some b\<rparr> \<or> (\<exists>x. publish_locked (s\<lparr>st_build := Some b\<rparr>) b src = Inr (x, s'))"
      by (auto simp: exclusive_access_Inr dest!: awrite_cases)
    then show ?thesis using publish_locked_revised [of "s\<lparr>st_build := Some b\<rparr>" b src _ s'] assms(2,3) by auto
  qed simp
qed

lemma queue_step_revised: "queue_step s e s' \<Longrightarrow> built_from_models e \<Longrightarrow> queue_wf s \<Longrightarrow> revised s s'"
  by (auto elim!: queue_stepE intro: invalidate_revised publish_build_revised)

interpretation queue: versioned queue_step built_from_models queue_wf stored_revision stored_content
  by unfold_locales (auto dest!: queue_step_revised dest: revisedD)

section \<open>Properties\<close>

text \<open>C17. A revision names one projection: from a well-formed file, under every sequence of
  invalidations and builds by any processes, refused and failing ones included, the file stays
  well-formed, its revision never decreases, and while the revision is the same the condition, the
  source identity and the members are the same.\<close>

theorem revision_identifies_projection:
  assumes "run queue_step s es s'" "queue_wf s" "\<And>e. e \<in> set es \<Longrightarrow> built_from_models e"
  shows "queue_wf s' \<and> stored_revision s \<le> stored_revision s'
    \<and> (stored_revision s' = stored_revision s \<longrightarrow> stored_content s' = stored_content s)"
  using queue.run_inv [OF assms(1)] queue.run_versioned [OF assms(1)] assms(2,3) by blast

section \<open>What a reader may act on\<close>

lemma unique_problems_spec:
  "set (unique_problems seen ps) = set ps - set seen" "distinct (unique_problems seen ps)"
  by (induction ps arbitrary: seen) auto

lemma bounded_problems_total:
  assumes "path_text_ok s"
  shows "\<exists>ps'. bounded_problems s ps = Inr ps' \<and> length ps' \<le> MAX_CLOSEOUT_SOURCE_PROBLEMS \<and> (ps' = [] \<longleftrightarrow> ps = [])"
proof -
  have "unique_problems [] ps = [] \<longleftrightarrow> ps = []" using unique_problems_spec(1) [of "[]" ps] by (metis Diff_empty set_empty)
  then show ?thesis
    using assms by (auto simp: bounded_problems_def Let_def make_problem_def path_text_ok_def MAX_CLOSEOUT_SOURCE_PROBLEMS_def)
qed

lemma read_raw_total:
  assumes "path_text_ok s" "text_within MAX_CLOSEOUT_SHORT_TEXT ts"
  shows "\<exists>raw. read_raw s ts = Inr raw \<and> qs_sprint raw = st_sprint s \<and> condition_is_exact raw
    \<and> (read_state s ts = Inr raw \<or> qs_serviceCondition raw = Invalid_empty)"
proof (cases "read_state s ts")
  case (Inr raw)
  then have "qs_sprint raw = st_sprint s" "condition_is_exact raw"
    by (auto simp: read_state_def empty_state_Inr validate_queue_state_def make_queue_state_Inr rbind_eq_Inr_iff condition_is_exact_def
        split: queue_file.splits option.splits sum.splits if_splits)
  then show ?thesis using Inr by (simp add: read_raw_def on_store_error_def)
next
  case (Inl e)
  have "\<exists>m. e = CloseoutQueueStoreError m"
    using Inl assms(2) by (auto simp: read_state_def empty_state_def make_queue_state_def condition_is_exact_def
        split: queue_file.splits option.splits sum.splits if_splits)
  moreover obtain p where p: "artifact_problem s = Inr p"
    using assms(1) by (auto simp: artifact_problem_def make_problem_def path_text_ok_def)
  ultimately have "read_raw s ts = empty_state s 0 [p] ts" using Inl by (auto simp: read_raw_def on_store_error_def)
  moreover have "\<exists>st. empty_state s 0 [p] ts = Inr st"
    using assms(2) by (simp add: empty_state_Inr MAX_CLOSEOUT_SOURCE_PROBLEMS_def)
  ultimately show ?thesis by (auto simp: empty_state_Inr condition_is_exact_def)
qed

text \<open>C16. A reader sees members only when they are current. Reading the projection against a captured
  source always returns, whatever is at the path of the file; the result is valid exactly when the
  stored state names this source, it then is the stored state, and in every other case (a missing,
  damaged, foreign or outdated file, or an unreadable source) the result has no members.\<close>

theorem effective_members_are_current:
  assumes "path_text_ok s" "text_within MAX_CLOSEOUT_SHORT_TEXT ts" "text_within MAX_CLOSEOUT_TEXT (ref_key (st_sprint s))"
  shows "\<exists>st. read_effective s ts src = Inr st \<and> qs_sprint st = st_sprint s \<and> condition_is_exact st
    \<and> (qs_serviceCondition st = Valid_built \<longleftrightarrow> (\<exists>raw. read_state s ts = Inr raw \<and> source_matches raw src))
    \<and> (qs_serviceCondition st = Valid_built \<longrightarrow> read_state s ts = Inr st \<and> source_matches st src)
    \<and> (qs_members st \<noteq> [] \<longrightarrow> source_readable src \<and> qs_members st = si_members src
         \<and> qs_sourceFingerprint st = si_fingerprint src)"
proof -
  obtain raw where raw: "read_raw s ts = Inr raw" "qs_sprint raw = st_sprint s" "condition_is_exact raw"
    and src: "read_state s ts = Inr raw \<or> qs_serviceCondition raw = Invalid_empty"
    using read_raw_total [OF assms(1,2)] by blast
  have stored: "read_state s ts = Inr r \<Longrightarrow> r = raw" for r using raw(1) by (simp add: read_raw_def on_store_error_def)
  show ?thesis
  proof (cases "source_matches raw src")
    case True
    then have "read_effective s ts src = Inr raw" using raw(1) by (simp add: read_effective_def)
    then show ?thesis using True raw src stored by (auto simp: source_matches_def)
  next
    case False
    obtain ps where ps: "bounded_problems s (qs_sourceProblems raw @ si_problems src) = Inr ps" "length ps \<le> MAX_CLOSEOUT_SOURCE_PROBLEMS"
      using bounded_problems_total [OF assms(1)] by blast
    have "\<exists>ps'. length ps' \<le> MAX_CLOSEOUT_SOURCE_PROBLEMS \<and> read_effective s ts src = empty_state s (qs_revision raw) ps' ts"
    proof (cases "ps = [] \<and> qs_serviceCondition raw = Valid_built")
      case True
      obtain p where "make_problem Problem_task (ref_key (st_sprint s)) Problem_invalid ''source-fingerprint-mismatch''
          (Rebuild (st_sprint s)) = Inr p"
        using assms(3) by (simp add: make_problem_def)
      then show ?thesis using \<open>\<not> source_matches raw src\<close> raw(1) ps(1) True
        by (intro exI [of _ "[p]"]) (simp add: read_effective_def MAX_CLOSEOUT_SOURCE_PROBLEMS_def)
    next
      case False
      then show ?thesis using \<open>\<not> source_matches raw src\<close> raw(1) ps by (auto simp: read_effective_def)
    qed
    then obtain st where "read_effective s ts src = Inr st" "qs_serviceCondition st = Invalid_empty" "qs_members st = []"
      "qs_sprint st = st_sprint s" "condition_is_exact st"
      using assms(2) by (auto simp: empty_state_Inr condition_is_exact_def)
    then show ?thesis using False stored by auto
  qed
qed

section \<open>A preview and the refresh it announces\<close>

fun performed_outcome :: "invalidation_outcome \<Rightarrow> invalidation_outcome" where
  "performed_outcome Would_recover_malformed = Recovered_malformed"
| "performed_outcome Would_persist_empty = Persisted_empty"
| "performed_outcome x = x"

definition performed :: "projection_effect \<Rightarrow> projection_effect" where
  "performed ef = ef\<lparr>ef_invalidation := (ef_invalidation ef)\<lparr>ir_outcome := performed_outcome (ir_outcome (ef_invalidation ef))\<rparr>,
     ef_rebuild := (ef_rebuild ef)\<lparr>rr_outcome := Published, rr_revision := ef_rebuiltRevision ef\<rparr>\<rparr>"

text \<open>The process may write, the lock excludes and both files can be replaced.\<close>

definition admits :: "host \<Rightarrow> queue_store \<Rightarrow> bool" where
  "admits h s \<longleftrightarrow> check_declared_writer h PROJECTION_OWNERSHIP = Inr () \<and> lockable h (st_path s)
     \<and> st_file_writable s \<and> st_build_writable s"

text \<open>A capture names its members and classification twice, and its members are validated models,
  each generation and each task once.\<close>

definition coherent_capture :: "source_snapshot \<Rightarrow> bool" where
  "coherent_capture snap \<longleftrightarrow> si_classification (ss_identity snap) = ss_classification snap
     \<and> si_members (ss_identity snap) = ss_members snap \<and> list_all (\<lambda>m. validate_member m = Inr m) (ss_members snap)
     \<and> distinct (map pm_generationId (ss_members snap)) \<and> distinct (map (ref_key \<circ> pm_taskDocumentRef) (ss_members snap))"

lemma read_state_file: "st_file s' = st_file s \<Longrightarrow> st_sprint s' = st_sprint s \<Longrightarrow> st_file s \<noteq> No_file \<Longrightarrow>
  read_state s' ts' = read_state s ts"
  by (cases "st_file s") (simp_all add: read_state_def split: option.split sum.split)

lemma read_state_build [simp]: "read_state (s\<lparr>st_build := b\<rparr>) ts = read_state s ts"
  by (cases "st_file s") (simp_all add: read_state_def empty_state_def split: option.split sum.split)

lemma read_state_empty:
  "empty_state s n ps ts = Inr st \<Longrightarrow> st_file s' = Text (Some st) \<Longrightarrow> st_sprint s' = st_sprint s \<Longrightarrow> read_state s' ts' = Inr st"
  using empty_state_validates [of s n ps ts st] by (auto simp: read_state_def empty_state_Inr)

lemma invalidate_admitted:
  "admits h s \<Longrightarrow> invalidate_locked s ts = Inr (x, s1) \<Longrightarrow> invalidate h ts s = (Inr x, s1)"
  by (simp add: invalidate_def awrite_def admits_def exclusive_access_lockable)

lemma admits_rewritten [simp]: "admits h (clear_build s) = admits h s" "admits h (s\<lparr>st_file := f\<rparr>) = admits h s"
  by (simp_all add: admits_def)

lemma published_empty:
  assumes "empty_state s n [] ts = Inr cleared" "s1 = clear_build (s\<lparr>st_file := Text (Some cleared)\<rparr>)"
  shows "read_state s1 ts' = Inr cleared" "qs_serviceCondition cleared = Invalid_empty" "st_sprint s1 = st_sprint s"
    "admits h s1 = admits h s" "qs_revision cleared = n"
  using assms read_state_empty [OF assms(1), of s1 ts'] by (auto simp: empty_state_Inr)

lemma read_state_error:
  assumes "read_state s ts = Inl e" "text_within MAX_CLOSEOUT_SHORT_TEXT ts"
  shows "(\<exists>m. e = CloseoutQueueStoreError m) \<and> st_file s \<noteq> No_file"
  using assms by (auto simp: read_state_def empty_state_def make_queue_state_def condition_is_exact_def
      split: queue_file.splits option.splits sum.splits if_splits)

lemma invalidate_as_previewed:
  assumes "admits h s" "path_text_ok s" "text_within MAX_CLOSEOUT_SHORT_TEXT ts" "queue_exists s = Inr existed"
    and "read_raw s ts = Inr prior" "\<And>st. read_state s ts = Inr st \<Longrightarrow> qs_sourceProblems st = []"
  shows "\<exists>cleared s1. invalidate h ts s = (Inr (cleared, (previewed_invalidation existed prior)
        \<lparr>ir_outcome := performed_outcome (ir_outcome (previewed_invalidation existed prior))\<rparr>), s1)
    \<and> read_state s1 ts' = Inr cleared \<and> qs_serviceCondition cleared = Invalid_empty \<and> st_sprint s1 = st_sprint s
    \<and> admits h s1
    \<and> qs_revision cleared + 1 = (if \<not> existed \<or> qs_serviceCondition prior = Invalid_empty then qs_revision prior + 1 else qs_revision prior + 2)"
proof (cases "read_state s ts")
  case (Inl e)
  obtain p where p: "artifact_problem s = Inr p" and pk: "sp_kind p = Problem_projection" "sp_state p = Problem_unreadable"
    using assms(2) by (auto simp: artifact_problem_def make_problem_def path_text_ok_def)
  obtain m where m: "e = CloseoutQueueStoreError m" and f: "st_file s \<noteq> No_file" using read_state_error [OF Inl assms(3)] by auto
  obtain bad where bad: "empty_state s 0 [p] ts = Inr bad"
    using assms(3) by (simp add: empty_state_Inr MAX_CLOSEOUT_SOURCE_PROBLEMS_def)
  have prior: "prior = bad" using assms(5) Inl m p bad by (simp add: read_raw_def on_store_error_def)
  have ok: "empty_state s 0 [] ts = Inr (bad\<lparr>qs_sourceProblems := []\<rparr>)" using bad by (simp add: empty_state_Inr)
  have "read_for_invalidation s ts = Inr (bad, True, Some p)"
    using assms(4) Inl m p bad by (simp add: read_for_invalidation_def on_store_error_def)
  then have "invalidate_locked s ts = Inr ((bad\<lparr>qs_sourceProblems := []\<rparr>, \<lparr>ir_outcome = Recovered_malformed,
      ir_revision = Some 0, ir_diagnostic = Some p\<rparr>), clear_build (s\<lparr>st_file := Text (Some (bad\<lparr>qs_sourceProblems := []\<rparr>))\<rparr>))"
    using assms(1) bad by (simp add: invalidate_locked_def publish_def admits_def empty_state_Inr Let_def)
  moreover have "previewed_invalidation existed prior = \<lparr>ir_outcome = Would_recover_malformed, ir_revision = Some 0, ir_diagnostic = Some p\<rparr>"
    using bad pk by (simp add: prior previewed_invalidation_def empty_state_Inr)
  ultimately show ?thesis
    using published_empty [OF ok refl] assms(1) bad by (auto simp: prior empty_state_Inr dest!: invalidate_admitted [OF assms(1)])
next
  case (Inr st)
  have prior: "prior = st" using assms(5) Inr by (simp add: read_raw_def on_store_error_def)
  have np: "qs_sourceProblems st = []" using assms(6) Inr by blast
  have rd: "read_for_invalidation s ts = Inr (st, existed, None)"
    using assms(4) Inr by (simp add: read_for_invalidation_def on_store_error_def)
  consider "\<not> existed" "empty_state s 0 [] ts = Inr st" | "existed" "st_file s \<noteq> No_file" "qs_serviceCondition st = Invalid_empty"
    | cleared where "existed" "qs_serviceCondition st \<noteq> Invalid_empty" "empty_state s (qs_revision st + 1) [] ts = Inr cleared"
    using assms(3,4) Inr by (cases "st_file s"; cases "qs_serviceCondition st") (auto simp: queue_exists_def read_state_def empty_state_Inr)
  then show ?thesis
  proof cases
    case 1
    have "invalidate_locked s ts = Inr ((st, \<lparr>ir_outcome = Persisted_empty, ir_revision = Some 0, ir_diagnostic = None\<rparr>),
        clear_build (s\<lparr>st_file := Text (Some st)\<rparr>))"
      using 1 rd assms(1) by (simp add: invalidate_locked_def publish_def admits_def empty_state_Inr)
    then show ?thesis using published_empty [OF 1(2) refl] assms(1) 1 np
      by (auto simp: prior previewed_invalidation_def dest!: invalidate_admitted [OF assms(1)])
  next
    case 2
    have "invalidate_locked s ts = Inr ((st, \<lparr>ir_outcome = Already_empty, ir_revision = Some (qs_revision st), ir_diagnostic = None\<rparr>),
        clear_build s)"
      using 2 rd by (simp add: invalidate_locked_def)
    then show ?thesis using read_state_file [of "clear_build s" s ts' ts] assms(1) 2 np Inr
      by (auto simp: prior previewed_invalidation_def dest!: invalidate_admitted [OF assms(1)])
  next
    case 3
    have "invalidate_locked s ts = Inr ((cleared, \<lparr>ir_outcome = Persisted_empty, ir_revision = Some (qs_revision st + 1), ir_diagnostic = None\<rparr>),
        clear_build (s\<lparr>st_file := Text (Some cleared)\<rparr>))"
      using 3 rd assms(1) published_empty(5) [OF 3(3) refl] by (simp add: invalidate_locked_def publish_def admits_def)
    then show ?thesis using published_empty [OF 3(3) refl] assms(1) 3 np
      by (auto simp: prior previewed_invalidation_def dest!: invalidate_admitted [OF assms(1)])
  qed
qed

lemma snapshot_build_Some:
  "snapshot_build snap sprint = Inr (Some b) \<longleftrightarrow> source_readable (ss_identity snap)
     \<and> si_fingerprint (ss_identity snap) = Some (pb_sourceFingerprint b) \<and> ss_classification snap = Some (pb_sourceClassification b)
     \<and> pb_sprint b = sprint \<and> pb_members b = ss_members snap \<and> pb_builtAt b = ss_captured_at snap
     \<and> is_hex 64 64 (pb_sourceFingerprint b) \<and> text_within MAX_CLOSEOUT_SHORT_TEXT (pb_builtAt b)
     \<and> (pb_sourceClassification b = Source_terminal \<longrightarrow> pb_members b = [])"
  by (cases b) (auto simp: snapshot_build_def make_projection_build_def MAX_CLOSEOUT_SHORT_TEXT_def split: option.splits)

lemma publish_build_current:
  assumes "snapshot_build snap (st_sprint s) = Inr (Some b)" "coherent_capture snap" "admits h s"
    and "read_state s (pb_builtAt b) = Inr cleared" "qs_serviceCondition cleared = Invalid_empty"
  shows "\<exists>st s'. publish_build h b (Inr (ss_identity snap)) s = (Inr (st,
      \<lparr>rr_outcome = Published, rr_revision = Some (qs_revision cleared + 1), rr_sourceFingerprint = Some (pb_sourceFingerprint b),
       rr_sourceClassification = Some (pb_sourceClassification b), rr_memberCount = length (pb_members b), rr_sourceProblems = []\<rparr>), s')
    \<and> qs_revision st = qs_revision cleared + 1
    \<and> (\<forall>ts. read_state s' ts = Inr st) \<and> source_matches st (ss_identity snap) \<and> qs_members st = ss_members snap"
proof -
  define st where "st = \<lparr>qs_sprint = st_sprint s, qs_revision = qs_revision cleared + 1, qs_serviceCondition = Valid_built,
    qs_sourceClassification = Some (pb_sourceClassification b), qs_sourceFingerprint = Some (pb_sourceFingerprint b),
    qs_members = pb_members b, qs_sourceProblems = [], qs_updatedAt = pb_builtAt b\<rparr>"
  let ?s1 = "s\<lparr>st_build := Some b\<rparr>"
  have snap: "source_readable (ss_identity snap)" "si_fingerprint (ss_identity snap) = Some (pb_sourceFingerprint b)"
    "si_classification (ss_identity snap) = Some (pb_sourceClassification b)" "si_members (ss_identity snap) = pb_members b"
    "pb_sprint b = st_sprint s" "pb_members b = ss_members snap"
    using assms(1,2) by (auto simp: snapshot_build_Some coherent_capture_def)
  have ok: "make_queue_state st = Inr st"
    using assms(1,2) by (auto simp: st_def make_queue_state_Inr condition_is_exact_def snapshot_build_Some coherent_capture_def)
  have val: "validate_queue_state st = Inr st"
    using assms(2) snap(6) by (intro validate_queue_state_fixed ok) (simp add: st_def coherent_capture_def)
  have rd: "read_state ?s1 (pb_builtAt b) = Inr cleared"
    using assms(4) by simp
  have "publish_locked ?s1 b (Inr (ss_identity snap)) = Inr ((st,
      \<lparr>rr_outcome = Published, rr_revision = Some (qs_revision cleared + 1), rr_sourceFingerprint = Some (pb_sourceFingerprint b),
       rr_sourceClassification = Some (pb_sourceClassification b), rr_memberCount = length (pb_members b), rr_sourceProblems = []\<rparr>),
      clear_build (?s1\<lparr>st_file := Text (Some st)\<rparr>))"
    using rd snap assms(3,5) ok by (simp add: publish_locked_def source_matches_def st_def publish_def admits_def)
  then have "publish_build h b (Inr (ss_identity snap)) s = (Inr (st,
      \<lparr>rr_outcome = Published, rr_revision = Some (qs_revision cleared + 1), rr_sourceFingerprint = Some (pb_sourceFingerprint b),
       rr_sourceClassification = Some (pb_sourceClassification b), rr_memberCount = length (pb_members b), rr_sourceProblems = []\<rparr>),
      clear_build (?s1\<lparr>st_file := Text (Some st)\<rparr>))"
    using assms(3) snap(5) by (simp add: publish_build_def abind_def awrite_def admits_def exclusive_access_lockable)
  moreover have "read_state (clear_build (?s1\<lparr>st_file := Text (Some st)\<rparr>)) ts = Inr st" for ts
    using val by (simp add: read_state_def st_def)
  ultimately show ?thesis using snap by (auto simp: st_def source_matches_def)
qed

text \<open>C15. A preview tells the truth: when the captured source is readable and unchanged at the moment
  of publication and the process may write, the refresh reports exactly the previewed effect with
  every announced action performed, down to both revisions, whether the file was missing, empty,
  valid or damaged; and from then on readers of that source see exactly the captured members.\<close>

theorem preview_predicts_refresh:
  assumes "snapshot_build snap (st_sprint s) = Inr (Some b)" "coherent_capture snap" "admits h s" "path_text_ok s"
    and "text_within MAX_CLOSEOUT_SHORT_TEXT ts" "st_file s \<noteq> Uninspectable"
    and "\<And>st. read_state s ts = Inr st \<Longrightarrow> qs_sourceProblems st = []"
  shows "\<exists>ef s'. preview_closeout_projection_effect s ts snap = Inr ef
    \<and> refresh_closeout_projection h ts snap (Inr (ss_identity snap)) s = (Inr (performed ef), s')
    \<and> (\<forall>ts'. \<exists>st. read_effective s' ts' (ss_identity snap) = Inr st \<and> qs_members st = ss_members snap)"
proof -
  obtain existed where ex: "queue_exists s = Inr existed" using assms(6) by (cases "st_file s") (auto simp: queue_exists_def)
  obtain prior where prior: "read_raw s ts = Inr prior" using read_raw_total [OF assms(4,5)] by blast
  let ?pv = "previewed_invalidation existed prior"
  obtain cleared s1 where inval: "invalidate h ts s = (Inr (cleared, ?pv\<lparr>ir_outcome := performed_outcome (ir_outcome ?pv)\<rparr>), s1)"
    and rd: "read_state s1 (pb_builtAt b) = Inr cleared" "qs_serviceCondition cleared = Invalid_empty"
    and s1: "st_sprint s1 = st_sprint s" "admits h s1"
    and rev: "qs_revision cleared + 1 = (if \<not> existed \<or> qs_serviceCondition prior = Invalid_empty then qs_revision prior + 1
        else qs_revision prior + 2)"
    using invalidate_as_previewed [OF assms(3-5) ex prior assms(7)] by blast
  obtain st s' where pub: "publish_build h b (Inr (ss_identity snap)) s1 = (Inr (st,
      \<lparr>rr_outcome = Published, rr_revision = Some (qs_revision cleared + 1), rr_sourceFingerprint = Some (pb_sourceFingerprint b),
       rr_sourceClassification = Some (pb_sourceClassification b), rr_memberCount = length (pb_members b), rr_sourceProblems = []\<rparr>), s')"
    and st: "qs_revision st = qs_revision cleared + 1" "\<forall>ts. read_state s' ts = Inr st" "source_matches st (ss_identity snap)"
      "qs_members st = ss_members snap"
    using publish_build_current [of snap s1 b h cleared] assms(1,2) s1 rd by auto
  obtain ef where ef: "preview_closeout_projection_effect s ts snap = Inr ef"
    and fields: "ef = \<lparr>ef_sprint = st_sprint s, ef_queueExisted = existed,
        ef_priorRevision = (if existed then Some (qs_revision prior) else None), ef_priorSourceFingerprint = qs_sourceFingerprint prior,
        ef_invalidation = ?pv, ef_rebuild = (no_rebuild Would_publish)\<lparr>rr_sourceFingerprint := Some (pb_sourceFingerprint b),
                 rr_sourceClassification := Some (pb_sourceClassification b), rr_memberCount := length (pb_members b)\<rparr>,
        ef_rebuiltRevision = Some (qs_revision cleared + 1), ef_nextAction = None\<rparr>"
    using ex prior assms(1) rev
    by (simp add: preview_closeout_projection_effect_def incomplete_has_action_def no_rebuild_def)
  have "refresh_closeout_projection h ts snap (Inr (ss_identity snap)) s = (Inr (performed ef), s')"
    using ex prior inval pub assms(1) s1(1) st(1)
    by (simp add: refresh_closeout_projection_def rebuild_invalidated_closeout_projection_def abind_def aread_def fields performed_def
        rebuild_effect_def incomplete_has_action_def no_rebuild_def Let_def)
  moreover have "read_effective s' ts' (ss_identity snap) = Inr st" for ts'
    using st by (simp add: read_effective_def read_raw_def on_store_error_def)
  ultimately show ?thesis using ef st(4) by blast
qed

section \<open>Witnesses\<close>

definition sample_sprint :: task_document_ref where
  "sample_sprint = \<lparr>repository = ''repo'', ref_path = ''sprint.json''\<rparr>"

definition sample_member :: projection_member where
  "sample_member = \<lparr>pm_generationId = replicate 64 (CHR ''a''), pm_taskDocumentRef = \<lparr>repository = ''repo'', ref_path = ''leaf.json''\<rparr>,
     pm_owningMaster = sample_sprint, pm_contractPath = ''c'', pm_candidateTree = replicate 40 (CHR ''b''),
     pm_sourceDoorFingerprint = replicate 64 (CHR ''c''), pm_classification = Member_ready, pm_reasons = [''tests pass''],
     pm_priority = Prio_high, pm_order = 0\<rparr>"

definition sample_capture :: source_snapshot where
  "sample_capture = \<lparr>ss_identity = \<lparr>si_fingerprint = Some (replicate 64 (CHR ''d'')), si_problems = [],
       si_classification = Some Source_active, si_members = [sample_member]\<rparr>,
     ss_classification = Some Source_active, ss_members = [sample_member], ss_captured_at = ''t1''\<rparr>"

definition sample_built :: projection_build where
  "sample_built = \<lparr>pb_sprint = sample_sprint, pb_sourceFingerprint = replicate 64 (CHR ''d''),
     pb_sourceClassification = Source_active, pb_members = [sample_member], pb_builtAt = ''t1''\<rparr>"

text \<open>A store whose file holds the projection of an older source at revision 4.\<close>

definition sample_state :: queue_state where
  "sample_state = \<lparr>qs_sprint = sample_sprint, qs_revision = 4, qs_serviceCondition = Valid_built,
     qs_sourceClassification = Some Source_active, qs_sourceFingerprint = Some (replicate 64 (CHR ''e'')), qs_members = [],
     qs_sourceProblems = [], qs_updatedAt = ''t0''\<rparr>"

definition sample_queue :: queue_store where
  "sample_queue = \<lparr>st_path = [''artifacts'', ''closeout-candidates.json''], st_sprint = sample_sprint,
     st_file = Text (Some sample_state), st_build = None, st_file_writable = True, st_build_writable = True\<rparr>"

lemma sample_member_valid: "validate_member sample_member = Inr sample_member"
  by code_simp

lemma sample_state_valid: "validate_queue_state sample_state = Inr sample_state"
  by code_simp

lemma sample_queue_wf: "queue_wf sample_queue"
  by (simp add: queue_wf_def sample_queue_def sample_state_valid) (simp add: sample_state_def)

lemma sample_queue_texts:
  "path_text_ok sample_queue" "text_within MAX_CLOSEOUT_SHORT_TEXT ''t1''" "text_within MAX_CLOSEOUT_TEXT (ref_key (st_sprint sample_queue))"
  by code_simp+

lemma sample_queue_read: "read_state sample_queue ts = Inr sample_state"
  by (simp add: read_state_def sample_queue_def sample_state_valid) (simp add: sample_state_def)

theorem revision_identifies_projection_witness:
  "\<exists>s'. run queue_step sample_queue [Invalidated ''t1'', Built sample_built] s' \<and> queue_wf s' \<and> 4 \<le> stored_revision s'"
proof -
  let ?s1 = "snd (invalidate sample_host ''t1'' sample_queue)"
  let ?s2 = "snd (publish_build sample_host sample_built (Inr (ss_identity sample_capture)) ?s1)"
  have "queue_step sample_queue (Invalidated ''t1'') ?s1" by (rule step_invalidate [OF prod.collapse [symmetric]])
  moreover have "queue_step ?s1 (Built sample_built) ?s2" by (rule step_publish [OF prod.collapse [symmetric]])
  ultimately have r: "run queue_step sample_queue [Invalidated ''t1'', Built sample_built] ?s2" by auto
  have "built_from_models e" if "e \<in> set [Invalidated ''t1'', Built sample_built]" for e
    using that by (auto simp: sample_built_def sample_member_valid)
  then have "queue_wf ?s2 \<and> stored_revision sample_queue \<le> stored_revision ?s2"
    using revision_identifies_projection [OF r sample_queue_wf] by blast
  moreover have "stored_revision sample_queue = 4" by (simp add: stored_revision_def sample_queue_def sample_state_def)
  ultimately show ?thesis using r by (intro exI [of _ ?s2]) simp
qed

theorem effective_members_are_current_witness:
  "\<exists>st. read_effective sample_queue ''t1'' (ss_identity sample_capture) = Inr st \<and> qs_serviceCondition st = Invalid_empty"
proof -
  obtain st where st: "read_effective sample_queue ''t1'' (ss_identity sample_capture) = Inr st"
    and v: "qs_serviceCondition st = Valid_built \<longrightarrow> read_state sample_queue ''t1'' = Inr st \<and> source_matches st (ss_identity sample_capture)"
    using effective_members_are_current [OF sample_queue_texts, of "ss_identity sample_capture"] by blast
  have "\<not> source_matches sample_state (ss_identity sample_capture)"
    by (simp add: source_matches_def sample_state_def sample_capture_def)
  then have "qs_serviceCondition st \<noteq> Valid_built" using v by (auto simp: sample_queue_read)
  then show ?thesis using st by (cases "qs_serviceCondition st") auto
qed

lemma sample_capture_built: "snapshot_build sample_capture (st_sprint sample_queue) = Inr (Some sample_built)"
  by code_simp

lemma sample_capture_coherent: "coherent_capture sample_capture"
  by (simp add: coherent_capture_def sample_capture_def sample_member_valid)

lemma sample_queue_admits: "admits sample_host sample_queue"
  unfolding admits_def sample_host_lockable by code_simp

theorem preview_predicts_refresh_witness:
  "\<exists>ef s'. preview_closeout_projection_effect sample_queue ''t1'' sample_capture = Inr ef
    \<and> refresh_closeout_projection sample_host ''t1'' sample_capture (Inr (ss_identity sample_capture)) sample_queue
        = (Inr (performed ef), s')"
proof -
  have "qs_sourceProblems st = []" if "read_state sample_queue ''t1'' = Inr st" for st
    using that by (auto simp: sample_queue_read sample_state_def)
  moreover have "st_file sample_queue \<noteq> Uninspectable" by (simp add: sample_queue_def)
  ultimately show ?thesis
    using preview_predicts_refresh [OF sample_capture_built sample_capture_coherent sample_queue_admits sample_queue_texts(1,2)]
    by blast
qed


end
