(* ===== verification/Task_Paths.thy ===== *)
theory Task_Paths
  imports Task_Document_Ref
begin

text \<open>
  The path operations that the task modules use, on absolute paths as lists of parts and on the text
  of relative ones, and \<open>tasks/task_paths.py\<close>: the files a task root owns and the slug of a leaf.
  Directories are no symbolic links, so resolving a path only removes the double-dot parts.
\<close>

section \<open>Parts of a path\<close>

type_synonym path = "string list"

definition path_name :: "path \<Rightarrow> string" where
  "path_name p = (if p = [] then [] else last p)"

definition path_parent :: "path \<Rightarrow> path" where
  "path_parent p = butlast p"

definition path_stem :: "path \<Rightarrow> string" where
  "path_stem p = take (length (path_name p) - length (path_suffix p)) (path_name p)"

text \<open>\<open>PurePath.with_suffix\<close>: a path without a name is refused.\<close>

definition with_suffix :: "path \<Rightarrow> string \<Rightarrow> path result" where
  "with_suffix p ext = (if p = [] then Inl (ValueError ''empty name'') else Inr (path_parent p @ [path_stem p @ ext]))"

definition is_absolute :: "string \<Rightarrow> bool" where
  "is_absolute t \<longleftrightarrow> (case t of [] \<Rightarrow> False | c # _ \<Rightarrow> c = CHR ''/'')"

text \<open>\<open>base / text\<close>: an absolute right operand replaces the base.\<close>

definition path_join :: "path \<Rightarrow> string \<Rightarrow> path" where
  "path_join base t = (if is_absolute t then posix_parts t else base @ posix_parts t)"

text \<open>\<open>Path.resolve(strict=False)\<close> on an absolute path; the root is its own parent.\<close>

fun resolve_onto :: "path \<Rightarrow> string list \<Rightarrow> path" where
  "resolve_onto done [] = done"
| "resolve_onto done (p # ps) = (if p = ''..'' then resolve_onto (butlast done) ps else resolve_onto (done @ [p]) ps)"

definition resolve_path :: "path \<Rightarrow> path" where
  "resolve_path p = resolve_onto [] p"

definition is_relative_to :: "path \<Rightarrow> path \<Rightarrow> bool" where
  "is_relative_to p root \<longleftrightarrow> take (length root) p = root"

definition relative_to :: "path \<Rightarrow> path \<Rightarrow> path" where
  "relative_to p root = drop (length root) p"

definition as_posix :: "path \<Rightarrow> string" where
  "as_posix p = CHR ''/'' # join_with (CHR ''/'') p"

section \<open>Files of a task root\<close>

definition SERIES_CONTRACT_FILENAME :: string where
  "SERIES_CONTRACT_FILENAME = ''series-contract.md''"

definition ARCHIVE_DIR :: string where
  "ARCHIVE_DIR = ''0_archive''"

definition ENCLOSURES_DIR :: string where
  "ENCLOSURES_DIR = ''enclosures''"

definition slug_char :: "char \<Rightarrow> bool" where
  "slug_char c = (let n = of_char c :: nat in
     (97 \<le> n \<and> n \<le> 122) \<or> (48 \<le> n \<and> n \<le> 57) \<or> c = CHR ''.'' \<or> c = CHR ''_'' \<or> c = CHR ''-'')"

text \<open>\<open>re.sub(r"[^a-z0-9._-]+", "-", text)\<close>: every run of other characters becomes one hyphen.\<close>

function hyphenate :: "string \<Rightarrow> string" where
  "hyphenate [] = []"
| "hyphenate (c # cs) = (if slug_char c then c # hyphenate cs else CHR ''-'' # hyphenate (dropWhile (\<lambda>c. \<not> slug_char c) cs))"
  by pat_completeness auto

termination by (relation "measure length") (auto simp: le_imp_less_Suc length_dropWhile_le)

definition strip_chars :: "string \<Rightarrow> string \<Rightarrow> string" where
  "strip_chars cs s = rev (dropWhile (\<lambda>c. c \<in> set cs) (rev (dropWhile (\<lambda>c. c \<in> set cs) s)))"

definition slugify :: "string \<Rightarrow> string" where
  "slugify value =
     (let slug = strip_chars ''.-_'' (hyphenate (ascii_lower (str_strip value))) in
      if slug = [] then ''task'' else slug)"

definition series_contract_path :: "path \<Rightarrow> path" where
  "series_contract_path task_root = task_root @ [SERIES_CONTRACT_FILENAME]"

definition leaf_enclosure_dir :: "path \<Rightarrow> string \<Rightarrow> path" where
  "leaf_enclosure_dir task_root leaf_id = task_root @ [ENCLOSURES_DIR, slugify leaf_id]"

definition leaf_enclosure_path :: "path \<Rightarrow> string \<Rightarrow> path" where
  "leaf_enclosure_path task_root leaf_id = leaf_enclosure_dir task_root leaf_id @ [SERIES_CONTRACT_FILENAME]"

definition is_archived_path :: "path \<Rightarrow> bool" where
  "is_archived_path p \<longleftrightarrow> ARCHIVE_DIR \<in> set p"

text \<open>The root of an absolute path counts as one of its parts.\<close>

definition is_enclosure_contract :: "path \<Rightarrow> bool" where
  "is_enclosure_contract p \<longleftrightarrow>
     path_name p = SERIES_CONTRACT_FILENAME \<and> 3 \<le> Suc (length p)
     \<and> path_name (path_parent (path_parent p)) = ENCLOSURES_DIR"

section \<open>Lemmas\<close>

lemma resolve_onto_plain: "''..'' \<notin> set ps \<Longrightarrow> resolve_onto d ps = d @ ps"
  by (induction ps arbitrary: d) auto

lemma resolve_onto_confined: "''..'' \<notin> set d \<Longrightarrow> ''..'' \<notin> set (resolve_onto d ps)"
  by (induction ps arbitrary: d) (auto dest: in_set_butlastD)

lemma resolve_path_id [simp]: "''..'' \<notin> set p \<Longrightarrow> resolve_path p = p"
  by (simp add: resolve_path_def resolve_onto_plain)

lemma resolve_path_idem [simp]: "resolve_path (resolve_path p) = resolve_path p"
  by (simp add: resolve_onto_confined resolve_path_def resolve_onto_plain)

lemma is_relative_to_append [simp]: "is_relative_to (root @ p) root"
  by (simp add: is_relative_to_def)

lemma relative_to_append [simp]: "relative_to (root @ p) root = p"
  by (simp add: relative_to_def)

lemma is_relative_toE: "is_relative_to p root \<Longrightarrow> p = root @ relative_to p root"
  unfolding is_relative_to_def relative_to_def by (metis append_take_drop_id)

lemma path_parent_snoc [simp]: "path_parent (p @ [x]) = p" "path_name (p @ [x]) = x"
  by (simp_all add: path_parent_def path_name_def)

lemma hyphenate_chars: "c \<in> set (hyphenate s) \<Longrightarrow> slug_char c"
  by (induction s rule: hyphenate.induct) (auto simp: slug_char_def split: if_splits)

lemma hyphenate_id: "list_all slug_char s \<Longrightarrow> hyphenate s = s"
  by (induction s) auto

lemma set_strip_chars: "set (strip_chars cs s) \<subseteq> set s"
  by (auto simp: strip_chars_def dest!: set_dropWhileD)

lemma strip_chars_ends:
  assumes "strip_chars cs s \<noteq> []"
  shows "hd (strip_chars cs s) \<notin> set cs \<and> last (strip_chars cs s) \<notin> set cs"
proof -
  let ?P = "\<lambda>c. c \<in> set cs"
  let ?d = "dropWhile ?P s"
  let ?e = "dropWhile ?P (rev ?d)"
  have e: "?e \<noteq> []" using assms by (simp add: strip_chars_def)
  then have d: "?d \<noteq> []" by (metis dropWhile.simps(1) rev.simps(1))
  have "last ?e = hd ?d" using d e last_rev [of ?d] by (metis dropWhile_eq_drop last_drop drop_eq_Nil not_le_imp_less)
  then show ?thesis
    using hd_dropWhile [OF e] hd_dropWhile [OF d] by (simp add: strip_chars_def hd_rev last_rev)
qed

lemma strip_chars_id: "s \<noteq> [] \<Longrightarrow> hd s \<notin> set cs \<Longrightarrow> last s \<notin> set cs \<Longrightarrow> strip_chars cs s = s"
  by (simp add: strip_chars_def dropWhile_hd hd_rev)

lemma slug_char_plain: "slug_char c \<Longrightarrow> \<not> is_space c \<and> ascii_lower [c] = [c] \<and> c \<noteq> CHR ''/''"
  by (auto simp: slug_char_def is_space_def ascii_lower_def Let_def)

lemma ascii_lower_id: "list_all slug_char s \<Longrightarrow> ascii_lower s = s"
  using slug_char_plain by (induction s) (auto simp: ascii_lower_def)

lemma slugify_shape:
  "slugify v \<noteq> [] \<and> list_all slug_char (slugify v)
   \<and> hd (slugify v) \<notin> set ''.-_'' \<and> last (slugify v) \<notin> set ''.-_''"
proof -
  let ?s = "strip_chars ''.-_'' (hyphenate (ascii_lower (str_strip v)))"
  have "list_all slug_char ?s"
    using set_strip_chars [of "''.-_''" "hyphenate (ascii_lower (str_strip v))"] hyphenate_chars
    by (auto simp: list_all_iff)
  moreover have "list_all slug_char ''task''" by (simp add: slug_char_def)
  ultimately show ?thesis using strip_chars_ends [of "''.-_''"] by (auto simp: slugify_def Let_def)
qed

text \<open>The slug of a leaf is one path segment, never a dot segment, so the enclosure directory of a
  leaf is a direct child of the enclosures of its task root; and a slug is its own slug.\<close>

lemma slugify_segment: "slugify v \<noteq> ''.'' \<and> slugify v \<noteq> ''..'' \<and> CHR ''/'' \<notin> set (slugify v)"
  using slugify_shape [of v] slug_char_plain by (force simp: list_all_iff)

lemma slugify_idem: "slugify (slugify v) = slugify v"
proof -
  have s: "slugify v \<noteq> []" "list_all slug_char (slugify v)"
    "hd (slugify v) \<notin> set ''.-_''" "last (slugify v) \<notin> set ''.-_''"
    using slugify_shape by blast+
  have "str_strip (slugify v) = slugify v"
    using s slug_char_plain by (intro str_strip_id) (auto simp: list_all_iff)
  then show ?thesis using s by (simp add: slugify_def [of "slugify v"] ascii_lower_id hyphenate_id strip_chars_id)
qed

lemma enclosure_is_confined:
  "''..'' \<notin> set root \<Longrightarrow> resolve_path (leaf_enclosure_path root leaf) = leaf_enclosure_path root leaf
     \<and> is_enclosure_contract (leaf_enclosure_path root leaf)"
  using slugify_segment [of leaf]
  by (force intro!: resolve_path_id simp: leaf_enclosure_path_def leaf_enclosure_dir_def is_enclosure_contract_def path_name_def path_parent_def
        ENCLOSURES_DIR_def SERIES_CONTRACT_FILENAME_def butlast_append)

section \<open>Canonical references\<close>

lemma resolve_onto_append: "resolve_onto d (p @ q) = resolve_onto (resolve_onto d p) q"
  by (induction p arbitrary: d) auto

lemma confined_parts:
  assumes "path_is_confined_json p = Inr q"
  shows "posix_parts q \<noteq> []" "''..'' \<notin> set (posix_parts q)" "q = posix_text (posix_parts q)" "\<not> is_absolute q"
proof -
  define cleaned where "cleaned = map (\<lambda>c. if c = CHR 0x5C then CHR ''/'' else c) (str_strip p)"
  define parts where "parts = posix_parts cleaned"
  have up: "''..'' \<notin> set parts" and suf: "ascii_lower (path_suffix parts) = ''.json''" and qt: "q = posix_text parts"
    using assms by (auto simp: path_is_confined_json_def Let_def cleaned_def parts_def split: if_splits)
  note ne = suffix_last(1) [OF suf]
  have el: "w \<noteq> [] \<and> w \<noteq> ''.'' \<and> CHR ''/'' \<notin> set w" if "w \<in> set parts" for w
    using posix_parts_elems [OF that [unfolded parts_def]] by blast
  have again: "posix_parts q = parts" using posix_parts_text [OF ne] el qt by blast
  then show "posix_parts q \<noteq> []" "''..'' \<notin> set (posix_parts q)" "q = posix_text (posix_parts q)" using ne up qt by auto
  have "q \<noteq> [] \<and> hd q = hd (hd parts)" using join_ends [OF ne] el qt ne by (auto simp: posix_text_def)
  then show "\<not> is_absolute q" using el [of "hd parts"] ne by (auto simp: is_absolute_def split: list.splits)
qed

lemma segment_parts:
  assumes "repository_is_one_segment r = Inr q"
  shows "posix_parts q = [q]" "q \<noteq> ''..''" "\<not> is_absolute q"
  using assms by (auto simp: repository_is_one_segment_def Let_def posix_parts_def split_on_word is_absolute_def split: if_splits list.splits)

end
