(* ===== verification/Execution_Graph.thy ===== *)
theory Execution_Graph
  imports Task_Document_Ref
begin

text \<open>
  The execution graph of a sprint: its models in \<open>tasks/document.py\<close> and the indexed validation of
  \<open>tasks/execution_graph_validation.py\<close>, which resolves the endpoints of the edges, derives the waves
  of the nodes and reports a cycle when there is one. The operation counters, which only measure
  the algorithm, are left out. Nodes are addressed by their position.
\<close>

section \<open>Nodes and edges\<close>

datatype node_kind = Lump | Segment

record exec_node =
  xn_kind :: node_kind
  xn_ref :: task_document_ref
  xn_leafIds :: "string list"

datatype exec_endpoint = Bare task_document_ref | Endpoint task_document_ref "string option"

record exec_edge =
  xe_predecessor :: exec_endpoint
  xe_successor :: exec_endpoint
  xe_reason :: string
  xe_judgmentId :: "string option"

definition make_exec_node :: "exec_node \<Rightarrow> exec_node result" where
  "make_exec_node node =
     (let leaves = map str_strip (xn_leafIds node) in
      if [] \<in> set leaves then Inl (ValueError ''leafIds must not be blank'')
      else if xn_kind node = Segment \<and> leaves = [] then Inl (ValueError ''segment node requires leafIds'')
      else if xn_kind node = Segment \<and> \<not> distinct leaves then Inl (ValueError ''segment leafIds must be unique'')
      else if xn_kind node = Lump \<and> leaves \<noteq> [] then Inl (ValueError ''lump node has no leafIds'')
      else Inr (node\<lparr>xn_leafIds := leaves\<rparr>))"

fun make_exec_endpoint :: "exec_endpoint \<Rightarrow> exec_endpoint result" where
  "make_exec_endpoint (Bare r) = Inr (Bare r)"
| "make_exec_endpoint (Endpoint r None) = Inr (Endpoint r None)"
| "make_exec_endpoint (Endpoint r (Some leaf)) =
     (if str_strip leaf = [] then Inl (ValueError ''leafId must not be blank'') else Inr (Endpoint r (Some (str_strip leaf))))"

definition make_exec_edge :: "exec_edge \<Rightarrow> exec_edge result" where
  "make_exec_edge e =
     rbind (make_exec_endpoint (xe_predecessor e)) (\<lambda>p.
     rbind (make_exec_endpoint (xe_successor e)) (\<lambda>s.
       if str_strip (xe_reason e) = [] then Inl (ValueError ''reason must not be blank'')
       else if (case xe_judgmentId e of None \<Rightarrow> False | Some j \<Rightarrow> str_strip j = []) then Inl (ValueError ''judgmentId must not be blank'')
       else if p = s then Inl (ValueError ''edge cannot point a node to itself'')
       else Inr \<lparr>xe_predecessor = p, xe_successor = s, xe_reason = str_strip (xe_reason e),
                 xe_judgmentId = map_option str_strip (xe_judgmentId e)\<rparr>))"

text \<open>The refusals of the validation, one constructor per message.\<close>

datatype graph_error =
    Nodes_not_unique
  | Lump_and_segment task_document_ref
  | Leaf_placed_twice string task_document_ref task_document_ref
  | Leaf_not_placed string task_document_ref
  | Endpoint_not_declared task_document_ref
  | Endpoint_ambiguous task_document_ref
  | Self_edge
  | Edges_not_unique
  | Cyclic "nat list"

fun endpoint_ref :: "exec_endpoint \<Rightarrow> task_document_ref" where
  "endpoint_ref (Bare r) = r"
| "endpoint_ref (Endpoint r _) = r"

fun endpoint_leaf :: "exec_endpoint \<Rightarrow> string option" where
  "endpoint_leaf (Bare _) = None"
| "endpoint_leaf (Endpoint _ leaf) = leaf"

text \<open>\<open>resolve_graph_endpoint\<close> of \<open>document.py\<close>: a scan over the nodes.\<close>

definition resolve_graph_endpoint :: "exec_node list \<Rightarrow> exec_endpoint \<Rightarrow> graph_error + exec_node" where
  "resolve_graph_endpoint nodes ep =
     (let owned = filter (\<lambda>n. xn_ref n = endpoint_ref ep) nodes;
          matching = (case endpoint_leaf ep of None \<Rightarrow> owned | Some leaf \<Rightarrow> filter (\<lambda>n. leaf \<in> set (xn_leafIds n)) owned) in
      case matching of
        [] \<Rightarrow> (case endpoint_leaf ep of Some leaf \<Rightarrow> Inl (Leaf_not_placed leaf (endpoint_ref ep))
               | None \<Rightarrow> Inl (Endpoint_not_declared (endpoint_ref ep)))
      | [n] \<Rightarrow> Inr n
      | _ \<Rightarrow> Inl (Endpoint_ambiguous (endpoint_ref ep)))"

section \<open>The endpoint index\<close>

text \<open>\<open>d.setdefault(k, []).append(i)\<close>.\<close>

definition attach_index :: "'k \<Rightarrow> 'v \<Rightarrow> ('k, 'v list) dict \<Rightarrow> ('k, 'v list) dict" where
  "attach_index k v d = AList.update k ((case map_of d k of None \<Rightarrow> [] | Some vs \<Rightarrow> vs) @ [v]) d"

fun identity_index :: "nat \<Rightarrow> exec_node list \<Rightarrow> (exec_node, nat) dict \<Rightarrow> bool \<Rightarrow> (exec_node, nat) dict \<times> bool" where
  "identity_index i [] index dup = (index, dup)"
| "identity_index i (n # ns) index dup =
     (if map_of index n \<noteq> None then identity_index (Suc i) ns index True
      else identity_index (Suc i) ns (AList.update n i index) dup)"

fun index_refs :: "nat \<Rightarrow> exec_node list \<Rightarrow> (task_document_ref, nat list) dict \<Rightarrow> (task_document_ref, nat list) dict" where
  "index_refs i [] by_ref = by_ref"
| "index_refs i (n # ns) by_ref = index_refs (Suc i) ns (attach_index (xn_ref n) i by_ref)"

definition lump_refs :: "exec_node list \<Rightarrow> task_document_ref set" where
  "lump_refs nodes = set (map xn_ref (filter (\<lambda>n. xn_kind n = Lump) nodes))"

fun check_ownership :: "task_document_ref set \<Rightarrow> (task_document_ref, nat list) dict \<Rightarrow> graph_error + unit" where
  "check_ownership lumps [] = Inr ()"
| "check_ownership lumps ((ref, owned) # rest) =
     (if 1 < length owned \<and> ref \<in> lumps then Inl (Lump_and_segment ref) else check_ownership lumps rest)"

type_synonym leaf_index = "(string, task_document_ref) dict \<times> (task_document_ref \<times> string, nat list) dict"

fun place_leaves :: "nat \<Rightarrow> task_document_ref \<Rightarrow> string list \<Rightarrow> leaf_index \<Rightarrow> graph_error + leaf_index" where
  "place_leaves i ref [] ix = Inr ix"
| "place_leaves i ref (leaf # leaves) (placed, by_leaf) =
     (case map_of placed leaf of
        Some owner \<Rightarrow> Inl (Leaf_placed_twice leaf owner ref)
      | None \<Rightarrow> place_leaves i ref leaves (AList.update leaf ref placed, attach_index (ref, leaf) i by_leaf))"

fun index_leaves :: "nat \<Rightarrow> exec_node list \<Rightarrow> leaf_index \<Rightarrow> graph_error + leaf_index" where
  "index_leaves i [] ix = Inr ix"
| "index_leaves i (n # ns) ix = rbind (place_leaves i (xn_ref n) (xn_leafIds n) ix) (index_leaves (Suc i) ns)"

definition build_endpoint_index ::
  "exec_node list \<Rightarrow> graph_error + (task_document_ref, nat list) dict \<times> (task_document_ref \<times> string, nat list) dict" where
  "build_endpoint_index nodes =
     (let by_ref = index_refs 0 nodes [] in
      rbind (check_ownership (lump_refs nodes) by_ref) (\<lambda>_.
      rbind (index_leaves 0 nodes ([], [])) (\<lambda>(placed, by_leaf). Inr (by_ref, by_leaf))))"

definition resolve_endpoint ::
  "(task_document_ref, nat list) dict \<Rightarrow> (task_document_ref \<times> string, nat list) dict \<Rightarrow> exec_endpoint \<Rightarrow> graph_error + nat" where
  "resolve_endpoint by_ref by_leaf ep =
     (let matching = (case (case endpoint_leaf ep of Some leaf \<Rightarrow> map_of by_leaf (endpoint_ref ep, leaf)
                       | None \<Rightarrow> map_of by_ref (endpoint_ref ep)) of None \<Rightarrow> [] | Some m \<Rightarrow> m) in
      case matching of
        [] \<Rightarrow> (case endpoint_leaf ep of Some leaf \<Rightarrow> Inl (Leaf_not_placed leaf (endpoint_ref ep))
               | None \<Rightarrow> Inl (Endpoint_not_declared (endpoint_ref ep)))
      | [i] \<Rightarrow> Inr i
      | _ \<Rightarrow> Inl (Endpoint_ambiguous (endpoint_ref ep)))"

fun resolve_each ::
  "(task_document_ref, nat list) dict \<Rightarrow> (task_document_ref \<times> string, nat list) dict \<Rightarrow> exec_edge list
     \<Rightarrow> graph_error + (nat \<times> nat) list" where
  "resolve_each by_ref by_leaf [] = Inr []"
| "resolve_each by_ref by_leaf (e # es) =
     rbind (resolve_endpoint by_ref by_leaf (xe_predecessor e)) (\<lambda>p.
     rbind (resolve_endpoint by_ref by_leaf (xe_successor e)) (\<lambda>s.
       if p = s then Inl Self_edge
       else rbind (resolve_each by_ref by_leaf es) (\<lambda>rest. Inr ((p, s) # rest))))"

definition resolve_edges ::
  "exec_edge list \<Rightarrow> (task_document_ref, nat list) dict \<Rightarrow> (task_document_ref \<times> string, nat list) dict
     \<Rightarrow> graph_error + (nat \<times> nat) list" where
  "resolve_edges edges by_ref by_leaf =
     rbind (resolve_each by_ref by_leaf edges) (\<lambda>resolved.
       if distinct resolved then Inr resolved else Inl Edges_not_unique)"

definition resolve_graph ::
  "exec_node list \<Rightarrow> exec_edge list \<Rightarrow> graph_error + (nat \<times> nat) list \<times> (exec_node, nat) dict" where
  "resolve_graph nodes edges =
     (let (index, dup) = identity_index 0 nodes [] False in
      if dup then Inl Nodes_not_unique
      else rbind (build_endpoint_index nodes) (\<lambda>(by_ref, by_leaf).
           rbind (resolve_edges edges by_ref by_leaf) (\<lambda>resolved. Inr (resolved, index))))"

section \<open>Cycles\<close>

text \<open>The recursion of \<open>_dfs_cycle_members\<close> with its loop over the successors left to visit; the stack
  holds the current path and \<open>visited\<close> the finished nodes.\<close>

function dfs :: "(nat \<Rightarrow> nat list) \<Rightarrow> nat list \<Rightarrow> nat list \<Rightarrow> nat list \<Rightarrow> nat list \<Rightarrow> nat list option \<times> nat list" where
  "dfs succ residual stack [] visited = (None, visited)"
| "dfs succ residual stack (s # ss) visited =
     (if s \<in> set stack then (Some (dropWhile (\<lambda>x. x \<noteq> s) stack), visited)
      else if s \<in> set residual \<and> s \<notin> set visited
      then (case dfs succ residual (stack @ [s]) (sort (succ s)) visited of
              (Some cycle, visited') \<Rightarrow> (Some cycle, visited')
            | (None, visited') \<Rightarrow> dfs succ residual stack ss (s # visited'))
      else dfs succ residual stack ss visited)"
  by pat_completeness auto

termination
proof (relation "measures [\<lambda>(succ, residual, stack, ss, visited). card (set residual - set stack),
    \<lambda>(succ, residual, stack, ss, visited). length ss]", goal_cases)
  case (2 succ residual stack s ss visited)
  then have "set residual - set (stack @ [s]) \<subset> set residual - set stack" by auto
  then show ?case using psubset_card_mono [of "set residual - set stack"] by simp
qed auto

fun search_cycles :: "(nat \<Rightarrow> nat list) \<Rightarrow> nat list \<Rightarrow> nat list \<Rightarrow> nat list \<Rightarrow> nat list option" where
  "search_cycles succ residual [] visited = None"
| "search_cycles succ residual (r # rs) visited =
     (if r \<in> set visited then search_cycles succ residual rs visited
      else (case dfs succ residual [r] (sort (succ r)) visited of
              (Some cycle, _) \<Rightarrow> Some cycle
            | (None, visited') \<Rightarrow> search_cycles succ residual rs (r # visited')))"

definition find_cycle_members :: "nat list \<Rightarrow> (nat \<Rightarrow> nat list) \<Rightarrow> nat list" where
  "find_cycle_members residual succ =
     (case search_cycles succ residual (sort residual) [] of Some cycle \<Rightarrow> cycle | None \<Rightarrow> residual)"

section \<open>Waves\<close>

text \<open>\<open>_dependency_state\<close>: the number of predecessors and the successors of every position.\<close>

fun dependency_state :: "(nat \<times> nat) list \<Rightarrow> int list \<times> nat list list \<Rightarrow> int list \<times> nat list list" where
  "dependency_state [] st = st"
| "dependency_state ((p, s) # es) (indegree, successors) =
     dependency_state es (indegree[s := indegree ! s + 1], successors[p := successors ! p @ [s]])"

text \<open>The inner loops of one wave. A successor is the position of a node, so it is in range.\<close>

fun release_each :: "nat list \<Rightarrow> int list \<times> nat list \<Rightarrow> int list \<times> nat list" where
  "release_each [] st = st"
| "release_each (s # ss) (indegree, ready) =
     (let d = indegree ! s - 1 in
      release_each ss (indegree[s := d], if s < length indegree \<and> d = 0 then ready @ [s] else ready))"

fun release_wave :: "nat list list \<Rightarrow> nat list \<Rightarrow> int list \<times> nat list \<Rightarrow> int list \<times> nat list" where
  "release_wave successors [] st = st"
| "release_wave successors (i # wave) st = release_wave successors wave (release_each (successors ! i) st)"

definition positives :: "int list \<Rightarrow> nat" where
  "positives xs = length (filter (\<lambda>x. 0 < x) xs)"

lemma release_each_length [simp]: "length (fst (release_each ss st)) = length (fst st)"
  by (induction ss st rule: release_each.induct) (auto simp: Let_def)

lemma positives_update: "s < length xs \<Longrightarrow> v \<le> xs ! s \<Longrightarrow> positives (xs[s := v]) \<le> positives xs"
  by (induction xs arbitrary: s) (auto simp: positives_def split: nat.splits)

lemma positives_spent: "s < length xs \<Longrightarrow> xs ! s = 1 \<Longrightarrow> Suc (positives (xs[s := 0])) = positives xs"
  by (induction xs arbitrary: s) (auto simp: positives_def split: nat.splits)

lemma release_each_positives:
  "positives (fst (release_each ss st)) + length (snd (release_each ss st)) \<le> positives (fst st) + length (snd st)"
proof (induction ss st rule: release_each.induct)
  case (2 s ss indegree ready)
  show ?case
  proof (cases "s < length indegree")
    case True
    then show ?thesis
      using "2.IH" [OF refl] positives_update [OF True, of "indegree ! s - 1"] positives_spent [OF True]
      by (cases "indegree ! s = 1") (auto simp: Let_def)
  next
    case False
    then show ?thesis using "2.IH" [OF refl] by (simp add: Let_def list_update_beyond)
  qed
qed simp

lemma release_wave_positives:
  "positives (fst (release_wave successors wave st)) + length (snd (release_wave successors wave st))
     \<le> positives (fst st) + length (snd st)"
proof (induction successors wave st rule: release_wave.induct)
  case (2 successors i wave st)
  then show ?case using release_each_positives [of "successors ! i" st] by (simp del: split_paired_All)
qed simp

function wave_loop :: "nat list list \<Rightarrow> nat list \<Rightarrow> int list \<Rightarrow> nat list list \<times> int list" where
  "wave_loop successors ready indegree =
     (if ready = [] then ([], indegree)
      else (let (indegree', ready') = release_wave successors (sort ready) (indegree, []);
                (waves, final) = wave_loop successors ready' indegree' in
            (sort ready # waves, final)))"
  by pat_completeness auto

termination
proof (relation "measure (\<lambda>(successors, ready, indegree). 2 * positives indegree + (if ready = [] then 0 else 1))", goal_cases)
  case (2 successors ready indegree x indegree' ready')
  then have "release_wave successors (sort ready) (indegree, []) = (indegree', ready')" by simp
  then show ?case
    using 2(1) release_wave_positives [of successors "sort ready" "(indegree, [])"] by (cases ready') auto
qed simp

declare wave_loop.simps [simp del]

definition derive_waves :: "exec_node list \<Rightarrow> (nat \<times> nat) list \<Rightarrow> graph_error + exec_node list list" where
  "derive_waves nodes edges =
     (let n = length nodes;
          (indegree, successors) = dependency_state edges (replicate n 0, replicate n []);
          (waves, final) = wave_loop successors (filter (\<lambda>i. indegree ! i = 0) [0..<n]) indegree in
      if sum_list (map length waves) \<noteq> n
      then Inl (Cyclic (find_cycle_members (filter (\<lambda>i. 0 < final ! i) [0..<n]) (\<lambda>i. successors ! i)))
      else Inr (map (map (\<lambda>i. nodes ! i)) waves))"

record graph_analysis =
  ga_resolvedEdgeIndexes :: "(nat \<times> nat) list"
  ga_waves :: "exec_node list list"

definition validate_execution_graph :: "exec_node list \<Rightarrow> exec_edge list \<Rightarrow> graph_error + graph_analysis" where
  "validate_execution_graph nodes edges =
     rbind (resolve_graph nodes edges) (\<lambda>(resolved, index).
     rbind (derive_waves nodes resolved) (\<lambda>waves.
       Inr \<lparr>ga_resolvedEdgeIndexes = resolved, ga_waves = waves\<rparr>))"

text \<open>\<open>find_execution_graph_cycle\<close>; a residual node that is no node of the graph raises \<open>KeyError\<close>,
  here \<^const>\<open>None\<close>.\<close>

definition find_execution_graph_cycle ::
  "exec_node list \<Rightarrow> exec_edge list \<Rightarrow> exec_node list \<Rightarrow> graph_error + exec_node list option" where
  "find_execution_graph_cycle nodes edges residual =
     (if residual = [] then Inr (Some [])
      else rbind (resolve_graph nodes edges) (\<lambda>(resolved, index).
        (let n = length nodes;
             successors = snd (dependency_state resolved (replicate n 0, replicate n [])) in
         if list_all (\<lambda>r. map_of index r \<noteq> None) residual
         then Inr (Some (map (\<lambda>i. nodes ! i)
                (find_cycle_members (map (\<lambda>r. the (map_of index r)) residual) (\<lambda>i. successors ! i))))
         else Inr None)))"

section \<open>Waves by definition\<close>

text \<open>The edges into a position that come from outside a set of finished positions.\<close>

definition pending :: "(nat \<times> nat) list \<Rightarrow> nat set \<Rightarrow> nat \<Rightarrow> nat" where
  "pending E D i = length (filter (\<lambda>e. snd e = i \<and> fst e \<notin> D) E)"

definition next_wave :: "(nat \<times> nat) list \<Rightarrow> nat \<Rightarrow> nat set \<Rightarrow> nat list" where
  "next_wave E n D = filter (\<lambda>i. i \<notin> D \<and> (\<forall>e\<in>set E. snd e = i \<longrightarrow> fst e \<in> D)) [0..<n]"

text \<open>Wave after wave: the positions outside the earlier waves whose predecessors are all inside.\<close>

function waves_from :: "(nat \<times> nat) list \<Rightarrow> nat \<Rightarrow> nat set \<Rightarrow> nat list list" where
  "waves_from E n D =
     (if next_wave E n D = [] then [] else next_wave E n D # waves_from E n (D \<union> set (next_wave E n D)))"
  by pat_completeness auto

termination
proof (relation "measure (\<lambda>(E, n, D). card ({..<n} - D))", goal_cases)
  case (2 E n D)
  then obtain i where "i \<in> set (next_wave E n D)" by (cases "next_wave E n D") auto
  then have "i < n" "i \<notin> D" "i \<in> set (next_wave E n D)" by (auto simp: next_wave_def)
  then have "{..<n} - (D \<union> set (next_wave E n D)) \<subset> {..<n} - D" by blast
  from psubset_card_mono [OF _ this] show ?case by simp
qed simp

declare waves_from.simps [simp del]

lemma pending_zero: "pending E D i = 0 \<longleftrightarrow> (\<forall>e\<in>set E. snd e = i \<longrightarrow> fst e \<in> D)"
  by (auto simp: pending_def filter_empty_conv)

lemma next_wave_mem: "i \<in> set (next_wave E n D) \<longleftrightarrow> i < n \<and> i \<notin> D \<and> pending E D i = 0"
  by (auto simp: next_wave_def pending_zero)

lemma next_wave_sorted [simp]: "sorted (next_wave E n D)" "distinct (next_wave E n D)"
  by (simp_all add: next_wave_def sorted_wrt_filter)

lemma pending_union:
  "pending E D i = pending E (D \<union> W) i + length (filter (\<lambda>e. snd e = i \<and> fst e \<in> W - D) E)"
  by (induction E) (auto simp: pending_def)

section \<open>The loop computes the waves\<close>

lemma dependency_state_spec:
  assumes "dependency_state es (ind, succ) = (ind', succ')"
  shows "length ind' = length ind \<and> length succ' = length succ
    \<and> (\<forall>i<length ind. ind' ! i = ind ! i + int (length (filter (\<lambda>e. snd e = i) es)))
    \<and> (\<forall>p<length succ. succ' ! p = succ ! p @ map snd (filter (\<lambda>e. fst e = p) es))"
  using assms
proof (induction es arbitrary: ind succ)
  case (Cons e es)
  obtain p s where e: "e = (p, s)" by (cases e)
  show ?case using Cons.IH [of "ind[s := ind ! s + 1]" "succ[p := succ ! p @ [s]]"] Cons.prems
    by (auto simp: e nth_list_update)
qed auto

lemma release_each_append: "release_each (xs @ ys) st = release_each ys (release_each xs st)"
  by (induction xs st rule: release_each.induct) (auto simp: Let_def)

lemma release_wave_each: "release_wave succ wave st = release_each (concat (map (\<lambda>i. succ ! i) wave)) st"
  by (induction succ wave st rule: release_wave.induct) (auto simp: release_each_append)

lemma release_each_spec:
  assumes "release_each ss (ind, rd) = (ind', rd')" "\<And>s. s \<in> set ss \<Longrightarrow> s < length ind"
  shows "length ind' = length ind \<and> (\<forall>i<length ind. ind' ! i = ind ! i - int (count_list ss i))
    \<and> set rd' = set rd \<union> {i. i < length ind \<and> 0 < ind ! i \<and> ind ! i \<le> int (count_list ss i)}
    \<and> (distinct rd \<and> (\<forall>i\<in>set rd. ind ! i \<le> 0) \<longrightarrow> distinct rd')"
  using assms
proof (induction ss arbitrary: ind rd)
  case (Cons s ss)
  let ?ind = "ind[s := ind ! s - 1]" and ?rd = "if ind ! s = 1 then rd @ [s] else rd"
  have sl: "s < length ind" using Cons.prems(2) by simp
  have run: "release_each ss (?ind, ?rd) = (ind', rd')" using Cons.prems(1) sl by (simp add: Let_def)
  have IH: "length ind' = length ?ind" "\<forall>i<length ?ind. ind' ! i = ?ind ! i - int (count_list ss i)"
    "set rd' = set ?rd \<union> {i. i < length ?ind \<and> 0 < ?ind ! i \<and> ?ind ! i \<le> int (count_list ss i)}"
    "distinct ?rd \<and> (\<forall>i\<in>set ?rd. ?ind ! i \<le> 0) \<longrightarrow> distinct rd'"
    using Cons.IH [OF run] Cons.prems(2) by auto
  have "set rd' = set rd \<union> {i. i < length ind \<and> 0 < ind ! i \<and> ind ! i \<le> int (count_list (s # ss) i)}"
    unfolding IH(3) using sl by (auto simp: nth_list_update split: if_splits)
  moreover have "distinct rd'" if "distinct rd" "\<forall>i\<in>set rd. ind ! i \<le> 0"
    using that IH(4) sl by (fastforce simp: nth_list_update split: if_splits)
  ultimately show ?case using IH(1,2) sl by (auto simp: nth_list_update)
qed auto

lemma count_successors:
  "distinct wave \<Longrightarrow> count_list (concat (map (\<lambda>p. map snd (filter (\<lambda>e. fst e = p) E)) wave)) i
     = length (filter (\<lambda>e. snd e = i \<and> fst e \<in> set wave) E)"
proof (induction wave)
  case (Cons p wave)
  have "count_list (map snd (filter (\<lambda>e. fst e = p) E)) i = length (filter (\<lambda>e. snd e = i \<and> fst e = p) E)"
    by (induction E) auto
  moreover have "length (filter (\<lambda>e. snd e = i \<and> fst e \<in> set (p # wave)) E)
      = length (filter (\<lambda>e. snd e = i \<and> fst e = p) E) + length (filter (\<lambda>e. snd e = i \<and> fst e \<in> set wave) E)"
    using Cons.prems by (induction E) auto
  ultimately show ?case using Cons by simp
qed simp

definition in_range :: "nat \<Rightarrow> (nat \<times> nat) list \<Rightarrow> bool" where
  "in_range n E \<longleftrightarrow> (\<forall>(p, s)\<in>set E. p < n \<and> s < n)"

lemma next_wave_step:
  assumes "D \<subseteq> {..<n}" "\<And>i. i \<in> D \<Longrightarrow> pending E D i = 0" "W = set (next_wave E n D)"
  shows "set (next_wave E n (D \<union> W)) = {i. i < n \<and> 0 < pending E D i \<and> pending E (D \<union> W) i = 0}"
    and "i \<in> D \<union> W \<Longrightarrow> pending E (D \<union> W) i = 0"
proof -
  have less: "pending E (D \<union> W) i \<le> pending E D i" for i using pending_union [of E D i W] by linarith
  have W: "i \<in> W \<longleftrightarrow> i < n \<and> i \<notin> D \<and> pending E D i = 0" for i by (simp add: assms(3) next_wave_mem)
  show "set (next_wave E n (D \<union> W)) = {i. i < n \<and> 0 < pending E D i \<and> pending E (D \<union> W) i = 0}"
    using assms(2) W by (auto simp: next_wave_mem)
  show "pending E (D \<union> W) i = 0" if "i \<in> D \<union> W"
    using that assms(2) W less [of i] by auto
qed

lemma release_next_wave:
  assumes "in_range n E" "length ind = n" "\<And>p. p < n \<Longrightarrow> succ ! p = map snd (filter (\<lambda>e. fst e = p) E)"
    and "\<And>i. i < n \<Longrightarrow> ind ! i = int (pending E D i)" "D \<subseteq> {..<n}" "\<And>i. i \<in> D \<Longrightarrow> pending E D i = 0"
    and "W = next_wave E n D" "release_wave succ W (ind, []) = (ind', ready')"
  shows "length ind' = n \<and> (\<forall>i<n. ind' ! i = int (pending E (D \<union> set W) i)) \<and> distinct ready'
    \<and> set ready' = set (next_wave E n (D \<union> set W))"
proof -
  have W: "p \<in> set W \<Longrightarrow> p < n \<and> p \<notin> D" for p by (simp add: assms(7) next_wave_mem)
  let ?ss = "concat (map (\<lambda>p. map snd (filter (\<lambda>e. fst e = p) E)) W)"
  have "concat (map (\<lambda>i. succ ! i) W) = ?ss" using W assms(3) by (intro arg_cong [of _ _ concat] map_cong) auto
  then have run: "release_each ?ss (ind, []) = (ind', ready')" using assms(8) by (simp add: release_wave_each)
  have cnt: "pending E D i = pending E (D \<union> set W) i + count_list ?ss i" for i
  proof -
    have "filter (\<lambda>e. snd e = i \<and> fst e \<in> set W - D) E = filter (\<lambda>e. snd e = i \<and> fst e \<in> set W) E"
      using W by (intro filter_cong) auto
    then show ?thesis using pending_union [of E D i "set W"] count_successors [of W E i] assms(7) by simp
  qed
  have rng: "s < length ind" if "s \<in> set ?ss" for s using that assms(1,2) by (auto simp: in_range_def)
  note spec = release_each_spec [OF run rng]
  have ind': "\<forall>i<n. ind' ! i = int (pending E (D \<union> set W) i)" using spec assms(2,4) cnt by simp
  have "set ready' = {i. i < length ind \<and> 0 < ind ! i \<and> ind ! i \<le> int (count_list ?ss i)}" using spec by simp
  also have "\<dots> = {i. i < n \<and> 0 < pending E D i \<and> pending E (D \<union> set W) i = 0}"
  proof (intro Collect_cong)
    fix i
    show "(i < length ind \<and> 0 < ind ! i \<and> ind ! i \<le> int (count_list ?ss i))
        = (i < n \<and> 0 < pending E D i \<and> pending E (D \<union> set W) i = 0)"
      using assms(2) assms(4) [of i] cnt [of i] by (cases "i < n") auto
  qed
  also have "\<dots> = set (next_wave E n (D \<union> set W))"
    using next_wave_step(1) [OF assms(5,6) arg_cong [OF assms(7), of set]] by simp
  finally show ?thesis using spec ind' assms(2) by simp
qed

lemma wave_loop_waves:
  assumes "in_range n E" "length ind = n" "\<And>p. p < n \<Longrightarrow> succ ! p = map snd (filter (\<lambda>e. fst e = p) E)"
    and "\<And>i. i < n \<Longrightarrow> ind ! i = int (pending E D i)" "distinct ready" "set ready = set (next_wave E n D)"
    and "D \<subseteq> {..<n}" "\<And>i. i \<in> D \<Longrightarrow> pending E D i = 0"
  shows "\<exists>final. wave_loop succ ready ind = (waves_from E n D, final) \<and> length final = n
    \<and> (\<forall>i<n. final ! i = int (pending E (D \<union> set (concat (waves_from E n D))) i))"
  using assms
proof (induction E n D arbitrary: ready ind rule: waves_from.induct)
  case (1 E n D)
  let ?W = "next_wave E n D"
  show ?case
  proof (cases "?W = []")
    case True
    then have "ready = []" using 1(7) by simp
    then show ?thesis using True 1 by (simp add: wave_loop.simps waves_from.simps)
  next
    case False
    have srt: "sort ready = ?W" using 1(6,7) by (intro sorted_distinct_set_unique) auto
    obtain ind' ready' where rel: "release_wave succ ?W (ind, []) = (ind', ready')" by fastforce
    have st: "length ind' = n" "\<forall>i<n. ind' ! i = int (pending E (D \<union> set ?W) i)" "distinct ready'"
      "set ready' = set (next_wave E n (D \<union> set ?W))"
      using release_next_wave [OF 1(2-5) 1(8,9) refl rel] by auto
    have "D \<union> set ?W \<subseteq> {..<n}" using 1(8) by (auto simp: next_wave_mem)
    then obtain final where "wave_loop succ ready' ind' = (waves_from E n (D \<union> set ?W), final)" "length final = n"
      "\<forall>i<n. final ! i = int (pending E ((D \<union> set ?W) \<union> set (concat (waves_from E n (D \<union> set ?W)))) i)"
      using 1(1) [OF False 1(2) st(1) 1(4) _ st(3,4)] st(2) next_wave_step(2) [OF 1(8,9) refl] by blast
    then show ?thesis using False rel srt 1(7)
      by (auto simp: wave_loop.simps [of succ ready] waves_from.simps [of E n D] Un_assoc)
  qed
qed

section \<open>What the waves are\<close>

definition placed_in :: "nat list list \<Rightarrow> nat set" where
  "placed_in ws = set (concat ws)"

lemma waves_from_placed:
  "distinct (concat (waves_from E n D)) \<and> placed_in (waves_from E n D) \<subseteq> {..<n} - D
     \<and> (\<forall>w\<in>set (waves_from E n D). w \<noteq> [] \<and> sorted w)"
proof (induction E n D rule: waves_from.induct)
  case (1 E n D)
  show ?case
  proof (cases "next_wave E n D = []")
    case False
    note IH = 1 [OF False]
    have "i \<in> set (next_wave E n D) \<Longrightarrow> i < n \<and> i \<notin> D" for i by (simp add: next_wave_mem)
    then show ?thesis using IH False by (auto simp: waves_from.simps [of E n D] placed_in_def)
  qed (simp add: waves_from.simps placed_in_def)
qed

lemma waves_from_preds:
  "k < length (waves_from E n D) \<Longrightarrow> s \<in> set (waves_from E n D ! k) \<Longrightarrow> (p, s) \<in> set E
    \<Longrightarrow> p \<in> D \<union> placed_in (take k (waves_from E n D))"
proof (induction E n D arbitrary: k rule: waves_from.induct)
  case (1 E n D)
  then have ne: "next_wave E n D \<noteq> []" by (auto simp: waves_from.simps [of E n D] split: if_splits)
  have "pending E D s = 0 \<Longrightarrow> p \<in> D" using 1(4) by (auto simp: pending_zero)
  then show ?case using ne 1(2-) 1(1) [OF ne]
    by (cases k) (auto simp: waves_from.simps [of E n D] placed_in_def next_wave_mem)
qed

lemma next_wave_tight:
  assumes "s \<in> set (next_wave E n (D \<union> W))" "W = set (next_wave E n D)"
  shows "\<exists>p. (p, s) \<in> set E \<and> p \<in> W"
proof -
  have s: "s < n" "s \<notin> D" "s \<notin> W" "pending E (D \<union> W) s = 0" using assms(1) by (simp_all add: next_wave_mem)
  then have "pending E D s \<noteq> 0" by (simp add: assms(2) next_wave_mem)
  then obtain e where "e \<in> set E" "snd e = s" "fst e \<notin> D" by (auto simp: pending_zero)
  moreover from this have "fst e \<in> D \<union> W" using s(4) pending_zero [of E "D \<union> W" s] by blast
  ultimately show ?thesis by (intro exI [of _ "fst e"]) auto
qed

lemma waves_from_tight:
  "Suc k < length (waves_from E n D) \<Longrightarrow> s \<in> set (waves_from E n D ! Suc k)
    \<Longrightarrow> \<exists>p. (p, s) \<in> set E \<and> p \<in> set (waves_from E n D ! k)"
proof (induction E n D arbitrary: k rule: waves_from.induct)
  case (1 E n D)
  define W where "W = next_wave E n D"
  have ne: "W \<noteq> []" using 1(2) by (auto simp: W_def waves_from.simps [of E n D] split: if_splits)
  have ws: "waves_from E n D = W # waves_from E n (D \<union> set W)" using ne by (simp add: W_def waves_from.simps [of E n D])
  show ?case
  proof (cases k)
    case 0
    then have s: "0 < length (waves_from E n (D \<union> set W))" "s \<in> set (waves_from E n (D \<union> set W) ! 0)" using 1(2,3) ws by simp_all
    then have "s \<in> set (next_wave E n (D \<union> set W))"
      by (subst (asm) (2) waves_from.simps, subst (asm) waves_from.simps) (simp split: if_splits)
    then show ?thesis using next_wave_tight [of s E n D "set W"] 0 ws by (simp add: W_def)
  next
    case (Suc j)
    then show ?thesis using 1(1) [OF ne [unfolded W_def], of j] 1(2,3) ws by (simp add: W_def)
  qed
qed

lemma waves_from_left:
  "i < n \<Longrightarrow> i \<notin> D \<union> placed_in (waves_from E n D) \<Longrightarrow>
    \<exists>p. (p, i) \<in> set E \<and> p \<notin> D \<union> placed_in (waves_from E n D)"
proof (induction E n D rule: waves_from.induct)
  case (1 E n D)
  let ?W = "next_wave E n D"
  show ?case
  proof (cases "?W = []")
    case True
    then have none: "waves_from E n D = []" by (simp add: waves_from.simps)
    have "i \<notin> set ?W" using True by simp
    then have "pending E D i \<noteq> 0" using 1(2,3) by (simp add: next_wave_mem none)
    then show ?thesis by (auto simp: pending_zero none placed_in_def)
  next
    case False
    have ws: "placed_in (waves_from E n D) = set ?W \<union> placed_in (waves_from E n (D \<union> set ?W))"
      using False by (simp add: waves_from.simps [of E n D] placed_in_def)
    show ?thesis using 1(1) [OF False 1(2)] 1(3) unfolding ws by blast
  qed
qed

lemma waves_from_settled:
  assumes "i \<in> placed_in (waves_from E n D)" "(p, i) \<in> set E"
  shows "p \<in> D \<union> placed_in (waves_from E n D)"
proof -
  obtain w where "w \<in> set (waves_from E n D)" "i \<in> set w" using assms(1) by (auto simp: placed_in_def)
  then obtain k where k: "k < length (waves_from E n D)" "i \<in> set (waves_from E n D ! k)" by (auto simp: in_set_conv_nth [of w])
  have "placed_in (take k (waves_from E n D)) \<subseteq> placed_in (waves_from E n D)" by (auto simp: placed_in_def dest: in_set_takeD)
  then show ?thesis using waves_from_preds [OF k assms(2)] by blast
qed

lemma waves_all_acyclic:
  assumes "in_range n E" "placed_in (waves_from E n {}) = {..<n}"
  shows "acyclic (set E)"
proof -
  let ?ws = "waves_from E n {}"
  define level where "level i = (LEAST k. k < length ?ws \<and> i \<in> set (?ws ! k))" for i
  have lev: "level i < length ?ws \<and> i \<in> set (?ws ! level i)" if i: "i < n" for i
  proof -
    have "i \<in> \<Union> (set ` set ?ws)" using i assms(2) by (simp add: placed_in_def)
    then obtain w where "w \<in> set ?ws" "i \<in> set w" by blast
    then have "\<exists>k. k < length ?ws \<and> i \<in> set (?ws ! k)" by (metis in_set_conv_nth)
    then show ?thesis unfolding level_def by (rule LeastI_ex)
  qed
  have up: "level p < level s" if e: "(p, s) \<in> set E" for p s
  proof -
    have "s < n" using e assms(1) by (auto simp: in_range_def)
    then have "p \<in> placed_in (take (level s) ?ws)" using waves_from_preds [of "level s" E n "{}" s p] lev e by simp
    then obtain w where "w \<in> set (take (level s) ?ws)" "p \<in> set w" by (auto simp: placed_in_def)
    then obtain j where "j < level s" "j < length ?ws" "p \<in> set (?ws ! j)"
      by (auto simp: in_set_conv_nth [of w])
    then show ?thesis unfolding level_def [of p] using Least_le [of "\<lambda>k. k < length ?ws \<and> p \<in> set (?ws ! k)" j] by force
  qed
  have "level x < level y" if "(x, y) \<in> (set E)\<^sup>+" for x y
    using that by (induction rule: trancl_induct) (auto dest: up)
  then show ?thesis by (auto simp: acyclic_def)
qed

lemma waves_left_cyclic:
  assumes "in_range n E" "R = {..<n} - placed_in (waves_from E n {})" "R \<noteq> {}"
  shows "\<not> acyclic (set E \<inter> R \<times> R)"
proof
  assume "acyclic (set E \<inter> R \<times> R)"
  then have "wf (set E \<inter> R \<times> R)" by (simp add: finite_acyclic_wf)
  then obtain z where "z \<in> R" "\<And>y. (y, z) \<in> set E \<inter> R \<times> R \<Longrightarrow> y \<notin> R" using assms(3) by (meson wfE_min ex_in_conv)
  moreover obtain p where "(p, z) \<in> set E" "p \<notin> placed_in (waves_from E n {})"
    using waves_from_left [of z n "{}" E] \<open>z \<in> R\<close> assms(2) by auto
  ultimately show False using assms(1,2) by (auto simp: in_range_def)
qed

section \<open>Reported cycles\<close>

definition is_cycle :: "(nat \<Rightarrow> nat list) \<Rightarrow> nat list \<Rightarrow> bool" where
  "is_cycle succ c \<longleftrightarrow> c \<noteq> [] \<and> distinct c \<and> successively (\<lambda>x y. y \<in> set (succ x)) c \<and> hd c \<in> set (succ (last c))"

definition is_path :: "(nat \<Rightarrow> nat list) \<Rightarrow> nat list \<Rightarrow> nat list \<Rightarrow> bool" where
  "is_path succ residual stack \<longleftrightarrow> stack \<noteq> [] \<and> distinct stack \<and> successively (\<lambda>x y. y \<in> set (succ x)) stack \<and> set stack \<subseteq> set residual"

lemma path_suffix_cycle:
  assumes "is_path succ residual stack" "s \<in> set stack" "s \<in> set (succ (last stack))"
  shows "is_cycle succ (dropWhile (\<lambda>x. x \<noteq> s) stack) \<and> set (dropWhile (\<lambda>x. x \<noteq> s) stack) \<subseteq> set residual"
proof -
  obtain xs ys where st: "stack = xs @ s # ys" "s \<notin> set xs" using split_list_first [OF assms(2)] by blast
  have "s \<notin> set xs \<Longrightarrow> dropWhile (\<lambda>x. x \<noteq> s) (xs @ s # ys) = s # ys" by (induction xs) auto
  then have "dropWhile (\<lambda>x. x \<noteq> s) stack = s # ys" using st by simp
  then show ?thesis using assms(1,3) st by (auto simp: is_cycle_def is_path_def successively_append_iff)
qed

lemma dfs_sound:
  "dfs succ residual stack ss visited = (Some c, visited') \<Longrightarrow> is_path succ residual stack
    \<Longrightarrow> set ss \<subseteq> set (succ (last stack)) \<Longrightarrow> is_cycle succ c \<and> set c \<subseteq> set residual"
proof (induction succ residual stack ss visited arbitrary: visited' rule: dfs.induct)
  case (2 succ residual stack s ss visited)
  show ?case
  proof (cases "s \<in> set stack")
    case True
    then show ?thesis using 2(4-) path_suffix_cycle by fastforce
  next
    case False
    show ?thesis
    proof (cases "s \<in> set residual \<and> s \<notin> set visited")
      case True
      have path: "is_path succ residual (stack @ [s])"
        using 2(5,6) False True by (auto simp: is_path_def successively_append_iff)
      show ?thesis
        using 2(1) [OF False True _ path] 2(2) [OF False True] 2(4-) False True
        by (auto split: prod.splits option.splits)
    next
      case False': False
      then show ?thesis using 2(3) [OF False False'] 2(4-) False by auto
    qed
  qed
qed simp

text \<open>A search without a result leaves a set of visited nodes that is closed under the edges inside
  the residual and has no cycle.\<close>

definition explored :: "(nat \<Rightarrow> nat list) \<Rightarrow> nat list \<Rightarrow> nat list \<Rightarrow> nat list \<Rightarrow> bool" where
  "explored succ residual stack visited \<longleftrightarrow> set stack \<inter> set visited = {}
     \<and> (\<forall>v\<in>set visited. set (succ v) \<inter> set residual \<subseteq> set visited)
     \<and> acyclic {(x, y). x \<in> set visited \<and> y \<in> set visited \<and> y \<in> set (succ x)}"

lemma acyclic_insert_source:
  assumes "acyclic R" "\<And>x. (x, s) \<notin> R'" "\<And>x y. (x, y) \<in> R' \<Longrightarrow> x = s \<or> (x, y) \<in> R"
  shows "acyclic R'"
proof -
  have reach: "x = s \<or> (x, y) \<in> R\<^sup>+" if "(x, y) \<in> R'\<^sup>+" for x y
    using that
  proof (induction rule: converse_trancl_induct)
    case (base x)
    then show ?case using assms(3) by blast
  next
    case (step x z)
    then have "z \<noteq> s" using assms(2) by blast
    then show ?case using step assms(3) [OF step(1)] by (meson trancl_into_trancl2)
  qed
  have "(x, x) \<notin> R'\<^sup>+" for x
  proof
    assume c: "(x, x) \<in> R'\<^sup>+"
    then have "x \<noteq> s" using assms(2) by (metis tranclE)
    then show False using reach [OF c] assms(1) by (simp add: acyclic_def)
  qed
  then show ?thesis by (simp add: acyclic_def)
qed

lemma explored_finish:
  assumes "explored succ residual (stack @ [s]) visited" "set (succ s) \<inter> set residual \<subseteq> set visited" "s \<notin> set stack" "s \<in> set residual"
  shows "explored succ residual stack (s # visited)"
proof -
  have sv: "s \<notin> set visited" and closed: "\<And>v. v \<in> set visited \<Longrightarrow> set (succ v) \<inter> set residual \<subseteq> set visited"
    and acyc: "acyclic {(x, y). x \<in> set visited \<and> y \<in> set visited \<and> y \<in> set (succ x)}" and disj: "set stack \<inter> set visited = {}"
    using assms(1) unfolding explored_def by auto
  have "s \<notin> set (succ x)" if "x \<in> set (s # visited)" for x
    using that sv closed [of x] assms(2,4) by (cases "x = s") auto
  then have "acyclic {(x, y). x \<in> set (s # visited) \<and> y \<in> set (s # visited) \<and> y \<in> set (succ x)}"
    by (intro acyclic_insert_source [OF acyc, of s]) auto
  moreover have "set (succ v) \<inter> set residual \<subseteq> set (s # visited)" if "v \<in> set (s # visited)" for v
    using that closed [of v] assms(2) by (cases "v = s") auto
  ultimately show ?thesis using disj assms(3) unfolding explored_def by auto
qed

lemma dfs_complete:
  "dfs succ residual stack ss visited = (None, visited') \<Longrightarrow> explored succ residual stack visited
    \<Longrightarrow> explored succ residual stack visited' \<and> set visited \<subseteq> set visited' \<and> set ss \<inter> set residual \<subseteq> set visited'"
proof (induction succ residual stack ss visited arbitrary: visited' rule: dfs.induct)
  case (2 succ residual stack s ss visited)
  have ns: "s \<notin> set stack" using 2(4) by (auto split: if_splits)
  show ?case
  proof (cases "s \<in> set residual \<and> s \<notin> set visited")
    case True
    obtain r v where inner: "dfs succ residual (stack @ [s]) (sort (succ s)) visited = (r, v)" by fastforce
    have r: "r = None" using 2(4) ns True inner by (auto split: option.splits)
    have outer: "dfs succ residual stack ss (s # v) = (None, visited')" using 2(4) ns True inner r by simp
    have "explored succ residual (stack @ [s]) visited" using 2(5) True by (auto simp: explored_def)
    then have "explored succ residual (stack @ [s]) v" "set visited \<subseteq> set v" "set (succ s) \<inter> set residual \<subseteq> set v"
      using 2(1) [OF ns True inner [unfolded r]] by simp_all
    moreover from this have "explored succ residual stack (s # v)" using explored_finish ns True by blast
    ultimately show ?thesis using 2(2) [OF ns True inner [symmetric, unfolded r] refl outer] by auto
  next
    case False
    then have "dfs succ residual stack ss visited = (None, visited')" using 2(4) ns by auto
    from 2(3) [OF ns False this 2(5)] show ?thesis using False by auto
  qed
qed auto

lemma search_cycles_sound:
  "search_cycles succ residual rs visited = Some c \<Longrightarrow> set rs \<subseteq> set residual \<Longrightarrow> is_cycle succ c \<and> set c \<subseteq> set residual"
proof (induction succ residual rs visited rule: search_cycles.induct)
  case (2 succ residual r rs visited)
  show ?case
  proof (cases "r \<in> set visited")
    case True
    then show ?thesis using 2(1) [OF True] 2(3,4) by simp
  next
    case False
    obtain d v where d: "dfs succ residual [r] (sort (succ r)) visited = (d, v)" by fastforce
    have path: "is_path succ residual [r]" using 2(4) by (simp add: is_path_def)
    show ?thesis
    proof (cases d)
      case None
      have "search_cycles succ residual rs (r # v) = Some c" using 2(3) False d None by simp
      then show ?thesis using 2(2) [OF False d [symmetric, unfolded None] refl] 2(4) by simp
    next
      case (Some c')
      then have "c' = c" using 2(3) False d by simp
      then show ?thesis using dfs_sound [OF d [unfolded Some] path] by simp
    qed
  qed
qed simp

lemma search_cycles_complete:
  "search_cycles succ residual rs visited = None \<Longrightarrow> explored succ residual [] visited \<Longrightarrow> set rs \<subseteq> set residual \<Longrightarrow>
    \<exists>visited'. explored succ residual [] visited' \<and> set visited \<subseteq> set visited' \<and> set rs \<subseteq> set visited'"
proof (induction succ residual rs visited rule: search_cycles.induct)
  case (2 succ residual r rs visited)
  show ?case
  proof (cases "r \<in> set visited")
    case True
    then show ?thesis using 2(1) [OF True] 2(3-) by auto
  next
    case False
    obtain c v where d: "dfs succ residual [r] (sort (succ r)) visited = (c, v)" by fastforce
    have c: "c = None" using 2(3) False d by (auto split: option.splits)
    have rest: "search_cycles succ residual rs (r # v) = None" using 2(3) False d c by simp
    have "explored succ residual ([] @ [r]) visited" using 2(4) False by (auto simp: explored_def)
    then have "explored succ residual ([] @ [r]) v" "set visited \<subseteq> set v" "set (succ r) \<inter> set residual \<subseteq> set v"
      using dfs_complete [OF d [unfolded c]] by simp_all
    moreover from this have "explored succ residual [] (r # v)" using explored_finish [of succ residual "[]" r v] 2(5) by simp
    moreover have "set rs \<subseteq> set residual" using 2(5) by simp
    ultimately obtain v' where "explored succ residual [] v'" "set (r # v) \<subseteq> set v'" "set rs \<subseteq> set v'"
      using 2(2) [OF False d [symmetric, unfolded c] refl rest] by blast
    then show ?thesis using \<open>set visited \<subseteq> set v\<close> by (intro exI [of _ v']) auto
  qed
qed auto

text \<open>The search finds a cycle whenever the residual has one.\<close>

lemma find_cycle_members_cycle:
  assumes "\<not> acyclic {(x, y). x \<in> set residual \<and> y \<in> set residual \<and> y \<in> set (succ x)}"
  shows "is_cycle succ (find_cycle_members residual succ) \<and> set (find_cycle_members residual succ) \<subseteq> set residual"
proof (cases "search_cycles succ residual (sort residual) []")
  case None
  then obtain v where v: "explored succ residual [] v" "set residual \<subseteq> set v"
    using search_cycles_complete [of succ residual "sort residual" "[]"] by (auto simp: explored_def acyclic_def)
  then have "acyclic {(x, y). x \<in> set residual \<and> y \<in> set residual \<and> y \<in> set (succ x)}"
    by (auto simp: explored_def elim!: acyclic_subset)
  then show ?thesis using assms by simp
next
  case (Some c)
  then show ?thesis using search_cycles_sound [OF Some] by (simp add: find_cycle_members_def)
qed

section \<open>The index agrees with the scan\<close>

definition looked_up :: "('k, 'v list) dict \<Rightarrow> 'k \<Rightarrow> 'v list" where
  "looked_up d k = (case map_of d k of None \<Rightarrow> [] | Some vs \<Rightarrow> vs)"

lemma looked_up_attach_index [simp]: "looked_up (attach_index k v d) k' = (if k' = k then looked_up d k @ [v] else looked_up d k')"
  by (simp add: looked_up_def attach_index_def update_conv')

lemma looked_up_refs:
  "looked_up (index_refs i ns d) r = looked_up d r @ map fst (filter (\<lambda>(j, n). xn_ref n = r) (enumerate i ns))"
  by (induction i ns d rule: index_refs.induct) auto

lemma place_leaves_fresh:
  "place_leaves i ref leaves (placed, by_leaf) = Inr ix \<Longrightarrow> leaf \<in> set leaves \<Longrightarrow> map_of placed leaf = None"
proof (induction leaves arbitrary: placed by_leaf)
  case (Cons l leaves)
  then show ?case by (fastforce simp: update_conv' split: option.splits if_splits)
qed simp

lemma looked_up_place:
  "place_leaves i ref leaves (placed, by_leaf) = Inr (placed', by_leaf') \<Longrightarrow>
   looked_up by_leaf' (r, leaf) = looked_up by_leaf (r, leaf) @ (if r = ref \<and> leaf \<in> set leaves then [i] else [])"
proof (induction leaves arbitrary: placed by_leaf)
  case (Cons l leaves)
  have run: "place_leaves i ref leaves (AList.update l ref placed, attach_index (ref, l) i by_leaf) = Inr (placed', by_leaf')"
    using Cons.prems by (simp split: option.splits)
  have "l \<notin> set leaves" using place_leaves_fresh [OF run, of l] by (auto simp: update_conv')
  then show ?case using Cons.IH [OF run] by auto
qed simp

lemma looked_up_leaves:
  "index_leaves i ns (placed, by_leaf) = Inr (placed', by_leaf') \<Longrightarrow> looked_up by_leaf' (r, leaf)
     = looked_up by_leaf (r, leaf) @ map fst (filter (\<lambda>(j, n). xn_ref n = r \<and> leaf \<in> set (xn_leafIds n)) (enumerate i ns))"
proof (induction ns arbitrary: i placed by_leaf)
  case (Cons n ns)
  obtain placed1 by_leaf1 where p: "place_leaves i (xn_ref n) (xn_leafIds n) (placed, by_leaf) = Inr (placed1, by_leaf1)"
    and rest: "index_leaves (Suc i) ns (placed1, by_leaf1) = Inr (placed', by_leaf')"
    using Cons.prems by (auto simp: rbind_eq_Inr_iff)
  show ?case using Cons.IH [OF rest] looked_up_place [OF p, of r leaf] by auto
qed simp

lemma scan_enumerated: "filter P xs = map snd (filter (\<lambda>(j, x). P x) (enumerate i xs))"
  by (induction xs arbitrary: i) auto

definition wanted :: "exec_endpoint \<Rightarrow> exec_node \<Rightarrow> bool" where
  "wanted ep n \<longleftrightarrow> xn_ref n = endpoint_ref ep \<and> (case endpoint_leaf ep of None \<Rightarrow> True | Some leaf \<Rightarrow> leaf \<in> set (xn_leafIds n))"

lemma resolve_endpoint_scan:
  assumes "build_endpoint_index nodes = Inr (by_ref, by_leaf)"
  shows "case resolve_endpoint by_ref by_leaf ep of
      Inl e \<Rightarrow> resolve_graph_endpoint nodes ep = Inl e
    | Inr i \<Rightarrow> i < length nodes \<and> resolve_graph_endpoint nodes ep = Inr (nodes ! i)"
proof -
  let ?hits = "filter (\<lambda>(j, n). wanted ep n) (enumerate 0 nodes)"
  obtain placed where ix: "by_ref = index_refs 0 nodes []" "index_leaves 0 nodes ([], []) = Inr (placed, by_leaf)"
    using assms by (auto simp: build_endpoint_index_def rbind_eq_Inr_iff Let_def)
  have idx: "(case (case endpoint_leaf ep of Some leaf \<Rightarrow> map_of by_leaf (endpoint_ref ep, leaf)
      | None \<Rightarrow> map_of by_ref (endpoint_ref ep)) of None \<Rightarrow> [] | Some m \<Rightarrow> m) = map fst ?hits"
  proof (cases "endpoint_leaf ep")
    case None
    then show ?thesis using looked_up_refs [of 0 nodes "[]" "endpoint_ref ep"] by (simp add: ix(1) looked_up_def wanted_def)
  next
    case (Some leaf)
    then show ?thesis using looked_up_leaves [OF ix(2), of "endpoint_ref ep" leaf] by (simp add: looked_up_def wanted_def)
  qed
  have scan: "(case endpoint_leaf ep of None \<Rightarrow> filter (\<lambda>n. xn_ref n = endpoint_ref ep) nodes
      | Some leaf \<Rightarrow> filter (\<lambda>n. leaf \<in> set (xn_leafIds n)) (filter (\<lambda>n. xn_ref n = endpoint_ref ep) nodes)) = map snd ?hits"
    unfolding filter_filter wanted_def by (cases "endpoint_leaf ep") (simp_all add: scan_enumerated [of _ nodes 0])
  have mem: "x \<in> set ?hits \<Longrightarrow> fst x < length nodes \<and> nodes ! fst x = snd x" for x
    by (auto simp: in_set_enumerate_eq)
  show ?thesis
  proof (cases ?hits)
    case Nil
    then show ?thesis using idx scan by (simp add: resolve_endpoint_def resolve_graph_endpoint_def split: option.splits)
  next
    case (Cons x xs)
    then show ?thesis using idx scan mem [of x]
      by (cases xs) (simp_all add: resolve_endpoint_def resolve_graph_endpoint_def)
  qed
qed

lemma resolve_each_spec:
  assumes "build_endpoint_index nodes = Inr (by_ref, by_leaf)" "resolve_each by_ref by_leaf edges = Inr resolved"
  shows "in_range (length nodes) resolved \<and> length resolved = length edges \<and> (\<forall>i<length edges.
      resolve_graph_endpoint nodes (xe_predecessor (edges ! i)) = Inr (nodes ! fst (resolved ! i)) \<and>
      resolve_graph_endpoint nodes (xe_successor (edges ! i)) = Inr (nodes ! snd (resolved ! i)))"
  using assms(2)
proof (induction edges arbitrary: resolved)
  case (Cons e edges)
  obtain p s rest where ps: "resolve_endpoint by_ref by_leaf (xe_predecessor e) = Inr p"
    "resolve_endpoint by_ref by_leaf (xe_successor e) = Inr s" "resolve_each by_ref by_leaf edges = Inr rest" "resolved = (p, s) # rest"
    using Cons.prems by (auto simp: rbind_eq_Inr_iff split: if_splits)
  show ?case using Cons.IH [OF ps(3)] resolve_endpoint_scan [OF assms(1), of "xe_predecessor e"]
      resolve_endpoint_scan [OF assms(1), of "xe_successor e"] ps
    by (auto simp: in_range_def nth_Cons split: nat.splits)
qed (simp add: in_range_def)

section \<open>The result of the derivation\<close>

definition edge_cycle :: "(nat \<times> nat) list \<Rightarrow> nat list \<Rightarrow> bool" where
  "edge_cycle E c \<longleftrightarrow> c \<noteq> [] \<and> distinct c \<and> successively (\<lambda>x y. (x, y) \<in> set E) c \<and> (last c, hd c) \<in> set E"

lemma is_cycle_edges:
  assumes "is_cycle succ c" "\<And>x y. x \<in> set c \<Longrightarrow> y \<in> set (succ x) \<longleftrightarrow> (x, y) \<in> set E"
  shows "edge_cycle E c"
  using assms by (auto simp: is_cycle_def edge_cycle_def elim!: successively_mono)

lemma pending_placed:
  assumes "i < n"
  shows "pending E (placed_in (waves_from E n {})) i = 0 \<longleftrightarrow> i \<in> placed_in (waves_from E n {})"
proof
  assume "i \<in> placed_in (waves_from E n {})"
  then have "fst e \<in> placed_in (waves_from E n {})" if "e \<in> set E" "snd e = i" for e
    using waves_from_settled [of i E n "{}" "fst e"] that by auto
  then show "pending E (placed_in (waves_from E n {})) i = 0" unfolding pending_zero by blast
next
  assume z: "pending E (placed_in (waves_from E n {})) i = 0"
  show "i \<in> placed_in (waves_from E n {})"
  proof (rule ccontr)
    assume "\<not> ?thesis"
    then obtain p where p: "(p, i) \<in> set E" "p \<notin> placed_in (waves_from E n {})"
      using waves_from_left [of i n "{}" E] assms by auto
    then show False using z unfolding pending_zero by force
  qed
qed

lemma derive_waves_result:
  assumes "in_range (length nodes) E"
  shows "if acyclic (set E)
    then derive_waves nodes E = Inr (map (map (\<lambda>i. nodes ! i)) (waves_from E (length nodes) {}))
       \<and> placed_in (waves_from E (length nodes) {}) = {..<length nodes}
    else \<exists>c. derive_waves nodes E = Inl (Cyclic c) \<and> edge_cycle E c \<and> set c \<subseteq> {..<length nodes}"
proof -
  let ?n = "length nodes" and ?ws = "waves_from E (length nodes) {}"
  obtain ind succ where dep: "dependency_state E (replicate ?n 0, replicate ?n []) = (ind, succ)" by fastforce
  have ind: "length ind = ?n" "\<And>i. i < ?n \<Longrightarrow> ind ! i = int (pending E {} i)"
    and succ: "\<And>p. p < ?n \<Longrightarrow> succ ! p = map snd (filter (\<lambda>e. fst e = p) E)"
    using dependency_state_spec [OF dep] by (auto simp: pending_def)
  let ?ready = "filter (\<lambda>i. ind ! i = 0) [0..<?n]"
  have "set ?ready = set (next_wave E ?n {})" using ind(2) by (auto simp: next_wave_mem)
  then obtain final where loop: "wave_loop succ ?ready ind = (?ws, final)"
    and final: "\<And>i. i < ?n \<Longrightarrow> final ! i = int (pending E (placed_in ?ws) i)"
    using wave_loop_waves [OF assms ind(1) succ ind(2), of ?ready] by (auto simp: placed_in_def)
  have ws: "distinct (concat ?ws)" "placed_in ?ws \<subseteq> {..<?n}" using waves_from_placed [of E ?n "{}"] by auto
  have count: "sum_list (map length ?ws) = ?n \<longleftrightarrow> placed_in ?ws = {..<?n}"
  proof -
    have "sum_list (map length ?ws) = card (placed_in ?ws)"
      using distinct_card [OF ws(1)] by (simp add: placed_in_def length_concat)
    moreover have "card (placed_in ?ws) = ?n \<longleftrightarrow> placed_in ?ws = {..<?n}"
      using card_subset_eq [OF finite_lessThan ws(2)] by (metis card_lessThan)
    ultimately show ?thesis by simp
  qed
  have run: "derive_waves nodes E = (if placed_in ?ws = {..<?n} then Inr (map (map (\<lambda>i. nodes ! i)) ?ws)
      else Inl (Cyclic (find_cycle_members (filter (\<lambda>i. 0 < final ! i) [0..<?n]) (\<lambda>i. succ ! i))))"
    using count by (simp add: derive_waves_def Let_def dep loop)
  show ?thesis
  proof (cases "placed_in ?ws = {..<?n}")
    case True
    then show ?thesis using run waves_all_acyclic [OF assms True] by simp
  next
    case False
    let ?left = "{..<?n} - placed_in ?ws" and ?res = "filter (\<lambda>i. 0 < final ! i) [0..<?n]"
    have res: "set ?res = ?left"
    proof (rule set_eqI)
      fix i
      show "i \<in> set ?res \<longleftrightarrow> i \<in> ?left"
        using final [of i] pending_placed [of i ?n E] by (cases "i < ?n") (simp_all add: neq0_conv [symmetric] del: neq0_conv)
    qed
    have cyc: "\<not> acyclic (set E \<inter> ?left \<times> ?left)" using waves_left_cyclic [OF assms refl] False ws(2) by blast
    have edge: "y \<in> set (succ ! x) \<longleftrightarrow> (x, y) \<in> set E" if "x < ?n" for x y using succ [OF that] by force
    have "\<not> acyclic {(x, y). x \<in> set ?res \<and> y \<in> set ?res \<and> y \<in> set (succ ! x)}"
    proof -
      have "{(x, y). x \<in> set ?res \<and> y \<in> set ?res \<and> y \<in> set (succ ! x)} = set E \<inter> ?left \<times> ?left"
        unfolding res using edge by auto
      then show ?thesis using cyc by simp
    qed
    from find_cycle_members_cycle [OF this]
    have c: "is_cycle (\<lambda>i. succ ! i) (find_cycle_members ?res (\<lambda>i. succ ! i))"
      "set (find_cycle_members ?res (\<lambda>i. succ ! i)) \<subseteq> ?left" unfolding res by blast+
    have "edge_cycle E (find_cycle_members ?res (\<lambda>i. succ ! i))"
    proof (rule is_cycle_edges [OF c(1)])
      fix x y assume "x \<in> set (find_cycle_members ?res (\<lambda>i. succ ! i))"
      then have "x < ?n" using c(2) by blast
      then show "y \<in> set (succ ! x) \<longleftrightarrow> (x, y) \<in> set E" by (rule edge)
    qed
    moreover have "\<not> acyclic (set E)" using cyc acyclic_subset [OF _ Int_lower1] by blast
    moreover have "set (find_cycle_members ?res (\<lambda>i. succ ! i)) \<subseteq> {..<?n}" using c(2) by blast
    ultimately show ?thesis using run False by simp
  qed
qed

section \<open>Properties\<close>

lemma resolve_graph_Inr:
  assumes "resolve_graph nodes edges = Inr (resolved, index)"
  shows "\<exists>by_ref by_leaf. build_endpoint_index nodes = Inr (by_ref, by_leaf) \<and> resolve_each by_ref by_leaf edges = Inr resolved
    \<and> distinct resolved"
  using assms by (auto simp: resolve_graph_def resolve_edges_def rbind_eq_Inr_iff split: prod.splits if_splits)

text \<open>Looking an endpoint up is scanning for it: on every list of nodes the ownership check accepts,
  the indexed resolution of an endpoint finds the position of the node that the scan over the nodes
  finds, and refuses exactly the endpoints the scan refuses, for the same reason.\<close>

lemma endpoint_index_is_scan:
  assumes "build_endpoint_index nodes = Inr (by_ref, by_leaf)"
  shows "case resolve_endpoint by_ref by_leaf ep of
      Inl e \<Rightarrow> resolve_graph_endpoint nodes ep = Inl e
    | Inr i \<Rightarrow> i < length nodes \<and> resolve_graph_endpoint nodes ep = Inr (nodes ! i)"
  by (rule resolve_endpoint_scan [OF assms])

text \<open>C13. The waves are the schedule: an admitted graph places every node in exactly one wave, in
  declaration order within a wave; the predecessor of every edge is in an earlier wave than its
  successor; and no node waits without need, since every node after the first wave has a
  predecessor in the wave before. The resolved edges are the declared ones, in order.\<close>

theorem waves_schedule_every_node:
  assumes "validate_execution_graph nodes edges = Inr analysis"
  shows "\<exists>ws. ga_waves analysis = map (map (\<lambda>i. nodes ! i)) ws \<and> distinct (concat ws)
    \<and> set (concat ws) = {..<length nodes} \<and> (\<forall>w\<in>set ws. w \<noteq> [] \<and> sorted w)
    \<and> (\<forall>k s p. k < length ws \<and> s \<in> set (ws ! k) \<and> (p, s) \<in> set (ga_resolvedEdgeIndexes analysis)
          \<longrightarrow> (\<exists>j<k. p \<in> set (ws ! j)))
    \<and> (\<forall>k s. Suc k < length ws \<and> s \<in> set (ws ! Suc k)
          \<longrightarrow> (\<exists>p. (p, s) \<in> set (ga_resolvedEdgeIndexes analysis) \<and> p \<in> set (ws ! k)))
    \<and> length (ga_resolvedEdgeIndexes analysis) = length edges
    \<and> (\<forall>i<length edges.
        resolve_graph_endpoint nodes (xe_predecessor (edges ! i)) = Inr (nodes ! fst (ga_resolvedEdgeIndexes analysis ! i))
      \<and> resolve_graph_endpoint nodes (xe_successor (edges ! i)) = Inr (nodes ! snd (ga_resolvedEdgeIndexes analysis ! i)))"
proof -
  obtain E index waves where res: "resolve_graph nodes edges = Inr (E, index)" and der: "derive_waves nodes E = Inr waves"
    and an: "analysis = \<lparr>ga_resolvedEdgeIndexes = E, ga_waves = waves\<rparr>"
    using assms by (auto simp: validate_execution_graph_def rbind_eq_Inr_iff)
  obtain by_ref by_leaf where "build_endpoint_index nodes = Inr (by_ref, by_leaf)" "resolve_each by_ref by_leaf edges = Inr E"
    using resolve_graph_Inr [OF res] by blast
  note spec = resolve_each_spec [OF this]
  let ?ws = "waves_from E (length nodes) {}"
  have w: "waves = map (map (\<lambda>i. nodes ! i)) ?ws" and all: "placed_in ?ws = {..<length nodes}"
    using derive_waves_result [of nodes E] spec der by (auto split: if_splits)
  have earlier: "\<exists>j<k. p \<in> set (?ws ! j)" if e: "k < length ?ws" "s \<in> set (?ws ! k)" "(p, s) \<in> set E" for k s p
  proof -
    obtain u where "u \<in> set (take k ?ws)" "p \<in> set u" using waves_from_preds [OF e] by (auto simp: placed_in_def)
    then show ?thesis by (auto simp: in_set_conv_nth [of u])
  qed
  have "\<forall>k s p. k < length ?ws \<and> s \<in> set (?ws ! k) \<and> (p, s) \<in> set E \<longrightarrow> (\<exists>j<k. p \<in> set (?ws ! j))"
    using earlier by blast
  moreover have "\<forall>k s. Suc k < length ?ws \<and> s \<in> set (?ws ! Suc k) \<longrightarrow> (\<exists>p. (p, s) \<in> set E \<and> p \<in> set (?ws ! k))"
    using waves_from_tight by blast
  ultimately show ?thesis
    using waves_from_placed [of E "length nodes" "{}"] all spec by (intro exI [of _ ?ws]) (simp add: an w placed_in_def)
qed

text \<open>C14. A graph is refused as cyclic if and only if it is: when the endpoints resolve, the validation
  succeeds exactly on acyclic graphs, and the members it reports for a refused one are a cycle of
  the graph, each followed by a successor of it and the last by the first.\<close>

theorem cycle_refusal_exact:
  assumes "resolve_graph nodes edges = Inr (resolved, index)"
  shows "((\<exists>analysis. validate_execution_graph nodes edges = Inr analysis) \<longleftrightarrow> acyclic (set resolved))
    \<and> (\<forall>e. validate_execution_graph nodes edges = Inl e
          \<longrightarrow> (\<exists>c. e = Cyclic c \<and> edge_cycle resolved c \<and> set c \<subseteq> {..<length nodes}))"
proof -
  obtain by_ref by_leaf where "build_endpoint_index nodes = Inr (by_ref, by_leaf)" "resolve_each by_ref by_leaf edges = Inr resolved"
    using resolve_graph_Inr [OF assms] by blast
  then have "in_range (length nodes) resolved" using resolve_each_spec by blast
  note res = derive_waves_result [OF this]
  have "(\<exists>analysis. validate_execution_graph nodes edges = Inr analysis) \<longleftrightarrow> acyclic (set resolved)"
    using assms res by (auto simp: validate_execution_graph_def split: if_splits)
  moreover have "\<exists>c. e = Cyclic c \<and> edge_cycle resolved c \<and> set c \<subseteq> {..<length nodes}"
    if "validate_execution_graph nodes edges = Inl e" for e
    using that assms res by (auto simp: validate_execution_graph_def rbind_eq_Inl_iff split: if_splits)
  ultimately show ?thesis by blast
qed

section \<open>Witnesses\<close>

definition sample_ref :: "string \<Rightarrow> task_document_ref" where
  "sample_ref p = \<lparr>repository = ''repo'', ref_path = p\<rparr>"

definition sample_nodes :: "exec_node list" where
  "sample_nodes = [\<lparr>xn_kind = Segment, xn_ref = sample_ref ''b'', xn_leafIds = [''L1'', ''L2'']\<rparr>,
     \<lparr>xn_kind = Lump, xn_ref = sample_ref ''a'', xn_leafIds = []\<rparr>,
     \<lparr>xn_kind = Segment, xn_ref = sample_ref ''b'', xn_leafIds = [''L3'']\<rparr>]"

definition sample_edge :: "exec_endpoint \<Rightarrow> exec_endpoint \<Rightarrow> exec_edge" where
  "sample_edge p s = \<lparr>xe_predecessor = p, xe_successor = s, xe_reason = ''api'', xe_judgmentId = None\<rparr>"

definition sample_edges :: "exec_edge list" where
  "sample_edges = [sample_edge (Bare (sample_ref ''a'')) (Endpoint (sample_ref ''b'') (Some ''L2'')),
     sample_edge (Endpoint (sample_ref ''b'') (Some ''L1'')) (Endpoint (sample_ref ''b'') (Some ''L3''))]"

definition sample_cycle :: "exec_edge list" where
  "sample_cycle = sample_edges @ [sample_edge (Endpoint (sample_ref ''b'') (Some ''L3'')) (Bare (sample_ref ''a''))]"

lemma endpoint_index_is_scan_witness:
  "\<exists>by_ref by_leaf. build_endpoint_index sample_nodes = Inr (by_ref, by_leaf)
     \<and> resolve_endpoint by_ref by_leaf (Bare (sample_ref ''b'')) = Inl (Endpoint_ambiguous (sample_ref ''b''))
     \<and> resolve_graph_endpoint sample_nodes (Bare (sample_ref ''b'')) = Inl (Endpoint_ambiguous (sample_ref ''b''))"
proof -
  have "case build_endpoint_index sample_nodes of
      Inr (by_ref, by_leaf) \<Rightarrow> resolve_endpoint by_ref by_leaf (Bare (sample_ref ''b'')) = Inl (Endpoint_ambiguous (sample_ref ''b''))
    | _ \<Rightarrow> False" by code_simp
  then obtain by_ref by_leaf where b: "build_endpoint_index sample_nodes = Inr (by_ref, by_leaf)"
    "resolve_endpoint by_ref by_leaf (Bare (sample_ref ''b'')) = Inl (Endpoint_ambiguous (sample_ref ''b''))"
    by (auto split: sum.splits)
  then show ?thesis using endpoint_index_is_scan [OF b(1), of "Bare (sample_ref ''b'')"] by auto
qed

theorem waves_schedule_every_node_witness:
  "\<exists>analysis ws. validate_execution_graph sample_nodes sample_edges = Inr analysis
     \<and> ga_waves analysis = map (map (\<lambda>i. sample_nodes ! i)) ws \<and> set (concat ws) = {..<3}"
proof -
  have "case validate_execution_graph sample_nodes sample_edges of Inr _ \<Rightarrow> True | _ \<Rightarrow> False" by code_simp
  then obtain analysis where v: "validate_execution_graph sample_nodes sample_edges = Inr analysis" by (auto split: sum.splits)
  have "length sample_nodes = 3" by (simp add: sample_nodes_def)
  then show ?thesis using waves_schedule_every_node [OF v] v by auto
qed

theorem cycle_refusal_exact_witness:
  "\<exists>c. validate_execution_graph sample_nodes sample_cycle = Inl (Cyclic c) \<and> edge_cycle [(1, 0), (0, 2), (2, 1)] c"
proof -
  have "case resolve_graph sample_nodes sample_cycle of Inr (E, _) \<Rightarrow> E = [(1, 0), (0, 2), (2, 1)] | _ \<Rightarrow> False" by code_simp
  then obtain index where r: "resolve_graph sample_nodes sample_cycle = Inr ([(1, 0), (0, 2), (2, 1)], index)"
    by (auto split: sum.splits)
  have "case validate_execution_graph sample_nodes sample_cycle of Inl _ \<Rightarrow> True | _ \<Rightarrow> False" by code_simp
  then obtain e where "validate_execution_graph sample_nodes sample_cycle = Inl e" by (auto split: sum.splits)
  then show ?thesis using cycle_refusal_exact [OF r] by auto
qed

end
