(* ===== verification/Task_Documents.thy ===== *)
theory Task_Documents
  imports Task_Paths Execution_Graph
begin

text \<open>
  \<open>tasks/document.py\<close> and the review state of \<open>tasks/route_review.py\<close>: the task
  document with the validators of its parts and of the whole. A \<open>make_\<close> function is the validation of
  a decoded value: it trims what the code trims and refuses what the code refuses; the references
  inside it are validated before, by \<open>canonical_references\<close>. Fields that no modelled operation reads
  (objective, requirements, open questions, design, references, header notes) are left out with
  their validators, and so are those of a route-review record.
\<close>

section \<open>Vocabulary\<close>

datatype step_status = St_pending | St_inProgress | St_blocked | St_done

datatype doc_status = Ds_planning | Ds_inProgress | Ds_Completed | Ds_abandoned

datatype doc_kind = Kd_light | Kd_subTask | Kd_master

datatype execution_nature = Organizational | Atomic

definition RESOLVED_MASTER_ROW_STATUSES :: "doc_status list" where
  "RESOLVED_MASTER_ROW_STATUSES = [Ds_Completed, Ds_abandoned]"

definition SPRINT_ROLES :: "string list" where
  "SPRINT_ROLES = [''architect'', ''orchestrator'', ''strategist'', ''designer'', ''system-specialist'']"

definition MASTER_ROLES :: "string list" where
  "MASTER_ROLES = [''manager'']"

definition LEAF_ROLES :: "string list" where
  "LEAF_ROLES = [''worker'', ''reviewer'', ''curator'']"

text \<open>A validator on an optional field.\<close>

definition opt_result :: "('a \<Rightarrow> 'b result) \<Rightarrow> 'a option \<Rightarrow> 'b option result" where
  "opt_result f v = (case v of None \<Rightarrow> Inr None | Some x \<Rightarrow> rbind (f x) (\<lambda>y. Inr (Some y)))"

definition trim_nonblank :: "string \<Rightarrow> string \<Rightarrow> string result" where
  "trim_nonblank what s = (if str_strip s = [] then Inl (ValueError what) else Inr (str_strip s))"

definition hex_digest :: "string \<Rightarrow> bool" where
  "hex_digest s \<longleftrightarrow> length s = 64 \<and> list_all (\<lambda>c. c \<in> set ''0123456789abcdef'') s"

section \<open>Steps\<close>

record step_disposition =
  sd_reason :: string
  sd_recordedAt :: string
  sd_lifecycleId :: "string option"

record sub_step =
  ss_id :: string
  ss_title :: string
  ss_status :: step_status
  ss_note :: "string option"
  ss_disposition :: "step_disposition option"

record task_step =
  st_id :: string
  st_title :: string
  st_outcome :: "string option"
  st_status :: step_status
  st_note :: "string option"
  st_substeps :: "sub_step list"
  st_disposition :: "step_disposition option"

definition make_disposition :: "step_disposition \<Rightarrow> step_disposition result" where
  "make_disposition d = rbind (trim_nonblank ''skip reason'' (sd_reason d)) (\<lambda>r. Inr (d\<lparr>sd_reason := r\<rparr>))"

definition make_sub_step :: "sub_step \<Rightarrow> sub_step result" where
  "make_sub_step s =
     rbind (opt_result make_disposition (ss_disposition s)) (\<lambda>d.
       if d \<noteq> None \<and> ss_status s \<noteq> St_done then Inl (ValueError ''substep disposition'')
       else Inr (s\<lparr>ss_disposition := d\<rparr>))"

definition make_step :: "task_step \<Rightarrow> task_step result" where
  "make_step s =
     rbind (traverse make_sub_step (st_substeps s)) (\<lambda>subs.
     rbind (opt_result make_disposition (st_disposition s)) (\<lambda>d.
       if d \<noteq> None \<and> st_status s \<noteq> St_done then Inl (ValueError ''step disposition'')
       else Inr (s\<lparr>st_substeps := subs, st_disposition := d\<rparr>)))"

record decision =
  dc_at :: string
  dc_decision :: string
  dc_rationale :: string

section \<open>Rows, registrations and seats\<close>

record task_enclosure_ref =
  en_leafId :: string
  en_enclosurePath :: string

datatype registration_source = Terminal_catalog_seat | Operator_inbox_turn_report

datatype leaf_role = Worker_leaf | Reviewer_leaf | Curator_leaf

record execution_registration =
  er_sourceKind :: registration_source
  er_role :: leaf_role
  er_sourceId :: string
  er_observedAt :: string

definition make_registration :: "execution_registration \<Rightarrow> execution_registration result" where
  "make_registration r =
     rbind (trim_nonblank ''registration identity'' (er_sourceId r)) (\<lambda>i.
     rbind (trim_nonblank ''registration identity'' (er_observedAt r)) (\<lambda>t.
       Inr (r\<lparr>er_sourceId := i, er_observedAt := t\<rparr>)))"

record sub_task_ref =
  row_number :: string
  row_name :: string
  row_file :: string
  row_status :: doc_status
  row_scope :: string
  row_masterRef :: "task_document_ref option"

datatype source_proof_state = Proof_missing | Proof_present

record discard_source_proof =
  sp_state :: source_proof_state
  sp_sha256 :: "string option"
  sp_size :: "int option"

definition make_source_proof :: "discard_source_proof \<Rightarrow> discard_source_proof result" where
  "make_source_proof p =
     (if (case sp_sha256 p of None \<Rightarrow> False | Some h \<Rightarrow> \<not> hex_digest h) then Inl (ValueError ''sha256'')
      else if (case sp_size p of None \<Rightarrow> False | Some n \<Rightarrow> n < 0) then Inl (ValueError ''size'')
      else if sp_state p = Proof_present \<and> (sp_sha256 p = None \<or> sp_size p = None)
              \<or> sp_state p = Proof_missing \<and> (sp_sha256 p \<noteq> None \<or> sp_size p \<noteq> None)
      then Inl (ValueError ''source proof state'')
      else Inr p)"

text \<open>The constant state fields of the proof are left out.\<close>

record discard_proof =
  dp_taskDocumentRef :: task_document_ref
  dp_childJson :: discard_source_proof
  dp_childMarkdown :: discard_source_proof
  dp_fingerprint :: string

definition make_discard_proof :: "discard_proof \<Rightarrow> discard_proof result" where
  "make_discard_proof p =
     rbind (make_source_proof (dp_childJson p)) (\<lambda>_.
     rbind (make_source_proof (dp_childMarkdown p)) (\<lambda>_.
       if hex_digest (dp_fingerprint p) then Inr p else Inl (ValueError ''fingerprint'')))"

record discarded_sub_task =
  ds_number :: string
  ds_name :: string
  ds_file :: string
  ds_scope :: string
  ds_reason :: string
  ds_discardedAt :: string
  ds_proof :: discard_proof

definition require_direct_markdown :: "string \<Rightarrow> string result" where
  "require_direct_markdown file =
     (if is_absolute file \<or> 1 < length (posix_parts file) \<or> path_suffix (posix_parts file) \<noteq> ''.md''
      then Inl (ValueError ''direct Markdown child'') else Inr file)"

definition make_discarded :: "discarded_sub_task \<Rightarrow> discarded_sub_task result" where
  "make_discarded d =
     rbind (trim_nonblank ''discard audit'' (ds_number d)) (\<lambda>number.
     rbind (trim_nonblank ''discard audit'' (ds_name d)) (\<lambda>name.
     rbind (rbind (trim_nonblank ''discard audit'' (ds_file d)) require_direct_markdown) (\<lambda>file.
     rbind (trim_nonblank ''discard audit'' (ds_reason d)) (\<lambda>reason.
     rbind (trim_nonblank ''discard audit'' (ds_discardedAt d)) (\<lambda>at.
     rbind (make_discard_proof (ds_proof d)) (\<lambda>proof.
       Inr \<lparr>ds_number = number, ds_name = name, ds_file = file, ds_scope = ds_scope d, ds_reason = reason,
            ds_discardedAt = at, ds_proof = proof\<rparr>))))))"

datatype seat_state = Seat_planned | Seat_active | Seat_retired

record sprint_seat =
  seat_role :: string
  seat_label :: string
  seat_identity :: "string option"
  seat_state :: seat_state

definition make_seat :: "sprint_seat \<Rightarrow> sprint_seat result" where
  "make_seat s =
     (let role = str_strip (seat_role s) in
      if role \<notin> set SPRINT_ROLES \<and> role \<noteq> ''reviewer'' then Inl (ValueError ''sprint seat role'')
      else rbind (opt_result (trim_nonblank ''sprint seat identity'') (seat_identity s)) (\<lambda>i.
        Inr (s\<lparr>seat_role := role, seat_identity := i\<rparr>)))"

datatype section_kind = Sec_freeform | Sec_subTasks | Sec_sharedDecisions

record doc_section =
  sec_kind :: section_kind
  sec_heading :: string
  sec_body :: string

section \<open>Review state\<close>

record review_finding =
  rf_findingId :: string
  rf_description :: string

record review_state =
  rs_round :: int
  rs_pending :: bool
  rs_baselineFindings :: "review_finding list"
  rs_remainingFindingIds :: "string list"
  rs_developerApproval :: "string option"
  rs_additionalRounds :: int

definition ascii_alnum :: "char \<Rightarrow> bool" where
  "ascii_alnum c = (let n = of_char c :: nat in
     (48 \<le> n \<and> n \<le> 57) \<or> (65 \<le> n \<and> n \<le> 90) \<or> (97 \<le> n \<and> n \<le> 122))"

text \<open>The pattern of a finding id: a letter or digit and at most 127 more characters.\<close>

definition finding_id_pattern :: "string \<Rightarrow> bool" where
  "finding_id_pattern s \<longleftrightarrow>
     (case s of [] \<Rightarrow> False
      | c # cs \<Rightarrow> ascii_alnum c \<and> length cs \<le> 127 \<and> list_all (\<lambda>c. ascii_alnum c \<or> c \<in> set ''_.:-'') cs)"

definition make_review_finding :: "review_finding \<Rightarrow> review_finding result" where
  "make_review_finding f =
     (if \<not> finding_id_pattern (rf_findingId f) then Inl (ValidationError ''findingId'')
      else if rf_description f = [] \<or> 8192 < length (rf_description f) then Inl (ValidationError ''description'')
      else if str_strip (rf_description f) = [] then Inl (ValidationError ''blank description'')
      else Inr (f\<lparr>rf_findingId := str_strip (rf_findingId f), rf_description := str_strip (rf_description f)\<rparr>))"

definition trim_approval :: "string \<Rightarrow> string result" where
  "trim_approval a = (if 8192 < length a then Inl (ValueError ''developerApproval length'')
     else trim_nonblank ''developer approval'' a)"

definition check_review_state :: "review_state \<Rightarrow> review_state result" where
  "check_review_state st =
     (let ids = map rf_findingId (rs_baselineFindings st) in
      if \<not> distinct ids then Inl (ValueError ''baseline ids'')
      else if rs_round st = 0 \<and> (rs_pending st \<or> ids \<noteq> [] \<or> rs_remainingFindingIds st \<noteq> []
              \<or> rs_developerApproval st \<noteq> None \<or> rs_additionalRounds st \<noteq> 0)
      then Inl (ValueError ''zero-round state'')
      else if (rs_additionalRounds st = 0) \<noteq> (rs_developerApproval st = None) then Inl (ValueError ''approval and rounds'')
      else if \<not> distinct (rs_remainingFindingIds st) then Inl (ValueError ''remaining ids'')
      else if \<not> set (rs_remainingFindingIds st) \<subseteq> set ids then Inl (ValueError ''remaining outside the baseline'')
      else Inr st)"

definition make_review_state :: "review_state \<Rightarrow> review_state result" where
  "make_review_state st =
     (if rs_round st < 0 \<or> rs_additionalRounds st < 0 then Inl (ValueError ''negative round'')
      else rbind (traverse make_review_finding (rs_baselineFindings st)) (\<lambda>fs.
           rbind (opt_result trim_approval (rs_developerApproval st)) (\<lambda>a.
             check_review_state (st\<lparr>rs_baselineFindings := fs, rs_developerApproval := a\<rparr>))))"

text \<open>A route-review record as the task document sees it: whether it has the scope of an atomic
  master, and whether it carries a task intent. Its own validators are not modelled.\<close>

record route_review =
  rr_scoped :: bool
  rr_intent :: bool

section \<open>The document\<close>

record execution_graph =
  xg_nodes :: "exec_node list"
  xg_edges :: "exec_edge list"

definition execution_graph_analysis :: "execution_graph \<Rightarrow> graph_analysis result" where
  "execution_graph_analysis g = (case validate_execution_graph (xg_nodes g) (xg_edges g) of
     Inl _ \<Rightarrow> Inl (ValueError ''execution graph'') | Inr a \<Rightarrow> Inr a)"

definition make_execution_graph :: "execution_graph \<Rightarrow> execution_graph result" where
  "make_execution_graph g =
     rbind (traverse make_exec_node (xg_nodes g)) (\<lambda>nodes.
     rbind (traverse make_exec_edge (xg_edges g)) (\<lambda>edges.
       if nodes = [] then Inl (ValueError ''execution graph without nodes'')
       else rbind (execution_graph_analysis \<lparr>xg_nodes = nodes, xg_edges = edges\<rparr>) (\<lambda>_.
         Inr \<lparr>xg_nodes = nodes, xg_edges = edges\<rparr>)))"

record task_document =
  td_id :: string
  td_slug :: string
  td_title :: string
  td_kind :: doc_kind
  td_status :: doc_status
  td_repo :: string
  td_master :: "string option"
  td_seriesContractPath :: "string option"
  td_integrationBranch :: "string option"
  td_executionNature :: "execution_nature option"
  td_executionGraph :: "execution_graph option"
  td_enclosures :: "task_enclosure_ref list"
  td_executionRegistrations :: "execution_registration list"
  td_lifecycleId :: "string option"
  td_steps :: "task_step list"
  td_codeExamples :: "string list"
  td_codeExamplesNote :: "string option"
  td_decisions :: "decision list"
  td_routeReview :: "route_review option"
  td_reviewState :: "review_state option"
  td_subTasks :: "sub_task_ref list"
  td_discardedSubTasks :: "discarded_sub_task list"
  td_sections :: "doc_section list"
  td_orchestrates :: "string list"
  td_seats :: "sprint_seat list"

definition check_master_fields :: "task_document \<Rightarrow> unit result" where
  "check_master_fields d =
     (if td_steps d \<noteq> [] \<or> td_codeExamples d \<noteq> [] \<or> td_codeExamplesNote d \<noteq> None \<or> td_lifecycleId d \<noteq> None
         \<or> td_executionRegistrations d \<noteq> []
      then Inl (ValueError ''master document fields'') else Inr ())"

definition check_nonmaster_fields :: "task_document \<Rightarrow> unit result" where
  "check_nonmaster_fields d =
     (if (case td_routeReview d of None \<Rightarrow> False | Some r \<Rightarrow> rr_scoped r) then Inl (ValueError ''route-review scope'')
      else if td_subTasks d \<noteq> [] \<or> td_discardedSubTasks d \<noteq> [] \<or> td_orchestrates d \<noteq> [] \<or> td_seats d \<noteq> []
      then Inl (ValueError ''master-only fields'')
      else if list_ex (\<lambda>s. sec_kind s \<noteq> Sec_freeform) (td_sections d) then Inl (ValueError ''freeform sections'')
      else if td_codeExamplesNote d \<noteq> None \<and> td_codeExamples d \<noteq> [] then Inl (ValueError ''codeExamplesNote'')
      else if td_executionNature d \<noteq> None \<or> td_executionGraph d \<noteq> None then Inl (ValueError ''execution fields'')
      else if td_kind d \<noteq> Kd_subTask \<and> td_executionRegistrations d \<noteq> [] then Inl (ValueError ''registrations'')
      else if \<not> distinct (map (\<lambda>r. (er_sourceKind r, er_role r)) (td_executionRegistrations d))
      then Inl (ValueError ''registrations unique'')
      else Inr ())"

definition check_execution_fields :: "task_document \<Rightarrow> unit result" where
  "check_execution_fields d =
     (if td_kind d \<noteq> Kd_master then Inr ()
      else if td_orchestrates d \<noteq> [] \<and> td_executionNature d \<noteq> None then Inl (ValueError ''sprint nature'')
      else if td_orchestrates d = [] \<and> td_executionGraph d \<noteq> None then Inl (ValueError ''graph outside a sprint'')
      else Inr ())"

definition check_sprint_rows_and_seats :: "task_document \<Rightarrow> unit result" where
  "check_sprint_rows_and_seats d =
     (if list_ex (\<lambda>r. row_masterRef r \<noteq> None) (td_subTasks d) \<and> (td_kind d \<noteq> Kd_master \<or> td_orchestrates d = [])
      then Inl (ValueError ''masterRef row'')
      else if td_seats d = [] then Inr ()
      else if td_kind d \<noteq> Kd_master \<or> td_orchestrates d = [] then Inl (ValueError ''seats outside a sprint'')
      else if \<not> distinct (map seat_role (filter (\<lambda>s. seat_state s \<noteq> Seat_retired) (td_seats d)))
      then Inl (ValueError ''seat roles unique'')
      else Inr ())"

definition discard_matches :: "string \<Rightarrow> discarded_sub_task \<Rightarrow> bool" where
  "discard_matches repo item =
     (let ref = dp_taskDocumentRef (ds_proof item) in
      repository ref = repo
      \<and> (case with_suffix (posix_parts (ds_file item)) ''.json'' of Inl _ \<Rightarrow> False
         | Inr p \<Rightarrow> path_name (posix_parts (ref_path ref)) = path_name p))"

definition check_discarded_subtasks :: "task_document \<Rightarrow> unit result" where
  "check_discarded_subtasks d =
     (let discarded = map ds_number (td_discardedSubTasks d) in
      if \<not> distinct discarded then Inl (ValueError ''discarded numbers unique'')
      else if set (map row_number (td_subTasks d)) \<inter> set discarded \<noteq> {} then Inl (ValueError ''discarded row is live'')
      else if \<not> list_all (discard_matches (td_repo d)) (td_discardedSubTasks d) then Inl (ValueError ''discard proof identity'')
      else Inr ())"

definition normalize_integration_branch :: "task_document \<Rightarrow> task_document result" where
  "normalize_integration_branch d =
     (case td_integrationBranch d of
        None \<Rightarrow> Inr d
      | Some b \<Rightarrow>
          if td_kind d \<noteq> Kd_master then Inl (ValueError ''integrationBranch is master-only'')
          else if td_orchestrates d = [] then Inl (ValueError ''integrationBranch outside a sprint'')
          else if str_strip b = [] then Inl (ValueError ''integrationBranch blank'')
          else Inr (d\<lparr>td_integrationBranch := Some (str_strip b)\<rparr>))"

definition check_kind_fields :: "task_document \<Rightarrow> task_document result" where
  "check_kind_fields d =
     rbind (if td_kind d = Kd_master then check_master_fields d else check_nonmaster_fields d) (\<lambda>_.
     rbind (check_execution_fields d) (\<lambda>_.
     rbind (check_sprint_rows_and_seats d) (\<lambda>_.
     rbind (check_discarded_subtasks d) (\<lambda>_.
       normalize_integration_branch d))))"

text \<open>\<open>TaskDocument.model_validate\<close>: the fields first, then the checks over them.\<close>

definition make_task_document :: "task_document \<Rightarrow> task_document result" where
  "make_task_document d =
     rbind (opt_result make_execution_graph (td_executionGraph d)) (\<lambda>g.
     rbind (traverse make_registration (td_executionRegistrations d)) (\<lambda>regs.
     rbind (traverse make_step (td_steps d)) (\<lambda>steps.
     rbind (opt_result make_review_state (td_reviewState d)) (\<lambda>rs.
     rbind (traverse make_discarded (td_discardedSubTasks d)) (\<lambda>disc.
     rbind (traverse make_seat (td_seats d)) (\<lambda>seats.
       check_kind_fields (d\<lparr>td_executionGraph := g, td_executionRegistrations := regs, td_steps := steps,
         td_reviewState := rs, td_discardedSubTasks := disc, td_seats := seats\<rparr>)))))))"

section \<open>Validation is a projection\<close>

text \<open>A validator normalises: what it accepts it accepts again unchanged.\<close>

locale normaliser =
  fixes normalise :: "'a \<Rightarrow> 'a result"
  assumes stable: "normalise x = Inr y \<Longrightarrow> normalise y = Inr y"
begin

lemma traverse_stable: "traverse normalise xs = Inr ys \<Longrightarrow> traverse normalise ys = Inr ys"
  by (auto simp: traverse_Inr_iff list_all2_conv_all_nth intro: stable)

lemma opt_stable: "opt_result normalise v = Inr w \<Longrightarrow> opt_result normalise w = Inr w"
  by (auto simp: opt_result_def rbind_eq_Inr_iff intro: stable split: option.splits)

end

lemma trim_nonblank_Inr: "trim_nonblank what s = Inr t \<longleftrightarrow> t = str_strip s \<and> str_strip s \<noteq> []"
  by (auto simp: trim_nonblank_def)

lemma trim_nonblank_stable: "trim_nonblank what s = Inr t \<Longrightarrow> trim_nonblank what t = Inr t"
  by (auto simp: trim_nonblank_Inr str_strip_idem)

interpretation trimmed: normaliser "trim_nonblank what" for what
  by unfold_locales (rule trim_nonblank_stable)

interpretation disposition: normaliser make_disposition
proof unfold_locales
  fix d e assume "make_disposition d = Inr e"
  then show "make_disposition e = Inr e"
    unfolding make_disposition_def
    by (auto simp: trim_nonblank_def str_strip_idem elim!: rbind_InrE split: if_splits)
qed

interpretation sub_steps: normaliser make_sub_step
proof unfold_locales
  fix s t assume "make_sub_step s = Inr t"
  then show "make_sub_step t = Inr t"
    unfolding make_sub_step_def
    apply (elim rbind_InrE)
    apply (frule disposition.opt_stable)
    apply (auto split: if_splits)
    done
qed

interpretation steps: normaliser make_step
proof unfold_locales
  fix s t assume "make_step s = Inr t"
  then show "make_step t = Inr t"
    unfolding make_step_def
    apply (elim rbind_InrE)
    apply (frule sub_steps.traverse_stable, frule disposition.opt_stable)
    apply (auto split: if_splits)
    done
qed

interpretation registrations: normaliser make_registration
proof unfold_locales
  fix r q assume "make_registration r = Inr q"
  then show "make_registration q = Inr q"
    unfolding make_registration_def
    by (auto simp: trim_nonblank_def str_strip_idem elim!: rbind_InrE split: if_splits)
qed

lemma make_source_proof_id: "make_source_proof p = Inr q \<Longrightarrow> q = p"
  by (auto simp: make_source_proof_def split: if_splits)

lemma make_discard_proof_id: "make_discard_proof p = Inr q \<Longrightarrow> q = p"
  by (auto simp: make_discard_proof_def rbind_eq_Inr_iff split: if_splits)

interpretation discarded: normaliser make_discarded
proof unfold_locales
  fix d e assume "make_discarded d = Inr e"
  then show "make_discarded e = Inr e"
    unfolding make_discarded_def
    apply (elim rbind_InrE)
    apply (frule make_discard_proof_id)
    apply (auto simp: trim_nonblank_Inr trim_nonblank_def require_direct_markdown_def str_strip_idem split: if_splits)
    done
qed

interpretation seats: normaliser make_seat
proof unfold_locales
  fix s t assume "make_seat s = Inr t"
  then obtain i where role: "str_strip (seat_role s) \<in> set SPRINT_ROLES \<or> str_strip (seat_role s) = ''reviewer''"
    and i: "opt_result (trim_nonblank ''sprint seat identity'') (seat_identity s) = Inr i"
    and t: "t = s\<lparr>seat_role := str_strip (seat_role s), seat_identity := i\<rparr>"
    unfolding make_seat_def Let_def by (auto elim!: rbind_InrE split: if_splits)
  have "str_strip (seat_role t) = seat_role t" by (simp add: t str_strip_idem)
  then show "make_seat t = Inr t"
    using role trimmed.opt_stable [OF i] unfolding make_seat_def Let_def by (auto simp: t)
qed

lemma str_strip_length: "length (str_strip s) \<le> length s"
  unfolding str_strip_def by (metis length_dropWhile_le length_rev le_trans)

lemma finding_id_plain: "finding_id_pattern s \<Longrightarrow> str_strip s = s"
proof -
  assume p: "finding_id_pattern s"
  have "\<not> is_space c" if "c \<in> set s" for c
    using p that by (auto simp: finding_id_pattern_def ascii_alnum_def is_space_def Let_def list_all_iff split: list.splits)
  moreover have "s \<noteq> []" using p by (auto simp: finding_id_pattern_def)
  ultimately show ?thesis by (simp add: str_strip_id)
qed

interpretation findings: normaliser make_review_finding
proof unfold_locales
  fix f g assume "make_review_finding f = Inr g"
  then show "make_review_finding g = Inr g"
    using str_strip_length [of "rf_description f"]
    by (auto simp: make_review_finding_def finding_id_plain str_strip_idem split: if_splits)
qed

interpretation approvals: normaliser trim_approval
proof unfold_locales
  fix a b assume "trim_approval a = Inr b"
  then show "trim_approval b = Inr b"
    using str_strip_length [of a] by (auto simp: trim_approval_def trim_nonblank_Inr str_strip_idem split: if_splits)
qed

lemma check_review_state_id: "check_review_state st = Inr st' \<Longrightarrow> st' = st"
  by (auto simp: check_review_state_def Let_def split: if_splits)

interpretation review: normaliser make_review_state
proof unfold_locales
  fix s t assume mk: "make_review_state s = Inr t"
  then obtain fs a where f: "traverse make_review_finding (rs_baselineFindings s) = Inr fs"
    and a: "opt_result trim_approval (rs_developerApproval s) = Inr a"
    and c: "check_review_state (s\<lparr>rs_baselineFindings := fs, rs_developerApproval := a\<rparr>) = Inr t"
    and n: "\<not> (rs_round s < 0 \<or> rs_additionalRounds s < 0)"
    by (auto simp: make_review_state_def rbind_eq_Inr_iff split: if_splits)
  have t: "t = s\<lparr>rs_baselineFindings := fs, rs_developerApproval := a\<rparr>" by (rule check_review_state_id [OF c])
  then show "make_review_state t = Inr t"
    using c n findings.traverse_stable [OF f] approvals.opt_stable [OF a] by (simp add: make_review_state_def)
qed

interpretation nodes: normaliser make_exec_node
proof unfold_locales
  fix n m assume "make_exec_node n = Inr m"
  then show "make_exec_node m = Inr m"
    by (auto simp: make_exec_node_def Let_def str_strip_idem comp_def split: if_splits)
qed

interpretation endpoints: normaliser make_exec_endpoint
proof unfold_locales
  fix e f assume "make_exec_endpoint e = Inr f"
  then show "make_exec_endpoint f = Inr f"
    by (cases e rule: make_exec_endpoint.cases) (auto simp: str_strip_idem split: if_splits)
qed

interpretation edges: normaliser make_exec_edge
proof unfold_locales
  fix e f assume "make_exec_edge e = Inr f"
  then show "make_exec_edge f = Inr f"
    unfolding make_exec_edge_def
    apply (elim rbind_InrE)
    apply (drule endpoints.stable, drule endpoints.stable [of "xe_successor e"])
    apply (auto simp: str_strip_idem split: if_splits option.splits)
    done
qed

interpretation graphs: normaliser make_execution_graph
proof unfold_locales
  fix g h assume "make_execution_graph g = Inr h"
  then show "make_execution_graph h = Inr h"
    unfolding make_execution_graph_def
    apply (elim rbind_InrE)
    apply (frule nodes.traverse_stable, frule edges.traverse_stable)
    apply (auto elim!: rbind_InrE split: if_splits)
    done
qed

text \<open>The checks over the whole document only depend on fields that the checks do not change.\<close>

lemma normalize_branch_Inr:
  assumes "normalize_integration_branch d = Inr e"
  shows "\<exists>b. e = d\<lparr>td_integrationBranch := b\<rparr>" and "normalize_integration_branch e = Inr e"
proof -
  have "e = d\<lparr>td_integrationBranch := td_integrationBranch e\<rparr>"
    using assms by (auto simp: normalize_integration_branch_def split: option.splits if_splits)
  then show "\<exists>b. e = d\<lparr>td_integrationBranch := b\<rparr>" by blast
  show "normalize_integration_branch e = Inr e"
    using assms by (auto simp: normalize_integration_branch_def str_strip_idem split: option.splits if_splits)
qed

lemma check_branch_irrelevant [simp]:
  "check_master_fields (d\<lparr>td_integrationBranch := b\<rparr>) = check_master_fields d"
  "check_nonmaster_fields (d\<lparr>td_integrationBranch := b\<rparr>) = check_nonmaster_fields d"
  "check_execution_fields (d\<lparr>td_integrationBranch := b\<rparr>) = check_execution_fields d"
  "check_sprint_rows_and_seats (d\<lparr>td_integrationBranch := b\<rparr>) = check_sprint_rows_and_seats d"
  "check_discarded_subtasks (d\<lparr>td_integrationBranch := b\<rparr>) = check_discarded_subtasks d"
  by (simp_all add: check_master_fields_def check_nonmaster_fields_def check_execution_fields_def
        check_sprint_rows_and_seats_def check_discarded_subtasks_def Let_def)

lemma check_kind_fields_Inr:
  assumes "check_kind_fields d = Inr e"
  shows "\<exists>b. e = d\<lparr>td_integrationBranch := b\<rparr>" and "check_kind_fields e = Inr e"
proof -
  have n: "normalize_integration_branch d = Inr e"
    and c: "(if td_kind d = Kd_master then check_master_fields d else check_nonmaster_fields d) = Inr ()"
    "check_execution_fields d = Inr ()" "check_sprint_rows_and_seats d = Inr ()" "check_discarded_subtasks d = Inr ()"
    using assms by (auto simp: check_kind_fields_def rbind_eq_Inr_iff)
  show "\<exists>b. e = d\<lparr>td_integrationBranch := b\<rparr>" by (rule normalize_branch_Inr [OF n])
  then obtain b where e: "e = d\<lparr>td_integrationBranch := b\<rparr>" by blast
  then show "check_kind_fields e = Inr e"
    using c normalize_branch_Inr(2) [OF n] by (simp add: check_kind_fields_def split: if_splits)
qed

lemma make_task_document_Inr:
  assumes "make_task_document d = Inr e"
  shows "check_kind_fields e = Inr e"
    and "opt_result make_execution_graph (td_executionGraph e) = Inr (td_executionGraph e)"
    and "traverse make_registration (td_executionRegistrations e) = Inr (td_executionRegistrations e)"
    and "traverse make_step (td_steps e) = Inr (td_steps e)"
    and "opt_result make_review_state (td_reviewState e) = Inr (td_reviewState e)"
    and "traverse make_discarded (td_discardedSubTasks e) = Inr (td_discardedSubTasks e)"
    and "traverse make_seat (td_seats e) = Inr (td_seats e)"
proof -
  obtain g regs sts rs disc ses where parts:
    "opt_result make_execution_graph (td_executionGraph d) = Inr g"
    "traverse make_registration (td_executionRegistrations d) = Inr regs" "traverse make_step (td_steps d) = Inr sts"
    "opt_result make_review_state (td_reviewState d) = Inr rs" "traverse make_discarded (td_discardedSubTasks d) = Inr disc"
    "traverse make_seat (td_seats d) = Inr ses"
    and chk: "check_kind_fields (d\<lparr>td_executionGraph := g, td_executionRegistrations := regs, td_steps := sts,
         td_reviewState := rs, td_discardedSubTasks := disc, td_seats := ses\<rparr>) = Inr e"
    using assms unfolding make_task_document_def by (elim rbind_InrE)
  obtain b where e: "e = d\<lparr>td_executionGraph := g, td_executionRegistrations := regs, td_steps := sts,
         td_reviewState := rs, td_discardedSubTasks := disc, td_seats := ses, td_integrationBranch := b\<rparr>"
    using check_kind_fields_Inr(1) [OF chk] by auto
  show "check_kind_fields e = Inr e" by (rule check_kind_fields_Inr(2) [OF chk])
  show "opt_result make_execution_graph (td_executionGraph e) = Inr (td_executionGraph e)"
    using graphs.opt_stable [OF parts(1)] by (simp add: e)
  show "traverse make_registration (td_executionRegistrations e) = Inr (td_executionRegistrations e)"
    using registrations.traverse_stable [OF parts(2)] by (simp add: e)
  show "traverse make_step (td_steps e) = Inr (td_steps e)" using steps.traverse_stable [OF parts(3)] by (simp add: e)
  show "opt_result make_review_state (td_reviewState e) = Inr (td_reviewState e)"
    using review.opt_stable [OF parts(4)] by (simp add: e)
  show "traverse make_discarded (td_discardedSubTasks e) = Inr (td_discardedSubTasks e)"
    using discarded.traverse_stable [OF parts(5)] by (simp add: e)
  show "traverse make_seat (td_seats e) = Inr (td_seats e)" using seats.traverse_stable [OF parts(6)] by (simp add: e)
qed

definition valid_document :: "task_document \<Rightarrow> bool" where
  "valid_document d \<longleftrightarrow> make_task_document d = Inr d"

lemma make_task_document_valid:
  assumes "make_task_document d = Inr e"
  shows "valid_document e"
  unfolding valid_document_def make_task_document_def make_task_document_Inr(2-7) [OF assms] rbind_Inr
  using make_task_document_Inr(1) [OF assms] by simp

interpretation documents: normaliser make_task_document
  by unfold_locales (auto dest: make_task_document_valid simp: valid_document_def)

lemma valid_checks:
  assumes "valid_document d"
  shows "(if td_kind d = Kd_master then check_master_fields d else check_nonmaster_fields d) = Inr ()"
    and "check_execution_fields d = Inr ()" and "check_sprint_rows_and_seats d = Inr ()"
    and "check_discarded_subtasks d = Inr ()" and "normalize_integration_branch d = Inr d"
proof -
  have "check_kind_fields d = Inr d" using make_task_document_Inr(1) assms unfolding valid_document_def .
  then show "(if td_kind d = Kd_master then check_master_fields d else check_nonmaster_fields d) = Inr ()"
    and "check_execution_fields d = Inr ()" and "check_sprint_rows_and_seats d = Inr ()"
    and "check_discarded_subtasks d = Inr ()" and "normalize_integration_branch d = Inr d"
    unfolding check_kind_fields_def by (elim rbind_InrE, simp)+
qed

text \<open>What a validated document looks like, by kind.\<close>

lemma valid_leaf:
  assumes "valid_document d" "td_kind d \<noteq> Kd_master"
  shows "td_subTasks d = [] \<and> td_discardedSubTasks d = [] \<and> td_orchestrates d = [] \<and> td_seats d = []
    \<and> td_executionNature d = None \<and> td_executionGraph d = None \<and> td_integrationBranch d = None"
  using valid_checks [OF assms(1)] assms(2)
  by (auto simp: check_nonmaster_fields_def normalize_integration_branch_def split: if_splits option.splits)

lemma valid_master:
  assumes "valid_document d" "td_kind d = Kd_master"
  shows "td_steps d = [] \<and> td_lifecycleId d = None \<and> td_executionRegistrations d = [] \<and> td_codeExamples d = []"
  using valid_checks(1) [OF assms(1)] assms(2) by (simp add: check_master_fields_def split: if_splits)

lemma valid_sprint_fields:
  assumes "valid_document d"
  shows "td_orchestrates d \<noteq> [] \<Longrightarrow> td_kind d = Kd_master \<and> td_executionNature d = None"
    and "td_executionGraph d \<noteq> None \<or> td_integrationBranch d \<noteq> None \<or> td_seats d \<noteq> []
           \<or> (\<exists>r\<in>set (td_subTasks d). row_masterRef r \<noteq> None) \<Longrightarrow> td_orchestrates d \<noteq> []"
  using valid_checks [OF assms] valid_leaf [OF assms]
  by (auto simp: check_execution_fields_def check_sprint_rows_and_seats_def normalize_integration_branch_def list_ex_iff
      split: if_splits option.splits)

lemma valid_graph:
  assumes "valid_document d" "td_executionGraph d = Some g"
  obtains a where "execution_graph_analysis g = Inr a"
proof -
  have "opt_result make_execution_graph (Some g) = Inr (Some g)"
    using make_task_document_Inr(2) [of d d] assms by (simp add: valid_document_def)
  then show ?thesis using that by (auto simp: opt_result_def make_execution_graph_def rbind_eq_Inr_iff split: if_splits)
qed

lemma valid_steps_done:
  assumes "valid_document d" "s \<in> set (td_steps d)"
  shows "(st_disposition s \<noteq> None \<longrightarrow> st_status s = St_done)
    \<and> (\<forall>u\<in>set (st_substeps s). ss_disposition u \<noteq> None \<longrightarrow> ss_status u = St_done)"
proof -
  have "list_all2 (\<lambda>x y. make_step x = Inr y) (td_steps d) (td_steps d)"
    using make_task_document_Inr(4) [of d d] assms(1) by (simp add: valid_document_def traverse_Inr_iff)
  then have st: "make_step s = Inr s" using assms(2) by (auto simp: list_all2_conv_all_nth in_set_conv_nth)
  then obtain subs dd where sub: "traverse make_sub_step (st_substeps s) = Inr subs"
    and d: "\<not> (dd \<noteq> None \<and> st_status s \<noteq> St_done)" and eq: "s = s\<lparr>st_substeps := subs, st_disposition := dd\<rparr>"
    unfolding make_step_def by (auto elim!: rbind_InrE split: if_splits)
  have subs: "subs = st_substeps s" "dd = st_disposition s"
    using arg_cong [OF eq, of st_substeps] arg_cong [OF eq, of st_disposition] by simp_all
  have "ss_status u = St_done" if u: "u \<in> set (st_substeps s)" "ss_disposition u \<noteq> None" for u
  proof -
    have "make_sub_step u = Inr u" using sub u(1) by (auto simp: subs traverse_Inr_iff list_all2_conv_all_nth in_set_conv_nth)
    then obtain d' where "\<not> (d' \<noteq> None \<and> ss_status u \<noteq> St_done)" and eq': "u = u\<lparr>ss_disposition := d'\<rparr>"
      unfolding make_sub_step_def by (auto elim!: rbind_InrE split: if_splits)
    then show ?thesis using u(2) arg_cong [OF eq', of ss_disposition] by auto
  qed
  then show ?thesis using d subs by auto
qed

lemma valid_review:
  assumes "valid_document d" "td_reviewState d = Some rs"
  shows "make_review_state rs = Inr rs" and "0 \<le> rs_round rs" and "0 \<le> rs_additionalRounds rs"
    and "set (rs_remainingFindingIds rs) \<subseteq> set (map rf_findingId (rs_baselineFindings rs))"
    and "(rs_additionalRounds rs = 0) = (rs_developerApproval rs = None)"
proof -
  show mk: "make_review_state rs = Inr rs"
    using make_task_document_Inr(5) [of d d] assms by (auto simp: valid_document_def opt_result_def rbind_eq_Inr_iff)
  then obtain fs a where chk: "check_review_state (rs\<lparr>rs_baselineFindings := fs, rs_developerApproval := a\<rparr>) = Inr rs"
    and "\<not> (rs_round rs < 0 \<or> rs_additionalRounds rs < 0)"
    unfolding make_review_state_def by (auto elim!: rbind_InrE split: if_splits)
  then show "0 \<le> rs_round rs" "0 \<le> rs_additionalRounds rs" by auto
  have "check_review_state rs = Inr rs" using check_review_state_id [OF chk] chk by metis
  then show "set (rs_remainingFindingIds rs) \<subseteq> set (map rf_findingId (rs_baselineFindings rs))"
    "(rs_additionalRounds rs = 0) = (rs_developerApproval rs = None)"
    by (auto simp: check_review_state_def Let_def split: if_splits)
qed

section \<open>References inside a document\<close>

text \<open>Every reference a document carries goes through the validators of \<open>TaskDocumentRef\<close> before
  the checks of the parts that hold it: the nodes and endpoints of the graph, the typed rows and
  the discard proofs.\<close>

definition checked_ref :: "task_document_ref \<Rightarrow> task_document_ref result" where
  "checked_ref r = make_task_document_ref (repository r) (ref_path r)"

definition canonical_node :: "exec_node \<Rightarrow> exec_node result" where
  "canonical_node node = rbind (checked_ref (xn_ref node)) (\<lambda>r. Inr (node\<lparr>xn_ref := r\<rparr>))"

fun canonical_endpoint :: "exec_endpoint \<Rightarrow> exec_endpoint result" where
  "canonical_endpoint (Bare r) = rbind (checked_ref r) (\<lambda>r. Inr (Bare r))"
| "canonical_endpoint (Endpoint r leaf) = rbind (checked_ref r) (\<lambda>r. Inr (Endpoint r leaf))"

definition canonical_edge :: "exec_edge \<Rightarrow> exec_edge result" where
  "canonical_edge e =
     rbind (canonical_endpoint (xe_predecessor e)) (\<lambda>p.
     rbind (canonical_endpoint (xe_successor e)) (\<lambda>s. Inr (e\<lparr>xe_predecessor := p, xe_successor := s\<rparr>)))"

definition canonical_graph :: "execution_graph \<Rightarrow> execution_graph result" where
  "canonical_graph g =
     rbind (traverse canonical_node (xg_nodes g)) (\<lambda>nodes.
     rbind (traverse canonical_edge (xg_edges g)) (\<lambda>edges. Inr \<lparr>xg_nodes = nodes, xg_edges = edges\<rparr>))"

definition canonical_row :: "sub_task_ref \<Rightarrow> sub_task_ref result" where
  "canonical_row row = rbind (opt_result checked_ref (row_masterRef row)) (\<lambda>r. Inr (row\<lparr>row_masterRef := r\<rparr>))"

definition canonical_discarded :: "discarded_sub_task \<Rightarrow> discarded_sub_task result" where
  "canonical_discarded d =
     rbind (checked_ref (dp_taskDocumentRef (ds_proof d))) (\<lambda>r.
       Inr (d\<lparr>ds_proof := (ds_proof d)\<lparr>dp_taskDocumentRef := r\<rparr>\<rparr>))"

definition canonical_references :: "task_document \<Rightarrow> task_document result" where
  "canonical_references d =
     rbind (opt_result canonical_graph (td_executionGraph d)) (\<lambda>g.
     rbind (traverse canonical_row (td_subTasks d)) (\<lambda>rows.
     rbind (traverse canonical_discarded (td_discardedSubTasks d)) (\<lambda>disc.
       Inr (d\<lparr>td_executionGraph := g, td_subTasks := rows, td_discardedSubTasks := disc\<rparr>))))"

text \<open>\<open>TaskDocument.model_validate\<close> of a document as it is stored.\<close>

definition validate_task_document :: "task_document \<Rightarrow> task_document result" where
  "validate_task_document raw = rbind (canonical_references raw) make_task_document"

text \<open>The references of a document.\<close>

definition graph_refs :: "execution_graph \<Rightarrow> task_document_ref list" where
  "graph_refs g = map xn_ref (xg_nodes g) @ map (\<lambda>e. endpoint_ref (xe_predecessor e)) (xg_edges g)
     @ map (\<lambda>e. endpoint_ref (xe_successor e)) (xg_edges g)"

definition document_refs :: "task_document \<Rightarrow> task_document_ref list" where
  "document_refs d = (case td_executionGraph d of None \<Rightarrow> [] | Some g \<Rightarrow> graph_refs g)
     @ List.map_filter row_masterRef (td_subTasks d)
     @ map (\<lambda>d. dp_taskDocumentRef (ds_proof d)) (td_discardedSubTasks d)"

text \<open>A reference that some validation returned, and one that validation leaves alone.\<close>

definition ref_produced :: "task_document_ref \<Rightarrow> bool" where
  "ref_produced r \<longleftrightarrow> (\<exists>raw. checked_ref raw = Inr r)"

definition ref_settled :: "task_document_ref \<Rightarrow> bool" where
  "ref_settled r \<longleftrightarrow> checked_ref r = Inr r"

lemma ref_produced_settled: "ref_produced r \<Longrightarrow> \<not> is_space (hd (ref_path r)) \<Longrightarrow> ref_settled r"
  unfolding ref_produced_def ref_settled_def checked_ref_def using make_ref_stable by blast

lemma canonical_endpoint_refs:
  "canonical_endpoint e = Inr f \<Longrightarrow> ref_produced (endpoint_ref f)"
  "ref_settled (endpoint_ref e) \<Longrightarrow> canonical_endpoint e = Inr e"
  by (cases e; auto simp: rbind_eq_Inr_iff ref_produced_def ref_settled_def)+

lemma canonical_node_refs:
  "canonical_node n = Inr m \<Longrightarrow> ref_produced (xn_ref m)"
  "ref_settled (xn_ref n) \<Longrightarrow> canonical_node n = Inr n"
  by (auto simp: canonical_node_def rbind_eq_Inr_iff ref_produced_def ref_settled_def)

lemma canonical_edge_refs:
  "canonical_edge e = Inr f \<Longrightarrow> ref_produced (endpoint_ref (xe_predecessor f)) \<and> ref_produced (endpoint_ref (xe_successor f))"
  "ref_settled (endpoint_ref (xe_predecessor e)) \<Longrightarrow> ref_settled (endpoint_ref (xe_successor e)) \<Longrightarrow> canonical_edge e = Inr e"
  by (auto simp: canonical_edge_def rbind_eq_Inr_iff canonical_endpoint_refs)

lemma traverse_all: "traverse f xs = Inr ys \<Longrightarrow> (\<And>x y. f x = Inr y \<Longrightarrow> P y) \<Longrightarrow> y \<in> set ys \<Longrightarrow> P y"
  by (auto simp: traverse_Inr_iff list_all2_conv_all_nth in_set_conv_nth)

lemma traverse_same: "(\<And>x. x \<in> set xs \<Longrightarrow> f x = Inr x) \<Longrightarrow> traverse f xs = Inr xs"
  by (auto simp: traverse_Inr_iff list_all2_conv_all_nth)

lemma canonical_graph_refs:
  "canonical_graph g = Inr h \<Longrightarrow> r \<in> set (graph_refs h) \<Longrightarrow> ref_produced r"
  "(\<And>r. r \<in> set (graph_refs g) \<Longrightarrow> ref_settled r) \<Longrightarrow> canonical_graph g = Inr g"
proof -
  assume h: "canonical_graph g = Inr h" "r \<in> set (graph_refs h)"
  then have n: "traverse canonical_node (xg_nodes g) = Inr (xg_nodes h)"
    and e: "traverse canonical_edge (xg_edges g) = Inr (xg_edges h)"
    by (auto simp: canonical_graph_def rbind_eq_Inr_iff)
  show "ref_produced r"
    using h(2) traverse_all [OF n, of "\<lambda>n. ref_produced (xn_ref n)"] canonical_node_refs(1)
      traverse_all [OF e, of "\<lambda>e. ref_produced (endpoint_ref (xe_predecessor e)) \<and> ref_produced (endpoint_ref (xe_successor e))"]
      canonical_edge_refs(1)
    by (auto simp: graph_refs_def)
next
  assume "\<And>r. r \<in> set (graph_refs g) \<Longrightarrow> ref_settled r"
  then show "canonical_graph g = Inr g"
    by (simp add: canonical_graph_def graph_refs_def traverse_same canonical_node_refs(2) canonical_edge_refs(2))
qed

lemma canonical_references_refs:
  "canonical_references d = Inr e \<Longrightarrow> r \<in> set (document_refs e) \<Longrightarrow> ref_produced r"
  "(\<And>r. r \<in> set (document_refs d) \<Longrightarrow> ref_settled r) \<Longrightarrow> canonical_references d = Inr d"
proof -
  assume e: "canonical_references d = Inr e" "r \<in> set (document_refs e)"
  then have g: "opt_result canonical_graph (td_executionGraph d) = Inr (td_executionGraph e)"
    and rows: "traverse canonical_row (td_subTasks d) = Inr (td_subTasks e)"
    and disc: "traverse canonical_discarded (td_discardedSubTasks d) = Inr (td_discardedSubTasks e)"
    by (auto simp: canonical_references_def rbind_eq_Inr_iff)
  have "ref_produced r" if "td_executionGraph e = Some h" "r \<in> set (graph_refs h)" for h
    using g that canonical_graph_refs(1) by (auto simp: opt_result_def rbind_eq_Inr_iff split: option.splits)
  moreover have "\<forall>r. row_masterRef row = Some r \<longrightarrow> ref_produced r" if "row \<in> set (td_subTasks e)" for row
    by (rule traverse_all [OF rows _ that])
      (auto simp: canonical_row_def opt_result_def rbind_eq_Inr_iff ref_produced_def split: option.splits)
  moreover have "ref_produced (dp_taskDocumentRef (ds_proof x))" if "x \<in> set (td_discardedSubTasks e)" for x
    by (rule traverse_all [OF disc _ that]) (auto simp: canonical_discarded_def rbind_eq_Inr_iff ref_produced_def)
  ultimately show "ref_produced r"
    using e(2) by (cases "td_executionGraph e") (auto simp: document_refs_def List.map_filter_def)
next
  assume s: "\<And>r. r \<in> set (document_refs d) \<Longrightarrow> ref_settled r"
  have "opt_result canonical_graph (td_executionGraph d) = Inr (td_executionGraph d)"
    using s canonical_graph_refs(2)
    by (cases "td_executionGraph d") (auto simp: opt_result_def document_refs_def)
  moreover have "traverse canonical_row (td_subTasks d) = Inr (td_subTasks d)"
  proof (rule traverse_same)
    fix row assume row: "row \<in> set (td_subTasks d)"
    show "canonical_row row = Inr row"
    proof (cases "row_masterRef row")
      case (Some r)
      have "r \<in> set (List.map_filter row_masterRef (td_subTasks d))"
        using row Some by (force simp: List.map_filter_def)
      then have "ref_settled r" using s by (simp add: document_refs_def)
      then show ?thesis using Some by (cases row) (simp add: canonical_row_def opt_result_def ref_settled_def)
    qed (cases row, simp add: canonical_row_def opt_result_def)
  qed
  moreover have "traverse canonical_discarded (td_discardedSubTasks d) = Inr (td_discardedSubTasks d)"
    using s by (intro traverse_same) (auto simp: canonical_discarded_def document_refs_def ref_settled_def)
  ultimately show "canonical_references d = Inr d" by (simp add: canonical_references_def)
qed

lemma make_exec_node_ref: "make_exec_node n = Inr m \<Longrightarrow> xn_ref m = xn_ref n"
  by (auto simp: make_exec_node_def Let_def split: if_splits)

lemma make_exec_edge_ref:
  "make_exec_edge e = Inr f \<Longrightarrow> endpoint_ref (xe_predecessor f) = endpoint_ref (xe_predecessor e)
     \<and> endpoint_ref (xe_successor f) = endpoint_ref (xe_successor e)"
proof -
  have "endpoint_ref y = endpoint_ref x" if "make_exec_endpoint x = Inr y" for x y
    using that by (cases x rule: make_exec_endpoint.cases) (auto split: if_splits)
  then show "make_exec_edge e = Inr f \<Longrightarrow> endpoint_ref (xe_predecessor f) = endpoint_ref (xe_predecessor e)
     \<and> endpoint_ref (xe_successor f) = endpoint_ref (xe_successor e)"
    unfolding make_exec_edge_def by (elim rbind_InrE) (auto split: if_splits)
qed

lemma traverse_map: "traverse f xs = Inr ys \<Longrightarrow> (\<And>x y. f x = Inr y \<Longrightarrow> g y = g x) \<Longrightarrow> map g ys = map g xs"
  by (auto simp: traverse_Inr_iff list_all2_conv_all_nth list_eq_iff_nth_eq)

lemma make_execution_graph_refs: "make_execution_graph g = Inr h \<Longrightarrow> graph_refs h = graph_refs g"
proof -
  assume "make_execution_graph g = Inr h"
  then have n: "traverse make_exec_node (xg_nodes g) = Inr (xg_nodes h)"
    and e: "traverse make_exec_edge (xg_edges g) = Inr (xg_edges h)"
    unfolding make_execution_graph_def by (auto elim!: rbind_InrE split: if_splits)
  show ?thesis
    using traverse_map [OF n, of xn_ref] traverse_map [OF e, of "\<lambda>e. endpoint_ref (xe_predecessor e)"]
      traverse_map [OF e, of "\<lambda>e. endpoint_ref (xe_successor e)"] make_exec_node_ref make_exec_edge_ref
    by (simp add: graph_refs_def)
qed

lemma make_discarded_proof: "make_discarded d = Inr e \<Longrightarrow> ds_proof e = ds_proof d"
  unfolding make_discarded_def by (elim rbind_InrE) (auto dest: make_discard_proof_id)

lemma make_task_document_refs:
  assumes "make_task_document d = Inr e"
  shows "document_refs e = document_refs d"
proof -
  obtain g regs sts rs disc ses where parts: "opt_result make_execution_graph (td_executionGraph d) = Inr g"
    "traverse make_discarded (td_discardedSubTasks d) = Inr disc"
    and chk: "check_kind_fields (d\<lparr>td_executionGraph := g, td_executionRegistrations := regs, td_steps := sts,
         td_reviewState := rs, td_discardedSubTasks := disc, td_seats := ses\<rparr>) = Inr e"
    using assms unfolding make_task_document_def by (elim rbind_InrE)
  have e: "td_executionGraph e = g" "td_subTasks e = td_subTasks d" "td_discardedSubTasks e = disc"
    using check_kind_fields_Inr(1) [OF chk] by auto
  have "(case g of None \<Rightarrow> [] | Some h \<Rightarrow> graph_refs h) = (case td_executionGraph d of None \<Rightarrow> [] | Some h \<Rightarrow> graph_refs h)"
    using parts(1) make_execution_graph_refs by (auto simp: opt_result_def rbind_eq_Inr_iff split: option.splits)
  then show ?thesis
    using traverse_map [OF parts(2), of "\<lambda>d. dp_taskDocumentRef (ds_proof d)"] make_discarded_proof
    by (simp add: document_refs_def e)
qed

section \<open>Properties\<close>

text \<open>C26. A document that passed validation passes it again unchanged: every validator trims and
  checks, so what one process writes the next one reads back as the same document, in every field
  the model has. As for a single reference (the canonical form of one may start with a blank that
  the next validation strips), this needs that no reference inside the document starts with white
  space.\<close>

theorem task_document_stable:
  assumes "validate_task_document raw = Inr d" "\<forall>r \<in> set (document_refs d). \<not> is_space (hd (ref_path r))"
  shows "validate_task_document d = Inr d"
proof -
  obtain d1 where d1: "canonical_references raw = Inr d1" "make_task_document d1 = Inr d"
    using assms(1) by (auto simp: validate_task_document_def rbind_eq_Inr_iff)
  have "ref_settled r" if "r \<in> set (document_refs d)" for r
    using that assms(2) canonical_references_refs(1) [OF d1(1)] make_task_document_refs [OF d1(2)] ref_produced_settled by simp
  then have "canonical_references d = Inr d" by (rule canonical_references_refs(2))
  then show ?thesis using documents.stable [OF d1(2)] by (simp add: validate_task_document_def)
qed

text \<open>C27. The shape of a validated document: a master has no steps, lifecycle or registrations; the
  other kinds have no rows, seats or commanded masters; a graph, an integration branch, a seat or a
  typed row occurs only on a master that commands others, which has no nature of its own; its graph
  is valid; a skipped step or substep is done; the remaining findings of a review belong to its
  sealed list.\<close>

theorem validated_document_shape:
  assumes "make_task_document raw = Inr d"
  shows "(if td_kind d = Kd_master then td_steps d = [] \<and> td_lifecycleId d = None \<and> td_executionRegistrations d = []
          else td_subTasks d = [] \<and> td_orchestrates d = [] \<and> td_seats d = [])
    \<and> (td_orchestrates d \<noteq> [] \<longrightarrow> td_kind d = Kd_master \<and> td_executionNature d = None)
    \<and> (td_executionGraph d \<noteq> None \<or> td_integrationBranch d \<noteq> None \<or> td_seats d \<noteq> []
        \<or> (\<exists>r\<in>set (td_subTasks d). row_masterRef r \<noteq> None) \<longrightarrow> td_orchestrates d \<noteq> [])
    \<and> (\<forall>g. td_executionGraph d = Some g \<longrightarrow> (\<exists>a. validate_execution_graph (xg_nodes g) (xg_edges g) = Inr a))
    \<and> (\<forall>s\<in>set (td_steps d). (st_disposition s \<noteq> None \<longrightarrow> st_status s = St_done)
        \<and> (\<forall>u\<in>set (st_substeps s). ss_disposition u \<noteq> None \<longrightarrow> ss_status u = St_done))
    \<and> (\<forall>rs. td_reviewState d = Some rs \<longrightarrow>
        set (rs_remainingFindingIds rs) \<subseteq> set (map rf_findingId (rs_baselineFindings rs)))"
proof -
  note v = make_task_document_valid [OF assms]
  have shape: "if td_kind d = Kd_master then td_steps d = [] \<and> td_lifecycleId d = None \<and> td_executionRegistrations d = []
          else td_subTasks d = [] \<and> td_orchestrates d = [] \<and> td_seats d = []"
    using valid_leaf [OF v] valid_master [OF v] by simp
  have graph: "\<forall>g. td_executionGraph d = Some g \<longrightarrow> (\<exists>a. validate_execution_graph (xg_nodes g) (xg_edges g) = Inr a)"
  proof (intro allI impI)
    fix g assume "td_executionGraph d = Some g"
    then obtain a where "execution_graph_analysis g = Inr a" using valid_graph [OF v] by blast
    then show "\<exists>a. validate_execution_graph (xg_nodes g) (xg_edges g) = Inr a"
      by (auto simp: execution_graph_analysis_def split: sum.splits)
  qed
  have sprint: "td_orchestrates d \<noteq> [] \<longrightarrow> td_kind d = Kd_master \<and> td_executionNature d = None"
    by (rule impI, rule valid_sprint_fields(1) [OF v])
  have typed: "td_executionGraph d \<noteq> None \<or> td_integrationBranch d \<noteq> None \<or> td_seats d \<noteq> []
        \<or> (\<exists>r\<in>set (td_subTasks d). row_masterRef r \<noteq> None) \<longrightarrow> td_orchestrates d \<noteq> []"
    by (rule impI, rule valid_sprint_fields(2) [OF v])
  show ?thesis
    by (intro conjI shape graph sprint typed impI ballI allI valid_review(4) [OF v]
          valid_steps_done [OF v, THEN conjunct1, THEN mp] valid_steps_done [OF v, THEN conjunct2, THEN bspec, THEN mp])
qed

section \<open>Witnesses\<close>

definition sample_leaf :: "string \<Rightarrow> task_document" where
  "sample_leaf i = \<lparr>td_id = i, td_slug = i, td_title = i, td_kind = Kd_subTask, td_status = Ds_planning, td_repo = ''repo'',
     td_master = None, td_seriesContractPath = None, td_integrationBranch = None, td_executionNature = None,
     td_executionGraph = None, td_enclosures = [], td_executionRegistrations = [], td_lifecycleId = None,
     td_steps = [\<lparr>st_id = ''S1'', st_title = ''s'', st_outcome = None, st_status = St_done, st_note = None,
       st_substeps = [\<lparr>ss_id = ''S1.1'', ss_title = ''u'', ss_status = St_pending, ss_note = None, ss_disposition = None\<rparr>],
       st_disposition = None\<rparr>],
     td_codeExamples = [], td_codeExamplesNote = None, td_decisions = [], td_routeReview = None, td_reviewState = None,
     td_subTasks = [], td_discardedSubTasks = [], td_sections = [], td_orchestrates = [], td_seats = []\<rparr>"

text \<open>A sprint with a typed row whose reference and seat are not yet in canonical form.\<close>

definition sample_stored_sprint :: task_document where
  "sample_stored_sprint = (sample_leaf ''S'')\<lparr>td_kind := Kd_master, td_steps := [], td_orchestrates := [''m''],
     td_subTasks := [\<lparr>row_number = ''1'', row_name = ''m'', row_file = ''m.md'', row_status = Ds_planning, row_scope = ''x'',
       row_masterRef = Some \<lparr>repository = '' repo'', ref_path = ''./a//m.json''\<rparr>\<rparr>],
     td_seats := [\<lparr>seat_role = '' architect'', seat_label = ''a'', seat_identity = None, seat_state = Seat_planned\<rparr>]\<rparr>"

definition sample_read_sprint :: task_document where
  "sample_read_sprint = sample_stored_sprint\<lparr>
     td_subTasks := [\<lparr>row_number = ''1'', row_name = ''m'', row_file = ''m.md'', row_status = Ds_planning, row_scope = ''x'',
       row_masterRef = Some \<lparr>repository = ''repo'', ref_path = ''a/m.json''\<rparr>\<rparr>],
     td_seats := [\<lparr>seat_role = ''architect'', seat_label = ''a'', seat_identity = None, seat_state = Seat_planned\<rparr>]\<rparr>"

theorem task_document_stable_witness:
  "validate_task_document sample_stored_sprint = Inr sample_read_sprint
   \<and> validate_task_document sample_read_sprint = Inr sample_read_sprint"
proof
  show read: "validate_task_document sample_stored_sprint = Inr sample_read_sprint" by code_simp
  have "\<forall>r \<in> set (document_refs sample_read_sprint). \<not> is_space (hd (ref_path r))" by code_simp
  then show "validate_task_document sample_read_sprint = Inr sample_read_sprint"
    by (rule task_document_stable [OF read])
qed

theorem validated_document_shape_witness:
  "\<exists>d. make_task_document (sample_leaf ''L1'') = Inr d \<and> td_kind d = Kd_subTask \<and> td_subTasks d = []"
proof -
  have "case make_task_document (sample_leaf ''L1'') of Inr d \<Rightarrow> td_kind d = Kd_subTask | Inl _ \<Rightarrow> False" by code_simp
  then obtain d where "make_task_document (sample_leaf ''L1'') = Inr d" "td_kind d = Kd_subTask" by (auto split: sum.splits)
  moreover from this have "td_subTasks d = []" using validated_document_shape [of "sample_leaf ''L1''" d, THEN conjunct1] by simp
  ultimately show ?thesis by blast
qed

end
