(* ===== verification/Task_Progress.thy ===== *)
theory Task_Progress
  imports Task_Documents "HOL-Library.Product_Lexorder" "HOL-Library.Multiset"
begin

text \<open>
  What is read off a task document: the progress counters and the placement of the leaves of a
  master on the segments of the sprint graph (\<open>tasks/document.py\<close>), and terminal readiness
  (\<open>tasks/readiness.py\<close>).
\<close>

section \<open>Progress\<close>

definition declared_statuses :: "task_document \<Rightarrow> step_status list" where
  "declared_statuses d = concat (map (\<lambda>s. st_status s # map ss_status (st_substeps s)) (td_steps d))"

definition step_total :: "task_document \<Rightarrow> nat" where
  "step_total d = length (declared_statuses d)"

definition step_done :: "task_document \<Rightarrow> nat" where
  "step_done d = length (filter (\<lambda>s. s = St_done) (declared_statuses d))"

text \<open>The unit the dashboard shows, as the ids of the step and the substep.\<close>

fun first_unit :: "(step_status \<Rightarrow> bool) \<Rightarrow> task_step list \<Rightarrow> (string \<times> string option) option" where
  "first_unit P [] = None"
| "first_unit P (s # ss) =
     (if P (st_status s) then Some (st_id s, None)
      else (case find (\<lambda>u. P (ss_status u)) (st_substeps s) of
              Some u \<Rightarrow> Some (st_id s, Some (ss_id u))
            | None \<Rightarrow> first_unit P ss))"

definition current_step :: "task_document \<Rightarrow> (string \<times> string option) option" where
  "current_step d =
     (case first_unit (\<lambda>s. s = St_inProgress \<or> s = St_blocked) (td_steps d) of
        Some u \<Rightarrow> Some u
      | None \<Rightarrow> first_unit (\<lambda>s. s \<noteq> St_done) (td_steps d))"

definition series_total :: "task_document \<Rightarrow> nat" where
  "series_total d = length (td_subTasks d)"

definition series_done :: "task_document \<Rightarrow> nat" where
  "series_done d = length (filter (\<lambda>r. row_status r = Ds_Completed) (td_subTasks d))"

section \<open>Readiness\<close>

datatype unit_status = Step_unit step_status | Row_unit doc_status

record completion_blocker =
  cb_id :: string
  cb_parentId :: "string option"
  cb_title :: string
  cb_status :: unit_status

definition row_resolved :: "sub_task_ref \<Rightarrow> bool" where
  "row_resolved r \<longleftrightarrow> row_status r \<in> set RESOLVED_MASTER_ROW_STATUSES"

definition step_blockers :: "task_step \<Rightarrow> completion_blocker list" where
  "step_blockers s =
     (if st_status s \<noteq> St_done
      then [\<lparr>cb_id = st_id s, cb_parentId = None, cb_title = st_title s, cb_status = Step_unit (st_status s)\<rparr>] else [])
     @ map (\<lambda>u. \<lparr>cb_id = ss_id u, cb_parentId = Some (st_id s), cb_title = ss_title u, cb_status = Step_unit (ss_status u)\<rparr>)
         (filter (\<lambda>u. ss_status u \<noteq> St_done) (st_substeps s))"

definition completion_blockers :: "task_document \<Rightarrow> completion_blocker list" where
  "completion_blockers d =
     (if td_kind d = Kd_master
      then map (\<lambda>r. \<lparr>cb_id = row_number r, cb_parentId = Some (td_id d), cb_title = row_name r, cb_status = Row_unit (row_status r)\<rparr>)
             (filter (\<lambda>r. \<not> row_resolved r) (td_subTasks d))
      else concat (map step_blockers (td_steps d)))"

definition master_is_terminal :: "task_document \<Rightarrow> bool" where
  "master_is_terminal d \<longleftrightarrow>
     td_status d = Ds_abandoned \<or> td_status d = Ds_Completed \<and> completion_blockers d = []"

text \<open>\<open>Counter\<close> subtraction keeps the positive counts, which is the difference of multisets; its
  elements are listed in the order of the row identities.\<close>

definition missing_unresolved_master_rows :: "task_document \<Rightarrow> task_document \<Rightarrow> (string \<times> string) list" where
  "missing_unresolved_master_rows original candidate =
     (let key = (\<lambda>r. (row_number r, row_file r));
          unresolved = map key (filter (\<lambda>r. \<not> row_resolved r) (td_subTasks original));
          available = map key (td_subTasks candidate) in
      sort (fold remove1 available unresolved))"

section \<open>Leaf placement\<close>

record leaf_placement =
  lp_placed :: "(string, exec_node) dict"
  lp_unknown :: "string list"
  lp_unplaced :: "string list"
  lp_derived :: "(string, exec_node) dict"
  lp_derived_all_blocked :: bool

definition nodes_for :: "execution_graph \<Rightarrow> task_document_ref \<Rightarrow> exec_node list" where
  "nodes_for g ref = filter (\<lambda>n. xn_ref n = ref) (xg_nodes g)"

text \<open>\<open>list(dict.fromkeys(xs))\<close>: the first occurrences.\<close>

fun from_keys :: "'a list \<Rightarrow> 'a list" where
  "from_keys [] = []"
| "from_keys (x # xs) = x # filter (\<lambda>y. y \<noteq> x) (from_keys xs)"

definition master_refs :: "execution_graph \<Rightarrow> task_document_ref list" where
  "master_refs g = from_keys (map xn_ref (xg_nodes g))"

definition derived_waves :: "execution_graph \<Rightarrow> exec_node list list result" where
  "derived_waves g = rbind (execution_graph_analysis g) (\<lambda>a. Inr (ga_waves a))"

text \<open>The position of a node in the waves and in the declaration; nodes are unique.\<close>

definition wave_of :: "exec_node list list \<Rightarrow> exec_node \<Rightarrow> nat" where
  "wave_of waves n = length (takeWhile (\<lambda>w. n \<notin> set w) waves)"

definition declaration_of :: "exec_node list \<Rightarrow> exec_node \<Rightarrow> nat" where
  "declaration_of nodes n = length (takeWhile (\<lambda>m. m \<noteq> n) nodes)"

definition predecessors :: "execution_graph \<Rightarrow> graph_analysis \<Rightarrow> exec_node \<Rightarrow> exec_node list" where
  "predecessors g a n =
     map (\<lambda>(p, s). xg_nodes g ! p) (filter (\<lambda>(p, s). xg_nodes g ! s = n) (ga_resolvedEdgeIndexes a))"

definition unblocked :: "execution_graph \<Rightarrow> graph_analysis \<Rightarrow> task_document_ref set \<Rightarrow> exec_node \<Rightarrow> bool" where
  "unblocked g a resolved n \<longleftrightarrow> list_all (\<lambda>p. xn_ref p \<in> resolved) (predecessors g a n)"

definition schedule_key :: "execution_graph \<Rightarrow> graph_analysis \<Rightarrow> exec_node \<Rightarrow> nat \<times> nat" where
  "schedule_key g a n = (wave_of (ga_waves a) n, declaration_of (xg_nodes g) n)"

definition latest_unblocked_segment ::
  "execution_graph \<Rightarrow> exec_node list \<Rightarrow> task_document_ref set \<Rightarrow> (exec_node \<times> bool) result" where
  "latest_unblocked_segment g segments resolved =
     rbind (execution_graph_analysis g) (\<lambda>a.
       (let ordered = sort_key (schedule_key g a) segments in
        case find (unblocked g a resolved) (rev ordered) of
          Some n \<Rightarrow> Inr (n, False)
        | None \<Rightarrow> Inr (last ordered, True)))"

definition place_segments :: "exec_node list \<Rightarrow> (string, exec_node) dict" where
  "place_segments segments = fold (\<lambda>n d. fold (\<lambda>leaf d. AList.update leaf n d) (xn_leafIds n) d) segments []"

definition derived_leaf_placement ::
  "execution_graph \<Rightarrow> task_document_ref \<Rightarrow> string list \<Rightarrow> task_document_ref set \<Rightarrow> leaf_placement result" where
  "derived_leaf_placement g master_ref planned_leaf_ids resolved =
     (let segments = filter (\<lambda>n. xn_kind n = Segment) (nodes_for g master_ref);
          planned = from_keys planned_leaf_ids;
          placed = place_segments segments;
          unknown = filter (\<lambda>l. l \<notin> set planned) (map fst placed);
          unplaced = filter (\<lambda>l. map_of placed l = None) planned in
      if segments = [] then Inr \<lparr>lp_placed = [], lp_unknown = [], lp_unplaced = [], lp_derived = [], lp_derived_all_blocked = False\<rparr>
      else if unplaced = []
      then Inr \<lparr>lp_placed = placed, lp_unknown = unknown, lp_unplaced = [], lp_derived = [], lp_derived_all_blocked = False\<rparr>
      else rbind (latest_unblocked_segment g segments resolved) (\<lambda>(target, all_blocked).
        Inr \<lparr>lp_placed = placed, lp_unknown = unknown, lp_unplaced = unplaced,
             lp_derived = map (\<lambda>l. (l, target)) unplaced, lp_derived_all_blocked = all_blocked\<rparr>))"

text \<open>The facts reported for one master, without their dictionary shape.\<close>

datatype placement_fact =
    Unknown_leaf string
  | Unplaced_leaf string "string list" bool

definition leaf_placement_facts :: "leaf_placement \<Rightarrow> placement_fact list" where
  "leaf_placement_facts pl =
     map Unknown_leaf (lp_unknown pl)
     @ map (\<lambda>l. Unplaced_leaf l (case map_of (lp_derived pl) l of None \<Rightarrow> [] | Some n \<Rightarrow> xn_leafIds n) (lp_derived_all_blocked pl))
         (lp_unplaced pl)"

section \<open>Numbering drift\<close>

definition is_digit :: "char \<Rightarrow> bool" where
  "is_digit c = (let n = of_char c :: nat in 48 \<le> n \<and> n \<le> 57)"

definition leaf_trailing_number :: "string \<Rightarrow> nat option" where
  "leaf_trailing_number leaf =
     (let digits = rev (takeWhile is_digit (rev leaf)) in
      if digits = [] then None else Some (foldl (\<lambda>n c. 10 * n + (of_char c - 48)) 0 digits))"

record drift_hint =
  dh_master :: task_document_ref
  dh_lowerLeaf :: string
  dh_lowerWave :: nat
  dh_higherLeaf :: string
  dh_higherWave :: nat

definition numbered_leaves :: "execution_graph \<Rightarrow> exec_node list list \<Rightarrow> task_document_ref \<Rightarrow> (string \<times> nat \<times> nat) list" where
  "numbered_leaves g waves ref =
     concat (map (\<lambda>n. concat (map (\<lambda>leaf. case leaf_trailing_number leaf of
                 None \<Rightarrow> [] | Some k \<Rightarrow> [(leaf, wave_of waves n, k)]) (xn_leafIds n)))
       (filter (\<lambda>n. xn_kind n = Segment) (nodes_for g ref)))"

definition numbering_drift_hints :: "execution_graph \<Rightarrow> drift_hint list result" where
  "numbering_drift_hints g =
     rbind (derived_waves g) (\<lambda>waves.
       Inr (concat (map (\<lambda>ref.
         (let numbered = numbered_leaves g waves ref in
          concat (map (\<lambda>(lower, lw, ln). concat (map (\<lambda>(higher, hw, hn).
            if ln < hn \<and> hw < lw
            then [\<lparr>dh_master = ref, dh_lowerLeaf = lower, dh_lowerWave = lw + 1, dh_higherLeaf = higher, dh_higherWave = hw + 1\<rparr>]
            else []) numbered)) numbered)))
         (master_refs g))))"

section \<open>Lemmas on readiness\<close>

lemma step_blockers_Nil: "step_blockers s = [] \<longleftrightarrow> st_status s = St_done \<and> (\<forall>u\<in>set (st_substeps s). ss_status u = St_done)"
  by (auto simp: step_blockers_def filter_empty_conv)

lemma length_step_blockers:
  "length (step_blockers s) + length (filter (\<lambda>x. x = St_done) (st_status s # map ss_status (st_substeps s)))
     = Suc (length (st_substeps s))"
proof -
  have "length (filter (\<lambda>u. ss_status u \<noteq> St_done) us) + length (filter (\<lambda>x. x = St_done) (map ss_status us)) = length us" for us
    by (induction us) auto
  from this [of "st_substeps s"] show ?thesis by (simp add: step_blockers_def)
qed

lemma blockers_count:
  assumes "td_kind d \<noteq> Kd_master"
  shows "length (completion_blockers d) + step_done d = step_total d"
proof -
  have "length (concat (map step_blockers ss))
      + length (filter (\<lambda>s. s = St_done) (concat (map (\<lambda>s. st_status s # map ss_status (st_substeps s)) ss)))
      = length (concat (map (\<lambda>s. st_status s # map ss_status (st_substeps s)) ss))" for ss
  proof (induction ss)
    case (Cons s ss)
    then show ?case using length_step_blockers [of s] by (simp del: filter.simps add: filter_append [of _ "_ # _", simplified append_Cons])
  qed simp
  from this [of "td_steps d"] show ?thesis
    using assms by (simp add: completion_blockers_def step_done_def step_total_def declared_statuses_def)
qed

lemma first_unit_None: "first_unit P ss = None \<longleftrightarrow> (\<forall>s\<in>set ss. \<not> P (st_status s) \<and> (\<forall>u\<in>set (st_substeps s). \<not> P (ss_status u)))"
  by (induction ss) (auto simp: find_None_iff find_Some_iff split: option.splits)

lemma current_step_None:
  assumes "td_kind d \<noteq> Kd_master"
  shows "current_step d = None \<longleftrightarrow> completion_blockers d = []"
proof -
  have "current_step d = None \<longleftrightarrow> first_unit (\<lambda>s. s \<noteq> St_done) (td_steps d) = None"
  proof (cases "first_unit (\<lambda>s. s = St_inProgress \<or> s = St_blocked) (td_steps d)")
    case (Some u)
    then have "first_unit (\<lambda>s. s = St_inProgress \<or> s = St_blocked) (td_steps d) \<noteq> None" by simp
    then have "first_unit (\<lambda>s. s \<noteq> St_done) (td_steps d) \<noteq> None" unfolding first_unit_None by (force simp: Ball_def)
    then show ?thesis using Some by (simp add: current_step_def)
  qed (simp add: current_step_def)
  then show ?thesis using assms by (auto simp: completion_blockers_def first_unit_None step_blockers_Nil)
qed

lemma mset_fold_remove1: "mset (fold remove1 ys xs) = mset xs - mset ys"
  by (induction ys arbitrary: xs) (auto simp: diff_diff_add)

lemma set_from_keys [simp]: "set (from_keys xs) = set xs"
  by (induction xs) auto

lemma distinct_from_keys [simp]: "distinct (from_keys xs)"
  by (induction xs) auto

section \<open>Lemmas on placement\<close>

lemma find_rev_latest:
  assumes "sorted (map f xs)" "find P (rev xs) = Some x"
  shows "x \<in> set xs \<and> P x \<and> (\<forall>y\<in>set xs. P y \<longrightarrow> f y \<le> f x)"
  using assms
proof (induction xs rule: rev_induct)
  case (snoc y ys)
  show ?case
  proof (cases "P y")
    case True
    then show ?thesis using snoc.prems by (auto simp: sorted_append)
  next
    case False
    then show ?thesis using snoc by (auto simp: sorted_append)
  qed
qed simp

lemma last_is_latest: "sorted (map f xs) \<Longrightarrow> y \<in> set xs \<Longrightarrow> f y \<le> f (last xs)"
  by (induction xs rule: rev_induct) (auto simp: sorted_append)

lemma place_leaves_lookup:
  "map_of (fold (\<lambda>leaf d. AList.update leaf n d) ls d) l = (if l \<in> set ls then Some n else map_of d l)"
  by (induction ls arbitrary: d) (auto simp: update_conv')

lemma place_segments_snoc: "place_segments (ns @ [n]) = fold (\<lambda>leaf d. AList.update leaf n d) (xn_leafIds n) (place_segments ns)"
  by (simp add: place_segments_def)

lemma place_segments_Some: "map_of (place_segments ns) l = Some n \<Longrightarrow> n \<in> set ns \<and> l \<in> set (xn_leafIds n)"
  by (induction ns rule: rev_induct)
    (auto simp: place_segments_snoc place_leaves_lookup place_segments_def [of "[]"] split: if_splits)

lemma place_segments_None: "map_of (place_segments ns) l = None \<longleftrightarrow> (\<forall>n\<in>set ns. l \<notin> set (xn_leafIds n))"
  by (induction ns rule: rev_induct)
    (auto simp: place_segments_snoc place_leaves_lookup place_segments_def [of "[]"] split: if_splits)

lemma latest_segment:
  assumes "execution_graph_analysis g = Inr a" "segs \<noteq> []"
  obtains n b where "latest_unblocked_segment g segs resolved = Inr (n, b)" "n \<in> set segs"
    "if b then (\<forall>s\<in>set segs. \<not> unblocked g a resolved s \<and> schedule_key g a s \<le> schedule_key g a n)
     else unblocked g a resolved n \<and> (\<forall>s\<in>set segs. unblocked g a resolved s \<longrightarrow> schedule_key g a s \<le> schedule_key g a n)"
proof (cases "find (unblocked g a resolved) (rev (sort_key (schedule_key g a) segs))")
  case None
  have "last (sort_key (schedule_key g a) segs) \<in> set (sort_key (schedule_key g a) segs)"
    using assms(2) by (intro last_in_set) (metis length_0_conv length_sort)
  moreover have "latest_unblocked_segment g segs resolved = Inr (last (sort_key (schedule_key g a) segs), True)"
    using assms(1) None by (simp add: latest_unblocked_segment_def Let_def)
  moreover have "\<forall>s\<in>set segs. \<not> unblocked g a resolved s" using None by (auto simp: find_None_iff)
  ultimately show ?thesis
    using last_is_latest [of "schedule_key g a" "sort_key (schedule_key g a) segs"] by (intro that) auto
next
  case (Some n)
  then show ?thesis
    using assms(1) find_rev_latest [of "schedule_key g a" "sort_key (schedule_key g a) segs" _ n]
    by (intro that [of n False]) (auto simp: latest_unblocked_segment_def Let_def)
qed

section \<open>Properties\<close>

text \<open>Leaves planned after the graph was authored are placed: for a master with segments in a
  valid graph the placement is always computed, every planned leaf is either placed by a segment
  that names it or derived onto one segment of the master, never both, and that segment is the
  latest one whose predecessor masters are all decided, or the latest one at all, flagged, when
  every segment is blocked; the leaves reported unknown are the placed ones that are not planned.\<close>

lemma unplaced_leaves_join_latest_open_segment:
  assumes "execution_graph_analysis g = Inr a"
    and "segs = filter (\<lambda>n. xn_kind n = Segment) (nodes_for g ref)" "segs \<noteq> []"
  shows "\<exists>pl. derived_leaf_placement g ref planned resolved = Inr pl
    \<and> (\<forall>l\<in>set planned. (map_of (lp_placed pl) l = None) \<longleftrightarrow> (map_of (lp_derived pl) l \<noteq> None))
    \<and> (\<forall>l n. map_of (lp_placed pl) l = Some n \<longrightarrow> n \<in> set segs \<and> l \<in> set (xn_leafIds n))
    \<and> (\<forall>l n. map_of (lp_derived pl) l = Some n \<longrightarrow> l \<in> set planned \<and> n \<in> set segs
        \<and> (if lp_derived_all_blocked pl
           then (\<forall>s\<in>set segs. \<not> unblocked g a resolved s \<and> schedule_key g a s \<le> schedule_key g a n)
           else unblocked g a resolved n
             \<and> (\<forall>s\<in>set segs. unblocked g a resolved s \<longrightarrow> schedule_key g a s \<le> schedule_key g a n)))
    \<and> set (lp_unknown pl) = dom (map_of (lp_placed pl)) - set planned"
proof -
  let ?placed = "place_segments segs"
  let ?unplaced = "filter (\<lambda>l. map_of ?placed l = None) (from_keys planned)"
  obtain n b where n: "latest_unblocked_segment g segs resolved = Inr (n, b)" "n \<in> set segs"
    "if b then (\<forall>s\<in>set segs. \<not> unblocked g a resolved s \<and> schedule_key g a s \<le> schedule_key g a n)
     else unblocked g a resolved n \<and> (\<forall>s\<in>set segs. unblocked g a resolved s \<longrightarrow> schedule_key g a s \<le> schedule_key g a n)"
    using latest_segment [OF assms(1,3)] by metis
  have look: "map_of (map (\<lambda>l. (l, n)) ls) l = (if l \<in> set ls then Some n else None)" for ls :: "string list" and l
    by (induction ls) auto
  have keys: "fst ` set ?placed = dom (map_of ?placed)" by (simp add: dom_map_of_conv_image_fst)
  show ?thesis
  proof (cases "?unplaced = []")
    case True
    then show ?thesis
      using assms(2,3) keys by (auto simp: derived_leaf_placement_def Let_def filter_empty_conv dest: place_segments_Some)
  next
    case False
    then show ?thesis
      using assms(2,3) keys n
      by (auto simp: derived_leaf_placement_def Let_def look dest: place_segments_Some)
  qed
qed

text \<open>A document is ready exactly when its counters say so: for a leaf the unfinished units, the
  missing progress and the absence of a current step agree, and a master is ready exactly when every
  row is resolved.\<close>

lemma readiness_agrees_with_progress:
  "(td_kind d \<noteq> Kd_master \<longrightarrow>
      length (completion_blockers d) = step_total d - step_done d \<and> step_done d \<le> step_total d
      \<and> (current_step d = None \<longleftrightarrow> step_done d = step_total d))
   \<and> (td_kind d = Kd_master \<longrightarrow>
      (completion_blockers d = [] \<longleftrightarrow> (\<forall>r\<in>set (td_subTasks d). row_status r \<in> {Ds_Completed, Ds_abandoned})))"
proof -
  have "length (completion_blockers d) = step_total d - step_done d \<and> step_done d \<le> step_total d
      \<and> (current_step d = None \<longleftrightarrow> step_done d = step_total d)" if "td_kind d \<noteq> Kd_master"
    using blockers_count [OF that] current_step_None [OF that] by auto
  then show ?thesis
    by (auto simp: completion_blockers_def filter_empty_conv row_resolved_def RESOLVED_MASTER_ROW_STATUSES_def)
qed

text \<open>The rows reported missing are the unresolved rows of the original that the candidate does not
  have, counted with their multiplicity.\<close>

lemma missing_rows_mset:
  "mset (missing_unresolved_master_rows original candidate)
     = image_mset (\<lambda>r. (row_number r, row_file r)) (mset (filter (\<lambda>r. \<not> row_resolved r) (td_subTasks original)))
       - image_mset (\<lambda>r. (row_number r, row_file r)) (mset (td_subTasks candidate))"
  by (simp add: missing_unresolved_master_rows_def Let_def mset_fold_remove1)

lemma missing_rows_sorted: "sorted (missing_unresolved_master_rows original candidate)"
  by (simp add: missing_unresolved_master_rows_def Let_def)

section \<open>Witnesses\<close>

definition sample_graph :: execution_graph where
  "sample_graph = \<lparr>xg_nodes = sample_nodes, xg_edges = sample_edges\<rparr>"

lemma sample_graph_valid: "case execution_graph_analysis sample_graph of Inr _ \<Rightarrow> True | Inl _ \<Rightarrow> False"
  by code_simp

lemma unplaced_leaves_join_latest_open_segment_witness:
  "\<exists>pl. derived_leaf_placement sample_graph (sample_ref ''b'') [''L1'', ''L9''] {sample_ref ''a''} = Inr pl
     \<and> (map_of (lp_placed pl) ''L9'' = None) \<and> (map_of (lp_derived pl) ''L9'' \<noteq> None)"
proof -
  obtain a where a: "execution_graph_analysis sample_graph = Inr a" using sample_graph_valid by (auto split: sum.splits)
  have ne: "filter (\<lambda>n. xn_kind n = Segment) (nodes_for sample_graph (sample_ref ''b'')) \<noteq> []" by code_simp
  have no: "case derived_leaf_placement sample_graph (sample_ref ''b'') [''L1'', ''L9''] {sample_ref ''a''} of
      Inr pl \<Rightarrow> map_of (lp_placed pl) ''L9'' = None | Inl _ \<Rightarrow> False" by code_simp
  show ?thesis
    using unplaced_leaves_join_latest_open_segment [OF a refl ne, of "[''L1'', ''L9'']" "{sample_ref ''a''}"] no by auto
qed

lemma readiness_agrees_with_progress_witness:
  "td_kind (sample_leaf ''L1'') \<noteq> Kd_master \<and> length (completion_blockers (sample_leaf ''L1'')) = 1
     \<and> step_total (sample_leaf ''L1'') - step_done (sample_leaf ''L1'') = 1"
proof -
  have "td_kind (sample_leaf ''L1'') \<noteq> Kd_master" "step_total (sample_leaf ''L1'') - step_done (sample_leaf ''L1'') = 1" by code_simp+
  then show ?thesis using readiness_agrees_with_progress [of "sample_leaf ''L1''"] by simp
qed

end
