(* ===== verification/Task_Topology.thy ===== *)
theory Task_Topology
  imports Task_Progress
begin

text \<open>
  \<open>tasks/document_refs.py\<close>: the resolver of one coordination root. It reads task documents from the
  task tree, with pending candidates over them, finds the parent, the children and the altitude of
  a document, and validates the execution topology and the typed linkage of a sprint. A file holds
  what its bytes decode to before the validators run; the observer of sources is left out.
\<close>

section \<open>The task tree\<close>

datatype source_state = Absent | Unreadable | Json task_document

record task_topology =
  tt_root :: path
  tt_files :: "(path, source_state) dict"
  tt_dirs :: "path list"
  tt_accepted :: "(path, source_state) dict"

record resolved_document =
  rd_ref :: task_document_ref
  rd_path :: path
  rd_document :: task_document

datatype task_altitude = Alt_sprint | Alt_master | Alt_leaf

type_synonym overrides = "(task_document_ref, task_document) dict"

definition repo_root :: "task_topology \<Rightarrow> string \<Rightarrow> path" where
  "repo_root t repo = resolve_path (path_join (tt_root t @ [''tasks'']) repo)"

definition path_for_ref :: "task_topology \<Rightarrow> task_document_ref \<Rightarrow> path result" where
  "path_for_ref t ref =
     (let root = repo_root t (repository ref); p = resolve_path (path_join root (ref_path ref)) in
      if is_relative_to p root then Inr p else Inl (TaskDocumentRefError ''task-document-outside-root''))"

definition disk_source :: "task_topology \<Rightarrow> path \<Rightarrow> source_state" where
  "disk_source t p = (case map_of (tt_files t) p of None \<Rightarrow> Absent | Some s \<Rightarrow> s)"

text \<open>An accepted source hides the file.\<close>

definition source_at :: "task_topology \<Rightarrow> path \<Rightarrow> source_state" where
  "source_at t p = (case map_of (tt_accepted t) p of None \<Rightarrow> disk_source t p | Some s \<Rightarrow> s)"

fun read_source :: "source_state \<Rightarrow> task_document result" where
  "read_source Absent = Inl (TaskDocumentRefError ''task-document-not-found'')"
| "read_source Unreadable = Inl (TaskDocumentRefError ''task-document-invalid'')"
| "read_source (Json raw) =
     (case make_task_document raw of
        Inl _ \<Rightarrow> Inl (TaskDocumentRefError ''task-document-invalid'') | Inr d \<Rightarrow> Inr d)"

definition resolve :: "task_topology \<Rightarrow> task_document_ref \<Rightarrow> overrides \<Rightarrow> resolved_document result" where
  "resolve t ref overrides =
     rbind (path_for_ref t ref) (\<lambda>p.
     rbind (case map_of overrides ref of Some d \<Rightarrow> Inr d | None \<Rightarrow> read_source (source_at t p)) (\<lambda>d.
       if td_repo d \<noteq> repository ref then Inl (TaskDocumentRefError ''task-document-repo-mismatch'')
       else Inr \<lparr>rd_ref = ref, rd_path = p, rd_document = d\<rparr>))"

text \<open>The method itself also keeps the source it read for the next call.\<close>

definition remember :: "task_topology \<Rightarrow> path \<Rightarrow> task_topology" where
  "remember t p =
     (if map_of (tt_accepted t) p = None \<and> (case read_source (disk_source t p) of Inl _ \<Rightarrow> False | Inr _ \<Rightarrow> True)
      then t\<lparr>tt_accepted := AList.update p (disk_source t p) (tt_accepted t)\<rparr> else t)"

definition resolve_reading :: "task_topology \<Rightarrow> task_document_ref \<Rightarrow> overrides \<Rightarrow> resolved_document result \<times> task_topology" where
  "resolve_reading t ref overrides =
     (resolve t ref overrides,
      if map_of overrides ref = None then (case path_for_ref t ref of Inl _ \<Rightarrow> t | Inr p \<Rightarrow> remember t p) else t)"

definition canonical_ref_path :: "task_topology \<Rightarrow> string \<Rightarrow> path \<Rightarrow> task_document_ref result" where
  "canonical_ref_path t repo p =
     (let root = repo_root t repo; q = resolve_path p in
      if \<not> is_relative_to q root then Inl (TaskDocumentRefError ''task-document-outside-root'')
      else rbind (make_task_document_ref repo (posix_text (relative_to q root))) (\<lambda>ref.
           rbind (resolve t ref []) (\<lambda>r. Inr (rd_ref r))))"

definition canonical_ref :: "task_topology \<Rightarrow> string \<Rightarrow> string \<Rightarrow> task_document_ref result" where
  "canonical_ref t repo p = canonical_ref_path t repo (path_join (repo_root t repo) p)"

text \<open>The entries of the tree, and the direct JSON children of a directory in the order of their names.\<close>

definition entries :: "task_topology \<Rightarrow> path list" where
  "entries t = map fst (filter (\<lambda>(_, s). s \<noteq> Absent) (tt_files t)) @ tt_dirs t"

definition ends_with :: "string \<Rightarrow> string \<Rightarrow> bool" where
  "ends_with s e \<longleftrightarrow> drop (length s - length e) s = e"

definition glob_json :: "task_topology \<Rightarrow> path \<Rightarrow> path list" where
  "glob_json t dir = sort (from_keys (filter (\<lambda>p. p \<noteq> [] \<and> path_parent p = dir \<and> ends_with (path_name p) ''.json'') (entries t)))"

definition ref_for_id :: "task_topology \<Rightarrow> string \<Rightarrow> string \<Rightarrow> string \<Rightarrow> task_document_ref result" where
  "ref_for_id t repo directory document_id =
     (let root = repo_root t repo; dir = resolve_path (path_join root directory) in
      if \<not> is_relative_to dir root then Inl (TaskDocumentRefError ''task-document-outside-root'')
      else rbind (traverse (\<lambda>p. rbind (canonical_ref_path t repo p) (\<lambda>ref. rbind (resolve t ref []) (\<lambda>r.
                    Inr (ref, td_id (rd_document r) = document_id)))) (glob_json t dir)) (\<lambda>found.
           (case filter snd found of
              [] \<Rightarrow> Inl (TaskDocumentRefError ''task-document-not-found'')
            | [(ref, _)] \<Rightarrow> Inr ref
            | _ \<Rightarrow> Inl (TaskDocumentRefError ''task-document-id-ambiguous''))))"

section \<open>Containment\<close>

definition declares_leaf :: "resolved_document \<Rightarrow> task_document \<Rightarrow> bool" where
  "declares_leaf leaf parent =
     (let names = [path_name (rd_path leaf), path_stem (rd_path leaf), td_id (rd_document leaf)] in
      list_ex (\<lambda>item. row_number item = td_id (rd_document leaf)
        \<or> row_file item \<noteq> [] \<and> (path_name (posix_parts (row_file item)) \<in> set names
                                  \<or> path_stem (posix_parts (row_file item)) \<in> set names)) (td_subTasks parent))"

definition leaf_parent :: "task_topology \<Rightarrow> resolved_document \<Rightarrow> resolved_document result" where
  "leaf_parent t leaf =
     rbind (canonical_ref_path t (repository (rd_ref leaf)) (path_parent (rd_path leaf) @ [''task.json''])) (\<lambda>parent_ref.
     rbind (resolve t parent_ref []) (\<lambda>parent.
       if td_kind (rd_document parent) \<noteq> Kd_master then Inl (TaskDocumentRefError ''task-document-parent-invalid'')
       else if declares_leaf leaf (rd_document parent) then Inr parent
       else Inl (TaskDocumentRefError ''task-document-parent-missing'')))"

definition live_parts :: "string list \<Rightarrow> bool" where
  "live_parts parts \<longleftrightarrow> ARCHIVE_DIR \<notin> set parts \<and> ENCLOSURES_DIR \<notin> set parts"

text \<open>The census of task.json files below a repository root, outside archive and enclosures, with the
  candidates added; the references in the order of their keys.\<close>

definition master_document_refs :: "task_topology \<Rightarrow> string \<Rightarrow> overrides \<Rightarrow> task_document_ref list result" where
  "master_document_refs t repo overrides =
     (let root = repo_root t repo;
          found = filter (\<lambda>parts. parts \<noteq> [] \<and> path_name parts = ''task.json'' \<and> live_parts parts)
                    (map (\<lambda>p. relative_to p root) (filter (\<lambda>p. is_relative_to p root) (entries t)));
          pending = filter (\<lambda>ref. repository ref = repo \<and> path_name (posix_parts (ref_path ref)) = ''task.json''
                      \<and> live_parts (posix_parts (ref_path ref))) (map fst overrides) in
      rbind (traverse (\<lambda>parts. make_task_document_ref repo (posix_text parts)) found) (\<lambda>refs.
        Inr (sort_key ref_key (from_keys (refs @ pending)))))"

definition repository_master_documents :: "task_topology \<Rightarrow> string \<Rightarrow> resolved_document list result" where
  "repository_master_documents t repo =
     rbind (master_document_refs t repo []) (\<lambda>refs.
     rbind (traverse (\<lambda>ref. resolve t ref []) refs) (\<lambda>ds.
       Inr (filter (\<lambda>d. td_kind (rd_document d) = Kd_master) ds)))"

text \<open>The names under which a sprint may command a master.\<close>

definition aliases :: "resolved_document \<Rightarrow> string list" where
  "aliases m = [path_name (path_parent (rd_path m)), td_id (rd_document m), td_title (rd_document m)]"

definition commands :: "task_document \<Rightarrow> resolved_document \<Rightarrow> bool" where
  "commands sprint m \<longleftrightarrow> list_ex (\<lambda>name. name \<in> set (aliases m)) (td_orchestrates sprint)"

definition sprint_parents :: "task_topology \<Rightarrow> resolved_document \<Rightarrow> resolved_document list result" where
  "sprint_parents t m =
     rbind (repository_master_documents t (repository (rd_ref m))) (\<lambda>ds.
       Inr (filter (\<lambda>c. rd_ref c \<noteq> rd_ref m \<and> td_orchestrates (rd_document c) \<noteq> [] \<and> commands (rd_document c) m) ds))"

definition parent :: "task_topology \<Rightarrow> task_document_ref \<Rightarrow> task_document_ref option result" where
  "parent t ref =
     rbind (resolve t ref []) (\<lambda>r.
       if td_kind (rd_document r) \<noteq> Kd_master then rbind (leaf_parent t r) (\<lambda>p. Inr (Some (rd_ref p)))
       else rbind (sprint_parents t r) (\<lambda>parents.
         if (td_orchestrates (rd_document r) \<noteq> [] \<or> td_executionNature (rd_document r) \<noteq> Some Organizational) \<and> parents = []
         then Inr None
         else (case parents of
                 [p] \<Rightarrow> Inr (Some (rd_ref p))
               | [] \<Rightarrow> Inl (TaskDocumentRefError ''task-document-parent-missing'')
               | _ \<Rightarrow> Inl (TaskDocumentRefError ''task-document-parent-ambiguous''))))"

definition altitude :: "task_topology \<Rightarrow> task_document_ref \<Rightarrow> task_altitude result" where
  "altitude t ref =
     rbind (resolve t ref []) (\<lambda>r.
       if td_kind (rd_document r) \<noteq> Kd_master then rbind (parent t ref) (\<lambda>_. Inr Alt_leaf)
       else rbind (sprint_parents t r) (\<lambda>parents.
         if td_orchestrates (rd_document r) \<noteq> []
         then (if parents \<noteq> [] then Inl (TaskDocumentRefError ''task-document-altitude-ambiguous'') else Inr Alt_sprint)
         else if length parents = 1 then Inr Alt_master
         else if parents = [] \<and> td_executionNature (rd_document r) \<noteq> Some Organizational then Inr Alt_master
         else if parents = [] then Inl (TaskDocumentRefError ''task-document-parent-missing'')
         else Inl (TaskDocumentRefError ''task-document-parent-ambiguous'')))"

definition role_altitudes :: "string \<Rightarrow> task_altitude list" where
  "role_altitudes role =
     (if role = ''reviewer'' then [Alt_sprint, Alt_master, Alt_leaf]
      else if role \<in> set SPRINT_ROLES then [Alt_sprint]
      else if role \<in> set MASTER_ROLES then [Alt_master]
      else if role \<in> set LEAF_ROLES then [Alt_leaf] else [])"

definition validate_role :: "task_topology \<Rightarrow> task_document_ref \<Rightarrow> string \<Rightarrow> task_altitude result" where
  "validate_role t ref role =
     (if role_altitudes role = [] then Inl (TaskDocumentRefError ''seat-role-unsupported'')
      else rbind (altitude t ref) (\<lambda>actual.
        if actual \<in> set (role_altitudes role) then Inr actual
        else Inl (TaskDocumentRefError ''seat-role-altitude-mismatch'')))"

text \<open>\<open>Path.is_file\<close> on a path that may have double dots: the system walks through directories.\<close>

fun walk :: "path list \<Rightarrow> path \<Rightarrow> string list \<Rightarrow> path option" where
  "walk dirs cur [] = Some cur"
| "walk dirs cur (p # ps) =
     (if p = ''..'' then (if cur = [] \<or> cur \<in> set dirs then walk dirs (butlast cur) ps else None)
      else walk dirs (cur @ [p]) ps)"

definition is_file :: "task_topology \<Rightarrow> path \<Rightarrow> bool" where
  "is_file t p \<longleftrightarrow> (case walk (tt_dirs t) [] p of None \<Rightarrow> False | Some q \<Rightarrow> disk_source t q \<noteq> Absent)"

definition commanded_masters :: "task_topology \<Rightarrow> resolved_document \<Rightarrow> resolved_document list result" where
  "commanded_masters t sprint =
     rbind (repository_master_documents t (repository (rd_ref sprint))) (\<lambda>ds.
       Inr (filter (\<lambda>c. rd_ref c \<noteq> rd_ref sprint \<and> commands (rd_document sprint) c) ds))"

fun leaf_children :: "task_topology \<Rightarrow> resolved_document \<Rightarrow> sub_task_ref list \<Rightarrow> task_document_ref list result" where
  "leaf_children t m [] = Inr []"
| "leaf_children t m (item # items) =
     (if row_file item = [] then leaf_children t m items
      else rbind (with_suffix (path_join (path_parent (rd_path m)) (row_file item)) ''.json'') (\<lambda>candidate.
        if is_file t candidate
        then rbind (canonical_ref_path t (repository (rd_ref m)) candidate) (\<lambda>c.
             rbind (leaf_children t m items) (\<lambda>cs. Inr (c # cs)))
        else leaf_children t m items))"

definition children :: "task_topology \<Rightarrow> task_document_ref \<Rightarrow> task_document_ref list result" where
  "children t ref =
     rbind (resolve t ref []) (\<lambda>r.
     rbind (altitude t ref) (\<lambda>a.
       (case a of
          Alt_leaf \<Rightarrow> Inr []
        | Alt_master \<Rightarrow> rbind (leaf_children t r (td_subTasks (rd_document r))) (\<lambda>cs. Inr (from_keys cs))
        | Alt_sprint \<Rightarrow> rbind (commanded_masters t r) (\<lambda>ms. Inr (map rd_ref ms)))))"

section \<open>Execution topology of a sprint\<close>

fun is_ref_error :: "py_error \<Rightarrow> bool" where
  "is_ref_error (TaskDocumentRefError _) = True"
| "is_ref_error _ = False"

text \<open>An unreadable document vetoes the sprint only when its directory is one of the commanded names.\<close>

fun available_masters ::
  "task_topology \<Rightarrow> overrides \<Rightarrow> resolved_document \<Rightarrow> task_document_ref list \<Rightarrow> resolved_document list result" where
  "available_masters t overrides sprint [] = Inr []"
| "available_masters t overrides sprint (ref # refs) =
     (if ref = rd_ref sprint then available_masters t overrides sprint refs
      else (case resolve t ref overrides of
              Inl e \<Rightarrow>
                if \<not> is_ref_error e
                   \<or> path_name (path_parent (posix_parts (ref_path ref))) \<in> set (td_orchestrates (rd_document sprint))
                then Inl e else available_masters t overrides sprint refs
            | Inr c \<Rightarrow> rbind (available_masters t overrides sprint refs) (\<lambda>cs.
                Inr (if td_kind (rd_document c) = Kd_master then c # cs else cs))))"

definition one_master :: "resolved_document list \<Rightarrow> string \<Rightarrow> resolved_document result" where
  "one_master available name =
     (case filter (\<lambda>c. name \<in> set (aliases c)) available of
        [c] \<Rightarrow> Inr c
      | _ \<Rightarrow> Inl (TaskDocumentRefError ''task-execution-graph-membership-invalid''))"

definition commanded_masters_exact :: "task_topology \<Rightarrow> resolved_document \<Rightarrow> overrides \<Rightarrow> resolved_document list result" where
  "commanded_masters_exact t sprint overrides =
     rbind (master_document_refs t (repository (rd_ref sprint)) overrides) (\<lambda>refs.
     rbind (available_masters t overrides sprint refs) (\<lambda>available.
     rbind (traverse (one_master available) (td_orchestrates (rd_document sprint))) (\<lambda>masters.
       if distinct (map rd_ref masters) then Inr masters
       else Inl (TaskDocumentRefError ''task-execution-graph-membership-invalid''))))"

fun refuse_segment_nodes_on_atomic_masters ::
  "exec_node list \<Rightarrow> (task_document_ref, execution_nature) dict \<Rightarrow> unit result" where
  "refuse_segment_nodes_on_atomic_masters [] nature = Inr ()"
| "refuse_segment_nodes_on_atomic_masters (n # ns) nature =
     (if xn_kind n = Segment \<and> map_of nature (xn_ref n) = Some Atomic
      then Inl (TaskDocumentRefError ''task-execution-graph-node-kind-invalid'')
      else refuse_segment_nodes_on_atomic_masters ns nature)"

fun linkage_rows ::
  "task_topology \<Rightarrow> overrides \<Rightarrow> resolved_document \<Rightarrow> task_document_ref set \<Rightarrow> task_document_ref list \<Rightarrow> task_document_ref list \<Rightarrow> unit result" where
  "linkage_rows t overrides sprint commanded [] seen = Inr ()"
| "linkage_rows t overrides sprint commanded (ref # refs) seen =
     (if repository ref \<noteq> repository (rd_ref sprint) then Inl (TaskDocumentRefError ''task-sprint-linkage-cross-repo'')
      else rbind (resolve t ref overrides) (\<lambda>r.
        if td_kind (rd_document r) \<noteq> Kd_master \<or> td_orchestrates (rd_document r) \<noteq> []
        then Inl (TaskDocumentRefError ''task-sprint-linkage-target-not-a-master'')
        else if ref \<in> set seen then Inl (TaskDocumentRefError ''task-sprint-linkage-row-duplicate'')
        else if ref \<notin> commanded then Inl (TaskDocumentRefError ''task-sprint-linkage-membership-invalid'')
        else linkage_rows t overrides sprint commanded refs (ref # seen)))"

definition linked_refs :: "task_document \<Rightarrow> task_document_ref list" where
  "linked_refs d = List.map_filter row_masterRef (td_subTasks d)"

definition validate_sprint_linkage :: "task_topology \<Rightarrow> task_document_ref \<Rightarrow> overrides \<Rightarrow> unit result" where
  "validate_sprint_linkage t sprint_ref overrides =
     rbind (resolve t sprint_ref overrides) (\<lambda>sprint.
       if linked_refs (rd_document sprint) = [] then Inr ()
       else rbind (commanded_masters_exact t sprint overrides) (\<lambda>commanded.
         linkage_rows t overrides sprint (set (map rd_ref commanded)) (linked_refs (rd_document sprint)) []))"

fun collect_natures :: "resolved_document list \<Rightarrow> (task_document_ref, execution_nature) dict result" where
  "collect_natures [] = Inr []"
| "collect_natures (m # ms) =
     (case td_executionNature (rd_document m) of
        None \<Rightarrow> Inl (TaskDocumentRefError ''task-execution-topology-migration-required'')
      | Some n \<Rightarrow> rbind (collect_natures ms) (\<lambda>ns. Inr ((rd_ref m, n) # ns)))"

definition validate_execution_topology ::
  "task_topology \<Rightarrow> task_document_ref \<Rightarrow> overrides \<Rightarrow> resolved_document list result" where
  "validate_execution_topology t sprint_ref overrides =
     rbind (resolve t sprint_ref overrides) (\<lambda>sprint.
       if td_kind (rd_document sprint) \<noteq> Kd_master \<or> td_orchestrates (rd_document sprint) = []
       then Inl (TaskDocumentRefError ''task-execution-graph-sprint-required'')
       else (case td_executionGraph (rd_document sprint) of
               None \<Rightarrow> Inl (TaskDocumentRefError ''task-execution-topology-migration-required'')
             | Some g \<Rightarrow>
                 rbind (commanded_masters_exact t sprint overrides) (\<lambda>commanded.
                   if set (master_refs g) \<noteq> set (map rd_ref commanded)
                   then Inl (TaskDocumentRefError ''task-execution-graph-membership-invalid'')
                   else rbind (collect_natures commanded) (\<lambda>natures.
                        rbind (refuse_segment_nodes_on_atomic_masters (xg_nodes g) natures) (\<lambda>_.
                        rbind (validate_sprint_linkage t sprint_ref overrides) (\<lambda>_. Inr commanded))))))"

definition execution_leaf_placement ::
  "task_topology \<Rightarrow> task_document_ref \<Rightarrow> overrides \<Rightarrow> (resolved_document \<times> leaf_placement) list result" where
  "execution_leaf_placement t sprint_ref overrides =
     rbind (validate_execution_topology t sprint_ref overrides) (\<lambda>masters.
     rbind (resolve t sprint_ref overrides) (\<lambda>sprint.
       (case td_executionGraph (rd_document sprint) of
          None \<Rightarrow> Inl (TaskDocumentRefError ''task-execution-topology-migration-required'')
        | Some g \<Rightarrow>
            (let resolved = set (map rd_ref (filter (\<lambda>m. master_is_terminal (rd_document m)) masters)) in
             traverse (\<lambda>m. rbind (derived_leaf_placement g (rd_ref m) (map row_number (td_subTasks (rd_document m))) resolved)
                             (\<lambda>pl. Inr (m, pl))) masters))))"

definition execution_waves :: "task_topology \<Rightarrow> task_document_ref \<Rightarrow> exec_node list list result" where
  "execution_waves t sprint_ref =
     rbind (resolve t sprint_ref []) (\<lambda>sprint.
     rbind (validate_execution_topology t sprint_ref [(sprint_ref, rd_document sprint)]) (\<lambda>_.
       (case td_executionGraph (rd_document sprint) of
          None \<Rightarrow> Inl (TaskDocumentRefError ''task-execution-topology-migration-required'')
        | Some g \<Rightarrow> derived_waves g)))"

definition edited_aliases :: "task_document_ref \<Rightarrow> task_document option \<Rightarrow> task_document \<Rightarrow> string list" where
  "edited_aliases ref original candidate =
     [path_name (path_parent (posix_parts (ref_path ref))), td_id candidate, td_title candidate]
     @ (case original of None \<Rightarrow> [] | Some d \<Rightarrow> [td_id d, td_title d])"

definition execution_sprints_affected_by_master ::
  "task_topology \<Rightarrow> task_document_ref \<Rightarrow> task_document option \<Rightarrow> task_document \<Rightarrow> resolved_document list result" where
  "execution_sprints_affected_by_master t ref original candidate =
     rbind (repository_master_documents t (repository ref)) (\<lambda>ds.
       Inr (filter (\<lambda>s. rd_ref s \<noteq> ref \<and> td_orchestrates (rd_document s) \<noteq> []
         \<and> list_ex (\<lambda>n. n \<in> set (edited_aliases ref original candidate)) (td_orchestrates (rd_document s))) ds))"

fun affected_projections ::
  "task_topology \<Rightarrow> overrides \<Rightarrow> string list \<Rightarrow> task_document_ref \<Rightarrow> task_document_ref list \<Rightarrow> resolved_document list result" where
  "affected_projections t overrides names ref [] = Inr []"
| "affected_projections t overrides names ref (r # rs) =
     (if r = ref then affected_projections t overrides names ref rs
      else (case resolve t r overrides of
              Inl e \<Rightarrow> if is_ref_error e then affected_projections t overrides names ref rs else Inl e
            | Inr s \<Rightarrow> rbind (affected_projections t overrides names ref rs) (\<lambda>ss.
                Inr (if td_kind (rd_document s) = Kd_master \<and> td_orchestrates (rd_document s) \<noteq> []
                        \<and> list_ex (\<lambda>n. n \<in> set names) (td_orchestrates (rd_document s)) then s # ss else ss))))"

definition projection_sprints_affected_by_master ::
  "task_topology \<Rightarrow> task_document_ref \<Rightarrow> task_document option \<Rightarrow> task_document \<Rightarrow> overrides \<Rightarrow> resolved_document list result" where
  "projection_sprints_affected_by_master t ref original candidate overrides =
     rbind (master_document_refs t (repository ref) overrides) (\<lambda>refs.
       affected_projections t overrides (edited_aliases ref original candidate) ref refs)"

section \<open>Resolution\<close>

lemma resolve_InrE:
  assumes "resolve t ref ov = Inr r"
  obtains "rd_ref r = ref" "path_for_ref t ref = Inr (rd_path r)" "td_repo (rd_document r) = repository ref"
    "(case map_of ov ref of Some d \<Rightarrow> Inr d | None \<Rightarrow> read_source (source_at t (rd_path r))) = Inr (rd_document r)"
  using assms unfolding resolve_def by (auto elim!: rbind_InrE split: if_splits)

lemma resolve_ref: "resolve t ref ov = Inr r \<Longrightarrow> rd_ref r = ref"
  by (erule resolve_InrE)

lemma read_source_valid: "read_source s = Inr d \<Longrightarrow> valid_document d"
  by (cases s) (auto dest: make_task_document_valid split: sum.splits)

lemma resolve_valid: "resolve t ref [] = Inr r \<Longrightarrow> valid_document (rd_document r)"
  by (auto elim!: resolve_InrE dest: read_source_valid)

text \<open>Reading keeps every other reading: what the resolver remembers is what it would read.\<close>

lemma source_at_remember: "source_at (remember t p) = source_at t"
  by (rule ext) (auto simp: remember_def source_at_def disk_source_def update_conv' split: option.splits)

lemma path_for_ref_remember [simp]: "path_for_ref (remember t p) ref = path_for_ref t ref"
  by (simp add: remember_def path_for_ref_def repo_root_def)

lemma resolve_remember: "resolve (remember t p) ref ov = resolve t ref ov"
  unfolding resolve_def source_at_remember path_for_ref_remember ..

lemma resolve_reading_transparent:
  "resolve_reading t ref ov = (r, t') \<Longrightarrow> r = resolve t ref ov \<and> (\<forall>ref' ov'. resolve t' ref' ov' = resolve t ref' ov')"
  by (auto simp: resolve_reading_def resolve_remember split: sum.splits if_splits)

lemma path_for_ref_files [simp]: "path_for_ref (t\<lparr>tt_files := files\<rparr>) ref = path_for_ref t ref"
  by (simp add: path_for_ref_def repo_root_def)

lemma resolve_reading_repeatable:
  assumes "resolve_reading t ref [] = (Inr r, t')"
  shows "resolve (t'\<lparr>tt_files := files\<rparr>) ref [] = Inr r"
proof -
  have r: "resolve t ref [] = Inr r" using assms by (simp add: resolve_reading_def)
  then have p: "path_for_ref t ref = Inr (rd_path r)" and d: "read_source (source_at t (rd_path r)) = Inr (rd_document r)"
    by (auto elim: resolve_InrE)
  have t': "t' = remember t (rd_path r)" using assms p by (simp add: resolve_reading_def)
  have "source_at (t'\<lparr>tt_files := files\<rparr>) (rd_path r) = source_at t (rd_path r)"
    using d by (auto simp: t' remember_def source_at_def update_conv' split: option.splits)
  then show ?thesis
    using r p by (simp add: resolve_def t')
qed

section \<open>The census\<close>

lemma make_ref_repository:
  assumes "make_task_document_ref repo p = Inr ref" "repository_is_one_segment repo = Inr repo"
  shows "repository ref = repo"
  using assms by (auto simp: make_task_document_ref_def rbind_eq_Inr_iff)

lemma census_canonical:
  assumes "master_document_refs t repo [] = Inr refs" "ref \<in> set refs"
  obtains parts where "make_task_document_ref repo (posix_text parts) = Inr ref"
proof -
  obtain ps rs where t: "traverse (\<lambda>parts. make_task_document_ref repo (posix_text parts)) ps = Inr rs" "set refs = set rs"
    using assms(1) unfolding master_document_refs_def Let_def by (auto elim!: rbind_InrE)
  then show ?thesis using traverse_set [OF t(1), of ref] assms(2) that by auto
qed

lemma census_repository:
  assumes "master_document_refs t repo [] = Inr refs" "repository_is_one_segment repo = Inr repo" "ref \<in> set refs"
  shows "repository ref = repo"
  using census_canonical [OF assms(1,3)] make_ref_repository assms(2) by metis

lemma canonical_ref_path_canonical:
  assumes "canonical_ref_path t repo p = Inr ref"
  obtains parts where "make_task_document_ref repo (posix_text parts) = Inr ref"
proof -
  obtain ref' r where "make_task_document_ref repo (posix_text (relative_to (resolve_path p) (repo_root t repo))) = Inr ref'"
    "resolve t ref' [] = Inr r" "rd_ref r = ref"
    using assms unfolding canonical_ref_path_def Let_def by (auto elim!: rbind_InrE split: if_splits)
  then show ?thesis using resolve_ref [of t ref' "[]" r] that by auto
qed

lemma repository_master_documents_mem:
  assumes "repository_master_documents t repo = Inr ds" "master_document_refs t repo [] = Inr refs"
  shows "d \<in> set ds \<longleftrightarrow> rd_ref d \<in> set refs \<and> resolve t (rd_ref d) [] = Inr d \<and> td_kind (rd_document d) = Kd_master"
proof -
  obtain all where all: "traverse (\<lambda>ref. resolve t ref []) refs = Inr all"
    and ds: "ds = filter (\<lambda>d. td_kind (rd_document d) = Kd_master) all"
    using assms unfolding repository_master_documents_def by (auto elim!: rbind_InrE)
  have "d \<in> set all \<longleftrightarrow> rd_ref d \<in> set refs \<and> resolve t (rd_ref d) [] = Inr d"
    using traverse_set [OF all, of d] resolve_ref [of t _ "[]" d] by blast
  then show ?thesis by (auto simp: ds)
qed

lemma sprint_parents_mem:
  assumes "sprint_parents t m = Inr ps" "repository_master_documents t (repository (rd_ref m)) = Inr ds"
  shows "p \<in> set ps \<longleftrightarrow> p \<in> set ds \<and> rd_ref p \<noteq> rd_ref m \<and> commands (rd_document p) m"
  using assms by (auto simp: sprint_parents_def commands_def)

lemma sprint_parents_census:
  assumes "sprint_parents t m = Inr ps"
  obtains ds where "repository_master_documents t (repository (rd_ref m)) = Inr ds"
  using assms by (auto simp: sprint_parents_def rbind_eq_Inr_iff)

section \<open>Parents and altitudes\<close>

lemma parent_master:
  assumes "resolve t ref [] = Inr r" "td_kind (rd_document r) = Kd_master" "parent t ref = Inr p"
  obtains ps where "sprint_parents t r = Inr ps"
    "p = None \<and> ps = [] \<and> (td_orchestrates (rd_document r) \<noteq> [] \<or> td_executionNature (rd_document r) \<noteq> Some Organizational)
     \<or> (\<exists>s. p = Some (rd_ref s) \<and> ps = [s])"
proof -
  obtain ps where "sprint_parents t r = Inr ps" using assms by (auto simp: parent_def rbind_eq_Inr_iff)
  moreover from this have "p = None \<and> ps = [] \<and> (td_orchestrates (rd_document r) \<noteq> [] \<or> td_executionNature (rd_document r) \<noteq> Some Organizational)
     \<or> (\<exists>s. p = Some (rd_ref s) \<and> ps = [s])"
    using assms by (auto simp: parent_def split: if_splits list.splits)
  ultimately show ?thesis by (rule that)
qed

lemma altitude_sprint:
  assumes "altitude t ref = Inr Alt_sprint"
  obtains r where "resolve t ref [] = Inr r" "td_kind (rd_document r) = Kd_master" "td_orchestrates (rd_document r) \<noteq> []"
    "sprint_parents t r = Inr []"
  using assms by (auto simp: altitude_def rbind_eq_Inr_iff split: if_splits)

lemma altitude_master:
  assumes "altitude t ref = Inr Alt_master"
  obtains r ps where "resolve t ref [] = Inr r" "td_kind (rd_document r) = Kd_master" "td_orchestrates (rd_document r) = []"
    "sprint_parents t r = Inr ps" "(\<exists>s. ps = [s]) \<or> ps = [] \<and> td_executionNature (rd_document r) \<noteq> Some Organizational"
  using assms by (auto simp: altitude_def rbind_eq_Inr_iff length_Suc_conv split: if_splits)

lemma altitude_leaf:
  assumes "altitude t ref = Inr Alt_leaf"
  obtains r p where "resolve t ref [] = Inr r" "td_kind (rd_document r) \<noteq> Kd_master" "leaf_parent t r = Inr p"
    "parent t ref = Inr (Some (rd_ref p))"
  using assms by (auto simp: altitude_def parent_def rbind_eq_Inr_iff split: if_splits)

lemma leaf_parent_Inr:
  assumes "leaf_parent t leaf = Inr p"
  shows "resolve t (rd_ref p) [] = Inr p" and "td_kind (rd_document p) = Kd_master" and "declares_leaf leaf (rd_document p)"
    and "canonical_ref_path t (repository (rd_ref leaf)) (path_parent (rd_path leaf) @ [''task.json'']) = Inr (rd_ref p)"
proof -
  obtain pr where pr: "canonical_ref_path t (repository (rd_ref leaf)) (path_parent (rd_path leaf) @ [''task.json'']) = Inr pr"
    and p: "resolve t pr [] = Inr p" and "td_kind (rd_document p) = Kd_master \<and> declares_leaf leaf (rd_document p)"
    using assms unfolding leaf_parent_def by (auto elim!: rbind_InrE split: if_splits)
  then show "td_kind (rd_document p) = Kd_master" "declares_leaf leaf (rd_document p)" by simp_all
  show "resolve t (rd_ref p) [] = Inr p"
    "canonical_ref_path t (repository (rd_ref leaf)) (path_parent (rd_path leaf) @ [''task.json'']) = Inr (rd_ref p)"
    using pr p resolve_ref [OF p] by simp_all
qed

section \<open>The hierarchy as an interface\<close>

text \<open>What the routing of signals relies on: a leaf has a parent, a sprint has none, and the documents
  that are parents are finitely many, so that a climb ends or comes back.\<close>

locale task_hierarchy =
  fixes parent_of :: "task_document_ref \<Rightarrow> task_document_ref option result"
    and altitude_of :: "task_document_ref \<Rightarrow> task_altitude result"
  assumes leaf_has_parent: "altitude_of ref = Inr Alt_leaf \<Longrightarrow> \<exists>p. parent_of ref = Inr (Some p)"
    and sprint_is_root: "altitude_of ref = Inr Alt_sprint \<Longrightarrow> parent_of ref = Inr None"
    and finitely_many_parents: "finite {p. \<exists>ref. parent_of ref = Inr (Some p)}"

lemma canonical_path:
  assumes "make_task_document_ref repo p = Inr ref"
  shows "path_for_ref t ref = Inr (resolve_path (tt_root t) @ [''tasks'', repository ref] @ posix_parts (ref_path ref))"
    and "ref_path ref = posix_text (posix_parts (ref_path ref))"
proof -
  have r: "repository_is_one_segment repo = Inr (repository ref)" and q: "path_is_confined_json p = Inr (ref_path ref)"
    using assms by (auto simp: make_task_document_ref_def rbind_eq_Inr_iff)
  note seg = segment_parts [OF r] and con = confined_parts [OF q]
  show "ref_path ref = posix_text (posix_parts (ref_path ref))" by (rule con(3))
  have root: "repo_root t (repository ref) = resolve_path (tt_root t) @ [''tasks'', repository ref]"
    using seg by (simp add: repo_root_def path_join_def resolve_path_def resolve_onto_append)
  have "''..'' \<notin> set (resolve_path (tt_root t))" by (simp add: resolve_path_def resolve_onto_confined)
  then have "resolve_path (path_join (repo_root t (repository ref)) (ref_path ref))
      = repo_root t (repository ref) @ posix_parts (ref_path ref)"
    using seg con by (simp add: path_join_def root)
  then show "path_for_ref t ref = Inr (resolve_path (tt_root t) @ [''tasks'', repository ref] @ posix_parts (ref_path ref))"
    by (simp add: path_for_ref_def Let_def root is_relative_to_def)
qed

text \<open>A canonical reference is given back by the path it names, and only files are read.\<close>

definition readable_paths :: "task_topology \<Rightarrow> path set" where
  "readable_paths t = set (map fst (tt_files t)) \<union> set (map fst (tt_accepted t))"

definition ref_at :: "task_topology \<Rightarrow> path \<Rightarrow> task_document_ref" where
  "ref_at t p = \<lparr>repository = p ! Suc (length (resolve_path (tt_root t))),
                 ref_path = posix_text (drop (length (resolve_path (tt_root t)) + 2) p)\<rparr>"

lemma resolve_readable: "resolve t ref [] = Inr r \<Longrightarrow> rd_path r \<in> readable_paths t"
  by (elim resolve_InrE)
    (auto simp: readable_paths_def source_at_def disk_source_def dest!: map_of_SomeD intro: rev_image_eqI split: option.splits)

lemma canonical_resolved:
  assumes "make_task_document_ref repo p = Inr ref" "resolve t ref [] = Inr r"
  shows "ref \<in> ref_at t ` readable_paths t"
proof -
  have "path_for_ref t ref = Inr (rd_path r)" using assms(2) by (auto elim: resolve_InrE)
  then have "rd_path r = resolve_path (tt_root t) @ [''tasks'', repository ref] @ posix_parts (ref_path ref)"
    using canonical_path(1) [OF assms(1), of t] by simp
  then have "ref_at t (rd_path r) = ref"
    using canonical_path(2) [OF assms(1)] by (simp add: ref_at_def nth_append)
  then show ?thesis using resolve_readable [OF assms(2)] by (metis image_eqI)
qed

lemma parent_of_leaf:
  assumes "resolve t ref [] = Inr r" "td_kind (rd_document r) \<noteq> Kd_master" "parent t ref = Inr p"
  obtains q where "leaf_parent t r = Inr q" "p = Some (rd_ref q)"
  using assms unfolding parent_def by (auto elim!: rbind_InrE)

lemma sprint_parent_readable:
  assumes "sprint_parents t r = Inr ps" "s \<in> set ps"
  shows "rd_ref s \<in> ref_at t ` readable_paths t"
proof -
  obtain ds where ds: "repository_master_documents t (repository (rd_ref r)) = Inr ds"
    by (rule sprint_parents_census [OF assms(1)])
  then obtain refs where refs: "master_document_refs t (repository (rd_ref r)) [] = Inr refs"
    unfolding repository_master_documents_def by (auto elim!: rbind_InrE)
  have "s \<in> set ds" using sprint_parents_mem [OF assms(1) ds] assms(2) by blast
  then have s: "rd_ref s \<in> set refs" "resolve t (rd_ref s) [] = Inr s"
    using repository_master_documents_mem [OF ds refs] by blast+
  obtain parts where "make_task_document_ref (repository (rd_ref r)) (posix_text parts) = Inr (rd_ref s)"
    by (rule census_canonical [OF refs s(1)])
  then show ?thesis by (rule canonical_resolved [OF _ s(2)])
qed

lemma parent_readable:
  assumes "parent t ref = Inr (Some p)"
  shows "p \<in> ref_at t ` readable_paths t"
proof -
  obtain r where r: "resolve t ref [] = Inr r" using assms unfolding parent_def by (elim rbind_InrE)
  show ?thesis
  proof (cases "td_kind (rd_document r) = Kd_master")
    case True
    show ?thesis by (rule parent_master [OF r True assms]) (auto dest: sprint_parent_readable)
  next
    case False
    obtain q where q: "leaf_parent t r = Inr q" "Some p = Some (rd_ref q)" by (rule parent_of_leaf [OF r False assms])
    obtain parts where "make_task_document_ref (repository (rd_ref r)) (posix_text parts) = Inr (rd_ref q)"
      by (rule canonical_ref_path_canonical [OF leaf_parent_Inr(4) [OF q(1)]])
    then have "rd_ref q \<in> ref_at t ` readable_paths t" by (rule canonical_resolved [OF _ leaf_parent_Inr(1) [OF q(1)]])
    then show ?thesis using q(2) by simp
  qed
qed

lemma altitude_sprint_parent: "altitude t ref = Inr Alt_sprint \<Longrightarrow> parent t ref = Inr None"
  by (erule altitude_sprint) (simp add: parent_def)

interpretation tree: task_hierarchy "parent t" "altitude t" for t
proof unfold_locales
  show "\<exists>p. parent t ref = Inr (Some p)" if "altitude t ref = Inr Alt_leaf" for ref
    by (rule altitude_leaf [OF that]) blast
  show "parent t ref = Inr None" if "altitude t ref = Inr Alt_sprint" for ref
    by (rule altitude_sprint_parent [OF that])
  have "{p. \<exists>ref. parent t ref = Inr (Some p)} \<subseteq> ref_at t ` readable_paths t" using parent_readable by blast
  then show "finite {p. \<exists>ref. parent t ref = Inr (Some p)}" by (rule finite_subset) (simp add: readable_paths_def)
qed

section \<open>Properties of containment\<close>

text \<open>Containment is one relation read in two directions: for a sprint and a master of the census
  of a repository whose parent resolves, the sprint is the parent of the master exactly when the
  master is one of the children of the sprint.\<close>

lemma containment_agrees:
  assumes refs: "master_document_refs t repo [] = Inr refs" and repo: "repository_is_one_segment repo = Inr repo"
    and s: "s \<in> set refs" "altitude t s = Inr Alt_sprint"
    and c: "c \<in> set refs" "resolve t c [] = Inr m" "td_kind (rd_document m) = Kd_master" "parent t c = Inr p"
  shows "\<exists>cs. children t s = Inr cs \<and> (p = Some s \<longleftrightarrow> c \<in> set cs)"
proof -
  obtain r where r: "resolve t s [] = Inr r" "td_kind (rd_document r) = Kd_master" "td_orchestrates (rd_document r) \<noteq> []"
    "sprint_parents t r = Inr []" using altitude_sprint [OF s(2)] by metis
  have rep: "repository s = repo" "repository c = repo" using census_repository [OF refs repo] s(1) c(1) by auto
  obtain ds where ds: "repository_master_documents t repo = Inr ds" using sprint_parents_census [OF r(4)] resolve_ref [OF r(1)] rep(1) by metis
  note mem = repository_master_documents_mem [OF ds refs]
  have rm: "rd_ref r = s" "rd_ref m = c" using resolve_ref r(1) c(2) by blast+
  have in_ds: "r \<in> set ds" "m \<in> set ds" using r(1,2) c(1-3) s(1) unfolding mem rm by blast+
  obtain ps where ps: "sprint_parents t m = Inr ps"
    "p = None \<and> ps = [] \<and> (td_orchestrates (rd_document m) \<noteq> [] \<or> td_executionNature (rd_document m) \<noteq> Some Organizational)
     \<or> (\<exists>s. p = Some (rd_ref s) \<and> ps = [s])"
    using parent_master [OF c(2-4)] by metis
  have ps_mem: "q \<in> set ps \<longleftrightarrow> q \<in> set ds \<and> rd_ref q \<noteq> c \<and> commands (rd_document q) m" for q
    using sprint_parents_mem [OF ps(1)] ds rep(2) by (simp add: rm)
  define ms where "ms = filter (\<lambda>d. rd_ref d \<noteq> s \<and> commands (rd_document r) d) ds"
  have ch: "children t s = Inr (map rd_ref ms)"
    using r s(2) ds rep by (simp add: children_def commanded_masters_def ms_def rm)
  have "c \<in> set (map rd_ref ms) \<longleftrightarrow> s \<noteq> c \<and> commands (rd_document r) m"
  proof
    assume "c \<in> set (map rd_ref ms)"
    then obtain d where d: "d \<in> set ds" "rd_ref d = c" "c \<noteq> s" "commands (rd_document r) d" by (auto simp: ms_def)
    then have "d = m" using c(2) mem by auto
    then show "s \<noteq> c \<and> commands (rd_document r) m" using d by auto
  next
    assume "s \<noteq> c \<and> commands (rd_document r) m"
    then have "m \<in> set ms" using in_ds(2) rm(2) by (auto simp: ms_def)
    then show "c \<in> set (map rd_ref ms)" using rm(2) by force
  qed
  also have "\<dots> \<longleftrightarrow> r \<in> set ps" using in_ds by (auto simp: ps_mem rm)
  also have "\<dots> \<longleftrightarrow> p = Some s"
  proof
    show "r \<in> set ps \<Longrightarrow> p = Some s" using ps(2) rm(1) by auto
    assume "p = Some s"
    then obtain q where q: "rd_ref q = s" "q \<in> set ps" using ps(2) by auto
    then have "q = r" using r(1) ps_mem mem by auto
    then show "r \<in> set ps" using q(2) by simp
  qed
  finally show ?thesis using ch by auto
qed

text \<open>The altitude of a document fixes what is above it: a sprint has no parent; a leaf has one, a
  master document that declares it and that the directory of the leaf holds as task.json; a master
  has none or exactly one, and that one commands it by name.\<close>

lemma altitude_determines_parent:
  assumes "altitude t ref = Inr a" "resolve t ref [] = Inr r"
  shows "case a of
      Alt_sprint \<Rightarrow> parent t ref = Inr None \<and> td_orchestrates (rd_document r) \<noteq> []
    | Alt_leaf \<Rightarrow> \<exists>p. parent t ref = Inr (Some (rd_ref p)) \<and> resolve t (rd_ref p) [] = Inr p
        \<and> td_kind (rd_document p) = Kd_master \<and> declares_leaf r (rd_document p)
        \<and> canonical_ref_path t (repository ref) (path_parent (rd_path r) @ [''task.json'']) = Inr (rd_ref p)
    | Alt_master \<Rightarrow> td_kind (rd_document r) = Kd_master \<and> td_orchestrates (rd_document r) = []
        \<and> (parent t ref = Inr None
           \<or> (\<exists>s. parent t ref = Inr (Some (rd_ref s)) \<and> resolve t (rd_ref s) [] = Inr s \<and> commands (rd_document s) r))"
proof (cases a)
  case Alt_sprint
  then have "altitude t ref = Inr Alt_sprint" using assms(1) by simp
  then show ?thesis
    using altitude_sprint_parent Alt_sprint assms(2) by (auto elim!: altitude_sprint)
next
  case Alt_leaf
  then have al: "altitude t ref = Inr Alt_leaf" using assms(1) by simp
  obtain r' p where rp: "resolve t ref [] = Inr r'" "leaf_parent t r' = Inr p" "parent t ref = Inr (Some (rd_ref p))"
    by (rule altitude_leaf [OF al])
  then have "r' = r" using assms(2) by simp
  then have lp: "leaf_parent t r = Inr p" using rp(2) by simp
  show ?thesis using rp(3) leaf_parent_Inr [OF lp] resolve_ref [OF assms(2)] Alt_leaf by auto
next
  case Alt_master
  then have al: "altitude t ref = Inr Alt_master" using assms(1) by simp
  obtain r' ps where rp: "resolve t ref [] = Inr r'" "td_kind (rd_document r') = Kd_master" "td_orchestrates (rd_document r') = []"
    "sprint_parents t r' = Inr ps" "(\<exists>s. ps = [s]) \<or> ps = [] \<and> td_executionNature (rd_document r') \<noteq> Some Organizational"
    by (rule altitude_master [OF al])
  then have r: "r' = r" using assms(2) by simp
  obtain ds where ds: "repository_master_documents t (repository (rd_ref r)) = Inr ds"
    by (rule sprint_parents_census [OF rp(4) [unfolded r]])
  then obtain refs where refs: "master_document_refs t (repository (rd_ref r)) [] = Inr refs"
    unfolding repository_master_documents_def by (auto elim!: rbind_InrE)
  have ps: "resolve t (rd_ref s) [] = Inr s \<and> commands (rd_document s) r" if "s \<in> set ps" for s
    using sprint_parents_mem [OF rp(4) [unfolded r] ds] repository_master_documents_mem [OF ds refs] that by blast
  from rp(5) have "parent t ref = Inr None \<or> (\<exists>s\<in>set ps. parent t ref = Inr (Some (rd_ref s)))"
  proof
    assume "\<exists>s. ps = [s]"
    then show ?thesis using rp(1-4) by (auto simp: parent_def)
  next
    assume "ps = [] \<and> td_executionNature (rd_document r') \<noteq> Some Organizational"
    then show ?thesis using rp(1-4) by (auto simp: parent_def)
  qed
  then show ?thesis using ps rp(2,3) Alt_master r by auto
qed

section \<open>Execution topology\<close>

lemma available_masters_mem:
  "available_masters t ov sprint refs = Inr cs \<Longrightarrow> c \<in> set cs \<Longrightarrow> resolve t (rd_ref c) ov = Inr c \<and> td_kind (rd_document c) = Kd_master"
proof (induction refs arbitrary: cs)
  case (Cons ref refs)
  show ?case
  proof (cases "ref = rd_ref sprint \<or> (\<exists>e. resolve t ref ov = Inl e)")
    case True
    then show ?thesis using Cons by (auto split: if_splits)
  next
    case False
    then obtain x where x: "ref \<noteq> rd_ref sprint" "resolve t ref ov = Inr x" by (cases "resolve t ref ov") auto
    then obtain rest where "available_masters t ov sprint refs = Inr rest" "cs = (if td_kind (rd_document x) = Kd_master then x # rest else rest)"
      using Cons.prems(1) by (auto elim!: rbind_InrE)
    then show ?thesis using Cons x(2) resolve_ref [OF x(2)] by (auto split: if_splits)
  qed
qed simp

lemma one_master_Inr: "one_master available name = Inr c \<Longrightarrow> c \<in> set available \<and> name \<in> set (aliases c)"
proof -
  assume "one_master available name = Inr c"
  then have "filter (\<lambda>c. name \<in> set (aliases c)) available = [c]" by (simp add: one_master_def split: list.splits)
  then have "set (filter (\<lambda>c. name \<in> set (aliases c)) available) = set [c]" by (rule arg_cong)
  then show ?thesis by auto
qed

lemma available_masters_refs:
  "available_masters t ov sprint refs = Inr cs \<Longrightarrow> c \<in> set cs \<Longrightarrow> rd_ref c \<in> set refs \<and> rd_ref c \<noteq> rd_ref sprint"
  by (induction refs arbitrary: cs) (auto elim!: rbind_InrE dest: resolve_ref split: if_splits sum.splits)

lemma one_master_unique:
  assumes "one_master available name = Inr m" "c \<in> set available" "name \<in> set (aliases c)"
  shows "c = m"
proof -
  have "filter (\<lambda>c. name \<in> set (aliases c)) available = [m]"
    using assms(1) by (simp add: one_master_def split: list.splits)
  then have "set (filter (\<lambda>c. name \<in> set (aliases c)) available) = {m}" by simp
  then show ?thesis using assms(2,3) by auto
qed

lemma available_masters_all:
  "available_masters t ov sprint refs = Inr cs \<Longrightarrow> ref \<in> set refs \<Longrightarrow> ref \<noteq> rd_ref sprint \<Longrightarrow>
   resolve t ref ov = Inr c \<Longrightarrow> td_kind (rd_document c) = Kd_master \<Longrightarrow> c \<in> set cs"
  by (induction refs arbitrary: cs) (auto elim!: rbind_InrE split: if_splits sum.splits)

text \<open>The masters in the repository that a name of the sprint can mean, over the files as they resolve.\<close>

definition named_masters :: "task_topology \<Rightarrow> overrides \<Rightarrow> resolved_document \<Rightarrow> task_document_ref list \<Rightarrow> string \<Rightarrow> resolved_document set" where
  "named_masters t ov sprint refs name =
     {c. \<exists>ref\<in>set refs. ref \<noteq> rd_ref sprint \<and> resolve t ref ov = Inr c \<and> td_kind (rd_document c) = Kd_master
       \<and> name \<in> set (aliases c)}"

lemma commanded_names:
  assumes "commanded_masters_exact t sprint ov = Inr ms"
  shows "\<exists>refs. master_document_refs t (repository (rd_ref sprint)) ov = Inr refs
    \<and> list_all2 (\<lambda>name m. named_masters t ov sprint refs name = {m}) (td_orchestrates (rd_document sprint)) ms"
proof -
  obtain refs cs where refs: "master_document_refs t (repository (rd_ref sprint)) ov = Inr refs"
    and cs: "available_masters t ov sprint refs = Inr cs"
    and ms: "traverse (one_master cs) (td_orchestrates (rd_document sprint)) = Inr ms"
    using assms unfolding commanded_masters_exact_def by (auto elim!: rbind_InrE split: if_splits)
  have "named_masters t ov sprint refs name = {m}" if one: "one_master cs name = Inr m" for name m
  proof
    show "named_masters t ov sprint refs name \<subseteq> {m}"
      using available_masters_all [OF cs] one_master_unique [OF one] by (auto simp: named_masters_def)
    show "{m} \<subseteq> named_masters t ov sprint refs name"
      using one_master_Inr [OF one] available_masters_mem [OF cs] available_masters_refs [OF cs]
      unfolding named_masters_def by blast
  qed
  then show ?thesis using refs ms by (auto simp: traverse_Inr_iff elim: list_all2_mono)
qed

lemma traverse_length: "traverse f xs = Inr ys \<Longrightarrow> length ys = length xs"
  by (auto simp: traverse_Inr_iff dest: list_all2_lengthD)

lemma commanded_masters_exact_Inr:
  assumes "commanded_masters_exact t sprint ov = Inr ms"
  shows "distinct (map rd_ref ms)" "length ms = length (td_orchestrates (rd_document sprint))"
    "m \<in> set ms \<Longrightarrow> resolve t (rd_ref m) ov = Inr m \<and> td_kind (rd_document m) = Kd_master \<and> commands (rd_document sprint) m"
proof -
  obtain refs cs where "available_masters t ov sprint refs = Inr cs"
    and ms: "traverse (one_master cs) (td_orchestrates (rd_document sprint)) = Inr ms" and d: "distinct (map rd_ref ms)"
    using assms unfolding commanded_masters_exact_def by (auto elim!: rbind_InrE split: if_splits)
  then have av: "c \<in> set cs \<Longrightarrow> resolve t (rd_ref c) ov = Inr c \<and> td_kind (rd_document c) = Kd_master" for c
    using available_masters_mem by blast
  show "distinct (map rd_ref ms)" by (rule d)
  show "length ms = length (td_orchestrates (rd_document sprint))" by (rule traverse_length [OF ms])
  assume "m \<in> set ms"
  then obtain name where "name \<in> set (td_orchestrates (rd_document sprint))" "one_master cs name = Inr m"
    using traverse_set [OF ms] by blast
  then show "resolve t (rd_ref m) ov = Inr m \<and> td_kind (rd_document m) = Kd_master \<and> commands (rd_document sprint) m"
    using one_master_Inr av by (force simp: commands_def list_ex_iff)
qed

lemma collect_natures_Inr:
  "collect_natures ms = Inr ns \<Longrightarrow>
     map fst ns = map rd_ref ms \<and> (\<forall>m\<in>set ms. td_executionNature (rd_document m) \<noteq> None)
     \<and> (distinct (map rd_ref ms) \<longrightarrow> (\<forall>m\<in>set ms. map_of ns (rd_ref m) = td_executionNature (rd_document m)))"
proof (induction ms arbitrary: ns)
  case (Cons m ms)
  then obtain n rest where "td_executionNature (rd_document m) = Some n" "collect_natures ms = Inr rest" "ns = (rd_ref m, n) # rest"
    by (auto elim!: rbind_InrE split: option.splits)
  then show ?case using Cons.IH [of rest] by auto (metis imageI)
qed simp

lemma refuse_segments_Inr:
  "refuse_segment_nodes_on_atomic_masters ns nature = Inr () \<longleftrightarrow> (\<forall>n\<in>set ns. xn_kind n = Segment \<longrightarrow> map_of nature (xn_ref n) \<noteq> Some Atomic)"
  by (induction ns nature rule: refuse_segment_nodes_on_atomic_masters.induct) auto

lemma linkage_rows_Inr:
  "linkage_rows t ov sprint commanded refs seen = Inr () \<Longrightarrow> distinct refs \<and> set refs \<inter> set seen = {} \<and> set refs \<subseteq> commanded"
proof (induction refs arbitrary: seen)
  case (Cons ref refs)
  then have "ref \<notin> set seen" "ref \<in> commanded" "linkage_rows t ov sprint commanded refs (ref # seen) = Inr ()"
    by (auto elim!: rbind_InrE split: if_splits)
  then show ?case using Cons.IH [of "ref # seen"] by auto
qed simp

lemma validate_sprint_linkage_Inr:
  assumes "validate_sprint_linkage t s ov = Inr ()" "resolve t s ov = Inr r" "commanded_masters_exact t r ov = Inr ms"
  shows "distinct (linked_refs (rd_document r)) \<and> set (linked_refs (rd_document r)) \<subseteq> set (map rd_ref ms)"
  using assms linkage_rows_Inr [of t ov r "set (map rd_ref ms)" "linked_refs (rd_document r)" "[]"]
  by (auto simp: validate_sprint_linkage_def split: if_splits)

lemma execution_topology_Inr:
  assumes "validate_execution_topology t s ov = Inr ms"
  obtains r g ns where "resolve t s ov = Inr r" "td_executionGraph (rd_document r) = Some g"
    "commanded_masters_exact t r ov = Inr ms" "set (master_refs g) = set (map rd_ref ms)" "collect_natures ms = Inr ns"
    "refuse_segment_nodes_on_atomic_masters (xg_nodes g) ns = Inr ()" "validate_sprint_linkage t s ov = Inr ()"
  using assms unfolding validate_execution_topology_def by (auto elim!: rbind_InrE split: if_splits option.splits)

text \<open>C28. An accepted execution topology is coherent: every commanded name means exactly one of the
  other masters of the repository, by its directory, id or title, and the result lists these masters
  in the order of the names, no master twice; the graph places exactly these masters, every master
  has a nature, segments belong to organizational masters only, and the typed rows of the sprint
  link each commanded master at most once and nothing else.\<close>

theorem accepted_topology_coherent:
  assumes "validate_execution_topology t s ov = Inr ms"
  shows "\<exists>r g. resolve t s ov = Inr r \<and> td_executionGraph (rd_document r) = Some g
    \<and> (\<exists>refs. master_document_refs t (repository (rd_ref r)) ov = Inr refs
        \<and> list_all2 (\<lambda>name m. named_masters t ov r refs name = {m}) (td_orchestrates (rd_document r)) ms)
    \<and> distinct (map rd_ref ms)
    \<and> set (map xn_ref (xg_nodes g)) = set (map rd_ref ms)
    \<and> (\<forall>m\<in>set ms. resolve t (rd_ref m) ov = Inr m \<and> td_kind (rd_document m) = Kd_master
        \<and> commands (rd_document r) m \<and> td_executionNature (rd_document m) \<noteq> None)
    \<and> (\<forall>n\<in>set (xg_nodes g). xn_kind n = Segment \<longrightarrow>
        (\<exists>m\<in>set ms. rd_ref m = xn_ref n \<and> td_executionNature (rd_document m) = Some Organizational))
    \<and> distinct (linked_refs (rd_document r)) \<and> set (linked_refs (rd_document r)) \<subseteq> set (map rd_ref ms)"
proof -
  obtain r g ns where r: "resolve t s ov = Inr r" "td_executionGraph (rd_document r) = Some g"
    and ms: "commanded_masters_exact t r ov = Inr ms" and g: "set (master_refs g) = set (map rd_ref ms)"
    and ns: "collect_natures ms = Inr ns" "refuse_segment_nodes_on_atomic_masters (xg_nodes g) ns = Inr ()"
    and link: "validate_sprint_linkage t s ov = Inr ()"
    by (rule execution_topology_Inr [OF assms])
  note cm = commanded_masters_exact_Inr [OF ms]
  have nodes: "set (map xn_ref (xg_nodes g)) = set (map rd_ref ms)" using g by (simp add: master_refs_def)
  have natures: "\<forall>m\<in>set ms. td_executionNature (rd_document m) \<noteq> None \<and> map_of ns (rd_ref m) = td_executionNature (rd_document m)"
    using collect_natures_Inr [OF ns(1)] cm(1) by blast
  have "\<exists>m\<in>set ms. rd_ref m = xn_ref n \<and> td_executionNature (rd_document m) = Some Organizational"
    if "n \<in> set (xg_nodes g)" "xn_kind n = Segment" for n
  proof -
    have "xn_ref n \<in> set (map xn_ref (xg_nodes g))" using that(1) by simp
    then obtain m where m: "m \<in> set ms" "rd_ref m = xn_ref n" unfolding nodes by auto
    then have "td_executionNature (rd_document m) \<noteq> Some Atomic" "td_executionNature (rd_document m) \<noteq> None"
      using ns(2) that natures m by (force simp: refuse_segments_Inr)+
    then have "td_executionNature (rd_document m) = Some Organizational"
      by (cases "td_executionNature (rd_document m)") (auto intro: execution_nature.exhaust)
    then show ?thesis using m by blast
  qed
  then have segs: "\<forall>n\<in>set (xg_nodes g). xn_kind n = Segment \<longrightarrow>
        (\<exists>m\<in>set ms. rd_ref m = xn_ref n \<and> td_executionNature (rd_document m) = Some Organizational)" by blast
  have mem: "\<forall>m\<in>set ms. resolve t (rd_ref m) ov = Inr m \<and> td_kind (rd_document m) = Kd_master
        \<and> commands (rd_document r) m \<and> td_executionNature (rd_document m) \<noteq> None" using cm(3) natures by blast
  show ?thesis
    by (rule exI [of _ r], rule exI [of _ g], intro conjI r commanded_names [OF ms] cm(1) nodes mem segs
          validate_sprint_linkage_Inr [OF link r(1) ms, THEN conjunct1] validate_sprint_linkage_Inr [OF link r(1) ms, THEN conjunct2])
qed

text \<open>The placement report of an accepted sprint is always computed, one entry per master, and its
  waves are those of its graph.\<close>

lemma accepted_topology_placed:
  assumes "validate_execution_topology t s ov = Inr ms" "resolve t s ov = Inr r" "valid_document (rd_document r)"
  shows "\<exists>pls. execution_leaf_placement t s ov = Inr pls \<and> map fst pls = ms"
proof -
  obtain g where g: "td_executionGraph (rd_document r) = Some g" by (rule execution_topology_Inr [OF assms(1)]) (use assms(2) in auto)
  obtain a where a: "execution_graph_analysis g = Inr a" by (rule valid_graph [OF assms(3) g])
  define resolved where "resolved = set (map rd_ref (filter (\<lambda>m. master_is_terminal (rd_document m)) ms))"
  have "\<exists>pl. derived_leaf_placement g ref planned resolved = Inr pl" for ref planned
  proof (cases "filter (\<lambda>n. xn_kind n = Segment) (nodes_for g ref) = []")
    case False
    obtain n b where "latest_unblocked_segment g (filter (\<lambda>n. xn_kind n = Segment) (nodes_for g ref)) resolved = Inr (n, b)"
      by (rule latest_segment [OF a False])
    then show ?thesis using False by (simp add: derived_leaf_placement_def Let_def)
  qed (simp add: derived_leaf_placement_def Let_def)
  then obtain f where f: "derived_leaf_placement g ref planned resolved = Inr (f ref planned)" for ref planned by metis
  have "execution_leaf_placement t s ov
      = traverse (\<lambda>m. Inr (m, f (rd_ref m) (map row_number (td_subTasks (rd_document m))))) ms"
    using assms(1,2) g by (simp add: execution_leaf_placement_def Let_def f [unfolded resolved_def, simplified])
  then show ?thesis by (simp add: comp_def)
qed

section \<open>Resolution is a snapshot\<close>

text \<open>Resolution reads each document once: what a resolver remembers changes no answer of it, and
  a document it has resolved is resolved to the same content whatever happens to the files
  afterwards.\<close>

lemma resolution_is_repeatable:
  assumes "resolve_reading t ref [] = (res, t')"
  shows "res = resolve t ref [] \<and> (\<forall>ref' ov. resolve t' ref' ov = resolve t ref' ov)
    \<and> (\<forall>r files. res = Inr r \<longrightarrow> resolve (t'\<lparr>tt_files := files\<rparr>) ref [] = Inr r)"
  using resolve_reading_transparent [OF assms] resolve_reading_repeatable assms by blast

section \<open>Witnesses\<close>

definition sample_master :: "string \<Rightarrow> task_document" where
  "sample_master i = (sample_leaf i)\<lparr>td_kind := Kd_master, td_steps := [], td_executionNature := Some Organizational,
     td_subTasks := [\<lparr>row_number = ''L1'', row_name = ''l'', row_file = ''L1.md'', row_status = Ds_planning, row_scope = [],
       row_masterRef = None\<rparr>]\<rparr>"

definition sample_sprint :: task_document where
  "sample_sprint = (sample_leaf ''S'')\<lparr>td_kind := Kd_master, td_steps := [], td_orchestrates := [''M''],
     td_executionGraph := Some \<lparr>xg_nodes = [\<lparr>xn_kind = Segment, xn_ref = \<lparr>repository = ''repo'', ref_path = ''m/task.json''\<rparr>,
       xn_leafIds = [''L1'']\<rparr>], xg_edges = []\<rparr>,
     td_subTasks := [\<lparr>row_number = ''M'', row_name = ''m'', row_file = [], row_status = Ds_planning, row_scope = [],
       row_masterRef = Some \<lparr>repository = ''repo'', ref_path = ''m/task.json''\<rparr>\<rparr>]\<rparr>"

definition sample_tree :: task_topology where
  "sample_tree = \<lparr>tt_root = [''c''],
     tt_files = [([''c'', ''tasks'', ''repo'', ''s'', ''task.json''], Json sample_sprint),
       ([''c'', ''tasks'', ''repo'', ''m'', ''task.json''], Json (sample_master ''M'')),
       ([''c'', ''tasks'', ''repo'', ''m'', ''L1.json''], Json (sample_leaf ''L1''))],
     tt_dirs = [[''c''], [''c'', ''tasks''], [''c'', ''tasks'', ''repo''], [''c'', ''tasks'', ''repo'', ''s''], [''c'', ''tasks'', ''repo'', ''m'']],
     tt_accepted = []\<rparr>"

abbreviation sprint_ref :: task_document_ref where
  "sprint_ref \<equiv> \<lparr>repository = ''repo'', ref_path = ''s/task.json''\<rparr>"

abbreviation master_ref :: task_document_ref where
  "master_ref \<equiv> \<lparr>repository = ''repo'', ref_path = ''m/task.json''\<rparr>"

abbreviation leaf_ref :: task_document_ref where
  "leaf_ref \<equiv> \<lparr>repository = ''repo'', ref_path = ''m/L1.json''\<rparr>"

lemma sample_tree_facts:
  "master_document_refs sample_tree ''repo'' [] = Inr [master_ref, sprint_ref]"
  "altitude sample_tree sprint_ref = Inr Alt_sprint"
  "parent sample_tree master_ref = Inr (Some sprint_ref)"
  "altitude sample_tree leaf_ref = Inr Alt_leaf"
  "parent sample_tree leaf_ref = Inr (Some master_ref)"
  "case resolve sample_tree master_ref [] of Inr m \<Rightarrow> td_kind (rd_document m) = Kd_master | Inl _ \<Rightarrow> False"
  "case resolve sample_tree leaf_ref [] of Inr _ \<Rightarrow> True | Inl _ \<Rightarrow> False"
  "case validate_execution_topology sample_tree sprint_ref [] of Inr ms \<Rightarrow> map rd_ref ms = [master_ref] | Inl _ \<Rightarrow> False"
  by code_simp+

lemma containment_agrees_witness: "\<exists>cs. children sample_tree sprint_ref = Inr cs \<and> master_ref \<in> set cs"
proof -
  obtain m where m: "resolve sample_tree master_ref [] = Inr m" "td_kind (rd_document m) = Kd_master"
    using sample_tree_facts(6) by (auto split: sum.splits)
  have "repository_is_one_segment ''repo'' = Inr ''repo''" by code_simp
  from containment_agrees [OF sample_tree_facts(1) this _ sample_tree_facts(2) _ m sample_tree_facts(3)] show ?thesis by auto
qed

lemma altitude_determines_parent_witness:
  "\<exists>p :: resolved_document. parent sample_tree leaf_ref = Inr (Some (rd_ref p)) \<and> td_kind (rd_document p) = Kd_master"
proof -
  obtain r where "resolve sample_tree leaf_ref [] = Inr r" using sample_tree_facts(7) by (auto split: sum.splits)
  from altitude_determines_parent [OF sample_tree_facts(4) this, unfolded task_altitude.case]
  show ?thesis by blast
qed

theorem accepted_topology_coherent_witness:
  "\<exists>ms. validate_execution_topology sample_tree sprint_ref [] = Inr ms \<and> distinct (map rd_ref ms)"
proof -
  obtain ms where "validate_execution_topology sample_tree sprint_ref [] = Inr ms" using sample_tree_facts(8) by (auto split: sum.splits)
  then show ?thesis using accepted_topology_coherent by blast
qed

lemma resolution_is_repeatable_witness:
  "\<exists>r t'. resolve_reading sample_tree leaf_ref [] = (Inr r, t') \<and> resolve (t'\<lparr>tt_files := []\<rparr>) leaf_ref [] = Inr r"
proof -
  obtain r t' where "resolve_reading sample_tree leaf_ref [] = (Inr r, t')"
    using sample_tree_facts(7) by (auto simp: resolve_reading_def split: sum.splits)
  then show ?thesis using resolution_is_repeatable by blast
qed

end
