(* ===== verification/Routing.thy ===== *)
theory Routing
  imports Task_Topology Inbox_Records Timestamps
begin

text \<open>
  \<open>controlplane/seats.py\<close>, \<open>controlplane/signal_routing.py\<close> and \<open>controlplane/orchestration_artifacts.py\<close>:
  who occupies a seat, and to which seat a signal or a pending inbox row goes. The seat catalog is
  the protocol the control plane declares: a lookup by session and the list of the rows. Roles are
  their names. The climb to the sprint of a document may not end for an arbitrary hierarchy, so it
  returns an option; on the task tree it always returns.
\<close>

section \<open>Seats\<close>

record seat_row =
  sr_id :: string
  sr_kind :: string
  sr_status :: string
  sr_lifecycle_id :: "string option"
  sr_created_at :: string
  sr_last_attached_at :: string
  sr_landed_at :: "string option"
  sr_retired_at :: "string option"
  sr_terminated_at :: "string option"
  sr_task_document_ref :: "task_document_ref option"
  sr_replacement_for :: "task_document_ref option"
  sr_parent_ref :: "task_document_ref option"
  sr_parent_role :: "string option"
  sr_turn_state :: "string option"
  sr_turn_state_changed_at :: "string option"
  sr_control_state :: "string option"
  sr_liveness_failures :: int
  sr_terminal_outcome :: "string option"
  sr_terminal_evidence_id :: "string option"
  sr_state_signal_emitted_for :: "string option"
  sr_compound_idle_emitted_for :: "string option"
  sr_non_reaction_emitted_for :: "string option"
  sr_binding_role :: string
  sr_binding_ref :: "task_document_ref option"

record seat_directory =
  cat_get :: "string \<Rightarrow> seat_row option"
  cat_list :: "seat_row list"

definition seat_claimants :: "seat_row list \<Rightarrow> task_document_ref \<Rightarrow> string \<Rightarrow> bool \<Rightarrow> seat_row list" where
  "seat_claimants rows document role replacement =
     filter (\<lambda>row. sr_status row = ''running'' \<and> sr_binding_role row = role
       \<and> (if replacement then sr_replacement_for row = Some document else sr_task_document_ref row = Some document)) rows"

definition one_claimant :: "seat_row list \<Rightarrow> string \<Rightarrow> seat_row option result" where
  "one_claimant claimants ambiguity =
     (case claimants of [] \<Rightarrow> Inr None | [row] \<Rightarrow> Inr (Some row) | _ \<Rightarrow> Inl (SeatOccupancyError ambiguity))"

definition current_seat_occupant :: "seat_row list \<Rightarrow> task_document_ref \<Rightarrow> string \<Rightarrow> seat_row option result" where
  "current_seat_occupant rows document role =
     rbind (one_claimant (seat_claimants rows document role False) ''occupants'') (\<lambda>primary.
     rbind (one_claimant (seat_claimants rows document role True) ''replacements'') (\<lambda>replacement.
       Inr (option_or primary replacement)))"

section \<open>Owners\<close>

record routed_owner =
  ro_role :: "string option"
  ro_ref :: "task_document_ref option"
  ro_agent_id :: "string option"
  ro_lifecycle_id :: "string option"

definition no_owner :: routed_owner where
  "no_owner = \<lparr>ro_role = None, ro_ref = None, ro_agent_id = None, ro_lifecycle_id = None\<rparr>"

definition current_occupant :: "seat_directory \<Rightarrow> task_document_ref \<Rightarrow> string \<Rightarrow> routed_owner result" where
  "current_occupant catalog document role =
     (case current_seat_occupant (cat_list catalog) document role of
        Inl _ \<Rightarrow> Inl (StructuralRoutingError ''seat occupancy'')
      | Inr None \<Rightarrow> Inr \<lparr>ro_role = Some role, ro_ref = Some document, ro_agent_id = None, ro_lifecycle_id = None\<rparr>
      | Inr (Some row) \<Rightarrow> Inr \<lparr>ro_role = Some role, ro_ref = Some document, ro_agent_id = Some (sr_id row),
                                ro_lifecycle_id = sr_lifecycle_id row\<rparr>)"

definition signal_task_document_ref ::
  "seat_directory \<Rightarrow> string option \<Rightarrow> task_document_ref option \<Rightarrow> task_document_ref option" where
  "signal_task_document_ref catalog sender ref =
     (case ref of Some r \<Rightarrow> Some r
      | None \<Rightarrow> Option.bind (Option.bind sender (cat_get catalog)) sr_binding_ref)"

type_synonym parent_fun = "task_document_ref \<Rightarrow> task_document_ref option result"
type_synonym altitude_fun = "task_document_ref \<Rightarrow> task_altitude result"

definition required_parent :: "parent_fun \<Rightarrow> task_document_ref \<Rightarrow> task_document_ref result" where
  "required_parent par document =
     rbind (par document) (\<lambda>p. case p of None \<Rightarrow> Inl (StructuralRoutingError ''no structural parent'') | Some q \<Rightarrow> Inr q)"

text \<open>The climb of \<open>_sprint_document\<close>, with the documents seen so far.\<close>

partial_function (option) climb :: "parent_fun \<Rightarrow> task_document_ref \<Rightarrow> task_document_ref list \<Rightarrow> task_document_ref result option" where
  "climb par current seen =
     (if current \<in> set seen then Some (Inl (StructuralRoutingError ''task containment cycle''))
      else (case par current of
              Inl e \<Rightarrow> Some (Inl e)
            | Inr None \<Rightarrow> Some (Inr current)
            | Inr (Some p) \<Rightarrow> climb par p (current # seen)))"

definition sprint_document :: "parent_fun \<Rightarrow> task_document_ref \<Rightarrow> task_document_ref result option" where
  "sprint_document par document = climb par document []"

definition derive_manager_owner :: "seat_directory \<Rightarrow> parent_fun \<Rightarrow> task_document_ref \<Rightarrow> routed_owner result" where
  "derive_manager_owner catalog par document =
     rbind (required_parent par document) (\<lambda>master. current_occupant catalog master ''manager'')"

definition derive_architect_owner :: "seat_directory \<Rightarrow> parent_fun \<Rightarrow> task_document_ref \<Rightarrow> routed_owner result option" where
  "derive_architect_owner catalog par document =
     map_option (\<lambda>res. rbind res (\<lambda>sprint. current_occupant catalog sprint ''architect'')) (sprint_document par document)"

definition reviewer_parents :: "parent_fun \<Rightarrow> altitude_fun \<Rightarrow> task_document_ref \<Rightarrow> (task_document_ref \<times> string) list result" where
  "reviewer_parents par alt document =
     rbind (alt document) (\<lambda>a. case a of
         Alt_leaf \<Rightarrow> rbind (required_parent par document) (\<lambda>p. Inr [(p, ''manager'')])
       | Alt_master \<Rightarrow> Inr [(document, ''manager'')]
       | Alt_sprint \<Rightarrow> Inr [(document, ''architect''), (document, ''orchestrator'')])"

definition validate_reviewer_parent ::
  "parent_fun \<Rightarrow> altitude_fun \<Rightarrow> task_document_ref \<Rightarrow> task_document_ref \<Rightarrow> string \<Rightarrow> unit result" where
  "validate_reviewer_parent par alt document parent_document parent_role =
     rbind (reviewer_parents par alt document) (\<lambda>allowed.
       if (parent_document, parent_role) \<in> set allowed then Inr ()
       else Inl (StructuralRoutingError ''invalid structural parent''))"

definition reviewer_parent_owner ::
  "seat_directory \<Rightarrow> parent_fun \<Rightarrow> altitude_fun \<Rightarrow> task_document_ref \<Rightarrow> task_document_ref option \<times> string option \<Rightarrow> routed_owner result" where
  "reviewer_parent_owner catalog par alt document structural_parent =
     (case structural_parent of
        (Some pd, Some pr) \<Rightarrow>
          rbind (validate_reviewer_parent par alt document pd pr) (\<lambda>_. current_occupant catalog pd pr)
      | (None, None) \<Rightarrow>
          rbind (alt document) (\<lambda>a.
            if a = Alt_leaf then derive_manager_owner catalog par document
            else Inl (StructuralRoutingError ''no plane-stamped structural parent''))
      | _ \<Rightarrow> Inl (StructuralRoutingError ''incomplete structural parent address''))"

definition structural_parent_owner ::
  "seat_directory \<Rightarrow> parent_fun \<Rightarrow> altitude_fun \<Rightarrow> task_document_ref \<Rightarrow> string
     \<Rightarrow> task_document_ref option \<times> string option \<Rightarrow> routed_owner option result" where
  "structural_parent_owner catalog par alt document role structural_parent =
     (if role \<in> {''worker'', ''curator''}
      then rbind (derive_manager_owner catalog par document) (\<lambda>owner. Inr (Some owner))
      else if role = ''reviewer''
      then rbind (reviewer_parent_owner catalog par alt document structural_parent) (\<lambda>owner. Inr (Some owner))
      else if role = ''manager''
      then rbind (required_parent par document) (\<lambda>p. rbind (current_occupant catalog p ''orchestrator'') (\<lambda>owner. Inr (Some owner)))
      else if role \<in> {''orchestrator'', ''strategist'', ''designer''}
      then rbind (current_occupant catalog document ''architect'') (\<lambda>owner. Inr (Some owner))
      else if role = ''system-specialist''
      then rbind (current_occupant catalog document ''orchestrator'') (\<lambda>owner. Inr (Some owner))
      else Inr None)"

text \<open>One hop up from the sender's seat, which every message but a decision item takes.\<close>

definition one_hop_owner ::
  "seat_directory \<Rightarrow> parent_fun \<Rightarrow> altitude_fun \<Rightarrow> string option \<Rightarrow> task_document_ref option \<Rightarrow> routed_owner result" where
  "one_hop_owner catalog par alt sender_agent_id ref =
     (case (signal_task_document_ref catalog sender_agent_id ref, Option.bind sender_agent_id (cat_get catalog)) of
        (Some document, Some sender) \<Rightarrow>
          rbind (structural_parent_owner catalog par alt document (sr_binding_role sender) (sr_parent_ref sender, sr_parent_role sender))
            (\<lambda>owner. Inr (case owner of None \<Rightarrow> no_owner | Some ow \<Rightarrow> ow))
      | _ \<Rightarrow> Inr no_owner)"

definition derive_signal_owner ::
  "seat_directory \<Rightarrow> parent_fun \<Rightarrow> altitude_fun \<Rightarrow> string option \<Rightarrow> message_kind \<Rightarrow> task_document_ref option
     \<Rightarrow> routed_owner result option" where
  "derive_signal_owner catalog par alt sender_agent_id kind ref =
     (case signal_task_document_ref catalog sender_agent_id ref of
        None \<Rightarrow> Some (Inr no_owner)
      | Some document \<Rightarrow>
          if kind = Decision_item then derive_architect_owner catalog par document
          else Some (one_hop_owner catalog par alt sender_agent_id ref))"

definition is_seat_dead :: "seat_directory \<Rightarrow> string option \<Rightarrow> bool" where
  "is_seat_dead catalog agent_id =
     (case agent_id of None \<Rightarrow> True
      | Some a \<Rightarrow> (case cat_get catalog a of None \<Rightarrow> True | Some row \<Rightarrow> sr_status row \<noteq> ''running''))"

section \<open>Progress of a task chain\<close>

definition parsed_at :: "string option \<Rightarrow> datetime option" where
  "parsed_at v = Option.bind v fromisoformat"

text \<open>\<open>any(...)\<close> over a condition that may raise: it stops at the first true one.\<close>

primrec any_result :: "('a \<Rightarrow> bool result) \<Rightarrow> 'a list \<Rightarrow> bool result" where
  "any_result f [] = Inr False"
| "any_result f (x # xs) = rbind (f x) (\<lambda>b. if b then Inr True else any_result f xs)"

definition entry_progressed_after :: "seat_row \<Rightarrow> datetime \<Rightarrow> bool result" where
  "entry_progressed_after entry since =
     (if sr_status entry = ''running'' \<and> sr_turn_state entry = Some ''working'' then Inr True
      else any_result (\<lambda>at. case at of None \<Rightarrow> Inr False | Some t \<Rightarrow> dt_less since t)
        (map parsed_at [Some (sr_created_at entry), Some (sr_last_attached_at entry), sr_turn_state_changed_at entry, sr_landed_at entry]))"

definition entry_tracks_task_chain :: "seat_row \<Rightarrow> task_document_ref \<Rightarrow> task_document_ref \<Rightarrow> bool" where
  "entry_tracks_task_chain entry document manager_document =
     (let candidates = (if sr_binding_role entry = ''manager'' then [Some document, Some manager_document] else [Some document]) in
      sr_task_document_ref entry \<in> set candidates \<or> sr_replacement_for entry \<in> set candidates)"

definition task_chain_has_progress ::
  "seat_directory \<Rightarrow> parent_fun \<Rightarrow> task_document_ref \<Rightarrow> string option \<Rightarrow> string \<Rightarrow> bool result" where
  "task_chain_has_progress catalog par document subject_agent_id since =
     (case fromisoformat since of
        None \<Rightarrow> Inr False
      | Some since_at \<Rightarrow>
          rbind (required_parent par document) (\<lambda>manager_document.
            any_result (\<lambda>entry.
              if Some (sr_id entry) \<noteq> subject_agent_id \<and> sr_status entry \<in> {''running'', ''landed''}
                 \<and> entry_tracks_task_chain entry document manager_document
              then entry_progressed_after entry since_at else Inr False) (cat_list catalog)))"

section \<open>Owners of pending rows\<close>

fun agent_role_name :: "agent_role \<Rightarrow> string" where
  "agent_role_name Developer = ''developer''"
| "agent_role_name Operator = ''operator''"
| "agent_role_name Designer = ''designer''"
| "agent_role_name Strategist = ''strategist''"
| "agent_role_name Orchestrator_role = ''orchestrator''"
| "agent_role_name Manager_role = ''manager''"
| "agent_role_name Worker = ''worker''"
| "agent_role_name Reviewer = ''reviewer''"
| "agent_role_name System_specialist = ''system-specialist''"
| "agent_role_name Architect = ''architect''"
| "agent_role_name Curator = ''curator''"
| "agent_role_name Agent = ''agent''"
| "agent_role_name System = ''system''"

definition owner_for_stamped_seat :: "seat_directory \<Rightarrow> inbox_entry \<Rightarrow> routed_owner result" where
  "owner_for_stamped_seat catalog entry =
     (case (e_ownerRole entry, e_ownerTaskDocumentRef entry) of
        (Some role, Some document) \<Rightarrow> current_occupant catalog document (agent_role_name role)
      | _ \<Rightarrow> Inr no_owner)"

definition derive_row_owner :: "seat_directory \<Rightarrow> parent_fun \<Rightarrow> altitude_fun \<Rightarrow> inbox_entry \<Rightarrow> routed_owner result" where
  "derive_row_owner catalog par alt entry =
     (if e_messageKind entry = Dispatch_brief then Inr no_owner
      else (case (e_subjectTaskDocumentRef entry, str_or (e_seatRole entry) (map_option agent_role_name (e_senderRole entry))) of
              (Some document, Some role) \<Rightarrow>
                if role = ''reviewer'' \<and> e_ownerTaskDocumentRef entry \<noteq> None then owner_for_stamped_seat catalog entry
                else rbind (structural_parent_owner catalog par alt document role (None, None)) (\<lambda>owner.
                       case owner of Some ow \<Rightarrow> Inr ow | None \<Rightarrow> owner_for_stamped_seat catalog entry)
            | _ \<Rightarrow> owner_for_stamped_seat catalog entry))"

section \<open>Escalation\<close>

fun role_escalation :: "string \<Rightarrow> string result" where
  "role_escalation role =
     (if role = ''worker'' then Inr ''manager''
      else if role = ''manager'' then Inr ''orchestrator''
      else if role = ''orchestrator'' then Inr ''architect''
      else if role = ''architect'' then Inr ''developer''
      else if role = ''designer'' then Inr ''architect''
      else if role = ''strategist'' then Inr ''orchestrator''
      else if role = ''curator'' then Inr ''manager''
      else if role = ''reviewer'' then Inr ''orchestrator''
      else if role = ''system-specialist'' then Inr ''orchestrator''
      else Inl (KeyError role))"

record escalation =
  ep_fromRole :: string
  ep_toRole :: string
  ep_reason :: string
  ep_subject :: string
  ep_summary :: string
  ep_artifactPath :: "string option"

definition escalation_packet :: "string \<Rightarrow> string \<Rightarrow> string \<Rightarrow> string \<Rightarrow> string option \<Rightarrow> escalation result" where
  "escalation_packet from_role reason subject summary artifact_path =
     rbind (role_escalation from_role) (\<lambda>to_role.
       Inr \<lparr>ep_fromRole = from_role, ep_toRole = to_role, ep_reason = reason, ep_subject = subject,
            ep_summary = summary, ep_artifactPath = artifact_path\<rparr>)"

text \<open>The file stem of a worker report: runs of other characters become one hyphen.\<close>

definition stem_char :: "char \<Rightarrow> bool" where
  "stem_char c \<longleftrightarrow> ascii_alnum c \<or> c \<in> set ''_.-''"

function safe_stem :: "string \<Rightarrow> string" where
  "safe_stem [] = []"
| "safe_stem (c # cs) = (if stem_char c then c # safe_stem cs else CHR ''-'' # safe_stem (dropWhile (\<lambda>c. \<not> stem_char c) cs))"
  by pat_completeness auto

termination by (relation "measure length") (auto simp: le_imp_less_Suc length_dropWhile_le)

definition turn_report_path :: "path \<Rightarrow> string \<Rightarrow> path" where
  "turn_report_path task_root leaf_id =
     (let stem = strip_chars ''-'' (safe_stem leaf_id) in
      task_root @ [''notes'', ''reports'', (if stem = [] then ''leaf'' else stem) @ ''-worker-report.md''])"

section \<open>Occupancy\<close>

lemma one_claimant_Inr:
  "one_claimant cs a = Inr r \<longleftrightarrow> length cs \<le> 1 \<and> r = (case cs of [] \<Rightarrow> None | c # _ \<Rightarrow> Some c)"
  by (auto simp: one_claimant_def split: list.splits)

lemma one_claimant_Inl: "(\<exists>e. one_claimant cs a = Inl e) \<longleftrightarrow> 1 < length cs"
  by (auto simp: one_claimant_def split: list.splits)

text \<open>The rows that claim a seat: as incumbent, or as the heir of a prepared handover.\<close>

definition incumbents :: "seat_row list \<Rightarrow> task_document_ref \<Rightarrow> string \<Rightarrow> seat_row list" where
  "incumbents rows document role =
     filter (\<lambda>row. sr_status row = ''running'' \<and> sr_binding_role row = role \<and> sr_task_document_ref row = Some document) rows"

definition heirs :: "seat_row list \<Rightarrow> task_document_ref \<Rightarrow> string \<Rightarrow> seat_row list" where
  "heirs rows document role =
     filter (\<lambda>row. sr_status row = ''running'' \<and> sr_binding_role row = role \<and> sr_replacement_for row = Some document) rows"

lemma claimants_split:
  "seat_claimants rows document role False = incumbents rows document role"
  "seat_claimants rows document role True = heirs rows document role"
  by (simp_all add: seat_claimants_def incumbents_def heirs_def)

lemma occupant_cases:
  "current_seat_occupant rows document role =
     (if 1 < length (incumbents rows document role) then Inl (SeatOccupancyError ''occupants'')
      else if 1 < length (heirs rows document role) then Inl (SeatOccupancyError ''replacements'')
      else Inr (case incumbents rows document role @ heirs rows document role of [] \<Rightarrow> None | row # _ \<Rightarrow> Some row))"
  by (auto simp: current_seat_occupant_def claimants_split one_claimant_def split: list.splits)

section \<open>Addresses\<close>

text \<open>A specification of where a sender's signals go, with no catalog in it: the address of the
  structural parent from the hierarchy, the sender's role and the parent stamped on the sender's row.\<close>

definition parent_address ::
  "parent_fun \<Rightarrow> altitude_fun \<Rightarrow> task_document_ref \<Rightarrow> string \<Rightarrow> task_document_ref option \<times> string option
     \<Rightarrow> (task_document_ref \<times> string) option result" where
  "parent_address par alt document role stamped =
     (let up = (\<lambda>r. rbind (required_parent par document) (\<lambda>p. Inr (Some (p, r)))) in
      if role \<in> {''worker'', ''curator''} then up ''manager''
      else if role = ''manager'' then up ''orchestrator''
      else if role \<in> {''orchestrator'', ''strategist'', ''designer''} then Inr (Some (document, ''architect''))
      else if role = ''system-specialist'' then Inr (Some (document, ''orchestrator''))
      else if role \<noteq> ''reviewer'' then Inr None
      else (case stamped of
              (Some pd, Some pr) \<Rightarrow> rbind (validate_reviewer_parent par alt document pd pr) (\<lambda>_. Inr (Some (pd, pr)))
            | (None, None) \<Rightarrow> rbind (alt document) (\<lambda>a. if a = Alt_leaf then up ''manager''
                                else Inl (StructuralRoutingError ''no plane-stamped structural parent''))
            | _ \<Rightarrow> Inl (StructuralRoutingError ''incomplete structural parent address'')))"

definition occupied :: "seat_directory \<Rightarrow> (task_document_ref \<times> string) option \<Rightarrow> routed_owner option result" where
  "occupied catalog address =
     (case address of None \<Rightarrow> Inr None
      | Some (d, r) \<Rightarrow> rbind (current_occupant catalog d r) (\<lambda>owner. Inr (Some owner)))"

lemma rbind_assoc: "rbind (rbind m f) g = rbind m (\<lambda>x. rbind (f x) g)"
  by (cases m) simp_all

lemma occupied_Some [simp]: "occupied catalog (Some (d, r)) = rbind (current_occupant catalog d r) (\<lambda>owner. Inr (Some owner))"
  by (simp add: occupied_def)

lemma structural_parent_factors:
  "structural_parent_owner catalog par alt document role stamped
     = rbind (parent_address par alt document role stamped) (occupied catalog)"
proof (cases "role = ''reviewer''")
  case True
  then show ?thesis
    by (auto simp: structural_parent_owner_def parent_address_def reviewer_parent_owner_def derive_manager_owner_def rbind_assoc
        split: prod.splits option.splits) (auto simp: rbind_def derive_manager_owner_def split: sum.splits)
next
  case False
  then show ?thesis
    by (simp add: structural_parent_owner_def parent_address_def derive_manager_owner_def rbind_assoc)
      (simp add: occupied_def)
qed

lemma occupied_or_nobody:
  "rbind (rbind m (occupied catalog)) (\<lambda>owner. Inr (case owner of None \<Rightarrow> no_owner | Some ow \<Rightarrow> ow))
     = rbind m (\<lambda>address. case address of None \<Rightarrow> Inr no_owner | Some (d, r) \<Rightarrow> current_occupant catalog d r)"
  by (cases m) (auto simp: occupied_def rbind_def split: option.splits sum.splits)

text \<open>The same for a signal of any kind, given the catalog's row of the sender, if it has one.\<close>

definition signal_address ::
  "parent_fun \<Rightarrow> altitude_fun \<Rightarrow> seat_row option \<Rightarrow> message_kind \<Rightarrow> task_document_ref option
     \<Rightarrow> (task_document_ref \<times> string) option result option" where
  "signal_address par alt row kind ref =
     (case (case ref of Some r \<Rightarrow> Some r | None \<Rightarrow> Option.bind row sr_binding_ref) of
        None \<Rightarrow> Some (Inr None)
      | Some document \<Rightarrow>
          if kind = Decision_item
          then map_option (\<lambda>res. rbind res (\<lambda>sprint. Inr (Some (sprint, ''architect'')))) (sprint_document par document)
          else Some (case row of None \<Rightarrow> Inr None
            | Some r \<Rightarrow> parent_address par alt document (sr_binding_role r) (sr_parent_ref r, sr_parent_role r)))"

definition seated :: "seat_directory \<Rightarrow> (task_document_ref \<times> string) option \<Rightarrow> routed_owner result" where
  "seated catalog address = (case address of None \<Rightarrow> Inr no_owner | Some (d, r) \<Rightarrow> current_occupant catalog d r)"

lemma signal_owner_factors:
  "derive_signal_owner catalog par alt sender kind ref
     = map_option (\<lambda>res. rbind res (seated catalog)) (signal_address par alt (Option.bind sender (cat_get catalog)) kind ref)"
proof -
  have doc: "signal_task_document_ref catalog sender ref
      = (case ref of Some r \<Rightarrow> Some r | None \<Rightarrow> Option.bind (Option.bind sender (cat_get catalog)) sr_binding_ref)"
    by (simp add: signal_task_document_ref_def)
  have seat: "rbind (rbind m (occupied catalog)) (\<lambda>owner. Inr (case owner of None \<Rightarrow> no_owner | Some ow \<Rightarrow> ow))
      = rbind m (seated catalog)" for m
    unfolding seated_def by (rule occupied_or_nobody)
  have hop: "one_hop_owner catalog par alt sender ref
      = (case Option.bind sender (cat_get catalog) of None \<Rightarrow> Inr no_owner
         | Some r \<Rightarrow> rbind (parent_address par alt document (sr_binding_role r) (sr_parent_ref r, sr_parent_role r)) (seated catalog))"
    if "signal_task_document_ref catalog sender ref = Some document" for document
    using that by (cases "Option.bind sender (cat_get catalog)") (simp_all add: one_hop_owner_def structural_parent_factors seat)
  let ?row = "Option.bind sender (cat_get catalog)"
  show ?thesis
  proof (cases "signal_task_document_ref catalog sender ref")
    case None
    then have "signal_address par alt ?row kind ref = Some (Inr None)"
      unfolding signal_address_def doc [symmetric] by simp
    then show ?thesis using None by (simp add: derive_signal_owner_def seated_def)
  next
    case (Some document)
    then have "signal_address par alt ?row kind ref =
        (if kind = Decision_item
         then map_option (\<lambda>res. rbind res (\<lambda>sprint. Inr (Some (sprint, ''architect'')))) (sprint_document par document)
         else Some (case ?row of None \<Rightarrow> Inr None
            | Some r \<Rightarrow> parent_address par alt document (sr_binding_role r) (sr_parent_ref r, sr_parent_role r)))"
      unfolding signal_address_def doc [symmetric] by simp
    then show ?thesis
      using Some hop [OF Some]
      by (cases ?row; cases "sprint_document par document")
        (simp_all add: derive_signal_owner_def derive_architect_owner_def rbind_assoc seated_def)
  qed
qed

lemma current_occupant_exact:
  assumes "current_occupant catalog d role = Inr owner"
  shows "ro_ref owner = Some d \<and> ro_role owner = Some role
    \<and> length (incumbents (cat_list catalog) d role) \<le> 1 \<and> length (heirs (cat_list catalog) d role) \<le> 1
    \<and> (ro_agent_id owner, ro_lifecycle_id owner) =
        (case incumbents (cat_list catalog) d role @ heirs (cat_list catalog) d role of
           [] \<Rightarrow> (None, None) | row # _ \<Rightarrow> (Some (sr_id row), sr_lifecycle_id row))"
  using assms by (auto simp: current_occupant_def occupant_cases split: if_splits list.splits)

lemma current_occupant_error: "current_occupant catalog d role = Inl e \<Longrightarrow> e = StructuralRoutingError ''seat occupancy''"
  by (auto simp: current_occupant_def split: sum.splits option.splits)

lemma current_occupant_address:
  assumes "current_occupant catalog d r = Inr owner"
  shows "ro_ref owner = Some d" "ro_role owner = Some r"
    and "ro_agent_id owner = Some a \<Longrightarrow> \<exists>row\<in>set (cat_list catalog). sr_id row = a \<and> sr_status row = ''running'' \<and> sr_binding_role row = r
           \<and> (sr_task_document_ref row = Some d \<or> sr_replacement_for row = Some d)"
proof -
  obtain w where occ: "current_seat_occupant (cat_list catalog) d r = Inr w"
    using assms by (auto simp: current_occupant_def split: sum.splits)
  show "ro_ref owner = Some d" "ro_role owner = Some r" using assms occ by (auto simp: current_occupant_def split: option.splits)
  assume a: "ro_agent_id owner = Some a"
  then obtain row where row: "w = Some row" "sr_id row = a" using assms occ by (auto simp: current_occupant_def split: option.splits)
  then have "row \<in> set (incumbents (cat_list catalog) d r @ heirs (cat_list catalog) d r)"
    using occ by (auto simp: occupant_cases simp del: set_append split: if_splits list.splits)
  then show "\<exists>row\<in>set (cat_list catalog). sr_id row = a \<and> sr_status row = ''running'' \<and> sr_binding_role row = r
           \<and> (sr_task_document_ref row = Some d \<or> sr_replacement_for row = Some d)"
    using row(2) by (auto simp: incumbents_def heirs_def)
qed

section \<open>The climb\<close>

definition up :: "parent_fun \<Rightarrow> (task_document_ref \<times> task_document_ref) set" where
  "up par = {(a, b). par a = Inr (Some b)}"

lemma climb_root_aux:
  assumes "climb par d seen = Some res"
  shows "\<forall>s. res = Inr s \<longrightarrow> (d, s) \<in> (up par)\<^sup>* \<and> par s = Inr None"
proof (rule climb.raw_induct [where P = "\<lambda>par d seen res. \<forall>s. res = Inr s \<longrightarrow> (d, s) \<in> (up par)\<^sup>* \<and> par s = Inr None", OF _ assms])
  fix f :: "parent_fun \<Rightarrow> task_document_ref \<Rightarrow> task_document_ref list \<Rightarrow> task_document_ref result option" and par d seen res
  assume IH: "\<And>par d seen res. f par d seen = Some res \<Longrightarrow> \<forall>s. res = Inr s \<longrightarrow> (d, s) \<in> (up par)\<^sup>* \<and> par s = Inr None"
    and step: "(if d \<in> set seen then Some (Inl (StructuralRoutingError ''task containment cycle''))
      else (case par d of Inl e \<Rightarrow> Some (Inl e) | Inr None \<Rightarrow> Some (Inr d) | Inr (Some p) \<Rightarrow> f par p (d # seen))) = Some res"
  show "\<forall>s. res = Inr s \<longrightarrow> (d, s) \<in> (up par)\<^sup>* \<and> par s = Inr None"
  proof (intro allI impI)
    fix s assume s: "res = Inr s"
    show "(d, s) \<in> (up par)\<^sup>* \<and> par s = Inr None"
    proof (cases "\<exists>p. par d = Inr (Some p)")
      case True
      then obtain p where p: "par d = Inr (Some p)" by blast
      then have "f par p (d # seen) = Some res" using step s by (auto split: if_splits)
      then have "(p, s) \<in> (up par)\<^sup>* \<and> par s = Inr None" using IH s by blast
      moreover have "(d, p) \<in> up par" using p by (simp add: up_def)
      ultimately show ?thesis by (auto intro: converse_rtrancl_into_rtrancl)
    next
      case False
      then show ?thesis using step s by (auto split: if_splits sum.splits option.splits)
    qed
  qed
qed

lemma climb_root: "climb par d seen = Some (Inr s) \<Longrightarrow> (d, s) \<in> (up par)\<^sup>* \<and> par s = Inr None"
  using climb_root_aux by blast

context task_hierarchy
begin

lemma climb_returns:
  assumes "finite U" "d \<in> U" "{p. \<exists>ref. parent_of ref = Inr (Some p)} \<subseteq> U"
  shows "\<exists>res. climb parent_of d seen = Some res"
  using assms(2)
proof (induction "card (U - set seen)" arbitrary: d seen rule: less_induct)
  case less
  show ?case
  proof (cases "d \<in> set seen")
    case True
    then show ?thesis by (subst climb.simps) simp
  next
    case False
    show ?thesis
    proof (cases "\<exists>p. parent_of d = Inr (Some p)")
      case True
      then obtain p where p: "parent_of d = Inr (Some p)" by blast
      have "U - set (d # seen) \<subset> U - set seen" using False less.prems by auto
      then have "card (U - set (d # seen)) < card (U - set seen)" using assms(1) by (intro psubset_card_mono) auto
      moreover have "p \<in> U" using p assms(3) by blast
      ultimately have "\<exists>res. climb parent_of p (d # seen) = Some res" using less.hyps by blast
      then show ?thesis using False p by (subst climb.simps) simp
    next
      case no: False
      then show ?thesis using False by (subst climb.simps) (auto split: sum.splits option.splits)
    qed
  qed
qed

lemma sprint_document_returns: "\<exists>res. sprint_document parent_of d = Some res"
  unfolding sprint_document_def
  by (rule climb_returns [of "insert d {p. \<exists>ref. parent_of ref = Inr (Some p)}"]) (use finitely_many_parents in auto)

lemma signal_owner_returns: "\<exists>res. derive_signal_owner catalog parent_of altitude_of sender kind ref = Some res"
  using sprint_document_returns
  by (auto simp: derive_signal_owner_def derive_architect_owner_def split: option.splits)

lemma leaf_reviewer_parent:
  assumes "altitude_of d = Inr Alt_leaf"
  obtains p where "parent_of d = Inr (Some p)" "reviewer_parents parent_of altitude_of d = Inr [(p, ''manager'')]"
  using leaf_has_parent [OF assms] assms by (auto simp: reviewer_parents_def required_parent_def)

lemma sprint_document_of_sprint:
  assumes "altitude_of d = Inr Alt_sprint"
  shows "sprint_document parent_of d = Some (Inr d)"
  unfolding sprint_document_def by (subst climb.simps) (simp add: sprint_is_root [OF assms])

end

section \<open>Properties\<close>

text \<open>A seat is resolved exactly: the answer is the one running incumbent, or without one the one
  running heir of the same address, or nobody; and the resolution is refused exactly when two running
  rows claim the address as incumbents or two as heirs.\<close>

lemma seat_resolution_exact:
  "(\<forall>row. current_seat_occupant rows d role = Inr (Some row) \<longrightarrow>
      row \<in> set rows \<and> sr_status row = ''running'' \<and> sr_binding_role row = role
      \<and> (incumbents rows d role = [row] \<or> incumbents rows d role = [] \<and> heirs rows d role = [row]))
   \<and> (current_seat_occupant rows d role = Inr None \<longleftrightarrow> incumbents rows d role = [] \<and> heirs rows d role = [])
   \<and> ((\<exists>e. current_seat_occupant rows d role = Inl e) \<longleftrightarrow>
        1 < length (incumbents rows d role) \<or> 1 < length (heirs rows d role))"
proof -
  have len: "\<not> 1 < length xs \<longleftrightarrow> xs = [] \<or> (\<exists>x. xs = [x])" for xs :: "seat_row list" by (cases xs; cases "tl xs") auto
  have mem: "row \<in> set rows \<and> sr_status row = ''running'' \<and> sr_binding_role row = role"
    if "incumbents rows d role = [row] \<or> heirs rows d role = [row]" for row
  proof -
    have "row \<in> set (incumbents rows d role) \<or> row \<in> set (heirs rows d role)" using that by auto
    then show ?thesis by (auto simp: incumbents_def heirs_def)
  qed
  show ?thesis
    unfolding occupant_cases using mem len [of "incumbents rows d role"] len [of "heirs rows d role"]
    by (auto split: if_splits list.splits)
qed

text \<open>C29. Where a signal goes does not depend on who sits where. Take two seat catalogs that agree on
  the sender's own row, and a signal of any kind. If the first catalog yields an owner, the second
  yields one with the same role and task document, or refuses because two rows claim that seat. And
  the agent and lifecycle of the owner are those of the one running incumbent of this seat, without
  one those of its one running heir, and none when the seat is empty.\<close>

theorem signal_seat_ignores_occupants:
  assumes "Option.bind sender (cat_get c1) = Option.bind sender (cat_get c2)"
    and "derive_signal_owner c1 par alt sender kind ref = Some (Inr o1)"
  shows "(derive_signal_owner c2 par alt sender kind ref = Some (Inl (StructuralRoutingError ''seat occupancy''))
       \<or> (\<exists>o2. derive_signal_owner c2 par alt sender kind ref = Some (Inr o2)
            \<and> ro_role o2 = ro_role o1 \<and> ro_ref o2 = ro_ref o1))
    \<and> (o1 = no_owner
       \<or> (\<exists>d role. ro_ref o1 = Some d \<and> ro_role o1 = Some role
            \<and> length (incumbents (cat_list c1) d role) \<le> 1 \<and> length (heirs (cat_list c1) d role) \<le> 1
            \<and> (ro_agent_id o1, ro_lifecycle_id o1) =
                (case incumbents (cat_list c1) d role @ heirs (cat_list c1) d role of
                   [] \<Rightarrow> (None, None) | row # _ \<Rightarrow> (Some (sr_id row), sr_lifecycle_id row))))"
proof -
  obtain address where a: "signal_address par alt (Option.bind sender (cat_get c1)) kind ref = Some (Inr address)"
    and o1: "seated c1 address = Inr o1"
    using assms(2) by (auto simp: signal_owner_factors rbind_eq_Inr_iff)
  have d2: "derive_signal_owner c2 par alt sender kind ref = Some (seated c2 address)"
    using a assms(1) by (simp add: signal_owner_factors)
  show ?thesis
  proof (cases address)
    case None
    then show ?thesis using o1 d2 by (simp add: seated_def)
  next
    case (Some x)
    obtain d role where x: "x = (d, role)" by (cases x)
    have "current_occupant c1 d role = Inr o1" using o1 Some x by (simp add: seated_def)
    note exact1 = current_occupant_exact [OF this]
    have "derive_signal_owner c2 par alt sender kind ref = Some (current_occupant c2 d role)"
      using d2 Some x by (simp add: seated_def)
    then show ?thesis
      using exact1 current_occupant_error [of c2 d role] current_occupant_exact [of c2 d role]
      by (cases "current_occupant c2 d role") auto
  qed
qed

text \<open>C30. Every signal is routed or refused: on the task tree the climb to the sprint ends, also when
  documents command each other in a circle, and a decision item that is routed goes to the architect
  seat of a document without a parent that contains the sender's document.\<close>

theorem signal_routing_ends:
  "\<exists>res. derive_signal_owner catalog (parent t) (altitude t) sender kind ref = Some res
     \<and> (\<forall>d owner. signal_task_document_ref catalog sender ref = Some d \<and> kind = Decision_item \<and> res = Inr owner \<longrightarrow>
          (\<exists>s. (d, s) \<in> {(a, b). parent t a = Inr (Some b)}\<^sup>* \<and> parent t s = Inr None
             \<and> ro_ref owner = Some s \<and> ro_role owner = Some ''architect''))"
proof -
  obtain res where res: "derive_signal_owner catalog (parent t) (altitude t) sender kind ref = Some res"
    using tree.signal_owner_returns by blast
  have "\<exists>s. (d, s) \<in> {(a, b). parent t a = Inr (Some b)}\<^sup>* \<and> parent t s = Inr None
             \<and> ro_ref owner = Some s \<and> ro_role owner = Some ''architect''"
    if h: "signal_task_document_ref catalog sender ref = Some d" "kind = Decision_item" "res = Inr owner" for d owner
  proof -
    obtain s where s: "climb (parent t) d [] = Some (Inr s)" "current_occupant catalog s ''architect'' = Inr owner"
      using res h by (auto simp: derive_signal_owner_def derive_architect_owner_def sprint_document_def rbind_eq_Inr_iff)
    then show ?thesis using climb_root [OF s(1)] current_occupant_address [OF s(2)] by (auto simp: up_def)
  qed
  then show ?thesis using res by blast
qed

section \<open>Witnesses\<close>

definition sample_seat :: "string \<Rightarrow> string \<Rightarrow> task_document_ref \<Rightarrow> seat_row" where
  "sample_seat i role ref = \<lparr>sr_id = i, sr_kind = ''harness'', sr_status = ''running'', sr_lifecycle_id = None,
     sr_created_at = ''2026-01-01T00:00:00+00:00'', sr_last_attached_at = ''2026-01-01T00:00:00+00:00'', sr_landed_at = None,
     sr_retired_at = None, sr_terminated_at = None, sr_task_document_ref = Some ref, sr_replacement_for = None,
     sr_parent_ref = None, sr_parent_role = None, sr_turn_state = None, sr_turn_state_changed_at = None, sr_control_state = None,
     sr_liveness_failures = 0, sr_terminal_outcome = None, sr_terminal_evidence_id = None, sr_state_signal_emitted_for = None,
     sr_compound_idle_emitted_for = None, sr_non_reaction_emitted_for = None, sr_binding_role = role, sr_binding_ref = Some ref\<rparr>"

definition directory_of :: "seat_row list \<Rightarrow> seat_directory" where
  "directory_of rows = \<lparr>cat_get = (\<lambda>i. find (\<lambda>r. sr_id r = i) rows), cat_list = rows\<rparr>"

definition sample_directory :: seat_directory where
  "sample_directory = directory_of [sample_seat ''w'' ''worker'' leaf_ref, sample_seat ''m'' ''manager'' master_ref,
     sample_seat ''a'' ''architect'' sprint_ref]"

lemma seat_resolution_exact_witness:
  "current_seat_occupant (cat_list sample_directory) master_ref ''manager'' = Inr (Some (sample_seat ''m'' ''manager'' master_ref))
   \<and> sample_seat ''m'' ''manager'' master_ref \<in> set (cat_list sample_directory)"
proof -
  have "current_seat_occupant (cat_list sample_directory) master_ref ''manager'' = Inr (Some (sample_seat ''m'' ''manager'' master_ref))"
    by code_simp
  then show ?thesis using seat_resolution_exact [of "cat_list sample_directory" master_ref "''manager''"] by blast
qed

text \<open>The same directory before the manager's seat was taken.\<close>

definition unmanned_directory :: seat_directory where
  "unmanned_directory = directory_of [sample_seat ''w'' ''worker'' leaf_ref, sample_seat ''a'' ''architect'' sprint_ref]"

theorem signal_seat_ignores_occupants_witness:
  "\<exists>o1 o2. derive_signal_owner sample_directory (parent sample_tree) (altitude sample_tree) (Some ''w'') Turn_report None = Some (Inr o1)
     \<and> ro_agent_id o1 = Some ''m''
     \<and> derive_signal_owner unmanned_directory (parent sample_tree) (altitude sample_tree) (Some ''w'') Turn_report None = Some (Inr o2)
     \<and> ro_agent_id o2 = None \<and> ro_role o2 = ro_role o1 \<and> ro_ref o2 = ro_ref o1"
proof -
  have same: "Option.bind (Some ''w'') (cat_get unmanned_directory) = Option.bind (Some ''w'') (cat_get sample_directory)"
    by code_simp
  have "\<exists>owner. derive_signal_owner c (parent sample_tree) (altitude sample_tree) (Some ''w'') Turn_report None = Some (Inr owner)
      \<and> ro_agent_id owner = i"
    if "Option.bind (Some ''w'') (cat_get c) = Some (sample_seat ''w'' ''worker'' leaf_ref)"
      and "case current_occupant c master_ref ''manager'' of Inr owner \<Rightarrow> ro_agent_id owner = i | Inl _ \<Rightarrow> False" for c i
    using that sample_tree_facts(5)
    by (auto simp: signal_owner_factors signal_address_def parent_address_def required_parent_def sample_seat_def seated_def
        split: sum.splits)
  moreover have "Option.bind (Some ''w'') (cat_get sample_directory) = Some (sample_seat ''w'' ''worker'' leaf_ref)"
    "case current_occupant sample_directory master_ref ''manager'' of Inr owner \<Rightarrow> ro_agent_id owner = Some ''m'' | Inl _ \<Rightarrow> False"
    "case current_occupant unmanned_directory master_ref ''manager'' of Inr owner \<Rightarrow> ro_agent_id owner = None | Inl _ \<Rightarrow> False"
    by code_simp+
  ultimately obtain o1 o2 where
    o1: "derive_signal_owner sample_directory (parent sample_tree) (altitude sample_tree) (Some ''w'') Turn_report None = Some (Inr o1)"
      "ro_agent_id o1 = Some ''m''"
    and o2: "derive_signal_owner unmanned_directory (parent sample_tree) (altitude sample_tree) (Some ''w'') Turn_report None = Some (Inr o2)"
      "ro_agent_id o2 = None"
    using same by metis
  then show ?thesis using signal_seat_ignores_occupants [OF same o2(1)] by auto
qed

theorem signal_routing_ends_witness:
  "\<exists>owner. derive_signal_owner sample_directory (parent sample_tree) (altitude sample_tree) (Some ''w'') Decision_item None = Some (Inr owner)
     \<and> ro_role owner = Some ''architect''"
proof -
  have sig: "signal_task_document_ref sample_directory (Some ''w'') None = Some leaf_ref" by code_simp
  have up: "parent sample_tree sprint_ref = Inr None" using altitude_sprint_parent sample_tree_facts(2) by blast
  have "sprint_document (parent sample_tree) leaf_ref = Some (Inr sprint_ref)"
    unfolding sprint_document_def by (simp add: climb.simps sample_tree_facts(3,5) up)
  moreover have "case current_occupant sample_directory sprint_ref ''architect'' of Inr _ \<Rightarrow> True | Inl _ \<Rightarrow> False" by code_simp
  ultimately obtain owner where
    "derive_signal_owner sample_directory (parent sample_tree) (altitude sample_tree) (Some ''w'') Decision_item None = Some (Inr owner)"
    using sig by (auto simp: derive_signal_owner_def derive_architect_owner_def split: sum.splits)
  then show ?thesis using signal_routing_ends [of sample_directory sample_tree "Some ''w''" Decision_item None] sig by auto
qed

end
