(* ===== verification/Notifier_Findings.thy ===== *)
theory Notifier_Findings
  imports Routing Inbox_Store
begin

text \<open>
  The predicates of the agent notifier: \<open>serving/_agent_notifier_evaluation.py\<close>,
  \<open>serving/state_signals.py\<close>, the target of an inbox row (\<open>serving/inbox_delivery.py\<close>), and the
  reclamation plan of \<open>serving/inbox_reclamation.py\<close>. A sweep reads the seat catalog, the task
  hierarchy and the inbox and returns findings; the actions that follow are not part of this theory.
  The pane classification, which no sweep runs, is left out.
\<close>

section \<open>Findings\<close>

datatype finding_kind =
    Inbox_redeliverable | Seat_liveness | Dead_upstream | State_signal_due | Compound_idle_due
  | Non_reaction_due | Boundary_drain | Rebind_due | Rebind_expired | Inbox_ttl_expired

record finding =
  fn_kind :: finding_kind
  fn_detail :: string
  fn_session_id :: "string option"
  fn_task_document_ref :: "task_document_ref option"
  fn_seat_role :: "string option"
  fn_source_id :: "string option"

fun message_kind_name :: "message_kind \<Rightarrow> string" where
  "message_kind_name Message = ''message''"
| "message_kind_name Gate_response = ''gate-response''"
| "message_kind_name Turn_report = ''turn-report''"
| "message_kind_name Master_handover = ''master-handover''"
| "message_kind_name Nudge = ''nudge''"
| "message_kind_name Escalation = ''escalation''"
| "message_kind_name Degradation_alert = ''degradation-alert''"
| "message_kind_name Decision_item = ''decision-item''"
| "message_kind_name Decision_ruling = ''decision-ruling''"
| "message_kind_name Dispatch_brief = ''dispatch-brief''"
| "message_kind_name State_signal = ''state-signal''"

text \<open>A finding on an inbox row and a finding on a seat.\<close>

definition row_finding :: "finding_kind \<Rightarrow> string \<Rightarrow> inbox_entry \<Rightarrow> finding" where
  "row_finding kind detail row = \<lparr>fn_kind = kind, fn_detail = detail, fn_session_id = e_agentId row,
     fn_task_document_ref = e_taskDocumentRef row, fn_seat_role = e_seatRole row, fn_source_id = Some (e_id row)\<rparr>"

definition seat_finding :: "finding_kind \<Rightarrow> string \<Rightarrow> seat_row \<Rightarrow> string option \<Rightarrow> finding" where
  "seat_finding kind detail entry source = \<lparr>fn_kind = kind, fn_detail = detail, fn_session_id = Some (sr_id entry),
     fn_task_document_ref = sr_binding_ref entry, fn_seat_role = Some (sr_binding_role entry), fn_source_id = source\<rparr>"

text \<open>A loop that appends at most one finding per element, and \<open>try/except\<close> with a fallback.\<close>

definition gather :: "('a \<Rightarrow> 'b option result) \<Rightarrow> 'a list \<Rightarrow> 'b list result" where
  "gather f xs = rbind (traverse f xs) (\<lambda>rs. Inr (List.map_filter (\<lambda>r. r) rs))"

definition fenced :: "(py_error \<Rightarrow> bool) \<Rightarrow> 'a \<Rightarrow> 'a result \<Rightarrow> 'a result" where
  "fenced catches fallback r = (case r of Inl e \<Rightarrow> if catches e then Inr fallback else Inl e | Inr x \<Rightarrow> Inr x)"

fun is_routing_error :: "py_error \<Rightarrow> bool" where
  "is_routing_error (StructuralRoutingError _) = True"
| "is_routing_error _ = False"

fun is_seat_error :: "py_error \<Rightarrow> bool" where
  "is_seat_error (StructuralRoutingError _) = True"
| "is_seat_error (SeatOccupancyError _) = True"
| "is_seat_error _ = False"

text \<open>\<open>xs[:n]\<close>.\<close>

definition py_take :: "int \<Rightarrow> 'a list \<Rightarrow> 'a list" where
  "py_take n xs = (if 0 \<le> n then take (nat n) xs else take (length xs - nat (- n)) xs)"

section \<open>The target of a row\<close>

definition seat_at_turn_boundary :: "seat_row \<Rightarrow> bool" where
  "seat_at_turn_boundary entry \<longleftrightarrow> sr_status entry = ''running''
     \<and> (sr_turn_state entry \<in> {Some ''turn-ended'', Some ''awaiting-input''}
        \<or> sr_turn_state entry = None \<and> sr_control_state entry = Some ''ready'')"

definition structural_target :: "seat_directory \<Rightarrow> inbox_entry \<Rightarrow> seat_row option result" where
  "structural_target catalog entry =
     (case (e_taskDocumentRef entry, e_recipientRole entry) of
        (Some document, Some role) \<Rightarrow> current_seat_occupant (cat_list catalog) document (agent_role_name role)
      | _ \<Rightarrow> Inr None)"

definition running_session :: "seat_directory \<Rightarrow> string \<Rightarrow> seat_row option" where
  "running_session catalog i =
     (case cat_get catalog i of None \<Rightarrow> None | Some s \<Rightarrow> if sr_status s = ''running'' then Some s else None)"

definition correlated_target :: "seat_directory \<Rightarrow> inbox_entry \<Rightarrow> seat_row option" where
  "correlated_target catalog entry =
     option_or (if truthy_str (e_agentId entry) then Option.bind (e_agentId entry) (running_session catalog) else None)
       (if truthy_str (e_lifecycleId entry)
        then find (\<lambda>s. sr_status s = ''running'' \<and> sr_lifecycle_id s = e_lifecycleId entry) (cat_list catalog) else None)"

definition target_session_for_entry :: "seat_directory \<Rightarrow> inbox_entry \<Rightarrow> seat_row option result" where
  "target_session_for_entry catalog entry =
     (if e_messageKind entry = Dispatch_brief then Inr (Option.bind (e_agentId entry) (running_session catalog))
      else if e_taskDocumentRef entry \<noteq> None \<and> e_recipientRole entry \<noteq> None then structural_target catalog entry
      else Inr (correlated_target catalog entry))"

section \<open>Rows addressed to dead seats\<close>

definition REBIND_GRACE :: micros where
  "REBIND_GRACE = 300 * second"

definition INBOX_PENDING_TTL :: micros where
  "INBOX_PENDING_TTL = 48 * 60 * 60 * second"

definition evaluate_inbox_findings ::
  "host \<Rightarrow> inbox_store \<Rightarrow> utc \<Rightarrow> micros option \<Rightarrow> (string, inbox_entry) dict option \<Rightarrow> int option \<Rightarrow> finding list result" where
  "evaluate_inbox_findings h s now rate_limit current limit =
     rbind (list_redeliverable h s now rate_limit current) (\<lambda>entries.
       Inr (map (\<lambda>e. row_finding Inbox_redeliverable (message_kind_name (e_messageKind e)) e)
         (case limit of None \<Rightarrow> entries | Some n \<Rightarrow> py_take n entries)))"

definition row_target_dead :: "seat_directory \<Rightarrow> inbox_entry \<Rightarrow> bool" where
  "row_target_dead catalog entry \<longleftrightarrow> e_agentId entry \<noteq> None \<and> is_seat_dead catalog (e_agentId entry)"

definition row_dead_since :: "seat_directory \<Rightarrow> inbox_entry \<Rightarrow> datetime option" where
  "row_dead_since catalog row =
     (case Option.bind (e_agentId row) (cat_get catalog) of
        None \<Rightarrow> parsed_at (str_or (e_lastAttemptAt row) (Some (e_createdAt row)))
      | Some seat \<Rightarrow>
          if sr_status seat = ''running'' then None
          else parsed_at (str_or (str_or (sr_terminated_at seat) (str_or (sr_retired_at seat)
                 (str_or (sr_landed_at seat) (sr_turn_state_changed_at seat))))
                 (str_or (e_lastAttemptAt row) (Some (e_createdAt row)))))"

definition rebind_candidate :: "seat_directory \<Rightarrow> inbox_entry \<Rightarrow> bool" where
  "rebind_candidate catalog row \<longleftrightarrow> e_state row = Pending \<and> e_messageKind row \<noteq> Dispatch_brief
     \<and> e_agentId row \<noteq> None \<and> is_seat_dead catalog (e_agentId row)"

definition rebind_finding ::
  "seat_directory \<Rightarrow> parent_fun \<Rightarrow> altitude_fun \<Rightarrow> utc \<Rightarrow> micros \<Rightarrow> inbox_entry \<Rightarrow> finding option result" where
  "rebind_finding catalog par alt now grace row =
     (if \<not> rebind_candidate catalog row then Inr None
      else (case derive_row_owner catalog par alt row of
              Inl e \<Rightarrow> if is_routing_error e then Inr None else Inl e
            | Inr owner \<Rightarrow>
                if ro_agent_id owner \<noteq> None \<and> ro_agent_id owner \<noteq> e_agentId row
                then Inr (Some (row_finding Rebind_due ''replacement-owner'' row))
                else (case row_dead_since catalog row of
                        None \<Rightarrow> Inr None
                      | Some since \<Rightarrow> rbind (dt_diff (utc_dt now) since) (\<lambda>age.
                          Inr (if grace \<le> age then Some (row_finding Rebind_expired ''rebind-grace-expired'' row) else None)))))"

definition evaluate_rebind_findings ::
  "seat_directory \<Rightarrow> parent_fun \<Rightarrow> altitude_fun \<Rightarrow> (string, inbox_entry) dict \<Rightarrow> utc \<Rightarrow> micros \<Rightarrow> finding list result" where
  "evaluate_rebind_findings catalog par alt current now grace =
     gather (rebind_finding catalog par alt now grace) (dict_values current)"

text \<open>\<open>_age_seconds\<close>: an unparseable stamp has no age, a naive one raises.\<close>

definition strict_age :: "string \<Rightarrow> utc \<Rightarrow> micros option result" where
  "strict_age stamp now = (case fromisoformat stamp of None \<Rightarrow> Inr None
     | Some t \<Rightarrow> rbind (dt_diff (utc_dt now) t) (\<lambda>d. Inr (Some d)))"

definition evaluate_pending_expiry_findings ::
  "(string, inbox_entry) dict \<Rightarrow> utc \<Rightarrow> micros \<Rightarrow> finding list result" where
  "evaluate_pending_expiry_findings current now ttl =
     gather (\<lambda>row. if e_state row \<noteq> Pending then Inr None
       else rbind (strict_age (e_createdAt row) now) (\<lambda>age.
         Inr (case age of None \<Rightarrow> None
              | Some a \<Rightarrow> if ttl \<le> a then Some (row_finding Inbox_ttl_expired ''pending-ttl-expired'' row) else None)))
       (dict_values current)"

section \<open>Liveness of seats\<close>

definition SEAT_LIVENESS_ASK_PREFIXES :: "string list" where
  "SEAT_LIVENESS_ASK_PREFIXES = [''Agent notifier observed seat-liveness:'', ''Supervisor observed seat-liveness:'']"

definition starts_with :: "string \<Rightarrow> string \<Rightarrow> bool" where
  "starts_with s p \<longleftrightarrow> take (length p) s = p"

definition inactivity_signal_chain_progressed ::
  "seat_directory \<Rightarrow> parent_fun \<Rightarrow> inbox_entry \<Rightarrow> bool result" where
  "inactivity_signal_chain_progressed catalog par entry =
     (case e_subjectTaskDocumentRef entry of
        None \<Rightarrow> Inr False
      | Some document \<Rightarrow>
          if e_createdBy entry \<in> {''supervisor'', ''agent-notifier''}
             \<and> list_ex (starts_with (e_ask entry)) SEAT_LIVENESS_ASK_PREFIXES
          then task_chain_has_progress catalog par document (e_subjectAgentId entry) (e_createdAt entry)
          else Inr False)"

definition seat_liveness_ask_identity :: "string \<Rightarrow> string" where
  "seat_liveness_ask_identity ask =
     (case find (starts_with ask) SEAT_LIVENESS_ASK_PREFIXES of
        None \<Rightarrow> ask | Some p \<Rightarrow> ''seat-liveness:'' @ drop (length p) ask)"

definition stale_turn_state_due ::
  "seat_directory \<Rightarrow> parent_fun \<Rightarrow> seat_row \<Rightarrow> utc \<Rightarrow> micros \<Rightarrow> bool result" where
  "stale_turn_state_due catalog par entry now stale =
     (case sr_turn_state_changed_at entry of
        None \<Rightarrow> Inr False
      | Some changed \<Rightarrow>
          if sr_turn_state entry \<noteq> Some ''stale'' then Inr False
          else rbind (strict_age changed now) (\<lambda>age.
            case age of None \<Rightarrow> Inr False
            | Some a \<Rightarrow> if a < stale then Inr False
                else (case sr_binding_ref entry of None \<Rightarrow> Inr True
                      | Some document \<Rightarrow>
                          rbind (task_chain_has_progress catalog par document (Some (sr_id entry)) changed) (\<lambda>p. Inr (\<not> p)))))"

definition safe_stale_turn_state_due ::
  "seat_directory \<Rightarrow> parent_fun \<Rightarrow> seat_row \<Rightarrow> utc \<Rightarrow> micros \<Rightarrow> bool result" where
  "safe_stale_turn_state_due catalog par entry now stale =
     fenced is_seat_error False (stale_turn_state_due catalog par entry now stale)"

definition running_harness :: "seat_row \<Rightarrow> bool" where
  "running_harness entry \<longleftrightarrow> sr_kind entry = ''harness'' \<and> sr_status entry = ''running''"

definition seat_liveness_finding ::
  "seat_directory \<Rightarrow> parent_fun \<Rightarrow> utc \<Rightarrow> micros \<Rightarrow> seat_row \<Rightarrow> finding option result" where
  "seat_liveness_finding catalog par now stale entry =
     (if \<not> running_harness entry then Inr None
      else if sr_turn_state entry \<noteq> None \<and> sr_turn_state_changed_at entry \<noteq> None
      then rbind (safe_stale_turn_state_due catalog par entry now stale) (\<lambda>due.
        Inr (if due then Some (seat_finding Seat_liveness ''turn-state-stale'' entry None) else None))
      else Inr (if 0 < sr_liveness_failures entry then Some (seat_finding Seat_liveness ''liveness-degraded'' entry None) else None))"

definition evaluate_seat_liveness_findings ::
  "seat_directory \<Rightarrow> parent_fun \<Rightarrow> utc \<Rightarrow> micros \<Rightarrow> finding list result" where
  "evaluate_seat_liveness_findings catalog par now stale =
     gather (seat_liveness_finding catalog par now stale) (cat_list catalog)"

text \<open>A state signal is never a decision item, so its owner is one hop up.\<close>

definition state_signal_owner :: "seat_directory \<Rightarrow> parent_fun \<Rightarrow> altitude_fun \<Rightarrow> string \<Rightarrow> routed_owner result" where
  "state_signal_owner catalog par alt sender = one_hop_owner catalog par alt (Some sender) None"

definition dead_upstream_finding ::
  "seat_directory \<Rightarrow> parent_fun \<Rightarrow> altitude_fun \<Rightarrow> seat_row \<Rightarrow> finding option result" where
  "dead_upstream_finding catalog par alt entry =
     (if \<not> running_harness entry \<or> sr_binding_role entry \<notin> {''worker'', ''reviewer'', ''curator'', ''manager''} then Inr None
      else (case state_signal_owner catalog par alt (sr_id entry) of
              Inl e \<Rightarrow> if is_routing_error e then Inr None else Inl e
            | Inr owner \<Rightarrow> Inr (if ro_ref owner = None \<or> ro_agent_id owner \<noteq> None then None
                                else Some (seat_finding Dead_upstream ''structural-owner-missing'' entry None))))"

definition evaluate_dead_upstream_findings ::
  "seat_directory \<Rightarrow> parent_fun \<Rightarrow> altitude_fun \<Rightarrow> finding list result" where
  "evaluate_dead_upstream_findings catalog par alt = gather (dead_upstream_finding catalog par alt) (cat_list catalog)"

section \<open>State signals\<close>

definition NON_REACTION_WINDOW :: micros where
  "NON_REACTION_WINDOW = 300 * second"

definition manager_owned_subordinate :: "parent_fun \<Rightarrow> altitude_fun \<Rightarrow> seat_row \<Rightarrow> seat_row \<Rightarrow> bool result" where
  "manager_owned_subordinate par alt manager entry =
     (let manager_document = sr_binding_ref manager; entry_document = sr_binding_ref entry;
          stamped = (sr_binding_role entry = ''reviewer'' \<and> sr_parent_role entry = Some ''manager''
                     \<and> sr_parent_ref entry = manager_document) in
      rbind (case entry_document of
               Some d \<Rightarrow>
                 if sr_binding_role entry = ''reviewer'' \<and> sr_parent_ref entry = None \<and> sr_parent_role entry = None
                 then rbind (alt d) (\<lambda>a. if a = Alt_leaf then rbind (par d) (\<lambda>p. Inr (p = manager_document)) else Inr False)
                 else Inr False
             | None \<Rightarrow> Inr False) (\<lambda>unstamped.
        (case (manager_document, entry_document) of
           (Some m, Some d) \<Rightarrow>
             if sr_binding_role manager \<noteq> ''manager'' then Inr False
             else if sr_binding_role entry \<in> {''worker'', ''curator''}
             then rbind (par d) (\<lambda>p. Inr (p = manager_document \<or> unstamped \<or> stamped))
             else Inr (unstamped \<or> stamped)
         | _ \<Rightarrow> Inr False)))"

definition manager_for_subordinate ::
  "seat_directory \<Rightarrow> parent_fun \<Rightarrow> altitude_fun \<Rightarrow> seat_row \<Rightarrow> seat_row option result" where
  "manager_for_subordinate catalog par alt entry =
     (case sr_binding_ref entry of
        None \<Rightarrow> Inr None
      | Some document \<Rightarrow>
          rbind (if sr_binding_role entry \<in> {''worker'', ''curator''} then par document
                 else if sr_binding_role entry = ''reviewer'' \<and> sr_parent_role entry = Some ''manager'' then Inr (sr_parent_ref entry)
                 else if sr_binding_role entry = ''reviewer'' \<and> sr_parent_ref entry = None \<and> sr_parent_role entry = None
                 then rbind (alt document) (\<lambda>a. if a = Alt_leaf then par document else Inr None)
                 else Inr None) (\<lambda>master.
            case master of None \<Rightarrow> Inr None
            | Some m \<Rightarrow> current_seat_occupant (cat_list catalog) m ''manager''))"

text \<open>The current manager of every master with a running manager row. The code iterates a set of
  references, whose order is not fixed; here they come in the order of the rows.\<close>

definition current_manager_rows :: "seat_row list \<Rightarrow> seat_row option list" where
  "current_manager_rows rows =
     List.map_filter (\<lambda>document. case current_seat_occupant rows document ''manager'' of Inl _ \<Rightarrow> None | Inr m \<Rightarrow> Some m)
       (from_keys (List.map_filter sr_binding_ref (filter (\<lambda>row. sr_binding_role row = ''manager'') rows)))"

definition manager_idle_members ::
  "parent_fun \<Rightarrow> altitude_fun \<Rightarrow> seat_row list \<Rightarrow> seat_row \<Rightarrow> seat_row list result" where
  "manager_idle_members par alt running manager =
     rbind (filter_result (\<lambda>entry. if sr_id entry = sr_id manager then Inr False
        else manager_owned_subordinate par alt manager entry) running) (\<lambda>subs. Inr (manager # subs))"

fun idle_sets ::
  "parent_fun \<Rightarrow> altitude_fun \<Rightarrow> seat_row list \<Rightarrow> seat_row option list \<Rightarrow> (string, seat_row list) dict \<Rightarrow> (string, seat_row list) dict result" where
  "idle_sets par alt running [] sets = Inr sets"
| "idle_sets par alt running (None # ms) sets = Inl (AttributeError ''id'')"
| "idle_sets par alt running (Some m # ms) sets =
     rbind (manager_idle_members par alt running m) (\<lambda>members.
       idle_sets par alt running ms
         (if length members \<noteq> 1 \<and> list_all (\<lambda>x. sr_turn_state x \<in> {Some ''turn-ended'', Some ''awaiting-input''}) members
          then AList.update (sr_id m) members sets else sets))"

definition compound_idle_sets ::
  "seat_directory \<Rightarrow> parent_fun \<Rightarrow> altitude_fun \<Rightarrow> (string, seat_row list) dict result" where
  "compound_idle_sets catalog par alt =
     (let running = filter running_harness (cat_list catalog) in
      idle_sets par alt running (current_manager_rows running) [])"

definition member_signature :: "seat_row \<Rightarrow> string" where
  "member_signature m = sr_id m @ '':'' @ (case sr_turn_state m of None \<Rightarrow> ''None'' | Some s \<Rightarrow> s) @ '':''
     @ (case sr_turn_state_changed_at m of None \<Rightarrow> [] | Some t \<Rightarrow> t)"

definition compound_idle_signature :: "seat_row list \<Rightarrow> string" where
  "compound_idle_signature members = join_with (CHR '';'') (sort (map member_signature members))"

definition state_signal_held_on_boundary :: "seat_directory \<Rightarrow> inbox_entry \<Rightarrow> bool" where
  "state_signal_held_on_boundary catalog entry \<longleftrightarrow>
     e_messageKind entry = State_signal \<and> \<not> state_signal_landed entry
     \<and> (case target_session_for_entry catalog entry of
          Inl _ \<Rightarrow> True | Inr None \<Rightarrow> False | Inr (Some target) \<Rightarrow> sr_status target = ''running'')"

definition notifier_subject_owner_id ::
  "seat_directory \<Rightarrow> parent_fun \<Rightarrow> altitude_fun \<Rightarrow> seat_row \<Rightarrow> string option result" where
  "notifier_subject_owner_id catalog par alt entry =
     (if sr_binding_role entry \<in> {''worker'', ''curator''}
      then rbind (manager_for_subordinate catalog par alt entry) (\<lambda>m. Inr (map_option sr_id m))
      else if sr_binding_role entry \<noteq> ''reviewer'' then Inr None
      else rbind (state_signal_owner catalog par alt (sr_id entry)) (\<lambda>owner. Inr (ro_agent_id owner)))"

definition state_signal_finding ::
  "seat_directory \<Rightarrow> parent_fun \<Rightarrow> altitude_fun \<Rightarrow> seat_row \<Rightarrow> finding option result" where
  "state_signal_finding catalog par alt entry =
     rbind (notifier_subject_owner_id catalog par alt entry) (\<lambda>owner_id.
       Inr (case (sr_terminal_outcome entry, sr_terminal_evidence_id entry) of
              (Some outcome, Some evidence) \<Rightarrow>
                if running_harness entry \<and> owner_id \<noteq> None \<and> sr_turn_state entry = Some ''turn-ended''
                   \<and> outcome \<in> {''completed'', ''interrupted''} \<and> sr_state_signal_emitted_for entry \<noteq> Some evidence
                then Some (seat_finding State_signal_due outcome entry (Some evidence)) else None
            | _ \<Rightarrow> None))"

definition safe_state_signal_finding ::
  "seat_directory \<Rightarrow> parent_fun \<Rightarrow> altitude_fun \<Rightarrow> seat_row \<Rightarrow> finding option result" where
  "safe_state_signal_finding catalog par alt entry =
     fenced (\<lambda>e. is_seat_error e \<or> is_ref_error e) None (state_signal_finding catalog par alt entry)"

definition evaluate_state_signal_findings ::
  "seat_directory \<Rightarrow> parent_fun \<Rightarrow> altitude_fun \<Rightarrow> finding list result" where
  "evaluate_state_signal_findings catalog par alt = gather (safe_state_signal_finding catalog par alt) (cat_list catalog)"

definition current_state_signal_finding ::
  "seat_directory \<Rightarrow> parent_fun \<Rightarrow> altitude_fun \<Rightarrow> string \<Rightarrow> string \<Rightarrow> (seat_row \<times> finding) option result" where
  "current_state_signal_finding catalog par alt session_id source_id =
     (case cat_get catalog session_id of
        None \<Rightarrow> Inr None
      | Some entry \<Rightarrow> rbind (safe_state_signal_finding catalog par alt entry) (\<lambda>found.
          Inr (case found of None \<Rightarrow> None
               | Some f \<Rightarrow> if fn_source_id f \<noteq> Some source_id then None else Some (entry, f))))"

definition compound_idle_finding :: "string \<times> seat_row list \<Rightarrow> finding option" where
  "compound_idle_finding item =
     (let manager_id = fst item; manager = hd (snd item); signature = compound_idle_signature (snd item) in
      if sr_compound_idle_emitted_for manager = Some signature then None
      else Some \<lparr>fn_kind = Compound_idle_due, fn_detail = ''compound-idle'', fn_session_id = Some manager_id,
             fn_task_document_ref = sr_binding_ref manager, fn_seat_role = Some (sr_binding_role manager),
             fn_source_id = Some signature\<rparr>)"

definition evaluate_compound_idle_findings ::
  "seat_directory \<Rightarrow> parent_fun \<Rightarrow> altitude_fun \<Rightarrow> finding list result" where
  "evaluate_compound_idle_findings catalog par alt =
     rbind (compound_idle_sets catalog par alt) (\<lambda>sets. Inr (List.map_filter compound_idle_finding sets))"

section \<open>Non-reaction\<close>

text \<open>\<open>min\<close> with a key returns the first least element, the head of the stable sort.\<close>

definition oldest_landed_episode ::
  "(string, inbox_entry) dict \<Rightarrow> seat_row \<Rightarrow> (inbox_entry \<times> datetime) option" where
  "oldest_landed_episode current entry =
     (case sort_key (\<lambda>row. case e_adapterAcceptedAt row of None \<Rightarrow> [] | Some t \<Rightarrow> t)
             (filter (\<lambda>row. e_state row = Landed \<and> e_deliveredToSession row = Some (sr_id entry)
                \<and> e_adapterDeliveryState row = Some AdAccepted \<and> e_adapterAcceptedAt row \<noteq> None) (dict_values current)) of
        [] \<Rightarrow> None
      | oldest # _ \<Rightarrow>
          (case parsed_at (e_adapterAcceptedAt oldest) of
             None \<Rightarrow> None
           | Some accepted_at \<Rightarrow> if dt_off accepted_at = None then None else Some (oldest, accepted_at)))"

definition is_non_reaction_subject ::
  "seat_directory \<Rightarrow> parent_fun \<Rightarrow> altitude_fun \<Rightarrow> seat_row \<Rightarrow> bool result" where
  "is_non_reaction_subject catalog par alt entry =
     rbind (case sr_binding_ref entry of
              Some document \<Rightarrow>
                if sr_binding_role entry = ''manager'' then current_seat_occupant (cat_list catalog) document ''manager'' else Inr None
            | None \<Rightarrow> Inr None) (\<lambda>current_manager.
       if map_option sr_id current_manager = Some (sr_id entry) then Inr True
       else if sr_binding_role entry \<notin> {''worker'', ''curator'', ''reviewer''} then Inr False
       else rbind (notifier_subject_owner_id catalog par alt entry) (\<lambda>owner. Inr (owner \<noteq> None)))"

definition non_reaction_finding ::
  "seat_directory \<Rightarrow> parent_fun \<Rightarrow> altitude_fun \<Rightarrow> (string, inbox_entry) dict \<Rightarrow> utc \<Rightarrow> micros \<Rightarrow> seat_row \<Rightarrow> finding option result" where
  "non_reaction_finding catalog par alt current now window entry =
     rbind (is_non_reaction_subject catalog par alt entry) (\<lambda>is_subject.
       if \<not> (running_harness entry \<and> sr_turn_state entry = Some ''turn-ended'' \<and> is_subject) then Inr None
       else (case oldest_landed_episode current entry of
               None \<Rightarrow> Inr None
             | Some (oldest, accepted_at) \<Rightarrow>
                 if sr_non_reaction_emitted_for entry = Some (e_id oldest) then Inr None
                 else rbind (dt_diff (utc_dt now) accepted_at) (\<lambda>age.
                   Inr (if age < window then None
                        else Some (seat_finding Non_reaction_due (e_id oldest) entry (Some (e_id oldest)))))))"

definition safe_non_reaction_finding ::
  "seat_directory \<Rightarrow> parent_fun \<Rightarrow> altitude_fun \<Rightarrow> (string, inbox_entry) dict \<Rightarrow> utc \<Rightarrow> micros \<Rightarrow> seat_row \<Rightarrow> finding option result" where
  "safe_non_reaction_finding catalog par alt current now window entry =
     fenced is_seat_error None (non_reaction_finding catalog par alt current now window entry)"

definition evaluate_non_reaction_findings ::
  "seat_directory \<Rightarrow> parent_fun \<Rightarrow> altitude_fun \<Rightarrow> (string, inbox_entry) dict \<Rightarrow> utc \<Rightarrow> micros \<Rightarrow> finding list result" where
  "evaluate_non_reaction_findings catalog par alt current now window =
     gather (safe_non_reaction_finding catalog par alt current now window) (cat_list catalog)"

definition current_non_reaction_finding ::
  "seat_directory \<Rightarrow> parent_fun \<Rightarrow> altitude_fun \<Rightarrow> (string, inbox_entry) dict \<Rightarrow> finding \<Rightarrow> utc \<Rightarrow> micros
     \<Rightarrow> (seat_row \<times> inbox_entry \<times> finding) option result" where
  "current_non_reaction_finding catalog par alt current found now window =
     (case (Option.bind (fn_session_id found) (cat_get catalog), fn_source_id found) of
        (Some entry, Some source) \<Rightarrow>
          rbind (safe_non_reaction_finding catalog par alt current now window entry) (\<lambda>again.
            case again of None \<Rightarrow> Inr None
            | Some f \<Rightarrow> if fn_source_id f \<noteq> Some source then Inr None
                else (case map_of current source of None \<Rightarrow> Inl (KeyError source) | Some row \<Rightarrow> Inr (Some (entry, row, f))))
      | _ \<Rightarrow> Inr None)"

section \<open>Boundary drain\<close>

definition boundary_follows_last_attempt :: "inbox_entry \<Rightarrow> datetime \<Rightarrow> bool result" where
  "boundary_follows_last_attempt entry boundary_at =
     (case e_lastAttemptAt entry of
        None \<Rightarrow> Inr (e_messageKind entry = State_signal)
      | Some t \<Rightarrow> (case fromisoformat t of None \<Rightarrow> Inr False | Some attempted_at \<Rightarrow> dt_less attempted_at boundary_at))"

definition boundary_drain_finding :: "seat_directory \<Rightarrow> inbox_entry \<Rightarrow> finding option result" where
  "boundary_drain_finding catalog entry =
     (if e_state entry \<noteq> Pending \<or> state_signal_landed entry \<or> row_target_dead catalog entry then Inr None
      else (case target_session_for_entry catalog entry of
              Inl _ \<Rightarrow> Inr None
            | Inr None \<Rightarrow> Inr None
            | Inr (Some target) \<Rightarrow>
                if \<not> seat_at_turn_boundary target then Inr None
                else (case parsed_at (sr_turn_state_changed_at target) of
                        None \<Rightarrow> Inr None
                      | Some boundary_at \<Rightarrow> rbind (boundary_follows_last_attempt entry boundary_at) (\<lambda>follows.
                          Inr (if follows then Some (row_finding Boundary_drain (message_kind_name (e_messageKind entry)) entry)
                               else None)))))"

definition evaluate_boundary_drain_findings ::
  "seat_directory \<Rightarrow> (string, inbox_entry) dict \<Rightarrow> int option \<Rightarrow> finding list result" where
  "evaluate_boundary_drain_findings catalog current limit =
     rbind (gather (boundary_drain_finding catalog) (dict_values current)) (\<lambda>fs.
       Inr (case limit of None \<Rightarrow> fs | Some n \<Rightarrow> py_take n fs))"

section \<open>One sweep\<close>

record notifier_context =
  nc_catalog :: seat_directory
  nc_topology :: task_topology
  nc_inbox :: inbox_store
  nc_stale_seat :: micros
  nc_redeliver_rate_limit :: "micros option"
  nc_redeliver_budget :: int
  nc_escalation_budget :: int

record sweep_state =
  sw_inbox_current :: "(string, inbox_entry) dict"
  sw_redeliver_budget :: int
  sw_redeliverable_entries :: "inbox_entry list"

definition redelivery_route_is_actionable :: "seat_directory \<Rightarrow> parent_fun \<Rightarrow> inbox_entry \<Rightarrow> bool result" where
  "redelivery_route_is_actionable catalog par entry =
     fenced is_seat_error False
       (rbind (inactivity_signal_chain_progressed catalog par entry) (\<lambda>progressed.
          Inr (\<not> progressed \<and> \<not> state_signal_held_on_boundary catalog entry \<and> \<not> row_target_dead catalog entry)))"

text \<open>The redelivery findings of a sweep do not carry the role of the seat.\<close>

definition redelivery_findings ::
  "host \<Rightarrow> notifier_context \<Rightarrow> parent_fun \<Rightarrow> utc \<Rightarrow> sweep_state option \<Rightarrow> finding list result" where
  "redelivery_findings h ctx par now sweep =
     (case sweep of
        None \<Rightarrow> evaluate_inbox_findings h (nc_inbox ctx) now (nc_redeliver_rate_limit ctx) None (Some (nc_redeliver_budget ctx))
      | Some sw \<Rightarrow>
          rbind (filter_result (redelivery_route_is_actionable (nc_catalog ctx) par) (sw_redeliverable_entries sw)) (\<lambda>entries.
            Inr (map (\<lambda>e. (row_finding Inbox_redeliverable (message_kind_name (e_messageKind e)) e)\<lparr>fn_seat_role := None\<rparr>)
              (py_take (sw_redeliver_budget sw) entries))))"

definition evaluate_predicates ::
  "host \<Rightarrow> notifier_context \<Rightarrow> utc \<Rightarrow> sweep_state option \<Rightarrow> finding list result" where
  "evaluate_predicates h ctx now sweep =
     (let catalog = nc_catalog ctx; par = parent (nc_topology ctx); alt = altitude (nc_topology ctx) in
      rbind (redelivery_findings h ctx par now sweep) (\<lambda>redeliver.
      rbind (evaluate_seat_liveness_findings catalog par now (nc_stale_seat ctx)) (\<lambda>liveness.
      rbind (evaluate_dead_upstream_findings catalog par alt) (\<lambda>upstream.
      rbind (case sweep of None \<Rightarrow> inbox_current h (nc_inbox ctx) | Some sw \<Rightarrow> Inr (sw_inbox_current sw)) (\<lambda>entries.
      rbind (evaluate_rebind_findings catalog par alt entries now REBIND_GRACE) (\<lambda>rebind.
      rbind (evaluate_pending_expiry_findings entries now INBOX_PENDING_TTL) (\<lambda>expired.
      rbind (evaluate_state_signal_findings catalog par alt) (\<lambda>signals.
      rbind (evaluate_compound_idle_findings catalog par alt) (\<lambda>idle.
      rbind (inbox_current h (nc_inbox ctx)) (\<lambda>landed.
      rbind (evaluate_non_reaction_findings catalog par alt landed now NON_REACTION_WINDOW) (\<lambda>silent.
      rbind (evaluate_boundary_drain_findings catalog (case sweep of None \<Rightarrow> [] | Some sw \<Rightarrow> sw_inbox_current sw)
               (Some (max 1 (nc_redeliver_budget ctx)))) (\<lambda>drain.
        Inr (redeliver @ py_take (max 1 (nc_escalation_budget ctx)) (liveness @ upstream) @ rebind @ expired @ signals
             @ idle @ silent @ drain)))))))))))))"

section \<open>Reclamation of alerts about sessions that are gone\<close>

datatype tmux_evidence = Tmux_session_list | Tmux_no_server | Tmux_command_failed

record tmux_snapshot =
  tm_names :: "string list"
  tm_evidence :: tmux_evidence

definition snapshot_ok :: "tmux_snapshot \<Rightarrow> bool" where
  "snapshot_ok snap \<longleftrightarrow> tm_evidence snap \<noteq> Tmux_command_failed"

record reclamation_plan =
  rp_resolve_reasons :: "(string, string) dict"
  rp_candidate_row_count :: nat
  rp_unique_subject_count :: nat
  rp_kept_row_count :: int
  rp_evidence_class :: string

definition CONFIRMED_GONE_REASON :: string where
  "CONFIRMED_GONE_REASON = ''subject-session-confirmed-gone''"

definition reclaim_eligible :: "inbox_entry \<Rightarrow> bool" where
  "reclaim_eligible entry \<longleftrightarrow> e_state entry = Pending \<and> e_createdBy entry \<in> {''supervisor'', ''agent-notifier''}
     \<and> e_messageKind entry \<in> {Nudge, Escalation} \<and> \<not> state_signal_landed entry \<and> e_subjectAgentId entry \<noteq> None"

text \<open>The catalog by id: of two rows with one id the last counts.\<close>

definition catalog_row :: "seat_row list \<Rightarrow> string \<Rightarrow> seat_row option" where
  "catalog_row rows i = find (\<lambda>r. sr_id r = i) (rev rows)"

definition confirmed_gone_subjects ::
  "string list \<Rightarrow> seat_row list \<Rightarrow> tmux_snapshot \<Rightarrow> string list \<times> string list \<times> tmux_snapshot option" where
  "confirmed_gone_subjects subjects rows snapshot =
     (let gone_by_catalog = filter (\<lambda>i. case catalog_row rows i of None \<Rightarrow> False | Some r \<Rightarrow> sr_status r = ''terminated'') subjects;
          missing = filter (\<lambda>i. catalog_row rows i = None) subjects in
      if missing = [] then (gone_by_catalog, [], None)
      else if \<not> snapshot_ok snapshot then (gone_by_catalog, [], Some snapshot)
      else (gone_by_catalog, filter (\<lambda>i. ''ar-'' @ i \<notin> set (tm_names snapshot)) missing, Some snapshot))"

definition evidence_class :: "string list \<Rightarrow> string list \<Rightarrow> tmux_snapshot option \<Rightarrow> string" where
  "evidence_class by_catalog by_tmux snapshot =
     (if by_catalog \<noteq> [] \<and> by_tmux \<noteq> [] then ''catalog-terminal+tmux-name-absence''
      else if by_catalog \<noteq> [] then ''catalog-terminal''
      else if by_tmux \<noteq> [] then ''tmux-name-absence''
      else if (case snapshot of None \<Rightarrow> False | Some s \<Rightarrow> \<not> snapshot_ok s) then ''tmux-indeterminate''
      else ''no-positive-gone-evidence'')"

definition plan_confirmed_gone_reclamation ::
  "(string, inbox_entry) dict \<Rightarrow> seat_row list \<Rightarrow> tmux_snapshot \<Rightarrow> reclamation_plan" where
  "plan_confirmed_gone_reclamation current rows snapshot =
     (let candidates = filter reclaim_eligible (dict_values current);
          subjects = from_keys (List.map_filter e_subjectAgentId candidates);
          gone = confirmed_gone_subjects subjects rows snapshot;
          by_catalog = fst gone; by_tmux = fst (snd gone);
          reasons = fold (\<lambda>e d. AList.update (e_id e) CONFIRMED_GONE_REASON d)
            (filter (\<lambda>e. case e_subjectAgentId e of None \<Rightarrow> False | Some i \<Rightarrow> i \<in> set (by_catalog @ by_tmux)) candidates) [] in
      \<lparr>rp_resolve_reasons = reasons, rp_candidate_row_count = length candidates,
       rp_unique_subject_count = length subjects, rp_kept_row_count = int (length candidates) - int (length reasons),
       rp_evidence_class = evidence_class by_catalog by_tmux (snd (snd gone))\<rparr>)"

section \<open>Lemmas on scans\<close>

lemma set_map_filter: "y \<in> set (List.map_filter f xs) \<longleftrightarrow> (\<exists>x\<in>set xs. f x = Some y)"
  by (induction xs) (auto simp: List.map_filter_simps split: option.splits)

lemma gather_set: "gather f xs = Inr fs \<Longrightarrow> y \<in> set fs \<longleftrightarrow> (\<exists>x\<in>set xs. f x = Inr (Some y))"
  unfolding gather_def by (elim rbind_InrE) (auto simp: set_map_filter traverse_set)

lemma gather_defined: "gather f xs = Inr fs \<Longrightarrow> x \<in> set xs \<Longrightarrow> \<exists>r. f x = Inr r"
  unfolding gather_def by (elim rbind_InrE) (auto dest: traverse_defined)

lemma gather_abort: "x \<in> set xs \<Longrightarrow> f x = Inl e \<Longrightarrow> \<exists>e'. gather f xs = Inl e'"
  using gather_defined [of f xs _ x] by (cases "gather f xs") auto

lemma rbind_abort: "\<exists>e. m = Inl e \<Longrightarrow> \<exists>e. rbind m f = Inl e"
  by auto

lemma rbind_abort_after: "(\<And>x. m = Inr x \<Longrightarrow> \<exists>e. f x = Inl e) \<Longrightarrow> \<exists>e. rbind m f = Inl e"
  by (cases m) auto

lemma state_signal_owner_is_derived:
  "derive_signal_owner catalog par alt (Some sender) State_signal None = Some (state_signal_owner catalog par alt sender)"
  by (auto simp: derive_signal_owner_def state_signal_owner_def one_hop_owner_def split: option.splits)

text \<open>Who holds the seat an owner names: its running incumbent, without one its running heir.\<close>

definition seat_holder :: "seat_directory \<Rightarrow> routed_owner \<Rightarrow> seat_row option" where
  "seat_holder catalog owner =
     (case (ro_ref owner, ro_role owner) of
        (Some d, Some role) \<Rightarrow>
          (case incumbents (cat_list catalog) d role @ heirs (cat_list catalog) d role of [] \<Rightarrow> None | seat # _ \<Rightarrow> Some seat)
      | _ \<Rightarrow> None)"

lemma seat_holder_running:
  assumes "seat_holder catalog owner = Some seat"
  shows "seat \<in> set (cat_list catalog) \<and> sr_status seat = ''running''"
proof -
  obtain d role where "ro_ref owner = Some d" "ro_role owner = Some role"
    and "seat \<in> set (incumbents (cat_list catalog) d role @ heirs (cat_list catalog) d role)"
    using assms by (auto simp: seat_holder_def simp del: set_append split: option.splits list.splits)
  then show ?thesis by (auto simp: incumbents_def heirs_def)
qed

lemma derive_row_owner_holder:
  assumes "derive_row_owner catalog par alt row = Inr owner"
  shows "ro_agent_id owner = map_option sr_id (seat_holder catalog owner)"
proof -
  have "\<exists>d r. current_occupant catalog d r = Inr owner" if none: "owner \<noteq> no_owner"
  proof -
    have stamped: "\<exists>d r. current_occupant catalog d r = Inr owner" if "owner_for_stamped_seat catalog row = Inr owner"
      using that none by (auto simp: owner_for_stamped_seat_def split: option.splits)
    have structural: "\<exists>d r. current_occupant catalog d r = Inr owner"
      if "structural_parent_owner catalog par alt d role p = Inr (Some owner)" for d role p
      using that unfolding structural_parent_factors by (auto simp: occupied_def elim!: rbind_InrE split: option.splits) blast
    show ?thesis
      using assms none stamped structural unfolding derive_row_owner_def
      by (auto elim!: rbind_InrE split: if_splits option.splits)
  qed
  moreover have ?thesis if "owner = no_owner" using that by (simp add: no_owner_def seat_holder_def)
  moreover have ?thesis if "current_occupant catalog d r = Inr owner" for d r
    using current_occupant_exact [OF that] by (auto simp: seat_holder_def split: list.splits)
  ultimately show ?thesis by blast
qed

text \<open>The holder of a seat is not the dead session a row is addressed to.\<close>

lemma holder_is_another:
  assumes "\<forall>r\<in>set (cat_list catalog). cat_get catalog (sr_id r) = Some r"
    and "rebind_candidate catalog row" "seat_holder catalog owner = Some seat"
  shows "Some (sr_id seat) \<noteq> e_agentId row"
  using assms(1,2) seat_holder_running [OF assms(3)]
  by (auto simp: rebind_candidate_def is_seat_dead_def split: option.splits)

text \<open>What the scan for dead upstreams reports of one seat.\<close>

lemma vacant_occupant:
  "current_occupant catalog d role = Inr owner \<Longrightarrow>
     ro_agent_id owner = None \<longleftrightarrow> incumbents (cat_list catalog) d role = [] \<and> heirs (cat_list catalog) d role = []"
  by (auto simp: current_occupant_def occupant_cases split: if_splits list.splits option.splits sum.splits)

lemma vacant_occupant_answers:
  "incumbents (cat_list catalog) d role = [] \<Longrightarrow> heirs (cat_list catalog) d role = [] \<Longrightarrow>
     \<exists>owner. current_occupant catalog d role = Inr owner \<and> ro_ref owner = Some d \<and> ro_agent_id owner = None"
  by (simp add: current_occupant_def occupant_cases)

lemma state_signal_owner_factors:
  assumes "cat_get catalog (sr_id row) = Some row" "sr_binding_ref row = Some document"
  shows "state_signal_owner catalog par alt (sr_id row) =
    rbind (parent_address par alt document (sr_binding_role row) (sr_parent_ref row, sr_parent_role row))
      (\<lambda>address. case address of None \<Rightarrow> Inr no_owner | Some (d, r) \<Rightarrow> current_occupant catalog d r)"
  using assms
  by (simp add: state_signal_owner_def one_hop_owner_def signal_task_document_ref_def structural_parent_factors occupied_or_nobody)

text \<open>The idle sets: a manager with all it owns, every one of them at a boundary.\<close>

definition idle_set :: "parent_fun \<Rightarrow> altitude_fun \<Rightarrow> seat_row list \<Rightarrow> string \<Rightarrow> seat_row list \<Rightarrow> bool" where
  "idle_set par alt running i members \<longleftrightarrow>
     (\<exists>m subs. members = m # subs \<and> sr_id m = i \<and> subs \<noteq> []
        \<and> set subs = {e \<in> set running. sr_id e \<noteq> i \<and> manager_owned_subordinate par alt m e = Inr True}
        \<and> (\<forall>x\<in>set members. sr_turn_state x \<in> {Some ''turn-ended'', Some ''awaiting-input''}))"

lemma set_update_subset: "set (AList.update k v d) \<subseteq> insert (k, v) (set d)"
  by (induction d) auto

lemma idle_members_set:
  assumes "manager_idle_members par alt running m = Inr members"
  obtains subs where "members = m # subs"
    "set subs = {e \<in> set running. sr_id e \<noteq> sr_id m \<and> manager_owned_subordinate par alt m e = Inr True}"
proof -
  obtain subs where run: "filter_result (\<lambda>entry. if sr_id entry = sr_id m then Inr False
      else manager_owned_subordinate par alt m entry) running = Inr subs" and members: "members = m # subs"
    using assms by (auto simp: manager_idle_members_def elim!: rbind_InrE)
  show ?thesis by (rule that [OF members]) (use filter_result_Inr [OF run] in \<open>auto split: if_splits\<close>)
qed

lemma idle_sets_are_idle:
  assumes "idle_sets par alt running ms sets = Inr out" "\<forall>(i, members)\<in>set sets. idle_set par alt running i members \<and> Some (hd members) \<in> M"
    and "set ms \<subseteq> M"
  shows "\<forall>(i, members)\<in>set out. idle_set par alt running i members \<and> Some (hd members) \<in> M"
  using assms
proof (induction par alt running ms sets rule: idle_sets.induct)
  case (3 par alt running m ms sets)
  obtain members where mem: "manager_idle_members par alt running m = Inr members" using "3.prems"(1) by (auto elim: rbind_InrE)
  obtain subs where subs: "members = m # subs"
    "set subs = {e \<in> set running. sr_id e \<noteq> sr_id m \<and> manager_owned_subordinate par alt m e = Inr True}"
    using idle_members_set [OF mem] by blast
  define complete where
    "complete \<longleftrightarrow> length members \<noteq> 1 \<and> list_all (\<lambda>x. sr_turn_state x \<in> {Some ''turn-ended'', Some ''awaiting-input''}) members"
  have new: "idle_set par alt running (sr_id m) members" if complete
    unfolding idle_set_def using that subs by (intro exI [of _ m] exI [of _ subs]) (auto simp: complete_def list_all_iff)
  have run: "idle_sets par alt running ms (if complete then AList.update (sr_id m) members sets else sets) = Inr out"
    using "3.prems"(1) mem by (simp add: complete_def)
  have "\<forall>(i, members)\<in>set (if complete then AList.update (sr_id m) members sets else sets).
      idle_set par alt running i members \<and> Some (hd members) \<in> M"
    using "3.prems"(2,3) new subs(1) set_update_subset [of "sr_id m" members sets] by (auto split: if_splits)
  then show ?case using "3.IH" [OF mem] run "3.prems"(3) unfolding complete_def by auto
qed auto

lemma current_manager_is_manager:
  assumes "Some m \<in> set (current_manager_rows rows)"
  shows "m \<in> set rows \<and> sr_binding_role m = ''manager'' \<and> sr_status m = ''running''"
proof -
  obtain d where "(case current_seat_occupant rows d ''manager'' of Inl _ \<Rightarrow> None | Inr m \<Rightarrow> Some m) = Some (Some m)"
    using assms unfolding current_manager_rows_def set_map_filter by blast
  then have "current_seat_occupant rows d ''manager'' = Inr (Some m)" by (simp split: sum.splits)
  then have "m \<in> set (incumbents rows d ''manager'' @ heirs rows d ''manager'')"
    by (auto simp: occupant_cases simp del: set_append split: if_splits list.splits)
  then show ?thesis by (auto simp: incumbents_def heirs_def)
qed

lemma reported_idle_set:
  assumes "evaluate_compound_idle_findings catalog par alt = Inr fs" "f \<in> set fs"
  obtains m subs where "m \<in> set (cat_list catalog)" "running_harness m" "sr_binding_role m = ''manager''"
    "fn_session_id f = Some (sr_id m)" "fn_source_id f = Some (compound_idle_signature (m # subs))"
    "sr_compound_idle_emitted_for m \<noteq> fn_source_id f"
    "idle_set par alt (filter running_harness (cat_list catalog)) (sr_id m) (m # subs)"
proof -
  define running where "running = filter running_harness (cat_list catalog)"
  obtain sets where sets: "idle_sets par alt running (current_manager_rows running) [] = Inr sets"
    and fs: "fs = List.map_filter compound_idle_finding sets"
    using assms(1) unfolding evaluate_compound_idle_findings_def compound_idle_sets_def Let_def running_def by (auto elim!: rbind_InrE)
  obtain i members where item: "(i, members) \<in> set sets" "compound_idle_finding (i, members) = Some f"
    using assms(2) fs by (auto simp: set_map_filter)
  have idle: "idle_set par alt running i members" "Some (hd members) \<in> set (current_manager_rows running)"
    using idle_sets_are_idle [OF sets, of "set (current_manager_rows running)"] item(1) by auto
  obtain m subs where m: "members = m # subs" "sr_id m = i" using idle(1) by (auto simp: idle_set_def)
  show ?thesis
  proof (rule that)
    show "m \<in> set (cat_list catalog)" "running_harness m" "sr_binding_role m = ''manager''"
      using current_manager_is_manager [of m running] idle(2) m by (auto simp: running_def)
    show "fn_session_id f = Some (sr_id m)" "fn_source_id f = Some (compound_idle_signature (m # subs))"
      "sr_compound_idle_emitted_for m \<noteq> fn_source_id f"
      using item(2) m by (auto simp: compound_idle_finding_def Let_def split: if_splits)
    show "idle_set par alt (filter running_harness (cat_list catalog)) (sr_id m) (m # subs)"
      using idle(1) m by (simp add: running_def)
  qed
qed

text \<open>Reclamation.\<close>

lemma fold_update_keys: "fst ` set (fold (\<lambda>e d. AList.update (g e) v d) xs d) = g ` set xs \<union> fst ` set d"
proof (induction xs arbitrary: d)
  case (Cons x xs)
  then show ?case by (auto simp: dom_update)
qed simp

definition confirmed_gone :: "seat_row list \<Rightarrow> tmux_snapshot \<Rightarrow> string \<Rightarrow> bool" where
  "confirmed_gone rows snapshot i \<longleftrightarrow>
     (case catalog_row rows i of
        Some r \<Rightarrow> sr_status r = ''terminated''
      | None \<Rightarrow> snapshot_ok snapshot \<and> ''ar-'' @ i \<notin> set (tm_names snapshot))"

lemma gone_subjects_set:
  "confirmed_gone_subjects subjects rows snapshot = (a, b, s) \<Longrightarrow>
     i \<in> set (a @ b) \<longleftrightarrow> i \<in> set subjects \<and> confirmed_gone rows snapshot i"
  by (auto simp: confirmed_gone_subjects_def confirmed_gone_def filter_empty_conv Let_def split: if_splits option.splits)

lemma unroutable_seat_aborts_upstream_scan:
  assumes "row \<in> set (cat_list catalog)" "cat_get catalog (sr_id row) = Some row" "running_harness row"
    and "sr_binding_role row \<in> {''worker'', ''curator''}" "sr_binding_ref row = Some d"
    and "par d = Inl (TaskDocumentRefError code)"
  shows "\<exists>e. evaluate_dead_upstream_findings catalog par alt = Inl e"
proof -
  have "state_signal_owner catalog par alt (sr_id row) = Inl (TaskDocumentRefError code)"
    using assms(4,6) by (auto simp: state_signal_owner_factors [OF assms(2,5)] parent_address_def required_parent_def)
  then have "dead_upstream_finding catalog par alt row = Inl (TaskDocumentRefError code)"
    using assms(3,4) by (auto simp: dead_upstream_finding_def)
  then show ?thesis unfolding evaluate_dead_upstream_findings_def by (rule gather_abort [OF assms(1)])
qed

lemma actionable_not_held:
  assumes "redelivery_route_is_actionable catalog par row = Inr True"
  shows "\<not> state_signal_held_on_boundary catalog row" "\<not> row_target_dead catalog row"
  using assms unfolding redelivery_route_is_actionable_def fenced_def
  by (auto elim!: rbind_InrE split: sum.splits if_splits)

text \<open>A state signal has one delivery path: what redelivery may act on, the boundary drain leaves alone.\<close>

lemma state_signal_single_path:
  assumes "redelivery_route_is_actionable catalog par row = Inr True" "boundary_drain_finding catalog row = Inr (Some f)"
  shows "e_messageKind row \<noteq> State_signal"
  using actionable_not_held(1) [OF assms(1)] assms(2)
  by (auto simp: state_signal_held_on_boundary_def boundary_drain_finding_def seat_at_turn_boundary_def
      split: if_splits sum.splits option.splits)

lemma eligible_iff:
  "reclaim_eligible e \<and> (\<exists>i. e_subjectAgentId e = Some i \<and> P i) \<longleftrightarrow>
     e_state e = Pending \<and> e_createdBy e \<in> {''supervisor'', ''agent-notifier''} \<and> e_messageKind e \<in> {Nudge, Escalation}
     \<and> (\<exists>i. e_subjectAgentId e = Some i \<and> P i)"
  by (auto simp: reclaim_eligible_def state_signal_landed_def)

section \<open>Properties\<close>

definition grace_passed :: "seat_directory \<Rightarrow> utc \<Rightarrow> micros \<Rightarrow> inbox_entry \<Rightarrow> bool" where
  "grace_passed catalog now grace row \<longleftrightarrow>
     (\<exists>since age. row_dead_since catalog row = Some since \<and> dt_diff (utc_dt now) since = Inr age \<and> grace \<le> age)"

lemma rebind_finding_cases:
  assumes "\<forall>r\<in>set (cat_list catalog). cat_get catalog (sr_id r) = Some r"
    and "rebind_candidate catalog row" "derive_row_owner catalog par alt row = Inr owner"
  shows "rebind_finding catalog par alt now grace row = Inr (Some f) \<longleftrightarrow>
     (case seat_holder catalog owner of
        Some seat \<Rightarrow> f = row_finding Rebind_due ''replacement-owner'' row
      | None \<Rightarrow> grace_passed catalog now grace row \<and> f = row_finding Rebind_expired ''rebind-grace-expired'' row)"
proof (cases "seat_holder catalog owner")
  case None
  then have "ro_agent_id owner = None" using derive_row_owner_holder [OF assms(3)] by simp
  then show ?thesis
    using assms(2,3) None by (auto simp: rebind_finding_def grace_passed_def rbind_eq_Inr_iff split: option.splits if_splits)
next
  case (Some seat)
  then have "ro_agent_id owner = Some (sr_id seat)" using derive_row_owner_holder [OF assms(3)] by simp
  then show ?thesis
    using assms(2,3) Some holder_is_another [OF assms(1,2) Some] by (auto simp: rebind_finding_def)
qed

text \<open>C31. No message is left with a dead seat. Take a catalog whose rows are found by their ids, and a
  rebind scan that completes. It reports only pending rows, other than a dispatch brief, whose
  addressed session is not running, and whose owner can be derived: as due exactly when that owner's
  seat has a running holder now, who is another session than the addressed one; as expired exactly
  when the seat has no running holder and the grace has passed since the addressed session died.
  Every such row is reported, so a row goes unreported only while its seat is empty and its grace runs.\<close>

theorem rebind_scan_settles_dead_seats:
  assumes run: "evaluate_rebind_findings catalog par alt current now grace = Inr fs"
    and found: "\<forall>r\<in>set (cat_list catalog). cat_get catalog (sr_id r) = Some r"
  shows "(\<forall>f\<in>set fs. \<exists>row\<in>set (dict_values current). \<exists>owner. rebind_candidate catalog row
            \<and> derive_row_owner catalog par alt row = Inr owner \<and> fn_source_id f = Some (e_id row)
            \<and> (case seat_holder catalog owner of
                 Some seat \<Rightarrow> fn_kind f = Rebind_due \<and> sr_status seat = ''running'' \<and> Some (sr_id seat) \<noteq> e_agentId row
               | None \<Rightarrow> fn_kind f = Rebind_expired \<and> grace_passed catalog now grace row))
    \<and> (\<forall>row\<in>set (dict_values current). \<forall>owner. rebind_candidate catalog row \<and> derive_row_owner catalog par alt row = Inr owner
          \<and> (seat_holder catalog owner \<noteq> None \<or> grace_passed catalog now grace row)
          \<longrightarrow> (\<exists>f\<in>set fs. fn_source_id f = Some (e_id row)
                \<and> fn_kind f = (if seat_holder catalog owner = None then Rebind_expired else Rebind_due)))"
proof (intro conjI ballI allI impI)
  fix f assume "f \<in> set fs"
  then obtain row where row: "row \<in> set (dict_values current)" "rebind_finding catalog par alt now grace row = Inr (Some f)"
    using gather_set [OF run [unfolded evaluate_rebind_findings_def]] by blast
  from row(2) obtain owner where owner: "rebind_candidate catalog row" "derive_row_owner catalog par alt row = Inr owner"
    by (auto simp: rebind_finding_def split: if_splits sum.splits)
  have "fn_source_id f = Some (e_id row) \<and> (case seat_holder catalog owner of
       Some seat \<Rightarrow> fn_kind f = Rebind_due \<and> sr_status seat = ''running'' \<and> Some (sr_id seat) \<noteq> e_agentId row
     | None \<Rightarrow> fn_kind f = Rebind_expired \<and> grace_passed catalog now grace row)"
    using row(2) holder_is_another [OF found owner(1)] seat_holder_running
    unfolding rebind_finding_cases [OF found owner] by (auto simp: row_finding_def split: option.splits)
  then show "\<exists>row\<in>set (dict_values current). \<exists>owner. rebind_candidate catalog row
            \<and> derive_row_owner catalog par alt row = Inr owner \<and> fn_source_id f = Some (e_id row)
            \<and> (case seat_holder catalog owner of
                 Some seat \<Rightarrow> fn_kind f = Rebind_due \<and> sr_status seat = ''running'' \<and> Some (sr_id seat) \<noteq> e_agentId row
               | None \<Rightarrow> fn_kind f = Rebind_expired \<and> grace_passed catalog now grace row)"
    using row(1) owner by blast
next
  fix row owner assume row: "row \<in> set (dict_values current)"
    and h: "rebind_candidate catalog row \<and> derive_row_owner catalog par alt row = Inr owner
          \<and> (seat_holder catalog owner \<noteq> None \<or> grace_passed catalog now grace row)"
  then have "\<exists>f. rebind_finding catalog par alt now grace row = Inr (Some f) \<and> fn_source_id f = Some (e_id row)
      \<and> fn_kind f = (if seat_holder catalog owner = None then Rebind_expired else Rebind_due)"
    using rebind_finding_cases [OF found] by (cases "seat_holder catalog owner") (auto simp: row_finding_def)
  then show "\<exists>f\<in>set fs. fn_source_id f = Some (e_id row)
                \<and> fn_kind f = (if seat_holder catalog owner = None then Rebind_expired else Rebind_due)"
    using gather_set [OF run [unfolded evaluate_rebind_findings_def]] row by blast
qed

text \<open>C32. A subordinate without an upstream is reported exactly: in a catalog whose rows are found by
  their ids, a completed scan reports a seat if and only if it is a running harness seat of a worker,
  reviewer, curator or manager, its structural parent address can be derived, and that address has
  neither a running incumbent nor a running heir.\<close>

theorem dead_upstream_exact:
  assumes run: "evaluate_dead_upstream_findings catalog par alt = Inr fs"
    and found: "\<forall>r\<in>set (cat_list catalog). cat_get catalog (sr_id r) = Some r" and row: "row \<in> set (cat_list catalog)"
  shows "(\<exists>f\<in>set fs. fn_session_id f = Some (sr_id row)) \<longleftrightarrow>
     running_harness row \<and> sr_binding_role row \<in> {''worker'', ''reviewer'', ''curator'', ''manager''}
     \<and> (\<exists>document d role. sr_binding_ref row = Some document
          \<and> parent_address par alt document (sr_binding_role row) (sr_parent_ref row, sr_parent_role row) = Inr (Some (d, role))
          \<and> incumbents (cat_list catalog) d role = [] \<and> heirs (cat_list catalog) d role = [])" (is "?rep \<longleftrightarrow> ?run \<and> ?role \<and> ?vacant")
proof -
  have same: "r = row" if "r \<in> set (cat_list catalog)" "sr_id r = sr_id row" for r using found row that by (metis option.inject)
  have rep: "?rep \<longleftrightarrow> (\<exists>f. dead_upstream_finding catalog par alt row = Inr (Some f))"
  proof
    assume ?rep
    then obtain r f where "r \<in> set (cat_list catalog)" "dead_upstream_finding catalog par alt r = Inr (Some f)" "fn_session_id f = Some (sr_id row)"
      using gather_set [OF run [unfolded evaluate_dead_upstream_findings_def]] by blast
    moreover from this have "sr_id r = sr_id row" by (auto simp: dead_upstream_finding_def seat_finding_def split: if_splits sum.splits)
    ultimately show "\<exists>f. dead_upstream_finding catalog par alt row = Inr (Some f)" using same by blast
  next
    assume "\<exists>f. dead_upstream_finding catalog par alt row = Inr (Some f)"
    then obtain f where f: "dead_upstream_finding catalog par alt row = Inr (Some f)" by blast
    then have "fn_session_id f = Some (sr_id row)" by (auto simp: dead_upstream_finding_def seat_finding_def split: if_splits sum.splits)
    then show ?rep using f gather_set [OF run [unfolded evaluate_dead_upstream_findings_def]] row by blast
  qed
  show ?thesis
  proof (cases "?run \<and> ?role")
    case False
    then show ?thesis by (auto simp: rep dead_upstream_finding_def)
  next
    case True
    then have iff: "?rep \<longleftrightarrow> (\<exists>owner. state_signal_owner catalog par alt (sr_id row) = Inr owner \<and> ro_ref owner \<noteq> None \<and> ro_agent_id owner = None)"
      unfolding rep by (auto simp: dead_upstream_finding_def split: sum.splits)
    have get: "cat_get catalog (sr_id row) = Some row" using found row by blast
    show ?thesis
    proof (cases "sr_binding_ref row")
      case None
      then show ?thesis using iff get
        by (simp add: state_signal_owner_def one_hop_owner_def signal_task_document_ref_def no_owner_def)
    next
      case (Some document)
      show ?thesis
        unfolding iff state_signal_owner_factors [OF get Some]
        using True Some vacant_occupant_answers [of catalog] vacant_occupant [of catalog]
        by (fastforce simp: no_owner_def rbind_eq_Inr_iff split: option.splits)
    qed
  qed
qed

text \<open>A compound-idle finding is the whole set at rest: its session is a running manager seat that
  owns at least one running subordinate, the manager and every running harness seat it owns are at a
  turn boundary, and the episode is not the one the manager was last told about.\<close>

lemma compound_idle_is_complete:
  assumes "evaluate_compound_idle_findings catalog par alt = Inr fs" "f \<in> set fs"
  shows "\<exists>m\<in>set (cat_list catalog). running_harness m \<and> sr_binding_role m = ''manager'' \<and> fn_session_id f = Some (sr_id m)
     \<and> sr_turn_state m \<in> {Some ''turn-ended'', Some ''awaiting-input''} \<and> sr_compound_idle_emitted_for m \<noteq> fn_source_id f
     \<and> (\<exists>e\<in>set (cat_list catalog). running_harness e \<and> sr_id e \<noteq> sr_id m \<and> manager_owned_subordinate par alt m e = Inr True)
     \<and> (\<forall>e\<in>set (cat_list catalog). running_harness e \<and> sr_id e \<noteq> sr_id m \<and> manager_owned_subordinate par alt m e = Inr True
          \<longrightarrow> sr_turn_state e \<in> {Some ''turn-ended'', Some ''awaiting-input''})"
proof -
  obtain m subs where m: "m \<in> set (cat_list catalog)" "running_harness m" "sr_binding_role m = ''manager''"
    "fn_session_id f = Some (sr_id m)" "fn_source_id f = Some (compound_idle_signature (m # subs))"
    "sr_compound_idle_emitted_for m \<noteq> fn_source_id f"
    and idle: "idle_set par alt (filter running_harness (cat_list catalog)) (sr_id m) (m # subs)"
    using reported_idle_set [OF assms] by blast
  have subs: "subs \<noteq> []" "set subs = {e \<in> set (cat_list catalog). running_harness e \<and> sr_id e \<noteq> sr_id m \<and> manager_owned_subordinate par alt m e = Inr True}"
    and rest: "\<forall>x\<in>set (m # subs). sr_turn_state x \<in> {Some ''turn-ended'', Some ''awaiting-input''}"
    using idle by (auto simp: idle_set_def)
  obtain s where s: "s \<in> set subs" using subs(1) by (cases subs) auto
  have owns: "\<exists>e\<in>set (cat_list catalog). running_harness e \<and> sr_id e \<noteq> sr_id m \<and> manager_owned_subordinate par alt m e = Inr True"
    using s subs(2) by blast
  have all: "\<forall>e\<in>set (cat_list catalog). running_harness e \<and> sr_id e \<noteq> sr_id m \<and> manager_owned_subordinate par alt m e = Inr True
          \<longrightarrow> sr_turn_state e \<in> {Some ''turn-ended'', Some ''awaiting-input''}"
    using rest unfolding set_simps subs(2) by blast
  have turn: "sr_turn_state m \<in> {Some ''turn-ended'', Some ''awaiting-input''}" using rest by simp
  show ?thesis by (rule bexI [OF _ m(1)]) (intro conjI m(2-4) turn m(6) owns all)
qed

text \<open>An alert is resolved only on positive evidence: the plan resolves exactly the pending nudges
  and escalations that the notifier itself wrote, whose subject session the catalog lists as
  terminated, or which neither the catalog nor a successful listing of the terminals knows. A failed
  listing is not evidence.\<close>

lemma reclamation_needs_positive_evidence:
  "i \<in> fst ` set (rp_resolve_reasons (plan_confirmed_gone_reclamation current rows snapshot)) \<longleftrightarrow>
     (\<exists>entry\<in>set (dict_values current). e_id entry = i \<and> e_state entry = Pending
        \<and> e_createdBy entry \<in> {''supervisor'', ''agent-notifier''} \<and> e_messageKind entry \<in> {Nudge, Escalation}
        \<and> (\<exists>subject. e_subjectAgentId entry = Some subject
             \<and> (case catalog_row rows subject of
                  Some r \<Rightarrow> sr_status r = ''terminated''
                | None \<Rightarrow> tm_evidence snapshot \<noteq> Tmux_command_failed \<and> ''ar-'' @ subject \<notin> set (tm_names snapshot))))"
proof -
  define subjects where "subjects = from_keys (List.map_filter e_subjectAgentId (filter reclaim_eligible (dict_values current)))"
  obtain a b s where gone: "confirmed_gone_subjects subjects rows snapshot = (a, b, s)" by (cases "confirmed_gone_subjects subjects rows snapshot")
  have plan: "fst ` set (rp_resolve_reasons (plan_confirmed_gone_reclamation current rows snapshot)) =
      e_id ` {e \<in> set (dict_values current). reclaim_eligible e \<and> (case e_subjectAgentId e of None \<Rightarrow> False | Some i \<Rightarrow> i \<in> set (a @ b))}"
    unfolding plan_confirmed_gone_reclamation_def Let_def subjects_def [symmetric] gone fst_conv snd_conv
    by (auto simp: fold_update_keys)
  have subject: "i \<in> set (a @ b) \<longleftrightarrow> confirmed_gone rows snapshot i"
    if "e \<in> set (dict_values current)" "reclaim_eligible e" "e_subjectAgentId e = Some i" for e i
  proof -
    have "i \<in> set subjects" using that unfolding subjects_def by (simp add: set_map_filter) blast
    then show ?thesis unfolding gone_subjects_set [OF gone] by simp
  qed
  have each: "reclaim_eligible e \<and> (case e_subjectAgentId e of None \<Rightarrow> False | Some i \<Rightarrow> i \<in> set (a @ b))
      \<longleftrightarrow> reclaim_eligible e \<and> (\<exists>j. e_subjectAgentId e = Some j \<and> confirmed_gone rows snapshot j)"
    if "e \<in> set (dict_values current)" for e
    using subject [OF that] by (cases "e_subjectAgentId e") auto
  have members: "i \<in> e_id ` {e \<in> set (dict_values current). reclaim_eligible e \<and> (case e_subjectAgentId e of None \<Rightarrow> False | Some i \<Rightarrow> i \<in> set (a @ b))}
      \<longleftrightarrow> (\<exists>e\<in>set (dict_values current). e_id e = i \<and> reclaim_eligible e \<and> (\<exists>j. e_subjectAgentId e = Some j \<and> confirmed_gone rows snapshot j))"
    using each by blast
  show ?thesis unfolding plan members eligible_iff confirmed_gone_def snapshot_ok_def ..
qed

text \<open>One seat whose task document cannot be placed aborts the whole evaluation: a running worker
  or curator bound to a document without a readable parent raises out of the scan for dead upstreams,
  whose fence catches only routing errors, so that no finding of any kind is returned, although the
  fence of the state signals passes over that seat alone.\<close>

lemma one_unplaceable_seat_aborts_sweep:
  assumes "row \<in> set (cat_list (nc_catalog ctx))" "cat_get (nc_catalog ctx) (sr_id row) = Some row" "running_harness row"
    and "sr_binding_role row \<in> {''worker'', ''curator''}" "sr_binding_ref row = Some d"
    and "parent (nc_topology ctx) d = Inl (TaskDocumentRefError code)"
  shows "(\<exists>e. evaluate_predicates h ctx now sweep = Inl e)
     \<and> safe_state_signal_finding (nc_catalog ctx) (parent (nc_topology ctx)) (altitude (nc_topology ctx)) row = Inr None"
proof
  show "\<exists>e. evaluate_predicates h ctx now sweep = Inl e"
    unfolding evaluate_predicates_def Let_def
    by (rule rbind_abort_after, rule rbind_abort_after, rule rbind_abort, rule unroutable_seat_aborts_upstream_scan
        [of row "nc_catalog ctx" d "parent (nc_topology ctx)" code, OF assms])
  have "notifier_subject_owner_id (nc_catalog ctx) (parent (nc_topology ctx)) (altitude (nc_topology ctx)) row = Inl (TaskDocumentRefError code)"
    using assms(4-6) by (auto simp: notifier_subject_owner_id_def manager_for_subordinate_def)
  then show "safe_state_signal_finding (nc_catalog ctx) (parent (nc_topology ctx)) (altitude (nc_topology ctx)) row = Inr None"
    by (simp add: safe_state_signal_finding_def state_signal_finding_def fenced_def)
qed

section \<open>Witnesses\<close>

text \<open>A row to a session that is gone, owned by the manager seat of the sample catalog.\<close>

definition stranded_row :: inbox_entry where
  "stranded_row = (case create_operator_inbox_entry
      \<lparr>im_ask = ''ask'', im_response = ''resp'', im_message_kind = Turn_report, im_gate_id = None, im_artifact_path = None,
       im_subject = \<lparr>is_task_document_ref = None, is_seat_role = None, is_agent_id = None\<rparr>\<rparr>
      ''E9'' ''t0''
      \<lparr>ir_address = \<lparr>ia_task_document_ref = None, ia_lifecycle_id = None, ia_agent_id = Some ''gone'', ia_recipient_role = None\<rparr>,
       ir_owner = \<lparr>io_role = Some Manager_role, io_task_document_ref = Some master_ref, io_agent_id = None, io_lifecycle_id = None\<rparr>\<rparr>
      \<lparr>ip_created_by = ''developer'', ip_created_via = In_dashboard, ip_sender_agent_id = None, ip_sender_role = None\<rparr>
      of Inr e \<Rightarrow> e)"

theorem rebind_scan_settles_dead_seats_witness:
  "\<exists>fs. evaluate_rebind_findings sample_directory (parent sample_tree) (altitude sample_tree) [(''E9'', stranded_row)] 0 REBIND_GRACE = Inr fs
     \<and> (\<exists>f\<in>set fs. fn_source_id f = Some ''E9'' \<and> fn_kind f = Rebind_due)"
proof -
  have run: "evaluate_rebind_findings sample_directory (parent sample_tree) (altitude sample_tree) [(''E9'', stranded_row)] 0 REBIND_GRACE
      = Inr [row_finding Rebind_due ''replacement-owner'' stranded_row]" by code_simp
  have found: "\<forall>r\<in>set (cat_list sample_directory). cat_get sample_directory (sr_id r) = Some r"
    by (simp add: sample_directory_def directory_of_def sample_seat_def)
  have ids: "e_id stranded_row = ''E9''" "rebind_candidate sample_directory stranded_row" by code_simp+
  have "case derive_row_owner sample_directory (parent sample_tree) (altitude sample_tree) stranded_row of
      Inr owner \<Rightarrow> seat_holder sample_directory owner \<noteq> None | Inl _ \<Rightarrow> False" by code_simp
  then obtain owner where "derive_row_owner sample_directory (parent sample_tree) (altitude sample_tree) stranded_row = Inr owner"
    "seat_holder sample_directory owner \<noteq> None" by (auto split: sum.splits)
  then show ?thesis
    using rebind_scan_settles_dead_seats [OF run found, THEN conjunct2] ids run by fastforce
qed

theorem dead_upstream_exact_witness:
  "\<exists>fs. evaluate_dead_upstream_findings sample_directory (parent sample_tree) (altitude sample_tree) = Inr fs
     \<and> (\<exists>f\<in>set fs. fn_session_id f = Some ''m'')"
proof -
  have run: "evaluate_dead_upstream_findings sample_directory (parent sample_tree) (altitude sample_tree)
      = Inr [seat_finding Dead_upstream ''structural-owner-missing'' (sample_seat ''m'' ''manager'' master_ref) None]" by code_simp
  have found: "\<forall>r\<in>set (cat_list sample_directory). cat_get sample_directory (sr_id r) = Some r"
    by (simp add: sample_directory_def directory_of_def sample_seat_def)
  have row: "sample_seat ''m'' ''manager'' master_ref \<in> set (cat_list sample_directory)" by (simp add: sample_directory_def directory_of_def)
  have vacant: "incumbents (cat_list sample_directory) sprint_ref ''orchestrator'' = []" "heirs (cat_list sample_directory) sprint_ref ''orchestrator'' = []"
    by code_simp+
  have "parent_address (parent sample_tree) (altitude sample_tree) master_ref ''manager'' (None, None) = Inr (Some (sprint_ref, ''orchestrator''))"
    by (simp add: parent_address_def required_parent_def sample_tree_facts(3))
  then have "\<exists>f\<in>set [seat_finding Dead_upstream ''structural-owner-missing'' (sample_seat ''m'' ''manager'' master_ref) None].
      fn_session_id f = Some (sr_id (sample_seat ''m'' ''manager'' master_ref))"
    unfolding dead_upstream_exact [OF run found row] using vacant by (simp add: sample_seat_def running_harness_def)
  then show ?thesis using run by (auto simp: sample_seat_def)
qed

definition resting_directory :: seat_directory where
  "resting_directory = directory_of (map (\<lambda>r. r\<lparr>sr_turn_state := Some ''turn-ended''\<rparr>)
     [sample_seat ''w'' ''worker'' leaf_ref, sample_seat ''m'' ''manager'' master_ref])"

lemma compound_idle_is_complete_witness:
  "\<exists>fs f. evaluate_compound_idle_findings resting_directory (parent sample_tree) (altitude sample_tree) = Inr fs \<and> f \<in> set fs
     \<and> (\<exists>m\<in>set (cat_list resting_directory). fn_session_id f = Some (sr_id m) \<and> sr_binding_role m = ''manager'')"
proof -
  have "case evaluate_compound_idle_findings resting_directory (parent sample_tree) (altitude sample_tree) of
      Inr fs \<Rightarrow> fs \<noteq> [] | Inl _ \<Rightarrow> False" by code_simp
  then obtain fs where fs: "evaluate_compound_idle_findings resting_directory (parent sample_tree) (altitude sample_tree) = Inr fs" "fs \<noteq> []"
    by (auto split: sum.splits)
  then have "hd fs \<in> set fs" by simp
  then show ?thesis using compound_idle_is_complete [OF fs(1)] fs(1) by blast
qed

definition unplaced_ref :: task_document_ref where
  "unplaced_ref = \<lparr>repository = ''repo'', ref_path = ''m/L9.json''\<rparr>"

definition sample_notifier :: notifier_context where
  "sample_notifier = \<lparr>nc_catalog = directory_of [sample_seat ''x'' ''worker'' unplaced_ref], nc_topology = sample_tree,
     nc_inbox = \<lparr>ib_root = [''observer''], ib_log = None\<rparr>, nc_stale_seat = 120 * second, nc_redeliver_rate_limit = None,
     nc_redeliver_budget = 1, nc_escalation_budget = 250\<rparr>"

lemma one_unplaceable_seat_aborts_sweep_witness:
  "\<forall>h. \<exists>e. evaluate_predicates h sample_notifier 0
     (Some \<lparr>sw_inbox_current = [], sw_redeliver_budget = 1, sw_redeliverable_entries = []\<rparr>) = Inl e"
proof -
  have "parent (nc_topology sample_notifier) unplaced_ref = Inl (TaskDocumentRefError ''task-document-not-found'')" by code_simp
  then show ?thesis
    using one_unplaceable_seat_aborts_sweep [of "sample_seat ''x'' ''worker'' unplaced_ref" sample_notifier unplaced_ref]
    by (simp add: sample_notifier_def directory_of_def sample_seat_def running_harness_def)
qed

end
