(* ===== verification/Task_Review.thy ===== *)
theory Task_Review
  imports Task_Documents
begin

text \<open>
  \<open>worktrees/review_history.py\<close>, the fixed-list review protocol of a task document, and the part of
  \<open>application/task_docs/task_doc_route_review.py\<close> that calls it. The first result of a review
  seals its findings; every later round can only strike findings off, and the rounds are limited
  unless the developer adds some. A payload is a decoded JSON value. The transitions copy the state
  without validating it, as the code does.
\<close>

section \<open>Payloads\<close>

datatype json =
    JNull | JBool bool | JInt int | JFloat string | JStr string | JList "json list" | JObject "(string \<times> json) list"

fun truthy_json :: "json \<Rightarrow> bool" where
  "truthy_json JNull = False"
| "truthy_json (JBool b) = b"
| "truthy_json (JInt n) = (n \<noteq> 0)"
| "truthy_json (JFloat t) = (t \<noteq> ''0.0'' \<and> t \<noteq> ''-0.0'')"
| "truthy_json (JStr s) = (s \<noteq> [])"
| "truthy_json (JList xs) = (xs \<noteq> [])"
| "truthy_json (JObject d) = (d \<noteq> [])"

type_synonym payload = "(string \<times> json) list"

definition MAX_REVIEW_ROUNDS :: int where
  "MAX_REVIEW_ROUNDS = 3"

definition parse_developer_exception :: "json option \<Rightarrow> (string \<times> int) option result" where
  "parse_developer_exception payload =
     (case payload of None \<Rightarrow> Inr None
      | Some p \<Rightarrow>
          if \<not> truthy_json p then Inr None
          else (case p of
            JObject d \<Rightarrow>
              if \<not> set (map fst d) \<subseteq> {''developerApproval'', ''additionalRounds''} then Inl (ReviewHistoryError ''review-admission-invalid'')
              else (case (map_of d ''developerApproval'', map_of d ''additionalRounds'') of
                      (Some answer, Some allowance) \<Rightarrow>
                        (case answer of
                           JStr s \<Rightarrow>
                             if str_strip s = [] then Inl (ReviewHistoryError ''review-admission-invalid'')
                             else (case allowance of
                                     JInt n \<Rightarrow> if n \<le> 0 then Inl (ReviewHistoryError ''review-admission-invalid'')
                                               else Inr (Some (str_strip s, n))
                                   | _ \<Rightarrow> Inl (ReviewHistoryError ''review-admission-invalid''))
                         | _ \<Rightarrow> Inl (ReviewHistoryError ''review-admission-invalid''))
                    | _ \<Rightarrow> Inl (ReviewHistoryError ''review-admission-invalid''))
          | _ \<Rightarrow> Inl (ReviewHistoryError ''review-admission-invalid'')))"

section \<open>Admission\<close>

definition first_round :: review_state where
  "first_round = \<lparr>rs_round = 1, rs_pending = True, rs_baselineFindings = [], rs_remainingFindingIds = [],
     rs_developerApproval = None, rs_additionalRounds = 0\<rparr>"

definition begin_task_review :: "task_document \<Rightarrow> json option \<Rightarrow> task_document result" where
  "begin_task_review document payload =
     rbind (parse_developer_exception payload) (\<lambda>exc.
       let start = (if exc \<noteq> None then Inl (ReviewHistoryError ''review-admission-invalid'')
                    else Inr (document\<lparr>td_reviewState := Some first_round\<rparr>)) in
       (case td_reviewState document of
          None \<Rightarrow> start
        | Some state \<Rightarrow>
            if rs_round state = 0 then start
            else if rs_pending state then Inr document
            else if MAX_REVIEW_ROUNDS + rs_additionalRounds state \<le> rs_round state
            then (case exc of
                    None \<Rightarrow> Inl (ReviewHistoryError ''review-budget-exhausted'')
                  | Some (answer, allowance) \<Rightarrow>
                      Inr (document\<lparr>td_reviewState := Some (state\<lparr>rs_round := rs_round state + 1, rs_pending := True,
                        rs_developerApproval := Some answer, rs_additionalRounds := rs_additionalRounds state + allowance\<rparr>)\<rparr>))
            else if exc \<noteq> None then Inl (ReviewHistoryError ''review-admission-invalid'')
            else Inr (document\<lparr>td_reviewState := Some (state\<lparr>rs_round := rs_round state + 1, rs_pending := True\<rparr>)\<rparr>)))"

section \<open>Results\<close>

text \<open>A verdict that cannot be hashed raises a \<open>TypeError\<close> in the membership test.\<close>

definition validate_publication_fields :: "payload \<Rightarrow> unit result" where
  "validate_publication_fields p =
     (if \<not> set (map fst p) \<subseteq> {''verdict'', ''findings'', ''remainingFindingIds'', ''verdictRef''}
      then Inl (ReviewHistoryError ''review-publication-invalid'')
      else (case map_of p ''verdict'' of
              Some (JStr v) \<Rightarrow> if v \<in> {''pass'', ''pass-with-notes'', ''block''} then Inr ()
                               else Inl (ReviewHistoryError ''review-publication-invalid'')
            | Some (JList _) \<Rightarrow> Inl (TypeError ''unhashable'')
            | Some (JObject _) \<Rightarrow> Inl (TypeError ''unhashable'')
            | _ \<Rightarrow> Inl (ReviewHistoryError ''review-publication-invalid'')))"

definition is_blocking :: "payload \<Rightarrow> bool" where
  "is_blocking p \<longleftrightarrow> map_of p ''verdict'' = Some (JStr ''block'')"

definition require_unique_ids :: "string list \<Rightarrow> unit result" where
  "require_unique_ids ids =
     (if list_ex (\<lambda>i. str_strip i = []) ids \<or> \<not> distinct ids then Inl (ReviewHistoryError ''review-remaining-invalid'') else Inr ())"

text \<open>\<open>ReviewFinding.model_validate\<close> on a decoded value: both fields, no other.\<close>

definition parse_finding :: "json \<Rightarrow> review_finding result" where
  "parse_finding item =
     (case item of
        JObject d \<Rightarrow>
          if \<not> set (map fst d) \<subseteq> {''findingId'', ''description''} then Inl (ValidationError ''extra field'')
          else (case (map_of d ''findingId'', map_of d ''description'') of
                  (Some (JStr i), Some (JStr t)) \<Rightarrow> make_review_finding \<lparr>rf_findingId = i, rf_description = t\<rparr>
                | _ \<Rightarrow> Inl (ValidationError ''findingId and description''))
      | _ \<Rightarrow> Inl (ValidationError ''review finding''))"

definition baseline_findings :: "payload \<Rightarrow> review_finding list result" where
  "baseline_findings p =
     (case map_of p ''findings'' of
        None \<Rightarrow> Inr []
      | Some (JList items) \<Rightarrow>
          (case traverse parse_finding items of Inl _ \<Rightarrow> Inl (ReviewHistoryError ''review-findings-invalid'') | Inr fs \<Rightarrow> Inr fs)
      | Some _ \<Rightarrow> Inl (ReviewHistoryError ''review-findings-invalid''))"

definition record_baseline :: "review_state \<Rightarrow> payload \<Rightarrow> review_state result" where
  "record_baseline state p =
     (if map_of p ''remainingFindingIds'' \<noteq> None then Inl (ReviewHistoryError ''review-remaining-invalid'')
      else rbind (baseline_findings p) (\<lambda>findings.
        let ids = map rf_findingId findings in
        rbind (require_unique_ids ids) (\<lambda>_.
          if ids \<noteq> [] \<and> \<not> is_blocking p then Inl (ReviewHistoryError ''review-unresolved-findings'')
          else Inr (state\<lparr>rs_pending := False, rs_baselineFindings := findings, rs_remainingFindingIds := ids\<rparr>))))"

fun json_string :: "json \<Rightarrow> string option" where
  "json_string (JStr s) = Some s"
| "json_string _ = None"

definition remaining_ids :: "payload \<Rightarrow> string list result" where
  "remaining_ids p =
     (case map_of p ''remainingFindingIds'' of
        Some (JList items) \<Rightarrow>
          if list_all (\<lambda>i. json_string i \<noteq> None) items then Inr (map str_strip (List.map_filter json_string items))
          else Inl (ReviewHistoryError ''review-remaining-invalid'')
      | _ \<Rightarrow> Inl (ReviewHistoryError ''review-remaining-invalid''))"

definition record_successor :: "review_state \<Rightarrow> payload \<Rightarrow> review_state result" where
  "record_successor state p =
     (if (case map_of p ''findings'' of None \<Rightarrow> False | Some v \<Rightarrow> truthy_json v)
      then Inl (ReviewHistoryError ''review-successor-new-findings'')
      else rbind (remaining_ids p) (\<lambda>remaining.
        rbind (require_unique_ids remaining) (\<lambda>_.
          if \<not> set remaining \<subseteq> set (rs_remainingFindingIds state) then Inl (ReviewHistoryError ''review-remaining-invalid'')
          else if \<not> set remaining \<subseteq> set (map rf_findingId (rs_baselineFindings state))
          then Inl (ReviewHistoryError ''review-remaining-invalid'')
          else if remaining \<noteq> [] \<and> \<not> is_blocking p then Inl (ReviewHistoryError ''review-unresolved-findings'')
          else Inr (state\<lparr>rs_pending := False, rs_remainingFindingIds := remaining\<rparr>))))"

definition require_pending_review :: "task_document \<Rightarrow> review_state" where
  "require_pending_review document = (case td_reviewState document of None \<Rightarrow> first_round | Some s \<Rightarrow> s)"

definition record_task_review :: "task_document \<Rightarrow> payload \<Rightarrow> task_document result" where
  "record_task_review document p =
     (let state = (case td_reviewState document of None \<Rightarrow> first_round | Some s \<Rightarrow> s) in
      rbind (validate_publication_fields p) (\<lambda>_.
      rbind (if rs_round state = 1 \<and> rs_baselineFindings state = [] then record_baseline state p else record_successor state p)
        (\<lambda>updated. Inr (document\<lparr>td_reviewState := Some updated\<rparr>))))"

section \<open>The tool\<close>

text \<open>A refused transition is raised as an error of the tool; another exception passes.\<close>

definition as_task_doc_error :: "'a result \<Rightarrow> 'a result" where
  "as_task_doc_error r = (case r of Inl (ReviewHistoryError status) \<Rightarrow> Inl (TaskDocError status) | _ \<Rightarrow> r)"

definition begin_task_review_bound :: "task_document \<Rightarrow> json option \<Rightarrow> task_document result" where
  "begin_task_review_bound doc payload = as_task_doc_error (begin_task_review doc payload)"

definition record_task_review_bound :: "task_document \<Rightarrow> payload option \<Rightarrow> task_document result" where
  "record_task_review_bound doc payload =
     (case payload of None \<Rightarrow> Inl (TaskDocError ''record_review requires a review object'')
      | Some p \<Rightarrow> as_task_doc_error (record_task_review doc p))"

definition state_payload :: "payload \<Rightarrow> payload" where
  "state_payload p = List.map_filter (\<lambda>k. map_option (Pair k) (map_of p k)) [''verdict'', ''verdictRef'', ''findings'', ''remainingFindingIds'']"

definition route_payload :: "payload \<Rightarrow> payload" where
  "route_payload p = filter (\<lambda>(k, _). k \<notin> {''findings'', ''remainingFindingIds''}) p"

text \<open>The review of a route advances the same state; what the review evidence is comes from the
  contract and the git tree. The document is validated as a whole.\<close>

definition with_route_review_state :: "task_document \<Rightarrow> payload \<Rightarrow> route_review \<Rightarrow> task_document result" where
  "with_route_review_state doc p review =
     rbind (as_task_doc_error (record_task_review doc (state_payload p))) (\<lambda>updated.
       (case make_task_document (updated\<lparr>td_routeReview := Some review\<rparr>) of
          Inl _ \<Rightarrow> Inl (TaskDocError ''invalid task document'') | Inr d \<Rightarrow> Inr d))"

definition enforce_route_review_authority :: "string \<Rightarrow> task_document option \<Rightarrow> task_document \<Rightarrow> unit result" where
  "enforce_route_review_authority operation original candidate =
     (if operation = ''create'' \<and> td_routeReview candidate \<noteq> None then Inl (TaskDocError ''create cannot author route-review evidence'')
      else if operation = ''replace'' \<and> td_routeReview candidate \<noteq> Option.bind original td_routeReview
      then Inl (TaskDocError ''replace cannot change route-review evidence'')
      else Inr ())"

section \<open>Runs of a review\<close>

inductive review_step :: "task_document \<Rightarrow> task_document \<Rightarrow> bool" where
  begins: "begin_task_review d payload = Inr d' \<Longrightarrow> review_step d d'"
| records: "record_task_review d p = Inr d' \<Longrightarrow> review_step d d'"

inductive_cases review_stepE: "review_step d d'"

text \<open>What a reached review state satisfies: everything its model validates, except the length of
  the developer's answer, and the limit of the rounds.\<close>

definition review_ok :: "review_state \<Rightarrow> bool" where
  "review_ok st \<longleftrightarrow> 0 \<le> rs_round st \<and> 0 \<le> rs_additionalRounds st \<and> rs_round st \<le> MAX_REVIEW_ROUNDS + rs_additionalRounds st
     \<and> (\<forall>a. rs_developerApproval st = Some a \<longrightarrow> str_strip a = a \<and> a \<noteq> [])
     \<and> traverse make_review_finding (rs_baselineFindings st) = Inr (rs_baselineFindings st)
     \<and> check_review_state st = Inr st"

lemma review_ok_validates:
  assumes "review_ok st" "\<forall>a. rs_developerApproval st = Some a \<longrightarrow> length a \<le> 8192"
  shows "make_review_state st = Inr st"
proof -
  have "opt_result trim_approval (rs_developerApproval st) = Inr (rs_developerApproval st)"
    using assms by (auto simp: review_ok_def opt_result_def trim_approval_def trim_nonblank_def split: option.splits)
  then show ?thesis using assms(1) by (simp add: make_review_state_def review_ok_def)
qed

lemma check_review_state_iff:
  "check_review_state st = Inr st' \<longleftrightarrow> st' = st
     \<and> distinct (map rf_findingId (rs_baselineFindings st)) \<and> distinct (rs_remainingFindingIds st)
     \<and> set (rs_remainingFindingIds st) \<subseteq> set (map rf_findingId (rs_baselineFindings st))
     \<and> (rs_additionalRounds st = 0 \<longleftrightarrow> rs_developerApproval st = None)
     \<and> (rs_round st = 0 \<longrightarrow> \<not> rs_pending st \<and> rs_baselineFindings st = [] \<and> rs_remainingFindingIds st = []
          \<and> rs_developerApproval st = None \<and> rs_additionalRounds st = 0)"
  by (auto simp: check_review_state_def Let_def)

lemma first_round_ok: "review_ok first_round"
  by (simp add: review_ok_def first_round_def check_review_state_def MAX_REVIEW_ROUNDS_def)

lemma parsed_exception:
  assumes "parse_developer_exception payload = Inr (Some (answer, n))"
  shows "0 < n" "str_strip answer = answer" "answer \<noteq> []"
  using assms unfolding parse_developer_exception_def
  by (auto simp: str_strip_idem split: option.splits if_splits json.splits)

lemma begin_cases:
  assumes "begin_task_review d payload = Inr d'"
  obtains "d' = d"
  | "td_reviewState d = None \<or> (\<exists>st. td_reviewState d = Some st \<and> rs_round st = 0)" "td_reviewState d' = Some first_round"
  | st where "td_reviewState d = Some st" "rs_round st \<noteq> 0" "rs_round st < MAX_REVIEW_ROUNDS + rs_additionalRounds st"
      "td_reviewState d' = Some (st\<lparr>rs_round := rs_round st + 1, rs_pending := True\<rparr>)"
  | st answer n where "td_reviewState d = Some st" "rs_round st \<noteq> 0" "MAX_REVIEW_ROUNDS + rs_additionalRounds st \<le> rs_round st"
      "0 < n" "str_strip answer = answer" "answer \<noteq> []"
      "td_reviewState d' = Some (st\<lparr>rs_round := rs_round st + 1, rs_pending := True, rs_developerApproval := Some answer,
         rs_additionalRounds := rs_additionalRounds st + n\<rparr>)"
proof -
  obtain exc where exc: "parse_developer_exception payload = Inr exc"
    using assms by (auto simp: begin_task_review_def elim: rbind_InrE)
  show ?thesis
  proof (cases "\<exists>st. td_reviewState d = Some st \<and> rs_round st \<noteq> 0")
    case True
    then obtain st where st: "td_reviewState d = Some st" "rs_round st \<noteq> 0" by blast
    consider "rs_pending st" | "\<not> rs_pending st" "MAX_REVIEW_ROUNDS + rs_additionalRounds st \<le> rs_round st"
      | "\<not> rs_pending st" "\<not> MAX_REVIEW_ROUNDS + rs_additionalRounds st \<le> rs_round st" by blast
    then show ?thesis
    proof cases
      case 1
      then show ?thesis using that(1) assms st exc by (simp add: begin_task_review_def)
    next
      case 2
      then obtain answer n where "exc = Some (answer, n)" using assms st exc by (cases exc) (auto simp: begin_task_review_def)
      then show ?thesis using that(4) [OF st 2(2)] parsed_exception [of payload answer n] assms st exc 2
        by (auto simp: begin_task_review_def)
    next
      case 3
      then show ?thesis using that(3) [OF st] assms st exc by (auto simp: begin_task_review_def split: if_splits)
    qed
  next
    case False
    then have none: "td_reviewState d = None \<or> (\<exists>st. td_reviewState d = Some st \<and> rs_round st = 0)" by (cases "td_reviewState d") auto
    then have "td_reviewState d' = Some first_round"
      using assms exc by (auto simp: begin_task_review_def split: if_splits)
    then show ?thesis using that(2) none by blast
  qed
qed

lemma begin_keeps_ok:
  assumes "begin_task_review d payload = Inr d'" "\<forall>st. td_reviewState d = Some st \<longrightarrow> review_ok st"
  shows "\<forall>st. td_reviewState d' = Some st \<longrightarrow> review_ok st"
  using assms(1)
proof (cases rule: begin_cases)
  case (3 st)
  then show ?thesis using assms(2) by (auto simp: review_ok_def check_review_state_iff)
next
  case (4 st answer n)
  then show ?thesis using assms(2) by (auto simp: review_ok_def check_review_state_iff)
qed (use assms(2) first_round_ok in auto)

lemma parse_finding_stable: "parse_finding item = Inr f \<Longrightarrow> make_review_finding f = Inr f"
  unfolding parse_finding_def by (auto split: json.splits option.splits if_splits intro: findings.stable)

lemma parse_findings_stable: "traverse parse_finding items = Inr fs \<Longrightarrow> traverse make_review_finding fs = Inr fs"
  by (induction items arbitrary: fs) (auto elim!: rbind_InrE dest: parse_finding_stable)

lemma baseline_findings_stable: "baseline_findings p = Inr fs \<Longrightarrow> traverse make_review_finding fs = Inr fs"
  unfolding baseline_findings_def by (auto split: option.splits json.splits sum.splits dest: parse_findings_stable)

lemma require_unique_ids_Inr: "require_unique_ids ids = Inr u \<Longrightarrow> distinct ids"
  by (auto simp: require_unique_ids_def split: if_splits)

lemma record_cases:
  assumes "record_task_review d p = Inr d'" "require_pending_review d = st"
  obtains findings where "rs_round st = 1" "rs_baselineFindings st = []"
      "traverse make_review_finding findings = Inr findings" "distinct (map rf_findingId findings)"
      "td_reviewState d' = Some (st\<lparr>rs_pending := False, rs_baselineFindings := findings, rs_remainingFindingIds := map rf_findingId findings\<rparr>)"
  | remaining where "\<not> (rs_round st = 1 \<and> rs_baselineFindings st = [])" "distinct remaining"
      "set remaining \<subseteq> set (rs_remainingFindingIds st)"
      "td_reviewState d' = Some (st\<lparr>rs_pending := False, rs_remainingFindingIds := remaining\<rparr>)"
proof -
  obtain updated where updated: "td_reviewState d' = Some updated"
    "(if rs_round st = 1 \<and> rs_baselineFindings st = [] then record_baseline st p else record_successor st p) = Inr updated"
    using assms by (auto simp: record_task_review_def require_pending_review_def elim!: rbind_InrE)
  show ?thesis
  proof (cases "rs_round st = 1 \<and> rs_baselineFindings st = []")
    case True
    then have run: "record_baseline st p = Inr updated" using updated(2) by simp
    from run obtain findings where f: "baseline_findings p = Inr findings" "distinct (map rf_findingId findings)"
      "updated = st\<lparr>rs_pending := False, rs_baselineFindings := findings, rs_remainingFindingIds := map rf_findingId findings\<rparr>"
      unfolding record_baseline_def Let_def
      by (auto elim!: rbind_InrE split: if_splits dest!: require_unique_ids_Inr)
    show ?thesis using that(1) [OF _ _ baseline_findings_stable [OF f(1)] f(2)] True updated(1) f(3) by simp
  next
    case False
    then have run: "record_successor st p = Inr updated" using updated(2) by (simp split: if_splits)
    from run obtain remaining where r: "distinct remaining" "set remaining \<subseteq> set (rs_remainingFindingIds st)"
      "updated = st\<lparr>rs_pending := False, rs_remainingFindingIds := remaining\<rparr>"
      unfolding record_successor_def
      by (auto elim!: rbind_InrE split: if_splits dest!: require_unique_ids_Inr)
    show ?thesis by (rule that(2) [OF False r(1,2)]) (simp add: updated(1) r(3))
  qed
qed

lemma pending_ok: "\<forall>st. td_reviewState d = Some st \<longrightarrow> review_ok st \<Longrightarrow> review_ok (require_pending_review d)"
  by (cases "td_reviewState d") (auto simp: require_pending_review_def first_round_ok)

lemma record_keeps_ok:
  assumes "record_task_review d p = Inr d'" "\<forall>st. td_reviewState d = Some st \<longrightarrow> review_ok st"
  shows "\<forall>st. td_reviewState d' = Some st \<longrightarrow> review_ok st"
  using assms(1) refl
proof (cases rule: record_cases)
  case (1 findings)
  then show ?thesis using pending_ok [OF assms(2)] by (auto simp: review_ok_def check_review_state_iff)
next
  case (2 remaining)
  then show ?thesis using pending_ok [OF assms(2)] by (auto simp: review_ok_def check_review_state_iff)
qed

lemma review_step_keeps_ok:
  "review_step d d' \<Longrightarrow> \<forall>st. td_reviewState d = Some st \<longrightarrow> review_ok st \<Longrightarrow> \<forall>st. td_reviewState d' = Some st \<longrightarrow> review_ok st"
  by (elim review_stepE) (blast intro: begin_keeps_ok [rule_format] record_keeps_ok [rule_format])+

lemma review_run_keeps_ok:
  "review_step\<^sup>*\<^sup>* d d' \<Longrightarrow> \<forall>st. td_reviewState d = Some st \<longrightarrow> review_ok st \<Longrightarrow> \<forall>st. td_reviewState d' = Some st \<longrightarrow> review_ok st"
  by (induction rule: rtranclp_induct) (blast dest: review_step_keeps_ok)+

text \<open>A sealed baseline.\<close>

definition sealed :: "review_finding list \<Rightarrow> int \<Rightarrow> string set \<Rightarrow> task_document \<Rightarrow> bool" where
  "sealed baseline r ids d \<longleftrightarrow> (\<exists>st. td_reviewState d = Some st \<and> rs_baselineFindings st = baseline
     \<and> r \<le> rs_round st \<and> set (rs_remainingFindingIds st) \<subseteq> ids)"

lemma review_step_keeps_sealed:
  assumes "review_step d d'" "sealed baseline r ids d" "baseline \<noteq> []" "0 < r"
  shows "sealed baseline r ids d'"
proof -
  obtain st where st: "td_reviewState d = Some st" "rs_baselineFindings st = baseline" "r \<le> rs_round st"
    "set (rs_remainingFindingIds st) \<subseteq> ids" using assms(2) by (auto simp: sealed_def)
  from assms(1) show ?thesis
  proof (cases rule: review_step.cases)
    case (begins payload)
    from begins show ?thesis
      by (cases rule: begin_cases) (use st assms(2,4) in \<open>auto simp: sealed_def\<close>)
  next
    case (records p)
    have req: "require_pending_review d = st" using st(1) by (simp add: require_pending_review_def)
    from records req show ?thesis
      by (cases rule: record_cases) (use st assms(3) in \<open>auto simp: sealed_def\<close>)
  qed
qed

lemma review_run_keeps_sealed:
  assumes "review_step\<^sup>*\<^sup>* d d'" "sealed baseline r ids d" "baseline \<noteq> []" "0 < r"
  shows "sealed baseline r ids d'"
  using assms by (induction rule: rtranclp_induct) (blast intro: review_step_keeps_sealed)+

section \<open>Properties\<close>

text \<open>C33. A review stays within its budget. Whatever admissions and results follow each other from a
  document without a review, the state they reach has at most three rounds and the rounds the
  developer added, more than three only with a recorded answer of the developer, open findings only
  from its baseline; and it validates, unless that answer is longer than its field.\<close>

theorem review_stays_within_budget:
  assumes "review_step\<^sup>*\<^sup>* d d'" "td_reviewState d = None" "td_reviewState d' = Some st"
  shows "rs_round st \<le> 3 + rs_additionalRounds st \<and> (3 < rs_round st \<longrightarrow> rs_developerApproval st \<noteq> None)
     \<and> set (rs_remainingFindingIds st) \<subseteq> set (map rf_findingId (rs_baselineFindings st))
     \<and> ((\<forall>a. rs_developerApproval st = Some a \<longrightarrow> length a \<le> 8192) \<longrightarrow> make_review_state st = Inr st)"
proof -
  have "review_ok st" using review_run_keeps_ok [OF assms(1)] assms(2,3) by simp
  then show ?thesis using review_ok_validates
    by (auto simp: review_ok_def check_review_state_iff MAX_REVIEW_ROUNDS_def)
qed

text \<open>C34. The first result is sealed. Once a review has findings, no sequence of admissions and results
  adds, removes or rewrites one of them, no finding that was struck off comes back, and the rounds
  only grow.\<close>

theorem sealed_findings_only_resolve:
  assumes "review_step\<^sup>*\<^sup>* d d'" "td_reviewState d = Some st" "rs_baselineFindings st \<noteq> []" "1 \<le> rs_round st"
  shows "\<exists>st'. td_reviewState d' = Some st' \<and> rs_baselineFindings st' = rs_baselineFindings st
     \<and> rs_round st \<le> rs_round st' \<and> set (rs_remainingFindingIds st') \<subseteq> set (rs_remainingFindingIds st)"
proof -
  have "sealed (rs_baselineFindings st) (rs_round st) (set (rs_remainingFindingIds st)) d" using assms(2) by (auto simp: sealed_def)
  from review_run_keeps_sealed [OF assms(1) this assms(3)] assms(4) show ?thesis by (auto simp: sealed_def)
qed

text \<open>A long answer of the developer makes the document unreadable: when the rounds are spent, an
  approval of more than 8192 characters is admitted and stored, and the stored document no longer
  validates.\<close>

lemma long_approval_is_stored_unvalidated:
  assumes "td_reviewState d = Some st" "\<not> rs_pending st" "rs_round st \<noteq> 0" "3 + rs_additionalRounds st \<le> rs_round st"
    and "0 < n" "8192 < length (str_strip answer)"
  shows "\<exists>d'. begin_task_review d (Some (JObject [(''developerApproval'', JStr answer), (''additionalRounds'', JInt n)])) = Inr d'
     \<and> (\<exists>e. make_task_document d' = Inl e)"
proof -
  define payload where "payload = JObject [(''developerApproval'', JStr answer), (''additionalRounds'', JInt n)]"
  have "str_strip answer \<noteq> []" using assms(6) by auto
  then have exc: "parse_developer_exception (Some payload) = Inr (Some (str_strip answer, n))"
    using assms(5) by (simp add: parse_developer_exception_def payload_def)
  define st' where "st' = st\<lparr>rs_round := rs_round st + 1, rs_pending := True, rs_developerApproval := Some (str_strip answer),
    rs_additionalRounds := rs_additionalRounds st + n\<rparr>"
  have run: "begin_task_review d (Some payload) = Inr (d\<lparr>td_reviewState := Some st'\<rparr>)"
    using assms(1-4) exc by (simp add: begin_task_review_def MAX_REVIEW_ROUNDS_def st'_def)
  have "trim_approval (str_strip answer) = Inl (ValueError ''developerApproval length'')"
    using assms(6) by (simp add: trim_approval_def)
  then have "\<exists>e. make_review_state st' = Inl e"
    by (cases "traverse make_review_finding (rs_baselineFindings st')")
      (auto simp: make_review_state_def st'_def opt_result_def)
  then have state: "\<exists>e. opt_result make_review_state (td_reviewState (d\<lparr>td_reviewState := Some st'\<rparr>)) = Inl e"
    by (auto simp: opt_result_def)
  have "\<exists>e. make_task_document (d\<lparr>td_reviewState := Some st'\<rparr>) = Inl e"
  proof (rule ccontr)
    assume "\<nexists>e. make_task_document (d\<lparr>td_reviewState := Some st'\<rparr>) = Inl e"
    then obtain x where "make_task_document (d\<lparr>td_reviewState := Some st'\<rparr>) = Inr x" by (metis obj_sumE)
    then show False using state unfolding make_task_document_def by (elim rbind_InrE) auto
  qed
  then show ?thesis using run payload_def by blast
qed

section \<open>Witnesses\<close>

definition blocking_result :: payload where
  "blocking_result = [(''verdict'', JStr ''block''),
     (''findings'', JList [JObject [(''findingId'', JStr ''F1''), (''description'', JStr ''missing guard'')]])]"

definition clearing_result :: payload where
  "clearing_result = [(''verdict'', JStr ''pass''), (''remainingFindingIds'', JList [])]"

definition blocked_state :: review_state where
  "blocked_state = \<lparr>rs_round = 1, rs_pending = False, rs_baselineFindings = [\<lparr>rf_findingId = ''F1'', rf_description = ''missing guard''\<rparr>],
     rs_remainingFindingIds = [''F1''], rs_developerApproval = None, rs_additionalRounds = 0\<rparr>"

lemma sample_review:
  "begin_task_review ((sample_leaf ''L1'')\<lparr>td_reviewState := None\<rparr>) None = Inr ((sample_leaf ''L1'')\<lparr>td_reviewState := Some first_round\<rparr>)"
  "record_task_review ((sample_leaf ''L1'')\<lparr>td_reviewState := Some first_round\<rparr>) blocking_result
     = Inr ((sample_leaf ''L1'')\<lparr>td_reviewState := Some blocked_state\<rparr>)"
  "record_task_review ((sample_leaf ''L1'')\<lparr>td_reviewState := Some blocked_state\<rparr>) clearing_result
     = Inr ((sample_leaf ''L1'')\<lparr>td_reviewState := Some (blocked_state\<lparr>rs_remainingFindingIds := []\<rparr>)\<rparr>)"
  by code_simp+

theorem review_stays_within_budget_witness:
  "review_step\<^sup>*\<^sup>* ((sample_leaf ''L1'')\<lparr>td_reviewState := None\<rparr>) ((sample_leaf ''L1'')\<lparr>td_reviewState := Some blocked_state\<rparr>)
     \<and> make_review_state blocked_state = Inr blocked_state"
proof -
  have run: "review_step\<^sup>*\<^sup>* ((sample_leaf ''L1'')\<lparr>td_reviewState := None\<rparr>) ((sample_leaf ''L1'')\<lparr>td_reviewState := Some blocked_state\<rparr>)"
    using begins [OF sample_review(1)] records [OF sample_review(2)] by (meson converse_rtranclp_into_rtranclp rtranclp.rtrancl_refl)
  show ?thesis using run review_stays_within_budget [OF run, of blocked_state] by (simp add: blocked_state_def)
qed

theorem sealed_findings_only_resolve_witness:
  "\<exists>st'. td_reviewState ((sample_leaf ''L1'')\<lparr>td_reviewState := Some (blocked_state\<lparr>rs_remainingFindingIds := []\<rparr>)\<rparr>) = Some st'
     \<and> rs_baselineFindings st' = rs_baselineFindings blocked_state"
proof -
  have run: "review_step\<^sup>*\<^sup>* ((sample_leaf ''L1'')\<lparr>td_reviewState := Some blocked_state\<rparr>)
      ((sample_leaf ''L1'')\<lparr>td_reviewState := Some (blocked_state\<lparr>rs_remainingFindingIds := []\<rparr>)\<rparr>)"
    using records [OF sample_review(3)] by blast
  show ?thesis using sealed_findings_only_resolve [OF run, of blocked_state] by (simp add: blocked_state_def)
qed

lemma str_strip_replicate: "\<not> is_space c \<Longrightarrow> str_strip (replicate n c) = replicate n c"
proof -
  assume "\<not> is_space c"
  then have "dropWhile is_space (replicate n c) = replicate n c" by (cases n) auto
  then show ?thesis by (simp add: str_strip_def)
qed

lemma long_approval_is_stored_unvalidated_witness:
  "\<exists>d'. begin_task_review ((sample_leaf ''L1'')\<lparr>td_reviewState := Some (blocked_state\<lparr>rs_round := 3\<rparr>)\<rparr>)
       (Some (JObject [(''developerApproval'', JStr (replicate 8193 CHR ''y'')), (''additionalRounds'', JInt 1)])) = Inr d'
     \<and> (\<exists>e. make_task_document d' = Inl e)"
proof -
  have "\<not> is_space CHR ''y''" by code_simp
  then have "8192 < length (str_strip (replicate 8193 CHR ''y''))" by (simp add: str_strip_replicate)
  from long_approval_is_stored_unvalidated [OF _ _ _ _ _ this, of _ "blocked_state\<lparr>rs_round := 3\<rparr>" 1] show ?thesis
    by (simp add: blocked_state_def)
qed

end
