(* ===== verification/Task_Edits.thy ===== *)
theory Task_Edits
  imports Task_Review Task_Topology
begin

text \<open>
  The edits of one task document: the step plane (\<open>application/task_docs/task_doc_steps.py\<close>), the other
  mutations and the guards of the task tool (\<open>application/task_docs/task_doc_tools.py\<close>), and the row of
  a leaf in its master (\<open>tasks/master_sync.py\<close>). A payload gives its ids by the text that \<open>str(... or "")\<close>
  yields and the values that the schema later checks as JSON; a mutation decodes them where the code
  leaves them to the validation that follows, which refuses with the same error.
\<close>

section \<open>The step plane\<close>

record step_payload =
  sp_id :: string
  sp_parent :: string
  sp_title_text :: string
  sp_title :: "json option"
  sp_status :: "json option"
  sp_note :: "json option"
  sp_reason :: "json option"

definition invalid_document :: "'a result" where
  "invalid_document = Inl (TaskDocError ''invalid task document'')"

definition decode_string :: "json \<Rightarrow> string result" where
  "decode_string v = (case v of JStr s \<Rightarrow> Inr s | _ \<Rightarrow> invalid_document)"

definition decode_optional :: "json \<Rightarrow> string option result" where
  "decode_optional v = (case v of JStr s \<Rightarrow> Inr (Some s) | JNull \<Rightarrow> Inr None | _ \<Rightarrow> invalid_document)"

definition step_status_of :: "string \<Rightarrow> step_status option" where
  "step_status_of s =
     (if s = ''pending'' then Some St_pending else if s = ''inProgress'' then Some St_inProgress
      else if s = ''blocked'' then Some St_blocked else if s = ''done'' then Some St_done else None)"

definition doc_status_of :: "string \<Rightarrow> doc_status option" where
  "doc_status_of s =
     (if s = ''planning'' then Some Ds_planning else if s = ''inProgress'' then Some Ds_inProgress
      else if s = ''Completed'' then Some Ds_Completed else if s = ''abandoned'' then Some Ds_abandoned else None)"

definition decode_status :: "(string \<Rightarrow> 'a option) \<Rightarrow> json \<Rightarrow> 'a result" where
  "decode_status read v = (case v of JStr s \<Rightarrow> (case read s of None \<Rightarrow> invalid_document | Some x \<Rightarrow> Inr x) | _ \<Rightarrow> invalid_document)"

definition step_reason :: "step_payload option \<Rightarrow> string option" where
  "step_reason payload =
     (case payload of None \<Rightarrow> None
      | Some p \<Rightarrow> (case sp_reason p of
                    Some (JStr r) \<Rightarrow> if str_strip r = [] then None else Some (str_strip r)
                  | _ \<Rightarrow> None))"

text \<open>The positions of the entries with an id: counted, never collapsed.\<close>

definition with_id :: "('a \<Rightarrow> string) \<Rightarrow> 'a list \<Rightarrow> string \<Rightarrow> nat list" where
  "with_id key items i = filter (\<lambda>n. key (items ! n) = i) [0..<length items]"

definition one_exact_match :: "nat list \<Rightarrow> nat result" where
  "one_exact_match found =
     (case found of [] \<Rightarrow> Inl (TaskDocError ''not found'') | [n] \<Rightarrow> Inr n | _ \<Rightarrow> Inl (TaskDocError ''ambiguous''))"

definition payload_step_id :: "step_payload \<Rightarrow> string result" where
  "payload_step_id p = (if str_strip (sp_id p) = [] then Inl (TaskDocError ''step.id'') else Inr (str_strip (sp_id p)))"

datatype unit_address = Top nat | Sub nat nat

text \<open>The one addressing rule: a named parent must exist exactly once and selects its substeps.\<close>

definition exact_step_target :: "task_step list \<Rightarrow> step_payload \<Rightarrow> (unit_address \<times> string) result" where
  "exact_step_target steps p =
     rbind (payload_step_id p) (\<lambda>i.
       let parent_id = str_strip (sp_parent p) in
       if parent_id = [] then rbind (one_exact_match (with_id st_id steps i)) (\<lambda>n. Inr (Top n, i))
       else rbind (one_exact_match (with_id st_id steps parent_id)) (\<lambda>n.
            rbind (one_exact_match (with_id ss_id (st_substeps (steps ! n)) i)) (\<lambda>k.
              Inr (Sub n k, parent_id @ ''/'' @ i))))"

definition require_step_payload :: "task_document \<Rightarrow> step_payload option \<Rightarrow> step_payload result" where
  "require_step_payload d step =
     (if td_kind d = Kd_master then Inl (TaskDocError ''not valid for a master'')
      else (case step of None \<Rightarrow> Inl (TaskDocError ''requires a step object'') | Some p \<Rightarrow> Inr p))"

text \<open>What an edit changes in a unit; a step and a substep have these fields alike.\<close>

record unit_edit =
  ue_title :: "string option"
  ue_status :: "step_status option"
  ue_note :: "string option option"
  ue_disposition :: "step_disposition option option"

definition or_old :: "'a option \<Rightarrow> 'a \<Rightarrow> 'a" where
  "or_old v old = (case v of None \<Rightarrow> old | Some x \<Rightarrow> x)"

definition edit_step :: "unit_edit \<Rightarrow> task_step \<Rightarrow> task_step" where
  "edit_step e s = s\<lparr>st_title := or_old (ue_title e) (st_title s), st_status := or_old (ue_status e) (st_status s),
     st_note := or_old (ue_note e) (st_note s), st_disposition := or_old (ue_disposition e) (st_disposition s)\<rparr>"

definition edit_sub_step :: "unit_edit \<Rightarrow> sub_step \<Rightarrow> sub_step" where
  "edit_sub_step e s = s\<lparr>ss_title := or_old (ue_title e) (ss_title s), ss_status := or_old (ue_status e) (ss_status s),
     ss_note := or_old (ue_note e) (ss_note s), ss_disposition := or_old (ue_disposition e) (ss_disposition s)\<rparr>"

fun edit_unit :: "unit_address \<Rightarrow> unit_edit \<Rightarrow> task_step list \<Rightarrow> task_step list" where
  "edit_unit (Top n) e steps = steps[n := edit_step e (steps ! n)]"
| "edit_unit (Sub n k) e steps =
     steps[n := (steps ! n)\<lparr>st_substeps := (st_substeps (steps ! n))[k := edit_sub_step e (st_substeps (steps ! n) ! k)]\<rparr>]"

definition set_step :: "task_document \<Rightarrow> step_payload option \<Rightarrow> task_document result" where
  "set_step d step =
     rbind (require_step_payload d step) (\<lambda>p.
     rbind (exact_step_target (td_steps d) p) (\<lambda>(address, _).
     rbind (opt_result decode_string (sp_title p)) (\<lambda>title.
     rbind (opt_result (decode_status step_status_of) (sp_status p)) (\<lambda>status.
     rbind (opt_result decode_optional (sp_note p)) (\<lambda>note.
       Inr (d\<lparr>td_steps := edit_unit address
         \<lparr>ue_title = title, ue_status = status, ue_note = note, ue_disposition = (if status = None then None else Some None)\<rparr>
         (td_steps d)\<rparr>))))))"

definition new_sub_step :: "string \<Rightarrow> string \<Rightarrow> step_status option \<Rightarrow> string option option \<Rightarrow> sub_step" where
  "new_sub_step i title status note = \<lparr>ss_id = i, ss_title = title, ss_status = or_old status St_pending,
     ss_note = or_old note None, ss_disposition = None\<rparr>"

definition new_step :: "string \<Rightarrow> string \<Rightarrow> step_status option \<Rightarrow> string option option \<Rightarrow> task_step" where
  "new_step i title status note = \<lparr>st_id = i, st_title = title, st_outcome = None, st_status = or_old status St_pending,
     st_note = or_old note None, st_substeps = [], st_disposition = None\<rparr>"

definition add_step :: "task_document \<Rightarrow> step_payload option \<Rightarrow> task_document result" where
  "add_step d step =
     rbind (require_step_payload d step) (\<lambda>p.
     rbind (payload_step_id p) (\<lambda>i.
       let title = str_strip (sp_title_text p); parent_id = str_strip (sp_parent p) in
       if title = [] then Inl (TaskDocError ''step.title'')
       else rbind (if parent_id = [] then Inr None
                   else rbind (one_exact_match (with_id st_id (td_steps d) parent_id)) (\<lambda>n. Inr (Some n))) (\<lambda>holder.
         if (case holder of None \<Rightarrow> with_id st_id (td_steps d) i
             | Some n \<Rightarrow> with_id ss_id (st_substeps (td_steps d ! n)) i) \<noteq> []
         then Inl (TaskDocError ''already exists'')
         else rbind (opt_result (decode_status step_status_of) (sp_status p)) (\<lambda>status.
              rbind (opt_result decode_optional (sp_note p)) (\<lambda>note.
                Inr (case holder of
                       None \<Rightarrow> d\<lparr>td_steps := td_steps d @ [new_step i title status note]\<rparr>
                     | Some n \<Rightarrow> d\<lparr>td_steps := (td_steps d)[n := (td_steps d ! n)\<lparr>st_substeps :=
                         st_substeps (td_steps d ! n) @ [new_sub_step i title status note]\<rparr>]\<rparr>))))))"

definition delete_at :: "nat \<Rightarrow> 'a list \<Rightarrow> 'a list" where
  "delete_at n xs = take n xs @ drop (Suc n) xs"

fun remove_unit :: "unit_address \<Rightarrow> task_step list \<Rightarrow> task_step list" where
  "remove_unit (Top n) steps = delete_at n steps"
| "remove_unit (Sub n k) steps = steps[n := (steps ! n)\<lparr>st_substeps := delete_at k (st_substeps (steps ! n))\<rparr>]"

definition remove_step :: "string \<Rightarrow> task_document \<Rightarrow> step_payload option \<Rightarrow> task_document result" where
  "remove_step now d step =
     rbind (require_step_payload d step) (\<lambda>p.
       case step_reason step of
         None \<Rightarrow> Inl (TaskDocError ''step.reason'')
       | Some reason \<Rightarrow>
           rbind (exact_step_target (td_steps d) p) (\<lambda>(address, qualified).
             Inr (d\<lparr>td_steps := remove_unit address (td_steps d),
               td_decisions := td_decisions d @ [\<lparr>dc_at = now, dc_decision = ''Removed step '' @ qualified @ ''.'',
                 dc_rationale = reason\<rparr>]\<rparr>)))"

fun unit_status_at :: "unit_address \<Rightarrow> task_step list \<Rightarrow> step_status" where
  "unit_status_at (Top n) steps = st_status (steps ! n)"
| "unit_status_at (Sub n k) steps = ss_status (st_substeps (steps ! n) ! k)"

definition skip_step :: "string \<Rightarrow> string option \<Rightarrow> task_document \<Rightarrow> step_payload option \<Rightarrow> task_document result" where
  "skip_step now lifecycle_id d step =
     rbind (require_step_payload d step) (\<lambda>p.
       case step_reason step of
         None \<Rightarrow> Inl (TaskDocError ''step.reason'')
       | Some reason \<Rightarrow>
           rbind (exact_step_target (td_steps d) p) (\<lambda>(address, qualified).
             if unit_status_at address (td_steps d) = St_done then Inl (TaskDocError ''already done'')
             else Inr (d\<lparr>td_steps := edit_unit address
                 \<lparr>ue_title = None, ue_status = Some St_done, ue_note = None,
                  ue_disposition = Some (Some \<lparr>sd_reason = reason, sd_recordedAt = now, sd_lifecycleId = lifecycle_id\<rparr>)\<rparr> (td_steps d),
               td_decisions := td_decisions d @ [\<lparr>dc_at = now, dc_decision = ''Intentionally skip step '' @ qualified @ ''.'',
                 dc_rationale = reason\<rparr>]\<rparr>)))"

section \<open>The other mutations\<close>

record row_payload =
  rw_number :: json
  rw_number_text :: string
  rw_name :: "json option"
  rw_file :: "json option"
  rw_status :: "json option"
  rw_scope :: "json option"

record section_payload =
  se_heading :: json
  se_kind :: "json option"
  se_body :: "json option"

definition section_kind_of :: "string \<Rightarrow> section_kind option" where
  "section_kind_of s =
     (if s = ''freeform'' then Some Sec_freeform else if s = ''subTasks'' then Some Sec_subTasks
      else if s = ''sharedDecisions'' then Some Sec_sharedDecisions else None)"

definition nature_of :: "string \<Rightarrow> execution_nature option" where
  "nature_of s = (if s = ''organizational'' then Some Organizational else if s = ''atomic'' then Some Atomic else None)"

text \<open>The first row or section with a given text key: a payload key that is no string matches none.\<close>

definition first_with_key :: "('a \<Rightarrow> string) \<Rightarrow> 'a list \<Rightarrow> json \<Rightarrow> nat option" where
  "first_with_key key items v = find (\<lambda>n. JStr (key (items ! n)) = v) [0..<length items]"

definition upsert_subtask :: "task_document \<Rightarrow> row_payload \<Rightarrow> task_document result" where
  "upsert_subtask d p =
     (if \<not> truthy_json (rw_number p) then Inl (TaskDocError ''subtask.number'')
      else rbind (opt_result decode_string (rw_name p)) (\<lambda>name.
           rbind (opt_result decode_string (rw_file p)) (\<lambda>file.
           rbind (opt_result (decode_status doc_status_of) (rw_status p)) (\<lambda>status.
           rbind (opt_result decode_string (rw_scope p)) (\<lambda>scope.
             Inr (case first_with_key row_number (td_subTasks d) (rw_number p) of
                    None \<Rightarrow> d\<lparr>td_subTasks := td_subTasks d @ [\<lparr>row_number = rw_number_text p, row_name = or_old name (rw_number_text p),
                        row_file = or_old file [], row_status = or_old status Ds_planning, row_scope = or_old scope [],
                        row_masterRef = None\<rparr>]\<rparr>
                  | Some n \<Rightarrow>
                      let row = td_subTasks d ! n in
                      d\<lparr>td_subTasks := (td_subTasks d)[n := row\<lparr>row_name := or_old name (row_name row), row_file := or_old file (row_file row),
                        row_status := or_old status (row_status row), row_scope := or_old scope (row_scope row)\<rparr>]\<rparr>))))))"

definition set_subtask :: "task_document \<Rightarrow> row_payload option \<Rightarrow> task_document result" where
  "set_subtask d p =
     (if td_kind d \<noteq> Kd_master then Inl (TaskDocError ''set_subtask is only valid for a master'')
      else (case p of None \<Rightarrow> Inl (TaskDocError ''subtask object'') | Some row \<Rightarrow> upsert_subtask d row))"

definition upsert_section :: "task_document \<Rightarrow> section_payload \<Rightarrow> task_document result" where
  "upsert_section d p =
     (if \<not> truthy_json (se_heading p) then Inl (TaskDocError ''section.heading'')
      else rbind (decode_string (se_heading p)) (\<lambda>heading.
           rbind (opt_result (decode_status section_kind_of) (se_kind p)) (\<lambda>kind.
           rbind (opt_result decode_string (se_body p)) (\<lambda>body.
             Inr (case first_with_key sec_heading (td_sections d) (se_heading p) of
                    None \<Rightarrow> d\<lparr>td_sections := td_sections d @ [\<lparr>sec_kind = or_old kind Sec_freeform, sec_heading = heading,
                        sec_body = or_old body []\<rparr>]\<rparr>
                  | Some n \<Rightarrow>
                      let sec = td_sections d ! n in
                      d\<lparr>td_sections := (td_sections d)[n := sec\<lparr>sec_kind := or_old kind (sec_kind sec),
                        sec_body := or_old body (sec_body sec)\<rparr>]\<rparr>)))))"

definition set_section :: "task_document \<Rightarrow> section_payload option \<Rightarrow> task_document result" where
  "set_section d p = (case p of None \<Rightarrow> Inl (TaskDocError ''section object'') | Some sec \<Rightarrow> upsert_section d sec)"

definition append_decision :: "task_document \<Rightarrow> payload \<Rightarrow> task_document result" where
  "append_decision d p =
     (if p = [] then Inl (TaskDocError ''decision object'')
      else if \<not> set (map fst p) \<subseteq> {''at'', ''decision'', ''rationale''} then invalid_document
      else (case (map_of p ''at'', map_of p ''decision'', map_of p ''rationale'') of
              (Some (JStr at), Some (JStr t), Some (JStr r)) \<Rightarrow>
                Inr (d\<lparr>td_decisions := td_decisions d @ [\<lparr>dc_at = at, dc_decision = t, dc_rationale = r\<rparr>]\<rparr>)
            | _ \<Rightarrow> invalid_document))"

definition set_status :: "task_document \<Rightarrow> payload \<Rightarrow> task_document result" where
  "set_status d ups =
     (case map_of ups ''status'' of
        None \<Rightarrow> Inl (TaskDocError ''fields.status'')
      | Some JNull \<Rightarrow> Inl (TaskDocError ''fields.status'')
      | Some v \<Rightarrow> rbind (decode_status doc_status_of v) (\<lambda>status. Inr (d\<lparr>td_status := status\<rparr>)))"

definition MUTABLE_FIELDS :: "string list" where
  "MUTABLE_FIELDS = [''title'', ''type'', ''status'', ''objective'', ''design'', ''requirements'', ''openQuestions'', ''references'',
     ''lifecycleId'', ''master'', ''codeExamplesNote'', ''statusNote'', ''orchestrates'', ''integrationBranch'',
     ''executionNature'', ''executionGraph'']"

definition decode_strings :: "json \<Rightarrow> string list result" where
  "decode_strings v = (case v of JList items \<Rightarrow> traverse decode_string items | _ \<Rightarrow> invalid_document)"

definition decode_nature :: "json \<Rightarrow> execution_nature option result" where
  "decode_nature v = (if v = JNull then Inr None else rbind (decode_status nature_of v) (\<lambda>n. Inr (Some n)))"

text \<open>How pydantic reads a graph from its JSON is an argument. The fields that the model leaves out
  do not change it.\<close>

definition update_field ::
  "(json \<Rightarrow> execution_graph option result) \<Rightarrow> task_document \<Rightarrow> string \<times> json \<Rightarrow> task_document result" where
  "update_field decode_graph d item =
     (let key = fst item; v = snd item in
      if key = ''title'' then rbind (decode_string v) (\<lambda>x. Inr (d\<lparr>td_title := x\<rparr>))
      else if key = ''status'' then rbind (decode_status doc_status_of v) (\<lambda>x. Inr (d\<lparr>td_status := x\<rparr>))
      else if key = ''lifecycleId'' then rbind (decode_optional v) (\<lambda>x. Inr (d\<lparr>td_lifecycleId := x\<rparr>))
      else if key = ''master'' then rbind (decode_optional v) (\<lambda>x. Inr (d\<lparr>td_master := x\<rparr>))
      else if key = ''codeExamplesNote'' then rbind (decode_optional v) (\<lambda>x. Inr (d\<lparr>td_codeExamplesNote := x\<rparr>))
      else if key = ''integrationBranch'' then rbind (decode_optional v) (\<lambda>x. Inr (d\<lparr>td_integrationBranch := x\<rparr>))
      else if key = ''orchestrates'' then rbind (decode_strings v) (\<lambda>x. Inr (d\<lparr>td_orchestrates := x\<rparr>))
      else if key = ''executionNature'' then rbind (decode_nature v) (\<lambda>x. Inr (d\<lparr>td_executionNature := x\<rparr>))
      else if key = ''executionGraph'' then rbind (decode_graph v) (\<lambda>x. Inr (d\<lparr>td_executionGraph := x\<rparr>))
      else Inr d)"

fun update_fields ::
  "(json \<Rightarrow> execution_graph option result) \<Rightarrow> task_document \<Rightarrow> payload \<Rightarrow> task_document result" where
  "update_fields decode_graph d [] = Inr d"
| "update_fields decode_graph d (item # items) =
     rbind (update_field decode_graph d item) (\<lambda>d'. update_fields decode_graph d' items)"

definition set_field :: "(json \<Rightarrow> execution_graph option result) \<Rightarrow> task_document \<Rightarrow> payload \<Rightarrow> task_document result" where
  "set_field decode_graph d ups =
     (let updates = filter (\<lambda>(key, _). key \<in> set MUTABLE_FIELDS) ups in
      if updates = [] then Inl (TaskDocError ''mutable field'') else update_fields decode_graph d updates)"

section \<open>Guards\<close>

text \<open>The dispositions of a document by unit, compared as sorted lists of their JSON texts, which is
  the comparison of multisets.\<close>

definition disposition_entries :: "task_document \<Rightarrow> (string \<times> step_disposition) list" where
  "disposition_entries d = concat (map (\<lambda>s.
     (case st_disposition s of None \<Rightarrow> [] | Some x \<Rightarrow> [(st_id s, x)])
     @ List.map_filter (\<lambda>u. map_option (Pair (st_id s @ ''/'' @ ss_id u)) (ss_disposition u)) (st_substeps s)) (td_steps d))"

definition enforce_disposition_authority :: "string \<Rightarrow> task_document option \<Rightarrow> task_document \<Rightarrow> unit result" where
  "enforce_disposition_authority operation original candidate =
     (if operation = ''create'' \<and> disposition_entries candidate \<noteq> [] then Inl (TaskDocError ''create cannot author a skip'')
      else if operation = ''replace''
              \<and> (case original of None \<Rightarrow> False
                 | Some old \<Rightarrow> mset (disposition_entries candidate) \<noteq> mset (disposition_entries old))
      then Inl (TaskDocError ''replace cannot change a skip'')
      else Inr ())"

definition step_units :: "task_document \<Rightarrow> (string \<times> string option) list" where
  "step_units d = concat (map (\<lambda>s. (st_id s, None) # map (\<lambda>u. (st_id s, Some (ss_id u))) (st_substeps s)) (td_steps d))"

definition unresolved_step_units :: "task_document \<Rightarrow> (string \<times> string option) list" where
  "unresolved_step_units d = concat (map (\<lambda>s.
     (if st_status s \<noteq> St_done then [(st_id s, None)] else [])
     @ map (\<lambda>u. (st_id s, Some (ss_id u))) (filter (\<lambda>u. ss_status u \<noteq> St_done) (st_substeps s))) (td_steps d))"

definition enforce_replace_preserves_unresolved_units ::
  "string \<Rightarrow> task_document option \<Rightarrow> task_document \<Rightarrow> unit result" where
  "enforce_replace_preserves_unresolved_units operation original candidate =
     (case original of None \<Rightarrow> Inr ()
      | Some old \<Rightarrow>
          if operation \<noteq> ''replace'' \<or> td_kind old = Kd_master then Inr ()
          else if mset (unresolved_step_units old) - mset (step_units candidate) \<noteq> {#}
          then Inl (TaskDocError ''replace cannot remove unresolved units'')
          else Inr ())"

definition enforce_preserves_unresolved_master_rows ::
  "string \<Rightarrow> task_document option \<Rightarrow> task_document \<Rightarrow> unit result" where
  "enforce_preserves_unresolved_master_rows operation original candidate =
     (case original of None \<Rightarrow> Inr ()
      | Some old \<Rightarrow>
          if operation \<notin> {''replace'', ''set_subtask'', ''remove_subtask''} \<or> td_kind old \<noteq> Kd_master then Inr ()
          else if missing_unresolved_master_rows old candidate \<noteq> []
          then Inl (TaskDocError ''unresolved master rows'')
          else Inr ())"

definition enforce_terminal_status :: "string \<Rightarrow> task_document \<Rightarrow> step_payload option \<Rightarrow> unit result" where
  "enforce_terminal_status operation candidate step =
     (if td_status candidate \<noteq> Ds_Completed then Inr ()
      else if operation = ''remove_step'' \<and> step_reason step \<noteq> None then Inr ()
      else if completion_blockers candidate = [] then Inr ()
      else Inl (TaskDocError ''task completion refused''))"

section \<open>One edit\<close>

text \<open>What \<open>_build_doc\<close> makes of the payload of a create or replace is an argument of the edit.\<close>

datatype doc_edit =
    Create task_document
  | Replace task_document
  | Set_status payload
  | Set_field payload
  | Set_step "step_payload option"
  | Add_step "step_payload option"
  | Remove_step "step_payload option"
  | Skip_step "step_payload option"
  | Set_subtask "row_payload option"
  | Set_section "section_payload option"
  | Append_decision payload
  | Begin_review "json option"
  | Record_review "payload option"

fun operation_name :: "doc_edit \<Rightarrow> string" where
  "operation_name (Create _) = ''create''"
| "operation_name (Replace _) = ''replace''"
| "operation_name (Set_status _) = ''set_status''"
| "operation_name (Set_field _) = ''set_field''"
| "operation_name (Set_step _) = ''set_step''"
| "operation_name (Add_step _) = ''add_step''"
| "operation_name (Remove_step _) = ''remove_step''"
| "operation_name (Skip_step _) = ''skip_step''"
| "operation_name (Set_subtask _) = ''set_subtask''"
| "operation_name (Set_section _) = ''set_section''"
| "operation_name (Append_decision _) = ''append_decision''"
| "operation_name (Begin_review _) = ''begin_review''"
| "operation_name (Record_review _) = ''record_review''"

fun edit_step_payload :: "doc_edit \<Rightarrow> step_payload option" where
  "edit_step_payload (Set_step p) = p"
| "edit_step_payload (Add_step p) = p"
| "edit_step_payload (Remove_step p) = p"
| "edit_step_payload (Skip_step p) = p"
| "edit_step_payload _ = None"

definition validated_document :: "task_document \<Rightarrow> task_document result" where
  "validated_document d = (case make_task_document d of Inl _ \<Rightarrow> invalid_document | Inr d' \<Rightarrow> Inr d')"

definition doc_stem :: "task_document \<Rightarrow> string" where
  "doc_stem d = (if td_kind d = Kd_subTask then td_slug d else ''task'')"

record edit_context =
  ec_now :: string
  ec_lifecycle :: "string option"
  ec_decode_graph :: "json \<Rightarrow> execution_graph option result"
  ec_other_guards :: "string \<Rightarrow> task_document option \<Rightarrow> task_document \<Rightarrow> unit result"

fun mutate :: "edit_context \<Rightarrow> task_document \<Rightarrow> doc_edit \<Rightarrow> task_document result" where
  "mutate c d (Set_status ups) = set_status d ups"
| "mutate c d (Set_field ups) = set_field (ec_decode_graph c) d ups"
| "mutate c d (Set_step p) = set_step d p"
| "mutate c d (Add_step p) = add_step d p"
| "mutate c d (Remove_step p) = remove_step (ec_now c) d p"
| "mutate c d (Skip_step p) = skip_step (ec_now c) (str_or (ec_lifecycle c) (td_lifecycleId d)) d p"
| "mutate c d (Set_subtask p) = set_subtask d p"
| "mutate c d (Set_section p) = set_section d p"
| "mutate c d (Append_decision p) = append_decision d p"
| "mutate c d _ = Inr d"

definition apply_edit :: "edit_context \<Rightarrow> task_document \<Rightarrow> doc_edit \<Rightarrow> task_document result" where
  "apply_edit c d e = rbind (mutate c d e) validated_document"

text \<open>The edit of a stored document: its original and the candidate, before the guards. Reviews are
  not validated again.\<close>

definition prepare_edit :: "edit_context \<Rightarrow> task_document option \<Rightarrow> doc_edit \<Rightarrow> (task_document option \<times> task_document) result" where
  "prepare_edit c stored e =
     (case e of
        Create d \<Rightarrow>
          rbind (validated_document d) (\<lambda>candidate.
            if stored \<noteq> None then Inl (TaskDocError ''already exists'') else Inr (None, candidate))
      | _ \<Rightarrow>
          (case stored of
             None \<Rightarrow> Inl (TaskDocError ''task document not found'')
           | Some old \<Rightarrow>
               rbind (case e of
                        Replace d \<Rightarrow> rbind (validated_document d) (\<lambda>candidate.
                          if doc_stem candidate \<noteq> doc_stem old then Inl (TaskDocError ''replace cannot change the path'') else Inr candidate)
                      | Begin_review p \<Rightarrow> begin_task_review_bound old p
                      | Record_review p \<Rightarrow> record_task_review_bound old p
                      | _ \<Rightarrow> apply_edit c old e) (\<lambda>candidate. Inr (Some old, candidate))))"

text \<open>The guards in their order; those of the register sections and of the execution topology, which
  only refuse, are an argument.\<close>

definition validate_candidate :: "edit_context \<Rightarrow> doc_edit \<Rightarrow> task_document option \<Rightarrow> task_document \<Rightarrow> unit result" where
  "validate_candidate c e original candidate =
     (let operation = operation_name e in
      rbind (enforce_disposition_authority operation original candidate) (\<lambda>_.
      rbind (enforce_route_review_authority operation original candidate) (\<lambda>_.
      rbind (enforce_replace_preserves_unresolved_units operation original candidate) (\<lambda>_.
      rbind (enforce_preserves_unresolved_master_rows operation original candidate) (\<lambda>_.
      rbind (enforce_terminal_status operation candidate (edit_step_payload e)) (\<lambda>_.
        ec_other_guards c operation original candidate))))))"

definition task_doc_edit :: "edit_context \<Rightarrow> task_document option \<Rightarrow> doc_edit \<Rightarrow> task_document result" where
  "task_doc_edit c stored e =
     rbind (prepare_edit c stored e) (\<lambda>(original, candidate).
     rbind (validate_candidate c e original candidate) (\<lambda>_. Inr candidate))"

text \<open>\<open>remove_subtask\<close> without a disposition: the row goes, and the files it names.\<close>

definition leaf_doc_files :: "path \<Rightarrow> sub_task_ref \<Rightarrow> path list result" where
  "leaf_doc_files task_root row =
     (if row_file row = [] then Inr []
      else (let markdown = path_join task_root (row_file row) in
            rbind (with_suffix markdown ''.json'') (\<lambda>j. Inr [j, markdown])))"

definition remove_subtask :: "path \<Rightarrow> task_document \<Rightarrow> string \<Rightarrow> bool \<Rightarrow> (task_document \<times> path list) result" where
  "remove_subtask task_root d number keep_file =
     (if td_kind d \<noteq> Kd_master then Inl (TaskDocError ''remove_subtask is only valid for a master'')
      else (case find (\<lambda>r. row_number r = number) (td_subTasks d) of
              None \<Rightarrow> Inl (TaskDocError ''subtask not found'')
            | Some row \<Rightarrow>
                rbind (validated_document (d\<lparr>td_subTasks := filter (\<lambda>r. row_number r \<noteq> number) (td_subTasks d)\<rparr>)) (\<lambda>updated.
                rbind (enforce_preserves_unresolved_master_rows ''remove_subtask'' (Some d) updated) (\<lambda>_.
                rbind (enforce_terminal_status ''remove_subtask'' updated None) (\<lambda>_.
                rbind (leaf_doc_files task_root row) (\<lambda>files.
                  Inr (updated, if keep_file then [] else files)))))))"

section \<open>The row of a leaf in its master\<close>

datatype sync_status = Sync_none | Sync_created | Sync_updated | Sync_unchanged

record master_sync_plan =
  ms_status :: sync_status
  ms_master :: "task_document option"
  ms_number :: "string option"

definition json_path_for :: "path \<Rightarrow> task_document \<Rightarrow> path" where
  "json_path_for task_root d = task_root @ posix_parts (doc_stem d @ ''.json'')"

definition markdown_path_for :: "path \<Rightarrow> task_document \<Rightarrow> path" where
  "markdown_path_for task_root d = task_root @ posix_parts (doc_stem d @ ''.md'')"

definition derived_master_status :: "task_document \<Rightarrow> doc_status" where
  "derived_master_status leaf =
     (let statuses = declared_statuses leaf in
      if td_status leaf = Ds_abandoned then Ds_abandoned
      else if statuses \<noteq> [] \<and> completion_blockers leaf = [] then Ds_Completed
      else if list_ex (\<lambda>s. s \<in> {St_done, St_inProgress, St_blocked}) statuses then Ds_inProgress
      else if statuses \<noteq> [] \<and> td_status leaf = Ds_Completed then Ds_inProgress
      else td_status leaf)"

definition subtask_ref_from_leaf :: "path \<Rightarrow> task_document \<Rightarrow> sub_task_ref option \<Rightarrow> sub_task_ref" where
  "subtask_ref_from_leaf task_root leaf existing =
     \<lparr>row_number = td_id leaf, row_name = td_title leaf, row_file = path_name (markdown_path_for task_root leaf),
      row_status = derived_master_status leaf, row_scope = (case existing of None \<Rightarrow> [] | Some r \<Rightarrow> row_scope r),
      row_masterRef = None\<rparr>"

definition demote_completed_master_if_unresolved :: "task_document \<Rightarrow> task_document result" where
  "demote_completed_master_if_unresolved master =
     (if td_kind master \<noteq> Kd_master \<or> td_status master \<noteq> Ds_Completed \<or> completion_blockers master = [] then Inr master
      else make_task_document (master\<lparr>td_status := Ds_inProgress\<rparr>))"

definition json_path_from_master_ref :: "path \<Rightarrow> string \<Rightarrow> path option result" where
  "json_path_from_master_ref task_root ref_text =
     (let parts = posix_parts ref_text in
      rbind (if path_suffix parts \<noteq> [] then with_suffix parts ''.json'' else Inr parts) (\<lambda>json_ref.
        let candidate = resolve_path (if is_absolute ref_text then json_ref else task_root @ json_ref); root = resolve_path task_root in
        Inr (if \<not> is_relative_to candidate root \<or> path_parent candidate \<noteq> root then None else Some candidate)))"

definition master_json_path :: "(path \<Rightarrow> source_state) \<Rightarrow> path \<Rightarrow> task_document \<Rightarrow> path option result" where
  "master_json_path source task_root leaf =
     (case td_master leaf of
        Some m \<Rightarrow> if m \<noteq> [] then json_path_from_master_ref task_root m
                  else Inr (if source (task_root @ [''task.json'']) \<noteq> Absent then Some (task_root @ [''task.json'']) else None)
      | None \<Rightarrow> Inr (if source (task_root @ [''task.json'']) \<noteq> Absent then Some (task_root @ [''task.json'']) else None))"

definition validate_existing_row_path :: "path \<Rightarrow> path \<Rightarrow> task_document \<Rightarrow> sub_task_ref option \<Rightarrow> unit result" where
  "validate_existing_row_path master_path task_root leaf existing =
     (case existing of None \<Rightarrow> Inr ()
      | Some row \<Rightarrow>
          if row_file row = [] then Inr ()
          else if resolve_path (path_join (path_parent master_path) (row_file row)) \<noteq> resolve_path (markdown_path_for task_root leaf)
          then Inl (MasterSyncError ''row path'') else Inr ())"

definition no_sync :: master_sync_plan where
  "no_sync = \<lparr>ms_status = Sync_none, ms_master = None, ms_number = None\<rparr>"

text \<open>The row of a leaf replaced, or appended.\<close>

definition put_row :: "sub_task_ref \<Rightarrow> sub_task_ref list \<Rightarrow> sub_task_ref list" where
  "put_row ref rows =
     (case find (\<lambda>n. row_number (rows ! n) = row_number ref) [0..<length rows] of
        None \<Rightarrow> rows @ [ref] | Some n \<Rightarrow> rows[n := ref])"

text \<open>The master is read through the validation of its source; a plan is what it has to become.\<close>

definition sync_master :: "path \<Rightarrow> path \<Rightarrow> task_document \<Rightarrow> task_document \<Rightarrow> master_sync_plan result" where
  "sync_master master_path task_root leaf master =
     (if td_kind master \<noteq> Kd_master then Inl (MasterSyncError ''parent is not a master'')
      else (let found = filter (\<lambda>r. row_number r = td_id leaf) (td_subTasks master) in
        if 1 < length found then Inl (MasterSyncError ''at most one row'')
        else (let existing = (case found of [] \<Rightarrow> None | r # _ \<Rightarrow> Some r);
                  ref = subtask_ref_from_leaf task_root leaf existing in
          rbind (validate_existing_row_path master_path task_root leaf existing) (\<lambda>_.
            if existing = Some ref
            then Inr \<lparr>ms_status = Sync_unchanged, ms_master = Some master, ms_number = Some (td_id leaf)\<rparr>
            else rbind (make_task_document (master\<lparr>td_subTasks := put_row ref (td_subTasks master)\<rparr>)) (\<lambda>validated.
                 rbind (demote_completed_master_if_unresolved validated) (\<lambda>updated.
                   Inr \<lparr>ms_status = (if existing = None then Sync_created else Sync_updated), ms_master = Some updated,
                        ms_number = Some (td_id leaf)\<rparr>))))))"

definition plan_master_sync :: "(path \<Rightarrow> source_state) \<Rightarrow> path \<Rightarrow> task_document \<Rightarrow> master_sync_plan result" where
  "plan_master_sync source task_root leaf =
     (if td_kind leaf \<noteq> Kd_subTask then Inr no_sync
      else rbind (master_json_path source task_root leaf) (\<lambda>found.
        case found of
          None \<Rightarrow> Inr no_sync
        | Some master_path \<Rightarrow>
            if source master_path = Absent then Inr no_sync
            else (case read_source (source master_path) of
                    Inl _ \<Rightarrow> Inl (MasterSyncError ''cannot read parent'')
                  | Inr master \<Rightarrow> sync_master master_path task_root leaf master)))"

text \<open>The documents one edit publishes: the candidate and, when its row changes, its master.\<close>

definition published_documents ::
  "edit_context \<Rightarrow> (path \<Rightarrow> source_state) \<Rightarrow> path \<Rightarrow> task_document option \<Rightarrow> doc_edit \<Rightarrow> task_document list result" where
  "published_documents c source task_root stored e =
     rbind (task_doc_edit c stored e) (\<lambda>candidate.
       (case plan_master_sync source task_root candidate of
          Inl (MasterSyncError what) \<Rightarrow> Inl (TaskDocError what)
        | Inl err \<Rightarrow> Inl err
        | Inr plan \<Rightarrow> Inr (candidate # (case (ms_status plan, ms_master plan) of
                                       (Sync_created, Some m) \<Rightarrow> [m] | (Sync_updated, Some m) \<Rightarrow> [m] | _ \<Rightarrow> []))))"

end
