(* ===== verification/Task_Store.thy ===== *)
theory Task_Store
  imports Task_Edits Closeout_Queue
begin

text \<open>
  How a task document reaches the disk: \<open>tasks/store.py\<close> (a batch of JSON and markdown files that is
  rolled back when a write fails), the exact comparison of sources of
  \<open>application/task_docs/task_doc_publication.py\<close>, and \<open>worktrees/task_fact_publication.py\<close>, which
  publishes a change of task documents and then invalidates and rebuilds the closeout projections
  that depend on it.
\<close>

section \<open>The disk\<close>

text \<open>A write or an unlink is done, raises without an effect, or raises after its effect (the flush of
  the directory, or an interrupt). The outcomes of the next operations are part of the state; when the
  list ends every operation succeeds. Directories and temporary files are not modelled; a path stands
  for the file it resolves to.\<close>

datatype io_outcome = Io_done | Io_failed py_error | Io_late py_error

record disk =
  dk_files :: "path \<Rightarrow> string option"
  dk_unreadable :: "path \<Rightarrow> bool"
  dk_script :: "io_outcome list"

definition put_file :: "path \<Rightarrow> string option \<Rightarrow> disk \<Rightarrow> disk" where
  "put_file p content d = d\<lparr>dk_files := (dk_files d)(resolve_path p := content)\<rparr>"

definition change_file :: "path \<Rightarrow> string option \<Rightarrow> (disk, unit) act" where
  "change_file p content d =
     (case dk_script d of
        [] \<Rightarrow> (Inr (), put_file p content d)
      | io # rest \<Rightarrow>
          (case io of
             Io_done \<Rightarrow> (Inr (), put_file p content (d\<lparr>dk_script := rest\<rparr>))
           | Io_failed e \<Rightarrow> (Inl e, d\<lparr>dk_script := rest\<rparr>)
           | Io_late e \<Rightarrow> (Inl e, put_file p content (d\<lparr>dk_script := rest\<rparr>))))"

definition atomic_write_text :: "path \<Rightarrow> string \<Rightarrow> (disk, unit) act" where
  "atomic_write_text p text = change_file p (Some text)"

definition unlink :: "path \<Rightarrow> (disk, unit) act" where
  "unlink p = change_file p None"

definition path_exists :: "disk \<Rightarrow> path \<Rightarrow> bool" where
  "path_exists d p \<longleftrightarrow> dk_files d (resolve_path p) \<noteq> None"

text \<open>\<open>path.read_bytes() if path.exists() else None\<close>.\<close>

definition bytes_if_present :: "disk \<Rightarrow> path \<Rightarrow> string option result" where
  "bytes_if_present d p =
     (if path_exists d p \<and> dk_unreadable d (resolve_path p) then Inl (OSError ''read'') else Inr (dk_files d (resolve_path p)))"

definition originals_of :: "disk \<Rightarrow> path list \<Rightarrow> (path \<times> string option) list result" where
  "originals_of d ps = traverse (\<lambda>p. rbind (bytes_if_present d p) (\<lambda>content. Inr (p, content))) ps"

fun each_act :: "('x \<Rightarrow> ('s, unit) act) \<Rightarrow> 'x list \<Rightarrow> ('s, unit) act" where
  "each_act f [] = aread (\<lambda>_. Inr ())"
| "each_act f (x # xs) = abind (f x) (\<lambda>_. each_act f xs)"

section \<open>Batches\<close>

definition restore_task_doc_batch :: "(path \<times> string option) list \<Rightarrow> (disk, unit) act" where
  "restore_task_doc_batch originals = each_act (\<lambda>(p, content). case content of None \<Rightarrow> unlink p | Some text \<Rightarrow> atomic_write_text p text) originals"

text \<open>The \<open>try\<close> of both batches: a failure is raised again once everything touched is restored, and a
  failed restoration raises in its place.\<close>

definition with_rollback :: "(path \<times> string option) list \<Rightarrow> (disk, 'a) act \<Rightarrow> (disk, 'a) act" where
  "with_rollback originals body d =
     (case body d of
        (Inr x, d') \<Rightarrow> (Inr x, d')
      | (Inl e, d') \<Rightarrow>
          (case restore_task_doc_batch originals d' of
             (Inr _, d'') \<Rightarrow> (Inl e, d'')
           | (Inl _, d'') \<Rightarrow> (Inl (RuntimeError ''publication and rollback both failed''), d'')))"

definition require_publishable_task_document :: "task_document \<Rightarrow> unit result" where
  "require_publishable_task_document d =
     (case td_routeReview d of
        None \<Rightarrow> Inr ()
      | Some r \<Rightarrow> if rr_intent r then Inr () else Inl (TaskIntentError ''route-review-task-intent-unavailable''))"

text \<open>The writes of a batch in their order; the JSON text and the rendered markdown of a document are
  an argument.\<close>

type_synonym rendering = "task_document \<Rightarrow> (string \<times> string) result"

fun batch_writes ::
  "rendering \<Rightarrow> path list \<Rightarrow> (path \<times> task_document) list \<Rightarrow> ((path \<times> string) list \<times> (path \<times> path) list) result" where
  "batch_writes render seen [] = Inr ([], [])"
| "batch_writes render seen ((root, doc) # documents) =
     rbind (require_publishable_task_document doc) (\<lambda>_.
       let json = json_path_for root doc; markdown = markdown_path_for root doc in
       if json \<in> set seen \<or> markdown \<in> set seen then Inl (ValueError ''duplicate task document write target'')
       else rbind (render doc) (\<lambda>(payload, text).
            rbind (batch_writes render (json # markdown # seen) documents) (\<lambda>(writes, paths).
              Inr ((json, payload) # (markdown, text) # writes, (json, markdown) # paths))))"

definition write_task_doc_batch :: "rendering \<Rightarrow> (path \<times> task_document) list \<Rightarrow> (disk, (path \<times> path) list) act" where
  "write_task_doc_batch render documents =
     abind (aread (\<lambda>d. rbind (batch_writes render [] documents) (\<lambda>(writes, paths).
                        rbind (originals_of d (map fst writes)) (\<lambda>originals. Inr (writes, paths, originals))))) (\<lambda>(writes, paths, originals).
     abind (with_rollback originals (each_act (\<lambda>(p, text). atomic_write_text p text) writes)) (\<lambda>_.
       aread (\<lambda>_. Inr paths)))"

definition write_task_docs :: "rendering \<Rightarrow> path \<Rightarrow> task_document list \<Rightarrow> (disk, (path \<times> path) list) act" where
  "write_task_docs render root docs = write_task_doc_batch render (map (Pair root) docs)"

fun remove_each :: "path list \<Rightarrow> (disk, path list) act" where
  "remove_each [] = aread (\<lambda>_. Inr [])"
| "remove_each (p # ps) =
     abind (aread (\<lambda>d. Inr (path_exists d p))) (\<lambda>present.
       if present then abind (unlink p) (\<lambda>_. abind (remove_each ps) (\<lambda>deleted. aread (\<lambda>_. Inr (p # deleted))))
       else remove_each ps)"

definition write_task_docs_and_remove ::
  "rendering \<Rightarrow> path \<Rightarrow> task_document list \<Rightarrow> path list \<Rightarrow> (disk, (path \<times> path) list \<times> path list) act" where
  "write_task_docs_and_remove render root docs removals =
     (let write_paths = concat (map (\<lambda>doc. [json_path_for root doc, markdown_path_for root doc]) docs);
          ordered = from_keys (map resolve_path removals) in
      if set write_paths \<inter> set ordered \<noteq> {} then aread (\<lambda>_. Inl (ValueError ''write and removal targets overlap''))
      else abind (aread (\<lambda>d. originals_of d (sort (remdups write_paths) @ ordered))) (\<lambda>originals.
           with_rollback originals
             (abind (write_task_docs render root docs) (\<lambda>written.
              abind (remove_each ordered) (\<lambda>deleted.
                aread (\<lambda>_. Inr (written, deleted)))))))"

section \<open>Exact sources\<close>

record task_doc_source =
  ts_json_path :: path
  ts_json :: "string option"
  ts_markdown_path :: path
  ts_markdown :: "string option"

definition optional_source_bytes :: "disk \<Rightarrow> path \<Rightarrow> string option result" where
  "optional_source_bytes d p =
     (if path_exists d p \<and> dk_unreadable d (resolve_path p) then Inl (TaskDocSourceReadError (path_name p))
      else Inr (dk_files d (resolve_path p)))"

definition capture_task_doc_source :: "disk \<Rightarrow> path \<Rightarrow> task_doc_source result" where
  "capture_task_doc_source d p =
     rbind (with_suffix p ''.md'') (\<lambda>markdown.
     rbind (optional_source_bytes d p) (\<lambda>json.
     rbind (optional_source_bytes d markdown) (\<lambda>text.
       Inr \<lparr>ts_json_path = p, ts_json = json, ts_markdown_path = markdown, ts_markdown = text\<rparr>)))"

definition missing_task_doc_source :: "path \<Rightarrow> task_doc_source result" where
  "missing_task_doc_source p =
     rbind (with_suffix p ''.md'') (\<lambda>markdown.
       Inr \<lparr>ts_json_path = p, ts_json = None, ts_markdown_path = markdown, ts_markdown = None\<rparr>)"

definition current_task_doc_source :: "disk \<Rightarrow> task_doc_source \<Rightarrow> task_doc_source result" where
  "current_task_doc_source d snapshot = capture_task_doc_source d (ts_json_path snapshot)"

definition publication_conflict :: "'a result" where
  "publication_conflict = Inl (TaskDocError ''task-document-publication-conflict'')"

fun require_task_doc_sources_current :: "disk \<Rightarrow> task_doc_source list \<Rightarrow> unit result" where
  "require_task_doc_sources_current d [] = Inr ()"
| "require_task_doc_sources_current d (accepted # rest) =
     (case current_task_doc_source d accepted of
        Inl (TaskDocSourceReadError _) \<Rightarrow> publication_conflict
      | Inl e \<Rightarrow> Inl e
      | Inr current \<Rightarrow> if current \<noteq> accepted then publication_conflict else require_task_doc_sources_current d rest)"

section \<open>Task facts and their projections\<close>

text \<open>The closeout stores by sprint: constructing one may be refused.\<close>

record task_world =
  tw_disk :: disk
  tw_queues :: "task_document_ref \<Rightarrow> queue_store result"

definition on_disk :: "(disk, 'a) act \<Rightarrow> (task_world, 'a) act" where
  "on_disk act w = (case act (tw_disk w) of (r, d) \<Rightarrow> (r, w\<lparr>tw_disk := d\<rparr>))"

definition on_queue :: "task_document_ref \<Rightarrow> (queue_store, 'a) act \<Rightarrow> (task_world, 'a) act" where
  "on_queue ref act w =
     (case tw_queues w ref of
        Inl e \<Rightarrow> (Inl e, w)
      | Inr s \<Rightarrow> (case act s of (r, s') \<Rightarrow> (r, w\<lparr>tw_queues := (tw_queues w)(ref := Inr s')\<rparr>)))"

text \<open>\<open>type(error).__name__\<close>.\<close>

fun class_name :: "py_error \<Rightarrow> string" where
  "class_name (KeyError _) = ''KeyError''"
| "class_name (ValueError _) = ''ValueError''"
| "class_name (TypeError _) = ''TypeError''"
| "class_name (OverflowError _) = ''OverflowError''"
| "class_name (ValidationError _) = ''ValidationError''"
| "class_name (LifecycleError _) = ''LifecycleError''"
| "class_name (GuardedStartError _) = ''GuardedStartError''"
| "class_name (SaveGateRequired _) = ''SaveGateRequired''"
| "class_name (DurableStoreError _) = ''DurableStoreError''"
| "class_name (CompactionOwnerError _) = ''CompactionOwnerError''"
| "class_name (UnsafeLockFilesystemError _) = ''UnsafeLockFilesystemError''"
| "class_name (CheckoutCoordinationError _) = ''CheckoutCoordinationError''"
| "class_name (SeatOccupancyError _) = ''SeatOccupancyError''"
| "class_name (StructuralRoutingError _) = ''StructuralRoutingError''"
| "class_name (CloseoutQueueStoreError _) = ''CloseoutQueueStoreError''"
| "class_name (CloseoutQueueError _) = ''CloseoutQueueError''"
| "class_name (OSError _) = ''OSError''"
| "class_name (AttributeError _) = ''AttributeError''"
| "class_name (RuntimeError _) = ''RuntimeError''"
| "class_name (TaskDocumentRefError _) = ''TaskDocumentRefError''"
| "class_name (TaskDocError _) = ''TaskDocError''"
| "class_name (TaskDocSourceReadError _) = ''TaskDocSourceReadError''"
| "class_name (TaskIntentError _) = ''TaskIntentError''"
| "class_name (TaskDocumentFieldEffectTaxonomyError _) = ''TaskDocumentFieldEffectTaxonomyError''"
| "class_name (TaskDocumentMutationClassificationError _) = ''TaskDocumentMutationClassificationError''"
| "class_name (TaskDocScopeError _) = ''TaskDocScopeError''"
| "class_name (MasterSyncError _) = ''MasterSyncError''"
| "class_name (ReviewHistoryError _) = ''ReviewHistoryError''"
| "class_name (CanonicalLeafBindingError _) = ''CanonicalLeafBindingError''"
| "class_name (TerminalLeafResolutionError _) = ''TerminalLeafResolutionError''"

definition projection_problem :: "queue_store option \<Rightarrow> task_document_ref \<Rightarrow> py_error \<Rightarrow> source_problem result" where
  "projection_problem store ref e =
     make_problem Problem_projection (case store of None \<Rightarrow> ref_key ref | Some s \<Rightarrow> CHR ''/'' # join_with (CHR ''/'') (st_path s))
       Problem_unreadable (class_name e) (Rebuild ref)"

definition failed_receipt ::
  "queue_store option \<Rightarrow> task_document_ref \<Rightarrow> bool \<Rightarrow> nat option \<Rightarrow> string option \<Rightarrow> py_error \<Rightarrow> invalidation_receipt result" where
  "failed_receipt store ref existed revision fingerprint e =
     rbind (projection_problem store ref e) (\<lambda>p.
       Inr \<lparr>rc_queue_existed = existed, rc_prior_revision = revision, rc_prior_source_fingerprint = fingerprint,
            rc_invalidation = \<lparr>ir_outcome = Invalidation_failed, ir_revision = None, ir_diagnostic = Some p\<rparr>\<rparr>)"

text \<open>What was learnt before a step failed stays in the receipt.\<close>

definition invalidate_store :: "host \<Rightarrow> task_document_ref \<Rightarrow> string \<Rightarrow> (queue_store, invalidation_receipt) act" where
  "invalidate_store h ref timestamp s =
     (case queue_exists s of
        Inl e \<Rightarrow> (failed_receipt (Some s) ref True None None e, s)
      | Inr existed \<Rightarrow>
          (case read_raw s timestamp of
             Inl e \<Rightarrow> (failed_receipt (Some s) ref existed None None e, s)
           | Inr prior \<Rightarrow>
               (let revision = (if existed then Some (qs_revision prior) else None); fingerprint = qs_sourceFingerprint prior in
                case invalidate h timestamp s of
                  (Inl e, s') \<Rightarrow> (failed_receipt (Some s) ref existed revision fingerprint e, s')
                | (Inr (_, invalidation), s') \<Rightarrow>
                    (Inr \<lparr>rc_queue_existed = existed, rc_prior_revision = revision, rc_prior_source_fingerprint = fingerprint,
                          rc_invalidation = invalidation\<rparr>, s'))))"

definition invalidate_scope :: "host \<Rightarrow> string \<Rightarrow> task_document_ref \<Rightarrow> (task_world, invalidation_receipt) act" where
  "invalidate_scope h timestamp ref w =
     (case tw_queues w ref of
        Inl e \<Rightarrow> (failed_receipt None ref False None None e, w)
      | Inr _ \<Rightarrow> on_queue ref (invalidate_store h ref timestamp) w)"

definition failure_effect :: "task_document_ref \<Rightarrow> invalidation_receipt \<Rightarrow> rebuild_outcome \<Rightarrow> source_problem \<Rightarrow> projection_effect result" where
  "failure_effect ref receipt outcome diagnostic =
     incomplete_has_action
       \<lparr>ef_sprint = ref, ef_queueExisted = rc_queue_existed receipt, ef_priorRevision = rc_prior_revision receipt,
        ef_priorSourceFingerprint = rc_prior_source_fingerprint receipt, ef_invalidation = rc_invalidation receipt,
        ef_rebuild = (no_rebuild outcome)\<lparr>rr_sourceProblems := [diagnostic]\<rparr>, ef_rebuiltRevision = None,
        ef_nextAction = Some (Rebuild ref)\<rparr>"

definition invalidation_failure_effect :: "task_document_ref \<Rightarrow> invalidation_receipt \<Rightarrow> projection_effect result" where
  "invalidation_failure_effect ref receipt =
     (case ir_diagnostic (rc_invalidation receipt) of
        None \<Rightarrow> Inl (ValueError ''assert diagnostic is not None'')
      | Some p \<Rightarrow> failure_effect ref receipt Not_attempted p)"

definition rebuild_failure_effect :: "task_document_ref \<Rightarrow> invalidation_receipt \<Rightarrow> py_error \<Rightarrow> projection_effect result" where
  "rebuild_failure_effect ref receipt e =
     rbind (projection_problem None ref e) (\<lambda>p. failure_effect ref receipt Source_unreadable p)"

text \<open>What a capture of the sources finds in a world, as a whole and under the lock of the store.\<close>

record census =
  cs_captured :: "task_document_ref \<Rightarrow> task_world \<Rightarrow> source_snapshot result"
  cs_at_publish :: "task_document_ref \<Rightarrow> task_world \<Rightarrow> source_identity result"

definition rebuild_scope ::
  "host \<Rightarrow> census \<Rightarrow> string \<Rightarrow> task_document_ref \<Rightarrow> invalidation_receipt \<Rightarrow> (task_world, projection_effect) act" where
  "rebuild_scope h c timestamp ref receipt w =
     (case cs_captured c ref w of
        Inl e \<Rightarrow> (Inl e, w)
      | Inr captured \<Rightarrow>
          on_queue ref (rebuild_invalidated_closeout_projection h receipt timestamp captured (cs_at_publish c ref w)) w)"

definition scope_effect ::
  "host \<Rightarrow> census \<Rightarrow> string \<Rightarrow> task_document_ref \<times> invalidation_receipt \<Rightarrow> (task_world, projection_effect) act" where
  "scope_effect h c timestamp item w =
     (case item of (ref, receipt) \<Rightarrow>
       if ir_outcome (rc_invalidation receipt) = Invalidation_failed then (invalidation_failure_effect ref receipt, w)
       else (case rebuild_scope h c timestamp ref receipt w of
               (Inl e, w') \<Rightarrow> (rebuild_failure_effect ref receipt e, w')
             | (Inr ef, w') \<Rightarrow> (Inr ef, w')))"

fun traverse_act :: "('x \<Rightarrow> ('s, 'a) act) \<Rightarrow> 'x list \<Rightarrow> ('s, 'a list) act" where
  "traverse_act f [] = aread (\<lambda>_. Inr [])"
| "traverse_act f (x # xs) = abind (f x) (\<lambda>y. abind (traverse_act f xs) (\<lambda>ys. aread (\<lambda>_. Inr (y # ys))))"

text \<open>\<open>sorted(set(...), key=lambda ref: ref.key)\<close>.\<close>

definition ordered_scopes :: "task_document_ref list \<Rightarrow> task_document_ref list" where
  "ordered_scopes refs = sort_key ref_key (remdups refs)"

text \<open>Truth first: the checks, the publication, then every invalidation and every rebuild. The two
  clock readings are arguments.\<close>

definition publish_task_fact_mutation ::
  "host \<Rightarrow> census \<Rightarrow> string \<Rightarrow> string \<Rightarrow> (task_world \<Rightarrow> unit result) \<Rightarrow> (task_world \<Rightarrow> task_document_ref list result)
     \<Rightarrow> (disk, 'a) act \<Rightarrow> (task_world, 'a \<times> projection_effect list) act" where
  "publish_task_fact_mutation h c timestamp rebuilt_at validate projection_scopes publication =
     abind (aread (\<lambda>w. rbind (validate w) (\<lambda>_. projection_scopes w))) (\<lambda>refs.
     abind (on_disk publication) (\<lambda>x.
     abind (traverse_act (invalidate_scope h timestamp) (ordered_scopes refs)) (\<lambda>receipts.
     abind (traverse_act (scope_effect h c rebuilt_at) (zip (ordered_scopes refs) receipts)) (\<lambda>effects.
       aread (\<lambda>_. Inr (x, effects))))))"

text \<open>One edit of the tool as a transaction: what it was prepared from, and what it publishes.\<close>

definition publish_task_doc_transaction ::
  "host \<Rightarrow> census \<Rightarrow> string \<Rightarrow> string \<Rightarrow> (task_world \<Rightarrow> task_document_ref list result) \<Rightarrow> task_doc_source list
     \<Rightarrow> (disk, 'a) act \<Rightarrow> (task_world, 'a \<times> projection_effect list) act" where
  "publish_task_doc_transaction h c timestamp rebuilt_at projection_scopes snapshots publisher =
     publish_task_fact_mutation h c timestamp rebuilt_at
       (\<lambda>w. require_task_doc_sources_current (tw_disk w) snapshots) projection_scopes publisher"

end
