(* ===== verification/Task_Edit_Properties.thy ===== *)
theory Task_Edit_Properties
  imports Task_Edits
begin

text \<open>
  What the edits of task documents guarantee: a completed document has no open work, open work never
  disappears without an audit entry, and the master's row follows its leaf.
\<close>

section \<open>Validation keeps the work units\<close>

text \<open>What the readiness of a step is computed from.\<close>

definition step_view :: "task_step \<Rightarrow> string \<times> string \<times> step_status \<times> (string \<times> string \<times> step_status) list" where
  "step_view s = (st_id s, st_title s, st_status s, map (\<lambda>u. (ss_id u, ss_title u, ss_status u)) (st_substeps s))"

definition view_blockers :: "string \<times> string \<times> step_status \<times> (string \<times> string \<times> step_status) list \<Rightarrow> completion_blocker list" where
  "view_blockers v = (case v of (i, t, st, subs) \<Rightarrow>
     (if st \<noteq> St_done then [\<lparr>cb_id = i, cb_parentId = None, cb_title = t, cb_status = Step_unit st\<rparr>] else [])
     @ map (\<lambda>(j, u, su). \<lparr>cb_id = j, cb_parentId = Some i, cb_title = u, cb_status = Step_unit su\<rparr>)
         (filter (\<lambda>(j, u, su). su \<noteq> St_done) subs))"

definition view_units :: "string \<times> string \<times> step_status \<times> (string \<times> string \<times> step_status) list \<Rightarrow> (string \<times> string option) list" where
  "view_units v = (case v of (i, t, st, subs) \<Rightarrow> (i, None) # map (\<lambda>(j, u, su). (i, Some j)) subs)"

definition view_open :: "string \<times> string \<times> step_status \<times> (string \<times> string \<times> step_status) list \<Rightarrow> (string \<times> string option) list" where
  "view_open v = (case v of (i, t, st, subs) \<Rightarrow>
     (if st \<noteq> St_done then [(i, None)] else []) @ map (\<lambda>(j, u, su). (i, Some j)) (filter (\<lambda>(j, u, su). su \<noteq> St_done) subs))"

lemma step_blockers_view: "step_blockers s = view_blockers (step_view s)"
  by (simp add: step_blockers_def view_blockers_def step_view_def filter_map comp_def)

lemma completion_blockers_view:
  "td_kind d \<noteq> Kd_master \<Longrightarrow> completion_blockers d = concat (map view_blockers (map step_view (td_steps d)))"
  using step_blockers_view by (simp add: completion_blockers_def comp_def cong: map_cong)

lemma step_units_view: "step_units d = concat (map view_units (map step_view (td_steps d)))"
  by (simp add: step_units_def view_units_def step_view_def comp_def)

lemma unresolved_units_view: "unresolved_step_units d = concat (map view_open (map step_view (td_steps d)))"
  by (simp add: unresolved_step_units_def view_open_def step_view_def comp_def filter_map)

lemma make_sub_step_view: "make_sub_step u = Inr u' \<Longrightarrow> (ss_id u', ss_title u', ss_status u') = (ss_id u, ss_title u, ss_status u)"
  unfolding make_sub_step_def by (auto elim!: rbind_InrE split: if_splits)

lemma traverse_view:
  assumes "\<And>x y. f x = Inr y \<Longrightarrow> g y = g x"
  shows "traverse f xs = Inr ys \<Longrightarrow> map g ys = map g xs"
  by (induction xs arbitrary: ys) (auto elim!: rbind_InrE simp: assms)

lemma make_sub_steps_view:
  "traverse make_sub_step us = Inr us' \<Longrightarrow> map (\<lambda>u. (ss_id u, ss_title u, ss_status u)) us' = map (\<lambda>u. (ss_id u, ss_title u, ss_status u)) us"
  by (rule traverse_view [of make_sub_step]) (auto dest: make_sub_step_view)

lemma make_step_view: "make_step s = Inr s' \<Longrightarrow> step_view s' = step_view s"
proof -
  assume "make_step s = Inr s'"
  then obtain subs dd where run: "traverse make_sub_step (st_substeps s) = Inr subs" and s': "s' = s\<lparr>st_substeps := subs, st_disposition := dd\<rparr>"
    unfolding make_step_def by (auto elim!: rbind_InrE split: if_splits)
  show ?thesis using make_sub_steps_view [OF run] by (simp add: s' step_view_def)
qed

lemma validated_keeps:
  assumes "make_task_document d = Inr e"
  shows "td_kind e = td_kind d" "td_status e = td_status d" "td_id e = td_id d" "td_subTasks e = td_subTasks d"
    "map step_view (td_steps e) = map step_view (td_steps d)"
proof -
  obtain g regs sts rs disc ses where sts: "traverse make_step (td_steps d) = Inr sts"
    and chk: "check_kind_fields (d\<lparr>td_executionGraph := g, td_executionRegistrations := regs, td_steps := sts,
         td_reviewState := rs, td_discardedSubTasks := disc, td_seats := ses\<rparr>) = Inr e"
    using assms unfolding make_task_document_def by (elim rbind_InrE)
  obtain b where e: "e = d\<lparr>td_executionGraph := g, td_executionRegistrations := regs, td_steps := sts,
         td_reviewState := rs, td_discardedSubTasks := disc, td_seats := ses, td_integrationBranch := b\<rparr>"
    using check_kind_fields_Inr(1) [OF chk] by auto
  show "td_kind e = td_kind d" "td_status e = td_status d" "td_id e = td_id d" "td_subTasks e = td_subTasks d"
    "map step_view (td_steps e) = map step_view (td_steps d)"
    using traverse_view [OF make_step_view sts] by (simp_all add: e)
qed

lemma validated_document_Inr: "validated_document d = Inr e \<longleftrightarrow> make_task_document d = Inr e"
  by (auto simp: validated_document_def invalid_document_def split: sum.splits)

lemma same_work_blockers:
  assumes "td_kind e = td_kind d" "td_id e = td_id d" "td_subTasks e = td_subTasks d" "map step_view (td_steps e) = map step_view (td_steps d)"
  shows "completion_blockers e = completion_blockers d" "step_units e = step_units d" "unresolved_step_units e = unresolved_step_units d"
  using assms completion_blockers_view [of e] completion_blockers_view [of d]
  by (cases "td_kind d = Kd_master"; simp add: completion_blockers_def step_units_view unresolved_units_view)+

lemma validated_work:
  assumes "make_task_document d = Inr e"
  shows "completion_blockers e = completion_blockers d" "step_units e = step_units d" "unresolved_step_units e = unresolved_step_units d"
  using same_work_blockers [of e d] validated_keeps [OF assms] by auto

lemmas document_kept = validated_keeps validated_work

section \<open>Completed documents have no open work\<close>

definition completed_is_resolved :: "task_document \<Rightarrow> bool" where
  "completed_is_resolved d \<longleftrightarrow> (td_status d = Ds_Completed \<longrightarrow> completion_blockers d = [])"

lemma set_delete_at: "set (delete_at n xs) \<subseteq> set xs"
  unfolding delete_at_def using set_take_subset [of n xs] set_drop_subset [of "Suc n" xs] by auto

lemma exact_target_range:
  assumes "exact_step_target steps p = Inr (address, q)"
  shows "(case address of Top n \<Rightarrow> n < length steps | Sub n k \<Rightarrow> n < length steps \<and> k < length (st_substeps (steps ! n)))"
proof -
  have one: "n < length xs" if "one_exact_match (with_id key xs i) = Inr n" for key xs i and n
  proof -
    have "n \<in> set (with_id key xs i)" using that by (auto simp: one_exact_match_def split: list.splits)
    then show ?thesis by (simp add: with_id_def)
  qed
  show ?thesis using assms unfolding exact_step_target_def Let_def
    by (auto elim!: rbind_InrE split: if_splits dest!: one)
qed

lemma removed_unit_blockers:
  assumes "\<forall>s\<in>set steps. step_blockers s = []"
    and "case address of Top n \<Rightarrow> n < length steps | Sub n k \<Rightarrow> n < length steps \<and> k < length (st_substeps (steps ! n))"
  shows "\<forall>s\<in>set (remove_unit address steps). step_blockers s = []"
proof (cases address)
  case (Top n)
  then show ?thesis using assms(1) set_delete_at [of n steps] by auto
next
  case (Sub n k)
  then have "steps ! n \<in> set steps" using assms(2) by auto
  then have "step_blockers ((steps ! n)\<lparr>st_substeps := delete_at k (st_substeps (steps ! n))\<rparr>) = []"
    using assms(1) set_delete_at [of k "st_substeps (steps ! n)"] by (auto simp: step_blockers_Nil)
  then show ?thesis using Sub assms(1) by (auto dest!: set_update_subset_insert [THEN subsetD])
qed

lemma remove_step_resolved:
  assumes "remove_step now d p = Inr d'" "completed_is_resolved d"
  shows "completed_is_resolved d'"
proof -
  obtain address reason q where target: "exact_step_target (td_steps d) (the p) = Inr (address, q)" "td_kind d \<noteq> Kd_master"
    and d': "d' = d\<lparr>td_steps := remove_unit address (td_steps d), td_decisions := td_decisions d
        @ [\<lparr>dc_at = now, dc_decision = ''Removed step '' @ q @ ''.'', dc_rationale = reason\<rparr>]\<rparr>"
    using assms(1) unfolding remove_step_def require_step_payload_def
    by (auto elim!: rbind_InrE split: if_splits option.splits)
  then show ?thesis
    using assms(2) removed_unit_blockers [OF _ exact_target_range [OF target(1)]]
    by (auto simp: completed_is_resolved_def completion_blockers_def)
qed

lemma guarded_candidate_resolved:
  assumes "validate_candidate c e original candidate = Inr u"
    and "\<And>p. e = Remove_step p \<Longrightarrow> completed_is_resolved candidate"
  shows "completed_is_resolved candidate"
proof -
  have guard: "enforce_terminal_status (operation_name e) candidate (edit_step_payload e) = Inr ()"
    using assms(1) unfolding validate_candidate_def Let_def by (auto elim!: rbind_InrE)
  have "\<exists>p. e = Remove_step p" if "operation_name e = ''remove_step''" using that by (cases e) auto
  then show ?thesis
    using guard assms(2) unfolding enforce_terminal_status_def completed_is_resolved_def by (auto split: if_splits)
qed

lemma edit_resolved:
  assumes "task_doc_edit c stored e = Inr d'" "\<forall>old. stored = Some old \<longrightarrow> completed_is_resolved old"
  shows "completed_is_resolved d'"
proof -
  obtain original where prep: "prepare_edit c stored e = Inr (original, d')" and guard: "\<exists>u. validate_candidate c e original d' = Inr u"
    using assms(1) unfolding task_doc_edit_def by (auto elim!: rbind_InrE)
  show ?thesis
  proof (rule guarded_candidate_resolved [OF guard [THEN someI_ex]])
    fix p assume e: "e = Remove_step p"
    then obtain old d1 where old: "stored = Some old" "remove_step (ec_now c) old p = Inr d1" "make_task_document d1 = Inr d'"
      using prep by (auto simp: prepare_edit_def apply_edit_def validated_document_Inr elim!: rbind_InrE split: option.splits)
    then have "completed_is_resolved d1" using remove_step_resolved assms(2) by blast
    then show "completed_is_resolved d'" using document_kept [OF old(3)] by (simp add: completed_is_resolved_def)
  qed
qed

lemma demoted_resolved:
  assumes "demote_completed_master_if_unresolved m = Inr x" "td_kind m = Kd_master"
  shows "completed_is_resolved x" "td_subTasks x = td_subTasks m"
  using assms validated_keeps(2,4) [of "m\<lparr>td_status := Ds_inProgress\<rparr>" x]
  by (auto simp: demote_completed_master_if_unresolved_def completed_is_resolved_def split: if_splits)

text \<open>A changed master of a plan.\<close>

lemma synced_master:
  assumes "sync_master mp root leaf m = Inr plan" "ms_status plan \<in> {Sync_created, Sync_updated}"
  obtains m' where "ms_master plan = Some m'" "completed_is_resolved m'"
    "td_subTasks m' = put_row (subtask_ref_from_leaf root leaf (case filter (\<lambda>r. row_number r = td_id leaf) (td_subTasks m) of [] \<Rightarrow> None | r # _ \<Rightarrow> Some r)) (td_subTasks m)"
proof -
  let ?ex = "case filter (\<lambda>r. row_number r = td_id leaf) (td_subTasks m) of [] \<Rightarrow> None | r # _ \<Rightarrow> Some r"
  let ?ref = "subtask_ref_from_leaf root leaf ?ex"
  obtain v x where v: "make_task_document (m\<lparr>td_subTasks := put_row ?ref (td_subTasks m)\<rparr>) = Inr v"
    and x: "demote_completed_master_if_unresolved v = Inr x" "ms_master plan = Some x" and kind: "td_kind m = Kd_master"
    using assms unfolding sync_master_def Let_def
    by (auto elim!: rbind_InrE split: if_splits)
  show ?thesis by (rule that [OF x(2)]) (use demoted_resolved [OF x(1)] document_kept(1,4) [OF v] kind in simp_all)
qed

lemma planned_master:
  assumes "plan_master_sync source root leaf = Inr plan" "ms_status plan \<noteq> Sync_none"
  obtains mp m where "sync_master mp root leaf m = Inr plan" "read_source (source mp) = Inr m" "td_kind leaf = Kd_subTask"
  using assms unfolding plan_master_sync_def
  by (auto elim!: rbind_InrE simp: no_sync_def split: if_splits option.splits sum.splits)

lemma published_cases:
  assumes "published_documents c source root stored e = Inr ds" "d \<in> set ds"
  obtains "task_doc_edit c stored e = Inr d"
  | candidate plan where "task_doc_edit c stored e = Inr candidate" "plan_master_sync source root candidate = Inr plan"
      "ms_status plan \<in> {Sync_created, Sync_updated}" "ms_master plan = Some d"
  using assms unfolding published_documents_def
  by (auto elim!: rbind_InrE split: sum.splits py_error.splits sync_status.splits option.splits)

section \<open>Open work survives\<close>

lemma map_update_same: "f y = f (xs ! n) \<Longrightarrow> map f (xs[n := y]) = map f xs"
proof (cases "n < length xs")
  case True
  assume "f y = f (xs ! n)"
  then have "map f (xs[n := y]) = (map f xs)[n := map f xs ! n]" using True by (simp add: map_update)
  then show ?thesis by simp
next
  case False
  then show ?thesis by (simp add: list_update_beyond)
qed

lemma edit_unit_keeps_units: "step_units (d\<lparr>td_steps := edit_unit address e (td_steps d)\<rparr>) = step_units d"
proof -
  define f :: "task_step \<Rightarrow> (string \<times> string option) list"
    where "f = (\<lambda>s. (st_id s, None) # map (\<lambda>u. (st_id s, Some (ss_id u))) (st_substeps s))"
  have "map f (edit_unit address e (td_steps d)) = map f (td_steps d)"
  proof (cases address)
    case (Top n)
    then show ?thesis by (simp add: map_update_same f_def edit_step_def)
  next
    case (Sub n k)
    let ?s = "td_steps d ! n"
    have "f (?s\<lparr>st_substeps := (st_substeps ?s)[k := edit_sub_step e (st_substeps ?s ! k)]\<rparr>) = f ?s"
      by (simp add: f_def map_update_same edit_sub_step_def)
    then show ?thesis using Sub by (simp add: map_update_same)
  qed
  then show ?thesis by (simp add: step_units_def f_def)
qed

lemma open_units_subset: "mset (unresolved_step_units d) \<subseteq># mset (step_units d)"
proof -
  have subs: "mset (map g (filter P us)) \<subseteq># mset (map g us)" for g :: "sub_step \<Rightarrow> string \<times> string option" and P us
    by (simp add: image_mset_subseteq_mono)
  have "mset (concat (map (\<lambda>s. (if st_status s \<noteq> St_done then [(st_id s, None)] else [])
        @ map (\<lambda>u. (st_id s, Some (ss_id u))) (filter (\<lambda>u. ss_status u \<noteq> St_done) (st_substeps s))) ss))
      \<subseteq># mset (concat (map (\<lambda>s. (st_id s, None) # map (\<lambda>u. (st_id s, Some (ss_id u))) (st_substeps s)) ss))" for ss
  proof (induction ss)
    case (Cons s ss)
    have "mset ((if st_status s \<noteq> St_done then [(st_id s, None)] else [])
        @ map (\<lambda>u. (st_id s, Some (ss_id u))) (filter (\<lambda>u. ss_status u \<noteq> St_done) (st_substeps s)))
      \<subseteq># mset ((st_id s, None) # map (\<lambda>u. (st_id s, Some (ss_id u))) (st_substeps s))"
      using subs [of "\<lambda>u. (st_id s, Some (ss_id u))" "\<lambda>u. ss_status u \<noteq> St_done" "st_substeps s"]
      by (auto intro: subset_mset.order_trans)
    then show ?case unfolding list.map concat.simps mset_append using Cons by (rule subset_mset.add_mono)
  qed simp
  then show ?thesis unfolding unresolved_step_units_def step_units_def .
qed

lemma added_unit_units:
  assumes "n < length steps"
  shows "mset (step_units (d\<lparr>td_steps := steps\<rparr>)) \<subseteq># mset (step_units (d\<lparr>td_steps := steps[n := (steps ! n)\<lparr>st_substeps := st_substeps (steps ! n) @ [u]\<rparr>]\<rparr>))"
proof -
  have "steps = take n steps @ steps ! n # drop (Suc n) steps" using assms by (simp add: id_take_nth_drop)
  then obtain xs s ys where split: "steps = xs @ s # ys" "steps ! n = s" "length xs = n"
    using assms by (metis length_take min.absorb4)
  then have "steps[n := (steps ! n)\<lparr>st_substeps := st_substeps (steps ! n) @ [u]\<rparr>] = xs @ s\<lparr>st_substeps := st_substeps s @ [u]\<rparr> # ys"
    by (simp add: list_update_append)
  then show ?thesis by (simp add: step_units_def split(1))
qed

lemma one_match_range: "one_exact_match (with_id key xs i) = Inr n \<Longrightarrow> n < length xs"
proof -
  assume "one_exact_match (with_id key xs i) = Inr n"
  then have "n \<in> set (with_id key xs i)" by (auto simp: one_exact_match_def split: list.splits)
  then show ?thesis by (simp add: with_id_def)
qed

lemma add_step_units:
  assumes "add_step d p = Inr d'"
  shows "mset (step_units d) \<subseteq># mset (step_units d')"
proof -
  have self: "d\<lparr>td_steps := td_steps d\<rparr> = d" by simp
  from assms show ?thesis
    unfolding add_step_def Let_def
    apply (elim rbind_InrE)
    apply (auto elim!: rbind_InrE split: if_splits option.splits dest!: one_match_range)
     apply (simp add: step_units_def)
    using added_unit_units [of _ "td_steps d" d] by (simp add: self)
qed

lemma set_step_units: "set_step d p = Inr d' \<Longrightarrow> step_units d' = step_units d"
  unfolding set_step_def by (auto elim!: rbind_InrE simp: edit_unit_keeps_units)

lemma skip_step_units: "skip_step now l d p = Inr d' \<Longrightarrow> step_units d' = step_units d"
proof -
  assume "skip_step now l d p = Inr d'"
  then obtain address e ds where "d' = d\<lparr>td_steps := edit_unit address e (td_steps d), td_decisions := ds\<rparr>"
    unfolding skip_step_def by (auto elim!: rbind_InrE split: option.splits if_splits)
  moreover have "step_units (d\<lparr>td_steps := edit_unit address e (td_steps d), td_decisions := ds\<rparr>)
      = step_units (d\<lparr>td_steps := edit_unit address e (td_steps d)\<rparr>)" by (simp add: step_units_def)
  ultimately show ?thesis by (simp add: edit_unit_keeps_units)
qed

text \<open>What the mutations that are about something else leave alone.\<close>

definition same_work :: "task_document \<Rightarrow> task_document \<Rightarrow> bool" where
  "same_work d d' \<longleftrightarrow> td_kind d' = td_kind d \<and> td_steps d' = td_steps d"

lemma update_field_same: "update_field g d item = Inr d' \<Longrightarrow> same_work d d' \<and> td_subTasks d' = td_subTasks d"
  unfolding update_field_def Let_def same_work_def by (auto elim!: rbind_InrE split: if_splits)

lemma update_fields_same: "update_fields g d items = Inr d' \<Longrightarrow> same_work d d' \<and> td_subTasks d' = td_subTasks d"
proof (induction items arbitrary: d)
  case (Cons item items)
  then obtain d1 where "update_field g d item = Inr d1" "update_fields g d1 items = Inr d'" by (auto elim: rbind_InrE)
  then show ?case using update_field_same Cons.IH by (metis same_work_def)
qed (simp add: same_work_def)

lemma as_task_doc_error_Inr: "as_task_doc_error r = Inr x \<longleftrightarrow> r = Inr x"
  by (auto simp: as_task_doc_error_def split: sum.splits py_error.splits)

lemma begin_review_same: "begin_task_review_bound d p = Inr d' \<Longrightarrow> same_work d d' \<and> td_subTasks d' = td_subTasks d"
  unfolding begin_task_review_bound_def as_task_doc_error_Inr begin_task_review_def Let_def same_work_def
  by (auto elim!: rbind_InrE split: option.splits if_splits)

lemma record_review_same: "record_task_review_bound d p = Inr d' \<Longrightarrow> same_work d d' \<and> td_subTasks d' = td_subTasks d"
  unfolding record_task_review_bound_def record_task_review_def Let_def same_work_def
  by (auto elim!: rbind_InrE simp: as_task_doc_error_Inr split: option.splits)

lemma set_status_same: "set_status d f = Inr d' \<Longrightarrow> same_work d d' \<and> td_subTasks d' = td_subTasks d"
  unfolding set_status_def same_work_def by (auto elim!: rbind_InrE split: option.splits json.splits)

lemma set_field_same: "set_field g d f = Inr d' \<Longrightarrow> same_work d d' \<and> td_subTasks d' = td_subTasks d"
  unfolding set_field_def Let_def by (auto split: if_splits dest: update_fields_same)

lemma set_section_same: "set_section d p = Inr d' \<Longrightarrow> same_work d d' \<and> td_subTasks d' = td_subTasks d"
  unfolding set_section_def upsert_section_def Let_def same_work_def
  by (auto elim!: rbind_InrE split: option.splits if_splits)

lemma append_decision_same: "append_decision d p = Inr d' \<Longrightarrow> same_work d d' \<and> td_subTasks d' = td_subTasks d"
  unfolding append_decision_def same_work_def by (auto simp: invalid_document_def split: option.splits json.splits if_splits)

lemma set_subtask_same: "set_subtask d p = Inr d' \<Longrightarrow> same_work d d' \<and> td_kind d = Kd_master"
  unfolding set_subtask_def upsert_subtask_def Let_def same_work_def
  by (auto elim!: rbind_InrE split: option.splits if_splits)

lemma step_edits_keep_rows:
  "set_step d p = Inr d' \<Longrightarrow> td_subTasks d' = td_subTasks d \<and> td_kind d' = td_kind d"
  "add_step d p = Inr d' \<Longrightarrow> td_subTasks d' = td_subTasks d \<and> td_kind d' = td_kind d"
  "skip_step now l d p = Inr d' \<Longrightarrow> td_subTasks d' = td_subTasks d \<and> td_kind d' = td_kind d"
  unfolding set_step_def add_step_def skip_step_def Let_def
  by (auto elim!: rbind_InrE split: option.splits if_splits)

lemma same_work_units: "same_work d d' \<Longrightarrow> step_units d' = step_units d"
  by (simp add: same_work_def step_units_def)

lemmas same_rows = set_status_same set_field_same set_section_same append_decision_same begin_review_same record_review_same

lemma mutate_keeps_units:
  "mutate c d e = Inr d' \<Longrightarrow> (\<And>p. e \<noteq> Remove_step p) \<Longrightarrow> mset (step_units d) \<subseteq># mset (step_units d')"
  by (cases e) (auto dest!: same_rows set_subtask_same set_step_units skip_step_units add_step_units dest: same_work_units)

lemma mutate_keeps_rows:
  "mutate c d e = Inr d' \<Longrightarrow> (\<And>p. e \<noteq> Remove_step p) \<Longrightarrow> (\<And>p. e \<noteq> Set_subtask p) \<Longrightarrow> td_subTasks d' = td_subTasks d"
  by (cases e) (auto dest!: same_rows step_edits_keep_rows)

definition row_keys :: "sub_task_ref list \<Rightarrow> (string \<times> string) list" where
  "row_keys rows = map (\<lambda>r. (row_number r, row_file r)) rows"

lemma open_rows_subset: "mset (row_keys (filter P rows)) \<subseteq># mset (row_keys rows)"
  by (simp add: row_keys_def image_mset_subseteq_mono)

text \<open>The three ways in which a candidate comes from its original.\<close>

lemma edit_cases:
  assumes "task_doc_edit c (Some old) e = Inr d'"
  obtains cand where "e = Replace cand" "make_task_document cand = Inr d'"
  | "(\<exists>p. e = Begin_review p) \<or> (\<exists>p. e = Record_review p)" "same_work old d'" "td_subTasks d' = td_subTasks old"
  | d1 where "mutate c old e = Inr d1" "make_task_document d1 = Inr d'" "\<And>cand. e \<noteq> Replace cand"
proof -
  have "\<exists>original. prepare_edit c (Some old) e = Inr (original, d')" using assms unfolding task_doc_edit_def by (auto elim!: rbind_InrE)
  then show ?thesis using that
    by (cases e) (auto simp: prepare_edit_def apply_edit_def validated_document_Inr elim!: rbind_InrE split: if_splits
        dest: begin_review_same record_review_same)
qed

lemma edit_guards:
  assumes "task_doc_edit c (Some old) e = Inr d'"
  shows "enforce_replace_preserves_unresolved_units (operation_name e) (Some old) d' = Inr ()"
    "enforce_preserves_unresolved_master_rows (operation_name e) (Some old) d' = Inr ()"
    "enforce_disposition_authority (operation_name e) (Some old) d' = Inr ()"
proof -
  obtain original where prep: "prepare_edit c (Some old) e = Inr (original, d')" and guard: "\<exists>u. validate_candidate c e original d' = Inr u"
    using assms unfolding task_doc_edit_def by (auto elim!: rbind_InrE)
  have "original = Some old" using prep by (cases e) (auto simp: prepare_edit_def elim!: rbind_InrE)
  then show "enforce_replace_preserves_unresolved_units (operation_name e) (Some old) d' = Inr ()"
    "enforce_preserves_unresolved_master_rows (operation_name e) (Some old) d' = Inr ()"
    "enforce_disposition_authority (operation_name e) (Some old) d' = Inr ()"
    using guard unfolding validate_candidate_def Let_def by (auto elim!: rbind_InrE)
qed

lemma replaced_units_survive:
  assumes "task_doc_edit c (Some old) (Replace cand) = Inr d'" "td_kind old \<noteq> Kd_master"
  shows "mset (unresolved_step_units old) \<subseteq># mset (step_units d')"
  using edit_guards(1) [OF assms(1)] assms(2)
  by (auto simp: enforce_replace_preserves_unresolved_units_def Diff_eq_empty_iff_mset split: if_splits)

lemma guarded_rows_survive:
  assumes "task_doc_edit c (Some old) e = Inr d'" "td_kind old = Kd_master" "operation_name e \<in> {''replace'', ''set_subtask''}"
  shows "mset (row_keys (filter (\<lambda>r. \<not> row_resolved r) (td_subTasks old))) \<subseteq># mset (row_keys (td_subTasks d'))"
proof -
  have "missing_unresolved_master_rows old d' = []"
    using edit_guards(2) [OF assms(1)] assms(2,3) by (auto simp: enforce_preserves_unresolved_master_rows_def split: if_splits)
  then have "mset (missing_unresolved_master_rows old d') = {#}" by simp
  then show ?thesis unfolding missing_rows_mset by (simp add: Diff_eq_empty_iff_mset row_keys_def)
qed

section \<open>The row of a leaf\<close>

lemma filter_update_other: "n < length xs \<Longrightarrow> \<not> P (xs ! n) \<Longrightarrow> \<not> P y \<Longrightarrow> filter P (xs[n := y]) = filter P xs"
proof -
  assume n: "n < length xs" "\<not> P (xs ! n)" "\<not> P y"
  have "filter P (take n xs @ y # drop (Suc n) xs) = filter P (take n xs @ xs ! n # drop (Suc n) xs)" using n by simp
  then show ?thesis using n(1) by (simp add: upd_conv_take_nth_drop id_take_nth_drop [symmetric])
qed

lemma find_index_Some: "find P [0..<n] = Some k \<Longrightarrow> k < n \<and> P k"
  by (auto simp: find_Some_iff)

lemma put_row_others: "filter (\<lambda>r. row_number r \<noteq> row_number ref) (put_row ref rows) = filter (\<lambda>r. row_number r \<noteq> row_number ref) rows"
  unfolding put_row_def by (auto split: option.splits dest!: find_index_Some simp: filter_update_other)

lemma put_row_own:
  assumes "length (filter (\<lambda>r. row_number r = row_number ref) rows) \<le> 1"
  shows "filter (\<lambda>r. row_number r = row_number ref) (put_row ref rows) = [ref]"
proof (cases "find (\<lambda>n. row_number (rows ! n) = row_number ref) [0..<length rows]")
  case None
  then have "filter (\<lambda>r. row_number r = row_number ref) rows = []" by (auto simp: find_None_iff filter_empty_conv in_set_conv_nth)
  then show ?thesis using None by (simp add: put_row_def)
next
  case (Some n)
  then have n: "n < length rows" "row_number (rows ! n) = row_number ref" using find_index_Some by auto
  have rows: "rows = take n rows @ rows ! n # drop (Suc n) rows" using n(1) by (simp add: id_take_nth_drop)
  have "length (filter (\<lambda>r. row_number r = row_number ref) (take n rows @ rows ! n # drop (Suc n) rows)) \<le> 1"
    using assms rows by simp
  then have "filter (\<lambda>r. row_number r = row_number ref) (take n rows) = []"
    "filter (\<lambda>r. row_number r = row_number ref) (drop (Suc n) rows) = []" using n(2) by auto
  then show ?thesis using Some n(1) by (simp add: put_row_def upd_conv_take_nth_drop)
qed

lemma derived_completed: "td_kind leaf \<noteq> Kd_master \<Longrightarrow> derived_master_status leaf = Ds_Completed \<Longrightarrow> completion_blockers leaf = []"
  by (cases "td_steps leaf")
    (auto simp: derived_master_status_def Let_def declared_statuses_def completion_blockers_def split: if_splits)

lemma sync_at_most_one:
  "sync_master mp root leaf m = Inr plan \<Longrightarrow> length (filter (\<lambda>r. row_number r = td_id leaf) (td_subTasks m)) \<le> 1"
  by (auto simp: sync_master_def Let_def split: if_splits)

lemma sync_unchanged:
  assumes "sync_master mp root leaf m = Inr plan" "ms_status plan \<notin> {Sync_created, Sync_updated}"
  shows "ms_master plan = Some m \<and> (\<exists>ex. filter (\<lambda>r. row_number r = td_id leaf) (td_subTasks m) = [subtask_ref_from_leaf root leaf ex])"
  using assms sync_at_most_one [OF assms(1)] unfolding sync_master_def Let_def
  by (auto elim!: rbind_InrE split: if_splits list.splits)

section \<open>Properties\<close>

text \<open>C35. A completed document has no open work, and stays so: whatever one edit publishes from a stored
  document that has this property (the edited document and the master whose row follows it) has it
  too, including the removal of a step, which the terminal guard lets pass.\<close>

theorem completed_documents_are_resolved:
  assumes "published_documents c source root stored e = Inr ds"
    and "\<forall>old. stored = Some old \<longrightarrow> td_status old = Ds_Completed \<longrightarrow> completion_blockers old = []"
    and "d \<in> set ds" "td_status d = Ds_Completed"
  shows "completion_blockers d = []"
proof -
  have stored: "\<forall>old. stored = Some old \<longrightarrow> completed_is_resolved old" using assms(2) by (simp add: completed_is_resolved_def)
  have "completed_is_resolved d"
    using assms(1,3)
  proof (cases rule: published_cases)
    case 1
    then show ?thesis by (rule edit_resolved [OF _ stored])
  next
    case (2 candidate plan)
    then obtain mp m where "sync_master mp root candidate m = Inr plan" by (auto elim: planned_master)
    then show ?thesis using synced_master [of mp root candidate m plan] 2(3,4) by (metis option.inject)
  qed
  then show ?thesis using assms(4) by (simp add: completed_is_resolved_def)
qed

text \<open>C36. Open work survives every edit but a removal. No edit of a stored document other than
  remove_step, which records its reason as a decision, loses an unfinished step or substep of a leaf
  (counted with repetition), and none loses or repoints an unresolved row of a master.\<close>

theorem open_work_survives_edits:
  assumes edit: "task_doc_edit c (Some old) e = Inr d'" and no_removal: "\<forall>p. e \<noteq> Remove_step p"
  shows "(td_kind old \<noteq> Kd_master \<longrightarrow> mset (unresolved_step_units old) \<subseteq># mset (step_units d'))
     \<and> (td_kind old = Kd_master \<longrightarrow>
          mset (row_keys (filter (\<lambda>r. \<not> row_resolved r) (td_subTasks old))) \<subseteq># mset (row_keys (td_subTasks d')))"
  using edit
proof (cases rule: edit_cases)
  case (1 cand)
  then show ?thesis using replaced_units_survive [OF edit [unfolded 1(1)]] guarded_rows_survive [OF edit] by simp
next
  case 2
  then show ?thesis using open_units_subset [of old] same_work_units [of old d'] open_rows_subset [of _ "td_subTasks old"] by simp
next
  case (3 d1)
  have units: "mset (unresolved_step_units old) \<subseteq># mset (step_units d')"
    using mutate_keeps_units [OF 3(1)] no_removal open_units_subset [of old] document_kept(7) [OF 3(2)]
    by (metis subset_mset.order_trans)
  have "mset (row_keys (filter (\<lambda>r. \<not> row_resolved r) (td_subTasks old))) \<subseteq># mset (row_keys (td_subTasks d'))" if "td_kind old = Kd_master"
  proof (cases "\<exists>p. e = Set_subtask p")
    case True
    then show ?thesis using guarded_rows_survive [OF edit that] by auto
  next
    case False
    then have "td_subTasks d' = td_subTasks old" using mutate_keeps_rows [OF 3(1)] no_removal document_kept(4) [OF 3(2)] by metis
    then show ?thesis by (simp add: open_rows_subset)
  qed
  then show ?thesis using units by blast
qed

text \<open>A skip is recorded only by the operation for it: a created document has no disposition, and a
  replacement keeps exactly the dispositions of the document it replaces.\<close>

lemma skips_are_not_forged:
  "(\<forall>cand d'. task_doc_edit c None (Create cand) = Inr d' \<longrightarrow> disposition_entries d' = [])
   \<and> (\<forall>old cand d'. task_doc_edit c (Some old) (Replace cand) = Inr d' \<longrightarrow>
        mset (disposition_entries d') = mset (disposition_entries old))"
proof (intro conjI allI impI)
  fix cand d' assume "task_doc_edit c None (Create cand) = Inr d'"
  then have "enforce_disposition_authority ''create'' None d' = Inr ()"
    unfolding task_doc_edit_def prepare_edit_def validate_candidate_def Let_def by (auto elim!: rbind_InrE)
  then show "disposition_entries d' = []" by (auto simp: enforce_disposition_authority_def split: if_splits)
next
  fix old cand d' assume "task_doc_edit c (Some old) (Replace cand) = Inr d'"
  from edit_guards(3) [OF this] show "mset (disposition_entries d') = mset (disposition_entries old)"
    by (simp add: enforce_disposition_authority_def split: if_splits)
qed

text \<open>C37. A master's row follows its leaf. When a leaf is synchronised, the planned master has exactly
  one row with the id of the leaf, with the leaf's title and the status derived from its units, and all
  other rows as they were; and a row says Completed only if the leaf has no open work.\<close>

theorem master_row_follows_leaf:
  assumes "plan_master_sync source root leaf = Inr plan" "ms_status plan \<noteq> Sync_none"
  shows "\<exists>mp old m row. read_source (source mp) = Inr old \<and> ms_master plan = Some m
     \<and> filter (\<lambda>r. row_number r = td_id leaf) (td_subTasks m) = [row]
     \<and> row_name row = td_title leaf \<and> row_status row = derived_master_status leaf
     \<and> filter (\<lambda>r. row_number r \<noteq> td_id leaf) (td_subTasks m) = filter (\<lambda>r. row_number r \<noteq> td_id leaf) (td_subTasks old)
     \<and> (row_status row = Ds_Completed \<longrightarrow> completion_blockers leaf = [])"
proof -
  obtain mp old where sync: "sync_master mp root leaf old = Inr plan" "read_source (source mp) = Inr old" "td_kind leaf = Kd_subTask"
    using planned_master [OF assms] by blast
  obtain m ex where m: "ms_master plan = Some m"
    "filter (\<lambda>r. row_number r = td_id leaf) (td_subTasks m) = [subtask_ref_from_leaf root leaf ex]"
    "filter (\<lambda>r. row_number r \<noteq> td_id leaf) (td_subTasks m) = filter (\<lambda>r. row_number r \<noteq> td_id leaf) (td_subTasks old)"
  proof (cases "ms_status plan \<in> {Sync_created, Sync_updated}")
    case True
    define ref where "ref = subtask_ref_from_leaf root leaf
      (case filter (\<lambda>r. row_number r = td_id leaf) (td_subTasks old) of [] \<Rightarrow> None | r # _ \<Rightarrow> Some r)"
    obtain m where m: "ms_master plan = Some m" "td_subTasks m = put_row ref (td_subTasks old)"
      using synced_master [OF sync(1) True] unfolding ref_def by blast
    have ref: "row_number ref = td_id leaf" by (simp add: ref_def subtask_ref_from_leaf_def)
    have own: "filter (\<lambda>r. row_number r = td_id leaf) (td_subTasks m) = [ref]"
      using put_row_own [of ref "td_subTasks old"] sync_at_most_one [OF sync(1)] by (simp add: ref m(2))
    have others: "filter (\<lambda>r. row_number r \<noteq> td_id leaf) (td_subTasks m) = filter (\<lambda>r. row_number r \<noteq> td_id leaf) (td_subTasks old)"
      using put_row_others [of ref "td_subTasks old"] by (simp add: ref m(2))
    show ?thesis by (rule that [OF m(1) own [unfolded ref_def] others])
  next
    case False
    then show ?thesis using sync_unchanged [OF sync(1) False] that by blast
  qed
  show ?thesis
    using m sync(2,3) derived_completed [of leaf]
    by (intro exI [of _ mp] exI [of _ old] exI [of _ m] exI [of _ "subtask_ref_from_leaf root leaf ex"])
      (simp add: subtask_ref_from_leaf_def)
qed

section \<open>Two slips\<close>

text \<open>A row number given as a JSON number matches no row, since it is compared with texts, so the edit
  that should update the row appends a second one of the same number, which every later
  synchronisation of that leaf refuses.\<close>

lemma numeric_row_number_duplicates:
  assumes "row \<in> set (td_subTasks d)" "rw_number p = JInt n" "n \<noteq> 0" "rw_number_text p = row_number row" "upsert_subtask d p = Inr d'"
  shows "1 < length (filter (\<lambda>r. row_number r = row_number row) (td_subTasks d'))"
    and "td_kind d = Kd_master \<Longrightarrow> td_id leaf = row_number row \<Longrightarrow> sync_master mp root leaf d' = Inl (MasterSyncError ''at most one row'')"
proof -
  have "first_with_key row_number (td_subTasks d) (rw_number p) = None"
    using assms(2) by (simp add: first_with_key_def find_None_iff)
  then obtain new where rows: "td_subTasks d' = td_subTasks d @ [new]" "row_number new = row_number row" and kind: "td_kind d' = td_kind d"
    using assms(2-5) by (auto simp: upsert_subtask_def elim!: rbind_InrE)
  have "row \<in> set (filter (\<lambda>r. row_number r = row_number row) (td_subTasks d))" using assms(1) by simp
  then show many: "1 < length (filter (\<lambda>r. row_number r = row_number row) (td_subTasks d'))"
    using rows by (cases "filter (\<lambda>r. row_number r = row_number row) (td_subTasks d)") auto
  then show "sync_master mp root leaf d' = Inl (MasterSyncError ''at most one row'')" if "td_kind d = Kd_master" "td_id leaf = row_number row"
    using that kind by (simp add: sync_master_def)
qed

text \<open>Removing a row deletes the files the row names, also outside the task root: nothing confines the
  name.\<close>

lemma removal_leaves_task_root:
  "leaf_doc_files [''tasks'', ''repo'', ''m''] \<lparr>row_number = ''1'', row_name = ''n'', row_file = ''../other/task.md'', row_status = Ds_Completed,
       row_scope = [], row_masterRef = None\<rparr>
     = Inr [[''tasks'', ''repo'', ''m'', ''..'', ''other'', ''task.json''], [''tasks'', ''repo'', ''m'', ''..'', ''other'', ''task.md'']]"
  by code_simp

section \<open>Witnesses\<close>

definition sample_edit_context :: edit_context where
  "sample_edit_context = \<lparr>ec_now = ''2026-01-01T00:00:00+00:00'', ec_lifecycle = None, ec_decode_graph = (\<lambda>_. Inr None),
     ec_other_guards = (\<lambda>_ _ _. Inr ())\<rparr>"

abbreviation sample_root :: path where
  "sample_root \<equiv> [''c'', ''tasks'', ''repo'', ''m'']"

definition finished_leaf :: task_document where
  "finished_leaf = (sample_leaf ''L1'')\<lparr>td_steps := [new_step ''S1'' ''s'' (Some St_done) None]\<rparr>"

definition close_substep :: doc_edit where
  "close_substep = Set_step (Some \<lparr>sp_id = ''S1.1'', sp_parent = ''S1'', sp_title_text = [], sp_title = None,
     sp_status = Some (JStr ''done''), sp_note = None, sp_reason = None\<rparr>)"

theorem completed_documents_are_resolved_witness:
  "\<exists>ds d. published_documents sample_edit_context (disk_source sample_tree) sample_root (Some finished_leaf)
        (Set_status [(''status'', JStr ''Completed'')]) = Inr ds
     \<and> d \<in> set ds \<and> td_status d = Ds_Completed \<and> completion_blockers d = []"
proof -
  have "case published_documents sample_edit_context (disk_source sample_tree) sample_root (Some finished_leaf)
      (Set_status [(''status'', JStr ''Completed'')]) of Inr ds \<Rightarrow> ds \<noteq> [] \<and> td_status (hd ds) = Ds_Completed | Inl _ \<Rightarrow> False" by code_simp
  then obtain ds where ds: "published_documents sample_edit_context (disk_source sample_tree) sample_root (Some finished_leaf)
      (Set_status [(''status'', JStr ''Completed'')]) = Inr ds" "ds \<noteq> []" "td_status (hd ds) = Ds_Completed"
    by (auto split: sum.splits)
  have "td_status finished_leaf = Ds_planning" by code_simp
  then have "completion_blockers (hd ds) = []"
    using completed_documents_are_resolved [OF ds(1) _ _ ds(3)] ds(2) by simp
  then show ?thesis using ds by (intro exI [of _ ds] exI [of _ "hd ds"]) simp
qed

theorem open_work_survives_edits_witness:
  "\<exists>d'. task_doc_edit sample_edit_context (Some (sample_leaf ''L1'')) close_substep = Inr d'
     \<and> mset (unresolved_step_units (sample_leaf ''L1'')) \<subseteq># mset (step_units d')"
proof -
  have "case task_doc_edit sample_edit_context (Some (sample_leaf ''L1'')) close_substep of Inr _ \<Rightarrow> True | Inl _ \<Rightarrow> False" by code_simp
  then obtain d' where d': "task_doc_edit sample_edit_context (Some (sample_leaf ''L1'')) close_substep = Inr d'"
    by (auto split: sum.splits)
  have "td_kind (sample_leaf ''L1'') \<noteq> Kd_master" by (simp add: sample_leaf_def)
  then show ?thesis using open_work_survives_edits [OF d'] d' by (simp add: close_substep_def)
qed

lemma skips_are_not_forged_witness:
  "\<exists>d'. task_doc_edit sample_edit_context None (Create (sample_leaf ''L1'')) = Inr d' \<and> disposition_entries d' = []"
proof -
  have "case task_doc_edit sample_edit_context None (Create (sample_leaf ''L1'')) of Inr _ \<Rightarrow> True | Inl _ \<Rightarrow> False" by code_simp
  then obtain d' where d': "task_doc_edit sample_edit_context None (Create (sample_leaf ''L1'')) = Inr d'" by (auto split: sum.splits)
  then show ?thesis using skips_are_not_forged [of sample_edit_context] by blast
qed

theorem master_row_follows_leaf_witness:
  "\<exists>plan m row. plan_master_sync (disk_source sample_tree) sample_root (sample_leaf ''L1'') = Inr plan \<and> ms_master plan = Some m
     \<and> filter (\<lambda>r. row_number r = ''L1'') (td_subTasks m) = [row] \<and> row_status row = Ds_inProgress"
proof -
  have "case plan_master_sync (disk_source sample_tree) sample_root (sample_leaf ''L1'') of
      Inr plan \<Rightarrow> ms_status plan \<noteq> Sync_none | Inl _ \<Rightarrow> False" by code_simp
  then obtain plan where plan: "plan_master_sync (disk_source sample_tree) sample_root (sample_leaf ''L1'') = Inr plan"
    "ms_status plan \<noteq> Sync_none" by (auto split: sum.splits)
  have "derived_master_status (sample_leaf ''L1'') = Ds_inProgress" "td_id (sample_leaf ''L1'') = ''L1''" by code_simp+
  then show ?thesis using master_row_follows_leaf [OF plan] plan(1) by auto
qed

end
