(* ===== verification/Task_Publication.thy ===== *)
theory Task_Publication
  imports Task_Store Task_Edit_Properties
begin

text \<open>
  What writing task documents guarantees: a batch is written as a whole or not at all.
\<close>

section \<open>What an operation may touch\<close>

definition confined :: "path set \<Rightarrow> (disk, 'a) act \<Rightarrow> bool" where
  "confined P act \<longleftrightarrow> (\<forall>d q. q \<notin> P \<longrightarrow> dk_files (snd (act d)) q = dk_files d q)"

lemma confinedD: "confined P act \<Longrightarrow> act d = (r, d') \<Longrightarrow> q \<notin> P \<Longrightarrow> dk_files d' q = dk_files d q"
  unfolding confined_def by (metis snd_conv)

lemma confined_mono: "confined P act \<Longrightarrow> P \<subseteq> Q \<Longrightarrow> confined Q act"
  unfolding confined_def by blast

lemma put_file_simps [simp]:
  "dk_files (put_file p c d) = (dk_files d)(resolve_path p := c)" "dk_unreadable (put_file p c d) = dk_unreadable d"
  "dk_script (put_file p c d) = dk_script d"
  by (simp_all add: put_file_def)

lemma change_file_cases:
  assumes "change_file p c d = (r, d')"
  obtains "r = Inr ()" "dk_files d' = (dk_files d)(resolve_path p := c)"
  | e where "r = Inl e" "dk_files d' = dk_files d \<or> dk_files d' = (dk_files d)(resolve_path p := c)"
  using assms unfolding change_file_def by (auto split: list.splits io_outcome.splits)

lemma confined_change_file: "resolve_path p \<in> P \<Longrightarrow> confined P (change_file p c)"
  by (auto simp: confined_def change_file_def split: list.splits io_outcome.splits)

lemma confined_aread [simp]: "confined P (aread f)"
  by (simp add: confined_def aread_def)

lemma confined_abind: "confined P m \<Longrightarrow> (\<And>x. confined P (f x)) \<Longrightarrow> confined P (abind m f)"
  unfolding confined_def abind_def by (auto split: sum.splits prod.splits) (metis snd_conv)+

lemma confined_each: "(\<And>x. x \<in> set xs \<Longrightarrow> confined P (f x)) \<Longrightarrow> confined P (each_act f xs)"
  by (induction xs) (auto intro: confined_abind)

lemma restore_file: "(case c of None \<Rightarrow> unlink p | Some t \<Rightarrow> atomic_write_text p t) = change_file p c"
  by (simp add: unlink_def atomic_write_text_def split: option.split)

lemma confined_restore:
  "(\<And>p c. (p, c) \<in> set os \<Longrightarrow> resolve_path p \<in> P) \<Longrightarrow> confined P (restore_task_doc_batch os)"
  unfolding restore_task_doc_batch_def
proof (rule confined_each)
  fix x assume "\<And>p c. (p, c) \<in> set os \<Longrightarrow> resolve_path p \<in> P" "x \<in> set os"
  then show "confined P (case x of (p, content) \<Rightarrow> case content of None \<Rightarrow> unlink p | Some text \<Rightarrow> atomic_write_text p text)"
    unfolding restore_file by (cases x) (simp add: confined_change_file)
qed

lemma confined_remove: "resolve_path ` set ps \<subseteq> P \<Longrightarrow> confined P (remove_each ps)"
  by (induction ps) (auto intro!: confined_abind confined_change_file simp: unlink_def)

lemma confined_rollback:
  assumes "confined P body" "\<And>p c. (p, c) \<in> set os \<Longrightarrow> resolve_path p \<in> P"
  shows "confined P (with_rollback os body)"
  unfolding confined_def
proof (intro allI impI)
  fix d q assume q: "q \<notin> P"
  obtain r d1 where body: "body d = (r, d1)" by force
  obtain r2 d2 where rest: "restore_task_doc_batch os d1 = (r2, d2)" by force
  have "dk_files d1 q = dk_files d q" "dk_files d2 q = dk_files d1 q"
    using confinedD [OF assms(1) body q] confinedD [OF confined_restore [OF assms(2)] rest q] by auto
  then show "dk_files (snd (with_rollback os body d)) q = dk_files d q"
    by (simp add: with_rollback_def body rest split: sum.split)
qed

section \<open>Rolling back\<close>

lemma restored:
  assumes "restore_task_doc_batch os d = (Inr u, d')" "\<And>p c. (p, c) \<in> set os \<Longrightarrow> c = f (resolve_path p)"
  shows "dk_files d' q = (if q \<in> resolve_path ` fst ` set os then f q else dk_files d q)"
  using assms
proof (induction os arbitrary: d)
  case (Cons item os)
  obtain p c where item: "item = (p, c)" by force
  obtain d1 where first: "change_file p c d = (Inr (), d1)" and rest: "restore_task_doc_batch os d1 = (Inr u, d')"
    using Cons.prems(1) unfolding restore_task_doc_batch_def by (auto simp: item abind_eq_Inr restore_file)
  have "dk_files d1 = (dk_files d)(resolve_path p := c)" using change_file_cases [OF first] by auto
  moreover have "c = f (resolve_path p)" using Cons.prems(2) [of p c] item by simp
  moreover have "dk_files d' q = (if q \<in> resolve_path ` fst ` set os then f q else dk_files d1 q)"
    using Cons.prems(2) by (intro Cons.IH [OF rest]) simp
  ultimately show ?case by (simp add: item)
qed (simp add: restore_task_doc_batch_def)

lemma originals_of_Inr:
  assumes "originals_of d ps = Inr os"
  shows "map fst os = ps" "\<And>p c. (p, c) \<in> set os \<Longrightarrow> c = dk_files d (resolve_path p)"
  using assms by (induction ps arbitrary: os)
    (auto simp: originals_of_def bytes_if_present_def elim!: rbind_InrE split: if_splits)

text \<open>A body that touches only what was read beforehand either succeeds, leaves the disk as it was, or
  its restoration failed too.\<close>

lemma rolled_back:
  assumes "with_rollback os body d = (Inl e, d')" "originals_of d ps = Inr os" "confined (resolve_path ` set ps) body"
  shows "dk_files d' = dk_files d \<or> (\<exists>what. e = RuntimeError what)"
proof -
  obtain e1 d1 where body: "body d = (Inl e1, d1)"
    using assms(1) by (auto simp: with_rollback_def split: sum.splits prod.splits)
  show ?thesis
  proof (cases "restore_task_doc_batch os d1")
    case (Pair r d2)
    show ?thesis
    proof (cases r)
      case (Inr u)
      then have d': "d' = d2" using assms(1) body Pair by (simp add: with_rollback_def)
      have "fst ` set os = set ps" using originals_of_Inr(1) [OF assms(2)] by (metis list.set_map)
      then have "dk_files d2 q = dk_files d q" for q
        using restored [of os d1 u d2 "dk_files d" q] originals_of_Inr(2) [OF assms(2)] Pair Inr confinedD [OF assms(3) body, of q]
        by auto
      then show ?thesis by (auto simp: d')
    next
      case (Inl e2)
      then show ?thesis using assms(1) body Pair by (auto simp: with_rollback_def)
    qed
  qed
qed

lemma with_rollback_Inr: "with_rollback os body d = (Inr x, d') \<Longrightarrow> body d = (Inr x, d')"
  by (auto simp: with_rollback_def split: sum.splits prod.splits)

section \<open>What a batch writes\<close>

text \<open>The files after a batch: removed, written (the last write of a file counts), or as before.\<close>

definition files_after ::
  "(path \<times> string) list \<Rightarrow> path list \<Rightarrow> (path \<Rightarrow> string option) \<Rightarrow> path \<Rightarrow> string option" where
  "files_after writes removed files q =
     (if q \<in> set removed then None
      else (case map_of (rev (map (\<lambda>(p, text). (resolve_path p, text)) writes)) q of None \<Rightarrow> files q | Some text \<Rightarrow> Some text))"

lemma written:
  "each_act (\<lambda>(p, text). atomic_write_text p text) ws d = (Inr u, d') \<Longrightarrow> dk_files d' = files_after ws [] (dk_files d)"
proof (induction ws arbitrary: d)
  case (Cons w ws)
  obtain p t where w: "w = (p, t)" by force
  obtain d1 where first: "change_file p (Some t) d = (Inr (), d1)"
    and rest: "each_act (\<lambda>(p, text). atomic_write_text p text) ws d1 = (Inr u, d')"
    using Cons.prems by (auto simp: w abind_eq_Inr atomic_write_text_def)
  have "dk_files d1 = (dk_files d)(resolve_path p \<mapsto> t)" using change_file_cases [OF first] by auto
  then show ?case using Cons.IH [OF rest] by (auto simp: files_after_def w map_add_def split: option.splits)
qed (auto simp: files_after_def)

lemma removed:
  "remove_each ps d = (Inr deleted, d') \<Longrightarrow> distinct ps \<Longrightarrow> (\<And>p. p \<in> set ps \<Longrightarrow> resolve_path p = p) \<Longrightarrow>
     dk_files d' = (\<lambda>q. if q \<in> set ps then None else dk_files d q) \<and> deleted = filter (\<lambda>p. dk_files d p \<noteq> None) ps"
proof (induction ps arbitrary: d deleted)
  case Nil
  then show ?case by simp
next
  case (Cons p ps)
  have p: "resolve_path p = p" "p \<notin> set ps" "distinct ps" and ps: "\<And>q. q \<in> set ps \<Longrightarrow> resolve_path q = q" using Cons.prems(2,3) by simp_all
  show ?case
  proof (cases "path_exists d p")
    case True
    then obtain d1 del where first: "change_file p None d = (Inr (), d1)" and rest: "remove_each ps d1 = (Inr del, d')" "deleted = p # del"
      using Cons.prems(1) by (auto simp: abind_eq_Inr unlink_def)
    have d1: "dk_files d1 = (dk_files d)(p := None)" using change_file_cases [OF first] p(1) by auto
    have ih: "dk_files d' = (\<lambda>q. if q \<in> set ps then None else dk_files d1 q)" "del = filter (\<lambda>p. dk_files d1 p \<noteq> None) ps"
      using Cons.IH [OF rest(1) p(3) ps] by simp_all
    have "filter (\<lambda>q. dk_files d1 q \<noteq> None) ps = filter (\<lambda>q. dk_files d q \<noteq> None) ps"
      by (rule filter_cong [OF refl]) (use p(2) in \<open>auto simp: d1\<close>)
    moreover have "dk_files d p \<noteq> None" using True p(1) by (simp add: path_exists_def)
    moreover have "dk_files d' = (\<lambda>q. if q \<in> set (p # ps) then None else dk_files d q)" unfolding ih(1) d1 by (rule ext) simp
    ultimately show ?thesis using ih(2) rest(2) by simp
  next
    case False
    then have rest: "remove_each ps d = (Inr deleted, d')" using Cons.prems(1) by (simp add: abind_eq_Inr)
    have gone: "dk_files d p = None" using False p(1) by (simp add: path_exists_def)
    have ih: "dk_files d' = (\<lambda>q. if q \<in> set ps then None else dk_files d q)" "deleted = filter (\<lambda>p. dk_files d p \<noteq> None) ps"
      using Cons.IH [OF rest p(3) ps] by simp_all
    have "dk_files d' = (\<lambda>q. if q \<in> set (p # ps) then None else dk_files d q)" unfolding ih(1) using gone by (intro ext) simp
    then show ?thesis using ih(2) gone by simp
  qed
qed

lemma batch_writes_paths:
  "batch_writes render seen documents = Inr (ws, paths) \<Longrightarrow>
     map fst ws = concat (map (\<lambda>(root, doc). [json_path_for root doc, markdown_path_for root doc]) documents)"
  by (induction render seen documents arbitrary: ws paths rule: batch_writes.induct)
    (auto simp: Let_def elim!: rbind_InrE split: if_splits)

lemma write_batch_cases:
  assumes "write_task_doc_batch render documents d = (r, d')"
  obtains e where "r = Inl e" "dk_files d' = dk_files d \<or> (\<exists>what. e = RuntimeError what)"
  | ws paths where "r = Inr paths" "batch_writes render [] documents = Inr (ws, paths)" "dk_files d' = files_after ws [] (dk_files d)"
proof -
  let ?body = "\<lambda>ws. each_act (\<lambda>(p, text). atomic_write_text p text) ws"
  consider e where "r = Inl e" "d' = d"
    | ws paths os where "batch_writes render [] documents = Inr (ws, paths)" "originals_of d (map fst ws) = Inr os"
      "abind (with_rollback os (?body ws)) (\<lambda>_. aread (\<lambda>_. Inr paths)) d = (r, d')"
    using assms unfolding write_task_doc_batch_def
    by (auto simp: abind_def aread_def rbind_def split: sum.splits prod.splits)
  then show ?thesis
  proof cases
    case 1
    then show ?thesis using that(1) by simp
  next
    case (2 ws paths os)
    have "confined (resolve_path ` set (map fst ws)) (?body ws)"
      by (rule confined_each) (force simp: atomic_write_text_def intro: confined_change_file)
    then show ?thesis
      using 2 rolled_back [of os "?body ws" d _ d' "map fst ws"] with_rollback_Inr [of os "?body ws" d _ d'] written [of ws d _ d'] that
      by (auto simp: abind_def aread_def split: sum.splits prod.splits)
  qed
qed

lemma confined_batch:
  "confined (resolve_path ` set (concat (map (\<lambda>(root, doc). [json_path_for root doc, markdown_path_for root doc]) documents)))
     (write_task_doc_batch render documents)"
  (is "confined ?P _")
  unfolding confined_def
proof (intro allI impI)
  fix d q assume q: "q \<notin> ?P"
  let ?body = "\<lambda>ws. each_act (\<lambda>(p, text). atomic_write_text p text) ws"
  show "dk_files (snd (write_task_doc_batch render documents d)) q = dk_files d q"
  proof (cases "rbind (batch_writes render [] documents) (\<lambda>(ws, paths). rbind (originals_of d (map fst ws)) (\<lambda>os. Inr (ws, paths, os)))")
    case (Inl e)
    then show ?thesis by (simp add: write_task_doc_batch_def abind_def aread_def)
  next
    case (Inr b)
    then obtain ws paths os where b: "b = (ws, paths, os)" "batch_writes render [] documents = Inr (ws, paths)"
      "originals_of d (map fst ws) = Inr os" by (auto elim!: rbind_InrE)
    have "set (map fst ws) = set (concat (map (\<lambda>(root, doc). [json_path_for root doc, markdown_path_for root doc]) documents))"
      using batch_writes_paths [OF b(2)] by metis
    then have P: "?P = resolve_path ` set (map fst ws)" by simp
    have os: "\<And>p c. (p, c) \<in> set os \<Longrightarrow> resolve_path p \<in> ?P" unfolding P originals_of_Inr(1) [OF b(3), symmetric] by force
    have "confined ?P (?body ws)" unfolding P
      by (rule confined_each) (force simp: atomic_write_text_def intro: confined_change_file)
    then have "confined ?P (with_rollback os (?body ws))" using os by (rule confined_rollback)
    then have "dk_files (snd (with_rollback os (?body ws) d)) q = dk_files d q"
      using q unfolding confined_def by blast
    then show ?thesis using Inr b(1)
      by (auto simp: write_task_doc_batch_def abind_def aread_def split: sum.splits prod.splits)
  qed
qed

section \<open>Failure atomicity\<close>

lemma batch_and_remove:
  assumes "abind (write_task_docs render root docs) (\<lambda>paths. abind (remove_each ordered) (\<lambda>deleted. aread (\<lambda>_. Inr (paths, deleted)))) d
      = (Inr (paths, deleted), d')" "distinct ordered" "\<And>p. p \<in> set ordered \<Longrightarrow> resolve_path p = p"
  shows "\<exists>ws. batch_writes render [] (map (Pair root) docs) = Inr (ws, paths) \<and> dk_files d' = files_after ws ordered (dk_files d)
    \<and> deleted = filter (\<lambda>p. files_after ws [] (dk_files d) p \<noteq> None) ordered"
proof -
  obtain d1 where w: "write_task_doc_batch render (map (Pair root) docs) d = (Inr paths, d1)"
    and rm: "remove_each ordered d1 = (Inr deleted, d')"
    using assms(1) unfolding write_task_docs_def abind_eq_Inr aread_eq by auto
  obtain ws where ws: "batch_writes render [] (map (Pair root) docs) = Inr (ws, paths)" "dk_files d1 = files_after ws [] (dk_files d)"
    using write_batch_cases [OF w] by blast
  have "dk_files d' = files_after ws ordered (dk_files d)"
    using removed [OF rm assms(2,3)] ws(2) by (auto simp: files_after_def)
  then show ?thesis using ws removed [OF rm assms(2,3)] by auto
qed

lemma confined_batch_and_remove:
  "confined (resolve_path ` (\<Union>doc\<in>set docs. {json_path_for root doc, markdown_path_for root doc}) \<union> resolve_path ` set ordered)
     (abind (write_task_docs render root docs) (\<lambda>paths. abind (remove_each ordered) (\<lambda>deleted. aread (\<lambda>_. Inr (paths, deleted)))))"
  (is "confined (?W \<union> ?R) _")
proof -
  have "confined ?W (write_task_docs render root docs)"
    using confined_batch [of "map (Pair root) docs" render] by (simp add: write_task_docs_def comp_def)
  then have "confined (?W \<union> ?R) (write_task_docs render root docs)" by (rule confined_mono) (rule Un_upper1)
  moreover have "confined ?R (remove_each ordered)" by (rule confined_remove) simp
  then have "confined (?W \<union> ?R) (remove_each ordered)" by (rule confined_mono) (rule Un_upper2)
  ultimately show ?thesis by (intro confined_abind confined_aread)
qed

text \<open>A batch with removals either is refused before it starts or runs under the rollback of its targets.\<close>

definition batch_targets :: "path \<Rightarrow> task_document list \<Rightarrow> path list \<Rightarrow> path list" where
  "batch_targets root docs removals =
     sort (remdups (concat (map (\<lambda>doc. [json_path_for root doc, markdown_path_for root doc]) docs)))
     @ from_keys (map resolve_path removals)"

definition batch_body :: "rendering \<Rightarrow> path \<Rightarrow> task_document list \<Rightarrow> path list \<Rightarrow> (disk, (path \<times> path) list \<times> path list) act" where
  "batch_body render root docs removals =
     abind (write_task_docs render root docs) (\<lambda>paths.
     abind (remove_each (from_keys (map resolve_path removals))) (\<lambda>deleted. aread (\<lambda>_. Inr (paths, deleted))))"

lemma write_and_remove_cases:
  assumes "write_task_docs_and_remove render root docs removals d = (r, d')"
  obtains e where "r = Inl e" "d' = d"
    | os where "originals_of d (batch_targets root docs removals) = Inr os"
        "with_rollback os (batch_body render root docs removals) d = (r, d')"
proof (cases "set (concat (map (\<lambda>doc. [json_path_for root doc, markdown_path_for root doc]) docs))
              \<inter> set (from_keys (map resolve_path removals)) = {}")
  case True
  then have run: "abind (aread (\<lambda>d. originals_of d (batch_targets root docs removals)))
      (\<lambda>os. with_rollback os (batch_body render root docs removals)) d = (r, d')"
    using assms unfolding write_task_docs_and_remove_def Let_def batch_targets_def batch_body_def by simp
  show thesis
  proof (cases "originals_of d (batch_targets root docs removals)")
    case (Inl e)
    then have "r = Inl e" "d' = d" using run by (simp_all add: abind_def aread_def)
    then show thesis by (rule that(1))
  next
    case (Inr os)
    then have "with_rollback os (batch_body render root docs removals) d = (r, d')" using run by (simp add: abind_def aread_def)
    with Inr show thesis by (rule that(2))
  qed
next
  case False
  then have "aread (\<lambda>_. Inl (ValueError ''write and removal targets overlap'')) d = (r, d')"
    using assms unfolding write_task_docs_and_remove_def Let_def by simp
  then have "r = Inl (ValueError ''write and removal targets overlap'')" "d' = d" by simp_all
  then show thesis by (rule that(1))
qed

text \<open>C39. A batch of task documents is written as a whole or not at all. When some write or unlink fails,
  also one that fails after its effect, either every file is back to the bytes it had, or the error
  says that the restoration failed too; when the batch succeeds, the disk has exactly the new
  documents and not the removed files, and the reported removals are the files that were there. In
  every case no other file is touched.\<close>

theorem publication_is_failure_atomic:
  assumes "write_task_docs_and_remove render root docs removals d = (r, d')"
  shows "(case r of
      Inr (paths, deleted) \<Rightarrow> \<exists>ws. batch_writes render [] (map (Pair root) docs) = Inr (ws, paths)
        \<and> dk_files d' = files_after ws (from_keys (map resolve_path removals)) (dk_files d)
        \<and> deleted = filter (\<lambda>p. files_after ws [] (dk_files d) p \<noteq> None) (from_keys (map resolve_path removals))
    | Inl e \<Rightarrow> dk_files d' = dk_files d \<or> (\<exists>what. e = RuntimeError what))
    \<and> (\<forall>q. q \<notin> resolve_path ` (\<Union>doc\<in>set docs. {json_path_for root doc, markdown_path_for root doc}) \<union> resolve_path ` set removals
         \<longrightarrow> dk_files d' q = dk_files d q)"
proof -
  define ordered where "ordered = from_keys (map resolve_path removals)"
  define ps where "ps = batch_targets root docs removals"
  define body where "body = batch_body render root docs removals"
  define P where "P = resolve_path ` (\<Union>doc\<in>set docs. {json_path_for root doc, markdown_path_for root doc}) \<union> resolve_path ` set removals"
  have P: "resolve_path ` set ps = P" by (simp add: ps_def batch_targets_def P_def image_Un image_image)
  have conf: "confined P body"
    using confined_batch_and_remove [of root docs ordered render] by (simp add: body_def batch_body_def P_def ordered_def image_image)
  from assms consider e where "r = Inl e" "d' = d" | os where "originals_of d ps = Inr os" "with_rollback os body d = (r, d')"
    unfolding ps_def body_def by (rule write_and_remove_cases)
  then show ?thesis
  proof cases
    case 1
    then show ?thesis unfolding P_def [symmetric] by simp
  next
    case (2 os)
    have os: "\<And>p c. (p, c) \<in> set os \<Longrightarrow> resolve_path p \<in> P"
      unfolding P [symmetric] originals_of_Inr(1) [OF 2(1), symmetric] by force
    have frame: "\<forall>q. q \<notin> P \<longrightarrow> dk_files d' q = dk_files d q" 
    proof -
      have "confined P (with_rollback os body)" using conf os by (rule confined_rollback)
      then show ?thesis using confinedD [of P "with_rollback os body" d r d'] 2(2) by blast
    qed
    show ?thesis
    proof (cases r)
      case (Inl e)
      then show ?thesis using rolled_back [of os body d e d' ps] 2 conf frame unfolding P P_def [symmetric] by simp
    next
      case (Inr x)
      obtain paths deleted where x: "x = (paths, deleted)" by force
      have "body d = (Inr (paths, deleted), d')" using with_rollback_Inr 2(2) by (simp add: Inr x)
      then have "\<exists>ws. batch_writes render [] (map (Pair root) docs) = Inr (ws, paths) \<and> dk_files d' = files_after ws ordered (dk_files d)
          \<and> deleted = filter (\<lambda>p. files_after ws [] (dk_files d) p \<noteq> None) ordered"
        unfolding body_def batch_body_def ordered_def by (rule batch_and_remove) auto
      then show ?thesis using frame unfolding Inr x sum.case prod.case ordered_def P_def by (rule conjI)
    qed
  qed
qed

text \<open>The second file of a leaf fails after its effect; both files are removed again.\<close>

definition failing_disk :: disk where
  "failing_disk = \<lparr>dk_files = (\<lambda>_. None), dk_unreadable = (\<lambda>_. False), dk_script = [Io_done, Io_late (OSError ''fsync'')]\<rparr>"

theorem publication_is_failure_atomic_witness:
  "\<exists>d'. write_task_docs_and_remove (\<lambda>_. Inr (''{}'', ''md'')) sample_root [sample_leaf ''L1''] [sample_root @ [''old.md'']] failing_disk
      = (Inl (OSError ''fsync''), d') \<and> dk_files d' = dk_files failing_disk"
proof -
  let ?run = "write_task_docs_and_remove (\<lambda>_. Inr (''{}'', ''md'')) sample_root [sample_leaf ''L1''] [sample_root @ [''old.md'']] failing_disk"
  have "fst ?run = Inl (OSError ''fsync'')" by code_simp
  then obtain d' where d': "?run = (Inl (OSError ''fsync''), d')" by (metis prod.collapse)
  then have "dk_files d' = dk_files failing_disk" using publication_is_failure_atomic [OF d'] by simp
  then show ?thesis using d' by blast
qed

end
