(* ===== verification/Fact_Publication.thy ===== *)
theory Fact_Publication
  imports Task_Publication
begin

text \<open>
  What publishing a change of task documents guarantees: an edit lands only on the sources it was
  prepared from, a projection that cannot be refreshed never undoes or hides it, and no projection of
  the old facts survives it.
\<close>

section \<open>Runs over several scopes\<close>

definition elsewhere_same :: "task_document_ref set \<Rightarrow> task_world \<Rightarrow> task_world \<Rightarrow> bool" where
  "elsewhere_same K w w' \<longleftrightarrow> tw_disk w' = tw_disk w \<and> (\<forall>ref. ref \<notin> K \<longrightarrow> tw_queues w' ref = tw_queues w ref)"

text \<open>When each item works on the store of its own key, a traversal establishes the fact of every item.\<close>

lemma traverse_scopes:
  assumes step: "\<And>x w r w'. x \<in> set xs \<Longrightarrow> tw_disk w = D \<Longrightarrow> pre x (tw_queues w (k x)) \<Longrightarrow> f x w = (r, w') \<Longrightarrow>
      \<exists>y. r = Inr y \<and> post x y (tw_queues w' (k x)) \<and> elsewhere_same {k x} w w'"
    and start: "distinct (map k xs)" "tw_disk w = D" "\<forall>x\<in>set xs. pre x (tw_queues w (k x))" "traverse_act f xs w = (r, w')"
  shows "\<exists>ys. r = Inr ys \<and> list_all2 (\<lambda>x y. post x y (tw_queues w' (k x))) xs ys \<and> elsewhere_same (k ` set xs) w w'"
  using assms
proof (induction xs arbitrary: w r w')
  case Nil
  then show ?case by (simp add: elsewhere_same_def)
next
  case (Cons x xs)
  obtain r1 w1 where f: "f x w = (r1, w1)" by force
  obtain y where y: "r1 = Inr y" "post x y (tw_queues w1 (k x))" "elsewhere_same {k x} w w1"
    using Cons.prems(1) [OF _ Cons.prems(3) _ f] Cons.prems(4) by auto
  obtain r2 w2 where rest: "traverse_act f xs w1 = (r2, w2)" by force
  have "\<forall>x'\<in>set xs. pre x' (tw_queues w1 (k x'))"
  proof
    fix x' assume x': "x' \<in> set xs"
    then have "k x' \<noteq> k x" using Cons.prems(2) by (metis distinct.simps(2) image_eqI list.simps(9) list.set_map)
    then show "pre x' (tw_queues w1 (k x'))" using Cons.prems(4) x' y(3) by (simp add: elsewhere_same_def)
  qed
  then obtain ys where ys: "r2 = Inr ys" "list_all2 (\<lambda>x y. post x y (tw_queues w2 (k x))) xs ys" "elsewhere_same (k ` set xs) w1 w2"
    using Cons.IH [of w1 r2 w2] Cons.prems(1-3) y(3) rest by (auto simp: elsewhere_same_def)
  have res: "r = Inr (y # ys)" "w' = w2"
    using Cons.prems(5) f y(1) rest ys(1) by (auto simp: abind_def aread_def)
  have "tw_queues w2 (k x) = tw_queues w1 (k x)" using ys(3) Cons.prems(2) by (simp add: elsewhere_same_def)
  then show ?case using y ys(2,3) by (auto simp: res elsewhere_same_def)
qed

section \<open>Invalidating a scope\<close>

definition emptied :: "queue_store \<Rightarrow> bool" where
  "emptied s \<longleftrightarrow> (\<exists>st. (\<forall>ts. read_state s ts = Inr st) \<and> qs_serviceCondition st = Invalid_empty)"

lemma read_for_invalidation_cases:
  assumes "read_for_invalidation s ts = Inr (current, existed, malformed)"
  obtains "malformed = None" "read_state s ts = Inr current" "queue_exists s = Inr existed"
  | p where "malformed = Some p" "empty_state s 0 [p] ts = Inr current"
  using assms unfolding read_for_invalidation_def on_store_error_def
  by (auto elim!: rbind_InrE split: sum.splits py_error.splits)

lemma emptied_published: "empty_state s n ps ts = Inr st \<Longrightarrow> st_file s' = Text (Some st) \<Longrightarrow> st_sprint s' = st_sprint s \<Longrightarrow> emptied s'"
  using read_state_empty [of s n ps ts st s'] by (auto simp: emptied_def empty_state_Inr)

lemma invalidate_locked_empties:
  assumes "invalidate_locked s ts = Inr ((st, inval), s')"
  shows "emptied s' \<and> st_sprint s' = st_sprint s \<and> ir_outcome inval \<noteq> Invalidation_failed"
proof -
  obtain current existed malformed where rd: "read_for_invalidation s ts = Inr (current, existed, malformed)"
    using assms unfolding invalidate_locked_def by (elim rbind_InrE) auto
  note rest = assms [unfolded invalidate_locked_def rd rbind_Inr prod.case]
  from rd show ?thesis
  proof (cases rule: read_for_invalidation_cases)
    case 1
    consider "st_file s = No_file" "\<not> existed" "empty_state s 0 [] ts = Inr current" | "st_file s \<noteq> No_file" "existed"
      using 1(2,3) by (cases "st_file s") (auto simp: queue_exists_def read_state_def)
    then show ?thesis
    proof cases
      case a: 1
      then show ?thesis using rest 1(1) emptied_published [OF a(3)] by (auto simp: publish_Inr elim!: rbind_InrE)
    next
      case b: 2
      show ?thesis
      proof (cases "qs_serviceCondition current = Invalid_empty")
        case True
        then have s': "s' = clear_build s" "ir_outcome inval = Already_empty" using rest 1(1) b(2) by auto
        have "read_state (clear_build s) ts' = Inr current" for ts'
          using read_state_file [of "clear_build s" s ts' ts] b(1) 1(2) by simp
        then show ?thesis using True s' by (auto simp: emptied_def)
      next
        case False
        then show ?thesis using rest 1(1) b(2) emptied_published by (auto simp: publish_Inr elim!: rbind_InrE)
      qed
    qed
  next
    case (2 p)
    then have "empty_state s 0 [] ts = Inr (current\<lparr>qs_sourceProblems := []\<rparr>)" by (auto simp: empty_state_Inr)
    from emptied_published [OF this] show ?thesis using rest 2(1) by (auto simp: publish_Inr Let_def elim!: rbind_InrE)
  qed
qed

lemma invalidate_empties:
  assumes "invalidate h ts s = (Inr (st, inval), s')"
  shows "emptied s' \<and> st_sprint s' = st_sprint s \<and> ir_outcome inval \<noteq> Invalidation_failed"
  using assms by (auto simp: invalidate_def rbind_eq_Inr_iff exclusive_access_Inr dest!: invalidate_locked_empties)

lemma class_name_bounded: "text_within MAX_CLOSEOUT_SHORT_TEXT (class_name e)"
  by (cases e) (simp_all add: text_within_def MAX_CLOSEOUT_SHORT_TEXT_def)

text \<open>The stores a mutation may meet: each belongs to its sprint and its path fits a diagnostic.\<close>

definition addressable :: "task_document_ref \<Rightarrow> queue_store result \<Rightarrow> bool" where
  "addressable ref q \<longleftrightarrow> text_within MAX_CLOSEOUT_TEXT (ref_key ref) \<and> (\<forall>s. q = Inr s \<longrightarrow> path_text_ok s \<and> st_sprint s = ref)"

definition ready :: "task_document_ref \<Rightarrow> invalidation_receipt \<Rightarrow> queue_store result \<Rightarrow> bool" where
  "ready ref receipt q \<longleftrightarrow> text_within MAX_CLOSEOUT_TEXT (ref_key ref)
     \<and> (if ir_outcome (rc_invalidation receipt) = Invalidation_failed then ir_diagnostic (rc_invalidation receipt) \<noteq> None
        else \<exists>s. q = Inr s \<and> st_sprint s = ref \<and> emptied s)"

lemma failed_receipt_total:
  assumes "case store of None \<Rightarrow> text_within MAX_CLOSEOUT_TEXT (ref_key ref) | Some s \<Rightarrow> path_text_ok s"
  shows "\<exists>rc. failed_receipt store ref existed n fp e = Inr rc \<and> ir_outcome (rc_invalidation rc) = Invalidation_failed
    \<and> ir_diagnostic (rc_invalidation rc) \<noteq> None"
  using assms class_name_bounded [of e]
  by (auto simp: failed_receipt_def projection_problem_def make_problem_def path_text_ok_def split: option.splits)

lemma invalidate_store_ready:
  assumes "addressable ref (Inr s)" "invalidate_store h ref ts s = (r, s')"
  shows "\<exists>rc. r = Inr rc \<and> ready ref rc (Inr s')"
proof -
  have total: "\<exists>rc. failed_receipt (Some s) ref existed n fp e = Inr rc \<and> ready ref rc q" for existed n fp e q
    using failed_receipt_total [where store = "Some s" and ref = ref and existed = existed and n = n and fp = fp and e = e] assms(1) by (auto simp: addressable_def ready_def)
  show ?thesis
  proof (cases "queue_exists s")
    case (Inl e)
    then show ?thesis using assms(2) total [of True None None e "Inr s'"] by (auto simp: invalidate_store_def)
  next
    case ex: (Inr existed)
    show ?thesis
    proof (cases "read_raw s ts")
      case (Inl e)
      then show ?thesis using assms(2) ex total [of existed None None e "Inr s'"] by (auto simp: invalidate_store_def)
    next
      case rd: (Inr prior)
      obtain r1 s1 where inv: "invalidate h ts s = (r1, s1)" by force
      show ?thesis
      proof (cases r1)
        case (Inl e)
        then show ?thesis using assms(2) ex rd inv total [of existed _ _ e "Inr s'"] by (auto simp: invalidate_store_def Let_def)
      next
        case (Inr x)
        obtain st inval where x: "x = (st, inval)" by force
        have "emptied s1 \<and> st_sprint s1 = st_sprint s \<and> ir_outcome inval \<noteq> Invalidation_failed"
          using invalidate_empties inv by (simp add: Inr x)
        then show ?thesis using assms ex rd inv by (auto simp: invalidate_store_def Let_def Inr x ready_def addressable_def)
      qed
    qed
  qed
qed

lemma invalidate_scope_ready:
  assumes "addressable ref (tw_queues w ref)" "invalidate_scope h ts ref w = (r, w')"
  shows "\<exists>rc. r = Inr rc \<and> ready ref rc (tw_queues w' ref) \<and> elsewhere_same {ref} w w'"
proof (cases "tw_queues w ref")
  case (Inl e)
  then show ?thesis using assms failed_receipt_total [where store = None and ref = ref and existed = False and n = None and fp = None and e = e]
    by (auto simp: invalidate_scope_def addressable_def ready_def elsewhere_same_def)
next
  case (Inr s)
  obtain r1 s1 where run: "invalidate_store h ref ts s = (r1, s1)" by force
  then have "r = r1" "w' = w\<lparr>tw_queues := (tw_queues w)(ref := Inr s1)\<rparr>"
    using assms(2) Inr by (auto simp: invalidate_scope_def on_queue_def)
  then show ?thesis using invalidate_store_ready [OF _ run] assms(1) Inr by (auto simp: elsewhere_same_def)
qed

section \<open>Rebuilding a scope\<close>

lemma emptied_same_file:
  assumes "emptied s" "st_file s' = st_file s" "st_sprint s' = st_sprint s"
  shows "emptied s'"
proof -
  have "st_file s \<noteq> No_file"
  proof
    assume none: "st_file s = No_file"
    obtain st where st: "\<forall>ts. read_state s ts = Inr st" using assms(1) by (auto simp: emptied_def)
    then have "read_state s ''a'' = Inr st" "read_state s ''b'' = Inr st" by auto
    then show False using none by (auto simp: read_state_def empty_state_Inr)
  qed
  then show ?thesis using assms(1) read_state_file [OF assms(2,3)] by (fastforce simp: emptied_def)
qed

definition valid_members :: "projection_build \<Rightarrow> bool" where
  "valid_members b \<longleftrightarrow> list_all (\<lambda>m. validate_member m = Inr m) (pb_members b)"

lemma publish_locked_emptied:
  assumes "publish_locked s b src = Inr ((st, rb), s')" "emptied s" "valid_members b"
  shows "st_sprint s' = st_sprint s
    \<and> (if rr_outcome rb \<in> {Published, Already_current} then \<exists>i. src = Inr i \<and> (\<forall>ts. read_state s' ts = Inr st) \<and> source_matches st i
       else emptied s')"
proof -
  obtain cur i where cur: "read_state s (pb_builtAt b) = Inr cur" and src: "src = Inr i"
    using assms(1) unfolding publish_locked_def by (auto elim!: rbind_InrE)
  have empty: "qs_serviceCondition cur = Invalid_empty" using assms(2) cur by (auto simp: emptied_def)
  note run = assms(1) [unfolded publish_locked_def cur src rbind_Inr]
  have same: ?thesis if "s' = clear_build s" "rr_outcome rb \<notin> {Published, Already_current}"
    using that emptied_same_file [OF assms(2), of "clear_build s"] by auto
  show ?thesis
  proof (cases "source_readable i \<and> si_fingerprint i = Some (pb_sourceFingerprint b)
      \<and> si_classification i = Some (pb_sourceClassification b) \<and> si_members i = pb_members b")
    case False
    then have "s' = clear_build s" "rr_outcome rb \<in> {Source_unreadable, Source_changed}"
      using run by (auto simp: no_rebuild_def elim!: rbind_InrE split: if_splits)
    then show ?thesis using same by auto
  next
    case True
    define new where "new = \<lparr>qs_sprint = st_sprint s, qs_revision = qs_revision cur + 1, qs_serviceCondition = Valid_built,
      qs_sourceClassification = Some (pb_sourceClassification b), qs_sourceFingerprint = Some (pb_sourceFingerprint b),
      qs_members = pb_members b, qs_sourceProblems = [], qs_updatedAt = pb_builtAt b\<rparr>"
    obtain x s1 where x: "make_queue_state new = Inr x" "publish x s = Inr s1" "st = x" "s' = clear_build s1" "rr_outcome rb = Published"
      using run True empty by (auto simp: source_matches_def new_def elim!: rbind_InrE split: if_splits)
    then have st: "st = new" "make_queue_state new = Inr new" by (auto simp: make_queue_state_Inr)
    then have "validate_queue_state new = Inr new"
      using assms(3) by (intro validate_queue_state_fixed) (simp_all add: new_def valid_members_def)
    moreover have "qs_sprint new = st_sprint s" by (simp add: new_def)
    ultimately have "read_state s' ts = Inr st" for ts using x(2-4) by (auto simp: read_state_def publish_Inr st)
    then show ?thesis using x(2-5) True src by (auto simp: publish_Inr source_matches_def st new_def)
  qed
qed

lemma publish_build_emptied:
  assumes "publish_build h b src s = (r, s')" "emptied s" "valid_members b"
  shows "st_sprint s' = st_sprint s \<and> (case r of Inl e \<Rightarrow> emptied s'
    | Inr (st, rb) \<Rightarrow> if rr_outcome rb \<in> {Published, Already_current}
        then \<exists>i. src = Inr i \<and> (\<forall>ts. read_state s' ts = Inr st) \<and> source_matches st i else emptied s')"
proof -
  let ?s1 = "s\<lparr>st_build := Some b\<rparr>"
  consider e where "r = Inl e" "s' = s" | e where "r = Inl e" "s' = ?s1"
    | st rb where "r = Inr (st, rb)" "publish_locked ?s1 b src = Inr ((st, rb), s')"
    using assms(1) unfolding publish_build_def
    by (auto simp: abind_def awrite_def rbind_eq_Inr_iff exclusive_access_Inr split: sum.splits prod.splits if_splits)
  then show ?thesis
  proof cases
    case 1
    then show ?thesis using assms(2) by simp
  next
    case 2
    then show ?thesis using emptied_same_file [OF assms(2), of ?s1] by simp
  next
    case 3
    have "emptied ?s1" by (rule emptied_same_file [OF assms(2)]) simp_all
    then show ?thesis using publish_locked_emptied [OF 3(2) _ assms(3)] 3(1) by simp
  qed
qed

text \<open>What a scope looks like once it was handled: refreshed from the sources as they are now, or empty
  (unless its invalidation failed) with the action that repairs it.\<close>

definition settled :: "census \<Rightarrow> disk \<Rightarrow> task_document_ref \<Rightarrow> projection_effect \<Rightarrow> queue_store result \<Rightarrow> bool" where
  "settled c D ref ef q \<longleftrightarrow> ef_sprint ef = ref
     \<and> (if ef_nextAction ef = None
        then \<exists>s st src w. q = Inr s \<and> (\<forall>ts. read_state s ts = Inr st) \<and> source_matches st src
               \<and> tw_disk w = D \<and> cs_at_publish c ref w = Inr src
        else ef_nextAction ef = Some (Rebuild ref)
          \<and> (ir_outcome (ef_invalidation ef) = Invalidation_failed \<or> (\<exists>s. q = Inr s \<and> emptied s)))"

lemma rebuild_settled:
  assumes "rebuild_invalidated_closeout_projection h receipt ts captured at_publish s = (r, s')"
    and "emptied s" "coherent_capture captured"
  shows "st_sprint s' = st_sprint s \<and> (case r of Inl e \<Rightarrow> emptied s'
    | Inr ef \<Rightarrow> ef_sprint ef = st_sprint s \<and> (if ef_nextAction ef = None
        then \<exists>st i. at_publish = Inr i \<and> (\<forall>ts. read_state s' ts = Inr st) \<and> source_matches st i
        else ef_nextAction ef = Some (Rebuild (st_sprint s)) \<and> emptied s'))"
proof -
  have effect: "ef_sprint ef = sprint \<and> ef_nextAction ef = (if rr_outcome rb \<in> {Published, Already_current} then None else Some (Rebuild sprint))"
    if "rebuild_effect sprint receipt st rb = Inr ef" for ef sprint st rb
    using that by (auto simp: rebuild_effect_def incomplete_has_action_def Let_def split: if_splits)
  show ?thesis
  proof (cases "snapshot_build captured (st_sprint s)")
    case (Inl e)
    then show ?thesis using assms(1,2) by (auto simp: rebuild_invalidated_closeout_projection_def abind_def aread_def)
  next
    case (Inr build)
    show ?thesis
    proof (cases build)
      case None
      let ?rb = "(no_rebuild Source_unreadable)\<lparr>rr_sourceProblems := si_problems (ss_identity captured)\<rparr>"
      have "s' = s" and r: "\<exists>st. r = rebuild_effect (st_sprint s) receipt st ?rb \<or> (\<exists>e. r = Inl e)"
        using assms(1) Inr None
        by (auto simp: rebuild_invalidated_closeout_projection_def abind_def aread_def rbind_def split: sum.splits)
      then show ?thesis using assms(2) effect [of "st_sprint s" _ ?rb]
        by (auto simp: no_rebuild_def split: sum.split)
    next
      case (Some b)
      have valid: "valid_members b"
        using assms(3) Inr Some by (auto simp: valid_members_def coherent_capture_def snapshot_build_Some)
      obtain r1 s1 where pub: "publish_build h b at_publish s = (r1, s1)" by force
      note pe = publish_build_emptied [OF pub assms(2) valid]
      show ?thesis
      proof (cases r1)
        case Inl1: (Inl e)
        then have "r = Inl e" "s' = s1" using assms(1) Inr Some pub
          by (simp_all add: rebuild_invalidated_closeout_projection_def abind_def aread_def)
        then show ?thesis using pe Inl1 by simp
      next
        case Inr1: (Inr x)
        obtain st rb where x: "x = (st, rb)" by force
        have run: "s' = s1" "r = rebuild_effect (st_sprint s) receipt st rb"
          using assms(1) Inr Some pub Inr1 x by (simp_all add: rebuild_invalidated_closeout_projection_def abind_def aread_def)
        have left: "if rr_outcome rb \<in> {Published, Already_current}
            then \<exists>i. at_publish = Inr i \<and> (\<forall>ts. read_state s' ts = Inr st) \<and> source_matches st i else emptied s'"
          and sprint: "st_sprint s' = st_sprint s" using pe run(1) by (simp_all add: Inr1 x)
        show ?thesis
        proof (cases r)
          case (Inl e)
          then have "rr_outcome rb \<notin> {Published, Already_current}"
            using run(2) by (auto simp: rebuild_effect_def incomplete_has_action_def Let_def split: if_splits)
          then show ?thesis using left sprint Inl by simp
        next
          case (Inr ef)
          then have ef: "ef_sprint ef = st_sprint s"
            "ef_nextAction ef = (if rr_outcome rb \<in> {Published, Already_current} then None else Some (Rebuild (st_sprint s)))"
            using effect [of "st_sprint s" st rb ef] run(2) by simp_all
          show ?thesis using left sprint unfolding Inr sum.case ef by (cases "rr_outcome rb \<in> {Published, Already_current}") auto
        qed
      qed
    qed
  qed
qed

lemma rebuild_keeps_invalidation:
  "rebuild_invalidated_closeout_projection h receipt ts captured at_publish s = (Inr ef, s') \<Longrightarrow> ef_invalidation ef = rc_invalidation receipt"
  by (auto simp: rebuild_invalidated_closeout_projection_def abind_eq_Inr rebuild_effect_def incomplete_has_action_def Let_def
      split: if_splits)

lemma failure_effect_Inr:
  "failure_effect ref receipt outcome p = Inr ef \<Longrightarrow>
     ef_sprint ef = ref \<and> ef_nextAction ef = Some (Rebuild ref) \<and> ef_invalidation ef = rc_invalidation receipt"
  by (auto simp: failure_effect_def incomplete_has_action_def split: if_splits)

lemma failure_effect_total:
  "outcome \<in> {Not_attempted, Source_unreadable} \<Longrightarrow> \<exists>ef. failure_effect ref receipt outcome p = Inr ef"
  by (auto simp: failure_effect_def incomplete_has_action_def no_rebuild_def)

lemma rebuild_failure_effect_total:
  assumes "text_within MAX_CLOSEOUT_TEXT (ref_key ref)"
  shows "\<exists>ef. rebuild_failure_effect ref receipt e = Inr ef \<and> ef_sprint ef = ref \<and> ef_nextAction ef = Some (Rebuild ref)"
  using assms class_name_bounded [of e] failure_effect_total [of Source_unreadable ref receipt] failure_effect_Inr [of ref receipt Source_unreadable]
  by (auto simp: rebuild_failure_effect_def projection_problem_def make_problem_def) metis

lemma scope_effect_settled:
  assumes coherent: "\<And>ref w snap. cs_captured c ref w = Inr snap \<Longrightarrow> coherent_capture snap"
    and "tw_disk w = D" "ready ref receipt (tw_queues w ref)" "scope_effect h c ts (ref, receipt) w = (r, w')"
  shows "\<exists>ef. r = Inr ef \<and> settled c D ref ef (tw_queues w' ref) \<and> elsewhere_same {ref} w w'"
proof (cases "ir_outcome (rc_invalidation receipt) = Invalidation_failed")
  case True
  then obtain p where p: "ir_diagnostic (rc_invalidation receipt) = Some p" using assms(3) by (auto simp: ready_def)
  obtain ef where ef: "failure_effect ref receipt Not_attempted p = Inr ef" using failure_effect_total by blast
  have "r = Inr ef" "w' = w" using assms(4) True p ef by (auto simp: scope_effect_def invalidation_failure_effect_def)
  then show ?thesis using failure_effect_Inr [OF ef] True by (simp add: settled_def elsewhere_same_def)
next
  case False
  then obtain s where s: "tw_queues w ref = Inr s" "st_sprint s = ref" "emptied s" and addr: "text_within MAX_CLOSEOUT_TEXT (ref_key ref)"
    using assms(3) by (auto simp: ready_def)
  have failed: "\<exists>ef. rebuild_failure_effect ref receipt e = Inr ef \<and> settled c D ref ef (Inr s1)" if "emptied s1" for e s1
    using rebuild_failure_effect_total [OF addr, of receipt e] that by (auto simp: settled_def)
  show ?thesis
  proof (cases "cs_captured c ref w")
    case (Inl e)
    then have "r = rebuild_failure_effect ref receipt e" "w' = w" using assms(4) False by (auto simp: scope_effect_def rebuild_scope_def)
    then show ?thesis using failed [OF s(3), of e] s(1) by (auto simp: elsewhere_same_def)
  next
    case (Inr snap)
    obtain r1 s1 where run: "rebuild_invalidated_closeout_projection h receipt ts snap (cs_at_publish c ref w) s = (r1, s1)" by force
    note settles = rebuild_settled [OF run s(3) coherent [OF Inr]]
    have w': "w' = w\<lparr>tw_queues := (tw_queues w)(ref := Inr s1)\<rparr>" "r = (case r1 of Inl e \<Rightarrow> rebuild_failure_effect ref receipt e | Inr ef \<Rightarrow> Inr ef)"
      using assms(4) False Inr s(1) run by (auto simp: scope_effect_def rebuild_scope_def on_queue_def split: sum.splits)
    show ?thesis
    proof (cases r1)
      case (Inl e)
      then show ?thesis using failed [of s1 e] settles by (auto simp: w' elsewhere_same_def)
    next
      case (Inr ef)
      then have "settled c D ref ef (Inr s1)" using settles s(2) assms(2) unfolding settled_def by (auto split: if_splits)
      then show ?thesis using Inr by (simp add: w' elsewhere_same_def)
    qed
  qed
qed

section \<open>Truth first\<close>

lemma sources_current_Inr:
  "require_task_doc_sources_current d snaps = Inr u \<longleftrightarrow> (\<forall>snap\<in>set snaps. capture_task_doc_source d (ts_json_path snap) = Inr snap)"
  by (induction snaps) (auto simp: current_task_doc_source_def publication_conflict_def split: sum.splits py_error.splits if_splits)

lemma ordered_scopes_simps [simp]: "set (ordered_scopes refs) = set refs" "distinct (ordered_scopes refs)"
  by (simp_all add: ordered_scopes_def)

lemma scopes_settled:
  assumes coherent: "\<And>ref w snap. cs_captured c ref w = Inr snap \<Longrightarrow> coherent_capture snap"
    and addr: "\<forall>ref\<in>set scopes. addressable ref (tw_queues w ref)" and dist: "distinct scopes"
    and run: "abind (traverse_act (invalidate_scope h ts) scopes) (\<lambda>receipts. traverse_act (scope_effect h c rb) (zip scopes receipts)) w = (r, w')"
  shows "\<exists>effects. r = Inr effects \<and> list_all2 (\<lambda>ref ef. settled c (tw_disk w) ref ef (tw_queues w' ref)) scopes effects
    \<and> elsewhere_same (set scopes) w w'"
proof -
  obtain r1 w1 where inv: "traverse_act (invalidate_scope h ts) scopes w = (r1, w1)" by force
  have step1: "\<exists>y. r' = Inr y \<and> ready x y (tw_queues v' x) \<and> elsewhere_same {x} v v'"
    if "addressable x (tw_queues v x)" "invalidate_scope h ts x v = (r', v')" for x v r' v'
    using invalidate_scope_ready [OF that] .
  have "\<exists>ys. r1 = Inr ys \<and> list_all2 (\<lambda>x y. ready x y (tw_queues w1 x)) scopes ys \<and> elsewhere_same ((\<lambda>x. x) ` set scopes) w w1"
    by (rule traverse_scopes [where k = "\<lambda>x. x" and pre = addressable and D = "tw_disk w", OF _ _ refl addr inv])
      (use step1 dist in auto)
  then obtain receipts where receipts: "r1 = Inr receipts" "list_all2 (\<lambda>ref rc. ready ref rc (tw_queues w1 ref)) scopes receipts"
    and same1: "elsewhere_same (set scopes) w w1"
    by (auto simp only: image_ident)
  have run2: "traverse_act (scope_effect h c rb) (zip scopes receipts) w1 = (r, w')" using run inv receipts(1) by simp
  have len: "length receipts = length scopes" using receipts(2) by (simp add: list_all2_lengthD)
  have disk: "tw_disk w1 = tw_disk w" using same1 by (simp add: elsewhere_same_def)
  have pre: "\<forall>x\<in>set (zip scopes receipts). ready (fst x) (snd x) (tw_queues w1 (fst x))"
    using receipts(2) by (auto simp: list_all2_iff)
  have step: "\<exists>y. r = Inr y \<and> settled c (tw_disk w) (fst x) y (tw_queues w'' (fst x)) \<and> elsewhere_same {fst x} v w''"
    if "tw_disk v = tw_disk w" "ready (fst x) (snd x) (tw_queues v (fst x))" "scope_effect h c rb x v = (r, w'')" for x v r w''
    by (rule scope_effect_settled [OF _ that(1,2)]) (use coherent that(3) in auto)
  have dist2: "distinct (map fst (zip scopes receipts))" using dist len by simp
  have "\<exists>ys. r = Inr ys \<and> list_all2 (\<lambda>x y. settled c (tw_disk w) (fst x) y (tw_queues w' (fst x))) (zip scopes receipts) ys
      \<and> elsewhere_same (fst ` set (zip scopes receipts)) w1 w'"
    by (rule traverse_scopes [where k = fst and pre = "\<lambda>x. ready (fst x) (snd x)" and post = "\<lambda>x y. settled c (tw_disk w) (fst x) y"
          and D = "tw_disk w" and f = "scope_effect h c rb" and xs = "zip scopes receipts" and w = w1 and r = r and w' = w',
          OF _ dist2 disk pre run2]) (rule step)
  then obtain effects where effects: "r = Inr effects"
    "list_all2 (\<lambda>x y. settled c (tw_disk w) (fst x) y (tw_queues w' (fst x))) (zip scopes receipts) effects"
    "elsewhere_same (fst ` set (zip scopes receipts)) w1 w'" by blast
  have "list_all2 (\<lambda>ref y. settled c (tw_disk w) ref y (tw_queues w' ref)) (map fst (zip scopes receipts)) effects"
    using effects(2) by (simp only: list.rel_map)
  moreover have "fst ` set (zip scopes receipts) = set scopes" using len by (metis list.set_map map_fst_zip)
  ultimately have all: "list_all2 (\<lambda>ref y. settled c (tw_disk w) ref y (tw_queues w' ref)) scopes effects" "elsewhere_same (set scopes) w1 w'"
    using effects(3) len by simp_all
  then have "elsewhere_same (set scopes) w w'" using same1 by (simp add: elsewhere_same_def)
  then show ?thesis using effects(1) all(1) by blast
qed

text \<open>C40. Task truth comes first. A transaction publishes exactly when every source it was prepared from
  is still on the disk byte for byte and its scopes are known; otherwise nothing changes. A failed
  publication is the failure of the transaction and no projection is touched. A successful one is
  never failed by a projection: every scope gets its effect, in order; a scope reported complete
  holds a projection built from the sources as published, and any other one is empty or reported as
  not invalidated, with the action that repairs it; all other projections are untouched.\<close>

theorem task_truth_comes_first:
  assumes "publish_task_doc_transaction h c ts rb scopes snaps publisher w = (r, w')"
    and "\<forall>ref w snap. cs_captured c ref w = Inr snap \<longrightarrow> coherent_capture snap"
    and "\<forall>refs. scopes w = Inr refs \<longrightarrow> (\<forall>ref\<in>set refs. addressable ref (tw_queues w ref))"
  shows "if (\<forall>snap\<in>set snaps. capture_task_doc_source (tw_disk w) (ts_json_path snap) = Inr snap) \<and> (\<exists>refs. scopes w = Inr refs)
    then (case publisher (tw_disk w) of
            (Inl e, d) \<Rightarrow> r = Inl e \<and> w' = w\<lparr>tw_disk := d\<rparr>
          | (Inr x, d) \<Rightarrow> \<exists>refs effects. scopes w = Inr refs \<and> r = Inr (x, effects) \<and> tw_disk w' = d
              \<and> list_all2 (\<lambda>ref ef. settled c d ref ef (tw_queues w' ref)) (ordered_scopes refs) effects
              \<and> (\<forall>ref. ref \<notin> set refs \<longrightarrow> tw_queues w' ref = tw_queues w ref))
    else (\<exists>e. r = Inl e) \<and> w' = w"
proof (cases "rbind (require_task_doc_sources_current (tw_disk w) snaps) (\<lambda>_. scopes w)")
  case (Inl e)
  then have "\<not> ((\<forall>snap\<in>set snaps. capture_task_doc_source (tw_disk w) (ts_json_path snap) = Inr snap) \<and> (\<exists>refs. scopes w = Inr refs))"
    by (auto simp: sources_current_Inr [symmetric, of _ _ "()"])
  moreover have "r = Inl e" "w' = w"
    using assms(1) Inl by (auto simp: publish_task_doc_transaction_def publish_task_fact_mutation_def abind_def aread_def)
  ultimately show ?thesis by (simp only: if_False) blast
next
  case (Inr refs)
  then have cond: "(\<forall>snap\<in>set snaps. capture_task_doc_source (tw_disk w) (ts_json_path snap) = Inr snap)" "scopes w = Inr refs"
    by (auto simp: sources_current_Inr elim!: rbind_InrE)
  obtain r1 d where pub: "publisher (tw_disk w) = (r1, d)" by force
  let ?w1 = "w\<lparr>tw_disk := d\<rparr>"
  show ?thesis
  proof (cases r1)
    case Inl1: (Inl e)
    then have "r = Inl e" "w' = ?w1" using assms(1) Inr pub
      by (auto simp: publish_task_doc_transaction_def publish_task_fact_mutation_def abind_def aread_def on_disk_def)
    then show ?thesis using cond pub Inl1 by simp
  next
    case Inr1: (Inr x)
    obtain r2 w2 where run: "abind (traverse_act (invalidate_scope h ts) (ordered_scopes refs))
        (\<lambda>receipts. traverse_act (scope_effect h c rb) (zip (ordered_scopes refs) receipts)) ?w1 = (r2, w2)" by force
    have addr: "\<forall>ref\<in>set (ordered_scopes refs). addressable ref (tw_queues ?w1 ref)" using assms(3) cond(2) by simp
    have "\<exists>effects. r2 = Inr effects \<and> list_all2 (\<lambda>ref ef. settled c (tw_disk ?w1) ref ef (tw_queues w2 ref)) (ordered_scopes refs) effects
        \<and> elsewhere_same (set (ordered_scopes refs)) ?w1 w2"
      by (rule scopes_settled [OF _ addr _ run]) (use assms(2) in auto)
    then obtain effects where effects: "r2 = Inr effects" "elsewhere_same (set refs) ?w1 w2"
      "list_all2 (\<lambda>ref ef. settled c d ref ef (tw_queues w2 ref)) (ordered_scopes refs) effects"
      by auto
    have "r = Inr (x, effects)" "w' = w2" using assms(1) Inr pub Inr1 run effects(1)
      by (auto simp: publish_task_doc_transaction_def publish_task_fact_mutation_def abind_def aread_def on_disk_def split: sum.splits prod.splits)
    then show ?thesis using cond pub Inr1 effects(2,3) by (auto simp: elsewhere_same_def)
  qed
qed

text \<open>The comparison and the publication are two steps without a lock around them: when two edits are both
  compared before either is published, both succeed and the second leaves no trace of the first.\<close>

lemma edits_compared_together_lose_one:
  assumes "require_task_doc_sources_current d snaps = Inr ()"
    and "write_task_docs render root [doc1] d = (Inr paths1, d1)" "write_task_docs render root [doc2] d1 = (Inr paths2, d2)"
    and "doc_stem doc1 = doc_stem doc2" "resolve_path (json_path_for root doc1) \<noteq> resolve_path (markdown_path_for root doc1)"
  shows "\<exists>ws. batch_writes render [] [(root, doc2)] = Inr (ws, paths2) \<and> dk_files d2 = files_after ws [] (dk_files d)"
proof -
  have paths: "json_path_for root doc1 = json_path_for root doc2" "markdown_path_for root doc1 = markdown_path_for root doc2"
    using assms(4) by (simp_all add: json_path_for_def markdown_path_for_def)
  have w: "write_task_doc_batch render [(root, doc1)] d = (Inr paths1, d1)" "write_task_doc_batch render [(root, doc2)] d1 = (Inr paths2, d2)"
    using assms(2,3) by (simp_all add: write_task_docs_def)
  obtain ws1 where ws1: "batch_writes render [] [(root, doc1)] = Inr (ws1, paths1)" "dk_files d1 = files_after ws1 [] (dk_files d)"
    using write_batch_cases [OF w(1)] by blast
  obtain ws2 where ws2: "batch_writes render [] [(root, doc2)] = Inr (ws2, paths2)" "dk_files d2 = files_after ws2 [] (dk_files d1)"
    using write_batch_cases [OF w(2)] by blast
  have "map fst ws1 = map fst ws2" using batch_writes_paths [OF ws1(1)] batch_writes_paths [OF ws2(1)] by (simp add: paths)
  moreover have "map fst ws2 = [json_path_for root doc2, markdown_path_for root doc2]" using batch_writes_paths [OF ws2(1)] by simp
  ultimately obtain a b a' b' where "ws1 = [(json_path_for root doc2, a), (markdown_path_for root doc2, b)]"
    "ws2 = [(json_path_for root doc2, a'), (markdown_path_for root doc2, b')]" by auto
  then have "dk_files d2 = files_after ws2 [] (dk_files d)"
    using ws2(2) by (auto simp: ws1(2) files_after_def fun_eq_iff)
  then show ?thesis using ws2(1) by blast
qed

section \<open>Witnesses\<close>

definition sample_disk :: disk where
  "sample_disk = \<lparr>dk_files = (\<lambda>_. None), dk_unreadable = (\<lambda>_. False), dk_script = []\<rparr>"

definition sample_world :: task_world where
  "sample_world = \<lparr>tw_disk = sample_disk, tw_queues = (\<lambda>_. Inr sample_queue)\<rparr>"

text \<open>The sources cannot be captured, so the projection is emptied and has to be rebuilt.\<close>

theorem task_truth_comes_first_witness:
  "\<exists>effects w'. publish_task_doc_transaction sample_host \<lparr>cs_captured = (\<lambda>_ _. Inl (OSError ''read'')), cs_at_publish = (\<lambda>_ _. Inl (OSError ''read''))\<rparr>
      ''t1'' ''t2'' (\<lambda>_. Inr [sample_sprint]) [] (unlink [''x'']) sample_world = (Inr ((), effects), w')
    \<and> (\<exists>ef. effects = [ef] \<and> ef_sprint ef = sample_sprint)"
proof -
  let ?c = "\<lparr>cs_captured = (\<lambda>_ _. Inl (OSError ''read'')), cs_at_publish = (\<lambda>_ _. Inl (OSError ''read''))\<rparr> :: census"
  obtain r w' where run: "publish_task_doc_transaction sample_host ?c ''t1'' ''t2'' (\<lambda>_. Inr [sample_sprint]) [] (unlink [''x'']) sample_world = (r, w')"
    by force
  have addr: "addressable sample_sprint (tw_queues sample_world sample_sprint)"
    using sample_queue_texts by (simp add: addressable_def sample_world_def sample_queue_def)
  have pub: "unlink [''x''] (tw_disk sample_world) = (Inr (), put_file [''x''] None sample_disk)"
    by (simp add: unlink_def change_file_def sample_world_def sample_disk_def)
  have "\<exists>effects. r = Inr ((), effects)
      \<and> list_all2 (\<lambda>ref ef. settled ?c (put_file [''x''] None sample_disk) ref ef (tw_queues w' ref)) (ordered_scopes [sample_sprint]) effects"
    using task_truth_comes_first [OF run] addr pub by (simp, blast)
  then obtain effects where "r = Inr ((), effects)" "list_all2 (\<lambda>ref ef. ef_sprint ef = ref) [sample_sprint] effects"
    by (auto simp: ordered_scopes_def settled_def list_all2_Cons1)
  then show ?thesis using run by (auto simp: list_all2_Cons1)
qed

end
