(* ===== verification/Planning_Registers.thy ===== *)
theory Planning_Registers
  imports Task_Edits
begin

text \<open>
  The canonical planning registers of a sprint, \<open>worktrees/queue/closeout_queue_evidence.py\<close> with the
  models of \<open>models/closeout/source.py\<close>, and the part of the task tool that writes them
  (\<open>application/task_docs/task_doc_section_scaffolding.py\<close>). Two Markdown tables in the sections of
  the sprint document are the only authority for the priority of a closeout candidate. Text has the
  characters below 256, so lower case decides the comparison of a heading with its constant. The hash
  and the files that a row refers to are arguments.
\<close>

section \<open>Errors and constants\<close>

text \<open>A queue error carries its status; its bounded detail is not modelled. The parser raises no other error.\<close>

definition shape_invalid :: "'a result" where
  "shape_invalid = Inl (CloseoutQueueError ''closeout-grade-register-shape-invalid'')"

definition PRIORITY_RANK :: "(string, nat) dict" where
  "PRIORITY_RANK = [(''critical'', 0), (''high'', 1), (''normal'', 2), (''low'', 3)]"

definition JUDGMENT_REGISTER_SECTION :: string where
  "JUDGMENT_REGISTER_SECTION = ''judgment register (canonical judgment authority)''"

definition PRIORITY_REGISTER_SECTION :: string where
  "PRIORITY_REGISTER_SECTION = ''priority register (explicit judgment)''"

definition JUDGMENT_REGISTER_HEADING :: string where
  "JUDGMENT_REGISTER_HEADING = ''Judgment Register (canonical judgment authority)''"

definition PRIORITY_REGISTER_HEADING :: string where
  "PRIORITY_REGISTER_HEADING = ''Priority Register (explicit judgment)''"

definition JUDGMENT_REGISTER_HEADER :: "string list" where
  "JUDGMENT_REGISTER_HEADER =
     [''Judgment id'',
      ''Kind (dependency meaning, execution nature, blast radius, priority, blocker placement, ''
        @ ''reprioritization, or leaf move)'',
      ''Subject'', ''Decision'', ''Rationale'', ''Evidence/fact refs'', ''Author'', ''Confidence'', ''Supersedes'']"

definition PRIORITY_REGISTER_HEADER :: "string list" where
  "PRIORITY_REGISTER_HEADER =
     [''Candidate/master'', ''Grade (critical, high, normal, or low)'', ''Affected dependents'', ''Judgment id'']"

section \<open>Rows of a table\<close>

text \<open>\<open>str.splitlines()\<close>: a carriage return and the newline after it end one line.\<close>

definition is_line_break :: "char \<Rightarrow> bool" where
  "is_line_break c = (let n = of_char c :: nat in (10 \<le> n \<and> n \<le> 13) \<or> (28 \<le> n \<and> n \<le> 30) \<or> n = 133)"

fun split_lines :: "string \<Rightarrow> string \<Rightarrow> string list" where
  "split_lines cur [] = (if cur = [] then [] else [cur])"
| "split_lines cur (c # cs) =
     (if is_line_break c
      then cur # split_lines [] (if c = CHR 13 \<and> cs \<noteq> [] \<and> hd cs = CHR 10 then tl cs else cs)
      else split_lines (cur @ [c]) cs)"

definition nonblank_markdown_lines :: "string \<Rightarrow> string list" where
  "nonblank_markdown_lines body = map str_strip (filter (\<lambda>l. str_strip l \<noteq> []) (split_lines [] body))"

text \<open>\<open>_split_markdown_row\<close>: a backslash makes the next character literal.\<close>

fun row_cells :: "string \<Rightarrow> bool \<Rightarrow> string \<Rightarrow> string list" where
  "row_cells current escaped [] = [str_strip (current @ (if escaped then [CHR 0x5C] else []))]"
| "row_cells current escaped (c # cs) =
     (if escaped then row_cells (current @ [c]) False cs
      else if c = CHR 0x5C then row_cells current True cs
      else if c = CHR ''|'' then str_strip current # row_cells [] False cs
      else row_cells (current @ [c]) False cs)"

definition split_markdown_row :: "string \<Rightarrow> string list" where
  "split_markdown_row line = row_cells [] False (butlast (drop 1 line))"

definition outer_pipes :: "string \<Rightarrow> bool" where
  "outer_pipes line \<longleftrightarrow> line \<noteq> [] \<and> hd line = CHR ''|'' \<and> last line = CHR ''|''"

definition require_register_header :: "string list \<Rightarrow> string list \<Rightarrow> unit result" where
  "require_register_header rows header =
     (if length rows < 2 then shape_invalid
      else if outer_pipes (rows ! 0) \<and> split_markdown_row (rows ! 0) = header then Inr () else shape_invalid)"

text \<open>A separator cell: at least three hyphens, with an optional colon at either end.\<close>

definition separator_cell :: "string \<Rightarrow> bool" where
  "separator_cell cell =
     (let left = (if cell \<noteq> [] \<and> hd cell = CHR '':'' then tl cell else cell);
          bar = (if left \<noteq> [] \<and> last left = CHR '':'' then butlast left else left)
      in 3 \<le> length bar \<and> list_all (\<lambda>c. c = CHR ''-'') bar)"

definition require_register_separator :: "string \<Rightarrow> nat \<Rightarrow> unit result" where
  "require_register_separator line width =
     (if \<not> outer_pipes line then shape_invalid
      else (let cells = split_markdown_row line in
            if length cells = width \<and> list_all separator_cell cells then Inr () else shape_invalid))"

definition register_row :: "nat \<Rightarrow> string \<Rightarrow> (string \<times> string list) result" where
  "register_row width line =
     (if \<not> outer_pipes line then shape_invalid
      else (let cells = split_markdown_row line in
            if length cells \<noteq> width then shape_invalid else Inr (line, cells)))"

definition expected_header :: "nat \<Rightarrow> string list option" where
  "expected_header width =
     map_of [(length JUDGMENT_REGISTER_HEADER, JUDGMENT_REGISTER_HEADER),
             (length PRIORITY_REGISTER_HEADER, PRIORITY_REGISTER_HEADER)] width"

definition table_rows :: "string \<Rightarrow> nat \<Rightarrow> (string \<times> string list) list result" where
  "table_rows body width =
     (case expected_header width of None \<Rightarrow> shape_invalid
      | Some header \<Rightarrow>
          (let rows = nonblank_markdown_lines body in
           rbind (require_register_header rows header) (\<lambda>_.
           rbind (require_register_separator (rows ! 1) width) (\<lambda>_.
             traverse (register_row width) (drop 2 rows)))))"

section \<open>The two registers\<close>

record judgment_authority =
  ja_judgment_id :: string
  ja_kind :: string
  ja_subject :: string
  ja_decision :: "(string, string) dict"
  ja_rationale :: string
  ja_evidence_refs :: "string list"
  ja_author :: string
  ja_confidence :: string
  ja_supersedes :: string
  ja_source_row :: string

record priority_authority =
  pa_subject :: string
  pa_priority :: string
  pa_judgment_id :: string
  pa_source_row :: string

type_synonym judgments = "(string, judgment_authority) dict"
type_synonym priorities = "(string, priority_authority) dict"

text \<open>The parts of a decision are separated by commas or semicolons; \<open>str.partition\<close> cuts at the
  first equals sign.\<close>

definition decision_part :: "(string, string) dict \<Rightarrow> string \<Rightarrow> (string, string) dict result" where
  "decision_part decision part =
     (let k = str_strip (takeWhile (\<lambda>c. c \<noteq> CHR ''='') part);
          v = str_strip (drop 1 (dropWhile (\<lambda>c. c \<noteq> CHR ''='') part))
      in if CHR ''='' \<notin> set part \<or> k = [] \<or> v = [] \<or> k \<in> fst ` set decision
         then Inl (CloseoutQueueError ''closeout-grade-decision-invalid'') else Inr (decision @ [(k, v)]))"

fun decision_parts :: "(string, string) dict \<Rightarrow> string list \<Rightarrow> (string, string) dict result" where
  "decision_parts decision [] = Inr decision"
| "decision_parts decision (p # ps) = rbind (decision_part decision p) (\<lambda>d. decision_parts d ps)"

definition nonblank_parts :: "char \<Rightarrow> string \<Rightarrow> string list" where
  "nonblank_parts sep value = filter (\<lambda>p. p \<noteq> []) (map str_strip (split_on sep value))"

definition decision_values :: "string \<Rightarrow> (string, string) dict result" where
  "decision_values value =
     decision_parts [] (nonblank_parts (CHR '';'') (map (\<lambda>c. if c = CHR '','' then CHR '';'' else c) value))"

definition reference_cells :: "string \<Rightarrow> string list" where
  "reference_cells value =
     filter (\<lambda>r. r \<noteq> []) (map (\<lambda>item. strip_chars ''`'' (str_strip item)) (split_on (CHR '','') value))"

text \<open>What one row adds to the rows before it.\<close>

definition judgment_of_row :: "judgments \<Rightarrow> string \<times> string list \<Rightarrow> (string \<times> judgment_authority) result" where
  "judgment_of_row target row =
     (let cells = snd row; judgment_id = cells ! 0; refs = reference_cells (cells ! 5) in
      if judgment_id \<in> fst ` set target then Inl (CloseoutQueueError ''closeout-grade-judgment-duplicate'')
      else if judgment_id = [] \<or> cells ! 1 = [] \<or> cells ! 2 = [] \<or> cells ! 4 = [] \<or> cells ! 6 = [] \<or> cells ! 7 = []
              \<or> refs = []
      then Inl (CloseoutQueueError ''closeout-grade-judgment-invalid'')
      else rbind (decision_values (cells ! 3)) (\<lambda>decision.
        Inr (judgment_id, \<lparr>ja_judgment_id = judgment_id, ja_kind = cells ! 1, ja_subject = cells ! 2,
          ja_decision = decision, ja_rationale = cells ! 4, ja_evidence_refs = refs, ja_author = cells ! 6,
          ja_confidence = cells ! 7, ja_supersedes = cells ! 8, ja_source_row = fst row\<rparr>)))"

definition priority_of_row :: "priorities \<Rightarrow> string \<times> string list \<Rightarrow> (string \<times> priority_authority) result" where
  "priority_of_row target row =
     (let cells = snd row; subject = cells ! 0; judgment_id = cells ! 3 in
      if subject \<in> fst ` set target then Inl (CloseoutQueueError ''closeout-grade-priority-duplicate'')
      else if cells ! 1 \<notin> fst ` set PRIORITY_RANK \<or> judgment_id = []
      then Inl (CloseoutQueueError ''closeout-grade-priority-invalid'')
      else Inr (subject, \<lparr>pa_subject = subject, pa_priority = cells ! 1, pa_judgment_id = judgment_id,
                          pa_source_row = fst row\<rparr>))"

text \<open>Rows are added to the dictionary of the caller, which keeps those before the first that raises.\<close>

fun add_rows :: "(('k, 'v) dict \<Rightarrow> 'r \<Rightarrow> ('k \<times> 'v) result) \<Rightarrow> ('k, 'v) dict \<Rightarrow> 'r list \<Rightarrow> unit result \<times> ('k, 'v) dict" where
  "add_rows f target [] = (Inr (), target)"
| "add_rows f target (r # rs) =
     (case f target r of Inl e \<Rightarrow> (Inl e, target) | Inr (k, v) \<Rightarrow> add_rows f (AList.update k v target) rs)"

definition append_table ::
    "nat \<Rightarrow> (('k, 'v) dict \<Rightarrow> string \<times> string list \<Rightarrow> ('k \<times> 'v) result) \<Rightarrow> ('k, 'v) dict \<Rightarrow> string
     \<Rightarrow> unit result \<times> ('k, 'v) dict" where
  "append_table width f target body =
     (case table_rows body width of Inl e \<Rightarrow> (Inl e, target) | Inr rows \<Rightarrow> add_rows f target rows)"

definition append_judgments :: "judgments \<Rightarrow> string \<Rightarrow> unit result \<times> judgments" where
  "append_judgments = append_table 9 judgment_of_row"

definition append_priorities :: "priorities \<Rightarrow> string \<Rightarrow> unit result \<times> priorities" where
  "append_priorities = append_table 4 priority_of_row"

definition section_key :: "doc_section \<Rightarrow> string" where
  "section_key s = ascii_lower (str_strip (sec_heading s))"

text \<open>One step of \<open>planning_authorities\<close>, and the loop: a strict read raises the first error, a tolerant
  one goes on with what the dictionaries hold.\<close>

definition append_section :: "judgments \<times> priorities \<Rightarrow> doc_section \<Rightarrow> unit result \<times> judgments \<times> priorities" where
  "append_section regs s =
     (if section_key s = JUDGMENT_REGISTER_SECTION
      then (case append_judgments (fst regs) (sec_body s) of (r, js) \<Rightarrow> (r, js, snd regs))
      else if section_key s = PRIORITY_REGISTER_SECTION
      then (case append_priorities (snd regs) (sec_body s) of (r, ps) \<Rightarrow> (r, fst regs, ps))
      else (Inr (), regs))"

fun planning_sections :: "bool \<Rightarrow> judgments \<times> priorities \<Rightarrow> doc_section list \<Rightarrow> (judgments \<times> priorities) result" where
  "planning_sections strict regs [] = Inr regs"
| "planning_sections strict regs (s # ss) =
     (case append_section regs s of
        (Inl e, regs') \<Rightarrow> if strict then Inl e else planning_sections strict regs' ss
      | (Inr _, regs') \<Rightarrow> planning_sections strict regs' ss)"

definition planning_authorities :: "bool \<Rightarrow> task_document \<Rightarrow> (judgments \<times> priorities) result" where
  "planning_authorities strict d = planning_sections strict ([], []) (td_sections d)"

datatype register_fact = Register_absent | Register_ok | Register_malformed

definition fact_of_register :: "task_document \<Rightarrow> string \<Rightarrow> (string \<Rightarrow> unit result) \<Rightarrow> register_fact" where
  "fact_of_register d register_heading parse =
     (let bodies = map sec_body (filter (\<lambda>s. section_key s = register_heading) (td_sections d)) in
      if bodies = [] then Register_absent
      else if list_all (\<lambda>b. parse b = Inr ()) bodies then Register_ok else Register_malformed)"

definition register_section_facts :: "task_document \<Rightarrow> (string, register_fact) dict" where
  "register_section_facts d =
     [(''judgmentRegister'', fact_of_register d JUDGMENT_REGISTER_SECTION (\<lambda>b. fst (append_judgments [] b))),
      (''priorityRegister'', fact_of_register d PRIORITY_REGISTER_SECTION (\<lambda>b. fst (append_priorities [] b)))]"

section \<open>Writing the registers\<close>

text \<open>The gate of the task tool: every register section has to parse, each with fresh dictionaries.\<close>

fun require_sections_valid :: "doc_section list \<Rightarrow> unit result" where
  "require_sections_valid [] = Inr ()"
| "require_sections_valid (s # ss) =
     (case fst (append_section ([], []) s) of Inl _ \<Rightarrow> shape_invalid | Inr _ \<Rightarrow> require_sections_valid ss)"

definition require_register_sections_valid :: "task_document \<Rightarrow> unit result" where
  "require_register_sections_valid d = require_sections_valid (td_sections d)"

definition enforce_register_section_shapes :: "task_document \<Rightarrow> unit result" where
  "enforce_register_section_shapes d =
     (case require_register_sections_valid d of Inl _ \<Rightarrow> Inl (TaskDocError ''register sections'') | Inr _ \<Rightarrow> Inr ())"

fun join_text :: "string \<Rightarrow> string list \<Rightarrow> string" where
  "join_text sep [] = []"
| "join_text sep [w] = w"
| "join_text sep (w # ws) = w @ sep @ join_text sep ws"

definition markdown_line :: "string list \<Rightarrow> string" where
  "markdown_line cells = ''| '' @ join_text '' | '' cells @ '' |''"

definition empty_register_table :: "string list \<Rightarrow> string" where
  "empty_register_table header = markdown_line header @ [CHR 10] @ markdown_line (map (\<lambda>_. ''---'') header)"

definition register_scaffold_sections :: "doc_section list" where
  "register_scaffold_sections =
     [\<lparr>sec_kind = Sec_freeform, sec_heading = JUDGMENT_REGISTER_HEADING,
       sec_body = empty_register_table JUDGMENT_REGISTER_HEADER\<rparr>,
      \<lparr>sec_kind = Sec_freeform, sec_heading = PRIORITY_REGISTER_HEADING,
       sec_body = empty_register_table PRIORITY_REGISTER_HEADER\<rparr>]"

text \<open>The sections of a create request, before the schema reads them: absent, no list, a list with an
  entry that is no object, or sections.\<close>

datatype raw_sections = No_sections | Not_a_list | Not_objects | Raw_sections "doc_section list"

definition validated_section_list :: "raw_sections \<Rightarrow> doc_section list result" where
  "validated_section_list raw =
     (case raw of
        No_sections \<Rightarrow> Inr [] | Not_a_list \<Rightarrow> Inl (TaskDocError ''sections list'')
      | Not_objects \<Rightarrow> Inl (TaskDocError ''section object'') | Raw_sections ss \<Rightarrow> Inr ss)"

definition scaffold_register_sections :: "bool \<Rightarrow> raw_sections \<Rightarrow> raw_sections result" where
  "scaffold_register_sections is_sprint raw =
     (if raw = No_sections \<and> \<not> is_sprint then Inr No_sections
      else rbind (validated_section_list raw) (\<lambda>ss.
        if \<not> is_sprint then Inr (Raw_sections ss)
        else Inr (Raw_sections (ss @ filter (\<lambda>s. section_key s \<notin> section_key ` set ss) register_scaffold_sections))))"

section \<open>The grade of a candidate\<close>

definition MAX_CLOSEOUT_SOURCE_EVIDENCE :: nat where
  "MAX_CLOSEOUT_SOURCE_EVIDENCE = 256"

definition MAX_CLOSEOUT_SOURCE_TEXT :: nat where
  "MAX_CLOSEOUT_SOURCE_TEXT = 8192"

definition MAX_CLOSEOUT_SOURCE_SHORT_TEXT :: nat where
  "MAX_CLOSEOUT_SOURCE_SHORT_TEXT = 256"

record scheduling_grade_input =
  gi_priority :: string
  gi_judgmentId :: string
  gi_urgency :: "string option"
  gi_risk :: "string option"

record scheduling_grade =
  sg_priority :: string
  sg_urgency :: "string option"
  sg_risk :: "string option"
  sg_judgmentId :: string
  sg_subject :: string
  sg_rationale :: string
  sg_evidenceRefs :: "string list"
  sg_decidedBy :: string
  sg_confidence :: string
  sg_supersedes :: string

record evidence_fact =
  ef_path :: string
  ef_sha256 :: string

record grade_authority =
  ga_sprint :: resolved_document
  ga_judgments :: judgments
  ga_priorities :: priorities

datatype file_state = Missing_file | Unreadable_file | File_bytes string

record evidence_env =
  ev_sha256 :: "string \<Rightarrow> string"
  ev_files :: "path \<Rightarrow> file_state"

definition length_within :: "nat \<Rightarrow> nat \<Rightarrow> string \<Rightarrow> bool" where
  "length_within lo hi s \<longleftrightarrow> lo \<le> length s \<and> length s \<le> hi"

definition grade_invalid :: "'a result" where
  "grade_invalid = Inl (CloseoutQueueError ''closeout-grade-invalid'')"

definition optional_text :: "payload \<Rightarrow> string \<Rightarrow> string option result" where
  "optional_text d k =
     (case map_of d k of None \<Rightarrow> Inr None | Some JNull \<Rightarrow> Inr None
      | Some (JStr s) \<Rightarrow> if length_within 0 MAX_CLOSEOUT_SOURCE_TEXT s then Inr (Some s) else grade_invalid
      | Some _ \<Rightarrow> grade_invalid)"

text \<open>\<open>SchedulingGradeInput.model_validate\<close>.\<close>

definition validate_grade_input :: "payload \<Rightarrow> scheduling_grade_input result" where
  "validate_grade_input d =
     (if \<not> set (map fst d) \<subseteq> {''priority'', ''judgmentId'', ''urgency'', ''risk''} then grade_invalid
      else (case (map_of d ''priority'', map_of d ''judgmentId'') of
              (Some (JStr p), Some (JStr j)) \<Rightarrow>
                if p \<notin> fst ` set PRIORITY_RANK \<or> \<not> length_within 1 MAX_CLOSEOUT_SOURCE_SHORT_TEXT j then grade_invalid
                else rbind (optional_text d ''urgency'') (\<lambda>u. rbind (optional_text d ''risk'') (\<lambda>r.
                  Inr \<lparr>gi_priority = p, gi_judgmentId = j, gi_urgency = u, gi_risk = r\<rparr>))
            | _ \<Rightarrow> grade_invalid))"

definition make_scheduling_grade :: "scheduling_grade_input \<Rightarrow> judgment_authority \<Rightarrow> scheduling_grade result" where
  "make_scheduling_grade asserted j =
     (if length_within 1 MAX_CLOSEOUT_SOURCE_TEXT (ja_subject j) \<and> length_within 1 MAX_CLOSEOUT_SOURCE_TEXT (ja_rationale j)
         \<and> length (ja_evidence_refs j) \<le> MAX_CLOSEOUT_SOURCE_EVIDENCE
         \<and> length_within 1 MAX_CLOSEOUT_SOURCE_SHORT_TEXT (ja_author j)
         \<and> length_within 1 MAX_CLOSEOUT_SOURCE_SHORT_TEXT (ja_confidence j)
         \<and> length_within 0 MAX_CLOSEOUT_SOURCE_SHORT_TEXT (ja_supersedes j)
      then Inr \<lparr>sg_priority = gi_priority asserted, sg_urgency = gi_urgency asserted, sg_risk = gi_risk asserted,
                sg_judgmentId = gi_judgmentId asserted, sg_subject = ja_subject j, sg_rationale = ja_rationale j,
                sg_evidenceRefs = ja_evidence_refs j, sg_decidedBy = ja_author j, sg_confidence = ja_confidence j,
                sg_supersedes = ja_supersedes j\<rparr>
      else grade_invalid)"

definition expected_decision :: "scheduling_grade_input \<Rightarrow> (string, string) dict" where
  "expected_decision asserted =
     [(''priority'', gi_priority asserted)]
       @ (case gi_urgency asserted of None \<Rightarrow> [] | Some u \<Rightarrow> [(''urgency'', u)])
       @ (case gi_risk asserted of None \<Rightarrow> [] | Some r \<Rightarrow> [(''risk'', r)])"

text \<open>Two dictionaries are equal when they have the same items.\<close>

definition require_matching_judgment ::
    "scheduling_grade_input \<Rightarrow> priority_authority \<Rightarrow> judgment_authority \<Rightarrow> unit result" where
  "require_matching_judgment asserted p j =
     (if ja_kind j \<notin> {''priority'', ''reprioritization''} then Inl (CloseoutQueueError ''closeout-grade-judgment-invalid'')
      else if ja_author j \<notin> {''strategist'', ''orchestrator''} then Inl (CloseoutQueueError ''closeout-grade-author-refused'')
      else if ja_subject j \<noteq> pa_subject p then Inl (CloseoutQueueError ''closeout-grade-subject-mismatch'')
      else if set (ja_decision j) \<noteq> set (expected_decision asserted)
      then Inl (CloseoutQueueError ''closeout-grade-values-mismatch'') else Inr ())"

text \<open>Directories are no symbolic links, as in the task tree.\<close>

definition task_relative_evidence :: "evidence_env \<Rightarrow> path \<Rightarrow> string \<Rightarrow> evidence_fact result" where
  "task_relative_evidence env root value =
     (let supplied = str_strip value; resolved = resolve_path (path_join (resolve_path root) supplied) in
      if supplied = [] \<or> is_absolute supplied \<or> \<not> is_relative_to resolved (resolve_path root)
      then Inl (CloseoutQueueError ''closeout-candidate-evidence-outside-task'')
      else (case ev_files env resolved of
              File_bytes content \<Rightarrow>
                (let stored = posix_text (posix_parts supplied) in
                 if length_within 1 MAX_CLOSEOUT_SOURCE_TEXT stored
                 then Inr \<lparr>ef_path = stored, ef_sha256 = ev_sha256 env content\<rparr> else Inl (ValidationError ''EvidenceFact''))
            | _ \<Rightarrow> Inl (CloseoutQueueError ''closeout-candidate-evidence-missing'')))"

definition canonical_grade ::
    "evidence_env \<Rightarrow> payload option \<Rightarrow> grade_authority \<Rightarrow> task_document_ref \<Rightarrow> task_document_ref
     \<Rightarrow> (scheduling_grade \<times> string \<times> evidence_fact list) result" where
  "canonical_grade env raw authority candidate_ref owning_master =
     (case raw of None \<Rightarrow> Inl (CloseoutQueueError ''closeout-grade-required'')
      | Some d \<Rightarrow>
          rbind (validate_grade_input d) (\<lambda>asserted.
          case option_or (map_of (ga_priorities authority) (ref_key candidate_ref))
                         (map_of (ga_priorities authority) (ref_key owning_master)) of
            None \<Rightarrow> Inl (CloseoutQueueError ''closeout-grade-priority-missing'')
          | Some p \<Rightarrow>
              if pa_priority p \<noteq> gi_priority asserted \<or> pa_judgment_id p \<noteq> gi_judgmentId asserted
              then Inl (CloseoutQueueError ''closeout-grade-priority-mismatch'')
              else (case map_of (ga_judgments authority) (gi_judgmentId asserted) of
                      None \<Rightarrow> Inl (CloseoutQueueError ''closeout-grade-judgment-missing'')
                    | Some j \<Rightarrow>
                        rbind (require_matching_judgment asserted p j) (\<lambda>_.
                        rbind (make_scheduling_grade asserted j) (\<lambda>grade.
                        rbind (traverse (task_relative_evidence env (path_parent (rd_path (ga_sprint authority)))) (sg_evidenceRefs grade))
                          (\<lambda>evidence.
                            Inr (grade, ev_sha256 env (pa_source_row p @ [CHR 10] @ ja_source_row j), evidence)))))))"


section \<open>Rows with distinct keys\<close>

text \<open>What both registers promise of a row: it is accepted when it reads on its own and its key is new.\<close>

locale register =
  fixes row :: "('k, 'v) dict \<Rightarrow> string \<times> string list \<Rightarrow> ('k \<times> 'v) result"
    and key :: "string \<times> string list \<Rightarrow> 'k"
    and val :: "string \<times> string list \<Rightarrow> 'v result"
  assumes row_accepts: "row t r = Inr (k, v) \<longleftrightarrow> val r = Inr v \<and> k = key r \<and> key r \<notin> fst ` set t"
begin

lemma row_cases: "(\<exists>e. row t r = Inl e) \<or> (\<exists>v. row t r = Inr (key r, v) \<and> val r = Inr v \<and> key r \<notin> fst ` set t)"
proof (cases "row t r")
  case (Inr p)
  then have "row t r = Inr (fst p, snd p)" by simp
  then show ?thesis using row_accepts [of t r "fst p" "snd p"] by (cases p) auto
qed simp

lemma add_rows_Inr:
  "add_rows row t rs = (Inr (), t') \<longleftrightarrow>
     (\<exists>vs. traverse val rs = Inr vs \<and> t' = t @ zip (map key rs) vs \<and> distinct (map key rs)
           \<and> key ` set rs \<inter> fst ` set t = {})"
proof (induction rs arbitrary: t)
  case (Cons r rs)
  show ?case
  proof (cases "row t r")
    case (Inl e)
    then have "\<not> (\<exists>v. val r = Inr v \<and> key r \<notin> fst ` set t)" using row_accepts [of t r "key r"] by auto
    then show ?thesis using Inl by (auto elim!: rbind_InrE)
  next
    case (Inr p)
    then obtain v where p: "p = (key r, v)" "val r = Inr v" "key r \<notin> fst ` set t"
      using row_cases [of t r] by auto
    have step: "AList.update (key r) v t = t @ [(key r, v)]" using p(3) by (rule update_new)
    show ?thesis using Inr p Cons.IH [of "t @ [(key r, v)]"] by (fastforce simp: step elim!: rbind_InrE)
  qed
qed auto

lemma add_rows_mem:
  assumes "add_rows row t rs = (res, t')" "(k, v) \<in> set t'"
  shows "(k, v) \<in> set t \<or> (\<exists>r\<in>set rs. key r = k \<and> val r = Inr v)"
  using assms
proof (induction rs arbitrary: t)
  case (Cons r rs)
  show ?case
  proof (cases "row t r")
    case (Inl e)
    then show ?thesis using Cons.prems by simp
  next
    case (Inr p)
    then obtain w where p: "p = (key r, w)" "val r = Inr w" "key r \<notin> fst ` set t"
      using row_cases [of t r] by auto
    have step: "AList.update (key r) w t = t @ [(key r, w)]" using p(3) by (rule update_new)
    then show ?thesis using Cons.IH [of "t @ [(key r, w)]"] Cons.prems Inr p by auto
  qed
qed simp

lemma append_table_Inr:
  "append_table n row t body = (Inr (), t') \<longleftrightarrow>
     (\<exists>new. append_table n row [] body = (Inr (), new) \<and> t' = t @ new \<and> dict_wf new
            \<and> fst ` set new \<inter> fst ` set t = {})"
proof (cases "table_rows body n")
  case (Inr rows)
  have len: "map fst (zip (map key rows) vs) = map key rows" if "traverse val rows = Inr vs" for vs
    using that by (auto simp: traverse_Inr_iff dest: list_all2_lengthD)
  then have keys: "fst ` set (zip (map key rows) vs) = key ` set rows" if "traverse val rows = Inr vs" for vs
    using that by (metis list.set_map)
  show ?thesis unfolding append_table_def Inr sum.case add_rows_Inr
    by (cases "traverse val rows") (auto simp: len keys)
qed (simp add: append_table_def)

lemma append_table_mem:
  assumes "append_table n row t body = (res, t')" "(k, v) \<in> set t'" "(k, v) \<notin> set t"
  shows "\<exists>rows r. table_rows body n = Inr rows \<and> r \<in> set rows \<and> key r = k \<and> val r = Inr v"
  using assms add_rows_mem by (fastforce simp: append_table_def split: sum.splits)

end

definition judgment_value :: "string \<times> string list \<Rightarrow> judgment_authority result" where
  "judgment_value r = rbind (judgment_of_row [] r) (\<lambda>p. Inr (snd p))"

definition priority_value :: "string \<times> string list \<Rightarrow> priority_authority result" where
  "priority_value r = rbind (priority_of_row [] r) (\<lambda>p. Inr (snd p))"

interpretation jr: register judgment_of_row "\<lambda>r. snd r ! 0" judgment_value
  by unfold_locales (auto simp: judgment_value_def judgment_of_row_def Let_def elim!: rbind_InrE)

interpretation pr: register priority_of_row "\<lambda>r. snd r ! 0" priority_value
  by unfold_locales (auto simp: priority_value_def priority_of_row_def Let_def elim!: rbind_InrE)

section \<open>Reading all sections\<close>

definition section_judgments :: "doc_section \<Rightarrow> judgments" where
  "section_judgments s = (if section_key s = JUDGMENT_REGISTER_SECTION then snd (append_judgments [] (sec_body s)) else [])"

definition section_priorities :: "doc_section \<Rightarrow> priorities" where
  "section_priorities s = (if section_key s = PRIORITY_REGISTER_SECTION then snd (append_priorities [] (sec_body s)) else [])"

lemma register_keys_differ: "JUDGMENT_REGISTER_SECTION \<noteq> PRIORITY_REGISTER_SECTION"
  by (simp add: JUDGMENT_REGISTER_SECTION_def PRIORITY_REGISTER_SECTION_def)

lemmas append_defs = append_judgments_def append_priorities_def

lemma append_section_Inr:
  "append_section (js, ps) s = (Inr (), js', ps') \<longleftrightarrow>
     fst (append_section ([], []) s) = Inr ()
     \<and> js' = js @ section_judgments s \<and> ps' = ps @ section_priorities s
     \<and> dict_wf (section_judgments s) \<and> dict_wf (section_priorities s)
     \<and> fst ` set (section_judgments s) \<inter> fst ` set js = {} \<and> fst ` set (section_priorities s) \<inter> fst ` set ps = {}"
proof -
  consider (is_judgment) "section_key s = JUDGMENT_REGISTER_SECTION"
    | (is_priority) "section_key s = PRIORITY_REGISTER_SECTION" "section_key s \<noteq> JUDGMENT_REGISTER_SECTION"
    | (other) "section_key s \<noteq> JUDGMENT_REGISTER_SECTION" "section_key s \<noteq> PRIORITY_REGISTER_SECTION"
    by blast
  then show ?thesis
  proof cases
    case is_judgment
    have "section_priorities s = []" using is_judgment register_keys_differ by (simp add: section_priorities_def)
    then show ?thesis
      using is_judgment jr.append_table_Inr [of 9 js "sec_body s" js']
      by (cases "append_judgments [] (sec_body s)")
         (auto simp: append_section_def section_judgments_def append_defs split: prod.splits)
  next
    case is_priority
    have "section_judgments s = []" using is_priority by (simp add: section_judgments_def)
    then show ?thesis
      using is_priority pr.append_table_Inr [of 4 ps "sec_body s" ps']
      by (cases "append_priorities [] (sec_body s)")
         (auto simp: append_section_def section_priorities_def append_defs split: prod.splits)
  next
    case other
    then show ?thesis by (auto simp: append_section_def section_judgments_def section_priorities_def)
  qed
qed

lemma planning_sections_step:
  "planning_sections True regs (s # ss) = Inr r \<longleftrightarrow>
     (\<exists>js ps. append_section regs s = (Inr (), js, ps) \<and> planning_sections True (js, ps) ss = Inr r)"
proof (cases "append_section regs s")
  case (fields res js ps)
  then show ?thesis by (cases res) auto
qed

lemma sections_valid_step:
  "require_sections_valid (s # ss) = Inr () \<longleftrightarrow>
     fst (append_section ([], []) s) = Inr () \<and> require_sections_valid ss = Inr ()"
  by (cases "fst (append_section ([], []) s)") (auto simp: shape_invalid_def)

lemma dict_wf_parts:
  assumes "dict_wf (a @ b @ c)"
  shows "dict_wf (a @ b)" "dict_wf b" "fst ` set b \<inter> fst ` set a = {}"
  using assms by (simp_all add: Int_Un_distrib Int_commute)

lemma planning_sections_Inr:
  assumes "dict_wf js" "dict_wf ps"
  shows "planning_sections True (js, ps) ss = Inr (js', ps') \<longleftrightarrow>
     require_sections_valid ss = Inr ()
     \<and> js' = js @ concat (map section_judgments ss) \<and> ps' = ps @ concat (map section_priorities ss)
     \<and> dict_wf js' \<and> dict_wf ps'"
  using assms
proof (induction ss arbitrary: js ps)
  case Nil
  then show ?case by auto
next
  case (Cons s ss)
  show ?case (is "?L \<longleftrightarrow> ?R")
  proof
    assume ?L
    then obtain js1 ps1 where ok: "append_section (js, ps) s = (Inr (), js1, ps1)"
      and rest: "planning_sections True (js1, ps1) ss = Inr (js', ps')"
      unfolding planning_sections_step by blast
    have wf: "dict_wf js1" "dict_wf ps1" using ok [unfolded append_section_Inr] Cons.prems by auto
    have e: "fst (append_section ([], []) s) = Inr ()" "js1 = js @ section_judgments s" "ps1 = ps @ section_priorities s"
      using ok [unfolded append_section_Inr] by blast+
    have r: "require_sections_valid ss = Inr ()" "js' = js1 @ concat (map section_judgments ss)"
      "ps' = ps1 @ concat (map section_priorities ss)" "dict_wf js'" "dict_wf ps'"
      using rest [unfolded Cons.IH [OF wf]] by blast+
    show ?R unfolding sections_valid_step by (intro conjI r) (simp_all add: e r(2,3))
  next
    assume r: ?R
    let ?js = "js @ section_judgments s" and ?ps = "ps @ section_priorities s"
    have e: "fst (append_section ([], []) s) = Inr ()" and v: "require_sections_valid ss = Inr ()"
      using r unfolding sections_valid_step by blast+
    have eq: "js' = js @ section_judgments s @ concat (map section_judgments ss)"
      "ps' = ps @ section_priorities s @ concat (map section_priorities ss)"
      using r unfolding list.map concat.simps by blast+
    have w: "dict_wf js'" "dict_wf ps'" using r by blast+
    note js = w(1) [unfolded eq] and ps = w(2) [unfolded eq]
    note wf = dict_wf_parts(1) [OF js] dict_wf_parts(1) [OF ps]
    have ok: "append_section (js, ps) s = (Inr (), ?js, ?ps)"
      unfolding append_section_Inr using e dict_wf_parts [OF js] dict_wf_parts [OF ps] by blast
    have "planning_sections True (?js, ?ps) ss = Inr (js', ps')"
      unfolding Cons.IH [OF wf] by (intro conjI v w) (simp_all add: eq)
    then show ?L unfolding planning_sections_step using ok by blast
  qed
qed


section \<open>Where an entry comes from\<close>

text \<open>An entry is backed by a row of a section of the document: its source row is one of the data lines of
  the table, and reading that line alone gives the entry.\<close>

definition register_line :: "task_document \<Rightarrow> string \<Rightarrow> nat \<Rightarrow> string \<Rightarrow> bool" where
  "register_line d heading width line \<longleftrightarrow>
     (\<exists>s\<in>set (td_sections d). section_key s = heading \<and> line \<in> set (drop 2 (nonblank_markdown_lines (sec_body s)))
        \<and> register_row width line = Inr (line, split_markdown_row line))"

definition judgment_backed :: "task_document \<Rightarrow> string \<times> judgment_authority \<Rightarrow> bool" where
  "judgment_backed d p \<longleftrightarrow>
     (let line = ja_source_row (snd p) in
      register_line d JUDGMENT_REGISTER_SECTION 9 line \<and> judgment_of_row [] (line, split_markdown_row line) = Inr p)"

definition priority_backed :: "task_document \<Rightarrow> string \<times> priority_authority \<Rightarrow> bool" where
  "priority_backed d p \<longleftrightarrow>
     (let line = pa_source_row (snd p) in
      register_line d PRIORITY_REGISTER_SECTION 4 line \<and> priority_of_row [] (line, split_markdown_row line) = Inr p)"

lemma table_rows_line:
  assumes "table_rows body n = Inr rows" "r \<in> set rows"
  shows "fst r \<in> set (drop 2 (nonblank_markdown_lines body)) \<and> register_row n (fst r) = Inr r
         \<and> r = (fst r, split_markdown_row (fst r)) \<and> length (snd r) = n"
proof -
  obtain line where line: "line \<in> set (drop 2 (nonblank_markdown_lines body))" "register_row n line = Inr r"
    using assms traverse_set [of "register_row n" "drop 2 (nonblank_markdown_lines body)" rows r]
    by (auto simp: table_rows_def shape_invalid_def Let_def elim!: rbind_InrE split: option.splits)
  then show ?thesis by (auto simp: register_row_def Let_def shape_invalid_def split: if_splits)
qed

lemma judgment_value_Inr: "judgment_value r = Inr v \<longleftrightarrow> judgment_of_row [] r = Inr (snd r ! 0, v)"
  using jr.row_accepts [of "[]" r "snd r ! 0" v] by simp

lemma priority_value_Inr: "priority_value r = Inr v \<longleftrightarrow> priority_of_row [] r = Inr (snd r ! 0, v)"
  using pr.row_accepts [of "[]" r "snd r ! 0" v] by simp

lemma judgment_source_row: "judgment_of_row t r = Inr p \<Longrightarrow> ja_source_row (snd p) = fst r"
  by (auto simp: judgment_of_row_def Let_def split: if_splits elim!: rbind_InrE)

lemma priority_source_row: "priority_of_row t r = Inr p \<Longrightarrow> pa_source_row (snd p) = fst r"
  by (auto simp: priority_of_row_def Let_def split: if_splits)

lemma appended_judgment_backed:
  assumes "append_judgments js (sec_body s) = (res, js')" "p \<in> set js'" "p \<notin> set js"
    and "s \<in> set (td_sections d)" "section_key s = JUDGMENT_REGISTER_SECTION"
  shows "judgment_backed d p"
proof -
  obtain rows r where rows: "table_rows (sec_body s) 9 = Inr rows" "r \<in> set rows"
    and r: "snd r ! 0 = fst p" "judgment_value r = Inr (snd p)"
    using jr.append_table_mem [of 9 js "sec_body s" res js' "fst p" "snd p"] assms(1-3) by (auto simp: append_defs)
  have own: "judgment_of_row [] r = Inr p" using r unfolding judgment_value_Inr by simp
  note line = table_rows_line [OF rows]
  have "register_line d JUDGMENT_REGISTER_SECTION 9 (fst r)"
    unfolding register_line_def using assms(4,5) line by metis
  moreover have "judgment_of_row [] (fst r, split_markdown_row (fst r)) = Inr p" using own line by metis
  ultimately show ?thesis unfolding judgment_backed_def Let_def judgment_source_row [OF own] by blast
qed

lemma appended_priority_backed:
  assumes "append_priorities ps (sec_body s) = (res, ps')" "p \<in> set ps'" "p \<notin> set ps"
    and "s \<in> set (td_sections d)" "section_key s = PRIORITY_REGISTER_SECTION"
  shows "priority_backed d p"
proof -
  obtain rows r where rows: "table_rows (sec_body s) 4 = Inr rows" "r \<in> set rows"
    and r: "snd r ! 0 = fst p" "priority_value r = Inr (snd p)"
    using pr.append_table_mem [of 4 ps "sec_body s" res ps' "fst p" "snd p"] assms(1-3) by (auto simp: append_defs)
  have own: "priority_of_row [] r = Inr p" using r unfolding priority_value_Inr by simp
  note line = table_rows_line [OF rows]
  have "register_line d PRIORITY_REGISTER_SECTION 4 (fst r)"
    unfolding register_line_def using assms(4,5) line by metis
  moreover have "priority_of_row [] (fst r, split_markdown_row (fst r)) = Inr p" using own line by metis
  ultimately show ?thesis unfolding priority_backed_def Let_def priority_source_row [OF own] by blast
qed

lemma append_section_backed:
  assumes "append_section (js, ps) s = (res, js', ps')" "s \<in> set (td_sections d)"
    and "\<forall>p\<in>set js. judgment_backed d p" "\<forall>p\<in>set ps. priority_backed d p"
  shows "(\<forall>p\<in>set js'. judgment_backed d p) \<and> (\<forall>p\<in>set ps'. priority_backed d p)"
proof (cases "section_key s = JUDGMENT_REGISTER_SECTION")
  case True
  then have "append_judgments js (sec_body s) = (res, js')" "ps' = ps"
    using assms(1) by (simp_all add: append_section_def split: prod.splits)
  then show ?thesis using appended_judgment_backed [of js s res js' _ d] True assms(2-4) by blast
next
  case other: False
  show ?thesis
  proof (cases "section_key s = PRIORITY_REGISTER_SECTION")
    case True
    then have "append_priorities ps (sec_body s) = (res, ps')" "js' = js"
      using other assms(1) by (simp_all add: append_section_def split: prod.splits)
    then show ?thesis using appended_priority_backed [of ps s res ps' _ d] True assms(2-4) by blast
  next
    case False
    then show ?thesis using other assms(1,3,4) by (simp add: append_section_def)
  qed
qed

lemma planning_sections_backed:
  assumes "planning_sections strict (js, ps) ss = Inr (js', ps')" "set ss \<subseteq> set (td_sections d)"
    and "\<forall>p\<in>set js. judgment_backed d p" "\<forall>p\<in>set ps. priority_backed d p"
  shows "(\<forall>p\<in>set js'. judgment_backed d p) \<and> (\<forall>p\<in>set ps'. priority_backed d p)"
  using assms
proof (induction ss arbitrary: js ps)
  case (Cons s ss)
  obtain res js1 ps1 where one: "append_section (js, ps) s = (res, js1, ps1)" by (metis prod_cases3)
  have b: "(\<forall>p\<in>set js1. judgment_backed d p) \<and> (\<forall>p\<in>set ps1. priority_backed d p)"
    by (rule append_section_backed [OF one _ Cons.prems(3,4)]) (use Cons.prems(2) in simp)
  have "planning_sections strict (js1, ps1) ss = Inr (js', ps')"
    using Cons.prems(1) one by (cases res) (simp_all split: if_splits)
  then show ?case by (rule Cons.IH) (use b Cons.prems(2) in simp_all)
qed simp

lemma planning_authorities_backed:
  assumes "planning_authorities strict d = Inr (js, ps)"
  shows "(\<forall>p\<in>set js. judgment_backed d p) \<and> (\<forall>p\<in>set ps. priority_backed d p)"
  using planning_sections_backed [of strict "[]" "[]" "td_sections d" js ps d] assms
  by (simp add: planning_authorities_def)

end
