(* ===== verification/Register_Properties.thy ===== *)
theory Register_Properties
  imports Planning_Registers
begin

text \<open>
  What the planning registers guarantee: a table that is written in the canonical form is read back, the
  gate and the strict read differ by the keys that two sections share, and a grade comes from two rows of
  the sprint document.
\<close>

section \<open>Text that the parser reads back\<close>

text \<open>How a cell is written so that \<open>_split_markdown_row\<close> reads it back, and a table of such rows under the
  canonical header.\<close>

fun escape_cell :: "string \<Rightarrow> string" where
  "escape_cell [] = []"
| "escape_cell (c # cs) = (if c = CHR ''|'' \<or> c = CHR 0x5C then CHR 0x5C # c # escape_cell cs else c # escape_cell cs)"

definition register_table :: "string list \<Rightarrow> string list list \<Rightarrow> string" where
  "register_table header rows =
     join_with (CHR 10) (markdown_line header # markdown_line (map (\<lambda>_. ''---'') header)
       # map (\<lambda>r. markdown_line (map escape_cell r)) rows)"

definition plain_line :: "string \<Rightarrow> bool" where
  "plain_line s \<longleftrightarrow> (\<forall>c\<in>set s. \<not> is_line_break c)"

lemma empty_register_table_eq: "empty_register_table header = register_table header []"
  by (simp add: empty_register_table_def register_table_def)

lemma str_strip_space: "is_space c \<Longrightarrow> str_strip (c # s) = str_strip s"
  by (simp add: str_strip_def)

lemma dropWhile_snoc_False: "\<not> P x \<Longrightarrow> dropWhile P (xs @ [x]) = dropWhile P xs @ [x]"
  by (induction xs) auto

lemma str_strip_snoc: "is_space c \<Longrightarrow> str_strip (s @ [c]) = str_strip s"
proof (cases "list_all is_space s")
  case True
  assume "is_space c"
  then have "blank (s @ [c])" "blank s" using True by (simp_all add: blank_def)
  then show ?thesis by (metis str_strip_Nil_iff)
next
  case False
  assume c: "is_space c"
  have "dropWhile is_space (s @ [c]) = dropWhile is_space s @ [c]"
    using False by (induction s) auto
  then show ?thesis using c by (simp add: str_strip_def)
qed

lemma blank_char: "is_space (CHR '' '')"
  by (simp add: is_space_def)

lemma row_cells_escaped:
  "row_cells cur False (escape_cell c @ rest) = row_cells (cur @ c) False rest"
  by (induction c arbitrary: cur) auto

lemma row_cells_line:
  "cells \<noteq> [] \<Longrightarrow>
   row_cells '' '' False (join_text '' | '' (map escape_cell cells) @ '' '') = map str_strip cells"
proof (induction cells)
  case (Cons c cs)
  have one: "str_strip (CHR '' '' # c @ '' '') = str_strip c"
    using blank_char str_strip_space [of "CHR '' ''" "c @ '' ''"] str_strip_snoc [of "CHR '' ''" c] by simp
  show ?case
  proof (cases cs)
    case Nil
    then show ?thesis using one row_cells_escaped [of "'' ''" c "'' ''"] by simp
  next
    case (Cons d ds)
    have "join_text '' | '' (map escape_cell (c # cs)) = escape_cell c @ '' | '' @ join_text '' | '' (map escape_cell cs)"
      using Cons by simp
    then show ?thesis using one Cons.IH Cons row_cells_escaped [of "'' ''" c] by simp
  qed
qed simp

lemma split_markdown_line:
  "cells \<noteq> [] \<Longrightarrow> split_markdown_row (markdown_line (map escape_cell cells)) = map str_strip cells"
proof -
  assume ne: "cells \<noteq> []"
  let ?j = "join_text '' | '' (map escape_cell cells)"
  have "butlast (drop 1 (markdown_line (map escape_cell cells))) = '' '' @ ?j @ '' ''"
    using butlast_append [of "'' '' @ ?j @ '' ''" "''|''"] by (simp add: markdown_line_def)
  then show ?thesis using row_cells_line [OF ne] by (simp add: split_markdown_row_def)
qed

lemma outer_pipes_line: "outer_pipes (markdown_line cells)"
  by (simp add: outer_pipes_def markdown_line_def)

lemma markdown_line_strip: "str_strip (markdown_line cells) = markdown_line cells"
  by (rule str_strip_id) (simp_all add: markdown_line_def is_space_def)

lemma set_join_text: "set (join_text sep ws) \<subseteq> set sep \<union> \<Union> (set ` set ws)"
  by (induction sep ws rule: join_text.induct) auto

lemma set_escape_cell: "set (escape_cell c) \<subseteq> insert (CHR 0x5C) (set c)"
  by (induction c) auto

lemma plain_line_markdown:
  assumes "\<And>c. c \<in> set cells \<Longrightarrow> plain_line c"
  shows "plain_line (markdown_line cells)"
  using set_join_text [of "'' | ''" cells] assms
  by (fastforce simp: markdown_line_def plain_line_def is_line_break_def)

lemma plain_line_escape: "plain_line c \<Longrightarrow> plain_line (escape_cell c)"
  using set_escape_cell [of c] by (fastforce simp: plain_line_def is_line_break_def)

lemma split_lines_plain: "plain_line s \<Longrightarrow> split_lines cur (s @ rest) = split_lines (cur @ s) rest"
  by (induction s arbitrary: cur) (auto simp: plain_line_def)

lemma split_lines_join:
  "(\<And>l. l \<in> set ls \<Longrightarrow> plain_line l \<and> l \<noteq> []) \<Longrightarrow> split_lines [] (join_with (CHR 10) ls) = ls"
proof (induction ls)
  case (Cons l ls)
  have l: "plain_line l" "l \<noteq> []" using Cons.prems by auto
  show ?case
  proof (cases ls)
    case Nil
    then show ?thesis using l split_lines_plain [of l "[]" "[]"] by simp
  next
    case (Cons m ms)
    then have "join_with (CHR 10) (l # ls) = l @ CHR 10 # join_with (CHR 10) ls" by simp
    then show ?thesis
      using l Cons.IH Cons.prems split_lines_plain [of l "[]" "CHR 10 # join_with (CHR 10) ls"]
      by (simp add: is_line_break_def)
  qed
qed simp

lemma nonblank_markdown_lines_join:
  assumes "\<And>l. l \<in> set ls \<Longrightarrow> \<exists>cells. l = markdown_line cells \<and> (\<forall>c\<in>set cells. plain_line c)"
  shows "nonblank_markdown_lines (join_with (CHR 10) ls) = ls"
proof -
  have l: "plain_line l \<and> l \<noteq> [] \<and> str_strip l = l" if "l \<in> set ls" for l
    using assms [OF that] plain_line_markdown markdown_line_strip by (auto simp: markdown_line_def)
  have "split_lines [] (join_with (CHR 10) ls) = ls" using l by (intro split_lines_join) blast
  moreover have "filter (\<lambda>l. str_strip l \<noteq> []) ls = ls" using l by (intro filter_True) auto
  moreover have "map str_strip ls = ls" using l by (intro map_idI) blast
  ultimately show ?thesis by (simp only: nonblank_markdown_lines_def)
qed

lemma register_table_lines:
  assumes "\<And>c. c \<in> set header \<Longrightarrow> plain_line c" "\<And>r c. r \<in> set rows \<Longrightarrow> c \<in> set r \<Longrightarrow> plain_line c"
  shows "nonblank_markdown_lines (register_table header rows)
    = markdown_line header # markdown_line (map (\<lambda>_. ''---'') header) # map (\<lambda>r. markdown_line (map escape_cell r)) rows"
  unfolding register_table_def
proof (rule nonblank_markdown_lines_join)
  fix l
  assume "l \<in> set (markdown_line header # markdown_line (map (\<lambda>_. ''---'') header)
    # map (\<lambda>r. markdown_line (map escape_cell r)) rows)"
  then consider "l = markdown_line header" | "l = markdown_line (map (\<lambda>_. ''---'') header)"
    | r where "r \<in> set rows" "l = markdown_line (map escape_cell r)" by auto
  then show "\<exists>cells. l = markdown_line cells \<and> (\<forall>c\<in>set cells. plain_line c)"
  proof cases
    case 1
    then show ?thesis using assms(1) by blast
  next
    case 2
    have "plain_line ''---''" by (simp add: plain_line_def is_line_break_def)
    then show ?thesis using 2 by (intro exI [of _ "map (\<lambda>_. ''---'') header"]) simp
  next
    case 3
    then show ?thesis using assms(2) plain_line_escape by (intro exI [of _ "map escape_cell r"]) auto
  qed
qed

text \<open>The header of a register has no character to escape, and no cell with blanks around it.\<close>

lemma escape_plain: "CHR ''|'' \<notin> set c \<Longrightarrow> CHR 0x5C \<notin> set c \<Longrightarrow> escape_cell c = c"
  by (induction c) auto

definition header_cell :: "string \<Rightarrow> bool" where
  "header_cell c \<longleftrightarrow> c \<noteq> [] \<and> list_all (\<lambda>x. x \<noteq> CHR ''|'' \<and> x \<noteq> CHR 0x5C \<and> \<not> is_line_break x) c
     \<and> \<not> is_space (hd c) \<and> \<not> is_space (last c)"

lemma header_cells: "list_all header_cell JUDGMENT_REGISTER_HEADER" "list_all header_cell PRIORITY_REGISTER_HEADER"
  by code_simp+

lemma header_cellD:
  assumes "header_cell c"
  shows "escape_cell c = c" "str_strip c = c" "plain_line c"
proof -
  have "CHR ''|'' \<notin> set c" "CHR 0x5C \<notin> set c" "plain_line c"
    using assms by (auto simp: header_cell_def list_all_iff plain_line_def)
  then show "escape_cell c = c" "plain_line c" by (simp_all add: escape_plain)
  show "str_strip c = c" using assms by (intro str_strip_id) (simp_all add: header_cell_def)
qed

lemma expected_header_cells: "expected_header n = Some header \<Longrightarrow> list_all header_cell header \<and> length header = n \<and> header \<noteq> []"
  using header_cells
  by (auto simp: expected_header_def JUDGMENT_REGISTER_HEADER_def PRIORITY_REGISTER_HEADER_def split: if_splits)

lemma split_header: "list_all header_cell cells \<Longrightarrow> cells \<noteq> [] \<Longrightarrow> split_markdown_row (markdown_line cells) = cells"
proof -
  assume c: "list_all header_cell cells" and ne: "cells \<noteq> []"
  have "map escape_cell cells = cells" "map str_strip cells = cells"
    using c header_cellD by (auto simp: list_all_iff intro!: map_idI)
  then show ?thesis using split_markdown_line [OF ne] by simp
qed

lemma table_rows_register_table:
  assumes "expected_header width = Some header"
    and "\<And>r. r \<in> set rows \<Longrightarrow> length r = width \<and> (\<forall>c\<in>set r. plain_line c)"
  shows "table_rows (register_table header rows) width =
    Inr (map (\<lambda>r. (markdown_line (map escape_cell r), map str_strip r)) rows)"
proof -
  note h = expected_header_cells [OF assms(1)]
  have plain: "\<And>c. c \<in> set header \<Longrightarrow> plain_line c" using h header_cellD by (auto simp: list_all_iff)
  note lines = register_table_lines [of header rows, OF plain] 
  have bar: "header_cell ''---''" by code_simp
  then have bars: "list_all header_cell (map (\<lambda>_. ''---'') header)" by (simp add: list_all_iff)
  have sep: "split_markdown_row (markdown_line (map (\<lambda>_. ''---'') header)) = map (\<lambda>_. ''---'') header"
    using split_header [OF bars] h by simp
  have "separator_cell ''---''" by code_simp
  then have separator: "require_register_separator (markdown_line (map (\<lambda>_. ''---'') header)) width = Inr ()"
    using h by (simp add: require_register_separator_def sep outer_pipes_line list_all_iff)
  have row: "register_row width (markdown_line (map escape_cell r)) = Inr (markdown_line (map escape_cell r), map str_strip r)"
    if "r \<in> set rows" for r
  proof -
    have "length r = width" "r \<noteq> []" using assms(2) [OF that] h by auto
    then show ?thesis by (simp add: register_row_def outer_pipes_line split_markdown_line)
  qed
  have "traverse (register_row width) (map (\<lambda>r. markdown_line (map escape_cell r)) rows)
    = Inr (map (\<lambda>r. (markdown_line (map escape_cell r), map str_strip r)) rows)"
    using row by (induction rows) auto
  then show ?thesis
    using assms h lines separator split_header
    by (simp add: table_rows_def require_register_header_def outer_pipes_line)
qed


section \<open>Lemmas on the gate and the two reads\<close>

text \<open>A tolerant read of what a strict read accepts gives the same.\<close>

lemma tolerant_agrees_with_strict:
  "planning_sections True regs ss = Inr r \<Longrightarrow> planning_sections False regs ss = Inr r"
proof (induction ss arbitrary: regs)
  case (Cons s ss)
  then show ?case unfolding planning_sections_step by auto
qed simp

text \<open>The gate looks at one section at a time: two sections of one register with a common key pass it, and
  then every strict read of the document fails.\<close>

lemma repeated_register_passes_gate:
  assumes "fst (append_section ([], []) s) = Inr ()" "section_judgments s \<noteq> []"
  shows "require_register_sections_valid (d\<lparr>td_sections := [s, s]\<rparr>) = Inr ()"
    and "planning_authorities True (d\<lparr>td_sections := [s, s]\<rparr>) \<noteq> Inr r"
proof -
  show "require_register_sections_valid (d\<lparr>td_sections := [s, s]\<rparr>) = Inr ()"
    using assms(1) by (simp add: require_register_sections_valid_def split: sum.splits)
  have "\<not> dict_wf (section_judgments s @ section_judgments s)"
    using assms(2) by (cases "section_judgments s") auto
  then show "planning_authorities True (d\<lparr>td_sections := [s, s]\<rparr>) \<noteq> Inr r"
    using planning_sections_Inr [of "[]" "[]" "[s, s]" "fst r" "snd r"] by (auto simp: planning_authorities_def)
qed

text \<open>A tolerant read keeps the rows before the first that raises, though the register is reported as
  malformed.\<close>

lemma tolerant_read_keeps_part_of_malformed_register:
  assumes "section_key s = JUDGMENT_REGISTER_SECTION" "append_judgments [] (sec_body s) = (Inl e, js)"
  shows "planning_authorities False (d\<lparr>td_sections := [s]\<rparr>) = Inr (js, [])"
    and "map_of (register_section_facts (d\<lparr>td_sections := [s]\<rparr>)) ''judgmentRegister'' = Some Register_malformed"
  using assms
  by (simp_all add: planning_authorities_def append_section_def register_section_facts_def fact_of_register_def)

lemma scaffold_passes_gate:
  assumes "require_sections_valid ss = Inr ()" "scaffold_register_sections True (Raw_sections ss) = Inr (Raw_sections ss')"
  shows "require_sections_valid ss' = Inr ()"
    and "{JUDGMENT_REGISTER_SECTION, PRIORITY_REGISTER_SECTION} \<subseteq> section_key ` set ss'"
proof -
  have valid_append: "require_sections_valid (xs @ ys) = Inr () \<longleftrightarrow> require_sections_valid xs = Inr () \<and> require_sections_valid ys = Inr ()"
    for xs ys by (induction xs) (auto simp: sections_valid_step simp del: require_sections_valid.simps(2))
  have filter_valid: "require_sections_valid xs = Inr () \<Longrightarrow> require_sections_valid (filter P xs) = Inr ()" for P xs
    by (induction xs) (auto simp: sections_valid_step simp del: require_sections_valid.simps(2))
  have empty: "append_table (length h) f [] (empty_register_table h) = (Inr (), [])"
    if "expected_header (length h) = Some h" for h and f :: "('k, 'v) dict \<Rightarrow> string \<times> string list \<Rightarrow> ('k \<times> 'v) result"
    using table_rows_register_table [OF that, of "[]"] by (simp add: empty_register_table_eq append_table_def)
  have h: "expected_header 9 = Some JUDGMENT_REGISTER_HEADER" "expected_header 4 = Some PRIORITY_REGISTER_HEADER"
    "length JUDGMENT_REGISTER_HEADER = 9" "length PRIORITY_REGISTER_HEADER = 4"
    by (simp_all add: expected_header_def JUDGMENT_REGISTER_HEADER_def PRIORITY_REGISTER_HEADER_def)
  have keys: "ascii_lower (str_strip JUDGMENT_REGISTER_HEADING) = JUDGMENT_REGISTER_SECTION"
    "ascii_lower (str_strip PRIORITY_REGISTER_HEADING) = PRIORITY_REGISTER_SECTION"
    by code_simp+
  have "require_sections_valid register_scaffold_sections = Inr ()"
    using empty [of JUDGMENT_REGISTER_HEADER judgment_of_row] empty [of PRIORITY_REGISTER_HEADER priority_of_row] h
      register_keys_differ
    by (simp add: register_scaffold_sections_def append_section_def section_key_def keys append_defs)
  then show "require_sections_valid ss' = Inr ()"
    using assms valid_append filter_valid by (auto simp: scaffold_register_sections_def validated_section_list_def)
  show "{JUDGMENT_REGISTER_SECTION, PRIORITY_REGISTER_SECTION} \<subseteq> section_key ` set ss'"
    using assms(2) keys
    by (auto simp: scaffold_register_sections_def validated_section_list_def register_scaffold_sections_def section_key_def)
qed

section \<open>The grade and its rows\<close>

lemma scheduling_grade_of:
  "make_scheduling_grade a j = Inr g \<Longrightarrow>
     sg_priority g = gi_priority a \<and> sg_judgmentId g = gi_judgmentId a \<and> sg_urgency g = gi_urgency a \<and> sg_risk g = gi_risk a
     \<and> sg_subject g = ja_subject j \<and> sg_rationale g = ja_rationale j \<and> sg_evidenceRefs g = ja_evidence_refs j
     \<and> sg_decidedBy g = ja_author j \<and> sg_confidence g = ja_confidence j \<and> sg_supersedes g = ja_supersedes j"
  by (auto simp: make_scheduling_grade_def grade_invalid_def split: if_splits)

lemma matching_judgment:
  "require_matching_judgment a p j = Inr u \<Longrightarrow>
     ja_kind j \<in> {''priority'', ''reprioritization''} \<and> ja_author j \<in> {''strategist'', ''orchestrator''}
     \<and> ja_subject j = pa_subject p \<and> set (ja_decision j) = set (expected_decision a)"
  by (auto simp: require_matching_judgment_def split: if_splits)

lemma judgment_entry:
  "judgment_of_row [] (line, cells) = Inr (k, j) \<Longrightarrow>
     k = cells ! 0 \<and> ja_kind j = cells ! 1 \<and> ja_subject j = cells ! 2 \<and> decision_values (cells ! 3) = Inr (ja_decision j)
     \<and> ja_rationale j = cells ! 4 \<and> ja_evidence_refs j = reference_cells (cells ! 5) \<and> ja_author j = cells ! 6
     \<and> ja_confidence j = cells ! 7 \<and> ja_supersedes j = cells ! 8"
  by (auto simp: judgment_of_row_def Let_def split: if_splits elim!: rbind_InrE)

lemma priority_entry:
  "priority_of_row [] (line, cells) = Inr (k, p) \<Longrightarrow>
     k = cells ! 0 \<and> pa_subject p = cells ! 0 \<and> pa_priority p = cells ! 1 \<and> pa_judgment_id p = cells ! 3"
  by (auto simp: priority_of_row_def Let_def split: if_splits)

lemma canonical_grade_InrE:
  assumes "canonical_grade env raw authority candidate owner = Inr (grade, fingerprint, evidence)"
  obtains a p j where
    "option_or (map_of (ga_priorities authority) (ref_key candidate)) (map_of (ga_priorities authority) (ref_key owner)) = Some p"
    "pa_priority p = gi_priority a" "pa_judgment_id p = gi_judgmentId a"
    "map_of (ga_judgments authority) (gi_judgmentId a) = Some j"
    "require_matching_judgment a p j = Inr ()" "make_scheduling_grade a j = Inr grade"
    "traverse (task_relative_evidence env (path_parent (rd_path (ga_sprint authority)))) (sg_evidenceRefs grade) = Inr evidence"
    "fingerprint = ev_sha256 env (pa_source_row p @ [CHR 10] @ ja_source_row j)"
  using assms unfolding canonical_grade_def
  by (auto elim!: rbind_InrE split: option.splits if_splits)

text \<open>What an evidence fact records of a reference: the hash of a file below the directory.\<close>

definition hashed_below :: "evidence_env \<Rightarrow> path \<Rightarrow> string \<Rightarrow> evidence_fact \<Rightarrow> bool" where
  "hashed_below env root ref e \<longleftrightarrow>
     (let resolved = resolve_path (path_join (resolve_path root) (str_strip ref)) in
      is_relative_to resolved (resolve_path root) \<and> ef_path e = posix_text (posix_parts (str_strip ref))
      \<and> (case ev_files env resolved of File_bytes content \<Rightarrow> ef_sha256 e = ev_sha256 env content | _ \<Rightarrow> False))"

lemma task_relative_evidence_Inr: "task_relative_evidence env root ref = Inr e \<Longrightarrow> hashed_below env root ref e"
  by (auto simp: task_relative_evidence_def hashed_below_def Let_def split: if_splits file_state.splits)

text \<open>C19. A grade is what two people wrote. When the planning registers of a sprint were read, strictly or
  tolerantly, and a candidate gets a grade, the sprint document has a row of the Priority Register and a row
  of the Judgment Register that say so: the priority row names the candidate, or its master when the register
  has no row of the candidate, and carries the priority and judgment id of the grade; the judgment row has that
  id, the same subject and an allowed kind, its author is the strategist or the orchestrator, and its decision
  is exactly the priority, urgency and risk of the grade. The fingerprint is the hash of these two lines, and
  every evidence reference is a file below the directory of the sprint, hashed as it is.\<close>

theorem grade_comes_from_both_registers:
  assumes "planning_authorities strict (rd_document sprint) = Inr (js, ps)"
    and "canonical_grade env raw \<lparr>ga_sprint = sprint, ga_judgments = js, ga_priorities = ps\<rparr> candidate owner
         = Inr (grade, fingerprint, evidence)"
  shows "\<exists>p_line j_line p j decision.
    register_line (rd_document sprint) PRIORITY_REGISTER_SECTION 4 p_line \<and> p = split_markdown_row p_line
    \<and> register_line (rd_document sprint) JUDGMENT_REGISTER_SECTION 9 j_line \<and> j = split_markdown_row j_line
    \<and> p ! 0 = (if ref_key candidate \<in> fst ` set ps then ref_key candidate else ref_key owner)
    \<and> p ! 1 = sg_priority grade \<and> p ! 3 = sg_judgmentId grade
    \<and> j ! 0 = sg_judgmentId grade \<and> j ! 1 \<in> {''priority'', ''reprioritization''} \<and> j ! 2 = p ! 0
    \<and> j ! 6 \<in> {''strategist'', ''orchestrator''} \<and> sg_subject grade = j ! 2 \<and> sg_decidedBy grade = j ! 6
    \<and> decision_values (j ! 3) = Inr decision
    \<and> set decision = set (expected_decision \<lparr>gi_priority = sg_priority grade, gi_judgmentId = sg_judgmentId grade,
                                             gi_urgency = sg_urgency grade, gi_risk = sg_risk grade\<rparr>)
    \<and> sg_evidenceRefs grade = reference_cells (j ! 5)
    \<and> fingerprint = ev_sha256 env (p_line @ [CHR 10] @ j_line)
    \<and> list_all2 (hashed_below env (path_parent (rd_path sprint))) (sg_evidenceRefs grade) evidence"
proof -
  note backed = planning_authorities_backed [OF assms(1)]
  obtain a p j where p: "option_or (map_of ps (ref_key candidate)) (map_of ps (ref_key owner)) = Some p"
    and pa: "pa_priority p = gi_priority a" "pa_judgment_id p = gi_judgmentId a"
    and j: "map_of js (gi_judgmentId a) = Some j"
    and match: "require_matching_judgment a p j = Inr ()" and grade: "make_scheduling_grade a j = Inr grade"
    and ev: "traverse (task_relative_evidence env (path_parent (rd_path sprint))) (sg_evidenceRefs grade) = Inr evidence"
    and fp: "fingerprint = ev_sha256 env (pa_source_row p @ [CHR 10] @ ja_source_row j)"
    using canonical_grade_InrE [OF assms(2)] by (metis grade_authority.select_convs)
  let ?k = "if ref_key candidate \<in> fst ` set ps then ref_key candidate else ref_key owner"
  have "map_of ps ?k = Some p"
    using p by (cases "map_of ps (ref_key candidate)") (auto simp: map_of_eq_None_iff dest: map_of_SomeD intro: rev_image_eqI)
  then have "priority_backed (rd_document sprint) (?k, p)" using backed map_of_SomeD by metis
  then have pl: "register_line (rd_document sprint) PRIORITY_REGISTER_SECTION 4 (pa_source_row p)"
    and pe: "priority_of_row [] (pa_source_row p, split_markdown_row (pa_source_row p)) = Inr (?k, p)"
    by (simp_all add: priority_backed_def Let_def)
  have "judgment_backed (rd_document sprint) (gi_judgmentId a, j)" using backed map_of_SomeD [OF j] by blast
  then have jl: "register_line (rd_document sprint) JUDGMENT_REGISTER_SECTION 9 (ja_source_row j)"
    and je: "judgment_of_row [] (ja_source_row j, split_markdown_row (ja_source_row j)) = Inr (gi_judgmentId a, j)"
    by (simp_all add: judgment_backed_def Let_def)
  have "list_all2 (hashed_below env (path_parent (rd_path sprint))) (sg_evidenceRefs grade) evidence"
    using ev [unfolded traverse_Inr_iff] by (rule list_all2_mono) (use task_relative_evidence_Inr in blast)
  moreover have "a = \<lparr>gi_priority = sg_priority grade, gi_judgmentId = sg_judgmentId grade,
                      gi_urgency = sg_urgency grade, gi_risk = sg_risk grade\<rparr>"
    using scheduling_grade_of [OF grade] by simp
  then have "set (ja_decision j) = set (expected_decision \<lparr>gi_priority = sg_priority grade,
      gi_judgmentId = sg_judgmentId grade, gi_urgency = sg_urgency grade, gi_risk = sg_risk grade\<rparr>)"
    using matching_judgment [OF match] by metis
  ultimately show ?thesis
    using pl jl fp pa matching_judgment [OF match] scheduling_grade_of [OF grade] priority_entry [OF pe] judgment_entry [OF je]
    by (intro exI [of _ "pa_source_row p"] exI [of _ "ja_source_row j"] exI [of _ "split_markdown_row (pa_source_row p)"]
          exI [of _ "split_markdown_row (ja_source_row j)"] exI [of _ "ja_decision j"]) simp
qed

text \<open>C20. What a strict read accepts, exactly: a document that passes the write gate, when no id occurs in two
  rows of its judgment sections and no subject in two of its priority sections; and what it reads are the rows
  of the sections one after the other.\<close>

theorem strict_read_needs_distinct_keys:
  "planning_authorities True d = Inr (js, ps) \<longleftrightarrow>
     require_register_sections_valid d = Inr ()
     \<and> js = concat (map section_judgments (td_sections d)) \<and> ps = concat (map section_priorities (td_sections d))
     \<and> dict_wf js \<and> dict_wf ps"
  using planning_sections_Inr [of "[]" "[]" "td_sections d" js ps]
  by (simp add: planning_authorities_def require_register_sections_valid_def)

section \<open>Witnesses\<close>

definition sample_judgment_row :: "string list" where
  "sample_judgment_row =
     [''J1'', ''priority'', ''r/m.json'', ''priority=high; risk=low'', ''because | so'', ''`notes.md`'', ''strategist'', ''sure'', []]"

definition sample_priority_row :: "string list" where
  "sample_priority_row = [''r/m.json'', ''high'', ''none'', ''J1'']"

definition sample_registers :: "doc_section list" where
  "sample_registers =
     [\<lparr>sec_kind = Sec_freeform, sec_heading = JUDGMENT_REGISTER_HEADING,
       sec_body = register_table JUDGMENT_REGISTER_HEADER [sample_judgment_row]\<rparr>,
      \<lparr>sec_kind = Sec_freeform, sec_heading = PRIORITY_REGISTER_HEADING,
       sec_body = register_table PRIORITY_REGISTER_HEADER [sample_priority_row]\<rparr>]"

definition sample_register_sprint :: resolved_document where
  "sample_register_sprint = \<lparr>rd_ref = sprint_ref, rd_path = [''c'', ''tasks'', ''repo'', ''s'', ''task.json''],
     rd_document = Task_Topology.sample_sprint\<lparr>td_sections := sample_registers\<rparr>\<rparr>"

definition sample_evidence :: evidence_env where
  "sample_evidence = \<lparr>ev_sha256 = (\<lambda>s. s),
     ev_files = (\<lambda>p. if p = [''c'', ''tasks'', ''repo'', ''s'', ''notes.md''] then File_bytes ''text'' else Missing_file)\<rparr>"

definition sample_judgment_line :: string where
  "sample_judgment_line = markdown_line (map escape_cell sample_judgment_row)"

definition sample_priority_line :: string where
  "sample_priority_line = markdown_line (map escape_cell sample_priority_row)"

lemma sample_rows_parse:
  "table_rows (register_table JUDGMENT_REGISTER_HEADER [sample_judgment_row]) 9 = Inr [(sample_judgment_line, sample_judgment_row)]"
  "table_rows (register_table PRIORITY_REGISTER_HEADER [sample_priority_row]) 4 = Inr [(sample_priority_line, sample_priority_row)]"
proof -
  have plain: "list_all (\<lambda>c. list_all (\<lambda>x. \<not> is_line_break x) c \<and> str_strip c = c) (sample_judgment_row @ sample_priority_row)"
    by code_simp
  then have p: "\<forall>c\<in>set sample_judgment_row. plain_line c" "\<forall>c\<in>set sample_priority_row. plain_line c"
    and s: "map str_strip sample_judgment_row = sample_judgment_row" "map str_strip sample_priority_row = sample_priority_row"
    by (auto simp: plain_line_def list_all_iff intro!: map_idI)
  have len: "length sample_judgment_row = 9" "length sample_priority_row = 4"
    by (simp_all add: sample_judgment_row_def sample_priority_row_def)
  have h: "expected_header 9 = Some JUDGMENT_REGISTER_HEADER" "expected_header 4 = Some PRIORITY_REGISTER_HEADER"
    by (simp_all add: expected_header_def JUDGMENT_REGISTER_HEADER_def PRIORITY_REGISTER_HEADER_def)
  show "table_rows (register_table JUDGMENT_REGISTER_HEADER [sample_judgment_row]) 9 = Inr [(sample_judgment_line, sample_judgment_row)]"
    using table_rows_register_table [OF h(1), of "[sample_judgment_row]"] p s len by (simp add: sample_judgment_line_def)
  show "table_rows (register_table PRIORITY_REGISTER_HEADER [sample_priority_row]) 4 = Inr [(sample_priority_line, sample_priority_row)]"
    using table_rows_register_table [OF h(2), of "[sample_priority_row]"] p s len by (simp add: sample_priority_line_def)
qed

definition sample_judgments :: judgments where
  "sample_judgments = [(''J1'', \<lparr>ja_judgment_id = ''J1'', ja_kind = ''priority'', ja_subject = ''r/m.json'',
     ja_decision = [(''priority'', ''high''), (''risk'', ''low'')], ja_rationale = ''because | so'', ja_evidence_refs = [''notes.md''],
     ja_author = ''strategist'', ja_confidence = ''sure'', ja_supersedes = [], ja_source_row = sample_judgment_line\<rparr>)]"

definition sample_priorities :: priorities where
  "sample_priorities = [(''r/m.json'', \<lparr>pa_subject = ''r/m.json'', pa_priority = ''high'', pa_judgment_id = ''J1'',
     pa_source_row = sample_priority_line\<rparr>)]"

lemma sample_planning: "planning_authorities True (rd_document sample_register_sprint) = Inr (sample_judgments, sample_priorities)"
proof -
  have j: "judgment_of_row [] (l, sample_judgment_row) = Inr (''J1'', (snd (hd sample_judgments))\<lparr>ja_source_row := l\<rparr>)" for l
    by (simp add: judgment_of_row_def sample_judgment_row_def sample_judgments_def reference_cells_def decision_values_def
        nonblank_parts_def decision_part_def str_strip_def is_space_def strip_chars_def Let_def)
  have p: "priority_of_row [] (l, sample_priority_row) = Inr (''r/m.json'', (snd (hd sample_priorities))\<lparr>pa_source_row := l\<rparr>)" for l
    by (simp add: priority_of_row_def sample_priority_row_def sample_priorities_def PRIORITY_RANK_def Let_def)
  have keys: "ascii_lower (str_strip JUDGMENT_REGISTER_HEADING) = JUDGMENT_REGISTER_SECTION"
    "ascii_lower (str_strip PRIORITY_REGISTER_HEADING) = PRIORITY_REGISTER_SECTION"
    by code_simp+
  show ?thesis
    using j [of sample_judgment_line] p [of sample_priority_line] register_keys_differ
    by (simp add: planning_authorities_def sample_register_sprint_def sample_registers_def append_section_def section_key_def
        keys append_defs append_table_def sample_rows_parse sample_judgments_def sample_priorities_def)
qed

definition sample_grade_request :: payload where
  "sample_grade_request = [(''priority'', JStr ''high''), (''judgmentId'', JStr ''J1''), (''risk'', JStr ''low'')]"

lemma sample_grade:
  "\<exists>g f. canonical_grade sample_evidence (Some sample_grade_request)
     \<lparr>ga_sprint = sample_register_sprint, ga_judgments = sample_judgments, ga_priorities = sample_priorities\<rparr>
     \<lparr>repository = ''r'', ref_path = ''leaf.json''\<rparr> \<lparr>repository = ''r'', ref_path = ''m.json''\<rparr>
   = Inr (g, f, [\<lparr>ef_path = ''notes.md'', ef_sha256 = ''text''\<rparr>])"
proof -
  have ev: "task_relative_evidence sample_evidence [''c'', ''tasks'', ''repo'', ''s''] ''notes.md''
    = Inr \<lparr>ef_path = ''notes.md'', ef_sha256 = ''text''\<rparr>"
    by code_simp
  show ?thesis using ev
    by (simp add: canonical_grade_def sample_grade_request_def validate_grade_input_def optional_text_def PRIORITY_RANK_def
        length_within_def sample_judgments_def sample_priorities_def ref_key_def require_matching_judgment_def expected_decision_def
        make_scheduling_grade_def MAX_CLOSEOUT_SOURCE_TEXT_def MAX_CLOSEOUT_SOURCE_SHORT_TEXT_def
        MAX_CLOSEOUT_SOURCE_EVIDENCE_def sample_register_sprint_def path_parent_def)
qed

theorem grade_comes_from_both_registers_witness:
  "\<exists>line. register_line (rd_document sample_register_sprint) JUDGMENT_REGISTER_SECTION 9 line
     \<and> split_markdown_row line ! 6 \<in> {''strategist'', ''orchestrator''}"
proof -
  obtain g f where grade: "canonical_grade sample_evidence (Some sample_grade_request)
     \<lparr>ga_sprint = sample_register_sprint, ga_judgments = sample_judgments, ga_priorities = sample_priorities\<rparr>
     \<lparr>repository = ''r'', ref_path = ''leaf.json''\<rparr> \<lparr>repository = ''r'', ref_path = ''m.json''\<rparr>
   = Inr (g, f, [\<lparr>ef_path = ''notes.md'', ef_sha256 = ''text''\<rparr>])"
    using sample_grade by blast
  from grade_comes_from_both_registers [OF sample_planning grade] show ?thesis by blast
qed

text \<open>A register row is read back as it was written: a table under the canonical header whose rows have the
  width of the register and cells without line breaks or outer blanks, with pipes and backslashes escaped, is
  parsed to exactly these rows, each beside its source line.\<close>

lemma register_rows_survive:
  assumes "expected_header width = Some header"
    and "\<forall>r\<in>set rows. length r = width \<and> (\<forall>c\<in>set r. plain_line c \<and> str_strip c = c)"
  shows "table_rows (register_table header rows) width = Inr (map (\<lambda>r. (markdown_line (map escape_cell r), r)) rows)"
proof -
  have "map str_strip r = r" if "r \<in> set rows" for r using assms(2) that by (intro map_idI) blast
  then show ?thesis using table_rows_register_table [OF assms(1), of rows] assms(2) by simp
qed

lemma register_rows_survive_witness:
  "table_rows (register_table PRIORITY_REGISTER_HEADER [[''a|b'', ''high'', [], [CHR 0x5C]]]) 4
   = Inr [(''| a'' @ CHR 0x5C # ''|b | high |  | '' @ CHR 0x5C # CHR 0x5C # '' |'', [''a|b'', ''high'', [], [CHR 0x5C]])]"
proof -
  have h: "expected_header 4 = Some PRIORITY_REGISTER_HEADER"
    by (simp add: expected_header_def JUDGMENT_REGISTER_HEADER_def PRIORITY_REGISTER_HEADER_def)
  show ?thesis
    using register_rows_survive [OF h, of "[[''a|b'', ''high'', [], [CHR 0x5C]]]"]
    by (simp add: plain_line_def is_line_break_def str_strip_def is_space_def markdown_line_def)
qed

end
