(* ===== verification/Closeout_Members.thy ===== *)
theory Closeout_Members
  imports Planning_Registers Task_Progress Closeout_Queue
begin

text \<open>
  Which closeout candidate may run: \<open>worktrees/queue/closeout_queue_graph.py\<close>, the bounded projection
  of the sprint graph, and \<open>worktrees/queue/closeout_projection_members.py\<close>, the readiness of one waiting
  door, with the door models of \<open>models/lifecycles/door.py\<close>. The index of the semantic topology, which
  refuses a graph or returns the same one, and the hashes are arguments.
\<close>

section \<open>The sprint graph of the queue\<close>

definition MAX_CLOSEOUT_MASTERS :: nat where
  "MAX_CLOSEOUT_MASTERS = 256"

definition MAX_CLOSEOUT_GRAPH_EDGES :: nat where
  "MAX_CLOSEOUT_GRAPH_EDGES = 4096"

record queue_graph_context =
  qg_sprint :: resolved_document
  qg_graph :: execution_graph
  qg_masters :: "resolved_document list"
  qg_leaf_nodes :: "(task_document_ref, exec_node) dict"
  qg_leaf_facts :: "(string \<times> placement_fact) list"
  qg_incomplete :: "(exec_node, exec_node list) dict"
  qg_authority :: grade_authority

text \<open>A reference error of the task tree is passed on as a queue error with its status.\<close>

fun as_queue_error :: "'a result \<Rightarrow> 'a result" where
  "as_queue_error (Inl (TaskDocumentRefError status)) = Inl (CloseoutQueueError status)"
| "as_queue_error r = r"

definition validated_graph_documents ::
    "task_topology \<Rightarrow> task_document_ref \<Rightarrow> overrides
     \<Rightarrow> (resolved_document \<times> execution_graph \<times> resolved_document list) result" where
  "validated_graph_documents t sprint overrides =
     rbind (as_queue_error (resolve t sprint overrides)) (\<lambda>document.
       case td_executionGraph (rd_document document) of
         None \<Rightarrow> Inl (CloseoutQueueError ''task-execution-topology-migration-required'')
       | Some g \<Rightarrow>
           if length (xg_nodes g) > MAX_CLOSEOUT_MASTERS
           then Inl (CloseoutQueueError ''closeout-queue-master-capacity-exceeded'')
           else if length (xg_edges g) > MAX_CLOSEOUT_GRAPH_EDGES
           then Inl (CloseoutQueueError ''closeout-queue-edge-capacity-exceeded'')
           else rbind (as_queue_error (validate_execution_topology t sprint overrides)) (\<lambda>masters.
                  Inr (document, g, masters)))"

definition candidate_leaf_ids :: "resolved_document list \<Rightarrow> (task_document_ref \<times> string list) list" where
  "candidate_leaf_ids masters =
     map (\<lambda>m. (rd_ref m, map row_number (filter (\<lambda>r. row_file r \<noteq> []) (td_subTasks (rd_document m))))) masters"

text \<open>One master's rows: the leaf of a row with a file gets the node that places its number, authored
  placements overlaid by derived ones.\<close>

definition row_leaf_ref :: "task_document_ref \<Rightarrow> string \<Rightarrow> task_document_ref result" where
  "row_leaf_ref owner leaf_file =
     make_task_document_ref (repository owner)
       (posix_text (path_parent (posix_parts (ref_path owner))) @ ''/'' @ path_stem (posix_parts leaf_file) @ ''.json'')"

fun index_rows ::
    "task_document_ref \<Rightarrow> leaf_placement \<Rightarrow> sub_task_ref list \<Rightarrow> (task_document_ref, exec_node) dict
     \<Rightarrow> (task_document_ref, exec_node) dict result" where
  "index_rows owner placement [] index = Inr index"
| "index_rows owner placement (r # rs) index =
     (case option_or (map_of (lp_derived placement) (row_number r)) (map_of (lp_placed placement) (row_number r)) of
        None \<Rightarrow> index_rows owner placement rs index
      | Some n \<Rightarrow>
          if row_file r = [] then index_rows owner placement rs index
          else rbind (row_leaf_ref owner (row_file r)) (\<lambda>leaf.
                 index_rows owner placement rs (AList.update leaf n index)))"

fun leaf_node_index ::
    "execution_graph \<Rightarrow> task_document_ref set \<Rightarrow> resolved_document list
     \<Rightarrow> (task_document_ref, exec_node) dict \<times> (string \<times> placement_fact) list
     \<Rightarrow> ((task_document_ref, exec_node) dict \<times> (string \<times> placement_fact) list) result" where
  "leaf_node_index g resolved [] acc = Inr acc"
| "leaf_node_index g resolved (m # ms) acc =
     (let rows = td_subTasks (rd_document m) in
      rbind (derived_leaf_placement g (rd_ref m) (map row_number rows) resolved) (\<lambda>placement.
      rbind (index_rows (rd_ref m) placement rows (fst acc)) (\<lambda>index.
        leaf_node_index g resolved ms
          (index, snd acc @ map (\<lambda>f. (ref_key (rd_ref m), f)) (leaf_placement_facts placement)))))"

text \<open>\<open>graph.resolve_endpoint\<close> raises \<open>ValueError\<close>.\<close>

definition endpoint_node :: "execution_graph \<Rightarrow> exec_endpoint \<Rightarrow> exec_node result" where
  "endpoint_node g ep =
     (case resolve_graph_endpoint (xg_nodes g) ep of Inl _ \<Rightarrow> Inl (ValueError ''endpoint'') | Inr n \<Rightarrow> Inr n)"

definition edge_nodes :: "execution_graph \<Rightarrow> exec_edge \<Rightarrow> (exec_node \<times> exec_node) result" where
  "edge_nodes g e =
     rbind (endpoint_node g (xe_predecessor e)) (\<lambda>p. rbind (endpoint_node g (xe_successor e)) (\<lambda>s. Inr (p, s)))"

definition incomplete_predecessor_map ::
    "execution_graph \<Rightarrow> task_document_ref set \<Rightarrow> (exec_node, exec_node list) dict result" where
  "incomplete_predecessor_map g resolved =
     rbind (traverse (edge_nodes g) (xg_edges g)) (\<lambda>pairs.
       let no_nodes = map (\<lambda>n. (n, [])) (xg_nodes g);
           successors = fold (\<lambda>(p, s) d. attach_index p s d) pairs no_nodes in
       Inr (fold (\<lambda>p d. if xn_ref p \<in> resolved then d else fold (\<lambda>s d. attach_index s p d) (looked_up successors p) d)
              (xg_nodes g) no_nodes))"

definition terminal_refs :: "resolved_document list \<Rightarrow> task_document_ref set" where
  "terminal_refs masters = set (map rd_ref (filter (\<lambda>m. master_is_terminal (rd_document m)) masters))"

definition graph_context ::
    "(execution_graph \<Rightarrow> (task_document_ref \<times> string list) list \<Rightarrow> unit result) \<Rightarrow> task_topology \<Rightarrow> task_document_ref
     \<Rightarrow> bool \<Rightarrow> overrides \<Rightarrow> queue_graph_context result" where
  "graph_context index_admits t sprint strict overrides =
     rbind (validated_graph_documents t sprint overrides) (\<lambda>(document, g, masters).
     rbind (index_admits g (candidate_leaf_ids masters)) (\<lambda>_.
     let resolved = terminal_refs masters in
     rbind (leaf_node_index g resolved masters ([], [])) (\<lambda>(leaf_nodes, leaf_facts).
     rbind (planning_authorities strict (rd_document document)) (\<lambda>(js, ps).
     rbind (incomplete_predecessor_map g resolved) (\<lambda>incomplete.
       Inr \<lparr>qg_sprint = document, qg_graph = g, qg_masters = masters, qg_leaf_nodes = leaf_nodes,
            qg_leaf_facts = leaf_facts, qg_incomplete = incomplete,
            qg_authority = \<lparr>ga_sprint = document, ga_judgments = js, ga_priorities = ps\<rparr>\<rparr>)))))"

definition candidate_node :: "queue_graph_context \<Rightarrow> task_document_ref \<Rightarrow> task_document_ref \<Rightarrow> exec_node option" where
  "candidate_node c owner leaf =
     (case nodes_for (qg_graph c) owner of [n] \<Rightarrow> Some n | _ \<Rightarrow> map_of (qg_leaf_nodes c) leaf)"

text \<open>\<open>graph.incomplete_predecessors[node]\<close>: every node of the graph is a key.\<close>

definition master_incomplete_predecessors :: "queue_graph_context \<Rightarrow> task_document_ref \<Rightarrow> exec_node list" where
  "master_incomplete_predecessors c owner = from_keys (concat (map (looked_up (qg_incomplete c)) (nodes_for (qg_graph c) owner)))"

definition candidate_predecessors :: "queue_graph_context \<Rightarrow> task_document_ref \<Rightarrow> task_document_ref \<Rightarrow> exec_node list" where
  "candidate_predecessors c owner leaf =
     (case candidate_node c owner leaf of
        Some n \<Rightarrow> looked_up (qg_incomplete c) n | None \<Rightarrow> master_incomplete_predecessors c owner)"

definition predecessor_label :: "exec_node \<Rightarrow> string" where
  "predecessor_label n =
     (if xn_kind n = Segment then ref_key (xn_ref n) @ '' (leafs: '' @ join_text '', '' (xn_leafIds n) @ '')''
      else ref_key (xn_ref n))"

definition predecessor_waiting_reasons :: "queue_graph_context \<Rightarrow> task_document_ref \<Rightarrow> task_document_ref \<Rightarrow> string list" where
  "predecessor_waiting_reasons c owner leaf =
     map (\<lambda>n. ''predecessor-incomplete: '' @ predecessor_label n) (candidate_predecessors c owner leaf)"

text \<open>The scheduling authority of a sprint (\<open>worktrees/scheduling_mode.py\<close>).\<close>

datatype scheduling_mode = Mode_dag | Mode_atomic_sequential

definition resolve_scheduling_mode ::
    "task_topology \<Rightarrow> task_document_ref \<Rightarrow> (scheduling_mode \<times> resolved_document \<times> resolved_document list) result" where
  "resolve_scheduling_mode t sprint =
     rbind (resolve t sprint []) (\<lambda>document.
       if td_kind (rd_document document) \<noteq> Kd_master \<or> td_orchestrates (rd_document document) = []
       then Inl (TaskDocumentRefError ''task-execution-graph-sprint-required'')
       else rbind (children t sprint) (\<lambda>refs.
            rbind (traverse (\<lambda>r. resolve t r []) refs) (\<lambda>masters.
              Inr (if td_executionGraph (rd_document document) = None then Mode_atomic_sequential else Mode_dag,
                   document, masters))))"

definition effective_execution_nature :: "task_document \<Rightarrow> task_document option \<Rightarrow> execution_nature result" where
  "effective_execution_nature owner sprint =
     (case sprint of
        Some s \<Rightarrow>
          if td_executionGraph s = None then Inr Atomic
          else (case td_executionNature owner of
                  Some n \<Rightarrow> Inr n | None \<Rightarrow> Inl (TaskDocumentRefError ''task-execution-topology-migration-required''))
      | None \<Rightarrow> Inr (or_old (td_executionNature owner) Atomic))"

section \<open>The door of a candidate\<close>

datatype task_intent_state = Task_intent string | Missing_task_intent
datatype door_disposition = Door_waiting | Door_deferred | Door_withdrawn | Door_claimed

record door_admission =
  da_resourceReady :: bool
  da_resourceReason :: string
  da_admissionReady :: bool
  da_admissionReason :: string

record door_scheduling =
  ds_priority :: priority_grade
  ds_judgmentId :: string
  ds_fingerprint :: string
  ds_evidence :: "evidence_fact list"

record closeout_door =
  cd_generationId :: string
  cd_disposition :: door_disposition
  cd_taskDocumentRef :: task_document_ref
  cd_owningMaster :: task_document_ref
  cd_sprint :: task_document_ref
  cd_contractPath :: string
  cd_candidateTree :: string
  cd_taskTopologyFingerprint :: string
  cd_taskIntent :: task_intent_state
  cd_admission :: door_admission
  cd_scheduling :: door_scheduling
  cd_operation :: "string option"
  cd_operationFingerprint :: string
  cd_claimedOperationKey :: string

text \<open>A refused fact carries its reason.\<close>

definition make_door_admission :: "door_admission \<Rightarrow> door_admission result" where
  "make_door_admission a =
     (let b = a\<lparr>da_resourceReason := str_strip (da_resourceReason a), da_admissionReason := str_strip (da_admissionReason a)\<rparr> in
      if length (da_resourceReason a) > MAX_CLOSEOUT_TEXT \<or> length (da_admissionReason a) > MAX_CLOSEOUT_TEXT
      then Inl (ValidationError ''reason length'')
      else if \<not> da_resourceReady b \<and> da_resourceReason b = [] \<or> \<not> da_admissionReady b \<and> da_admissionReason b = []
      then Inl (ValidationError ''reason required'') else Inr b)"

text \<open>A claimed door has one exact operation, the others have none; the references share a repository.\<close>

definition door_identity_coherent :: "closeout_door \<Rightarrow> bool" where
  "door_identity_coherent d \<longleftrightarrow>
     (let cells = [cd_operation d \<noteq> None, cd_operationFingerprint d \<noteq> [], cd_claimedOperationKey d \<noteq> []] in
      (if cd_disposition d = Door_claimed then list_all (\<lambda>b. b) cells else list_all Not cells)
      \<and> repository (cd_taskDocumentRef d) = repository (cd_sprint d)
      \<and> repository (cd_owningMaster d) = repository (cd_sprint d))"

section \<open>Readiness of one member\<close>

record member_context =
  mc_source_address :: string
  mc_door :: closeout_door
  mc_candidate :: resolved_document
  mc_master :: resolved_document
  mc_order :: nat
  mc_graph :: "queue_graph_context option"
  mc_task_topology_fingerprint :: string
  mc_task_intent :: string
  mc_activation_waiting :: "string list"
  mc_source_blockers :: "string list"

definition projection_blockers :: "member_context \<Rightarrow> string list" where
  "projection_blockers c =
     (let d = mc_door c in
      mc_source_blockers c
      @ (if (cd_taskDocumentRef d, cd_owningMaster d, cd_contractPath d)
              \<noteq> (rd_ref (mc_candidate c), rd_ref (mc_master c), mc_source_address c)
         then [''door-canonical-identity-mismatch''] else [])
      @ (if cd_taskTopologyFingerprint d \<noteq> mc_task_topology_fingerprint c then [''door-task-topology-stale''] else [])
      @ (if cd_taskIntent d = Missing_task_intent then [''door-task-intent-unavailable''] else [])
      @ (if cd_taskIntent d \<noteq> Missing_task_intent \<and> cd_taskIntent d \<noteq> Task_intent (mc_task_intent c)
         then [''door-task-intent-stale''] else [])
      @ (if completion_blockers (rd_document (mc_candidate c)) \<noteq> [] then [''leaf-task-incomplete''] else []))"

definition admission_waiting_reasons :: "closeout_door \<Rightarrow> string list" where
  "admission_waiting_reasons d =
     (if da_resourceReady (cd_admission d) then [] else [''resource-unavailable: '' @ da_resourceReason (cd_admission d)])
     @ (if da_admissionReady (cd_admission d) then [] else [''admission-blocked: '' @ da_admissionReason (cd_admission d)])"

definition dependency_waiting_and_order :: "member_context \<Rightarrow> string list \<times> nat" where
  "dependency_waiting_and_order c =
     (case mc_graph c of None \<Rightarrow> ([], mc_order c)
      | Some g \<Rightarrow>
          (predecessor_waiting_reasons g (rd_ref (mc_master c)) (rd_ref (mc_candidate c)),
           case candidate_node g (rd_ref (mc_master c)) (rd_ref (mc_candidate c)) of
             None \<Rightarrow> mc_order c
           | Some n \<Rightarrow> declaration_of (xg_nodes (qg_graph g)) n * 1000 + mc_order c mod 1000))"

definition bounded_reasons :: "string list \<Rightarrow> string list" where
  "bounded_reasons reasons =
     (let unique = from_keys (filter (\<lambda>r. r \<noteq> []) (map str_strip reasons)) in
      if length unique \<le> MAX_CLOSEOUT_REASONS then unique
      else take (MAX_CLOSEOUT_REASONS - 1) unique @ [''additional-readiness-reasons-omitted''])"

definition waiting_reasons :: "member_context \<Rightarrow> string list" where
  "waiting_reasons c =
     admission_waiting_reasons (mc_door c) @ mc_activation_waiting c @ fst (dependency_waiting_and_order c)"

definition project_member :: "(closeout_door \<Rightarrow> string) \<Rightarrow> member_context \<Rightarrow> projection_member result" where
  "project_member door_hash c =
     (let d = mc_door c; blockers = projection_blockers c; waiting = waiting_reasons c in
      validate_member
        \<lparr>pm_generationId = cd_generationId d, pm_taskDocumentRef = cd_taskDocumentRef d, pm_owningMaster = cd_owningMaster d,
         pm_contractPath = cd_contractPath d, pm_candidateTree = cd_candidateTree d, pm_sourceDoorFingerprint = door_hash d,
         pm_classification = (if blockers \<noteq> [] then Member_blocked else if waiting \<noteq> [] then Member_waiting else Member_ready),
         pm_reasons = bounded_reasons (blockers @ waiting), pm_priority = ds_priority (cd_scheduling d),
         pm_order = snd (dependency_waiting_and_order c)\<rparr>)"

section \<open>The scheduling grade of a door\<close>

definition priority_name :: "priority_grade \<Rightarrow> string" where
  "priority_name p =
     (case p of Prio_critical \<Rightarrow> ''critical'' | Prio_high \<Rightarrow> ''high'' | Prio_normal \<Rightarrow> ''normal'' | Prio_low \<Rightarrow> ''low'')"

text \<open>The blockers, and the grade that was current, if any.\<close>

definition scheduling_source_fact ::
    "evidence_env \<Rightarrow> closeout_door \<Rightarrow> resolved_document \<Rightarrow> resolved_document \<Rightarrow> grade_authority
     \<Rightarrow> (string list \<times> (scheduling_grade \<times> string \<times> evidence_fact list) option) result" where
  "scheduling_source_fact env d candidate owner authority =
     (case option_or (map_of (ga_priorities authority) (ref_key (rd_ref candidate)))
                     (map_of (ga_priorities authority) (ref_key (rd_ref owner))) of
        None \<Rightarrow> Inr ([''door-scheduling-priority-missing''], None)
      | Some p \<Rightarrow>
          (case map_of (ga_judgments authority) (pa_judgment_id p) of
             None \<Rightarrow> Inr ([''door-scheduling-judgment-missing''], None)
           | Some j \<Rightarrow>
               (let asserted = [(''priority'', JStr (pa_priority p)), (''judgmentId'', JStr (pa_judgment_id p))]
                      @ List.map_filter (\<lambda>k. map_option (\<lambda>v. (k, JStr v)) (map_of (ja_decision j) k)) [''urgency'', ''risk''] in
                case canonical_grade env (Some asserted) authority (rd_ref candidate) (rd_ref owner) of
                  Inl (CloseoutQueueError _) \<Rightarrow> Inr ([''door-scheduling-provenance-stale''], None)
                | Inl e \<Rightarrow> Inl e
                | Inr (grade, digest, facts) \<Rightarrow>
                    (let observed = cd_scheduling d in
                     if priority_name (ds_priority observed) \<noteq> sg_priority grade \<or> ds_judgmentId observed \<noteq> sg_judgmentId grade
                        \<or> ds_fingerprint observed \<noteq> digest \<or> ds_evidence observed \<noteq> facts
                     then Inr ([''door-scheduling-provenance-stale''], Some (grade, digest, facts))
                     else Inr ([], Some (grade, digest, facts))))))"

section \<open>The members of a projection\<close>

fun classification_rank :: "member_classification \<Rightarrow> nat" where
  "classification_rank Member_ready = 0"
| "classification_rank Member_waiting = 1"
| "classification_rank Member_blocked = 2"

definition priority_rank :: "priority_grade \<Rightarrow> nat" where
  "priority_rank p = the (map_of PRIORITY_RANK (priority_name p))"

definition member_key :: "projection_member \<Rightarrow> nat \<times> nat \<times> nat \<times> string" where
  "member_key m = (classification_rank (pm_classification m), priority_rank (pm_priority m), pm_order m, ref_key (pm_taskDocumentRef m))"

text \<open>\<open>_projection_members\<close> from what it gathers for each waiting door: the context without the grade, whose
  blockers come last.\<close>

definition door_member ::
    "(closeout_door \<Rightarrow> string) \<Rightarrow> evidence_env \<Rightarrow> grade_authority \<Rightarrow> member_context \<Rightarrow> projection_member result" where
  "door_member door_hash env authority c =
     rbind (scheduling_source_fact env (mc_door c) (mc_candidate c) (mc_master c) authority) (\<lambda>(blockers, _).
       project_member door_hash (c\<lparr>mc_source_blockers := mc_source_blockers c @ blockers\<rparr>))"

definition projection_members ::
    "(closeout_door \<Rightarrow> string) \<Rightarrow> evidence_env \<Rightarrow> grade_authority \<Rightarrow> member_context list \<Rightarrow> projection_member list result" where
  "projection_members door_hash env authority cs =
     rbind (traverse (door_member door_hash env authority) cs) (\<lambda>ms. Inr (sort_key member_key ms))"

text \<open>Two waiting doors of one generation or one task are a conflict.\<close>

definition waiting_doors_conflict :: "member_context list \<Rightarrow> bool" where
  "waiting_doors_conflict cs \<longleftrightarrow>
     \<not> distinct (map (\<lambda>c. cd_generationId (mc_door c)) cs) \<or> \<not> distinct (map (\<lambda>c. ref_key (rd_ref (mc_candidate c))) cs)"

text \<open>\<open>_problem\<close>: the state of a source problem is read off the code that its raiser published.\<close>

definition CAPACITY_REFUSAL_CODES :: "string list" where
  "CAPACITY_REFUSAL_CODES =
     [''closeout-queue-master-capacity-exceeded'', ''closeout-queue-edge-capacity-exceeded'', ''source-problem-cap-exceeded'']"

definition contains_text :: "string \<Rightarrow> string \<Rightarrow> bool" where
  "contains_text marker s \<longleftrightarrow> list_ex (\<lambda>n. take (length marker) (drop n s) = marker) [0..<Suc (length s)]"

definition problem_state_of :: "string \<Rightarrow> problem_state" where
  "problem_state_of error_type =
     (if list_ex (\<lambda>m. contains_text m error_type) [''missing'', ''not-found''] then Problem_missing
      else if error_type \<in> set CAPACITY_REFUSAL_CODES \<or> list_ex (\<lambda>m. contains_text m error_type) [''invalid'', ''mismatch'', ''conflict'']
              \<or> error_type = ''sprint-required'' then Problem_invalid
      else Problem_unreadable)"

definition census_problem :: "problem_kind \<Rightarrow> string \<Rightarrow> string \<Rightarrow> repair_action \<Rightarrow> source_problem result" where
  "census_problem k address error_type repair = make_problem k address (problem_state_of error_type) error_type repair"

definition bounded_census_problems :: "task_document_ref \<Rightarrow> source_problem list \<Rightarrow> source_problem list result" where
  "bounded_census_problems sprint problems =
     (let unique = from_keys problems in
      if length unique \<le> MAX_CLOSEOUT_SOURCE_PROBLEMS then Inr unique
      else rbind (census_problem Problem_projection (ref_key sprint) ''source-problem-cap-exceeded''
                    (Other_repair ''repair the reported canonical sources, then rebuild'')) (\<lambda>overflow.
             Inr (take (MAX_CLOSEOUT_SOURCE_PROBLEMS - 1) unique @ [overflow])))"


section \<open>The predecessor map\<close>

lemma looked_up_no_nodes: "looked_up (map (\<lambda>n. (n, [])) ns) k = []"
  by (induction ns) (auto simp: looked_up_def)

lemma looked_up_successors:
  "looked_up (fold (\<lambda>(p, s) d. attach_index p s d) pairs d) k = looked_up d k @ map snd (filter (\<lambda>(p, s). p = k) pairs)"
  by (induction pairs arbitrary: d) auto

lemma looked_up_attached:
  "set (looked_up (fold (\<lambda>s d. attach_index s p d) ss d) k) = set (looked_up d k) \<union> (if k \<in> set ss then {p} else {})"
  by (induction ss arbitrary: d) auto

lemma looked_up_incomplete:
  "set (looked_up (fold (\<lambda>p d. if xn_ref p \<in> resolved then d else fold (\<lambda>s d. attach_index s p d) (f p) d) ns d) k)
   = set (looked_up d k) \<union> {p \<in> set ns. xn_ref p \<notin> resolved \<and> k \<in> set (f p)}"
  by (induction ns arbitrary: d) (auto simp: looked_up_attached)

lemma endpoint_node_member: "endpoint_node g ep = Inr n \<Longrightarrow> n \<in> set (xg_nodes g)"
proof -
  assume "endpoint_node g ep = Inr n"
  then have "resolve_graph_endpoint (xg_nodes g) ep = Inr n" by (auto simp: endpoint_node_def split: sum.splits)
  moreover define found where "found = (let owned = filter (\<lambda>n. xn_ref n = endpoint_ref ep) (xg_nodes g) in
    case endpoint_leaf ep of None \<Rightarrow> owned | Some leaf \<Rightarrow> filter (\<lambda>n. leaf \<in> set (xn_leafIds n)) owned)"
  moreover have "set found \<subseteq> set (xg_nodes g)" unfolding found_def by (auto simp: Let_def split: option.splits)
  ultimately show ?thesis
    by (auto simp: resolve_graph_endpoint_def Let_def split: list.splits option.splits)
qed

lemma incomplete_predecessors:
  assumes "incomplete_predecessor_map g resolved = Inr m"
  shows "p \<in> set (looked_up m n) \<longleftrightarrow> xn_ref p \<notin> resolved \<and> (\<exists>e\<in>set (xg_edges g). edge_nodes g e = Inr (p, n))"
proof -
  obtain pairs where pairs: "traverse (edge_nodes g) (xg_edges g) = Inr pairs"
    and m: "m = fold (\<lambda>p d. if xn_ref p \<in> resolved then d else fold (\<lambda>s d. attach_index s p d)
          (looked_up (fold (\<lambda>(p, s) d. attach_index p s d) pairs (map (\<lambda>n. (n, [])) (xg_nodes g))) p) d)
        (xg_nodes g) (map (\<lambda>n. (n, [])) (xg_nodes g))"
    using assms unfolding incomplete_predecessor_map_def Let_def by (elim rbind_InrE) simp
  have edge: "(p, n) \<in> set pairs \<longleftrightarrow> (\<exists>e\<in>set (xg_edges g). edge_nodes g e = Inr (p, n))"
    using traverse_set [OF pairs, of "(p, n)"] by simp
  have "p \<in> set (xg_nodes g)" if "(p, n) \<in> set pairs"
    using that edge endpoint_node_member by (auto simp: edge_nodes_def elim!: rbind_InrE)
  moreover have "n \<in> set (map snd (filter (\<lambda>(a, b). a = p) pairs)) \<longleftrightarrow> (p, n) \<in> set pairs" by force
  ultimately show ?thesis
    unfolding m looked_up_incomplete looked_up_successors looked_up_no_nodes edge [symmetric] by auto
qed

lemma graph_context_InrE:
  assumes "graph_context index_admits t sprint strict overrides = Inr c"
  obtains document g masters where
    "resolve t sprint overrides = Inr document" "td_executionGraph (rd_document document) = Some g"
    "validate_execution_topology t sprint overrides = Inr masters"
    "qg_sprint c = document" "qg_graph c = g" "qg_masters c = masters"
    "planning_authorities strict (rd_document document) = Inr (ga_judgments (qg_authority c), ga_priorities (qg_authority c))"
    "ga_sprint (qg_authority c) = document"
    "incomplete_predecessor_map g (terminal_refs masters) = Inr (qg_incomplete c)"
proof -
  obtain document g masters where docs: "validated_graph_documents t sprint overrides = Inr (document, g, masters)"
    and rest: "rbind (index_admits g (candidate_leaf_ids masters)) (\<lambda>_.
       rbind (leaf_node_index g (terminal_refs masters) masters ([], [])) (\<lambda>(leaf_nodes, leaf_facts).
       rbind (planning_authorities strict (rd_document document)) (\<lambda>(js, ps).
       rbind (incomplete_predecessor_map g (terminal_refs masters)) (\<lambda>incomplete.
         Inr \<lparr>qg_sprint = document, qg_graph = g, qg_masters = masters, qg_leaf_nodes = leaf_nodes,
            qg_leaf_facts = leaf_facts, qg_incomplete = incomplete,
            qg_authority = \<lparr>ga_sprint = document, ga_judgments = js, ga_priorities = ps\<rparr>\<rparr>)))) = Inr c"
    using assms unfolding graph_context_def Let_def by (auto elim!: rbind_InrE)
  have q: "as_queue_error r = Inr x \<longleftrightarrow> r = Inr x" for r and x :: 'x
    by (cases r rule: as_queue_error.cases) auto
  have "resolve t sprint overrides = Inr document" "td_executionGraph (rd_document document) = Some g"
    "validate_execution_topology t sprint overrides = Inr masters"
    using docs by (auto simp: validated_graph_documents_def q elim!: rbind_InrE split: option.splits if_splits)
  moreover obtain leaf_nodes leaf_facts js ps incomplete where
    "planning_authorities strict (rd_document document) = Inr (js, ps)"
    "incomplete_predecessor_map g (terminal_refs masters) = Inr incomplete"
    "c = \<lparr>qg_sprint = document, qg_graph = g, qg_masters = masters, qg_leaf_nodes = leaf_nodes,
            qg_leaf_facts = leaf_facts, qg_incomplete = incomplete,
            qg_authority = \<lparr>ga_sprint = document, ga_judgments = js, ga_priorities = ps\<rparr>\<rparr>"
    using rest by (auto elim!: rbind_InrE)
  ultimately show ?thesis using that by simp
qed

section \<open>When a candidate has no open predecessor\<close>

text \<open>The nodes a candidate is scheduled by, and the condition that the documents of the masters before them
  are terminal.\<close>

definition scheduling_nodes :: "queue_graph_context \<Rightarrow> task_document_ref \<Rightarrow> task_document_ref \<Rightarrow> exec_node list" where
  "scheduling_nodes c owner leaf =
     (case candidate_node c owner leaf of Some n \<Rightarrow> [n] | None \<Rightarrow> nodes_for (qg_graph c) owner)"

definition predecessors_terminal :: "queue_graph_context \<Rightarrow> task_document_ref \<Rightarrow> task_document_ref \<Rightarrow> bool" where
  "predecessors_terminal c owner leaf \<longleftrightarrow>
     (\<forall>e\<in>set (xg_edges (qg_graph c)). \<forall>p s. edge_nodes (qg_graph c) e = Inr (p, s) \<longrightarrow>
        s \<in> set (scheduling_nodes c owner leaf) \<longrightarrow>
        (\<exists>m\<in>set (qg_masters c). rd_ref m = xn_ref p \<and> master_is_terminal (rd_document m)))"

lemma set_candidate_predecessors:
  "set (candidate_predecessors c owner leaf)
   = (\<Union>n\<in>set (scheduling_nodes c owner leaf). set (looked_up (qg_incomplete c) n))"
  by (auto simp: candidate_predecessors_def scheduling_nodes_def master_incomplete_predecessors_def set_from_keys
      split: option.splits)

lemma terminal_refs_mem: "r \<in> terminal_refs masters \<longleftrightarrow> (\<exists>m\<in>set masters. rd_ref m = r \<and> master_is_terminal (rd_document m))"
  by (auto simp: terminal_refs_def)

lemma no_predecessor_iff:
  assumes "graph_context index_admits t sprint strict overrides = Inr c"
  shows "candidate_predecessors c owner leaf = [] \<longleftrightarrow> predecessors_terminal c owner leaf"
proof -
  obtain g masters where ctx: "qg_graph c = g" "qg_masters c = masters"
    "incomplete_predecessor_map g (terminal_refs masters) = Inr (qg_incomplete c)"
    using graph_context_InrE [OF assms] by metis
  note mem = incomplete_predecessors [OF ctx(3)]
  have "candidate_predecessors c owner leaf = [] \<longleftrightarrow>
      (\<forall>n\<in>set (scheduling_nodes c owner leaf). \<forall>p. p \<notin> set (looked_up (qg_incomplete c) n))"
    unfolding set_empty [symmetric] set_candidate_predecessors by blast
  then show ?thesis unfolding predecessors_terminal_def mem terminal_refs_mem ctx(1,2) by blast
qed

section \<open>Readiness\<close>

lemma validated_member: "validate_member m = Inr m' \<Longrightarrow> m' = m\<lparr>pm_reasons := map str_strip (pm_reasons m)\<rparr>"
  by (auto simp: validate_member_def bounded_nonblank_reasons_def Let_def split: if_splits sum.splits)

lemma projected_member:
  "project_member h c = Inr m \<Longrightarrow>
     pm_classification m = (if projection_blockers c \<noteq> [] then Member_blocked else if waiting_reasons c \<noteq> [] then Member_waiting else Member_ready)
     \<and> pm_priority m = ds_priority (cd_scheduling (mc_door c)) \<and> pm_generationId m = cd_generationId (mc_door c)
     \<and> pm_taskDocumentRef m = cd_taskDocumentRef (mc_door c) \<and> pm_candidateTree m = cd_candidateTree (mc_door c)"
  by (auto simp: project_member_def Let_def dest!: validated_member)

lemma no_blockers_iff:
  "projection_blockers c = [] \<longleftrightarrow>
     mc_source_blockers c = [] \<and> cd_taskDocumentRef (mc_door c) = rd_ref (mc_candidate c)
     \<and> cd_owningMaster (mc_door c) = rd_ref (mc_master c) \<and> cd_contractPath (mc_door c) = mc_source_address c
     \<and> cd_taskTopologyFingerprint (mc_door c) = mc_task_topology_fingerprint c
     \<and> cd_taskIntent (mc_door c) = Task_intent (mc_task_intent c)
     \<and> completion_blockers (rd_document (mc_candidate c)) = []"
  by (cases "cd_taskIntent (mc_door c)") (auto simp: projection_blockers_def Let_def)

lemma no_waiting_iff:
  assumes "\<And>g. mc_graph c = Some g \<Longrightarrow> \<exists>index_admits t sprint strict overrides. graph_context index_admits t sprint strict overrides = Inr g"
  shows "waiting_reasons c = [] \<longleftrightarrow>
     da_resourceReady (cd_admission (mc_door c)) \<and> da_admissionReady (cd_admission (mc_door c)) \<and> mc_activation_waiting c = []
     \<and> (\<forall>g. mc_graph c = Some g \<longrightarrow> predecessors_terminal g (rd_ref (mc_master c)) (rd_ref (mc_candidate c)))"
proof (cases "mc_graph c")
  case None
  then show ?thesis by (auto simp: waiting_reasons_def admission_waiting_reasons_def dependency_waiting_and_order_def)
next
  case (Some g)
  obtain index_admits t sprint strict overrides where "graph_context index_admits t sprint strict overrides = Inr g"
    using assms [OF Some] by blast
  from no_predecessor_iff [OF this] Some show ?thesis
    by (auto simp: waiting_reasons_def admission_waiting_reasons_def dependency_waiting_and_order_def predecessor_waiting_reasons_def)
qed

lemma scheduling_current:
  assumes "scheduling_source_fact env d candidate owner authority = Inr ([], x)"
  shows "\<exists>raw grade digest facts. canonical_grade env (Some raw) authority (rd_ref candidate) (rd_ref owner) = Inr (grade, digest, facts)
     \<and> x = Some (grade, digest, facts) \<and> priority_name (ds_priority (cd_scheduling d)) = sg_priority grade
     \<and> ds_judgmentId (cd_scheduling d) = sg_judgmentId grade \<and> ds_fingerprint (cd_scheduling d) = digest
     \<and> ds_evidence (cd_scheduling d) = facts"
  using assms unfolding scheduling_source_fact_def Let_def
  by (auto split: option.splits sum.splits py_error.splits if_splits prod.splits)


lemma member_ready_iff:
  assumes "\<And>g. mc_graph c = Some g \<Longrightarrow> \<exists>index_admits t sprint strict overrides. graph_context index_admits t sprint strict overrides = Inr g"
    and "project_member h c = Inr m"
  shows "pm_classification m = Member_ready \<longleftrightarrow>
     mc_source_blockers c = [] \<and> cd_taskDocumentRef (mc_door c) = rd_ref (mc_candidate c)
     \<and> cd_owningMaster (mc_door c) = rd_ref (mc_master c) \<and> cd_contractPath (mc_door c) = mc_source_address c
     \<and> cd_taskTopologyFingerprint (mc_door c) = mc_task_topology_fingerprint c
     \<and> cd_taskIntent (mc_door c) = Task_intent (mc_task_intent c)
     \<and> completion_blockers (rd_document (mc_candidate c)) = []
     \<and> da_resourceReady (cd_admission (mc_door c)) \<and> da_admissionReady (cd_admission (mc_door c)) \<and> mc_activation_waiting c = []
     \<and> (\<forall>g. mc_graph c = Some g \<longrightarrow> predecessors_terminal g (rd_ref (mc_master c)) (rd_ref (mc_candidate c)))"
proof -
  have "pm_classification m = Member_ready \<longleftrightarrow> projection_blockers c = [] \<and> waiting_reasons c = []"
    using projected_member [OF assms(2)] by simp
  moreover note no_waiting_iff [of c, OF assms(1), simplified]
  ultimately show ?thesis unfolding no_blockers_iff by simp
qed

lemma sorted_members:
  assumes "projection_members h env authority cs = Inr ms"
  shows "sorted (map member_key ms)" "mset (map pm_generationId ms) = mset (map (\<lambda>c. cd_generationId (mc_door c)) cs)"
proof -
  obtain us where us: "traverse (door_member h env authority) cs = Inr us" and ms: "ms = sort_key member_key us"
    using assms by (auto simp: projection_members_def elim!: rbind_InrE)
  show "sorted (map member_key ms)" by (simp add: ms)
  have "list_all2 (\<lambda>c m. pm_generationId m = cd_generationId (mc_door c)) cs us"
    using us [unfolded traverse_Inr_iff]
    by (rule list_all2_mono) (auto simp: door_member_def dest!: projected_member elim!: rbind_InrE)
  then have "map pm_generationId us = map (\<lambda>c. cd_generationId (mc_door c)) cs"
    by (induction rule: list_all2_induct) auto
  then show "mset (map pm_generationId ms) = mset (map (\<lambda>c. cd_generationId (mc_door c)) cs)"
    by (metis ms mset_map mset_sort)
qed

section \<open>Two limits of the projection\<close>

text \<open>Resolution is per master, but the graph orders segments. A graph in which a master waits for a segment of
  another master and is awaited by a later segment of the same one passes the validation in three waves. As
  long as neither master is terminal, both wait: the second master for the whole of the first one, whose
  last segment waits for the second. And an unfinished row keeps its master from being completed.\<close>

definition interleaved_graph :: "task_document_ref \<Rightarrow> task_document_ref \<Rightarrow> execution_graph" where
  "interleaved_graph a b =
     \<lparr>xg_nodes = [\<lparr>xn_kind = Segment, xn_ref = a, xn_leafIds = [''L1'']\<rparr>, \<lparr>xn_kind = Lump, xn_ref = b, xn_leafIds = []\<rparr>,
                  \<lparr>xn_kind = Segment, xn_ref = a, xn_leafIds = [''L2'']\<rparr>],
      xg_edges = [\<lparr>xe_predecessor = Endpoint a (Some ''L1''), xe_successor = Bare b, xe_reason = ''r'', xe_judgmentId = None\<rparr>,
                  \<lparr>xe_predecessor = Bare b, xe_successor = Endpoint a (Some ''L2''), xe_reason = ''r'', xe_judgmentId = None\<rparr>]\<rparr>"

lemma interleaved_graph_is_admitted:
  "case derived_waves (interleaved_graph (Execution_Graph.sample_ref ''a'') (Execution_Graph.sample_ref ''b'')) of
     Inr waves \<Rightarrow> length waves = 3 | Inl _ \<Rightarrow> False"
  by code_simp

lemma interleaved_masters_wait_for_each_other:
  assumes "a \<noteq> b" "a \<notin> resolved" "b \<notin> resolved" "incomplete_predecessor_map (interleaved_graph a b) resolved = Inr m"
  shows "\<lparr>xn_kind = Segment, xn_ref = a, xn_leafIds = [''L1'']\<rparr> \<in> set (looked_up m \<lparr>xn_kind = Lump, xn_ref = b, xn_leafIds = []\<rparr>)"
    and "\<lparr>xn_kind = Lump, xn_ref = b, xn_leafIds = []\<rparr> \<in> set (looked_up m \<lparr>xn_kind = Segment, xn_ref = a, xn_leafIds = [''L2'']\<rparr>)"
  using assms(1-3) unfolding incomplete_predecessors [OF assms(4)]
  by (auto simp: interleaved_graph_def edge_nodes_def endpoint_node_def resolve_graph_endpoint_def)

lemma open_row_keeps_master_open:
  "td_kind d = Kd_master \<Longrightarrow> r \<in> set (td_subTasks d) \<Longrightarrow> \<not> row_resolved r \<Longrightarrow> td_status d \<noteq> Ds_abandoned \<Longrightarrow>
   \<not> master_is_terminal d"
  by (auto simp: master_is_terminal_def completion_blockers_def filter_empty_conv)

text \<open>A reason is prefixed after its length was checked: a door whose accepted reason is nearly as long as the
  bound admits has no member, and the census that asks for it raises.\<close>

lemma from_keys_Cons_hd: "from_keys (x # xs) = x # filter (\<lambda>y. y \<noteq> x) (from_keys xs)"
  by simp

lemma long_admission_reason_raises:
  assumes "projection_blockers c = []" "\<not> da_resourceReady (cd_admission (mc_door c))"
    and reason: "str_strip (da_resourceReason (cd_admission (mc_door c))) = da_resourceReason (cd_admission (mc_door c))"
    and long: "length (da_resourceReason (cd_admission (mc_door c))) > MAX_CLOSEOUT_TEXT - 22"
  shows "\<exists>e. project_member h c = Inl e"
proof -
  let ?r = "''resource-unavailable: '' @ da_resourceReason (cd_admission (mc_door c))"
  have ne: "da_resourceReason (cd_admission (mc_door c)) \<noteq> []" using long by auto
  have "str_strip ?r = ?r"
  proof (rule str_strip_id)
    show "\<not> is_space (last ?r)" using str_strip_ends [of "da_resourceReason (cd_admission (mc_door c))"] reason ne by simp
  qed (simp_all add: is_space_def)
  moreover obtain rest where "projection_blockers c @ waiting_reasons c = ?r # rest"
    using assms(1,2) by (simp add: waiting_reasons_def admission_waiting_reasons_def)
  ultimately have "\<exists>rest. bounded_reasons (projection_blockers c @ waiting_reasons c) = ?r # rest"
    by (simp add: bounded_reasons_def Let_def MAX_CLOSEOUT_REASONS_def)
  moreover have "length ?r > MAX_CLOSEOUT_TEXT" using long by (simp add: MAX_CLOSEOUT_TEXT_def)
  ultimately have "\<exists>e. bounded_nonblank_reasons (bounded_reasons (projection_blockers c @ waiting_reasons c)) = Inl e"
    using \<open>str_strip ?r = ?r\<close> by (auto simp: bounded_nonblank_reasons_def Let_def Closeout_Queue.text_within_def)
  then show ?thesis by (auto simp: project_member_def Let_def validate_member_def)
qed

text \<open>C18. A ready candidate may run. When the projection classifies the waiting door of a candidate as ready,
  the leaf has no open step; the door names exactly this candidate, its master and the contract it was read
  from, and was published for the current topology and the current task intent; its resources and its admission
  are granted and its series is active; its grade is current, that is the canonical registers give it now with
  the priority, fingerprint and evidence that the door carries. And in a graph built from the task tree, every
  edge into the node that schedules the candidate, the segment of its leaf or the only node of its master, or
  into any node of the master when the leaf is not placed, comes from a master whose document is terminal.\<close>

theorem ready_member_is_schedulable:
  assumes "\<forall>g. mc_graph c = Some g \<longrightarrow>
       (\<exists>index_admits t sprint strict overrides. graph_context index_admits t sprint strict overrides = Inr g)"
    and "door_member door_hash env authority c = Inr m" "pm_classification m = Member_ready"
  shows "completion_blockers (rd_document (mc_candidate c)) = []
     \<and> pm_taskDocumentRef m = rd_ref (mc_candidate c) \<and> cd_owningMaster (mc_door c) = rd_ref (mc_master c)
     \<and> cd_contractPath (mc_door c) = mc_source_address c
     \<and> cd_taskTopologyFingerprint (mc_door c) = mc_task_topology_fingerprint c
     \<and> cd_taskIntent (mc_door c) = Task_intent (mc_task_intent c)
     \<and> da_resourceReady (cd_admission (mc_door c)) \<and> da_admissionReady (cd_admission (mc_door c)) \<and> mc_activation_waiting c = []
     \<and> (\<exists>raw grade digest facts.
          canonical_grade env (Some raw) authority (rd_ref (mc_candidate c)) (rd_ref (mc_master c)) = Inr (grade, digest, facts)
          \<and> priority_name (pm_priority m) = sg_priority grade \<and> ds_fingerprint (cd_scheduling (mc_door c)) = digest
          \<and> ds_evidence (cd_scheduling (mc_door c)) = facts)
     \<and> (\<forall>g. mc_graph c = Some g \<longrightarrow> predecessors_terminal g (rd_ref (mc_master c)) (rd_ref (mc_candidate c)))"
proof -
  obtain blockers x where grade: "scheduling_source_fact env (mc_door c) (mc_candidate c) (mc_master c) authority = Inr (blockers, x)"
    and m: "project_member door_hash (c\<lparr>mc_source_blockers := mc_source_blockers c @ blockers\<rparr>) = Inr m"
    using assms(2) by (auto simp: door_member_def elim!: rbind_InrE)
  have graph: "\<exists>index_admits t sprint strict overrides. graph_context index_admits t sprint strict overrides = Inr g"
    if "mc_graph (c\<lparr>mc_source_blockers := mc_source_blockers c @ blockers\<rparr>) = Some g" for g
    using that assms(1) by simp
  note ready = member_ready_iff [OF graph m, simplified, THEN iffD1, OF assms(3)]
  then have "blockers = []" by simp
  then show ?thesis using ready scheduling_current [of env "mc_door c" "mc_candidate c" "mc_master c" authority x] grade
      projected_member [OF m] by auto
qed

section \<open>Witness\<close>

definition sample_owner :: task_document_ref where
  "sample_owner = \<lparr>repository = ''repo'', ref_path = ''m/task.json''\<rparr>"

definition sample_authority :: grade_authority where
  "sample_authority = \<lparr>ga_sprint = \<lparr>rd_ref = sample_owner, rd_path = [''s'', ''task.json''], rd_document = Task_Topology.sample_sprint\<rparr>,
     ga_judgments = [(''J1'', \<lparr>ja_judgment_id = ''J1'', ja_kind = ''priority'', ja_subject = ''repo/m/task.json'',
       ja_decision = [(''priority'', ''high'')], ja_rationale = ''r'', ja_evidence_refs = [], ja_author = ''strategist'',
       ja_confidence = ''c'', ja_supersedes = [], ja_source_row = ''j''\<rparr>)],
     ga_priorities = [(''repo/m/task.json'', \<lparr>pa_subject = ''repo/m/task.json'', pa_priority = ''high'', pa_judgment_id = ''J1'',
       pa_source_row = ''p''\<rparr>)]\<rparr>"

definition sample_env :: evidence_env where
  "sample_env = \<lparr>ev_sha256 = (\<lambda>s. s), ev_files = (\<lambda>p. Missing_file)\<rparr>"

definition sample_door :: closeout_door where
  "sample_door = \<lparr>cd_generationId = replicate 64 (CHR ''a''), cd_disposition = Door_waiting,
     cd_taskDocumentRef = \<lparr>repository = ''repo'', ref_path = ''m/L1.json''\<rparr>, cd_owningMaster = sample_owner,
     cd_sprint = \<lparr>repository = ''repo'', ref_path = ''s/task.json''\<rparr>, cd_contractPath = ''k'', cd_candidateTree = replicate 40 (CHR ''b''),
     cd_taskTopologyFingerprint = ''t'', cd_taskIntent = Task_intent ''i'',
     cd_admission = \<lparr>da_resourceReady = True, da_resourceReason = [], da_admissionReady = True, da_admissionReason = []\<rparr>,
     cd_scheduling = \<lparr>ds_priority = Prio_high, ds_judgmentId = ''J1'', ds_fingerprint = ''p'' @ [CHR 10] @ ''j'', ds_evidence = []\<rparr>,
     cd_operation = None, cd_operationFingerprint = [], cd_claimedOperationKey = []\<rparr>"

definition sample_member :: "queue_graph_context \<Rightarrow> member_context" where
  "sample_member g = \<lparr>mc_source_address = ''k'', mc_door = sample_door,
     mc_candidate = \<lparr>rd_ref = cd_taskDocumentRef sample_door, rd_path = [], rd_document = (sample_leaf ''L1'')\<lparr>td_steps := []\<rparr>\<rparr>,
     mc_master = \<lparr>rd_ref = sample_owner, rd_path = [], rd_document = Task_Topology.sample_sprint\<rparr>, mc_order = 0, mc_graph = Some g,
     mc_task_topology_fingerprint = ''t'', mc_task_intent = ''i'', mc_activation_waiting = [], mc_source_blockers = []\<rparr>"

lemma sample_member_ready:
  "case graph_context (\<lambda>_ _. Inr ()) sample_tree \<lparr>repository = ''repo'', ref_path = ''s/task.json''\<rparr> False [] of
     Inl _ \<Rightarrow> False
   | Inr g \<Rightarrow>
       (case door_member (\<lambda>_. replicate 64 (CHR ''c'')) sample_env sample_authority (sample_member g) of
          Inl _ \<Rightarrow> False | Inr m \<Rightarrow> pm_classification m = Member_ready)"
  by code_simp

theorem ready_member_is_schedulable_witness:
  "\<exists>g. graph_context (\<lambda>_ _. Inr ()) sample_tree \<lparr>repository = ''repo'', ref_path = ''s/task.json''\<rparr> False [] = Inr g
     \<and> predecessors_terminal g sample_owner \<lparr>repository = ''repo'', ref_path = ''m/L1.json''\<rparr>"
proof -
  obtain g m where g: "graph_context (\<lambda>_ _. Inr ()) sample_tree \<lparr>repository = ''repo'', ref_path = ''s/task.json''\<rparr> False [] = Inr g"
    and m: "door_member (\<lambda>_. replicate 64 (CHR ''c'')) sample_env sample_authority (sample_member g) = Inr m" "pm_classification m = Member_ready"
    using sample_member_ready by (auto split: sum.splits)
  have built: "\<forall>g'. mc_graph (sample_member g) = Some g' \<longrightarrow>
      (\<exists>index_admits t sprint strict overrides. graph_context index_admits t sprint strict overrides = Inr g')"
    using g by (metis member_context.select_convs(6) option.inject sample_member_def)
  from ready_member_is_schedulable [OF built m] g show ?thesis by (simp add: sample_member_def sample_door_def)
qed

end
