(* ===== verification/Field_Effects.thy ===== *)
theory Field_Effects
  imports Task_Review Task_Topology
begin

text \<open>
  What a change of a task document may affect: the taxonomy of \<open>tasks/document_field_effects.py\<close>, which
  gives every field of the persisted schema the planes it belongs to, the projection of a value to one plane,
  the planes that a change touches, and the sprints whose closeout projection a batch of changes concerns
  (\<open>application/task_docs/task_doc_queue_scope.py\<close>). A schema value is a tree of models, mappings, lists
  and scalars; a model is given by the class under which it is classified and its fields in order.
\<close>

section \<open>Values of the schema\<close>

datatype schema_scalar = Text_scalar string | Int_scalar int | Bool_scalar bool

datatype schema_value =
    Val_none
  | Val_scalar schema_scalar
  | Val_model string "(string \<times> schema_value) list"
  | Val_map "(string \<times> schema_value) list"
  | Val_list "schema_value list"

datatype field_effect =
    Eff_structural_topology | Eff_normative_intent | Eff_completion_readiness | Eff_progress
  | Eff_evidence | Eff_lifecycle | Eff_prose_audit

datatype mutation_class = Mut_topology | Mut_intent | Mut_completion_readiness | Mut_acceptance_evidence | Mut_operational_audit

section \<open>The taxonomy\<close>

definition STRUCTURAL :: "field_effect set" where "STRUCTURAL = {Eff_structural_topology}"
definition NORMATIVE :: "field_effect set" where "NORMATIVE = {Eff_normative_intent}"
definition READINESS :: "field_effect set" where "READINESS = {Eff_completion_readiness}"
definition PROGRESS :: "field_effect set" where "PROGRESS = {Eff_progress}"
definition EVIDENCE :: "field_effect set" where "EVIDENCE = {Eff_evidence}"
definition LIFECYCLE :: "field_effect set" where "LIFECYCLE = {Eff_lifecycle}"
definition AUDIT :: "field_effect set" where "AUDIT = {Eff_prose_audit}"
definition INTENT_AND_PROGRESS :: "field_effect set" where "INTENT_AND_PROGRESS = NORMATIVE \<union> PROGRESS"
definition PROGRESS_AND_READINESS :: "field_effect set" where "PROGRESS_AND_READINESS = PROGRESS \<union> READINESS"

lemmas effect_defs = STRUCTURAL_def NORMATIVE_def READINESS_def PROGRESS_def EVIDENCE_def LIFECYCLE_def AUDIT_def
  INTENT_AND_PROGRESS_def PROGRESS_AND_READINESS_def

type_synonym taxonomy = "(string, (string, field_effect set) dict) dict"

definition TASK_DOCUMENT_FIELD_EFFECTS :: taxonomy where
  "TASK_DOCUMENT_FIELD_EFFECTS =
     [
      (''TaskDocument'',
         [(''schema_'', AUDIT), (''id'', NORMATIVE \<union> STRUCTURAL), (''slug'', NORMATIVE), (''title'', NORMATIVE),
          (''kind'', NORMATIVE \<union> STRUCTURAL), (''status'', PROGRESS_AND_READINESS), (''statusNote'', AUDIT),
          (''repo'', NORMATIVE), (''type'', NORMATIVE), (''createdAt'', AUDIT), (''master'', AUDIT), (''headerNotes'', AUDIT),
          (''seriesContractPath'', LIFECYCLE), (''integrationBranch'', LIFECYCLE), (''executionNature'', STRUCTURAL),
          (''executionGraph'', STRUCTURAL), (''enclosures'', LIFECYCLE), (''executionRegistrations'', LIFECYCLE),
          (''lifecycleId'', LIFECYCLE), (''objective'', NORMATIVE), (''requirements'', NORMATIVE), (''design'', NORMATIVE),
          (''steps'', INTENT_AND_PROGRESS \<union> READINESS), (''codeExamples'', NORMATIVE), (''codeExamplesNote'', NORMATIVE),
          (''decisions'', AUDIT), (''routeReview'', EVIDENCE), (''reviewState'', EVIDENCE), (''openQuestions'', NORMATIVE),
          (''references'', EVIDENCE), (''subTasks'', STRUCTURAL \<union> PROGRESS_AND_READINESS), (''discardedSubTasks'', AUDIT),
          (''sections'', AUDIT), (''orchestrates'', STRUCTURAL), (''seats'', LIFECYCLE)]),
      (''StepDisposition'',
         [(''kind'', AUDIT), (''reason'', AUDIT), (''recordedAt'', AUDIT), (''recordedVia'', AUDIT),
          (''lifecycleId'', LIFECYCLE)]),
      (''SubStep'',
         [(''id'', NORMATIVE), (''title'', NORMATIVE), (''status'', PROGRESS_AND_READINESS), (''note'', AUDIT),
          (''disposition'', AUDIT)]),
      (''Step'',
         [(''id'', NORMATIVE), (''title'', NORMATIVE), (''outcome'', NORMATIVE), (''status'', PROGRESS_AND_READINESS),
          (''note'', AUDIT), (''substeps'', INTENT_AND_PROGRESS \<union> READINESS), (''disposition'', AUDIT)]),
      (''Decision'',
         [(''at'', AUDIT), (''decision'', AUDIT), (''rationale'', AUDIT)]),
      (''RouteReviewUnit'',
         [(''route'', EVIDENCE), (''verdict'', EVIDENCE), (''evidenceRef'', EVIDENCE), (''evidenceSha256'', EVIDENCE)]),
      (''ReviewFinding'',
         [(''findingId'', EVIDENCE), (''description'', EVIDENCE)]),
      (''ReviewState'',
         [(''round'', EVIDENCE), (''pending'', EVIDENCE), (''baselineFindings'', EVIDENCE), (''remainingFindingIds'', EVIDENCE),
          (''developerApproval'', EVIDENCE), (''additionalRounds'', EVIDENCE)]),
      (''RouteReviewRecord'',
         [(''candidateTree'', EVIDENCE), (''verdict'', EVIDENCE), (''verdictRef'', EVIDENCE), (''reviewedAt'', EVIDENCE),
          (''routes'', EVIDENCE), (''taskIntent'', EVIDENCE), (''scope'', EVIDENCE), (''verdictSha256'', EVIDENCE),
          (''dependencies'', EVIDENCE), (''recordDigest'', EVIDENCE)]),
      (''RouteReviewScope'',
         [(''kind'', EVIDENCE), (''masterRef'', EVIDENCE), (''masterIntent'', EVIDENCE), (''childIntents'', EVIDENCE)]),
      (''RouteReviewChildIntent'',
         [(''ref'', EVIDENCE), (''taskIntent'', EVIDENCE)]),
      (''EvidenceDependencies'',
         [(''schemaVersion'', EVIDENCE), (''recordType'', EVIDENCE), (''validatorVersion'', EVIDENCE), (''edges'', EVIDENCE)]),
      (''EvidenceDependency'',
         [(''kind'', EVIDENCE), (''name'', EVIDENCE), (''algorithm'', EVIDENCE), (''digest'', EVIDENCE)]),
      (''CodeExample'',
         [(''id'', NORMATIVE), (''title'', NORMATIVE), (''distinctChange'', NORMATIVE), (''why'', NORMATIVE),
          (''language'', NORMATIVE), (''snippet'', NORMATIVE)]),
      (''HeaderNote'',
         [(''label'', AUDIT), (''value'', AUDIT)]),
      (''TaskEnclosureRef'',
         [(''leafId'', LIFECYCLE), (''enclosurePath'', LIFECYCLE)]),
      (''TaskExecutionRegistration'',
         [(''sourceKind'', LIFECYCLE), (''role'', LIFECYCLE), (''sourceId'', LIFECYCLE), (''observedAt'', LIFECYCLE)]),
      (''SprintExecutionEndpoint'',
         [(''ref'', STRUCTURAL), (''leafId'', STRUCTURAL)]),
      (''SprintExecutionNode'',
         [(''kind'', STRUCTURAL), (''ref'', STRUCTURAL), (''leafIds'', STRUCTURAL)]),
      (''SprintExecutionEdge'',
         [(''predecessor'', STRUCTURAL), (''successor'', STRUCTURAL), (''reason'', NORMATIVE), (''judgmentId'', EVIDENCE)]),
      (''SprintExecutionGraph'',
         [(''nodes'', STRUCTURAL), (''edges'', STRUCTURAL)]),
      (''SubTaskRef'',
         [(''number'', STRUCTURAL), (''name'', NORMATIVE), (''file'', STRUCTURAL), (''status'', PROGRESS_AND_READINESS),
          (''scope'', STRUCTURAL), (''masterRef'', STRUCTURAL)]),
      (''DiscardSourceProof'',
         [(''state'', AUDIT), (''sha256'', AUDIT), (''size'', AUDIT)]),
      (''DiscardUnstartedProof'',
         [(''version'', AUDIT), (''taskDocumentRef'', AUDIT), (''taskState'', AUDIT), (''enclosureState'', AUDIT),
          (''locatorState'', AUDIT), (''doorState'', AUDIT), (''operationState'', AUDIT), (''seatState'', AUDIT),
          (''reviewState'', AUDIT), (''commitState'', AUDIT), (''childJson'', AUDIT), (''childMarkdown'', AUDIT),
          (''fingerprint'', AUDIT)]),
      (''DiscardedSubTask'',
         [(''number'', AUDIT), (''name'', AUDIT), (''file'', AUDIT), (''scope'', AUDIT), (''disposition'', AUDIT),
          (''reason'', AUDIT), (''discardedAt'', AUDIT), (''proof'', AUDIT)]),
      (''SprintSeat'',
         [(''role'', LIFECYCLE), (''label'', LIFECYCLE), (''identity'', LIFECYCLE), (''state'', LIFECYCLE)]),
      (''Section'',
         [(''kind'', AUDIT), (''heading'', AUDIT), (''body'', AUDIT)]),
      (''ApprovedRequirementPacketRef'',
         [(''kind'', NORMATIVE), (''path'', NORMATIVE), (''stableId'', NORMATIVE), (''version'', NORMATIVE)]),
      (''AcceptanceObligationQuestion'',
         [(''kind'', NORMATIVE), (''id'', NORMATIVE), (''question'', NORMATIVE)]),
      (''TaskIntentIdentity'',
         [(''schema_'', EVIDENCE), (''digest'', EVIDENCE)]),
      (''MissingTaskIntent'',
         [(''state'', EVIDENCE)]),
      (''TaskDocumentRef'',
         [(''repository'', NORMATIVE \<union> STRUCTURAL), (''path'', NORMATIVE \<union> STRUCTURAL)])]"

definition classifications_for :: "string \<Rightarrow> (string, field_effect set) dict option" where
  "classifications_for cls = map_of TASK_DOCUMENT_FIELD_EFFECTS cls"

fun mutation_class_of :: "field_effect \<Rightarrow> mutation_class" where
  "mutation_class_of Eff_structural_topology = Mut_topology"
| "mutation_class_of Eff_normative_intent = Mut_intent"
| "mutation_class_of Eff_completion_readiness = Mut_completion_readiness"
| "mutation_class_of Eff_progress = Mut_completion_readiness"
| "mutation_class_of Eff_evidence = Mut_acceptance_evidence"
| "mutation_class_of Eff_lifecycle = Mut_operational_audit"
| "mutation_class_of Eff_prose_audit = Mut_operational_audit"

definition invalidates_projection :: "mutation_class set \<Rightarrow> bool" where
  "invalidates_projection classes \<longleftrightarrow> classes \<inter> {Mut_topology, Mut_intent, Mut_completion_readiness} \<noteq> {}"

text \<open>The validation of the taxonomy against the classes that the schema reaches, each with its fields.\<close>

definition taxonomy_difference :: "string list \<Rightarrow> (string, field_effect set) dict \<Rightarrow> string list \<times> string list \<times> string list" where
  "taxonomy_difference actual classifications =
     (filter (\<lambda>f. f \<notin> set (map fst classifications)) actual,
      filter (\<lambda>f. f \<notin> set actual) (map fst classifications),
      map fst (filter (\<lambda>(f, effects). effects = {}) classifications))"

fun validate_field_effects :: "(string \<times> string list) list \<Rightarrow> unit result" where
  "validate_field_effects [] = Inr ()"
| "validate_field_effects ((cls, actual) # models) =
     (case classifications_for cls of
        None \<Rightarrow> Inl (TaskDocumentFieldEffectTaxonomyError cls)
      | Some classifications \<Rightarrow>
          if taxonomy_difference actual classifications = ([], [], []) then validate_field_effects models
          else Inl (TaskDocumentFieldEffectTaxonomyError cls))"

section \<open>Projection to a plane\<close>

text \<open>A field outside the plane is skipped before its value is read.\<close>

definition project_fields :: "field_effect \<Rightarrow> (string, field_effect set) dict \<Rightarrow> (string \<times> json result) list \<Rightarrow> (string \<times> json) list result" where
  "project_fields effect classifications fs =
     rbind (traverse (\<lambda>(name, v). case map_of classifications name of
              None \<Rightarrow> Inl (KeyError name)
            | Some effects \<Rightarrow> if effect \<notin> effects then Inr None else rbind v (\<lambda>j. Inr (Some (name, j)))) fs) (\<lambda>os.
       Inr (List.map_filter (\<lambda>x. x) os))"

primrec project_value :: "field_effect \<Rightarrow> schema_value \<Rightarrow> json result" where
  "project_value effect Val_none = Inr JNull"
| "project_value effect (Val_scalar a) =
     Inr (case a of Text_scalar s \<Rightarrow> JStr s | Int_scalar n \<Rightarrow> JInt n | Bool_scalar b \<Rightarrow> JBool b)"
| "project_value effect (Val_model cls fs) =
     (case classifications_for cls of
        None \<Rightarrow> Inl (TaskDocumentFieldEffectTaxonomyError cls)
      | Some classifications \<Rightarrow>
          rbind (project_fields effect classifications (map (map_prod (\<lambda>x. x) (project_value effect)) fs)) (\<lambda>items. Inr (JObject items)))"
| "project_value effect (Val_map kvs) =
     rbind (traverse (\<lambda>(k, v). rbind v (\<lambda>j. Inr (k, j))) (sort_key fst (map (map_prod (\<lambda>x. x) (project_value effect)) kvs)))
       (\<lambda>items. Inr (JObject items))"
| "project_value effect (Val_list vs) = rbind (traverse (\<lambda>v. v) (map (project_value effect) vs)) (\<lambda>items. Inr (JList items))"

section \<open>The planes of a change\<close>

definition union_results :: "field_effect set result list \<Rightarrow> field_effect set result" where
  "union_results rs = rbind (traverse (\<lambda>r. r) rs) (\<lambda>es. Inr (\<Union> (set es)))"

primrec present_value :: "schema_value \<Rightarrow> field_effect set result" where
  "present_value Val_none = Inr {}"
| "present_value (Val_scalar a) = Inr {}"
| "present_value (Val_model cls fs) =
     (case classifications_for cls of
        None \<Rightarrow> Inl (TaskDocumentMutationClassificationError cls)
      | Some classifications \<Rightarrow>
          union_results (map (\<lambda>(name, effects).
            case map_of (map (map_prod (\<lambda>x. x) present_value) fs) name of
              None \<Rightarrow> Inl (AttributeError name) | Some r \<Rightarrow> rbind r (\<lambda>p. Inr (effects \<union> p))) classifications))"
| "present_value (Val_map kvs) = union_results (map snd (map (map_prod (\<lambda>x. x) present_value) kvs))"
| "present_value (Val_list vs) = union_results (map present_value vs)"

definition owner_and_present :: "field_effect set \<Rightarrow> schema_value list \<Rightarrow> field_effect set result" where
  "owner_and_present owner vs = rbind (union_results (map present_value vs)) (\<lambda>p. Inr (owner \<union> p))"

text \<open>One function for two values: equal values change nothing; two models of one class are compared field by
  field, two mappings with the same keys by key, two lists by position with the surplus of the longer one.\<close>

primrec changed_value :: "schema_value \<Rightarrow> schema_value \<Rightarrow> field_effect set \<Rightarrow> field_effect set result" where
  "changed_value Val_none v owner = (if v = Val_none then Inr {} else owner_and_present owner [v])"
| "changed_value (Val_scalar a) v owner = (if v = Val_scalar a then Inr {} else Inr owner)"
| "changed_value (Val_model cls fs) v owner =
     (if v = Val_model cls fs then Inr {}
      else (case v of
        Val_model cls' gs \<Rightarrow>
          if cls' \<noteq> cls then owner_and_present owner [Val_model cls fs, v]
          else (case classifications_for cls of
            None \<Rightarrow> Inl (TaskDocumentMutationClassificationError cls)
          | Some classifications \<Rightarrow>
              union_results (map (\<lambda>(name, change).
                case (map_of gs name, map_of classifications name) of
                  (Some w, Some effects) \<Rightarrow> change w effects | (None, _) \<Rightarrow> Inl (AttributeError name)
                | (_, None) \<Rightarrow> Inl (KeyError name)) (map (map_prod (\<lambda>x. x) changed_value) fs)))
      | Val_none \<Rightarrow> owner_and_present owner [Val_model cls fs]
      | _ \<Rightarrow> Inr owner))"
| "changed_value (Val_map kvs) v owner =
     (if v = Val_map kvs then Inr {}
      else (case v of
        Val_map ws \<Rightarrow>
          if set (map fst ws) \<noteq> set (map fst kvs) then owner_and_present owner [Val_map kvs, v]
          else union_results (map (\<lambda>(k, change). case map_of ws k of None \<Rightarrow> Inl (KeyError k) | Some w \<Rightarrow> change w owner)
                 (map (map_prod (\<lambda>x. x) changed_value) kvs))
      | Val_none \<Rightarrow> owner_and_present owner [Val_map kvs]
      | _ \<Rightarrow> Inr owner))"
| "changed_value (Val_list us) v owner =
     (if v = Val_list us then Inr {}
      else (case v of
        Val_list vs \<Rightarrow>
          rbind (union_results (map2 (\<lambda>change w. change w owner) (map changed_value us) vs)) (\<lambda>es.
            if length us = length vs then Inr es
            else rbind (owner_and_present owner [Val_list (drop (length vs) us), Val_list (drop (length us) vs)]) (\<lambda>ps. Inr (es \<union> ps)))
      | Val_none \<Rightarrow> owner_and_present owner [Val_list us]
      | _ \<Rightarrow> Inr owner))"

definition classify_task_document_mutation :: "schema_value option \<Rightarrow> schema_value \<Rightarrow> mutation_class set result" where
  "classify_task_document_mutation original candidate =
     rbind (changed_value (case original of None \<Rightarrow> Val_none | Some v \<Rightarrow> v) candidate {}) (\<lambda>effects.
       Inr (mutation_class_of ` effects))"

section \<open>The sprints that a batch concerns\<close>

text \<open>A change carries the documents as the task tree reads them and as values of the schema.\<close>

record scope_change =
  sc_ref :: task_document_ref
  sc_original :: "(task_document \<times> schema_value) option"
  sc_candidate :: "task_document \<times> schema_value"

definition change_classes :: "scope_change \<Rightarrow> mutation_class set result" where
  "change_classes c = classify_task_document_mutation (map_option snd (sc_original c)) (snd (sc_candidate c))"

definition change_versions :: "scope_change \<Rightarrow> task_document list" where
  "change_versions c = (case sc_original c of None \<Rightarrow> [] | Some p \<Rightarrow> [fst p]) @ [fst (sc_candidate c)]"

definition is_sprint :: "task_document \<Rightarrow> bool" where
  "is_sprint d \<longleftrightarrow> td_kind d = Kd_master \<and> td_orchestrates d \<noteq> []"

fun changes_by_ref ::
    "string \<Rightarrow> (task_document_ref, scope_change) dict \<Rightarrow> scope_change list \<Rightarrow> (task_document_ref, scope_change) dict result" where
  "changes_by_ref repo d [] = Inr d"
| "changes_by_ref repo d (c # cs) =
     (if repository (sc_ref c) \<noteq> repo then Inl (TaskDocScopeError ''repository'')
      else if (case map_of d (sc_ref c) of None \<Rightarrow> False | Some previous \<Rightarrow> previous \<noteq> c)
      then Inl (TaskDocScopeError ''conflicting scope changes'')
      else changes_by_ref repo (AList.update (sc_ref c) c d) cs)"

definition affected_refs ::
    "task_topology \<Rightarrow> overrides \<Rightarrow> task_document_ref \<Rightarrow> task_document option \<Rightarrow> task_document \<Rightarrow> task_document_ref list result" where
  "affected_refs t overrides ref original candidate =
     rbind (projection_sprints_affected_by_master t ref original candidate overrides) (\<lambda>ss. Inr (map rd_ref ss))"

definition leaf_parent_ref :: "task_document_ref \<Rightarrow> task_document_ref result" where
  "leaf_parent_ref leaf =
     make_task_document_ref (repository leaf) (posix_text (path_parent (posix_parts (ref_path leaf)) @ [''task.json'']))"

definition leaf_projection_scopes ::
    "task_topology \<Rightarrow> scope_change \<Rightarrow> (task_document_ref, scope_change) dict \<Rightarrow> overrides \<Rightarrow> task_document_ref list result" where
  "leaf_projection_scopes t leaf changes overrides =
     rbind (leaf_parent_ref (sc_ref leaf)) (\<lambda>parent_ref.
       case map_of changes parent_ref of
         Some c \<Rightarrow> affected_refs t overrides parent_ref (map_option fst (sc_original c)) (fst (sc_candidate c))
       | None \<Rightarrow>
           (case resolve t parent_ref overrides of
              Inl (TaskDocumentRefError _) \<Rightarrow> Inr []
            | Inl e \<Rightarrow> Inl e
            | Inr d \<Rightarrow> affected_refs t overrides parent_ref (Some (rd_document d)) (rd_document d)))"

definition change_scopes ::
    "task_topology \<Rightarrow> (task_document_ref, scope_change) dict \<Rightarrow> overrides \<Rightarrow> scope_change \<Rightarrow> task_document_ref list result" where
  "change_scopes t changes overrides c =
     rbind (change_classes c) (\<lambda>classes.
       if \<not> invalidates_projection classes then Inr []
       else
         (let versions = change_versions c in
          rbind (if list_ex (\<lambda>d. td_kind d = Kd_master \<and> td_orchestrates d = []) versions
                 then affected_refs t overrides (sc_ref c) (map_option fst (sc_original c)) (fst (sc_candidate c)) else Inr [])
            (\<lambda>as_master.
          rbind (if list_ex (\<lambda>d. td_kind d = Kd_subTask) versions then leaf_projection_scopes t c changes overrides else Inr [])
            (\<lambda>as_leaf.
              Inr ((if list_ex is_sprint versions then [sc_ref c] else []) @ as_master @ as_leaf)))))"

definition resolve_projection_scope_union :: "task_topology \<Rightarrow> string \<Rightarrow> scope_change list \<Rightarrow> task_document_ref list result" where
  "resolve_projection_scope_union t repo changes =
     rbind (changes_by_ref repo [] changes) (\<lambda>by_ref.
     let overrides = map (\<lambda>(r, c). (r, fst (sc_candidate c))) by_ref in
     rbind (traverse (change_scopes t by_ref overrides) (map snd by_ref)) (\<lambda>scopes.
       Inr (sort_key ref_key (remdups (concat scopes)))))"


section \<open>Projections follow the reported planes\<close>

text \<open>A value of a schema: a model has the fields of its class, each once, and a mapping each key once.\<close>

primrec conforms :: "(string \<Rightarrow> string list option) \<Rightarrow> schema_value \<Rightarrow> bool" where
  "conforms S Val_none = True"
| "conforms S (Val_scalar a) = True"
| "conforms S (Val_model cls fs) =
     (S cls = Some (map fst fs) \<and> distinct (map fst fs) \<and> list_all snd (map (map_prod (\<lambda>x. x) (conforms S)) fs))"
| "conforms S (Val_map kvs) = (distinct (map fst kvs) \<and> list_all snd (map (map_prod (\<lambda>x. x) (conforms S)) kvs))"
| "conforms S (Val_list vs) = list_all (\<lambda>b. b) (map (conforms S) vs)"

lemma union_results_Inr:
  "union_results rs = Inr E \<Longrightarrow> r \<in> set rs \<Longrightarrow> \<exists>E'. r = Inr E' \<and> E' \<subseteq> E"
proof -
  assume u: "union_results rs = Inr E" and r: "r \<in> set rs"
  obtain es where es: "traverse (\<lambda>r. r) rs = Inr es" "E = \<Union> (set es)"
    using u by (auto simp: union_results_def elim!: rbind_InrE)
  then show ?thesis using traverse_defined [OF es(1) r] by blast
qed

lemma owner_and_present_Inr: "owner_and_present owner vs = Inr E \<Longrightarrow> owner \<subseteq> E"
  by (auto simp: owner_and_present_def elim!: rbind_InrE)

lemma traverse_cong2: "list_all2 (\<lambda>x y. f x = f y) xs ys \<Longrightarrow> traverse f xs = traverse f ys"
  by (induction rule: list_all2_induct) auto

lemma sort_key_fst_unique:
  fixes P :: "(string \<times> 'a) list"
  assumes "set P = set Q" "distinct (map fst P)" "distinct (map fst Q)"
  shows "sort_key fst P = sort_key fst Q"
proof (rule map_sorted_distinct_set_unique)
  show "inj_on fst (set (sort_key fst P) \<union> set (sort_key fst Q))"
    using assms by (simp add: distinct_map)
qed (use assms in \<open>simp_all add: distinct_map\<close>)

lemma zip_fields:
  assumes "map fst fs = map fst gs" "(p, q) \<in> set (zip fs gs)" "distinct (map fst gs)"
  shows "p \<in> set fs" "fst p = fst q" "map_of gs (fst q) = Some (snd q)"
proof -
  have len: "length fs = length gs" using assms(1) by (rule map_eq_imp_length_eq)
  obtain i where i: "i < length fs" "p = fs ! i" "q = gs ! i" using assms(2) by (auto simp: set_zip)
  then show "p \<in> set fs" by simp
  show "fst p = fst q" using assms(1) i len by (metis nth_map)
  have "q \<in> set gs" using i len by simp
  then show "map_of gs (fst q) = Some (snd q)" using assms(3) by simp
qed

lemma project_fields_cong:
  assumes "map fst fs = map fst gs"
    and "\<And>p q effects. (p, q) \<in> set (zip fs gs) \<Longrightarrow> map_of cl (fst q) = Some effects \<Longrightarrow> e \<in> effects \<Longrightarrow>
           project_value e (snd p) = project_value e (snd q)"
    and "distinct (map fst gs)"
  shows "project_fields e cl (map (map_prod (\<lambda>x. x) (project_value e)) fs)
    = project_fields e cl (map (map_prod (\<lambda>x. x) (project_value e)) gs)"
proof -
  define f where "f = (\<lambda>(name, v). case map_of cl name of None \<Rightarrow> Inl (KeyError name)
    | Some effects \<Rightarrow> if e \<notin> effects then Inr None else rbind v (\<lambda>j. Inr (Some (name, j :: json))))"
  have "list_all2 (\<lambda>x y. f x = f y) (map (map_prod (\<lambda>x. x) (project_value e)) fs) (map (map_prod (\<lambda>x. x) (project_value e)) gs)"
    unfolding list.rel_map
  proof (rule list_all2I)
    show "\<forall>x\<in>set (zip fs gs). case x of (p, q) \<Rightarrow>
        f (map_prod (\<lambda>x. x) (project_value e) p) = f (map_prod (\<lambda>x. x) (project_value e) q)"
    proof clarify
      fix a x b y
      assume z: "((a, x), (b, y)) \<in> set (zip fs gs)"
      have ab: "a = b" using zip_fields(2) [OF assms(1) z assms(3)] by simp
      show "f (map_prod (\<lambda>x. x) (project_value e) (a, x)) = f (map_prod (\<lambda>x. x) (project_value e) (b, y))"
        using assms(2) [OF z] ab by (auto simp: f_def split: option.splits)
    qed
    show "length fs = length gs" using assms(1) by (rule map_eq_imp_length_eq)
  qed
  then show ?thesis unfolding project_fields_def f_def [symmetric] by (simp add: traverse_cong2)
qed

lemma changed_model:
  assumes "changed_value (Val_model cls fs) (Val_model cls gs) owner = Inr E" "fs \<noteq> gs"
    and "p \<in> set fs" "map_of gs (fst p) = Some w" "classifications_for cls = Some cl" "map_of cl (fst p) = Some effects"
  shows "\<exists>E'. changed_value (snd p) w effects = Inr E' \<and> E' \<subseteq> E"
proof -
  obtain a x where p: "p = (a, x)" by force
  define f where "f = (\<lambda>(name, change :: schema_value \<Rightarrow> field_effect set \<Rightarrow> field_effect set result).
      case (map_of gs name, map_of cl name) of
        (Some w, Some effects) \<Rightarrow> change w effects | (None, _) \<Rightarrow> Inl (AttributeError name)
      | (_, None) \<Rightarrow> Inl (KeyError name))"
  have "union_results (map f (map (map_prod (\<lambda>x. x) changed_value) fs)) = Inr E"
    using assms(1,2,5) by (simp add: f_def)
  moreover have "(a, changed_value x) \<in> set (map (map_prod (\<lambda>x. x) changed_value) fs)"
    using assms(3) p by (metis image_eqI list.set_map map_prod_simp)
  then have "f (a, changed_value x) \<in> set (map f (map (map_prod (\<lambda>x. x) changed_value) fs))" by (metis image_eqI list.set_map)
  ultimately show ?thesis using union_results_Inr assms(4,6) p by (fastforce simp: f_def)
qed

lemma changed_map:
  assumes "changed_value (Val_map kvs) (Val_map ws) owner = Inr E" "kvs \<noteq> ws" "set (map fst ws) = set (map fst kvs)"
    and "p \<in> set kvs" "map_of ws (fst p) = Some w"
  shows "\<exists>E'. changed_value (snd p) w owner = Inr E' \<and> E' \<subseteq> E"
proof -
  obtain a x where p: "p = (a, x)" by force
  define f where "f = (\<lambda>(k, change :: schema_value \<Rightarrow> field_effect set \<Rightarrow> field_effect set result).
      case map_of ws k of None \<Rightarrow> Inl (KeyError k) | Some w \<Rightarrow> change w owner)"
  have "union_results (map f (map (map_prod (\<lambda>x. x) changed_value) kvs)) = Inr E"
    using assms(1,2,3) by (simp add: f_def)
  moreover have "(a, changed_value x) \<in> set (map (map_prod (\<lambda>x. x) changed_value) kvs)"
    using assms(4) p by (metis image_eqI list.set_map map_prod_simp)
  then have "f (a, changed_value x) \<in> set (map f (map (map_prod (\<lambda>x. x) changed_value) kvs))" by (metis image_eqI list.set_map)
  ultimately show ?thesis using union_results_Inr assms(5) p by (fastforce simp: f_def)
qed

lemma changed_list:
  assumes "changed_value (Val_list us) (Val_list vs) owner = Inr E" "us \<noteq> vs" "(x, w) \<in> set (zip us vs)"
  shows "\<exists>E'. changed_value x w owner = Inr E' \<and> E' \<subseteq> E"
proof -
  obtain es where es: "union_results (map2 (\<lambda>change w. change w owner) (map changed_value us) vs) = Inr es" "es \<subseteq> E"
    using assms(1,2) by (auto elim!: rbind_InrE split: if_splits)
  have "changed_value x w owner \<in> set (map2 (\<lambda>change w. change w owner) (map changed_value us) vs)"
    using assms(3) by (force simp: zip_map1)
  from union_results_Inr [OF es(1) this] es(2) show ?thesis by blast
qed

lemma project_map_cong:
  assumes "distinct (map fst kvs)" "distinct (map fst ws)" "set (map fst ws) = set (map fst kvs)"
    and "\<And>p w. p \<in> set kvs \<Longrightarrow> map_of ws (fst p) = Some w \<Longrightarrow> project_value e (snd p) = project_value e w"
  shows "project_value e (Val_map kvs) = project_value e (Val_map ws)"
proof -
  let ?f = "map_prod (\<lambda>x. x) (project_value e)"
  have names: "map fst (map ?f xs) = map fst xs" for xs :: "(string \<times> schema_value) list" by (induction xs) auto
  have looked: "project_value e v = project_value e w" if "(k, v) \<in> set kvs" "(k, w) \<in> set ws" for k v w
    using assms(4) [OF that(1)] that(2) assms(2) by simp
  have image: "(k, project_value e v) \<in> set (map ?f xs)" if "(k, v) \<in> set xs" for k v and xs :: "(string \<times> schema_value) list"
    using that by (metis image_eqI list.set_map map_prod_simp)
  have key: "\<exists>w. (k, w) \<in> set ys" if "(k, v) \<in> set xs" "fst ` set xs = fst ` set ys" for k v and xs ys :: "(string \<times> schema_value) list"
    using that by (metis fst_conv image_iff prod.collapse)
  have keys: "fst ` set kvs = fst ` set ws" using assms(3) by simp
  have "set (map ?f kvs) = set (map ?f ws)"
  proof (intro set_eqI iffI)
    fix y assume "y \<in> set (map ?f kvs)"
    then obtain k v where k: "(k, v) \<in> set kvs" "y = (k, project_value e v)" by auto
    obtain w where w: "(k, w) \<in> set ws" using key [OF k(1) keys] by blast
    show "y \<in> set (map ?f ws)" unfolding k(2) looked [OF k(1) w] by (rule image [OF w])
  next
    fix y assume "y \<in> set (map ?f ws)"
    then obtain k w where k: "(k, w) \<in> set ws" "y = (k, project_value e w)" by auto
    obtain v where v: "(k, v) \<in> set kvs" using key [OF k(1) keys [symmetric]] by blast
    show "y \<in> set (map ?f kvs)" unfolding k(2) looked [OF v k(1), symmetric] by (rule image [OF v])
  qed
  then have "sort_key fst (map ?f kvs) = sort_key fst (map ?f ws)"
    by (rule sort_key_fst_unique) (simp_all only: names assms)
  then show ?thesis by simp
qed

lemma unchanged_plane:
  assumes "conforms S u" "conforms S v" "changed_value u v owner = Inr E" "e \<notin> E"
    and "e \<in> owner \<or> (\<exists>cls fs gs. u = Val_model cls fs \<and> v = Val_model cls gs)"
  shows "project_value e u = project_value e v"
  using assms
proof (induction u arbitrary: v owner E)
  case Val_none
  then show ?case by (auto dest: owner_and_present_Inr split: if_splits)
next
  case (Val_scalar a)
  then show ?case by (auto split: if_splits)
next
  case (Val_model cls fs)
  show ?case
  proof (cases "v = Val_model cls fs")
    case False
    then obtain gs where v: "v = Val_model cls gs" 
      using Val_model.prems(3-5) by (auto dest!: owner_and_present_Inr split: schema_value.splits if_splits)
    with False have ne: "fs \<noteq> gs" by simp
    obtain cl where cl: "classifications_for cls = Some cl"
      using Val_model.prems(3) v ne by (auto split: option.splits)
    have names: "map fst fs = map fst gs" "distinct (map fst gs)" using Val_model.prems(1,2) v by auto
    have "project_value e (snd p) = project_value e (snd q)"
      if z: "(p, q) \<in> set (zip fs gs)" and eff: "map_of cl (fst q) = Some effects" "e \<in> effects" for p q effects
    proof -
      note zf = zip_fields [OF names(1) z names(2)]
      have m: "map_of gs (fst p) = Some (snd q)" "map_of cl (fst p) = Some effects" using zf eff by simp_all
      obtain E' where E': "changed_value (snd p) (snd q) effects = Inr E'" "E' \<subseteq> E"
        using changed_model [OF Val_model.prems(3) [unfolded v] ne zf(1) m(1) cl m(2)] by blast
      have q: "q \<in> set gs" using z by (metis set_zip_rightD surj_pair)
      have "conforms S (snd p)" "conforms S (snd q)" using Val_model.prems(1,2) v zf(1) q by (auto simp: list_all_iff)
      moreover have "snd p \<in> Basic_BNFs.snds p" by (cases p) simp
      ultimately show ?thesis using Val_model.IH [OF zf(1) _ _ _ E'(1)] E'(2) Val_model.prems(4) eff(2) by blast
    qed
    then show ?thesis using project_fields_cong [OF names(1) _ names(2), of cl e] v cl by simp
  qed simp
next
  case (Val_map kvs)
  show ?case
  proof (cases "v = Val_map kvs")
    case False
    then obtain ws where v: "v = Val_map ws" and keys: "set (map fst ws) = set (map fst kvs)"
      using Val_map.prems(3-5) by (auto dest!: owner_and_present_Inr split: schema_value.splits if_splits)
    with False have ne: "kvs \<noteq> ws" by simp
    have "project_value e (snd p) = project_value e w" if p: "p \<in> set kvs" "map_of ws (fst p) = Some w" for p w
    proof -
      obtain E' where E': "changed_value (snd p) w owner = Inr E'" "E' \<subseteq> E"
        using changed_map [OF Val_map.prems(3) [unfolded v] ne keys p] by blast
      have "(fst p, w) \<in> set ws" using p(2) by (rule map_of_SomeD)
      then have "conforms S (snd p)" "conforms S w" using Val_map.prems(1,2) v p(1) by (auto simp: list_all_iff)
      moreover have "snd p \<in> Basic_BNFs.snds p" by (cases p) simp
      ultimately show ?thesis using Val_map.IH [OF p(1) _ _ _ E'(1)] E'(2) Val_map.prems(4,5) by blast
    qed
    then show ?thesis using project_map_cong [of kvs ws e] Val_map.prems(1,2) v keys by simp
  qed simp
next
  case (Val_list us)
  show ?case
  proof (cases "v = Val_list us")
    case False
    then obtain vs where v: "v = Val_list vs"
      using Val_list.prems(3-5) by (auto dest!: owner_and_present_Inr split: schema_value.splits if_splits)
    with False have ne: "us \<noteq> vs" by simp
    have len: "length us = length vs"
      using Val_list.prems(3-5) v ne by (auto dest!: owner_and_present_Inr elim!: rbind_InrE split: if_splits)
    have "project_value e x = project_value e w" if z: "(x, w) \<in> set (zip us vs)" for x w
    proof -
      obtain E' where E': "changed_value x w owner = Inr E'" "E' \<subseteq> E"
        using changed_list [OF Val_list.prems(3) [unfolded v] ne z] by blast
      have mem: "x \<in> set us" "w \<in> set vs" using z by (auto dest: set_zip_leftD set_zip_rightD)
      then have "conforms S x" "conforms S w" using Val_list.prems(1,2) v by (auto simp: list_all_iff)
      then show ?thesis using Val_list.IH [OF mem(1) _ _ E'(1)] E'(2) Val_list.prems(4,5) by blast
    qed
    with len have "map (project_value e) us = map (project_value e) vs" by (intro nth_equalityI) (auto simp: set_zip)
    then show ?thesis using v by (simp add: comp_def)
  qed simp
qed


lemma classified_planes:
  assumes "conforms S (Val_model cls fs)" "conforms S (Val_model cls gs)"
    and "classify_task_document_mutation (Some (Val_model cls fs)) (Val_model cls gs) = Inr classes"
    and "mutation_class_of e \<notin> classes"
  shows "project_value e (Val_model cls fs) = project_value e (Val_model cls gs)"
proof -
  obtain E where E: "changed_value (Val_model cls fs) (Val_model cls gs) {} = Inr E" "classes = mutation_class_of ` E"
    using assms(3) unfolding classify_task_document_mutation_def option.case by (elim rbind_InrE) blast
  then have "e \<notin> E" using assms(4) by blast
  then show ?thesis using unchanged_plane [OF assms(1,2) E(1)] by blast
qed

lemma quiet_change:
  assumes "conforms S (Val_model cls fs)" "conforms S (Val_model cls gs)"
    and "classify_task_document_mutation (Some (Val_model cls fs)) (Val_model cls gs) = Inr classes"
    and "\<not> invalidates_projection classes"
    and "e \<in> {Eff_structural_topology, Eff_normative_intent, Eff_completion_readiness, Eff_progress}"
  shows "project_value e (Val_model cls fs) = project_value e (Val_model cls gs)"
  using classified_planes [OF assms(1-3)] assms(4,5) by (auto simp: invalidates_projection_def)

section \<open>The scopes of a batch\<close>

lemma changes_by_ref_lookup:
  "changes_by_ref repo d cs = Inr by_ref \<Longrightarrow>
     (\<forall>r c. map_of d r = Some c \<longrightarrow> map_of by_ref r = Some c) \<and> (\<forall>c\<in>set cs. map_of by_ref (sc_ref c) = Some c)"
proof (induction cs arbitrary: d)
  case (Cons c cs)
  have rest: "changes_by_ref repo (AList.update (sc_ref c) c d) cs = Inr by_ref"
    using Cons.prems by (simp split: if_splits)
  have "map_of (AList.update (sc_ref c) c d) r = Some c'" if "map_of d r = Some c'" for r c'
    using Cons.prems that by (auto simp: update_conv' split: if_splits)
  then show ?case using Cons.IH [OF rest] by (simp add: update_conv')
qed simp

lemma change_scopes_sprint:
  assumes "change_scopes t changes overrides c = Inr scopes" "list_ex is_sprint (change_versions c)" "sc_ref c \<notin> set scopes"
  shows "\<exists>classes. change_classes c = Inr classes \<and> \<not> invalidates_projection classes"
  using assms unfolding change_scopes_def Let_def by (elim rbind_InrE) (auto elim!: rbind_InrE split: if_splits)

lemma quiet_sprint:
  assumes "resolve_projection_scope_union t repo changes = Inr scopes" "c \<in> set changes"
    and "list_ex is_sprint (change_versions c)" "sc_ref c \<notin> set scopes"
  shows "\<exists>classes. change_classes c = Inr classes \<and> \<not> invalidates_projection classes"
proof -
  obtain by_ref parts where by_ref: "changes_by_ref repo [] changes = Inr by_ref"
    and parts: "traverse (change_scopes t by_ref (map (\<lambda>(r, c). (r, fst (sc_candidate c))) by_ref)) (map snd by_ref) = Inr parts"
    and scopes: "scopes = sort_key ref_key (remdups (concat parts))"
    using assms(1) by (auto simp: resolve_projection_scope_union_def Let_def elim!: rbind_InrE)
  have "map_of by_ref (sc_ref c) = Some c" using changes_by_ref_lookup [OF by_ref] assms(2) by blast
  then have "c \<in> set (map snd by_ref)" by (force dest: map_of_SomeD)
  then obtain part where part: "part \<in> set parts"
      "change_scopes t by_ref (map (\<lambda>(r, c). (r, fst (sc_candidate c))) by_ref) c = Inr part"
    using traverse_defined [OF parts] by blast
  have "sc_ref c \<notin> set part" using assms(4) part(1) by (auto simp: scopes)
  then show ?thesis using change_scopes_sprint [OF part(2) assms(3)] by blast
qed

text \<open>In terms of the taxonomy: what stays out of the scopes projects equally to the four planes that
  invalidate a projection.\<close>

lemma planes_outside_the_scopes:
  assumes "resolve_projection_scope_union t repo changes = Inr scopes" "c \<in> set changes"
    and "sc_original c = Some (before, Val_model cls fs)" "sc_candidate c = (after, Val_model cls gs)"
    and "conforms S (Val_model cls fs)" "conforms S (Val_model cls gs)"
    and "list_ex is_sprint [before, after]" "sc_ref c \<notin> set scopes"
    and "e \<in> {Eff_structural_topology, Eff_normative_intent, Eff_completion_readiness, Eff_progress}"
  shows "project_value e (Val_model cls fs) = project_value e (Val_model cls gs)"
proof -
  have "list_ex is_sprint (change_versions c)" using assms(3,4,7) by (simp add: change_versions_def)
  then obtain classes where "change_classes c = Inr classes" "\<not> invalidates_projection classes"
    using quiet_sprint [OF assms(1,2) _ assms(8)] by blast
  then show ?thesis using quiet_change [OF assms(5,6) _ _ assms(9)] assms(3,4) by (simp add: change_classes_def)
qed

section \<open>The schedule of a sprint\<close>

text \<open>
  What a sprint schedules, without the taxonomy: the values of these fields, which the schema builds of
  scalars, lists and models of the classes below, up to the judgment an edge of the graph cites.
\<close>

definition SCHEDULE_FIELDS :: "string list" where
  "SCHEDULE_FIELDS = [''id'', ''title'', ''kind'', ''repo'', ''status'', ''executionNature'', ''executionGraph'',
     ''subTasks'', ''orchestrates'']"

definition SCHEDULE_CLASSES :: "string list" where
  "SCHEDULE_CLASSES = [''SprintExecutionGraph'', ''SprintExecutionNode'', ''SprintExecutionEdge'',
     ''SprintExecutionEndpoint'', ''SubTaskRef'', ''TaskDocumentRef'']"

primrec schedule_shaped :: "schema_value \<Rightarrow> bool" where
  "schedule_shaped Val_none = True"
| "schedule_shaped (Val_scalar a) = True"
| "schedule_shaped (Val_model cls fs) =
     (cls \<in> set SCHEDULE_CLASSES \<and> list_all snd (map (map_prod (\<lambda>x. x) schedule_shaped) fs))"
| "schedule_shaped (Val_map kvs) = False"
| "schedule_shaped (Val_list vs) = list_all (\<lambda>b. b) (map schedule_shaped vs)"

definition cited :: "string \<Rightarrow> string \<Rightarrow> bool" where
  "cited cls name \<longleftrightarrow> cls = ''SprintExecutionEdge'' \<and> name = ''judgmentId''"

primrec drop_judgments :: "schema_value \<Rightarrow> schema_value" where
  "drop_judgments Val_none = Val_none"
| "drop_judgments (Val_scalar a) = Val_scalar a"
| "drop_judgments (Val_model cls fs) =
     Val_model cls (filter (\<lambda>p. \<not> cited cls (fst p)) (map (map_prod (\<lambda>x. x) drop_judgments) fs))"
| "drop_judgments (Val_map kvs) = Val_map (map (map_prod (\<lambda>x. x) drop_judgments) kvs)"
| "drop_judgments (Val_list vs) = Val_list (map drop_judgments vs)"

definition invalidating :: "field_effect set" where
  "invalidating = {Eff_structural_topology, Eff_normative_intent, Eff_completion_readiness, Eff_progress}"

lemma schedule_classes_invalidate:
  assumes "cls \<in> set SCHEDULE_CLASSES" "classifications_for cls = Some cl" "map_of cl name = Some effects"
    and "\<not> cited cls name"
  shows "effects \<inter> invalidating \<noteq> {}"
  using assms
  by (auto simp: SCHEDULE_CLASSES_def classifications_for_def TASK_DOCUMENT_FIELD_EFFECTS_def effect_defs cited_def
      invalidating_def split: if_splits)

lemma schedule_fields_invalidate:
  assumes "name \<in> set SCHEDULE_FIELDS" "classifications_for ''TaskDocument'' = Some cl" "map_of cl name = Some effects"
  shows "effects \<inter> invalidating \<noteq> {}"
  using assms
  by (auto simp: SCHEDULE_FIELDS_def classifications_for_def TASK_DOCUMENT_FIELD_EFFECTS_def effect_defs invalidating_def)

text \<open>Every field of two different models of one class that compare is classified and compared.\<close>

lemma changed_model_fields:
  assumes "changed_value (Val_model cls fs) (Val_model cls gs) owner = Inr E" "fs \<noteq> gs" "p \<in> set fs"
  shows "\<exists>cl w effects E'. classifications_for cls = Some cl \<and> map_of gs (fst p) = Some w
    \<and> map_of cl (fst p) = Some effects \<and> changed_value (snd p) w effects = Inr E' \<and> E' \<subseteq> E"
proof -
  obtain a x where p: "p = (a, x)" by force
  obtain cl where cl: "classifications_for cls = Some cl" using assms(1,2) by (auto split: option.splits)
  define f where "f = (\<lambda>(name, change :: schema_value \<Rightarrow> field_effect set \<Rightarrow> field_effect set result).
      case (map_of gs name, map_of cl name) of
        (Some w, Some effects) \<Rightarrow> change w effects | (None, _) \<Rightarrow> Inl (AttributeError name)
      | (_, None) \<Rightarrow> Inl (KeyError name))"
  have "union_results (map f (map (map_prod (\<lambda>x. x) changed_value) fs)) = Inr E"
    using assms(1,2) cl by (simp add: f_def)
  moreover have "(a, changed_value x) \<in> set (map (map_prod (\<lambda>x. x) changed_value) fs)"
    using assms(3) p by (metis image_eqI list.set_map map_prod_simp)
  then have "f (a, changed_value x) \<in> set (map f (map (map_prod (\<lambda>x. x) changed_value) fs))" by (metis image_eqI list.set_map)
  ultimately obtain E' where "f (a, changed_value x) = Inr E'" "E' \<subseteq> E" using union_results_Inr by blast
  then show ?thesis using cl p by (auto simp: f_def split: option.splits)
qed

lemma drop_fields_cong:
  assumes "map fst fs = map fst gs" "\<And>p q. (p, q) \<in> set (zip fs gs) \<Longrightarrow> P (fst p) \<Longrightarrow> f (snd p) = f (snd q)"
  shows "filter (\<lambda>p. P (fst p)) (map (map_prod (\<lambda>x. x) f) fs) = filter (\<lambda>p. P (fst p)) (map (map_prod (\<lambda>x. x) f) gs)"
  using assms
proof (induction fs arbitrary: gs)
  case (Cons a fs)
  then obtain b hs where gs: "gs = b # hs" "fst a = fst b" "map fst fs = map fst hs" by auto
  have "filter (\<lambda>p. P (fst p)) (map (map_prod (\<lambda>x. x) f) fs) = filter (\<lambda>p. P (fst p)) (map (map_prod (\<lambda>x. x) f) hs)"
    by (rule Cons.IH [OF gs(3)]) (use Cons.prems(2) gs(1) in auto)
  then show ?case using Cons.prems(2) [of a b] gs(1,2) by (cases a; cases b) auto
qed simp

lemma unchanged_schedule:
  assumes "conforms S u" "conforms S v" "schedule_shaped u" "schedule_shaped v"
    and "changed_value u v owner = Inr E" "owner \<inter> invalidating \<noteq> {}" "E \<inter> invalidating = {}"
  shows "drop_judgments u = drop_judgments v"
  using assms
proof (induction u arbitrary: v owner E)
  case Val_none
  then show ?case by (auto dest!: owner_and_present_Inr split: if_splits)
next
  case (Val_scalar a)
  then show ?case by (auto split: if_splits)
next
  case (Val_map kvs)
  then show ?case by simp
next
  case (Val_model cls fs)
  show ?case
  proof (cases "v = Val_model cls fs")
    case False
    obtain gs where v: "v = Val_model cls gs"
      using Val_model.prems(5-7) False by (auto dest!: owner_and_present_Inr split: schema_value.splits if_splits)
    with False have ne: "fs \<noteq> gs" by simp
    have names: "map fst fs = map fst gs" "distinct (map fst gs)" using Val_model.prems(1,2) v by auto
    have "drop_judgments (snd p) = drop_judgments (snd q)"
      if z: "(p, q) \<in> set (zip fs gs)" and keep: "\<not> cited cls (fst p)" for p q
    proof -
      note zf = zip_fields [OF names(1) z names(2)]
      obtain cl w effects E' where "classifications_for cls = Some cl" "map_of gs (fst p) = Some w"
        "map_of cl (fst p) = Some effects" and E': "changed_value (snd p) w effects = Inr E'" "E' \<subseteq> E"
        using changed_model_fields [OF Val_model.prems(5) [unfolded v] ne zf(1)] by blast
      then have "w = snd q" "effects \<inter> invalidating \<noteq> {}"
        using zf schedule_classes_invalidate [of cls cl "fst p" effects] Val_model.prems(3) keep by auto
      moreover have q: "q \<in> set gs" using z by (metis set_zip_rightD surj_pair)
      have "conforms S (snd p)" "conforms S (snd q)" "schedule_shaped (snd p)" "schedule_shaped (snd q)"
        using Val_model.prems(1-4) v zf(1) q by (auto simp: list_all_iff)
      moreover have "snd p \<in> Basic_BNFs.snds p" by (cases p) simp
      ultimately show ?thesis using Val_model.IH [OF zf(1) _ _ _ _ _ E'(1)] E'(2) Val_model.prems(7) by blast
    qed
    then show ?thesis using drop_fields_cong [OF names(1), of "\<lambda>n. \<not> cited cls n" drop_judgments] v by simp
  qed simp
next
  case (Val_list us)
  show ?case
  proof (cases "v = Val_list us")
    case False
    obtain vs where v: "v = Val_list vs"
      using Val_list.prems(5-7) False by (auto dest!: owner_and_present_Inr split: schema_value.splits if_splits)
    with False have ne: "us \<noteq> vs" by simp
    have len: "length us = length vs"
      using Val_list.prems(5-7) v ne by (auto dest!: owner_and_present_Inr elim!: rbind_InrE split: if_splits) blast
    have "drop_judgments x = drop_judgments w" if z: "(x, w) \<in> set (zip us vs)" for x w
    proof -
      obtain E' where E': "changed_value x w owner = Inr E'" "E' \<subseteq> E"
        using changed_list [OF Val_list.prems(5) [unfolded v] ne z] by blast
      have mem: "x \<in> set us" "w \<in> set vs" using z by (auto dest: set_zip_leftD set_zip_rightD)
      then have "conforms S x" "conforms S w" "schedule_shaped x" "schedule_shaped w"
        using Val_list.prems(1-4) v by (auto simp: list_all_iff)
      then show ?thesis using Val_list.IH [OF mem(1) _ _ _ _ E'(1)] E'(2) Val_list.prems(6,7) by blast
    qed
    with len have "map drop_judgments us = map drop_judgments vs" by (intro nth_equalityI) (auto simp: set_zip)
    then show ?thesis using v by simp
  qed simp
qed

text \<open>C38. A sprint whose projection is left alone keeps its schedule. When the scopes of a batch are computed
  and a changed sprint document is not among them, then its id, title, kind, repository, status, nature,
  execution graph, rows and commanded names have the same values before and after the change, except for
  the judgments that edges of the graph cite. (Its sections may have changed: the taxonomy takes the planning
  registers in them for prose.)\<close>

theorem sprint_outside_the_scopes_keeps_schedule:
  assumes "resolve_projection_scope_union t repo changes = Inr scopes" "c \<in> set changes"
    and "sc_original c = Some (before, Val_model ''TaskDocument'' fs)" "sc_candidate c = (after, Val_model ''TaskDocument'' gs)"
    and "conforms S (Val_model ''TaskDocument'' fs)" "conforms S (Val_model ''TaskDocument'' gs)"
    and "list_ex is_sprint [before, after]" "sc_ref c \<notin> set scopes"
    and "name \<in> {''id'', ''title'', ''kind'', ''repo'', ''status'', ''executionNature'', ''executionGraph'', ''subTasks'', ''orchestrates''}"
    and "map_of fs name = Some u" "map_of gs name = Some v" "schedule_shaped u" "schedule_shaped v"
  shows "drop_judgments u = drop_judgments v"
proof (cases "fs = gs")
  case False
  have "list_ex is_sprint (change_versions c)" using assms(3,4,7) by (simp add: change_versions_def)
  then obtain classes where "change_classes c = Inr classes" and quiet: "\<not> invalidates_projection classes"
    using quiet_sprint [OF assms(1,2) _ assms(8)] by blast
  then obtain E where E: "changed_value (Val_model ''TaskDocument'' fs) (Val_model ''TaskDocument'' gs) {} = Inr E"
    and classes: "classes = mutation_class_of ` E"
    using assms(3,4)
    by (auto simp: change_classes_def classify_task_document_mutation_def simp del: changed_value.simps elim!: rbind_InrE)
  have out: "E \<inter> invalidating = {}"
    using quiet by (force simp: classes invalidates_projection_def invalidating_def)
  have mem: "(name, u) \<in> set fs" "(name, v) \<in> set gs" using assms(10,11) by (auto dest: map_of_SomeD)
  obtain cl effects E' where "classifications_for ''TaskDocument'' = Some cl" "map_of cl name = Some effects"
    and E': "changed_value u v effects = Inr E'" "E' \<subseteq> E"
    using changed_model_fields [OF E False mem(1)] assms(11) by auto
  then have "effects \<inter> invalidating \<noteq> {}"
    using schedule_fields_invalidate [of name cl effects] assms(9) by (simp add: SCHEDULE_FIELDS_def)
  moreover have "conforms S u" "conforms S v" using assms(5,6) mem by (auto simp: list_all_iff)
  ultimately show ?thesis using unchanged_schedule [OF _ _ assms(12,13) E'(1)] E'(2) out by blast
qed (use assms(10,11) in simp)

text \<open>The sections of a document are prose to the taxonomy. But two sections of a sprint are the planning
  registers, from which the projection grades its members: an edit of a register invalidates nothing.\<close>

definition register_edit :: "string \<Rightarrow> schema_value" where
  "register_edit body =
     Val_model ''TaskDocument''
       [(''title'', Val_scalar (Text_scalar ''t'')),
        (''sections'', Val_list [Val_model ''Section'' [(''kind'', Val_scalar (Text_scalar ''freeform'')),
           (''heading'', Val_scalar (Text_scalar ''Priority Register (explicit judgment)'')), (''body'', Val_scalar (Text_scalar body))]])]"

lemma register_edit_invalidates_nothing:
  "classify_task_document_mutation (Some (register_edit ''old'')) (register_edit ''new'') = Inr {Mut_operational_audit}"
  "\<not> invalidates_projection {Mut_operational_audit}"
proof -
  have td: "classifications_for ''TaskDocument'' = Some cl \<Longrightarrow> map_of cl ''sections'' = Some {Eff_prose_audit}
      \<and> map_of cl ''title'' = Some {Eff_normative_intent}" for cl
    by (auto simp: classifications_for_def TASK_DOCUMENT_FIELD_EFFECTS_def effect_defs)
  obtain cl where cl: "classifications_for ''TaskDocument'' = Some cl"
    by (simp add: classifications_for_def TASK_DOCUMENT_FIELD_EFFECTS_def)
  have sec: "classifications_for ''Section'' = Some [(''kind'', {Eff_prose_audit}), (''heading'', {Eff_prose_audit}), (''body'', {Eff_prose_audit})]"
    by (simp add: classifications_for_def TASK_DOCUMENT_FIELD_EFFECTS_def effect_defs)
  show "classify_task_document_mutation (Some (register_edit ''old'')) (register_edit ''new'') = Inr {Mut_operational_audit}"
    by (simp add: classify_task_document_mutation_def register_edit_def cl td [OF cl] sec union_results_def)
  show "\<not> invalidates_projection {Mut_operational_audit}" by (simp add: invalidates_projection_def)
qed

text \<open>A batch that only gives an edge of a sprint's graph another judgment.\<close>

definition sample_ref_value :: "string \<Rightarrow> schema_value" where
  "sample_ref_value p = Val_model ''TaskDocumentRef''
     [(''repository'', Val_scalar (Text_scalar ''repo'')), (''path'', Val_scalar (Text_scalar p))]"

definition sample_graph_value :: "string \<Rightarrow> schema_value" where
  "sample_graph_value judgment = Val_model ''SprintExecutionGraph''
     [(''nodes'', Val_list []),
      (''edges'', Val_list [Val_model ''SprintExecutionEdge''
         [(''predecessor'', sample_ref_value ''a/task.json''), (''successor'', sample_ref_value ''b/task.json''),
          (''reason'', Val_scalar (Text_scalar ''first a'')), (''judgmentId'', Val_scalar (Text_scalar judgment))]])]"

definition sample_scope_change :: scope_change where
  "sample_scope_change = \<lparr>sc_ref = \<lparr>repository = ''repo'', ref_path = ''s/task.json''\<rparr>,
     sc_original = Some (Task_Topology.sample_sprint, Val_model ''TaskDocument'' [(''executionGraph'', sample_graph_value ''J1'')]),
     sc_candidate = (Task_Topology.sample_sprint, Val_model ''TaskDocument'' [(''executionGraph'', sample_graph_value ''J2'')])\<rparr>"

lemma sample_judgment_edit:
  "classify_task_document_mutation (Some (Val_model ''TaskDocument'' [(''executionGraph'', sample_graph_value ''J1'')]))
     (Val_model ''TaskDocument'' [(''executionGraph'', sample_graph_value ''J2'')]) = Inr {Mut_acceptance_evidence}"
proof -
  obtain cl where cl: "classifications_for ''TaskDocument'' = Some cl" "map_of cl ''executionGraph'' = Some {Eff_structural_topology}"
    by (simp add: classifications_for_def TASK_DOCUMENT_FIELD_EFFECTS_def effect_defs)
  have edge: "classifications_for ''SprintExecutionEdge'' = Some [(''predecessor'', {Eff_structural_topology}),
      (''successor'', {Eff_structural_topology}), (''reason'', {Eff_normative_intent}), (''judgmentId'', {Eff_evidence})]"
    and graph: "classifications_for ''SprintExecutionGraph'' = Some [(''nodes'', {Eff_structural_topology}), (''edges'', {Eff_structural_topology})]"
    by (simp_all add: classifications_for_def TASK_DOCUMENT_FIELD_EFFECTS_def effect_defs)
  show ?thesis
    by (simp add: classify_task_document_mutation_def sample_graph_value_def sample_ref_value_def cl edge graph union_results_def)
qed

lemma sample_scopes: "resolve_projection_scope_union sample_tree ''repo'' [sample_scope_change] = Inr []"
  using sample_judgment_edit
  by (simp add: resolve_projection_scope_union_def sample_scope_change_def change_scopes_def change_classes_def
      invalidates_projection_def)

theorem sprint_outside_the_scopes_keeps_schedule_witness:
  "sample_graph_value ''J1'' \<noteq> sample_graph_value ''J2''
   \<and> drop_judgments (sample_graph_value ''J1'') = drop_judgments (sample_graph_value ''J2'')"
proof
  define S where "S = (\<lambda>cls. if cls = ''TaskDocument'' then Some [''executionGraph'']
    else if cls = ''SprintExecutionGraph'' then Some [''nodes'', ''edges'']
    else if cls = ''SprintExecutionEdge'' then Some [''predecessor'', ''successor'', ''reason'', ''judgmentId'']
    else Some [''repository'', ''path''])"
  have ok: "conforms S (Val_model ''TaskDocument'' [(''executionGraph'', sample_graph_value j)])" for j
    by (simp add: S_def sample_graph_value_def sample_ref_value_def)
  have shaped: "schedule_shaped (sample_graph_value j)" for j
    by (simp add: SCHEDULE_CLASSES_def sample_graph_value_def sample_ref_value_def)
  have sprint: "list_ex is_sprint [Task_Topology.sample_sprint, Task_Topology.sample_sprint]"
    by (simp add: is_sprint_def Task_Topology.sample_sprint_def)
  have docs: "sc_original sample_scope_change =
      Some (Task_Topology.sample_sprint, Val_model ''TaskDocument'' [(''executionGraph'', sample_graph_value ''J1'')])"
    "sc_candidate sample_scope_change =
      (Task_Topology.sample_sprint, Val_model ''TaskDocument'' [(''executionGraph'', sample_graph_value ''J2'')])"
    by (simp_all add: sample_scope_change_def)
  show "drop_judgments (sample_graph_value ''J1'') = drop_judgments (sample_graph_value ''J2'')"
    by (rule sprint_outside_the_scopes_keeps_schedule [OF sample_scopes _ docs ok ok sprint, where name = "''executionGraph''"])
      (simp_all add: shaped)
qed (simp add: sample_graph_value_def)

end
