(* ===== verification/Spec2Isabelle.thy ===== *)
theory Spec2Isabelle
  imports Inbox_Properties Cooldowns Gate_Tools Event_Retention Closeout_Queue Notifier_Findings Fact_Publication
    Register_Properties Closeout_Members Field_Effects
begin

text \<open>
  A verification of the control plane of agents-remember (\<open>src/mcp/src/agents_remember\<close>): the
  durable logs through which agents, their managers and the developer talk to each other, and the
  rules that decide what a recorded decision allows.

  \<^bold>\<open>The program.\<close> Several processes (one MCP server per agent, one dashboard, lifecycle operations)
  share a directory of JSONL logs. A log is appended to under a file lock, read strictly (a line
  that does not validate raises) or tolerantly (it is skipped), folded by id so that the last
  snapshot of a record wins, and compacted by rewriting it under the lock. On these logs rest the
  gates (requests for approval that a mutating tool must have granted before it runs), the operator
  inbox (messages to agents with delivery, backoff and expiry), the expectation rows (deadlines of
  dispatched work), the cooldown of notifier signals, the nudges and the dismissals. Beside them
  each agent session is a lifecycle: it records what happens to it as events in its own log, from
  which the dashboard projects its state, and old logs are retired or compacted. A gate lives in
  the directory of the lifecycle that raised it, so the two halves meet there.

  \<^bold>\<open>The theories.\<close>
  \<^item> \<open>Control_Prelude\<close>: raising code as a sum type, dicts as association lists, the last-wins fold,
    sorting and runs of step relations, with the lemmas the components share.
  \<^item> \<open>Timestamps\<close>: Python's \<open>isoformat\<close> and \<open>fromisoformat\<close> on proleptic Gregorian dates, naive and
    aware values, and \<open>controlplane/stamps.py\<close>. The round trip is proved for every representable value.
  \<^item> \<open>File_Lock\<close>: \<open>kernel/file_lock.py\<close> as a step relation over threads of processes.
  \<^item> \<open>Durable_Store\<close>: \<open>controlplane/durable_store.py\<close> and \<open>kernel/primitives/checkout_coordination.py\<close>:
    who may write where, schema versions, the two read policies, appends, rewrites, migration.
  \<^item> \<open>Task_Document_Ref\<close>: \<open>models/task_document_ref.py\<close>.
  \<^item> \<open>Gate_Records\<close>: \<open>kernel/primitives/gate_vocab.py\<close>, \<open>kernel/primitives/gate_policy.py\<close>,
    \<open>controlplane/records.py\<close>, \<open>controlplane/gate_policy.py\<close>, \<open>controlplane/enforcement.py\<close> and the
    gate half of \<open>controlplane/interaction_retention.py\<close>.
  \<^item> \<open>Gate_Store\<close>: \<open>controlplane/store.py\<close>, with the step relation of all its operations and its
    refinement of an abstract table of gates.
  \<^item> \<open>Inbox_Records\<close>, \<open>Inbox_Store\<close>, \<open>Inbox_Properties\<close>: \<open>models/operator_inbox.py\<close>,
    \<open>controlplane/operator_inbox_records.py\<close>, \<open>operator_inbox_store.py\<close>, \<open>operator_inbox_transitions.py\<close>,
    \<open>kernel/primitives/inbox_backoff.py\<close> and the inbox half of the retention.
  \<^item> \<open>Expectations\<close>: \<open>controlplane/expectation_rows.py\<close>.
  \<^item> \<open>Cooldowns\<close>: \<open>controlplane/agent_notifier_signals.py\<close>, \<open>orchestration_nudges.py\<close> and
    \<open>attention_dismissals.py\<close>.
  \<^item> \<open>Gate_Decisions\<close>: \<open>controlplane/gate_decisions.py\<close>, the one service that records a decision, over
    the gate store, the inbox and the expectation rows.
  \<^item> \<open>Gate_Tools\<close>: \<open>application/gate_tools.py\<close>, raising, waiting for, deciding and listing gates.
  \<^item> \<open>Lifecycle\<close>: the vocabulary of \<open>observer/lifecycle_state.py\<close> and \<open>save_gate.py\<close>, the events and
    their store (\<open>events.py\<close>, \<open>store.py\<close>) and the served ledger (\<open>served_store.py\<close>).
  \<^item> \<open>Ambient\<close>: \<open>observer/ambient.py\<close>, the session of one process with every transition.
  \<^item> \<open>Reducer\<close>: \<open>observer/reducer.py\<close>, the projection of logs and enclosures.
  \<^item> \<open>Lifecycle_Properties\<close>: the simulation between the session and the projection of its log.
  \<^item> \<open>Event_Retention\<close>: \<open>observer/event_retention.py\<close>, retirement of dormant logs and the compaction of
    the workspace river with the cursors of its readers.
  \<^item> \<open>Closeout_Queue\<close>: the closeout projection of a sprint, \<open>models/closeout/projection.py\<close>,
    \<open>controlplane/closeout_queue_store.py\<close> and \<open>worktrees/queue/closeout_projection_publication.py\<close>.
  \<^item> \<open>Planning_Registers\<close>, \<open>Register_Properties\<close>: the two Markdown tables of a sprint that decide the
    priority of a closeout candidate, and its grade (\<open>worktrees/queue/closeout_queue_evidence.py\<close>).
  \<^item> \<open>Closeout_Members\<close>: the sprint graph of the closeout queue, the readiness of a waiting door and the
    order of the members (\<open>worktrees/queue/closeout_queue_graph.py\<close>, \<open>closeout_projection_members.py\<close>,
    \<open>closeout_projection.py\<close>, \<open>models/lifecycles/door.py\<close>, \<open>worktrees/scheduling_mode.py\<close>).
  \<^item> \<open>Execution_Graph\<close>: the execution graph of a sprint, \<open>tasks/execution_graph_validation.py\<close> and its
    models in \<open>tasks/document.py\<close>.
  \<^item> \<open>Task_Paths\<close>, \<open>Task_Documents\<close>, \<open>Task_Progress\<close>: the files of a task root (\<open>tasks/task_paths.py\<close>), the
    task document with its validators (\<open>tasks/document.py\<close>, \<open>tasks/route_review.py\<close>), and what is read off
    it: progress, readiness (\<open>tasks/readiness.py\<close>), the placement of leaves on segments.
  \<^item> \<open>Task_Topology\<close>: \<open>tasks/document_refs.py\<close>, the tree of sprints, masters and leaves that the task
    documents declare, with the validation of a sprint's execution topology.
  \<^item> \<open>Task_Review\<close>: \<open>worktrees/review_history.py\<close>, the review rounds of a task document.
  \<^item> \<open>Task_Edits\<close>, \<open>Task_Edit_Properties\<close>: one edit of a task document with the guards of the tool
    (\<open>application/task_docs/task_doc_tools.py\<close>, \<open>task_doc_steps.py\<close>) and the row of a leaf in its
    master (\<open>tasks/master_sync.py\<close>).
  \<^item> \<open>Task_Store\<close>, \<open>Task_Publication\<close>, \<open>Fact_Publication\<close>: how an edit reaches the disk
    (\<open>tasks/store.py\<close>, \<open>application/task_docs/task_doc_publication.py\<close>) and the projections that depend on
    it (\<open>worktrees/task_fact_publication.py\<close>). The disk carries the outcomes of its next operations, so a
    write may fail, also after its effect.
  \<^item> \<open>Field_Effects\<close>: the taxonomy of the document fields, the planes that a change touches and the
    sprints whose projection it concerns (\<open>tasks/document_field_effects.py\<close>,
    \<open>application/task_docs/task_doc_queue_scope.py\<close>).
  \<^item> \<open>Routing\<close>: \<open>controlplane/seats.py\<close>, \<open>signal_routing.py\<close> and \<open>orchestration_artifacts.py\<close>: who sits on
    a seat and which seat owns a signal.
  \<^item> \<open>Notifier_Findings\<close>: what one sweep of the agent notifier finds (\<open>serving/_agent_notifier_evaluation.py\<close>,
    \<open>serving/state_signals.py\<close>, \<open>serving/inbox_reclamation.py\<close>).

  \<^bold>\<open>How code becomes definitions.\<close> An operation takes the host (declared process mode, checkout,
  locks held, which lock files exclude) and the store, and returns an error or its result with the
  new store. Clocks and generated ids are arguments. A duration is an integer number of
  microseconds. An error keeps its class and what distinguishes it, not its text. The JSON of a
  record is abstracted to a line that holds a record, is torn, or is blank; the validators that can
  reject or change a record are modelled. A handler that composes several stores is a function from
  a world to a result and the world it leaves, so a handler that raises keeps what it wrote before.
  The loops run over finite lists, except the two waits of \<open>Gate_Tools\<close>: they poll with fuel, what a
  poll finds is a function of its number, and one more poll than the timeout holds periods is
  enough fuel when every sleep lasts its period (a wait without a timeout may never return).

  \<^bold>\<open>What is shown.\<close> Authority: one approval is spent once over every interleaving of store operations,
  the store refines a table of gates in which a permitted claim turns an approved gate into an applied one,
  compaction never changes a verdict it should not, a log with a torn line or a line of an unknown version
  fails closed, the exact set of permitted verdicts, and that no accepted policy delegates the pinned kinds. Delivery: the first
  terminal verdict on a message is final under arbitrarily stale writers, no redelivery is faster
  than the floor unless the row is rebound or a stale renewal clears its schedule, what a compaction of the
  inbox keeps, and that a batch is its transitions one by
  one. Decisions: exactly which recorded approvals open a gate, that orchestration never decides a
  pinned kind, that a raise leaves one open gate (and the blocking tool then waits on it), and that a bounded wait
  returns. Lifecycles: the
  projection of a log is the state of the session that wrote it, the sweep and the projection agree
  on what is abandoned, and compaction of the river never moves a cursor past an unread event that is
  retained. Scheduling: an admitted execution graph is exactly an acyclic one, its waves place every
  node as early as its predecessors allow, a reported cycle is one; a reader of the closeout
  projection sees members only of the source it read, a revision names one projection, and a preview
  announces what a refresh does; a member is ready only when its leaf is complete, its door, grade and
  intent are current and the masters before it are terminal, and a grade is two rows of the sprint document. Tasks: validation of a document with
  its nested references is stable, an accepted topology resolves every commanded name to one master, a review keeps its budget
  and its sealed findings, no edit publishes a completed document with open work or loses open work
  unrecorded, and the row of a master follows its leaf; a batch of documents is written as a whole or
  not at all, and a transaction publishes on exact sources, is not failed by a projection and leaves
  no projection of the old facts; a sprint outside the scopes of a batch keeps the fields that schedule it.
  Routing: the seat a signal goes to does not depend on who occupies it, every climb to the sprint ends,
  and the notifier reports exactly the seats without an upstream, and settles the messages to dead seats by
  the occupant of their seat. Deadlines: compaction loses none and each falls due at its time. Cooldowns: reclaiming a log
  never lets a suppressed signal through. Isolation: the lock excludes, and a bare checkout writes
  only into its own group. Some theorems state behaviour that differs from what the code documents;
  they are closed counterexamples beside the theorem they limit.

  \<^bold>\<open>Not modelled.\<close> Of the modules above: the thread of the heartbeat (its tick is an operation), token
  series and analytics of the workspace view, response payloads beyond what they report, and the
  JSON encoding; of a task document the text fields no operation reads, its rendering and its storage.
  Outside them: the serving processes and the actions of the notifier, git worktrees, providers, memory
  search, the dashboard and the installation.
\<close>

end
